(* ===== verification/Prelude.thy ===== *)
theory Prelude
  imports Main "HOL-Library.Signed_Division"
begin

text \<open>
  Shared vocabulary of the development.

  \<^item> A contract call of the Rust code returns \<open>Result<A, Error>\<close>, and may instead abort the
    whole invocation (an arithmetic overflow under \<open>overflow-checks = true\<close>, a failed
    \<open>require_auth\<close>, a failed sub-call, \<open>unwrap\<close> of a missing value). The type
    \<open>('e, 'a) res\<close> has one value for each: \<open>Inr a\<close>, \<open>Inl (Err e)\<close> and \<open>Inl Trap\<close>.
    \<open>andThen\<close> is the \<open>?\<close> operator.
  \<^item> \<open>i128\<close> values are integers with the range written out; \<open>checked_*\<close> return an option and
    the plain operators trap outside the range. \<open>u64\<close> and \<open>u32\<close> values are naturals, with the
    upper bound written out in the same way.
  \<^item> \<open>map_total\<close> sums a field over the entries of a storage map.
\<close>

section \<open>Results\<close>

datatype 'e fail = Err 'e | Trap

type_synonym ('e, 'a) res = "'e fail + 'a"

definition andThen :: "('e, 'a) res \<Rightarrow> ('a \<Rightarrow> ('e, 'b) res) \<Rightarrow> ('e, 'b) res" where
  "andThen r f = (case r of Inl e \<Rightarrow> Inl e | Inr x \<Rightarrow> f x)"

definition ok_or :: "'e \<Rightarrow> 'a option \<Rightarrow> ('e, 'a) res" where
  "ok_or e x = (case x of None \<Rightarrow> Inl (Err e) | Some v \<Rightarrow> Inr v)"

definition unwrap :: "'a option \<Rightarrow> ('e, 'a) res" where
  "unwrap x = (case x of None \<Rightarrow> Inl Trap | Some v \<Rightarrow> Inr v)"

fun map_err :: "('e \<Rightarrow> 'f) \<Rightarrow> ('e, 'a) res \<Rightarrow> ('f, 'a) res" where
  "map_err f (Inl (Err e)) = Inl (Err (f e))"
| "map_err f (Inl Trap) = Inl Trap"
| "map_err f (Inr x) = Inr x"

named_theorems res_simps "success and failure of the result combinators"

lemma andThen_Inr [simp]: "andThen (Inr x) f = f x"
  by (simp add: andThen_def)

lemma andThen_Inl [simp]: "andThen (Inl e) f = Inl e"
  by (simp add: andThen_def)

lemma andThen_eq_Inr [res_simps]:
  "(andThen r f = Inr y) \<longleftrightarrow> (\<exists>x. r = Inr x \<and> f x = Inr y)"
  by (cases r) auto

lemma andThen_eq_Inl:
  "(andThen r f = Inl e) \<longleftrightarrow> (r = Inl e \<or> (\<exists>x. r = Inr x \<and> f x = Inl e))"
  by (cases r) auto

lemma ok_or_Some [simp]: "ok_or e (Some v) = Inr v"
  by (simp add: ok_or_def)

lemma ok_or_None [simp]: "ok_or e None = Inl (Err e)"
  by (simp add: ok_or_def)

lemma ok_or_eq_Inr [res_simps]: "(ok_or e x = Inr v) \<longleftrightarrow> (x = Some v)"
  by (cases x) auto

lemma ok_or_eq_Inl: "(ok_or e x = Inl d) \<longleftrightarrow> (x = None \<and> d = Err e)"
  by (cases x) auto

lemma unwrap_Some [simp]: "unwrap (Some v) = Inr v"
  by (simp add: unwrap_def)

lemma unwrap_None [simp]: "unwrap None = Inl Trap"
  by (simp add: unwrap_def)

lemma unwrap_eq_Inr [res_simps]: "(unwrap x = Inr v) \<longleftrightarrow> (x = Some v)"
  by (cases x) auto

lemma map_err_eq_Inr [res_simps]: "(map_err f r = Inr v) \<longleftrightarrow> (r = Inr v)"
  by (cases "(f, r)" rule: map_err.cases) auto

lemma if_Inl_eq_Inr [res_simps]:
  "((if b then Inl e else r) = Inr v) \<longleftrightarrow> (\<not> b \<and> r = Inr v)"
  by simp

lemma andThenE:
  assumes "andThen r f = Inr y"
  obtains x where "r = Inr x" and "f x = Inr y"
  using assms by (auto simp: res_simps)

lemma if_InlE:
  assumes "(if c then Inl e else r) = Inr y"
  obtains "\<not> c" and "r = Inr y"
  using assms by (auto split: if_splits)

section \<open>Signed 128-bit integers\<close>

definition in_i128 :: "int \<Rightarrow> bool" where
  "in_i128 x \<longleftrightarrow> - (2 ^ 127) \<le> x \<and> x \<le> 2 ^ 127 - 1"

definition checked_i128 :: "int \<Rightarrow> int option" where
  "checked_i128 x = (if in_i128 x then Some x else None)"

definition checked_add :: "int \<Rightarrow> int \<Rightarrow> int option" where
  "checked_add a b = checked_i128 (a + b)"

definition checked_sub :: "int \<Rightarrow> int \<Rightarrow> int option" where
  "checked_sub a b = checked_i128 (a - b)"

definition checked_mul :: "int \<Rightarrow> int \<Rightarrow> int option" where
  "checked_mul a b = checked_i128 (a * b)"

text \<open>The plain operators of a build with overflow checks.\<close>

definition add_i128 :: "int \<Rightarrow> int \<Rightarrow> ('e, int) res" where
  "add_i128 a b = unwrap (checked_add a b)"

definition sub_i128 :: "int \<Rightarrow> int \<Rightarrow> ('e, int) res" where
  "sub_i128 a b = unwrap (checked_sub a b)"

text \<open>Rust's \<open>/\<close> and \<open>%\<close> truncate towards zero and panic on a zero divisor.\<close>

definition div_i128 :: "int \<Rightarrow> int \<Rightarrow> ('e, int) res" where
  "div_i128 a b = (if b = 0 then Inl Trap else unwrap (checked_i128 (a sdiv b)))"

definition saturate_i128 :: "int \<Rightarrow> int" where
  "saturate_i128 x = max (- (2 ^ 127)) (min (2 ^ 127 - 1) x)"

named_theorems int_ops "success of the machine-integer operations"

lemma checked_i128_eq [int_ops]: "checked_i128 x = Some y \<longleftrightarrow> in_i128 x \<and> y = x"
  by (auto simp: checked_i128_def)

lemma checked_add_eq [int_ops]: "checked_add a b = Some c \<longleftrightarrow> in_i128 (a + b) \<and> c = a + b"
  by (auto simp: checked_add_def int_ops)

lemma checked_sub_eq [int_ops]: "checked_sub a b = Some c \<longleftrightarrow> in_i128 (a - b) \<and> c = a - b"
  by (auto simp: checked_sub_def int_ops)

lemma checked_mul_eq [int_ops]: "checked_mul a b = Some c \<longleftrightarrow> in_i128 (a * b) \<and> c = a * b"
  by (auto simp: checked_mul_def int_ops)

lemma add_i128_eq [int_ops]: "add_i128 a b = Inr c \<longleftrightarrow> in_i128 (a + b) \<and> c = a + b"
  by (auto simp: add_i128_def res_simps int_ops)

lemma sub_i128_eq [int_ops]: "sub_i128 a b = Inr c \<longleftrightarrow> in_i128 (a - b) \<and> c = a - b"
  by (auto simp: sub_i128_def res_simps int_ops)

lemma div_i128_eq [int_ops]:
  "div_i128 a b = Inr c \<longleftrightarrow> b \<noteq> 0 \<and> in_i128 (a sdiv b) \<and> c = a sdiv b"
  by (auto simp: div_i128_def res_simps int_ops)

lemmas i128_defs = in_i128_def checked_i128_def checked_add_def checked_sub_def checked_mul_def
  add_i128_def sub_i128_def div_i128_def

lemma in_i128_0 [simp]: "in_i128 0"
  by (simp add: in_i128_def)

lemma in_i128_between: "in_i128 a \<Longrightarrow> in_i128 c \<Longrightarrow> a \<le> b \<Longrightarrow> b \<le> c \<Longrightarrow> in_i128 b"
  by (simp add: in_i128_def)

lemma in_i128_below: "in_i128 c \<Longrightarrow> 0 \<le> b \<Longrightarrow> b \<le> c \<Longrightarrow> in_i128 b"
  by (rule in_i128_between [of 0]) auto

lemma in_i128_small: "\<bar>x\<bar> \<le> 2 ^ 126 \<Longrightarrow> in_i128 x"
  by (simp add: in_i128_def abs_le_iff)

lemma checked_i128_Some: "in_i128 x \<Longrightarrow> checked_i128 x = Some x"
  by (simp add: checked_i128_def)

lemma add_i128_Inr: "in_i128 (a + b) \<Longrightarrow> add_i128 a b = Inr (a + b)"
  by (simp add: int_ops)

lemma sub_i128_Inr: "in_i128 (a - b) \<Longrightarrow> sub_i128 a b = Inr (a - b)"
  by (simp add: int_ops)

lemma sdiv_nonneg: "0 \<le> a \<Longrightarrow> 0 \<le> b \<Longrightarrow> a sdiv b = a div (b::int)"
  by (cases "a = 0"; cases "b = 0") (auto simp: signed_divide_int_def sgn_if)

section \<open>Unsigned integers\<close>

definition u64_max :: nat where
  "u64_max = 2 ^ 64 - 1"

definition u32_max :: nat where
  "u32_max = 2 ^ 32 - 1"

definition add_u64 :: "nat \<Rightarrow> nat \<Rightarrow> ('e, nat) res" where
  "add_u64 a b = (if a + b \<le> u64_max then Inr (a + b) else Inl Trap)"

definition add_u32 :: "nat \<Rightarrow> nat \<Rightarrow> ('e, nat) res" where
  "add_u32 a b = (if a + b \<le> u32_max then Inr (a + b) else Inl Trap)"

text \<open>The plain subtraction of two unsigned values.\<close>

definition sub_nat :: "nat \<Rightarrow> nat \<Rightarrow> ('e, nat) res" where
  "sub_nat a b = (if b \<le> a then Inr (a - b) else Inl Trap)"

text \<open>\<open>saturating_sub\<close> on unsigned values is the subtraction of \<^typ>\<open>nat\<close>.\<close>

definition sat_add_u64 :: "nat \<Rightarrow> nat \<Rightarrow> nat" where
  "sat_add_u64 a b = min u64_max (a + b)"

definition as_u32 :: "int \<Rightarrow> nat" where
  "as_u32 x = nat (x mod 2 ^ 32)"

lemma add_u64_eq [int_ops]: "add_u64 a b = Inr c \<longleftrightarrow> a + b \<le> u64_max \<and> c = a + b"
  by (auto simp: add_u64_def)

lemma add_u32_eq [int_ops]: "add_u32 a b = Inr c \<longleftrightarrow> a + b \<le> u32_max \<and> c = a + b"
  by (auto simp: add_u32_def)

lemma sub_nat_eq [int_ops]: "sub_nat a b = Inr c \<longleftrightarrow> b \<le> a \<and> c = a - b"
  by (auto simp: sub_nat_def)

lemma as_u32_id: "0 \<le> x \<Longrightarrow> x < 2 ^ 32 \<Longrightarrow> as_u32 x = nat x"
  by (simp add: as_u32_def)

section \<open>Division, rounded down and up\<close>

definition ceil_div :: "int \<Rightarrow> int \<Rightarrow> int" where
  "ceil_div p c = (if p mod c \<noteq> 0 then p div c + 1 else p div c)"

lemma floor_div_bounds:
  assumes "0 < (c::int)"
  shows "p div c * c \<le> p \<and> p < (p div c + 1) * c"
proof -
  have "p - p div c * c = p mod c" by (rule minus_div_mult_eq_mod)
  moreover have "0 \<le> p mod c" "p mod c < c"
    using assms by (simp_all add: pos_mod_sign pos_mod_bound)
  ultimately show ?thesis by (auto simp add: distrib_right)
qed

lemma ceil_div_bounds:
  assumes "0 < (c::int)"
  shows "p \<le> ceil_div p c * c \<and> (ceil_div p c - 1) * c < p"
proof (cases "p mod c = 0")
  case True
  then have "p = p div c * c" by (metis add.right_neutral div_mult_mod_eq)
  with True assms show ?thesis by (auto simp: ceil_div_def left_diff_distrib)
next
  case False
  have "p - p div c * c = p mod c" by (rule minus_div_mult_eq_mod)
  moreover have "0 < p mod c"
    using False assms pos_mod_sign [of c p] by linarith
  moreover have "p mod c < c" using assms by (simp add: pos_mod_bound)
  ultimately show ?thesis using False by (auto simp add: ceil_div_def distrib_right)
qed

lemma ceil_div_le_iff:
  assumes "0 < c"
  shows "ceil_div p c \<le> q \<longleftrightarrow> p \<le> q * c"
proof
  assume "ceil_div p c \<le> q"
  then have "ceil_div p c * c \<le> q * c" using assms by (simp add: mult_right_mono)
  then show "p \<le> q * c" using ceil_div_bounds [OF assms, of p] by linarith
next
  assume "p \<le> q * c"
  then have "(ceil_div p c - 1) * c < q * c"
    using ceil_div_bounds [OF assms, of p] by linarith
  then have "ceil_div p c - 1 < q" using assms by (simp add: mult_less_cancel_right)
  then show "ceil_div p c \<le> q" by simp
qed

lemma le_floor_div_iff:
  assumes "0 < c"
  shows "q \<le> p div c \<longleftrightarrow> q * c \<le> (p::int)"
proof
  assume "q \<le> p div c"
  then have "q * c \<le> p div c * c" using assms by (simp add: mult_right_mono)
  then show "q * c \<le> p" using floor_div_bounds [OF assms, of p] by linarith
next
  assume "q * c \<le> p"
  then have "q * c < (p div c + 1) * c"
    using floor_div_bounds [OF assms, of p] by linarith
  then have "q < p div c + 1" using assms by (simp add: mult_less_cancel_right)
  then show "q \<le> p div c" by simp
qed

lemma ceil_div_nonneg: "0 \<le> p \<Longrightarrow> 0 < c \<Longrightarrow> 0 \<le> ceil_div p c"
  by (simp add: ceil_div_def pos_imp_zdiv_nonneg_iff)

lemma ceil_div_pos: "0 < p \<Longrightarrow> 0 < c \<Longrightarrow> 0 < ceil_div p c"
  using ceil_div_le_iff [of c p 0] by (simp add: not_le [symmetric])

section \<open>Sums over a storage map\<close>

definition map_total :: "('v \<Rightarrow> int) \<Rightarrow> ('k \<Rightarrow> 'v option) \<Rightarrow> int" where
  "map_total f m = (\<Sum>k\<in>dom m. f (the (m k)))"

definition at_key :: "('v \<Rightarrow> int) \<Rightarrow> ('k \<Rightarrow> 'v option) \<Rightarrow> 'k \<Rightarrow> int" where
  "at_key f m k = (case m k of None \<Rightarrow> 0 | Some v \<Rightarrow> f v)"

lemma map_total_empty [simp]: "map_total f Map.empty = 0"
  by (simp add: map_total_def)

lemma map_total_split:
  assumes "finite (dom m)"
  shows "map_total f m = at_key f m k + (\<Sum>j\<in>dom m - {k}. f (the (m j)))"
proof (cases "m k")
  case None
  then have "dom m - {k} = dom m" by auto
  with None show ?thesis by (simp add: map_total_def at_key_def)
next
  case (Some v)
  then have "k \<in> dom m" by auto
  with Some assms show ?thesis
    by (simp add: map_total_def at_key_def sum.remove [of "dom m" k])
qed

lemma finite_dom_upd: "finite (dom m) \<Longrightarrow> finite (dom (m(k := x)))"
  by (rule finite_subset [of _ "insert k (dom m)"]) (auto split: if_splits)

lemma map_total_upd:
  assumes "finite (dom m)"
  shows "map_total f (m(k := x)) = map_total f m - at_key f m k
           + (case x of None \<Rightarrow> 0 | Some v \<Rightarrow> f v)"
proof -
  have fin: "finite (dom (m(k := x)))"
    using assms by (rule finite_dom_upd)
  have "dom (m(k := x)) - {k} = dom m - {k}" by auto
  then have "(\<Sum>j\<in>dom (m(k := x)) - {k}. f (the ((m(k := x)) j)))
      = (\<Sum>j\<in>dom m - {k}. f (the (m j)))"
    by (auto intro!: sum.cong)
  then show ?thesis
    using map_total_split [OF fin, of f k] map_total_split [OF assms, of f k]
    by (simp add: at_key_def)
qed

lemma map_total_nonneg: "(\<And>k v. m k = Some v \<Longrightarrow> 0 \<le> f v) \<Longrightarrow> 0 \<le> map_total f m"
  by (auto simp: map_total_def intro!: sum_nonneg)

lemma at_key_le_total:
  assumes "finite (dom m)" and "\<And>k v. m k = Some v \<Longrightarrow> 0 \<le> f v"
  shows "at_key f m k \<le> map_total f m"
proof -
  have "0 \<le> (\<Sum>j\<in>dom m - {k}. f (the (m j)))"
    using assms(2) by (auto intro!: sum_nonneg)
  then show ?thesis using map_total_split [OF assms(1), of f k] by simp
qed

text \<open>Sums over the identifiers below a counter, when one of them changes.\<close>

lemma sum_below_upd:
  assumes "i < (n::nat)" and "\<And>j. j \<noteq> i \<Longrightarrow> g j = f j"
  shows "(\<Sum>j<n. g j) = (\<Sum>j<n. f j) - f i + (g i :: int)"
proof -
  have "(\<Sum>j<n. g j) = g i + (\<Sum>j\<in>{..<n} - {i}. g j)"
    using assms(1) by (simp add: sum.remove)
  also have "(\<Sum>j\<in>{..<n} - {i}. g j) = (\<Sum>j\<in>{..<n} - {i}. f j)"
    using assms(2) by (auto intro!: sum.cong)
  finally show ?thesis
    using assms(1) by (simp add: sum.remove [of "{..<n}" i f])
qed

section \<open>Bytes and maps\<close>

text \<open>\<open>to_be_bytes\<close> of an unsigned value of \<open>k\<close> bytes.\<close>

fun be_bytes :: "nat \<Rightarrow> nat \<Rightarrow> nat list" where
  "be_bytes 0 n = []"
| "be_bytes (Suc k) n = be_bytes k (n div 256) @ [n mod 256]"

lemma be_bytes_length [simp]: "length (be_bytes k n) = k"
  by (induction k arbitrary: n) auto

lemma be_bytes_inj:
  "be_bytes k n = be_bytes k m \<Longrightarrow> n < 256 ^ k \<Longrightarrow> m < 256 ^ k \<Longrightarrow> n = m"
proof (induction k arbitrary: n m)
  case (Suc k)
  then have "be_bytes k (n div 256) = be_bytes k (m div 256)" "n mod 256 = m mod 256" by simp_all
  moreover have "n div 256 < 256 ^ k" "m div 256 < 256 ^ k"
    using Suc.prems(2,3) by (simp_all add: less_mult_imp_div_less mult.commute)
  ultimately have "n div 256 = m div 256" using Suc.IH by blast
  then show ?case using \<open>n mod 256 = m mod 256\<close> by (metis div_mult_mod_eq)
qed simp

lemma map_leE: "f \<subseteq>\<^sub>m g \<Longrightarrow> f x = Some y \<Longrightarrow> g x = Some y"
  by (metis domI map_le_def)

end
