(* ===== verification/FpmmMath.thy ===== *)
theory FpmmMath
  imports Prelude
begin

text \<open>
  The integer arithmetic of the constant-product market maker, from
  \<^verbatim>\<open>contracts/market-core/src/math.rs\<close>: multiplication with division, the opening reserves
  of a pool, buying, selling for an exact payout, selling an exact number of shares (with the
  integer square root it needs), price limits, the fee split and the settlement values.
  Amounts are \<open>i128\<close> (integers with explicit range checks), fee rates \<open>u32\<close>, and the square
  root works on \<open>u128\<close> values (naturals below \<open>2 ^ 128\<close>).
\<close>

section \<open>Constants and types\<close>

definition BPS :: int where
  "BPS = 10000"

definition MAX_SETS :: int where
  "MAX_SETS = 1000000000000000000"

definition MIN_PROB_BPS :: nat where
  "MIN_PROB_BPS = 100"

definition MAX_PROB_BPS :: nat where
  "MAX_PROB_BPS = 9900"

datatype math_error = Overflow | InvalidInput | InsufficientLiquidity

datatype settlement = SettleYes | SettleNo | SettleVoid

record buy_quote =
  bq_shares_out :: int
  bq_fee :: int
  bq_net :: int
  bq_new_reserve_bought :: int
  bq_new_reserve_other :: int

record sell_quote =
  sq_shares_in :: int
  sq_fee :: int
  sq_gross :: int
  sq_new_reserve_sold :: int
  sq_new_reserve_other :: int

record sell_shares_quote =
  ssq_collateral_out :: int
  ssq_fee :: int
  ssq_gross :: int
  ssq_new_reserve_sold :: int
  ssq_new_reserve_other :: int

record seed_reserves_rec =
  sr_reserve_yes :: int
  sr_reserve_no :: int
  sr_creator_yes :: int
  sr_creator_no :: int

section \<open>Operations\<close>

definition mul :: "int \<Rightarrow> int \<Rightarrow> (math_error, int) res" where
  "mul a b = ok_or Overflow (checked_mul a b)"

definition mul_div_floor :: "int \<Rightarrow> int \<Rightarrow> int \<Rightarrow> (math_error, int) res" where
  "mul_div_floor a b c =
     (if a < 0 \<or> b < 0 \<or> c \<le> 0 then Inl (Err InvalidInput)
      else andThen (mul a b) (\<lambda>p. div_i128 p c))"

definition mul_div_ceil :: "int \<Rightarrow> int \<Rightarrow> int \<Rightarrow> (math_error, int) res" where
  "mul_div_ceil a b c =
     (if a < 0 \<or> b < 0 \<or> c \<le> 0 then Inl (Err InvalidInput)
      else andThen (mul a b) (\<lambda>p.
           andThen (div_i128 p c) (\<lambda>q.
             if p smod c \<noteq> 0 then add_i128 q 1 else Inr q)))"

definition price_yes_bps :: "int \<Rightarrow> int \<Rightarrow> (math_error, int) res" where
  "price_yes_bps reserve_yes reserve_no =
     andThen (ok_or Overflow (checked_add reserve_yes reserve_no)) (\<lambda>sum.
       if sum \<le> 0 then Inl (Err InsufficientLiquidity)
       else mul_div_floor reserve_no BPS sum)"

definition price_after :: "bool \<Rightarrow> int \<Rightarrow> int \<Rightarrow> (math_error, int) res" where
  "price_after outcome_is_yes r_after r_other_after =
     (if outcome_is_yes then price_yes_bps r_after r_other_after
      else price_yes_bps r_other_after r_after)"

definition seed_reserves :: "int \<Rightarrow> nat \<Rightarrow> (math_error, seed_reserves_rec) res" where
  "seed_reserves seed yes_bps =
     (if seed \<le> 0 \<or> \<not> (MIN_PROB_BPS \<le> yes_bps \<and> yes_bps \<le> MAX_PROB_BPS)
      then Inl (Err InvalidInput)
      else let p = int yes_bps in
        andThen (if BPS div 2 \<le> p
                 then andThen (mul_div_floor seed (BPS - p) p) (\<lambda>r. Inr (r, seed))
                 else andThen (mul_div_floor seed p (BPS - p)) (\<lambda>r. Inr (seed, r)))
          (\<lambda>(reserve_yes, reserve_no).
             if reserve_yes \<le> 0 \<or> reserve_no \<le> 0 then Inl (Err InvalidInput)
             else andThen (sub_i128 seed reserve_yes) (\<lambda>creator_yes.
                  andThen (sub_i128 seed reserve_no) (\<lambda>creator_no.
                    Inr \<lparr>sr_reserve_yes = reserve_yes, sr_reserve_no = reserve_no,
                         sr_creator_yes = creator_yes, sr_creator_no = creator_no\<rparr>))))"

definition calc_buy :: "int \<Rightarrow> int \<Rightarrow> int \<Rightarrow> nat \<Rightarrow> (math_error, buy_quote) res" where
  "calc_buy r_bought r_other collateral_in fee_bps =
     (if collateral_in \<le> 0 \<or> r_bought \<le> 0 \<or> r_other \<le> 0 then Inl (Err InvalidInput)
      else andThen (mul_div_ceil collateral_in (int fee_bps) BPS) (\<lambda>fee.
           andThen (sub_i128 collateral_in fee) (\<lambda>net.
           if net \<le> 0 then Inl (Err InvalidInput)
           else andThen (ok_or Overflow (checked_add r_other net)) (\<lambda>new_other.
                andThen (mul_div_ceil r_bought r_other new_other) (\<lambda>new_bought.
                andThen (ok_or Overflow (checked_add r_bought net)) (\<lambda>minted.
                andThen (sub_i128 minted new_bought) (\<lambda>shares_out.
                if shares_out \<le> 0 then Inl (Err InvalidInput)
                else Inr \<lparr>bq_shares_out = shares_out, bq_fee = fee, bq_net = net,
                          bq_new_reserve_bought = new_bought,
                          bq_new_reserve_other = new_other\<rparr>)))))))"

definition calc_sell :: "int \<Rightarrow> int \<Rightarrow> int \<Rightarrow> nat \<Rightarrow> (math_error, sell_quote) res" where
  "calc_sell r_sold r_other collateral_out fee_bps =
     (if collateral_out \<le> 0 \<or> r_sold \<le> 0 \<or> r_other \<le> 0 \<or> BPS \<le> int fee_bps
      then Inl (Err InvalidInput)
      else andThen (mul_div_ceil collateral_out BPS (BPS - int fee_bps)) (\<lambda>gross.
           andThen (sub_i128 gross collateral_out) (\<lambda>fee.
           if r_other \<le> gross then Inl (Err InsufficientLiquidity)
           else andThen (sub_i128 r_other gross) (\<lambda>new_other.
                andThen (mul_div_ceil r_sold r_other new_other) (\<lambda>new_sold.
                andThen (ok_or Overflow (checked_add new_sold gross)) (\<lambda>total.
                andThen (sub_i128 total r_sold) (\<lambda>shares_in.
                if shares_in \<le> 0 then Inl (Err InvalidInput)
                else Inr \<lparr>sq_shares_in = shares_in, sq_fee = fee, sq_gross = gross,
                          sq_new_reserve_sold = new_sold,
                          sq_new_reserve_other = new_other\<rparr>)))))))"

subsection \<open>The integer square root\<close>

text \<open>
  \<open>bit_len n\<close> is \<open>128 - n.leading_zeros()\<close> for a \<open>u128\<close>. The loop body of \<open>isqrt\<close> divides by
  \<open>x\<close> and adds, so both can trap; \<open>isqrt_total\<close> below shows that neither ever does.
\<close>

fun bit_len :: "nat \<Rightarrow> nat" where
  "bit_len n = (if n = 0 then 0 else Suc (bit_len (n div 2)))"

declare bit_len.simps [simp del]

definition leading_zeros :: "nat \<Rightarrow> nat" where
  "leading_zeros n = 128 - bit_len n"

definition newton_step :: "nat \<Rightarrow> nat \<Rightarrow> nat" where
  "newton_step n x = (x + n div x) div 2"

function isqrt_loop :: "nat \<Rightarrow> nat \<Rightarrow> ('e, nat) res" where
  "isqrt_loop n x =
     (if x = 0 \<or> 2 ^ 128 \<le> x + n div x then Inl Trap
      else if x \<le> newton_step n x then Inr x
      else isqrt_loop n (newton_step n x))"
  by pat_completeness auto
termination
  by (relation "measure (\<lambda>(n, x). x)") auto

declare isqrt_loop.simps [simp del]

definition isqrt :: "nat \<Rightarrow> ('e, nat) res" where
  "isqrt n =
     (if n < 2 then Inr n
      else let shift = (128 - leading_zeros n + 1) div 2 in isqrt_loop n (2 ^ shift))"

subsection \<open>Selling an exact number of shares\<close>

definition checked_mul_u128 :: "nat \<Rightarrow> nat \<Rightarrow> nat option" where
  "checked_mul_u128 a b = (if a * b < 2 ^ 128 then Some (a * b) else None)"

definition checked_sub_u128 :: "nat \<Rightarrow> nat \<Rightarrow> nat option" where
  "checked_sub_u128 a b = (if b \<le> a then Some (a - b) else None)"

text \<open>The pool-favouring correction: decrement \<open>x\<close> while the invariant would drop.\<close>

fun sell_shares_correct :: "int \<Rightarrow> int \<Rightarrow> int \<Rightarrow> nat \<Rightarrow> (math_error, nat) res" where
  "sell_shares_correct r_sold r_other shares_in x =
     (if x = 0 then Inr x
      else andThen (ok_or Overflow (checked_add r_sold shares_in)) (\<lambda>total.
           andThen (sub_i128 total (int x)) (\<lambda>new_sold.
           andThen (sub_i128 r_other (int x)) (\<lambda>new_other.
           andThen (ok_or Overflow (checked_mul new_sold new_other)) (\<lambda>left.
           andThen (ok_or Overflow (checked_mul r_sold r_other)) (\<lambda>right.
             if right \<le> left then Inr x
             else sell_shares_correct r_sold r_other shares_in (x - 1)))))))"

declare sell_shares_correct.simps [simp del]

definition calc_sell_shares ::
  "int \<Rightarrow> int \<Rightarrow> int \<Rightarrow> nat \<Rightarrow> (math_error, sell_shares_quote) res" where
  "calc_sell_shares r_sold r_other shares_in fee_bps =
     (if shares_in \<le> 0 \<or> r_sold \<le> 0 \<or> r_other \<le> 0 \<or> BPS \<le> int fee_bps
      then Inl (Err InvalidInput)
      else andThen (ok_or Overflow (checked_add shares_in r_other)) (\<lambda>so.
           andThen (ok_or Overflow (checked_add r_sold so)) (\<lambda>b.
           andThen (ok_or Overflow (checked_mul_u128 (nat b) (nat b))) (\<lambda>b2.
           andThen (ok_or Overflow (checked_mul_u128 (nat r_other) (nat shares_in))) (\<lambda>rs.
           andThen (ok_or Overflow (checked_mul_u128 rs 4)) (\<lambda>four_r_shares.
           andThen (ok_or Overflow (checked_sub_u128 b2 four_r_shares)) (\<lambda>d.
           andThen (isqrt d) (\<lambda>sqrt_d.
           andThen (sub_nat (nat b) sqrt_d) (\<lambda>diff.
           andThen (sell_shares_correct r_sold r_other shares_in (diff div 2)) (\<lambda>xu.
           if xu = 0 \<or> nat r_other \<le> xu then Inl (Err InsufficientLiquidity)
           else let x = int xu in
             andThen (mul_div_floor x (BPS - int fee_bps) BPS) (\<lambda>collateral_out.
             andThen (sub_i128 x collateral_out) (\<lambda>fee.
             if collateral_out \<le> 0 then Inl (Err InvalidInput)
             else andThen (ok_or Overflow (checked_add r_sold shares_in)) (\<lambda>total.
                  andThen (sub_i128 total x) (\<lambda>new_sold.
                  andThen (sub_i128 r_other x) (\<lambda>new_other.
                    Inr \<lparr>ssq_collateral_out = collateral_out, ssq_fee = fee, ssq_gross = x,
                         ssq_new_reserve_sold = new_sold,
                         ssq_new_reserve_other = new_other\<rparr>)))))))))))))))"

subsection \<open>Limits, fee split and settlement\<close>

definition buy_within_limit :: "int \<Rightarrow> int \<Rightarrow> nat \<Rightarrow> (math_error, bool) res" where
  "buy_within_limit collateral_in shares_out limit_bps =
     (if collateral_in < 0 \<or> shares_out \<le> 0 then Inl (Err InvalidInput)
      else andThen (mul collateral_in BPS) (\<lambda>a.
           andThen (mul shares_out (int limit_bps)) (\<lambda>b. Inr (a \<le> b))))"

definition sell_within_limit :: "int \<Rightarrow> int \<Rightarrow> nat \<Rightarrow> (math_error, bool) res" where
  "sell_within_limit collateral_out shares_in limit_bps =
     (if collateral_out < 0 \<or> shares_in \<le> 0 then Inl (Err InvalidInput)
      else andThen (mul collateral_out BPS) (\<lambda>a.
           andThen (mul shares_in (int limit_bps)) (\<lambda>b. Inr (b \<le> a))))"

definition split_fee :: "int \<Rightarrow> nat \<Rightarrow> (math_error, int \<times> int) res" where
  "split_fee fee protocol_share_bps =
     (if fee < 0 \<or> BPS < int protocol_share_bps then Inl (Err InvalidInput)
      else andThen (mul_div_ceil fee (int protocol_share_bps) BPS) (\<lambda>protocol.
           andThen (sub_i128 fee protocol) (\<lambda>lp. Inr (protocol, lp))))"

fun settle_value :: "settlement \<Rightarrow> int \<Rightarrow> int \<Rightarrow> ('e, int) res" where
  "settle_value SettleYes yes no = Inr yes"
| "settle_value SettleNo yes no = Inr no"
| "settle_value SettleVoid yes no = andThen (add_i128 yes no) (\<lambda>s. div_i128 s 2)"

definition merge_max :: "int \<Rightarrow> int \<Rightarrow> int" where
  "merge_max yes no =
     (let y = (if yes < 0 then 0 else yes); n = (if no < 0 then 0 else no)
      in if y < n then y else n)"

fun settle_upper :: "settlement \<Rightarrow> int \<Rightarrow> int \<Rightarrow> ('e, int) res" where
  "settle_upper SettleYes yes no = Inr yes"
| "settle_upper SettleNo yes no = Inr no"
| "settle_upper SettleVoid yes no = andThen (add_i128 yes no) (\<lambda>s. div_i128 s 2)"

end
