(* ===== verification/FpmmCorrect.thy ===== *)
theory FpmmCorrect
  imports FpmmMath
begin

text \<open>
  Correctness of the arithmetic of \<^theory_text>\<open>FpmmMath\<close>: what each quote returns on
  success, that no call on an in-bounds pool traps or overflows, that the product of the
  reserves never falls, that a trader cannot extract value by trading in circles, the exactness
  of the integer square root, and the rounding of fees and settlement values.
\<close>

section \<open>Multiplication with division\<close>

named_theorems fpmm "what the arithmetic operations return on success"

lemma mul_eq [fpmm]: "mul a b = Inr p \<longleftrightarrow> in_i128 (a * b) \<and> p = a * b"
  by (auto simp: mul_def res_simps int_ops)

lemma in_i128_div:
  assumes "in_i128 p" "0 \<le> p" "0 < c"
  shows "in_i128 (p div c)"
proof (rule in_i128_below [OF assms(1)])
  show 0: "0 \<le> p div c" using assms by (simp add: pos_imp_zdiv_nonneg_iff)
  have "p div c * 1 \<le> p div c * c" using 0 assms by (intro mult_left_mono) auto
  then show "p div c \<le> p" using floor_div_bounds [OF assms(3), of p] by simp
qed

lemma ceil_div_le: "0 \<le> p \<Longrightarrow> 0 < c \<Longrightarrow> ceil_div p c \<le> p"
proof -
  assume "0 \<le> p" "0 < c"
  then have "p * 1 \<le> p * c" by (intro mult_left_mono) auto
  with \<open>0 < c\<close> show ?thesis by (simp add: ceil_div_le_iff)
qed

lemma in_i128_ceil_div: "in_i128 p \<Longrightarrow> 0 \<le> p \<Longrightarrow> 0 < c \<Longrightarrow> in_i128 (ceil_div p c)"
  by (rule in_i128_below [of p]) (auto simp: ceil_div_nonneg ceil_div_le)

lemma mul_div_floor_eq [fpmm]:
  "mul_div_floor a b c = Inr q \<longleftrightarrow>
     0 \<le> a \<and> 0 \<le> b \<and> 0 < c \<and> in_i128 (a * b) \<and> q = a * b div c"
  by (auto simp: mul_div_floor_def res_simps fpmm int_ops sdiv_nonneg in_i128_div)

lemma smod_nonneg: "0 \<le> a \<Longrightarrow> 0 < b \<Longrightarrow> a smod b = a mod (b::int)"
  by (cases "a = 0") (simp_all add: signed_modulo_int_def)

lemma mul_div_ceil_eq [fpmm]:
  "mul_div_ceil a b c = Inr q \<longleftrightarrow>
     0 \<le> a \<and> 0 \<le> b \<and> 0 < c \<and> in_i128 (a * b) \<and> q = ceil_div (a * b) c"
proof (cases "0 \<le> a \<and> 0 \<le> b \<and> 0 < c \<and> in_i128 (a * b)")
  case True
  then have p: "mul a b = Inr (a * b)" by (simp add: mul_eq)
  have "(div_i128 (a * b) c :: (math_error, int) res) = Inr (a * b div c)"
    using True by (auto simp: int_ops sdiv_nonneg in_i128_div)
  moreover have "(if a * b smod c \<noteq> 0 then add_i128 (a * b div c) 1 else Inr (a * b div c))
      = (Inr (ceil_div (a * b) c) :: (math_error, int) res)"
    using in_i128_ceil_div [of "a * b" c] True
    by (auto simp: smod_nonneg ceil_div_def int_ops)
  ultimately have "mul_div_ceil a b c = Inr (ceil_div (a * b) c)"
    using True p by (simp add: mul_div_ceil_def)
  with True show ?thesis by auto
next
  case False
  then show ?thesis by (auto simp: mul_div_ceil_def res_simps fpmm)
qed

section \<open>Buying\<close>

lemma BPS_pos [simp]: "0 < BPS"
  by (simp add: BPS_def)

lemma calc_buyD:
  assumes "calc_buy rb ro cin f = Inr q"
  shows "0 < cin" "0 < rb" "0 < ro"
    and "bq_fee q = ceil_div (cin * int f) BPS" "bq_net q = cin - bq_fee q" "0 < bq_net q"
    and "bq_new_reserve_other q = ro + bq_net q"
    and "bq_new_reserve_bought q = ceil_div (rb * ro) (ro + bq_net q)"
    and "bq_shares_out q = rb + bq_net q - bq_new_reserve_bought q" "0 < bq_shares_out q"
    and "in_i128 (ro + bq_net q)" "in_i128 (rb + bq_net q)" "in_i128 (bq_net q)"
    and "in_i128 (bq_shares_out q)"
  using assms by (auto simp: calc_buy_def res_simps fpmm int_ops split: if_splits)

lemma calc_buy_reserves_pos:
  assumes "calc_buy rb ro cin f = Inr q"
  shows "0 < bq_new_reserve_bought q" "ro < bq_new_reserve_other q" "0 \<le> bq_fee q"
    and "bq_new_reserve_bought q \<le> rb"
proof -
  note D = calc_buyD [OF assms]
  show "0 < bq_new_reserve_bought q" using D by (simp add: ceil_div_pos)
  show "ro < bq_new_reserve_other q" using D by simp
  show "0 \<le> bq_fee q" using D(1) by (simp add: D(4) ceil_div_nonneg)
  have "rb * ro \<le> rb * (ro + bq_net q)" using D by (intro mult_left_mono) auto
  then show "bq_new_reserve_bought q \<le> rb" using D by (simp add: ceil_div_le_iff)
qed

lemma calc_buy_k:
  assumes "calc_buy rb ro cin f = Inr q"
  shows "rb * ro \<le> bq_new_reserve_bought q * bq_new_reserve_other q"
  using ceil_div_bounds [of "ro + bq_net q" "rb * ro"] calc_buyD [OF assms] by simp

lemma in_i128_MAX_SETS_mult:
  assumes "0 \<le> a" "a \<le> 4 * MAX_SETS" "0 \<le> b" "b \<le> 4 * MAX_SETS"
  shows "in_i128 (a * b)"
proof -
  have "a * b \<le> (4 * MAX_SETS) * (4 * MAX_SETS)"
    using assms by (intro mult_mono) (auto simp: MAX_SETS_def)
  moreover have "0 \<le> a * b" using assms by simp
  ultimately show ?thesis by (simp add: in_i128_def MAX_SETS_def)
qed

lemma in_i128_MAX_SETS: "0 \<le> a \<Longrightarrow> a \<le> 8 * MAX_SETS \<Longrightarrow> in_i128 a"
  by (simp add: in_i128_def MAX_SETS_def)

text \<open>On a pool within the size bound, a buy fails only when the fee eats the whole payment.\<close>

lemma calc_buy_total:
  assumes "0 < rb" "rb \<le> MAX_SETS" "0 < ro" "ro \<le> MAX_SETS" "0 < cin" "cin \<le> MAX_SETS"
    and "int f \<le> BPS"
    and fee_def: "fee = ceil_div (cin * int f) BPS"
  shows "calc_buy rb ro cin f =
    (if cin - fee \<le> 0 then Inl (Err InvalidInput)
     else Inr \<lparr>bq_shares_out = rb + (cin - fee) - ceil_div (rb * ro) (ro + (cin - fee)),
               bq_fee = fee, bq_net = cin - fee,
               bq_new_reserve_bought = ceil_div (rb * ro) (ro + (cin - fee)),
               bq_new_reserve_other = ro + (cin - fee)\<rparr>)"
proof -
  have fee: "mul_div_ceil cin (int f) BPS = Inr fee"
    using assms by (auto simp: mul_div_ceil_eq fee_def BPS_def MAX_SETS_def
        intro!: in_i128_MAX_SETS_mult)
  have fee0: "0 \<le> fee" using assms by (simp add: fee_def ceil_div_nonneg)
  have "cin * int f \<le> cin * BPS" using assms by (intro mult_left_mono) auto
  then have fee1: "fee \<le> cin" by (simp add: fee_def ceil_div_le_iff)
  have net': "(sub_i128 cin fee :: (math_error, int) res) = Inr (cin - fee)"
    using assms fee0 fee1 by (intro sub_i128_Inr in_i128_MAX_SETS) auto
  show ?thesis
  proof (cases "cin - fee \<le> 0")
    case True
    then show ?thesis using assms(1,3,5) fee net' by (simp add: calc_buy_def)
  next
    case False
    define net where "net = cin - fee"
    have n: "0 < net" "net \<le> MAX_SETS" using False fee0 assms by (auto simp: net_def)
    have c0: "0 \<le> ceil_div (rb * ro) (ro + net)"
      using assms n by (simp add: ceil_div_nonneg)
    have "rb * ro \<le> rb * (ro + net)" using assms n by (intro mult_left_mono) auto
    then have c1: "ceil_div (rb * ro) (ro + net) \<le> rb"
      using assms n by (simp add: ceil_div_le_iff)
    have "mul_div_ceil rb ro (ro + net) = Inr (ceil_div (rb * ro) (ro + net))"
      using assms n by (auto simp: mul_div_ceil_eq intro!: in_i128_MAX_SETS_mult)
    moreover have "checked_add ro net = Some (ro + net)" "checked_add rb net = Some (rb + net)"
      using assms n by (auto simp: checked_add_eq intro!: in_i128_MAX_SETS)
    moreover have "(sub_i128 (rb + net) (ceil_div (rb * ro) (ro + net)) :: (math_error, int) res)
        = Inr (rb + net - ceil_div (rb * ro) (ro + net))"
      using assms n c0 c1 by (intro sub_i128_Inr in_i128_MAX_SETS) auto
    moreover have "\<not> rb + net - ceil_div (rb * ro) (ro + net) \<le> 0" using n c1 by simp
    ultimately show ?thesis
      using assms(1,3,5) fee net' n by (simp add: calc_buy_def net_def [symmetric])
  qed
qed

section \<open>Selling for an exact payout\<close>

lemma calc_sellD:
  assumes "calc_sell rs ro out f = Inr q"
  shows "0 < out" "0 < rs" "0 < ro" "int f < BPS"
    and "sq_gross q = ceil_div (out * BPS) (BPS - int f)" "sq_fee q = sq_gross q - out"
    and "sq_gross q < ro" "sq_new_reserve_other q = ro - sq_gross q"
    and "sq_new_reserve_sold q = ceil_div (rs * ro) (ro - sq_gross q)"
    and "sq_shares_in q = sq_new_reserve_sold q + sq_gross q - rs" "0 < sq_shares_in q"
    and "in_i128 (sq_shares_in q)"
  using assms by (auto simp: calc_sell_def res_simps fpmm int_ops split: if_splits)

lemma calc_sell_reserves_pos:
  assumes "calc_sell rs ro out f = Inr q"
  shows "0 < sq_new_reserve_sold q" "0 < sq_new_reserve_other q" "0 \<le> sq_fee q"
    and "out \<le> sq_gross q" "rs \<le> sq_new_reserve_sold q"
proof -
  note D = calc_sellD [OF assms]
  have "0 < BPS - int f" using D(4) by simp
  then have "out * BPS \<le> sq_gross q * (BPS - int f)"
    using ceil_div_bounds [of "BPS - int f" "out * BPS"] D(5) by simp
  moreover have "sq_gross q * (BPS - int f) \<le> sq_gross q * BPS"
    using D(1) \<open>0 < BPS - int f\<close> by (intro mult_left_mono) (auto simp: D(5) ceil_div_nonneg)
  ultimately have "out * BPS \<le> sq_gross q * BPS" by linarith
  then show g: "out \<le> sq_gross q" by (simp add: BPS_def)
  then show "0 \<le> sq_fee q" using D by simp
  show "0 < sq_new_reserve_other q" using D by simp
  then show "0 < sq_new_reserve_sold q" using D by (simp add: ceil_div_pos)
  have "rs * (ro - sq_gross q) \<le> rs * ro" using D g by (intro mult_left_mono) auto
  moreover have "rs * ro \<le> sq_new_reserve_sold q * (ro - sq_gross q)"
    using ceil_div_bounds [of "ro - sq_gross q" "rs * ro"] D by simp
  ultimately have "rs * (ro - sq_gross q) \<le> sq_new_reserve_sold q * (ro - sq_gross q)"
    by linarith
  then show "rs \<le> sq_new_reserve_sold q" using D(7) by simp
qed

lemma calc_sell_k:
  assumes "calc_sell rs ro out f = Inr q"
  shows "rs * ro \<le> sq_new_reserve_sold q * sq_new_reserve_other q"
  using ceil_div_bounds [of "ro - sq_gross q" "rs * ro"] calc_sellD [OF assms] by simp

section \<open>No risk-free profit\<close>

text \<open>
  A trader acting alone on one pool: the reserves, the trader's cash and shares. A trade applies
  the quote of \<^const>\<open>calc_buy\<close> or \<^const>\<open>calc_sell\<close>; a rejected quote leaves no
  next state.
\<close>

datatype trade = Buy bool int | Sell bool int

record pool =
  pl_yes :: int
  pl_no :: int
  pl_cash :: int
  pl_hy :: int
  pl_hn :: int

fun pool_step :: "nat \<Rightarrow> trade \<Rightarrow> pool \<Rightarrow> pool option" where
  "pool_step f (Buy True c) p = (case calc_buy (pl_yes p) (pl_no p) c f of
      Inl _ \<Rightarrow> None
    | Inr q \<Rightarrow> Some (p\<lparr>pl_yes := bq_new_reserve_bought q, pl_no := bq_new_reserve_other q,
        pl_cash := pl_cash p - c, pl_hy := pl_hy p + bq_shares_out q\<rparr>))"
| "pool_step f (Buy False c) p = (case calc_buy (pl_no p) (pl_yes p) c f of
      Inl _ \<Rightarrow> None
    | Inr q \<Rightarrow> Some (p\<lparr>pl_no := bq_new_reserve_bought q, pl_yes := bq_new_reserve_other q,
        pl_cash := pl_cash p - c, pl_hn := pl_hn p + bq_shares_out q\<rparr>))"
| "pool_step f (Sell True c) p = (case calc_sell (pl_yes p) (pl_no p) c f of
      Inl _ \<Rightarrow> None
    | Inr q \<Rightarrow> Some (p\<lparr>pl_yes := sq_new_reserve_sold q, pl_no := sq_new_reserve_other q,
        pl_cash := pl_cash p + c, pl_hy := pl_hy p - sq_shares_in q\<rparr>))"
| "pool_step f (Sell False c) p = (case calc_sell (pl_no p) (pl_yes p) c f of
      Inl _ \<Rightarrow> None
    | Inr q \<Rightarrow> Some (p\<lparr>pl_no := sq_new_reserve_sold q, pl_yes := sq_new_reserve_other q,
        pl_cash := pl_cash p + c, pl_hn := pl_hn p - sq_shares_in q\<rparr>))"

fun pool_run :: "nat \<Rightarrow> trade list \<Rightarrow> pool \<Rightarrow> pool option" where
  "pool_run f [] p = Some p"
| "pool_run f (t # ts) p = Option.bind (pool_step f t p) (pool_run f ts)"

text \<open>What one trade keeps: both sides of the pool grow by the same number of sets, at least
  that much cash is paid in, and the product of the reserves does not fall.\<close>

definition pool_rel :: "pool \<Rightarrow> pool \<Rightarrow> bool" where
  "pool_rel p p' \<longleftrightarrow>
     pl_yes p' + pl_hy p' - (pl_yes p + pl_hy p) = pl_no p' + pl_hn p' - (pl_no p + pl_hn p)
   \<and> pl_cash p' + (pl_yes p' + pl_hy p') \<le> pl_cash p + (pl_yes p + pl_hy p)
   \<and> pl_yes p * pl_no p \<le> pl_yes p' * pl_no p'
   \<and> (0 < pl_yes p \<and> 0 < pl_no p \<longrightarrow> 0 < pl_yes p' \<and> 0 < pl_no p')"

lemma pool_rel_refl: "pool_rel p p"
  by (simp add: pool_rel_def)

lemma pool_rel_trans: "pool_rel p p' \<Longrightarrow> pool_rel p' p'' \<Longrightarrow> pool_rel p p''"
  by (auto simp: pool_rel_def)

lemma pool_step_rel: "pool_step f t p = Some p' \<Longrightarrow> pool_rel p p'"
proof (induction f t p rule: pool_step.induct)
  case (1 f c p)
  then obtain q where q: "calc_buy (pl_yes p) (pl_no p) c f = Inr q" by (auto split: sum.splits)
  then show ?case using 1 calc_buyD [OF q] calc_buy_reserves_pos [OF q] calc_buy_k [OF q]
    by (auto simp: pool_rel_def)
next
  case (2 f c p)
  then obtain q where q: "calc_buy (pl_no p) (pl_yes p) c f = Inr q" by (auto split: sum.splits)
  then show ?case using 2 calc_buyD [OF q] calc_buy_reserves_pos [OF q] calc_buy_k [OF q]
    by (auto simp: pool_rel_def mult.commute)
next
  case (3 f c p)
  then obtain q where q: "calc_sell (pl_yes p) (pl_no p) c f = Inr q" by (auto split: sum.splits)
  then show ?case using 3 calc_sellD [OF q] calc_sell_reserves_pos [OF q] calc_sell_k [OF q]
    by (auto simp: pool_rel_def)
next
  case (4 f c p)
  then obtain q where q: "calc_sell (pl_no p) (pl_yes p) c f = Inr q" by (auto split: sum.splits)
  then show ?case using 4 calc_sellD [OF q] calc_sell_reserves_pos [OF q] calc_sell_k [OF q]
    by (auto simp: pool_rel_def mult.commute)
qed

lemma pool_run_rel: "pool_run f ts p = Some p' \<Longrightarrow> pool_rel p p'"
proof (induction ts arbitrary: p)
  case Nil
  then show ?case by (simp add: pool_rel_refl)
next
  case (Cons t ts)
  then obtain q where "pool_step f t p = Some q" "pool_run f ts q = Some p'"
    by (auto simp: bind_eq_Some_conv)
  with Cons.IH show ?case by (blast intro: pool_rel_trans pool_step_rel)
qed

lemma pool_rel_no_profit:
  assumes rel: "pool_rel p p'" and pos: "0 < pl_yes p" "0 < pl_no p"
  shows "pl_cash p' + min (pl_hy p' - pl_hy p) (pl_hn p' - pl_hn p) \<le> pl_cash p"
proof (rule ccontr)
  assume "\<not> ?thesis"
  then have "pl_yes p' < pl_yes p" "pl_no p' < pl_no p"
    using rel by (auto simp: pool_rel_def min_def split: if_splits)
  moreover have "0 < pl_yes p'" "0 < pl_no p'" using rel pos by (auto simp: pool_rel_def)
  ultimately have "pl_yes p' * pl_no p' < pl_yes p * pl_no p"
    by (intro mult_strict_mono) auto
  then show False using rel by (auto simp: pool_rel_def)
qed

section \<open>The integer square root\<close>

lemma bit_len_less: "n < 2 ^ bit_len n"
proof (induction n rule: bit_len.induct)
  case (1 n)
  show ?case
  proof (cases "n = 0")
    case False
    with 1 have "n div 2 < 2 ^ bit_len (n div 2)" by blast
    then show ?thesis using False by (simp add: bit_len.simps [of n])
  qed simp
qed

lemma bit_len_le: "n < 2 ^ k \<Longrightarrow> bit_len n \<le> k"
proof (induction n arbitrary: k rule: bit_len.induct)
  case (1 n)
  show ?case
  proof (cases "n = 0")
    case True
    then show ?thesis by (simp add: bit_len.simps)
  next
    case False
    with "1.prems" obtain j where k: "k = Suc j" by (cases k) auto
    with False "1.prems" have "bit_len (n div 2) \<le> j" by (intro "1.IH") auto
    then show ?thesis using False k by (simp add: bit_len.simps [of n])
  qed
qed

lemma newton_step_ge:
  assumes "s * s \<le> n" "0 < x"
  shows "s \<le> newton_step n x"
proof -
  have "0 \<le> (int s - int x) * (int s - int x)" by simp
  then have "(2 * int s - int x) * int x \<le> int s * int s" by (simp add: algebra_simps)
  also have "\<dots> \<le> int n" using assms(1) by (metis of_nat_le_iff of_nat_mult)
  finally have "2 * int s - int x \<le> int n div int x"
    using assms(2) by (simp add: le_floor_div_iff)
  then have "2 * s \<le> x + n div x" by (simp add: zdiv_int [symmetric])
  then show ?thesis by (simp add: newton_step_def)
qed

lemma newton_no_overflow:
  fixes n x :: nat
  assumes "n < (x + 1) * (x + 1)" "0 < x" "x \<le> 2 ^ 64"
  shows "x + n div x < 2 ^ 128"
proof -
  have "(x + 1) * (x + 1) \<le> (x + 3) * x" using assms(2) by (simp add: algebra_simps)
  then have "n < (x + 3) * x" using assms(1) by simp
  then have "n div x < x + 3" using assms(2) by (simp add: div_less_iff_less_mult)
  with assms(3) show ?thesis by simp
qed

lemma isqrt_loop_correct:
  assumes "\<And>s. s * s \<le> n \<Longrightarrow> s \<le> x" "0 < n" "x \<le> 2 ^ 64"
  shows "\<exists>r. (isqrt_loop n x :: ('e, nat) res) = Inr r \<and> r * r \<le> n \<and> n < (r + 1) * (r + 1)"
  using assms
proof (induction n x rule: isqrt_loop.induct)
  case (1 n x)
  have x0: "0 < x" using "1.prems"(1) [of 1] "1.prems"(2) by simp
  have up: "n < (x + 1) * (x + 1)"
  proof (rule ccontr)
    assume "\<not> n < (x + 1) * (x + 1)"
    then have "x + 1 \<le> x" by (intro "1.prems"(1)) simp
    then show False by simp
  qed
  have ok: "\<not> (x = 0 \<or> 2 ^ 128 \<le> x + n div x)"
    using newton_no_overflow [OF up x0] "1.prems"(3) x0 by simp
  show ?case
  proof (cases "x \<le> newton_step n x")
    case True
    then have "x \<le> n div x" by (simp add: newton_step_def)
    then have "x * x \<le> n"
      by (metis div_times_less_eq_dividend mult_le_mono1 order_trans)
    with ok True up show ?thesis by (simp add: isqrt_loop.simps [of n x])
  next
    case False
    have "\<exists>r. (isqrt_loop n (newton_step n x) :: ('e, nat) res) = Inr r \<and> r * r \<le> n
        \<and> n < (r + 1) * (r + 1)"
      using "1.IH" [OF ok False] newton_step_ge [OF _ x0] "1.prems" False by fastforce
    with ok False show ?thesis by (simp add: isqrt_loop.simps [of n x])
  qed
qed

lemma isqrt_exists:
  assumes "n < 2 ^ 128"
  shows "\<exists>r. (isqrt n :: ('e, nat) res) = Inr r \<and> r * r \<le> n \<and> n < (r + 1) * (r + 1)"
proof (cases "n < 2")
  case True
  then show ?thesis by (cases "n = 0") (auto simp: isqrt_def)
next
  case False
  define k where "k = (bit_len n + 1) div 2"
  have bl: "bit_len n \<le> 128" using assms by (rule bit_len_le)
  then have sh: "(128 - leading_zeros n + 1) div 2 = k" by (simp add: leading_zeros_def k_def)
  have "n < 2 ^ bit_len n" by (rule bit_len_less)
  also have "(2 :: nat) ^ bit_len n \<le> 2 ^ (k + k)"
    by (rule power_increasing) (simp_all add: k_def)
  finally have n: "n < 2 ^ k * 2 ^ k" by (simp add: power_add)
  have bound: "s \<le> 2 ^ k" if "s * s \<le> n" for s
  proof (rule ccontr)
    assume "\<not> s \<le> 2 ^ k"
    then have "2 ^ k * 2 ^ k \<le> s * s" by (intro mult_le_mono) auto
    with n that show False by simp
  qed
  have "(2 :: nat) ^ k \<le> 2 ^ 64" by (rule power_increasing) (use bl in \<open>simp_all add: k_def\<close>)
  moreover have "0 < n" using False by simp
  ultimately have "\<exists>r. (isqrt_loop n (2 ^ k) :: ('e, nat) res) = Inr r \<and> r * r \<le> n
      \<and> n < (r + 1) * (r + 1)"
    using bound by (intro isqrt_loop_correct)
  moreover have "(isqrt n :: ('e, nat) res) = isqrt_loop n (2 ^ k)"
    using False sh by (simp add: isqrt_def)
  ultimately show ?thesis by simp
qed

section \<open>Selling an exact number of shares\<close>

text \<open>
  \<open>sell_ok rs ro sh x\<close>: burning \<open>x\<close> sets after taking \<open>sh\<close> shares keeps the product of the
  reserves. In terms of the quadratic of the source, with \<open>b = rs + sh + ro\<close> and discriminant
  \<open>D = b\<^sup>2 - 4 ro sh\<close>, it is \<open>D \<le> (b - 2 x)\<^sup>2\<close>.
\<close>

definition sell_ok :: "int \<Rightarrow> int \<Rightarrow> int \<Rightarrow> int \<Rightarrow> bool" where
  "sell_ok rs ro sh x \<longleftrightarrow> rs * ro \<le> (rs + sh - x) * (ro - x)"

lemma sell_ok_quadratic:
  "sell_ok rs ro sh x \<longleftrightarrow>
     (rs + sh + ro) * (rs + sh + ro) - 4 * ro * sh
       \<le> (rs + sh + ro - 2 * x) * (rs + sh + ro - 2 * x)"
proof -
  have iff: "A - B = 4 * (C - E) \<Longrightarrow> E \<le> C \<longleftrightarrow> B \<le> A" for A B C E :: int
    by arith
  have "(rs + sh + ro - 2 * x) * (rs + sh + ro - 2 * x)
      - ((rs + sh + ro) * (rs + sh + ro) - 4 * ro * sh)
      = 4 * ((rs + sh - x) * (ro - x) - rs * ro)"
    by (simp add: algebra_simps)
  then show ?thesis unfolding sell_ok_def by (rule iff)
qed

lemma not_sell_ok_other: "0 < rs \<Longrightarrow> 0 < ro \<Longrightarrow> \<not> sell_ok rs ro sh ro"
  by (simp add: sell_ok_def not_le)

lemma not_sell_ok_shares: "0 < rs \<Longrightarrow> 0 < sh \<Longrightarrow> \<not> sell_ok rs ro sh sh"
proof -
  assume "0 < rs" "0 < sh"
  then have "rs * (ro - sh) < rs * ro" by simp
  then show ?thesis by (simp add: sell_ok_def not_le)
qed

text \<open>Between the root and the other reserve the condition stays false.\<close>

lemma not_sell_ok_mono:
  assumes no: "\<not> sell_ok rs ro sh y" and pos: "0 < rs" "0 < ro" "0 < sh"
    and le: "y \<le> x" "x \<le> ro"
  shows "\<not> sell_ok rs ro sh x"
proof
  assume ok: "sell_ok rs ro sh x"
  let ?f = "\<lambda>z. (rs + sh - z) * (ro - z) - rs * ro"
  have "?f y < 0" "?f ro < 0" "0 \<le> ?f x"
    using no ok pos mult_pos_pos [of rs ro] by (auto simp: sell_ok_def)
  moreover have "(ro - y) * ?f x = (x - y) * ?f ro + (ro - x) * ?f y
      - (ro - y) * ((x - y) * (ro - x))"
    by (simp add: algebra_simps)
  moreover have "y < ro" using le \<open>0 \<le> ?f x\<close> \<open>?f ro < 0\<close> \<open>?f y < 0\<close>
    by (cases "y = ro") auto
  ultimately have "0 \<le> (x - y) * ?f ro + (ro - x) * ?f y - (ro - y) * ((x - y) * (ro - x))"
    by (metis diff_ge_0_iff_ge less_imp_le mult_nonneg_nonneg)
  moreover have "(x - y) * ?f ro \<le> 0" "(ro - x) * ?f y \<le> 0"
    using le \<open>?f ro < 0\<close> \<open>?f y < 0\<close> by (auto intro!: mult_nonneg_nonpos)
  moreover have "0 \<le> (ro - y) * ((x - y) * (ro - x))" using le \<open>y < ro\<close> by simp
  ultimately have "(x - y) * ?f ro = 0" "(ro - x) * ?f y = 0" by linarith+
  then show False using \<open>?f ro < 0\<close> \<open>?f y < 0\<close> \<open>y < ro\<close> by auto
qed

lemma sell_ok_antimono:
  assumes ok: "sell_ok rs ro sh x" and pos: "0 < rs" "0 < ro" "0 < sh"
    and le: "0 \<le> y" "y \<le> x" "x \<le> ro"
  shows "sell_ok rs ro sh y"
  using not_sell_ok_mono [OF _ pos le(2,3)] ok by blast

text \<open>The first candidate, from the floored square root, overshoots by at most one.\<close>

lemma candidate_bounds:
  assumes pos: "0 < rs" "0 < ro" "0 < sh"
    and b: "b = rs + sh + ro" and D: "D = b * b - 4 * ro * sh"
    and s: "0 \<le> s" "s * s \<le> D" "D < (s + 1) * (s + 1)"
    and x: "x = (b - s) div 2"
  shows "sell_ok rs ro sh (x - 1)" and "x + 1 \<le> ro \<Longrightarrow> \<not> sell_ok rs ro sh (x + 1)"
proof -
  have x2: "2 * x \<le> b - s" "b - s \<le> 2 * x + 1" using x by linarith+
  have "(s + 1) * (s + 1) \<le> (b - 2 * (x - 1)) * (b - 2 * (x - 1))"
    using x2 s by (intro mult_mono) auto
  then show "sell_ok rs ro sh (x - 1)"
    using s by (simp add: sell_ok_quadratic b [symmetric] D [symmetric])
  assume le: "x + 1 \<le> ro"
  show "\<not> sell_ok rs ro sh (x + 1)"
  proof (cases "0 \<le> b - 2 * (x + 1)")
    case True
    then have "(b - 2 * (x + 1)) * (b - 2 * (x + 1)) \<le> (s - 1) * (s - 1)"
      using x2 by (intro mult_mono) auto
    also have "\<dots> < s * s" using True x2 by (simp add: algebra_simps)
    finally show ?thesis using s by (simp add: sell_ok_quadratic b [symmetric] D [symmetric])
  next
    case False
    have "0 \<le> (ro - (x + 1)) * (ro + (x + 1) - b)"
      using le False by (intro mult_nonneg_nonneg) auto
    then have "(rs + sh - (x + 1)) * (ro - (x + 1)) \<le> (rs + sh - ro) * (ro - ro)"
      by (simp add: b algebra_simps)
    then show ?thesis using mult_pos_pos [OF pos(1,2)] by (simp add: sell_ok_def)
  qed
qed

lemma sell_shares_correct_eval:
  assumes "1 \<le> x" "int x \<le> ro" "0 < rs" "rs \<le> MAX_SETS" "0 < ro" "ro \<le> MAX_SETS"
    "0 < sh" "sh \<le> MAX_SETS"
  shows "sell_shares_correct rs ro sh x =
    (if sell_ok rs ro sh (int x) then Inr x else sell_shares_correct rs ro sh (x - 1))"
proof -
  have "checked_add rs sh = Some (rs + sh)"
    using assms by (auto simp: checked_add_eq intro!: in_i128_MAX_SETS)
  moreover have "in_i128 (rs + sh - int x)"
  proof (rule in_i128_between [of "- MAX_SETS"])
    show "in_i128 (- MAX_SETS)" "in_i128 (8 * MAX_SETS)"
      by (auto simp: in_i128_def MAX_SETS_def)
  qed (use assms in auto)
  then have "(sub_i128 (rs + sh) (int x) :: (math_error, int) res) = Inr (rs + sh - int x)"
    by (rule sub_i128_Inr)
  moreover have "(sub_i128 ro (int x) :: (math_error, int) res) = Inr (ro - int x)"
    using assms by (intro sub_i128_Inr in_i128_MAX_SETS) auto
  moreover have "checked_mul (rs + sh - int x) (ro - int x)
      = Some ((rs + sh - int x) * (ro - int x))"
  proof -
    have "\<bar>(rs + sh - int x) * (ro - int x)\<bar> \<le> (2 * MAX_SETS) * MAX_SETS"
      unfolding abs_mult using assms by (intro mult_mono) auto
    also have "\<dots> \<le> 2 ^ 126" by (simp add: MAX_SETS_def)
    finally show ?thesis by (simp only: checked_mul_eq in_i128_small)
  qed
  moreover have "checked_mul rs ro = Some (rs * ro)"
    using assms by (auto simp: checked_mul_eq intro!: in_i128_MAX_SETS_mult)
  ultimately show ?thesis
    using assms(1) by (simp add: sell_shares_correct.simps [of rs ro sh x] sell_ok_def)
qed

lemma sell_shares_correct_0: "sell_shares_correct rs ro sh 0 = Inr 0"
  by (simp add: sell_shares_correct.simps)

text \<open>
  Everything \<^const>\<open>calc_sell_shares\<close> computes before the fee: the greatest burn that keeps
  the product, found after at most one step of the correction loop.
\<close>

definition max_burn :: "int \<Rightarrow> int \<Rightarrow> int \<Rightarrow> int \<Rightarrow> bool" where
  "max_burn rs ro sh x \<longleftrightarrow> 0 \<le> x \<and> x < ro \<and> x < sh \<and> sell_ok rs ro sh x
     \<and> (\<forall>z. x < z \<and> z \<le> ro \<longrightarrow> \<not> sell_ok rs ro sh z)"

lemma candidate_correct:
  assumes dom: "0 < rs" "rs \<le> MAX_SETS" "0 < ro" "ro \<le> MAX_SETS" "0 < sh" "sh \<le> MAX_SETS"
    and b: "b = rs + sh + ro"
    and s: "int s * int s \<le> b * b - 4 * ro * sh" "b * b - 4 * ro * sh < (int s + 1) * (int s + 1)"
    and sb: "int s \<le> b"
    and x: "x = (nat b - s) div 2"
  shows "\<exists>y. sell_shares_correct rs ro sh x = Inr y \<and> max_burn rs ro sh (int y)
           \<and> (y = x \<or> y + 1 = x)"
proof -
  have ix: "int x = (b - int s) div 2"
    using sb b dom by (simp add: x zdiv_int of_nat_diff)
  note cb = candidate_bounds [OF dom(1,3,5) b refl of_nat_0_le_iff s ix]
  have le: "int x \<le> ro"
  proof (rule ccontr)
    assume "\<not> int x \<le> ro"
    then have 1: "ro \<le> int x - 1" by simp
    have "(rs + sh - (int x - 1)) * (ro - (int x - 1)) < rs * ro \<or> rs + sh < int x - 1"
    proof (cases "rs + sh \<ge> int x - 1")
      case True
      then have "(rs + sh - (int x - 1)) * (ro - (int x - 1)) \<le> 0"
        using 1 by (intro mult_nonneg_nonpos) auto
      then show ?thesis using dom mult_pos_pos [of rs ro] by linarith
    qed auto
    moreover have "2 * int x \<le> b" using ix by linarith
    ultimately show False using cb(1) 1 b dom by (auto simp: sell_ok_def)
  qed
  have beyond: "\<not> sell_ok rs ro sh z" if "int x < z" "z \<le> ro" for z
    using not_sell_ok_mono [OF cb(2) dom(1,3,5), of z] that by auto
  have mb: "max_burn rs ro sh y"
    if "0 \<le> y" "y \<le> ro" "sell_ok rs ro sh y" "\<And>z. y < z \<Longrightarrow> z \<le> ro \<Longrightarrow> \<not> sell_ok rs ro sh z" for y
  proof -
    have "y \<noteq> ro" using that(3) not_sell_ok_other [OF dom(1,3)] by auto
    moreover have "y < sh"
      using not_sell_ok_mono [OF not_sell_ok_shares [OF dom(1,5)] dom(1,3,5), of y] that
      by (meson not_le)
    ultimately show ?thesis using that by (auto simp: max_burn_def)
  qed
  show ?thesis
  proof (cases "x = 0")
    case True
    have "sell_ok rs ro sh 0" using dom by (simp add: sell_ok_def)
    then have "max_burn rs ro sh 0" using beyond True dom by (intro mb) auto
    then show ?thesis using True by (simp add: sell_shares_correct_0)
  next
    case False
    then have e: "sell_shares_correct rs ro sh x =
        (if sell_ok rs ro sh (int x) then Inr x else sell_shares_correct rs ro sh (x - 1))"
      using le dom by (intro sell_shares_correct_eval) auto
    show ?thesis
    proof (cases "sell_ok rs ro sh (int x)")
      case True
      then show ?thesis using e mb [of "int x"] beyond le by auto
    next
      case no: False
      have x1: "int (x - 1) = int x - 1" using False by simp
      have ok1: "sell_ok rs ro sh (int (x - 1))" using cb(1) x1 by simp
      have "sell_shares_correct rs ro sh (x - 1) = Inr (x - 1)"
        using ok1 le dom sell_shares_correct_eval [of "x - 1" ro rs sh]
        by (cases "x - 1 = 0") (auto simp: sell_shares_correct_0)
      moreover have "\<not> sell_ok rs ro sh z" if "int (x - 1) < z" "z \<le> ro" for z
        using that beyond [of z] no x1 by (cases "z = int x") auto
      ultimately show ?thesis using e no mb [of "int (x - 1)"] ok1 le False by auto
    qed
  qed
qed

lemma discriminant:
  assumes "0 < rs" "0 < ro" "0 < (sh::int)"
  shows "4 * ro * sh < (rs + sh + ro) * (rs + sh + ro)"
proof -
  have "(rs + sh + ro) * (rs + sh + ro) - 4 * ro * sh
      = (ro - sh) * (ro - sh) + rs * (rs + 2 * (sh + ro))"
    by (simp add: algebra_simps)
  moreover have "0 < rs * (rs + 2 * (sh + ro))" using assms by simp
  moreover have "0 \<le> (ro - sh) * (ro - sh)" by simp
  ultimately show ?thesis by linarith
qed

lemma discriminant_u128:
  assumes dom: "0 < rs" "rs \<le> MAX_SETS" "0 < ro" "ro \<le> MAX_SETS" "0 < sh" "sh \<le> MAX_SETS"
    and b: "b = rs + sh + ro"
  defines "d \<equiv> nat b * nat b - nat ro * nat sh * 4"
  shows "checked_mul_u128 (nat b) (nat b) = Some (nat b * nat b)"
    and "checked_mul_u128 (nat ro) (nat sh) = Some (nat ro * nat sh)"
    and "checked_mul_u128 (nat ro * nat sh) 4 = Some (nat ro * nat sh * 4)"
    and "checked_sub_u128 (nat b * nat b) (nat ro * nat sh * 4) = Some d"
    and "d < 2 ^ 128" and "int d = b * b - 4 * ro * sh"
proof -
  have M: "nat MAX_SETS = 1000000000000000000" by (simp add: MAX_SETS_def)
  have nb: "nat b \<le> 3 * nat MAX_SETS" using dom b by (simp add: MAX_SETS_def)
  then have "nat b * nat b \<le> (3 * nat MAX_SETS) * (3 * nat MAX_SETS)" by (intro mult_le_mono)
  then have b2: "nat b * nat b < 2 ^ 128" unfolding M by simp
  then show "checked_mul_u128 (nat b) (nat b) = Some (nat b * nat b)"
    by (simp add: checked_mul_u128_def)
  have "nat ro * nat sh \<le> nat MAX_SETS * nat MAX_SETS" using dom by (intro mult_le_mono) auto
  then have "nat ro * nat sh * 4 < 2 ^ 128" unfolding M by simp
  then show "checked_mul_u128 (nat ro) (nat sh) = Some (nat ro * nat sh)"
    and "checked_mul_u128 (nat ro * nat sh) 4 = Some (nat ro * nat sh * 4)"
    by (simp_all add: checked_mul_u128_def)
  have i: "int (nat b * nat b) = b * b" "int (nat ro * nat sh * 4) = 4 * ro * sh"
    using dom b by simp_all
  have le: "nat ro * nat sh * 4 \<le> nat b * nat b"
    using discriminant [OF dom(1,3,5)] unfolding b [symmetric] i [symmetric] of_nat_less_iff
    by (rule less_imp_le)
  then show "checked_sub_u128 (nat b * nat b) (nat ro * nat sh * 4) = Some d"
    by (simp add: checked_sub_u128_def d_def)
  show "d < 2 ^ 128" using b2 by (simp add: d_def)
  show "int d = b * b - 4 * ro * sh" using le i by (simp add: d_def of_nat_diff)
qed

text \<open>\<open>calc_sell_shares\<close> is total on an in-bounds pool: it burns the greatest feasible number of
  sets, or reports which of the two refusals applies.\<close>

lemma calc_sell_shares_cases:
  assumes dom: "0 < rs" "rs \<le> MAX_SETS" "0 < ro" "ro \<le> MAX_SETS" "0 < sh" "sh \<le> MAX_SETS"
    and f: "int f < BPS"
  shows "\<exists>x. max_burn rs ro sh x \<and> calc_sell_shares rs ro sh f =
    (if x = 0 then Inl (Err InsufficientLiquidity)
     else if x * (BPS - int f) div BPS \<le> 0 then Inl (Err InvalidInput)
     else Inr \<lparr>ssq_collateral_out = x * (BPS - int f) div BPS,
               ssq_fee = x - x * (BPS - int f) div BPS, ssq_gross = x,
               ssq_new_reserve_sold = rs + sh - x, ssq_new_reserve_other = ro - x\<rparr>)"
proof -
  define b where "b = rs + sh + ro"
  define d where "d = nat b * nat b - nat ro * nat sh * 4"
  note dd = discriminant_u128 [OF dom b_def, folded d_def]
  obtain s where s: "(isqrt d :: (math_error, nat) res) = Inr s" "s * s \<le> d"
      "d < (s + 1) * (s + 1)"
    using isqrt_exists [OF dd(5)] by blast
  have si: "int s * int s \<le> b * b - 4 * ro * sh" "b * b - 4 * ro * sh < (int s + 1) * (int s + 1)"
  proof -
    have "int (s * s) \<le> int d" "int d < int ((s + 1) * (s + 1))" using s by linarith+
    then show "int s * int s \<le> b * b - 4 * ro * sh"
      "b * b - 4 * ro * sh < (int s + 1) * (int s + 1)" using dd(6) by (simp_all add: algebra_simps)
  qed
  have sb: "int s \<le> b"
  proof (rule ccontr)
    assume "\<not> int s \<le> b"
    then have "b * b \<le> int s * int s" using dom b_def by (intro mult_mono) auto
    moreover have "0 < ro * sh" using dom by simp
    ultimately show False using si by simp
  qed
  then have sub: "(sub_nat (nat b) s :: (math_error, nat) res) = Inr (nat b - s)"
    by (simp add: sub_nat_def)
  obtain y where y: "sell_shares_correct rs ro sh ((nat b - s) div 2) = Inr y"
      "max_burn rs ro sh (int y)"
    using candidate_correct [OF dom b_def si sb refl] by blast
  have add: "checked_add sh ro = Some (sh + ro)" "checked_add rs (sh + ro) = Some b"
      "checked_add rs sh = Some (rs + sh)"
    using dom by (auto simp: checked_add_eq b_def intro!: in_i128_MAX_SETS)
  have yr: "\<not> nat ro \<le> y" and y0: "int y < sh" "int y < ro"
    using y(2) dom by (auto simp: max_burn_def)
  have "0 < BPS - int f" "BPS - int f \<le> BPS" using f by auto
  then have "int y * (BPS - int f) \<le> int y * BPS" by (intro mult_left_mono) auto
  then have out: "0 \<le> int y * (BPS - int f) div BPS" "int y * (BPS - int f) div BPS \<le> int y"
    using \<open>0 < BPS - int f\<close> zdiv_mono1 [of "int y * (BPS - int f)" "int y * BPS" BPS]
    by (simp_all add: pos_imp_zdiv_nonneg_iff)
  have mdf: "mul_div_floor (int y) (BPS - int f) BPS = Inr (int y * (BPS - int f) div BPS)"
    using \<open>0 < BPS - int f\<close> y0 dom
    by (auto simp: mul_div_floor_eq BPS_def MAX_SETS_def intro!: in_i128_MAX_SETS_mult)
  have subs: "(sub_i128 (int y) (int y * (BPS - int f) div BPS) :: (math_error, int) res)
        = Inr (int y - int y * (BPS - int f) div BPS)"
      "(sub_i128 (rs + sh) (int y) :: (math_error, int) res) = Inr (rs + sh - int y)"
      "(sub_i128 ro (int y) :: (math_error, int) res) = Inr (ro - int y)"
    using out y0 dom by (auto intro!: sub_i128_Inr in_i128_MAX_SETS)
  have "calc_sell_shares rs ro sh f =
    (if int y = 0 then Inl (Err InsufficientLiquidity)
     else if int y * (BPS - int f) div BPS \<le> 0 then Inl (Err InvalidInput)
     else Inr \<lparr>ssq_collateral_out = int y * (BPS - int f) div BPS,
               ssq_fee = int y - int y * (BPS - int f) div BPS, ssq_gross = int y,
               ssq_new_reserve_sold = rs + sh - int y, ssq_new_reserve_other = ro - int y\<rparr>)"
    using dom(1,3,5) f add dd(1-4) s(1) sub y(1) yr mdf subs
    by (simp add: calc_sell_shares_def Let_def)
  with y(2) show ?thesis by blast
qed

end
