(* ===== verification/OracleTypes.thy ===== *)
theory OracleTypes
  imports Main
begin

text \<open>
  The types shared across the contracts, from
  \<^verbatim>\<open>contracts/oracledesk-types/src/lib.rs\<close>. An \<open>Address\<close> is an identifier of an
  account or contract, a \<open>BytesN<32>\<close> its 32 bytes as numbers, a \<open>Symbol\<close> or \<open>String\<close> a
  character list.
\<close>

type_synonym address = nat
type_synonym bytesN = "nat list"
type_synonym symbol = string

datatype outcome = Yes | No

datatype category = Crypto | Macro | Geopolitics | Sports | Culture | Other

datatype market_status = Open | Resolved outcome | Void

datatype oracle_asset = StellarAsset address | OtherAsset symbol

record price_data =
  pd_price :: int
  pd_timestamp :: nat

datatype price_direction = Above | AtOrAbove | Below | AtOrBelow

record price_config =
  pc_reflector :: address
  pc_asset :: oracle_asset
  pc_threshold :: int
  pc_direction :: price_direction
  pc_max_staleness :: nat

record signer_config =
  sc_signers :: "address list"
  sc_threshold :: nat
  sc_dispute_window :: nat

datatype escalation = Guardian | CommitteeEscalation "address list" nat

record disputable_signer_config =
  dc_signers :: "address list"
  dc_threshold :: nat
  dc_dispute_window :: nat
  dc_dispute_bond :: int
  dc_escalation :: escalation
  dc_escalation_timeout :: nat

record weighted_key =
  wk_pubkey :: bytesN
  wk_weight :: nat

record weighted_key_config =
  wc_signers :: "weighted_key list"
  wc_weight_threshold :: nat
  wc_dispute_window :: nat

record committee_ref =
  cr_committee_id :: nat
  cr_min_epoch :: nat
  cr_max_rotation_delta :: nat
  cr_dispute_window :: nat

record hybrid_config =
  hc_price :: price_config
  hc_fallback :: signer_config
  hc_fallback_after :: nat

datatype resolution_spec =
    Price price_config
  | Signers signer_config
  | WeightedKeys weighted_key_config
  | SignersDisputable disputable_signer_config
  | Committee committee_ref
  | Hybrid hybrid_config

record resolution_spec_v2 =
  v2_version :: nat
  v2_network_id :: bytesN
  v2_market_core :: address
  v2_salt :: bytesN
  v2_rule :: resolution_spec

end
