(* ===== verification/Host.thy ===== *)
theory Host
  imports Prelude OracleTypes
begin

text \<open>
  What a contract call sees of the Soroban host.

  \<^item> \<open>env\<close> is the ledger at the call (time, sequence number, the maximal entry lifetime), the
    address of the running contract, and which addresses authorised the call:
    \<open>require_auth\<close> aborts the invocation for any other address.
  \<^item> The collateral token is a SEP-41 contract outside the repository: a parameter
    \<open>T :: 't token\<close> over an arbitrary ledger state \<open>'t\<close>. A call that aborts is \<open>None\<close>.
    \<open>token_ok\<close> is the documented behaviour some properties assume of it.
  \<^item> A failed invocation rolls back every write, so a failing result carries no state. Entries
    are taken to be live: an invocation whose footprint holds an archived entry does not run
    at all, and the \<open>extend_ttl\<close> calls of the source change no value (their targets are
    modelled in \<^theory_text>\<open>Ttl\<close>).
\<close>

record env =
  e_now :: nat
  e_seq :: nat
  e_max_ttl :: nat
  e_self :: address
  e_auth :: "address \<Rightarrow> bool"

definition require_auth :: "env \<Rightarrow> address \<Rightarrow> ('e, unit) res" where
  "require_auth E a = (if e_auth E a then Inr () else Inl Trap)"

lemma require_auth_eq [int_ops]: "require_auth E a = Inr u \<longleftrightarrow> e_auth E a"
  by (simp add: require_auth_def)

section \<open>The token\<close>

record 't token =
  tk_transfer :: "address \<Rightarrow> address \<Rightarrow> address \<Rightarrow> int \<Rightarrow> 't \<Rightarrow> 't option"
  tk_balance :: "address \<Rightarrow> 't \<Rightarrow> address \<Rightarrow> int"

text \<open>\<open>tk_transfer T c from to amount\<close> runs \<open>transfer\<close> on the token contract \<open>c\<close>. SEP-41: a
  successful transfer has a non-negative amount, moves exactly that amount, and touches no other
  holder and no other token.\<close>

definition token_ok :: "'t token \<Rightarrow> bool" where
  "token_ok T \<longleftrightarrow> (\<forall>c from to amt t t'. tk_transfer T c from to amt t = Some t' \<longrightarrow>
     0 \<le> amt \<and>
     (\<forall>d h. tk_balance T d t' h = tk_balance T d t h
        + (if d = c \<and> h = to then amt else 0) - (if d = c \<and> h = from then amt else 0)))"

text \<open>A concrete ledger with that behaviour: balances per token and holder.\<close>

type_synonym ledger = "address \<Rightarrow> address \<Rightarrow> int"

definition ledger_token :: "ledger token" where
  "ledger_token =
     \<lparr>tk_transfer = (\<lambda>c from to amt t.
        if 0 \<le> amt \<and> amt \<le> t c from
        then let t1 = t(c := (t c)(from := t c from - amt))
             in Some (t1(c := (t1 c)(to := t1 c to + amt)))
        else None),
      tk_balance = (\<lambda>c t h. t c h)\<rparr>"

lemma token_ok_ledger: "token_ok ledger_token"
  by (auto simp: token_ok_def ledger_token_def Let_def split: if_splits)

lemma token_okD:
  assumes "token_ok T" and "tk_transfer T c from to amt t = Some t'"
  shows "0 \<le> amt"
    and "tk_balance T d t' h = tk_balance T d t h
           + (if d = c \<and> h = to then amt else 0) - (if d = c \<and> h = from then amt else 0)"
  using assms unfolding token_ok_def by blast+

end
