(* ===== verification/Ttl.thy ===== *)
theory Ttl
  imports Host
begin

text \<open>
  The storage lifetime policy, from \<^verbatim>\<open>contracts/market-core/src/ttl.rs\<close> (repeated
  verbatim in the other contracts): how many ledgers an entry must be kept alive.
\<close>

definition LEDGER_SECS :: nat where "LEDGER_SECS = 5"
definition DAY_SECS :: nat where "DAY_SECS = 86400"
definition DAY_IN_LEDGERS :: nat where "DAY_IN_LEDGERS = DAY_SECS div LEDGER_SECS"
definition INSTANCE_THRESHOLD :: nat where "INSTANCE_THRESHOLD = 7 * DAY_IN_LEDGERS"
definition INSTANCE_TARGET :: nat where "INSTANCE_TARGET = 30 * DAY_IN_LEDGERS"
definition SETTLEMENT_HORIZON_SECS :: nat where "SETTLEMENT_HORIZON_SECS = 90 * DAY_SECS"
definition LONG_LIVED_SECS :: nat where "LONG_LIVED_SECS = 365 * DAY_SECS"

definition secs_to_ledgers_clamped :: "env \<Rightarrow> nat \<Rightarrow> nat" where
  "secs_to_ledgers_clamped E secs = min (secs div LEDGER_SECS) (e_max_ttl E) mod 2 ^ 32"

definition market_target :: "env \<Rightarrow> nat \<Rightarrow> nat" where
  "market_target E close_time =
     (let until_close = close_time - e_now E
      in secs_to_ledgers_clamped E (sat_add_u64 until_close SETTLEMENT_HORIZON_SECS))"

definition long_lived_target :: "env \<Rightarrow> nat" where
  "long_lived_target E = secs_to_ledgers_clamped E LONG_LIVED_SECS"

definition threshold_for :: "nat \<Rightarrow> nat" where
  "threshold_for target = target div 2"

lemmas ttl_defs = LEDGER_SECS_def DAY_SECS_def DAY_IN_LEDGERS_def INSTANCE_THRESHOLD_def
  INSTANCE_TARGET_def SETTLEMENT_HORIZON_SECS_def LONG_LIVED_SECS_def

text \<open>Unless the network maximum clamps it, a market's entries are kept past the close time by
  the settlement horizon: the target, in seconds, falls short of it by less than one ledger.\<close>

lemma market_target_covers_settlement:
  assumes "e_max_ttl E < 2 ^ 32" and "market_target E close < e_max_ttl E"
    and "close + SETTLEMENT_HORIZON_SECS \<le> u64_max"
  shows "close + SETTLEMENT_HORIZON_SECS < e_now E + (market_target E close + 1) * LEDGER_SECS"
proof -
  define secs where "secs = close - e_now E + SETTLEMENT_HORIZON_SECS"
  have "sat_add_u64 (close - e_now E) SETTLEMENT_HORIZON_SECS = secs"
    using assms(3) by (simp add: sat_add_u64_def secs_def)
  moreover have lt: "min (secs div 5) (e_max_ttl E) < 2 ^ 32" using assms(1) by simp
  ultimately have t: "market_target E close = min (secs div 5) (e_max_ttl E)"
    by (simp add: market_target_def secs_to_ledgers_clamped_def LEDGER_SECS_def)
  then have "market_target E close = secs div 5" using assms(2) by (simp add: min_def split: if_splits)
  moreover have "secs < (secs div 5 + 1) * 5"
    using mod_less_divisor [of 5 secs] div_mult_mod_eq [of secs 5] by simp
  ultimately show ?thesis by (simp add: secs_def LEDGER_SECS_def)
qed

definition ttl_env :: env where
  "ttl_env = \<lparr>e_now = 1000, e_seq = 10, e_max_ttl = 3110400, e_self = 0, e_auth = (\<lambda>_. False)\<rparr>"

theorem market_target_covers_settlement_witness:
  "market_target ttl_env 87400 = 1572480 \<and>
   87400 + SETTLEMENT_HORIZON_SECS < e_now ttl_env + (market_target ttl_env 87400 + 1) * LEDGER_SECS"
proof -
  have t: "market_target ttl_env 87400 = 1572480"
    by (simp add: market_target_def secs_to_ledgers_clamped_def ttl_env_def ttl_defs
        sat_add_u64_def u64_max_def)
  have "87400 + SETTLEMENT_HORIZON_SECS
      < e_now ttl_env + (market_target ttl_env 87400 + 1) * LEDGER_SECS"
    by (rule market_target_covers_settlement)
      (use t in \<open>simp_all add: ttl_env_def ttl_defs u64_max_def\<close>)
  with t show ?thesis by simp
qed

end
