(* ===== verification/MarketState.thy ===== *)
theory MarketState
  imports Host FpmmMath Ttl
begin

text \<open>
  The storage, errors, events and internal helpers of the market contract
  (\<^verbatim>\<open>contracts/market-core/src/lib.rs\<close>). The contract's state is \<open>'t mc\<close>: the instance
  entries (each an option, absent until the constructor writes it), one map per persistent
  \<open>DataKey\<close> variant, the temporary band entries, the collateral token's ledger (of arbitrary
  type \<open>'t\<close>) and the events published so far. A helper that only reads takes the state, one that
  writes returns it.
\<close>

section \<open>Constants\<close>

definition MAX_FEE_BPS :: nat where "MAX_FEE_BPS = 1000"
definition MIN_SEED :: int where "MIN_SEED = 100 * 10000000"
definition DEFAULT_REDEEM_HORIZON_SECS :: nat where
  "DEFAULT_REDEEM_HORIZON_SECS = 365 * DAY_SECS"
definition MIN_REDEEM_HORIZON_SECS :: nat where "MIN_REDEEM_HORIZON_SECS = 180 * DAY_SECS"
definition MAX_REDEEM_HORIZON_SECS :: nat where "MAX_REDEEM_HORIZON_SECS = 1825 * DAY_SECS"
definition ORACLE_RING :: nat where "ORACLE_RING = 16"
definition MAX_BATCH :: nat where "MAX_BATCH = 46"
definition ADMIN_PROPOSAL_TTL_SECS :: nat where "ADMIN_PROPOSAL_TTL_SECS = 7 * 86400"

section \<open>Types\<close>

record market =
  mk_creator :: address
  mk_question_hash :: bytesN
  mk_resolution_hash :: bytesN
  mk_meta_uri :: symbol
  mk_category :: category
  mk_close_time :: nat
  mk_fee_bps :: nat
  mk_status :: market_status
  mk_reserve_yes :: int
  mk_reserve_no :: int
  mk_sets_minted :: int
  mk_fees_accrued :: int
  mk_lp_claimed :: bool

record position =
  ps_yes :: int
  ps_no :: int

record settle_state =
  st_outstanding_yes :: int
  st_outstanding_no :: int
  st_finalized_at :: nat
  st_horizon_secs :: nat
  st_paid_out :: int
  st_closed :: bool

record oracle_state =
  or_price_cumulative :: int
  or_last_ts :: nat
  or_last_price_bps :: nat
  or_obs_index :: nat
  or_obs_count :: nat

record observation =
  ob_ts :: nat
  ob_cumulative :: int

datatype skip_reason =
  SkipNotFound | SkipNotFinal | SkipNothingToRedeem | SkipAlreadyClaimed | SkipNotCreator
| SkipDuplicate

datatype batch_status = Settled | Skipped skip_reason

record batch_item =
  bi_market_id :: nat
  bi_payout :: int
  bi_status :: batch_status

record batch_result =
  br_total :: int
  br_items :: "batch_item list"

record fee_terms_rec =
  ft_recipient :: address
  ft_protocol_share_bps :: nat

record breaker_config_rec =
  bc_max_impact_bps :: nat
  bc_band_bps :: nat

record band_state =
  bs_ledger_seq :: nat
  bs_ref_price_bps :: nat

record mc_config =
  cf_admin :: address
  cf_collateral :: address
  cf_treasury :: address
  cf_resolver :: address
  cf_default_fee_bps :: nat
  cf_protocol_fee_share_bps :: nat
  cf_paused :: bool

record pending_admin_rec =
  pa_address :: address
  pa_expires_at :: nat

datatype mc_error =
  McNotInitialized | McPaused | McInvalidFee | McInvalidAmount | McInvalidProbability
| McInvalidCloseTime | McMarketNotFound | McMarketNotOpen | McMarketClosed | McNotClosedYet
| McNotFinal | McSlippageExceeded | McInsufficientShares | McInsufficientLiquidity
| McMarketTooLarge | McNothingToRedeem | McAlreadyClaimed | McOverflow | McDeadlineExpired
| McLimitPriceExceeded | McPriceImpactTooHigh | McPriceBandExceeded | McNoPendingWiring
| McInvalidWiring | McNoPendingAdmin | McPendingAdminExpired | McObservationTooOld
| McRedemptionWindowOpen | McRedemptionClosed | McNotSupported | McBatchTooLarge

fun from_math :: "math_error \<Rightarrow> mc_error" where
  "from_math Overflow = McOverflow"
| "from_math InvalidInput = McInvalidAmount"
| "from_math InsufficientLiquidity = McInsufficientLiquidity"

datatype mc_event =
  MarketCreated nat address category nat int nat
| Trade nat address outcome bool int int int int int
| MarketResolved nat "outcome option"
| Redeemed nat address int
| FeesSwept nat int
| MarketFinalized nat int int int
| FeesSweptTo nat address int
| LpFeesClaimed nat address int
| PoolRemainderClaimed nat address int
| TreasuryChanged address address
| ResolverProposed address
| ResolverChanged address address
| TreasuryProposed address
| AdminTransferProposed address
| AdminTransferred address address
| AdminTransferCancelled
| ProtocolFeeShareChanged nat nat
| PositionTransferred nat address address outcome int
| LpTransferred nat address address

section \<open>State\<close>

record mc_instance =
  in_admin :: "address option"
  in_pending_admin :: "pending_admin_rec option"
  in_collateral :: "address option"
  in_treasury :: "address option"
  in_resolver :: "address option"
  in_pending_resolver :: "address option"
  in_pending_treasury :: "address option"
  in_default_fee_bps :: "nat option"
  in_protocol_fee_share_bps :: "nat option"
  in_default_breaker :: "breaker_config_rec option"
  in_paused :: "bool option"
  in_next_id :: "nat option"
  in_default_redeem_horizon :: "nat option"

record 't mc =
  mc_inst :: mc_instance
  mc_markets :: "nat \<Rightarrow> market option"
  mc_positions :: "nat \<Rightarrow> address \<Rightarrow> position option"
  mc_settles :: "nat \<Rightarrow> settle_state option"
  mc_oracles :: "nat \<Rightarrow> oracle_state option"
  mc_obss :: "nat \<Rightarrow> nat \<Rightarrow> observation option"
  mc_fee_terms :: "nat \<Rightarrow> fee_terms_rec option"
  mc_lp_fees :: "nat \<Rightarrow> int option"
  mc_breakers :: "nat \<Rightarrow> breaker_config_rec option"
  mc_bands :: "nat \<Rightarrow> band_state option"
  mc_tok :: 't
  mc_events :: "mc_event list"

type_synonym 'a mc_res = "(mc_error, 'a) res"

definition publish :: "mc_event \<Rightarrow> 't mc \<Rightarrow> 't mc" where
  "publish ev c = c\<lparr>mc_events := mc_events c @ [ev]\<rparr>"

section \<open>Configuration and guards\<close>

definition instance_get :: "(mc_instance \<Rightarrow> 'a option) \<Rightarrow> 't mc \<Rightarrow> 'a mc_res" where
  "instance_get key c = ok_or McNotInitialized (key (mc_inst c))"

definition token_transfer ::
    "'t token \<Rightarrow> address \<Rightarrow> address \<Rightarrow> int \<Rightarrow> 't mc \<Rightarrow> 't mc mc_res" where
  "token_transfer T from to amount c =
     andThen (instance_get in_collateral c) (\<lambda>addr.
     andThen (unwrap (tk_transfer T addr from to amount (mc_tok c))) (\<lambda>t.
       Inr (c\<lparr>mc_tok := t\<rparr>)))"

definition require_admin :: "env \<Rightarrow> 't mc \<Rightarrow> unit mc_res" where
  "require_admin E c = andThen (instance_get in_admin c) (require_auth E)"

definition load_pending :: "'t mc \<Rightarrow> pending_admin_rec option" where
  "load_pending c = in_pending_admin (mc_inst c)"

definition require_resolver :: "env \<Rightarrow> 't mc \<Rightarrow> unit mc_res" where
  "require_resolver E c = andThen (instance_get in_resolver c) (require_auth E)"

definition assert_not_paused :: "'t mc \<Rightarrow> unit mc_res" where
  "assert_not_paused c =
     andThen (instance_get in_paused c) (\<lambda>paused.
       if paused then Inl (Err McPaused) else Inr ())"

definition assert_tradable :: "env \<Rightarrow> market \<Rightarrow> unit mc_res" where
  "assert_tradable E m =
     (if mk_status m \<noteq> Open then Inl (Err McMarketNotOpen)
      else if mk_close_time m \<le> e_now E then Inl (Err McMarketClosed)
      else Inr ())"

fun settlement_of :: "market_status \<Rightarrow> settlement mc_res" where
  "settlement_of Open = Inl (Err McNotFinal)"
| "settlement_of (Resolved Yes) = Inr SettleYes"
| "settlement_of (Resolved No) = Inr SettleNo"
| "settlement_of Void = Inr SettleVoid"

definition market_settlement :: "market \<Rightarrow> settlement mc_res" where
  "market_settlement m = settlement_of (mk_status m)"

fun reserves_for :: "market \<Rightarrow> outcome \<Rightarrow> int \<times> int" where
  "reserves_for m Yes = (mk_reserve_yes m, mk_reserve_no m)"
| "reserves_for m No = (mk_reserve_no m, mk_reserve_yes m)"

fun set_reserves :: "market \<Rightarrow> outcome \<Rightarrow> int \<Rightarrow> int \<Rightarrow> market" where
  "set_reserves m Yes r_outcome r_other = m\<lparr>mk_reserve_yes := r_outcome, mk_reserve_no := r_other\<rparr>"
| "set_reserves m No r_outcome r_other = m\<lparr>mk_reserve_no := r_outcome, mk_reserve_yes := r_other\<rparr>"

section \<open>Storage entries\<close>

definition load_market :: "nat \<Rightarrow> 't mc \<Rightarrow> market mc_res" where
  "load_market i c = ok_or McMarketNotFound (mc_markets c i)"

definition save_market :: "nat \<Rightarrow> market \<Rightarrow> 't mc \<Rightarrow> 't mc" where
  "save_market i m c = c\<lparr>mc_markets := (mc_markets c)(i \<mapsto> m)\<rparr>"

definition load_position :: "nat \<Rightarrow> address \<Rightarrow> 't mc \<Rightarrow> position" where
  "load_position i h c =
     (case mc_positions c i h of Some p \<Rightarrow> p | None \<Rightarrow> \<lparr>ps_yes = 0, ps_no = 0\<rparr>)"

definition save_position :: "nat \<Rightarrow> address \<Rightarrow> position \<Rightarrow> 't mc \<Rightarrow> 't mc" where
  "save_position i h p c =
     c\<lparr>mc_positions := (mc_positions c)
         (i := (mc_positions c i)(h := (if ps_yes p = 0 \<and> ps_no p = 0 then None else Some p)))\<rparr>"

definition load_settle :: "nat \<Rightarrow> 't mc \<Rightarrow> settle_state mc_res" where
  "load_settle i c = ok_or McNotSupported (mc_settles c i)"

definition save_settle :: "nat \<Rightarrow> settle_state \<Rightarrow> 't mc \<Rightarrow> 't mc" where
  "save_settle i s c = c\<lparr>mc_settles := (mc_settles c)(i \<mapsto> s)\<rparr>"

definition mark_finalized :: "env \<Rightarrow> nat \<Rightarrow> 't mc \<Rightarrow> 't mc" where
  "mark_finalized E i c =
     (case mc_settles c i of None \<Rightarrow> c
      | Some s \<Rightarrow> save_settle i (s\<lparr>st_finalized_at := e_now E\<rparr>) c)"

definition settle_closed :: "nat \<Rightarrow> 't mc \<Rightarrow> bool" where
  "settle_closed i c = (case mc_settles c i of None \<Rightarrow> False | Some s \<Rightarrow> st_closed s)"

definition batch_skip :: "nat \<Rightarrow> skip_reason \<Rightarrow> batch_item" where
  "batch_skip i why = \<lparr>bi_market_id = i, bi_payout = 0, bi_status = Skipped why\<rparr>"

fun strictly_ascending :: "nat list \<Rightarrow> bool" where
  "strictly_ascending (a # b # xs) \<longleftrightarrow> a < b \<and> strictly_ascending (b # xs)"
| "strictly_ascending _ \<longleftrightarrow> True"

definition validate_batch :: "nat list \<Rightarrow> unit mc_res" where
  "validate_batch ids =
     (if length ids = 0 \<or> MAX_BATCH < length ids then Inl (Err McBatchTooLarge)
      else if \<not> strictly_ascending ids then Inl (Err McInvalidAmount)
      else Inr ())"

definition load_oracle :: "nat \<Rightarrow> 't mc \<Rightarrow> oracle_state mc_res" where
  "load_oracle i c = ok_or McNotSupported (mc_oracles c i)"

definition save_oracle :: "nat \<Rightarrow> oracle_state \<Rightarrow> 't mc \<Rightarrow> 't mc" where
  "save_oracle i st c = c\<lparr>mc_oracles := (mc_oracles c)(i \<mapsto> st)\<rparr>"

definition save_obs :: "nat \<Rightarrow> nat \<Rightarrow> observation \<Rightarrow> 't mc \<Rightarrow> 't mc" where
  "save_obs i slot ob c = c\<lparr>mc_obss := (mc_obss c)(i := (mc_obss c i)(slot \<mapsto> ob))\<rparr>"

definition load_fee_terms :: "nat \<Rightarrow> 't mc \<Rightarrow> fee_terms_rec option" where
  "load_fee_terms i c = mc_fee_terms c i"

definition save_fee_terms :: "nat \<Rightarrow> fee_terms_rec \<Rightarrow> 't mc \<Rightarrow> 't mc" where
  "save_fee_terms i t c = c\<lparr>mc_fee_terms := (mc_fee_terms c)(i \<mapsto> t)\<rparr>"

definition load_lp_fees :: "nat \<Rightarrow> 't mc \<Rightarrow> int" where
  "load_lp_fees i c = (case mc_lp_fees c i of None \<Rightarrow> 0 | Some a \<Rightarrow> a)"

definition save_lp_fees :: "nat \<Rightarrow> int \<Rightarrow> 't mc \<Rightarrow> 't mc" where
  "save_lp_fees i amount c =
     c\<lparr>mc_lp_fees := (mc_lp_fees c)(i := (if amount \<le> 0 then None else Some amount))\<rparr>"

definition load_breaker :: "nat \<Rightarrow> 't mc \<Rightarrow> breaker_config_rec option" where
  "load_breaker i c = mc_breakers c i"

definition save_breaker :: "nat \<Rightarrow> breaker_config_rec \<Rightarrow> 't mc \<Rightarrow> 't mc" where
  "save_breaker i b c = c\<lparr>mc_breakers := (mc_breakers c)(i \<mapsto> b)\<rparr>"

section \<open>Price accumulator\<close>

text \<open>The pre-trade price is folded over the time since the last trade; one observation is
  written per new timestamp.\<close>

definition accumulate :: "env \<Rightarrow> nat \<Rightarrow> oracle_state \<Rightarrow> 't mc \<Rightarrow> (oracle_state \<times> 't mc) mc_res" where
  "accumulate E i st c =
     (if e_now E \<le> or_last_ts st then Inr (st, c)
      else let dt = int (e_now E - or_last_ts st) in
        andThen (ok_or McOverflow (checked_mul (int (or_last_price_bps st)) dt)) (\<lambda>inc.
        andThen (ok_or McOverflow (checked_add (or_price_cumulative st) inc)) (\<lambda>cum.
        andThen (add_u32 (or_obs_index st) 1) (\<lambda>idx.
        andThen (add_u32 (or_obs_count st) 1) (\<lambda>cnt.
          let st' = \<lparr>or_price_cumulative = cum, or_last_ts = e_now E,
                     or_last_price_bps = or_last_price_bps st,
                     or_obs_index = idx mod ORACLE_RING, or_obs_count = min cnt ORACLE_RING\<rparr>
          in Inr (st', save_obs i (idx mod ORACLE_RING)
                         \<lparr>ob_ts = e_now E, ob_cumulative = cum\<rparr> c))))))"

text \<open>The scan of the ring for the two observations around \<open>t\<close>.\<close>

definition newer_before :: "nat \<Rightarrow> observation \<Rightarrow> observation option \<Rightarrow> observation option" where
  "newer_before t ob a =
     (if ob_ts ob \<le> t \<and> (case a of None \<Rightarrow> True | Some p \<Rightarrow> ob_ts p < ob_ts ob) then Some ob else a)"

definition older_after :: "nat \<Rightarrow> observation \<Rightarrow> observation option \<Rightarrow> observation option" where
  "older_after t ob b =
     (if t \<le> ob_ts ob \<and> (case b of None \<Rightarrow> True | Some p \<Rightarrow> ob_ts ob < ob_ts p) then Some ob else b)"

fun scan_ring :: "(nat \<Rightarrow> observation option) \<Rightarrow> nat \<Rightarrow> nat list
    \<Rightarrow> observation option \<times> observation option \<Rightarrow> observation option \<times> observation option" where
  "scan_ring slots t [] ab = ab"
| "scan_ring slots t (s # ss) (a, b) =
     (case slots s of None \<Rightarrow> scan_ring slots t ss (a, b)
      | Some ob \<Rightarrow> scan_ring slots t ss (newer_before t ob a, older_after t ob b))"

definition ring_slots :: "oracle_state \<Rightarrow> nat list" where
  "ring_slots st =
     (let oldest = (or_obs_index st + ORACLE_RING + 1 - or_obs_count st) mod ORACLE_RING
      in List.map (\<lambda>k. (oldest + k) mod ORACLE_RING) [0..<or_obs_count st])"

definition interpolate :: "nat \<Rightarrow> observation \<Rightarrow> observation \<Rightarrow> int mc_res" where
  "interpolate t a b =
     andThen (ok_or McOverflow (checked_sub (ob_cumulative b) (ob_cumulative a))) (\<lambda>d.
     andThen (ok_or McOverflow (checked_mul d (int (t - ob_ts a)))) (\<lambda>p.
     andThen (sub_nat (ob_ts b) (ob_ts a)) (\<lambda>width.
     andThen (div_i128 p (int width)) (\<lambda>interp.
       ok_or McOverflow (checked_add (ob_cumulative a) interp)))))"

definition observe_at :: "nat \<Rightarrow> oracle_state \<Rightarrow> nat \<Rightarrow> 't mc \<Rightarrow> int mc_res" where
  "observe_at i st t c =
     (if or_last_ts st \<le> t
      then andThen (ok_or McOverflow
               (checked_mul (int (or_last_price_bps st)) (int (t - or_last_ts st)))) (\<lambda>ext.
             ok_or McOverflow (checked_add (or_price_cumulative st) ext))
      else if or_obs_index st + ORACLE_RING + 1 < or_obs_count st then Inl Trap
      else let (a, b) = scan_ring (mc_obss c i) t (ring_slots st) (None, None);
          edge = \<lparr>ob_ts = or_last_ts st, ob_cumulative = or_price_cumulative st\<rparr>;
          b' = (case b of None \<Rightarrow> edge | Some p \<Rightarrow> if or_last_ts st < ob_ts p then edge else p)
        in case a of None \<Rightarrow> Inl (Err McObservationTooOld)
           | Some a' \<Rightarrow>
               if ob_ts a' = t then Inr (ob_cumulative a')
               else if ob_ts b' = t then Inr (ob_cumulative b')
               else interpolate t a' b')"

section \<open>Fees and circuit breakers\<close>

definition accrue_fees :: "nat \<Rightarrow> int \<Rightarrow> 't mc \<Rightarrow> (int \<times> 't mc) mc_res" where
  "accrue_fees i fee c =
     andThen (case load_fee_terms i c of
                Some t \<Rightarrow> map_err from_math (split_fee fee (ft_protocol_share_bps t))
              | None \<Rightarrow> Inr (fee, 0)) (\<lambda>(protocol, lp).
       if 0 < lp
       then andThen (ok_or McOverflow (checked_add (load_lp_fees i c) lp)) (\<lambda>total.
              Inr (protocol, save_lp_fees i total c))
       else Inr (protocol, c))"

definition band_ref :: "env \<Rightarrow> nat \<Rightarrow> int \<Rightarrow> 't mc \<Rightarrow> nat \<times> 't mc" where
  "band_ref E i pre_price c =
     (let fresh = (as_u32 pre_price,
                   c\<lparr>mc_bands := (mc_bands c)(i \<mapsto>
                        \<lparr>bs_ledger_seq = e_seq E, bs_ref_price_bps = as_u32 pre_price\<rparr>)\<rparr>)
      in case mc_bands c i of
           Some state \<Rightarrow>
             if bs_ledger_seq state = e_seq E then (bs_ref_price_bps state, c) else fresh
         | None \<Rightarrow> fresh)"

definition check_breakers ::
    "env \<Rightarrow> nat \<Rightarrow> market \<Rightarrow> outcome \<Rightarrow> int \<Rightarrow> int \<Rightarrow> 't mc \<Rightarrow> 't mc mc_res" where
  "check_breakers E i m outcome new_outcome_reserve new_other_reserve c =
     (case load_breaker i c of None \<Rightarrow> Inr c
      | Some cfg \<Rightarrow>
          if bc_max_impact_bps cfg = 0 \<and> bc_band_bps cfg = 0 then Inr c
          else
            andThen (map_err from_math (price_yes_bps (mk_reserve_yes m) (mk_reserve_no m))) (\<lambda>pre.
            andThen (map_err from_math
                (price_after (outcome = Yes) new_outcome_reserve new_other_reserve)) (\<lambda>post.
            if 0 < bc_max_impact_bps cfg \<and> int (bc_max_impact_bps cfg) < \<bar>post - pre\<bar>
            then Inl (Err McPriceImpactTooHigh)
            else if 0 < bc_band_bps cfg
            then let (reference, c') = band_ref E i pre c in
                 if int (bc_band_bps cfg) < \<bar>post - int reference\<bar>
                 then Inl (Err McPriceBandExceeded) else Inr c'
            else Inr c)))"

end
