(* ===== verification/FpmmProps.thy ===== *)
theory FpmmProps
  imports FpmmCorrect MarketState
begin

text \<open>
  The properties of the market maker's arithmetic, each with a concrete instance that
  discharges its hypotheses.
\<close>

lemmas fpmm_eval = calc_buy_def calc_sell_def calc_sell_shares_def mul_div_ceil_def
  mul_div_floor_def mul_def i128_defs BPS_def MAX_SETS_def MIN_PROB_BPS_def MAX_PROB_BPS_def
  signed_divide_int_def signed_modulo_int_def ceil_div_def

section \<open>Quotes\<close>

text \<open>C27. A successful buy charges exactly the payment (fee plus net), mints \<open>net\<close> complete sets
  into the pool, hands out the rest of the bought side, and leaves on that side the least
  reserve for which the product of the reserves does not fall.\<close>

theorem calc_buy_correct:
  assumes "calc_buy rb ro cin f = Inr q"
  shows "bq_fee q + bq_net q = cin \<and> 0 \<le> bq_fee q \<and> 0 < bq_net q
    \<and> bq_new_reserve_other q = ro + bq_net q
    \<and> bq_new_reserve_bought q + bq_shares_out q = rb + bq_net q
    \<and> 0 < bq_shares_out q \<and> 0 < bq_new_reserve_bought q
    \<and> (\<forall>r. rb * ro \<le> r * bq_new_reserve_other q \<longleftrightarrow> bq_new_reserve_bought q \<le> r)"
proof -
  note D = calc_buyD [OF assms]
  have "0 < ro + bq_net q" using D by simp
  then have "rb * ro \<le> r * bq_new_reserve_other q \<longleftrightarrow> bq_new_reserve_bought q \<le> r" for r
    unfolding D(7,8) by (simp only: ceil_div_le_iff)
  then show ?thesis using D calc_buy_reserves_pos [OF assms] by simp
qed

lemma buy_example:
  "calc_buy 1000 1000 100 0 = Inr \<lparr>bq_shares_out = 190, bq_fee = 0, bq_net = 100,
     bq_new_reserve_bought = 910, bq_new_reserve_other = 1100\<rparr>"
  by (simp add: fpmm_eval)

theorem calc_buy_correct_witness:
  "\<exists>q. calc_buy 1000 1000 100 0 = Inr q \<and> bq_new_reserve_bought q + bq_shares_out q = 1000 + bq_net q"
  using calc_buy_correct [OF buy_example] buy_example by blast

text \<open>On a pool within \<open>MAX_SETS\<close> and a payment within it, a buy never traps and never
  overflows: it is refused (as invalid input) exactly when the rounded-up fee eats the whole
  payment, and succeeds otherwise.\<close>

lemma calc_buy_never_overflows:
  assumes "0 < rb" "rb \<le> MAX_SETS" "0 < ro" "ro \<le> MAX_SETS" "0 < cin" "cin \<le> MAX_SETS"
    and "int f \<le> BPS"
  shows "calc_buy rb ro cin f = Inl (Err InvalidInput) \<and> cin \<le> ceil_div (cin * int f) BPS
    \<or> (\<exists>q. calc_buy rb ro cin f = Inr q) \<and> ceil_div (cin * int f) BPS < cin"
  using calc_buy_total [OF assms refl] by auto

lemma calc_buy_never_overflows_witness:
  "(0::int) < 5000000 \<and> (5000000::int) \<le> MAX_SETS \<and> int 30 \<le> BPS
   \<and> (calc_buy 5000000 5000000 1 30 = Inl (Err InvalidInput) \<and> 1 \<le> ceil_div (1 * int 30) BPS
    \<or> (\<exists>q. calc_buy 5000000 5000000 1 30 = Inr q) \<and> ceil_div (1 * int 30) BPS < 1)"
proof -
  have M: "(5000000::int) \<le> MAX_SETS" "(1::int) \<le> MAX_SETS" "int 30 \<le> BPS"
    by (simp_all add: MAX_SETS_def BPS_def)
  show ?thesis
    using calc_buy_never_overflows [of 5000000 5000000 1 30] M by simp
qed

text \<open>A successful sell for an exact payout burns the least gross amount whose part after the
  fee covers the payout, and takes the least number of shares for which the product of the
  reserves does not fall.\<close>

lemma calc_sell_correct:
  assumes "calc_sell rs ro out f = Inr q"
  shows "sq_gross q = out + sq_fee q \<and> 0 \<le> sq_fee q
    \<and> (\<forall>g. out * BPS \<le> g * (BPS - int f) \<longleftrightarrow> sq_gross q \<le> g)
    \<and> sq_new_reserve_other q = ro - sq_gross q \<and> 0 < sq_new_reserve_other q
    \<and> sq_new_reserve_sold q = rs + sq_shares_in q - sq_gross q \<and> 0 < sq_shares_in q
    \<and> (\<forall>r. rs * ro \<le> r * sq_new_reserve_other q \<longleftrightarrow> sq_new_reserve_sold q \<le> r)"
proof -
  note D = calc_sellD [OF assms]
  have "0 < ro - sq_gross q" "0 < BPS - int f" using D by simp_all
  then have "rs * ro \<le> r * sq_new_reserve_other q \<longleftrightarrow> sq_new_reserve_sold q \<le> r"
    and "out * BPS \<le> r * (BPS - int f) \<longleftrightarrow> sq_gross q \<le> r" for r
    unfolding D(5,8,9) by (simp_all only: ceil_div_le_iff)
  then show ?thesis using D calc_sell_reserves_pos [OF assms] by simp
qed

lemma sell_example:
  "calc_sell 1000 1000 100 0 = Inr \<lparr>sq_shares_in = 212, sq_fee = 0, sq_gross = 100,
     sq_new_reserve_sold = 1112, sq_new_reserve_other = 900\<rparr>"
  by (simp add: fpmm_eval)

lemma calc_sell_correct_witness:
  "\<exists>q. calc_sell 1000 1000 100 0 = Inr q \<and> sq_new_reserve_sold q = 1000 + sq_shares_in q - sq_gross q"
  using calc_sell_correct [OF sell_example] sell_example by blast

text \<open>C10. No sequence of buys and sells earns a risk-free profit: whatever the outcome, the cash
  a trader ends with plus the shares gained on the worse side never exceeds the starting cash.
  In particular a sequence that ends with the shares it started with never gains cash.\<close>

theorem no_risk_free_profit:
  assumes "pool_run f ts p = Some p'" and "0 < pl_yes p" and "0 < pl_no p"
  shows "pl_cash p' + min (pl_hy p' - pl_hy p) (pl_hn p' - pl_hn p) \<le> pl_cash p"
  using pool_run_rel [OF assms(1)] assms(2,3) by (rule pool_rel_no_profit)

definition demo_pool :: pool where
  "demo_pool = \<lparr>pl_yes = 1000, pl_no = 1000, pl_cash = 500, pl_hy = 0, pl_hn = 0\<rparr>"

lemma demo_run:
  "pool_run 0 [Buy True 100, Sell True 99] demo_pool
    = Some \<lparr>pl_yes = 1000, pl_no = 1001, pl_cash = 499, pl_hy = 1, pl_hn = 0\<rparr>"
  by (simp add: demo_pool_def fpmm_eval)

theorem no_risk_free_profit_witness:
  "\<exists>p'. pool_run 0 [Buy True 100, Sell True 99] demo_pool = Some p'
     \<and> pl_cash p' + min (pl_hy p' - pl_hy demo_pool) (pl_hn p' - pl_hn demo_pool)
         \<le> pl_cash demo_pool"
  using no_risk_free_profit [OF demo_run] demo_run by (fastforce simp: demo_pool_def)

section \<open>Square root and exact share sells\<close>

text \<open>C40. The integer square root of a \<open>u128\<close> never traps (no division by zero, no overflow in the
  Newton step), terminates, and returns exactly the floor of the root.\<close>

theorem isqrt_exact:
  assumes "n < 2 ^ 128"
  shows "\<exists>r. (isqrt n :: (math_error, nat) res) = Inr r \<and> r\<^sup>2 \<le> n \<and> n < (r + 1)\<^sup>2"
  using isqrt_exists [OF assms] by (simp add: power2_eq_square)

theorem isqrt_exact_witness:
  "\<exists>r. (isqrt 4000000000001 :: (math_error, nat) res) = Inr r \<and> r\<^sup>2 \<le> 4000000000001
     \<and> 4000000000001 < (r + 1)\<^sup>2"
  by (rule isqrt_exact) simp

text \<open>C39. Selling an exact number of shares on an in-bounds pool is total and optimal: it burns
  the greatest number of sets for which the product of the reserves does not fall, splits it
  into payout and fee, and is refused only when that number or the payout is zero.\<close>

theorem calc_sell_shares_optimal:
  assumes "0 < rs" "rs \<le> MAX_SETS" "0 < ro" "ro \<le> MAX_SETS" "0 < sh" "sh \<le> MAX_SETS"
    and "int f < BPS"
  shows "\<exists>x. 0 \<le> x \<and> x < ro \<and> x < sh \<and> rs * ro \<le> (rs + sh - x) * (ro - x)
    \<and> (\<forall>z. x < z \<and> z \<le> ro \<longrightarrow> (rs + sh - z) * (ro - z) < rs * ro)
    \<and> calc_sell_shares rs ro sh f =
       (if x = 0 then Inl (Err InsufficientLiquidity)
        else if x * (BPS - int f) div BPS \<le> 0 then Inl (Err InvalidInput)
        else Inr \<lparr>ssq_collateral_out = x * (BPS - int f) div BPS,
                  ssq_fee = x - x * (BPS - int f) div BPS, ssq_gross = x,
                  ssq_new_reserve_sold = rs + sh - x, ssq_new_reserve_other = ro - x\<rparr>)"
proof -
  obtain x where x: "max_burn rs ro sh x" "calc_sell_shares rs ro sh f =
       (if x = 0 then Inl (Err InsufficientLiquidity)
        else if x * (BPS - int f) div BPS \<le> 0 then Inl (Err InvalidInput)
        else Inr \<lparr>ssq_collateral_out = x * (BPS - int f) div BPS,
                  ssq_fee = x - x * (BPS - int f) div BPS, ssq_gross = x,
                  ssq_new_reserve_sold = rs + sh - x, ssq_new_reserve_other = ro - x\<rparr>)"
    using calc_sell_shares_cases [OF assms] by blast
  then show ?thesis by (intro exI [of _ x]) (auto simp: max_burn_def sell_ok_def not_le)
qed

theorem calc_sell_shares_optimal_witness:
  "\<exists>x. 0 \<le> x \<and> calc_sell_shares 1000 1000 212 0 =
       (if x = 0 then Inl (Err InsufficientLiquidity)
        else if x * (BPS - int 0) div BPS \<le> 0 then Inl (Err InvalidInput)
        else Inr \<lparr>ssq_collateral_out = x * (BPS - int 0) div BPS,
                  ssq_fee = x - x * (BPS - int 0) div BPS, ssq_gross = x,
                  ssq_new_reserve_sold = 1000 + 212 - x, ssq_new_reserve_other = 1000 - x\<rparr>)"
  using calc_sell_shares_optimal [of 1000 1000 212 0] by (auto simp: MAX_SETS_def BPS_def)

text \<open>The exact-shares sell never beats the exact-payout sell: asking \<open>calc_sell\<close> for the
  payout \<open>calc_sell_shares\<close> granted costs at most the shares that were sold.\<close>

lemma sell_shares_never_beats_sell:
  assumes dom: "0 < rs" "rs \<le> MAX_SETS" "0 < ro" "ro \<le> MAX_SETS" "0 < sh" "sh \<le> MAX_SETS"
    and f: "int f < BPS"
    and q: "calc_sell_shares rs ro sh f = Inr q"
    and s: "calc_sell rs ro (ssq_collateral_out q) f = Inr r"
  shows "sq_gross r \<le> ssq_gross q \<and> sq_shares_in r \<le> sh"
proof -
  obtain x where x: "max_burn rs ro sh x" and qx: "ssq_gross q = x"
      "ssq_collateral_out q = x * (BPS - int f) div BPS"
    using calc_sell_shares_cases [OF dom f] q by (auto split: if_splits)
  note D = calc_sellD [OF s] and P = calc_sell_reserves_pos [OF s]
  have "ssq_collateral_out q * BPS \<le> x * (BPS - int f)"
    using floor_div_bounds [of BPS "x * (BPS - int f)"] by (simp add: qx)
  then have g: "sq_gross r \<le> x" using D f by (simp add: ceil_div_le_iff)
  moreover have "0 \<le> sq_gross r" using P(4) D(1) by linarith
  ultimately have "sell_ok rs ro sh (sq_gross r)"
    using x sell_ok_antimono [of rs ro sh x "sq_gross r"] dom by (simp add: max_burn_def)
  then have "sq_new_reserve_sold r \<le> rs + sh - sq_gross r"
    using D P by (simp add: ceil_div_le_iff sell_ok_def)
  then show ?thesis using g D qx by simp
qed

lemma candidate_isqrt: "(isqrt 4044944 :: (math_error, nat) res) = Inr 2011"
  by (simp add: isqrt_def leading_zeros_def bit_len.simps isqrt_loop.simps newton_step_def Let_def)

lemma sell_shares_example:
  "calc_sell_shares 1000 1000 212 0 = Inr \<lparr>ssq_collateral_out = 100, ssq_fee = 0, ssq_gross = 100,
     ssq_new_reserve_sold = 1112, ssq_new_reserve_other = 900\<rparr>"
  by (simp add: fpmm_eval checked_mul_u128_def checked_sub_u128_def candidate_isqrt sub_nat_def
      sell_shares_correct.simps Let_def)

theorem sell_shares_never_beats_sell_witness:
  "\<exists>q r. calc_sell_shares 1000 1000 212 0 = Inr q
     \<and> calc_sell 1000 1000 (ssq_collateral_out q) 0 = Inr r
     \<and> sq_gross r \<le> ssq_gross q \<and> sq_shares_in r \<le> 212"
  using sell_shares_never_beats_sell [OF _ _ _ _ _ _ _ sell_shares_example] sell_shares_example
    sell_example by (fastforce simp: MAX_SETS_def BPS_def)

section \<open>Opening price, fee split, settlement\<close>

lemma seed_price_high:
  fixes S p B :: int
  assumes S: "B < S" and p: "0 < p" "p < B" and r: "r = S * (B - p) div p"
  shows "p \<le> S * B div (r + S)" "S * B div (r + S) \<le> p + 1"
proof -
  have b: "r * p \<le> S * (B - p)" "S * (B - p) < (r + 1) * p"
    using floor_div_bounds [of p "S * (B - p)"] p r by auto
  have "0 \<le> r" using S p by (simp add: r pos_imp_zdiv_nonneg_iff)
  then have pos: "0 < r + S" using S p by simp
  have "p * (r + S) \<le> S * B" using b(1) by (simp add: algebra_simps)
  then show "p \<le> S * B div (r + S)" using pos by (simp add: le_floor_div_iff)
  have "S * B < (p + 2) * (r + S)"
    using b(2) \<open>0 \<le> r\<close> S p by (simp add: algebra_simps)
  then have "\<not> p + 2 \<le> S * B div (r + S)" using pos by (simp add: le_floor_div_iff)
  then show "S * B div (r + S) \<le> p + 1" by simp
qed

lemma seed_price_low:
  fixes S p B :: int
  assumes S: "B < S" and p: "0 < p" "p < B" and r: "r = S * p div (B - p)"
  shows "p - 1 \<le> r * B div (S + r)" "r * B div (S + r) \<le> p"
proof -
  have b: "r * (B - p) \<le> S * p" "S * p < (r + 1) * (B - p)"
    using floor_div_bounds [of "B - p" "S * p"] p r by auto
  have "0 \<le> r" using S p by (simp add: r pos_imp_zdiv_nonneg_iff)
  then have pos: "0 < S + r" using S p by simp
  have "(p - 1) * (S + r) \<le> r * B"
    using b(2) \<open>0 \<le> r\<close> S p by (simp add: algebra_simps)
  then show "p - 1 \<le> r * B div (S + r)" using pos by (simp add: le_floor_div_iff)
  have "r * B < (p + 1) * (S + r)" using b(1) pos by (simp add: algebra_simps)
  then have "\<not> p + 1 \<le> r * B div (S + r)" using pos by (simp add: le_floor_div_iff)
  then show "r * B div (S + r) \<le> p" by simp
qed

lemma seed_reserve_bounds:
  fixes S k l :: int
  assumes "1000000000 \<le> S" "100 \<le> k" "k \<le> l" "l \<le> 9900"
  shows "0 < S * k div l" "S * k div l \<le> S"
proof -
  have "1 * l \<le> S * k" using mult_mono [of 1000000000 S 100 k] assms by simp
  then have "1 \<le> S * k div l" using assms by (simp only: le_floor_div_iff)
  then show "0 < S * k div l" by simp
  have "S * k \<le> S * l" using assms by (intro mult_left_mono) auto
  then have "\<not> S * l < S * k" by simp
  then show "S * k div l \<le> S"
    using floor_div_bounds [of l "S * k"] assms
    by (smt (verit) mult_less_cancel_right mult.commute)
qed

text \<open>A pool seeded with at least the contract's minimum opens within one basis point of the
  requested probability, keeps both reserves positive, and returns the rest of the seed to the
  creator on one side only.\<close>

lemma seed_opens_at_requested_price:
  assumes "MIN_SEED \<le> seed" "seed \<le> MAX_SETS" "MIN_PROB_BPS \<le> p" "p \<le> MAX_PROB_BPS"
  shows "\<exists>r price. seed_reserves seed p = Inr r
     \<and> price_yes_bps (sr_reserve_yes r) (sr_reserve_no r) = Inr price \<and> \<bar>price - int p\<bar> \<le> 1
     \<and> 0 < sr_reserve_yes r \<and> 0 < sr_reserve_no r
     \<and> sr_reserve_yes r + sr_creator_yes r = seed \<and> sr_reserve_no r + sr_creator_no r = seed
     \<and> 0 \<le> sr_creator_yes r \<and> 0 \<le> sr_creator_no r
     \<and> (sr_creator_yes r = 0 \<or> sr_creator_no r = 0)"
proof -
  have dom: "1000000000 \<le> seed" "seed \<le> MAX_SETS" "100 \<le> int p" "int p \<le> 9900"
    using assms by (auto simp: MIN_SEED_def MIN_PROB_BPS_def MAX_PROB_BPS_def)
  have price: "price_yes_bps ry rn = Inr (rn * BPS div (ry + rn))"
    if "0 < ry" "ry \<le> seed" "0 < rn" "rn \<le> seed" for ry rn
  proof -
    have "checked_add ry rn = Some (ry + rn)"
      using that dom by (auto simp: checked_add_eq intro!: in_i128_MAX_SETS)
    moreover have "mul_div_floor rn BPS (ry + rn) = Inr (rn * BPS div (ry + rn))"
      using that dom by (auto simp: mul_div_floor_eq BPS_def MAX_SETS_def
          intro!: in_i128_MAX_SETS_mult)
    ultimately show ?thesis using that by (simp add: price_yes_bps_def)
  qed
  have subs: "(sub_i128 seed x :: (math_error, int) res) = Inr (seed - x)"
    if "0 < x" "x \<le> seed" for x
    using that dom by (intro sub_i128_Inr in_i128_MAX_SETS) auto
  have mdf: "mul_div_floor seed k l = Inr (seed * k div l)"
    if "0 \<le> k" "k \<le> 10000" "0 < l" for k l
    using that dom by (auto simp: mul_div_floor_eq MAX_SETS_def intro!: in_i128_MAX_SETS_mult)
  have B: "BPS div 2 = 5000" "BPS = 10000" by (simp_all add: BPS_def)
  show ?thesis
  proof (cases "5000 \<le> int p")
    case True
    define r where "r = seed * (BPS - int p) div int p"
    have rb: "0 < r" "r \<le> seed"
      using seed_reserve_bounds [of seed "BPS - int p" "int p"] dom True by (simp_all add: r_def B)
    have "seed_reserves seed p = Inr \<lparr>sr_reserve_yes = r, sr_reserve_no = seed,
        sr_creator_yes = seed - r, sr_creator_no = 0\<rparr>"
      using assms(3,4) dom True rb mdf [of "BPS - int p" "int p"] subs [OF rb] subs [of seed]
      by (simp add: seed_reserves_def Let_def B r_def)
    moreover have "\<bar>seed * BPS div (r + seed) - int p\<bar> \<le> 1"
      using seed_price_high [of BPS seed "int p" r] dom by (auto simp: r_def B)
    ultimately show ?thesis using price [of r seed] rb dom by simp
  next
    case False
    define r where "r = seed * int p div (BPS - int p)"
    have rb: "0 < r" "r \<le> seed"
      using seed_reserve_bounds [of seed "int p" "BPS - int p"] dom False by (simp_all add: r_def B)
    have "seed_reserves seed p = Inr \<lparr>sr_reserve_yes = seed, sr_reserve_no = r,
        sr_creator_yes = 0, sr_creator_no = seed - r\<rparr>"
      using assms(3,4) dom False rb mdf [of "int p" "BPS - int p"] subs [OF rb] subs [of seed]
      by (simp add: seed_reserves_def Let_def B r_def)
    moreover have "\<bar>r * BPS div (seed + r) - int p\<bar> \<le> 1"
      using seed_price_low [of BPS seed "int p" r] dom by (auto simp: r_def B)
    ultimately show ?thesis using price [of seed r] rb dom by simp
  qed
qed

lemma seed_opens_at_requested_price_witness:
  "\<exists>r price. seed_reserves 10000000000 7300 = Inr r
     \<and> price_yes_bps (sr_reserve_yes r) (sr_reserve_no r) = Inr price \<and> \<bar>price - int 7300\<bar> \<le> 1"
  using seed_opens_at_requested_price [of 10000000000 7300]
  by (auto simp: MIN_SEED_def MAX_SETS_def MIN_PROB_BPS_def MAX_PROB_BPS_def)

text \<open>The fee split is exact: for every in-range fee and share the two parts are non-negative
  and add up to the fee, and the protocol's part is its share rounded up.\<close>

lemma split_fee_exact:
  assumes "0 \<le> fee" "fee \<le> MAX_SETS" "int share \<le> BPS"
  shows "\<exists>protocol lp. split_fee fee share = Inr (protocol, lp) \<and> protocol + lp = fee
    \<and> 0 \<le> protocol \<and> 0 \<le> lp
    \<and> (\<forall>x. fee * int share \<le> x * BPS \<longleftrightarrow> protocol \<le> x)"
proof -
  define pr where "pr = ceil_div (fee * int share) BPS"
  have "mul_div_ceil fee (int share) BPS = Inr pr"
    using assms by (auto simp: mul_div_ceil_eq pr_def BPS_def MAX_SETS_def
        intro!: in_i128_MAX_SETS_mult)
  moreover have "0 \<le> pr" using assms by (simp add: pr_def ceil_div_nonneg)
  moreover have "fee * int share \<le> fee * BPS" using assms by (intro mult_left_mono) auto
  then have "pr \<le> fee" by (simp add: pr_def ceil_div_le_iff)
  moreover from calculation have "(sub_i128 fee pr :: (math_error, int) res) = Inr (fee - pr)"
    using assms by (intro sub_i128_Inr in_i128_MAX_SETS) auto
  moreover have "\<forall>x. fee * int share \<le> x * BPS \<longleftrightarrow> pr \<le> x"
    by (auto simp: pr_def ceil_div_le_iff)
  ultimately show ?thesis using assms by (simp add: split_fee_def)
qed

theorem split_fee_exact_witness:
  "\<exists>protocol lp. split_fee 101 3300 = Inr (protocol, lp) \<and> protocol + lp = 101"
  using split_fee_exact [of 101 3300] by (auto simp: MAX_SETS_def BPS_def)

lemma settle_value_nonneg:
  "0 \<le> y \<Longrightarrow> 0 \<le> n \<Longrightarrow> settle_value k y n = Inr v \<Longrightarrow>
     v = (case k of SettleYes \<Rightarrow> y | SettleNo \<Rightarrow> n | SettleVoid \<Rightarrow> (y + n) div 2)"
  by (cases k) (auto simp: res_simps int_ops sdiv_nonneg)

lemma settle_upper_nonneg:
  "0 \<le> y \<Longrightarrow> 0 \<le> n \<Longrightarrow> settle_upper k y n = Inr v \<Longrightarrow>
     v = (case k of SettleYes \<Rightarrow> y | SettleNo \<Rightarrow> n | SettleVoid \<Rightarrow> (y + n) div 2)"
  by (cases k) (auto simp: res_simps int_ops sdiv_nonneg)

lemma halves_le: "(\<Sum>x\<leftarrow>xs. f x div 2) \<le> (\<Sum>x\<leftarrow>xs. f x) div (2::int)"
  by (induction xs) auto

text \<open>Rounding never lets redemptions exceed the reserve kept for them: whatever the final
  status, the settlement values of any list of claims add up to at most \<open>settle_upper\<close> of the
  summed claims.\<close>

lemma claims_within_settle_upper:
  assumes "\<forall>c\<in>set claims. 0 \<le> fst c \<and> 0 \<le> snd c"
    and "list_all2 (\<lambda>c v. settle_value k (fst c) (snd c) = (Inr v :: (math_error, int) res))
           claims payouts"
    and "settle_upper k (\<Sum>c\<leftarrow>claims. fst c) (\<Sum>c\<leftarrow>claims. snd c) = (Inr u :: (math_error, int) res)"
  shows "sum_list payouts \<le> u"
proof -
  have "payouts = map (\<lambda>c. case k of SettleYes \<Rightarrow> fst c | SettleNo \<Rightarrow> snd c
      | SettleVoid \<Rightarrow> (fst c + snd c) div 2) claims"
    using assms(2,1)
  proof (induction rule: list_all2_induct)
    case (Cons c cs v vs)
    then show ?case using settle_value_nonneg [of "fst c" "snd c" k v] by auto
  qed simp
  moreover have nn: "0 \<le> (\<Sum>c\<leftarrow>claims. fst c)" "0 \<le> (\<Sum>c\<leftarrow>claims. snd c)"
    using assms(1) by (auto intro!: sum_list_nonneg)
  note u = settle_upper_nonneg [OF nn assms(3)]
  moreover have "(\<Sum>c\<leftarrow>claims. (fst c + snd c) div 2)
      \<le> ((\<Sum>c\<leftarrow>claims. fst c) + (\<Sum>c\<leftarrow>claims. snd c)) div 2"
    using halves_le [of "\<lambda>c. fst c + snd c" claims] by (simp add: sum_list_addf)
  ultimately show ?thesis by (cases k) auto
qed

lemma claims_within_settle_upper_witness:
  "sum_list [1, 0] \<le> (1::int)"
  by (rule claims_within_settle_upper [of "[(1, 1), (0, 1)]" SettleVoid])
    (simp_all add: i128_defs signed_divide_int_def)

end
