(* ===== verification/MarketOps.thy ===== *)
theory MarketOps
  imports MarketState
begin

text \<open>
  The entry points of the market contract (\<^verbatim>\<open>contracts/market-core/src/lib.rs\<close>): construction
  and administration, the creation of a market, trading, resolution and settlement. Every
  handler takes the token \<open>T\<close>, the call's environment \<open>E\<close>, its arguments and the state, in the
  order of the code, and returns the result with the new state, or the failure. Views are in
  \<^theory_text>\<open>MarketViews\<close>.
\<close>

section \<open>Construction and administration\<close>

definition empty_instance :: mc_instance where
  "empty_instance =
     \<lparr>in_admin = None, in_pending_admin = None, in_collateral = None, in_treasury = None,
      in_resolver = None, in_pending_resolver = None, in_pending_treasury = None,
      in_default_fee_bps = None, in_protocol_fee_share_bps = None, in_default_breaker = None,
      in_paused = None, in_next_id = None, in_default_redeem_horizon = None\<rparr>"

text \<open>A contract just deployed on a ledger whose token state is \<open>t\<close>: no entry exists.\<close>

definition deployed :: "'t \<Rightarrow> 't mc" where
  "deployed t =
     \<lparr>mc_inst = empty_instance, mc_markets = Map.empty, mc_positions = (\<lambda>_. Map.empty),
      mc_settles = Map.empty, mc_oracles = Map.empty, mc_obss = (\<lambda>_. Map.empty),
      mc_fee_terms = Map.empty, mc_lp_fees = Map.empty, mc_breakers = Map.empty,
      mc_bands = Map.empty, mc_tok = t, mc_events = []\<rparr>"

definition constructor ::
    "address \<Rightarrow> address \<Rightarrow> address \<Rightarrow> address \<Rightarrow> nat \<Rightarrow> nat \<Rightarrow> 't mc \<Rightarrow> 't mc mc_res" where
  "constructor admin collateral treasury resolver default_fee_bps protocol_fee_share_bps c =
     (if MAX_FEE_BPS < default_fee_bps then Inl (Err McInvalidFee)
      else if BPS < int protocol_fee_share_bps then Inl (Err McInvalidFee)
      else Inr (c\<lparr>mc_inst := (mc_inst c)
             \<lparr>in_admin := Some admin, in_collateral := Some collateral,
              in_treasury := Some treasury, in_resolver := Some resolver,
              in_default_fee_bps := Some default_fee_bps,
              in_protocol_fee_share_bps := Some protocol_fee_share_bps,
              in_paused := Some False, in_next_id := Some 0,
              in_default_redeem_horizon := Some DEFAULT_REDEEM_HORIZON_SECS\<rparr>\<rparr>))"

definition set_inst :: "(mc_instance \<Rightarrow> mc_instance) \<Rightarrow> 't mc \<Rightarrow> 't mc" where
  "set_inst f c = c\<lparr>mc_inst := f (mc_inst c)\<rparr>"

definition propose_admin :: "env \<Rightarrow> address \<Rightarrow> 't mc \<Rightarrow> 't mc mc_res" where
  "propose_admin E new_admin c =
     andThen (require_admin E c) (\<lambda>_.
     andThen (add_u64 (e_now E) ADMIN_PROPOSAL_TTL_SECS) (\<lambda>expires.
       Inr (publish (AdminTransferProposed new_admin)
         (set_inst (in_pending_admin_update (\<lambda>_.
            Some \<lparr>pa_address = new_admin, pa_expires_at = expires\<rparr>)) c))))"

definition accept_admin :: "env \<Rightarrow> 't mc \<Rightarrow> 't mc mc_res" where
  "accept_admin E c =
     andThen (ok_or McNoPendingAdmin (load_pending c)) (\<lambda>pending.
     if pa_expires_at pending < e_now E then Inl (Err McPendingAdminExpired)
     else andThen (require_auth E (pa_address pending)) (\<lambda>_.
          andThen (instance_get in_admin c) (\<lambda>old.
            Inr (publish (AdminTransferred old (pa_address pending))
              (set_inst (\<lambda>s. s\<lparr>in_admin := Some (pa_address pending),
                               in_pending_admin := None\<rparr>) c)))))"

definition cancel_admin_transfer :: "env \<Rightarrow> 't mc \<Rightarrow> 't mc mc_res" where
  "cancel_admin_transfer E c =
     andThen (require_admin E c) (\<lambda>_.
     if load_pending c = None then Inl (Err McNoPendingAdmin)
     else Inr (publish AdminTransferCancelled
            (set_inst (in_pending_admin_update (\<lambda>_. None)) c)))"

definition set_paused :: "env \<Rightarrow> bool \<Rightarrow> 't mc \<Rightarrow> 't mc mc_res" where
  "set_paused E paused c =
     andThen (require_admin E c) (\<lambda>_. Inr (set_inst (in_paused_update (\<lambda>_. Some paused)) c))"

definition set_default_fee_bps :: "env \<Rightarrow> nat \<Rightarrow> 't mc \<Rightarrow> 't mc mc_res" where
  "set_default_fee_bps E fee_bps c =
     andThen (require_admin E c) (\<lambda>_.
     if MAX_FEE_BPS < fee_bps then Inl (Err McInvalidFee)
     else Inr (set_inst (in_default_fee_bps_update (\<lambda>_. Some fee_bps)) c))"

definition propose_resolver :: "env \<Rightarrow> address \<Rightarrow> 't mc \<Rightarrow> 't mc mc_res" where
  "propose_resolver E resolver c =
     andThen (require_admin E c) (\<lambda>_.
       Inr (publish (ResolverProposed resolver)
         (set_inst (in_pending_resolver_update (\<lambda>_. Some resolver)) c)))"

text \<open>\<open>peer a\<close> is what the contract at \<open>a\<close> answers to \<open>market_core()\<close> (\<open>None\<close> if that call
  aborts): code outside this contract.\<close>

definition accept_resolver ::
    "(address \<Rightarrow> address option) \<Rightarrow> env \<Rightarrow> 't mc \<Rightarrow> 't mc mc_res" where
  "accept_resolver peer E c =
     andThen (ok_or McNoPendingWiring (in_pending_resolver (mc_inst c))) (\<lambda>pending.
     andThen (require_auth E pending) (\<lambda>_.
     andThen (unwrap (peer pending)) (\<lambda>core.
     if core \<noteq> e_self E then Inl (Err McInvalidWiring)
     else andThen (instance_get in_resolver c) (\<lambda>old.
            Inr (publish (ResolverChanged old pending)
              (set_inst (\<lambda>s. s\<lparr>in_resolver := Some pending, in_pending_resolver := None\<rparr>) c))))))"

definition propose_treasury :: "env \<Rightarrow> address \<Rightarrow> 't mc \<Rightarrow> 't mc mc_res" where
  "propose_treasury E treasury c =
     andThen (require_admin E c) (\<lambda>_.
       Inr (publish (TreasuryProposed treasury)
         (set_inst (in_pending_treasury_update (\<lambda>_. Some treasury)) c)))"

definition accept_treasury ::
    "(address \<Rightarrow> address option) \<Rightarrow> env \<Rightarrow> 't mc \<Rightarrow> 't mc mc_res" where
  "accept_treasury peer E c =
     andThen (ok_or McNoPendingWiring (in_pending_treasury (mc_inst c))) (\<lambda>treasury.
     andThen (require_auth E treasury) (\<lambda>_.
     andThen (unwrap (peer treasury)) (\<lambda>core.
     if core \<noteq> e_self E then Inl (Err McInvalidWiring)
     else andThen (instance_get in_treasury c) (\<lambda>old.
            Inr (publish (TreasuryChanged old treasury)
              (set_inst (\<lambda>s. s\<lparr>in_treasury := Some treasury, in_pending_treasury := None\<rparr>) c))))))"

definition set_protocol_fee_share_bps :: "env \<Rightarrow> nat \<Rightarrow> 't mc \<Rightarrow> 't mc mc_res" where
  "set_protocol_fee_share_bps E share_bps c =
     andThen (require_admin E c) (\<lambda>_.
     if BPS < int share_bps then Inl (Err McInvalidFee)
     else andThen (instance_get in_protocol_fee_share_bps c) (\<lambda>old.
            Inr (publish (ProtocolFeeShareChanged old share_bps)
              (set_inst (in_protocol_fee_share_bps_update (\<lambda>_. Some share_bps)) c))))"

definition set_default_breaker :: "env \<Rightarrow> breaker_config_rec \<Rightarrow> 't mc \<Rightarrow> 't mc mc_res" where
  "set_default_breaker E b c =
     andThen (require_admin E c) (\<lambda>_.
     if BPS < int (bc_max_impact_bps b) \<or> BPS < int (bc_band_bps b) then Inl (Err McInvalidAmount)
     else if 0 < bc_max_impact_bps b \<and> 0 < bc_band_bps b \<and> bc_band_bps b < bc_max_impact_bps b
     then Inl (Err McInvalidAmount)
     else Inr (set_inst (in_default_breaker_update (\<lambda>_. Some b)) c))"

definition set_default_redeem_horizon :: "env \<Rightarrow> nat \<Rightarrow> 't mc \<Rightarrow> 't mc mc_res" where
  "set_default_redeem_horizon E secs c =
     andThen (require_admin E c) (\<lambda>_.
     if \<not> (MIN_REDEEM_HORIZON_SECS \<le> secs \<and> secs \<le> MAX_REDEEM_HORIZON_SECS)
     then Inl (Err McInvalidAmount)
     else Inr (set_inst (in_default_redeem_horizon_update (\<lambda>_. Some secs)) c))"

section \<open>Creating a market\<close>

text \<open>The entries written for a new market, and its price accumulator.\<close>

definition write_market ::
    "nat \<Rightarrow> market \<Rightarrow> fee_terms_rec \<Rightarrow> breaker_config_rec option \<Rightarrow> seed_reserves_rec \<Rightarrow> nat
      \<Rightarrow> 't mc \<Rightarrow> 't mc" where
  "write_market i m terms breaker seed horizon_secs c =
     (let c1 = save_fee_terms i terms (save_market i m c);
          c2 = (case breaker of Some b \<Rightarrow> save_breaker i b c1 | None \<Rightarrow> c1);
          c3 = (if 0 < sr_creator_yes seed \<or> 0 < sr_creator_no seed
                then save_position i (mk_creator m)
                       \<lparr>ps_yes = sr_creator_yes seed, ps_no = sr_creator_no seed\<rparr> c2
                else c2)
      in save_settle i \<lparr>st_outstanding_yes = sr_creator_yes seed,
           st_outstanding_no = sr_creator_no seed, st_finalized_at = 0,
           st_horizon_secs = horizon_secs, st_paid_out = 0, st_closed = False\<rparr> c3)"

definition open_oracle :: "env \<Rightarrow> nat \<Rightarrow> int \<Rightarrow> 't mc \<Rightarrow> 't mc" where
  "open_oracle E i price c =
     save_obs i 0 \<lparr>ob_ts = e_now E, ob_cumulative = 0\<rparr>
       (save_oracle i \<lparr>or_price_cumulative = 0, or_last_ts = e_now E,
          or_last_price_bps = as_u32 price, or_obs_index = 0, or_obs_count = 1\<rparr> c)"

definition create_market ::
    "'t token \<Rightarrow> env \<Rightarrow> address \<Rightarrow> bytesN \<Rightarrow> bytesN \<Rightarrow> symbol \<Rightarrow> category \<Rightarrow> nat \<Rightarrow> int \<Rightarrow> nat
      \<Rightarrow> 't mc \<Rightarrow> (nat \<times> 't mc) mc_res" where
  "create_market T E creator question_hash resolution_hash meta_uri cat close_time seed_amount
       initial_yes_bps c =
     andThen (assert_not_paused c) (\<lambda>_.
     andThen (require_auth E creator) (\<lambda>_.
     if close_time \<le> e_now E then Inl (Err McInvalidCloseTime)
     else if \<not> (MIN_SEED \<le> seed_amount \<and> seed_amount \<le> MAX_SETS) then Inl (Err McInvalidAmount)
     else if \<not> (MIN_PROB_BPS \<le> initial_yes_bps \<and> initial_yes_bps \<le> MAX_PROB_BPS)
     then Inl (Err McInvalidProbability)
     else
     andThen (map_err from_math (seed_reserves seed_amount initial_yes_bps)) (\<lambda>seed.
     andThen (instance_get in_next_id c) (\<lambda>i.
     andThen (add_u64 i 1) (\<lambda>next.
     andThen (instance_get in_default_fee_bps c) (\<lambda>fee_bps.
     andThen (instance_get in_default_redeem_horizon c) (\<lambda>horizon_secs.
     andThen (instance_get in_protocol_fee_share_bps c) (\<lambda>protocol_share_bps.
     andThen (instance_get in_treasury c) (\<lambda>treasury.
     let m = \<lparr>mk_creator = creator, mk_question_hash = question_hash,
              mk_resolution_hash = resolution_hash, mk_meta_uri = meta_uri, mk_category = cat,
              mk_close_time = close_time, mk_fee_bps = fee_bps, mk_status = Open,
              mk_reserve_yes = sr_reserve_yes seed, mk_reserve_no = sr_reserve_no seed,
              mk_sets_minted = seed_amount, mk_fees_accrued = 0, mk_lp_claimed = False\<rparr>;
         c1 = write_market i m
                \<lparr>ft_recipient = treasury, ft_protocol_share_bps = protocol_share_bps\<rparr>
                (in_default_breaker (mc_inst c)) seed horizon_secs
                (set_inst (in_next_id_update (\<lambda>_. Some next)) c)
     in
     andThen (map_err from_math (price_yes_bps (mk_reserve_yes m) (mk_reserve_no m))) (\<lambda>price.
     andThen (token_transfer T creator (e_self E) seed_amount (open_oracle E i price c1)) (\<lambda>c2.
       Inr (i, publish (MarketCreated i creator cat close_time seed_amount initial_yes_bps) c2))))))))))))"

section \<open>Trading\<close>

text \<open>The steps \<open>do_buy\<close> and \<open>do_sell\<close> share: folding the price accumulator before the reserves
  move, refreshing its price afterwards, and the bookkeeping of a holder's and all holders'
  shares.\<close>

definition fold_oracle ::
    "env \<Rightarrow> nat \<Rightarrow> 't mc \<Rightarrow> (oracle_state option \<times> 't mc) mc_res" where
  "fold_oracle E i c =
     (case mc_oracles c i of None \<Rightarrow> Inr (None, c)
      | Some st \<Rightarrow> andThen (accumulate E i st c) (\<lambda>(st', c'). Inr (Some st', c')))"

definition refresh_oracle :: "nat \<Rightarrow> market \<Rightarrow> oracle_state option \<Rightarrow> 't mc \<Rightarrow> 't mc mc_res" where
  "refresh_oracle i m oracle c =
     (case oracle of None \<Rightarrow> Inr c
      | Some st \<Rightarrow>
          andThen (map_err from_math (price_yes_bps (mk_reserve_yes m) (mk_reserve_no m))) (\<lambda>price.
            Inr (save_oracle i (st\<lparr>or_last_price_bps := as_u32 price\<rparr>) c)))"

definition check_limit :: "(math_error, bool) res \<Rightarrow> unit mc_res" where
  "check_limit within =
     andThen (map_err from_math within) (\<lambda>ok. if ok then Inr () else Inl (Err McLimitPriceExceeded))"

fun held_of :: "outcome \<Rightarrow> position \<Rightarrow> int" where
  "held_of Yes pos = ps_yes pos"
| "held_of No pos = ps_no pos"

fun position_add :: "outcome \<Rightarrow> int \<Rightarrow> position \<Rightarrow> position mc_res" where
  "position_add Yes n pos = andThen (add_i128 (ps_yes pos) n) (\<lambda>y. Inr (pos\<lparr>ps_yes := y\<rparr>))"
| "position_add No n pos = andThen (add_i128 (ps_no pos) n) (\<lambda>y. Inr (pos\<lparr>ps_no := y\<rparr>))"

fun position_sub :: "outcome \<Rightarrow> int \<Rightarrow> position \<Rightarrow> position mc_res" where
  "position_sub Yes n pos = andThen (sub_i128 (ps_yes pos) n) (\<lambda>y. Inr (pos\<lparr>ps_yes := y\<rparr>))"
| "position_sub No n pos = andThen (sub_i128 (ps_no pos) n) (\<lambda>y. Inr (pos\<lparr>ps_no := y\<rparr>))"

fun settle_add :: "outcome \<Rightarrow> int \<Rightarrow> settle_state \<Rightarrow> settle_state mc_res" where
  "settle_add Yes n s = andThen (ok_or McOverflow (checked_add (st_outstanding_yes s) n))
     (\<lambda>y. Inr (s\<lparr>st_outstanding_yes := y\<rparr>))"
| "settle_add No n s = andThen (ok_or McOverflow (checked_add (st_outstanding_no s) n))
     (\<lambda>y. Inr (s\<lparr>st_outstanding_no := y\<rparr>))"

fun settle_sub :: "outcome \<Rightarrow> int \<Rightarrow> settle_state \<Rightarrow> settle_state mc_res" where
  "settle_sub Yes n s = andThen (ok_or McOverflow (checked_sub (st_outstanding_yes s) n))
     (\<lambda>y. Inr (s\<lparr>st_outstanding_yes := y\<rparr>))"
| "settle_sub No n s = andThen (ok_or McOverflow (checked_sub (st_outstanding_no s) n))
     (\<lambda>y. Inr (s\<lparr>st_outstanding_no := y\<rparr>))"

text \<open>An update of the market's settlement entry; markets without one are left alone.\<close>

definition on_settle ::
    "nat \<Rightarrow> (settle_state \<Rightarrow> settle_state mc_res) \<Rightarrow> 't mc \<Rightarrow> 't mc mc_res" where
  "on_settle i f c =
     (case mc_settles c i of None \<Rightarrow> Inr c
      | Some s \<Rightarrow> andThen (f s) (\<lambda>s'. Inr (save_settle i s' c)))"

definition do_buy ::
    "'t token \<Rightarrow> env \<Rightarrow> address \<Rightarrow> nat \<Rightarrow> outcome \<Rightarrow> int \<Rightarrow> int \<Rightarrow> nat option \<Rightarrow> 't mc
      \<Rightarrow> (int \<times> 't mc) mc_res" where
  "do_buy T E trader i outcome collateral_in min_shares_out limit_price_bps c =
     andThen (assert_not_paused c) (\<lambda>_.
     if (case limit_price_bps of Some limit \<Rightarrow> BPS < int limit | None \<Rightarrow> False)
     then Inl (Err McInvalidAmount)
     else
     andThen (require_auth E trader) (\<lambda>_.
     andThen (load_market i c) (\<lambda>m.
     andThen (assert_tradable E m) (\<lambda>_.
     andThen (fold_oracle E i c) (\<lambda>(oracle, c1).
     let (r_bought, r_other) = reserves_for m outcome in
     andThen (map_err from_math (calc_buy r_bought r_other collateral_in (mk_fee_bps m))) (\<lambda>q.
     if bq_shares_out q < min_shares_out then Inl (Err McSlippageExceeded)
     else
     andThen (case limit_price_bps of None \<Rightarrow> Inr ()
              | Some limit \<Rightarrow> check_limit (buy_within_limit collateral_in (bq_shares_out q) limit)) (\<lambda>_.
     andThen (check_breakers E i m outcome (bq_new_reserve_bought q) (bq_new_reserve_other q) c1) (\<lambda>c2.
     andThen (ok_or McOverflow (checked_add (mk_sets_minted m) (bq_net q))) (\<lambda>new_sets.
     if MAX_SETS < new_sets then Inl (Err McMarketTooLarge)
     else
     andThen (accrue_fees i (bq_fee q) c2) (\<lambda>(protocol_fee, c3).
     andThen (ok_or McOverflow (checked_add (mk_fees_accrued m) protocol_fee)) (\<lambda>fees.
     let m' = (set_reserves m outcome (bq_new_reserve_bought q) (bq_new_reserve_other q))
                \<lparr>mk_sets_minted := new_sets, mk_fees_accrued := fees\<rparr> in
     andThen (position_add outcome (bq_shares_out q) (load_position i trader c3)) (\<lambda>pos.
     andThen (refresh_oracle i m' oracle (save_market i m' (save_position i trader pos c3))) (\<lambda>c4.
     andThen (on_settle i (settle_add outcome (bq_shares_out q)) c4) (\<lambda>c5.
     andThen (token_transfer T trader (e_self E) collateral_in c5) (\<lambda>c6.
       Inr (bq_shares_out q,
            publish (Trade i trader outcome True collateral_in (bq_shares_out q) (bq_fee q)
                       (mk_reserve_yes m') (mk_reserve_no m')) c6))))))))))))))))"

definition buy ::
    "'t token \<Rightarrow> env \<Rightarrow> address \<Rightarrow> nat \<Rightarrow> outcome \<Rightarrow> int \<Rightarrow> int \<Rightarrow> 't mc \<Rightarrow> (int \<times> 't mc) mc_res" where
  "buy T E trader i outcome collateral_in min_shares_out c =
     do_buy T E trader i outcome collateral_in min_shares_out None c"

definition buy_v2 ::
    "'t token \<Rightarrow> env \<Rightarrow> address \<Rightarrow> nat \<Rightarrow> outcome \<Rightarrow> int \<Rightarrow> int \<Rightarrow> nat \<Rightarrow> nat \<Rightarrow> 't mc
      \<Rightarrow> (int \<times> 't mc) mc_res" where
  "buy_v2 T E trader i outcome collateral_in min_shares_out limit_price_bps deadline c =
     (if deadline < e_now E then Inl (Err McDeadlineExpired)
      else do_buy T E trader i outcome collateral_in min_shares_out
             (if limit_price_bps = 0 then None else Some limit_price_bps) c)"

definition do_sell ::
    "'t token \<Rightarrow> env \<Rightarrow> address \<Rightarrow> nat \<Rightarrow> outcome \<Rightarrow> int \<Rightarrow> int \<Rightarrow> nat option \<Rightarrow> 't mc
      \<Rightarrow> (int \<times> 't mc) mc_res" where
  "do_sell T E trader i outcome collateral_out max_shares_in limit_price_bps c =
     andThen (assert_not_paused c) (\<lambda>_.
     andThen (require_auth E trader) (\<lambda>_.
     andThen (load_market i c) (\<lambda>m.
     andThen (assert_tradable E m) (\<lambda>_.
     andThen (fold_oracle E i c) (\<lambda>(oracle, c1).
     let (r_sold, r_other) = reserves_for m outcome in
     andThen (map_err from_math (calc_sell r_sold r_other collateral_out (mk_fee_bps m))) (\<lambda>q.
     if max_shares_in < sq_shares_in q then Inl (Err McSlippageExceeded)
     else
     andThen (case limit_price_bps of None \<Rightarrow> Inr ()
              | Some limit \<Rightarrow> check_limit (sell_within_limit collateral_out (sq_shares_in q) limit)) (\<lambda>_.
     andThen (check_breakers E i m outcome (sq_new_reserve_sold q) (sq_new_reserve_other q) c1) (\<lambda>c2.
     let held = load_position i trader c2 in
     if held_of outcome held < sq_shares_in q then Inl (Err McInsufficientShares)
     else
     andThen (position_sub outcome (sq_shares_in q) held) (\<lambda>pos.
     andThen (ok_or McOverflow (checked_sub (mk_sets_minted m) (sq_gross q))) (\<lambda>new_sets.
     andThen (accrue_fees i (sq_fee q) (save_position i trader pos c2)) (\<lambda>(protocol_fee, c3).
     andThen (ok_or McOverflow (checked_add (mk_fees_accrued m) protocol_fee)) (\<lambda>fees.
     let m' = (set_reserves m outcome (sq_new_reserve_sold q) (sq_new_reserve_other q))
                \<lparr>mk_sets_minted := new_sets, mk_fees_accrued := fees\<rparr> in
     andThen (refresh_oracle i m' oracle (save_market i m' c3)) (\<lambda>c4.
     andThen (on_settle i (settle_sub outcome (sq_shares_in q)) c4) (\<lambda>c5.
     andThen (token_transfer T (e_self E) trader collateral_out c5) (\<lambda>c6.
       Inr (sq_shares_in q,
            publish (Trade i trader outcome False collateral_out (sq_shares_in q) (sq_fee q)
                       (mk_reserve_yes m') (mk_reserve_no m')) c6))))))))))))))))"

definition sell ::
    "'t token \<Rightarrow> env \<Rightarrow> address \<Rightarrow> nat \<Rightarrow> outcome \<Rightarrow> int \<Rightarrow> int \<Rightarrow> 't mc \<Rightarrow> (int \<times> 't mc) mc_res" where
  "sell T E trader i outcome collateral_out max_shares_in c =
     do_sell T E trader i outcome collateral_out max_shares_in None c"

definition sell_v2 ::
    "'t token \<Rightarrow> env \<Rightarrow> address \<Rightarrow> nat \<Rightarrow> outcome \<Rightarrow> int \<Rightarrow> int \<Rightarrow> nat \<Rightarrow> nat \<Rightarrow> 't mc
      \<Rightarrow> (int \<times> 't mc) mc_res" where
  "sell_v2 T E trader i outcome collateral_out max_shares_in limit_price_bps deadline c =
     (if deadline < e_now E then Inl (Err McDeadlineExpired)
      else do_sell T E trader i outcome collateral_out max_shares_in
             (if limit_price_bps = 0 then None else Some limit_price_bps) c)"

section \<open>Resolution\<close>

definition resolve :: "env \<Rightarrow> nat \<Rightarrow> outcome \<Rightarrow> 't mc \<Rightarrow> 't mc mc_res" where
  "resolve E i outcome c =
     andThen (require_resolver E c) (\<lambda>_.
     andThen (load_market i c) (\<lambda>m.
     if mk_status m \<noteq> Open then Inl (Err McMarketNotOpen)
     else if e_now E < mk_close_time m then Inl (Err McNotClosedYet)
     else Inr (publish (MarketResolved i (Some outcome))
            (mark_finalized E i (save_market i (m\<lparr>mk_status := Resolved outcome\<rparr>) c)))))"

definition void_market :: "env \<Rightarrow> nat \<Rightarrow> 't mc \<Rightarrow> 't mc mc_res" where
  "void_market E i c =
     andThen (require_resolver E c) (\<lambda>_.
     andThen (load_market i c) (\<lambda>m.
     if mk_status m \<noteq> Open then Inl (Err McMarketNotOpen)
     else Inr (publish (MarketResolved i None)
            (mark_finalized E i (save_market i (m\<lparr>mk_status := Void\<rparr>) c)))))"

section \<open>Settlement\<close>

definition assert_not_closed :: "nat \<Rightarrow> 't mc \<Rightarrow> unit mc_res" where
  "assert_not_closed i c = (if settle_closed i c then Inl (Err McRedemptionClosed) else Inr ())"

text \<open>The bookkeeping of a paid redemption: both sides leave the outstanding counts.\<close>

definition settle_redeem :: "position \<Rightarrow> int \<Rightarrow> settle_state \<Rightarrow> settle_state mc_res" where
  "settle_redeem pos payout s =
     andThen (ok_or McOverflow (checked_sub (st_outstanding_yes s) (ps_yes pos))) (\<lambda>y.
     andThen (ok_or McOverflow (checked_sub (st_outstanding_no s) (ps_no pos))) (\<lambda>n.
     andThen (ok_or McOverflow (checked_add (st_paid_out s) payout)) (\<lambda>p.
       Inr (s\<lparr>st_outstanding_yes := y, st_outstanding_no := n, st_paid_out := p\<rparr>))))"

definition settle_pay :: "int \<Rightarrow> settle_state \<Rightarrow> settle_state mc_res" where
  "settle_pay payout s =
     andThen (ok_or McOverflow (checked_add (st_paid_out s) payout)) (\<lambda>p.
       Inr (s\<lparr>st_paid_out := p\<rparr>))"

definition pay_out :: "'t token \<Rightarrow> env \<Rightarrow> address \<Rightarrow> int \<Rightarrow> 't mc \<Rightarrow> 't mc mc_res" where
  "pay_out T E to amount c =
     (if 0 < amount then token_transfer T (e_self E) to amount c else Inr c)"

definition redeem ::
    "'t token \<Rightarrow> env \<Rightarrow> address \<Rightarrow> nat \<Rightarrow> 't mc \<Rightarrow> (int \<times> 't mc) mc_res" where
  "redeem T E holder i c =
     andThen (require_auth E holder) (\<lambda>_.
     andThen (load_market i c) (\<lambda>m.
     andThen (market_settlement m) (\<lambda>kind.
     andThen (assert_not_closed i c) (\<lambda>_.
     let pos = load_position i holder c in
     if ps_yes pos = 0 \<and> ps_no pos = 0 then Inl (Err McNothingToRedeem)
     else
     andThen (settle_value kind (ps_yes pos) (ps_no pos)) (\<lambda>payout.
     andThen (on_settle i (settle_redeem pos payout)
                (save_position i holder \<lparr>ps_yes = 0, ps_no = 0\<rparr> c)) (\<lambda>c1.
     andThen (pay_out T E holder payout c1) (\<lambda>c2.
       Inr (payout, publish (Redeemed i holder payout) c2))))))))"

definition claim_pool_remainder ::
    "'t token \<Rightarrow> env \<Rightarrow> nat \<Rightarrow> 't mc \<Rightarrow> (int \<times> 't mc) mc_res" where
  "claim_pool_remainder T E i c =
     andThen (load_market i c) (\<lambda>m.
     andThen (require_auth E (mk_creator m)) (\<lambda>_.
     andThen (market_settlement m) (\<lambda>kind.
     andThen (assert_not_closed i c) (\<lambda>_.
     if mk_lp_claimed m then Inl (Err McAlreadyClaimed)
     else
     andThen (settle_value kind (mk_reserve_yes m) (mk_reserve_no m)) (\<lambda>pool_value.
     andThen (ok_or McOverflow (checked_add pool_value (load_lp_fees i c))) (\<lambda>payout.
     let m' = m\<lparr>mk_reserve_yes := 0, mk_reserve_no := 0, mk_lp_claimed := True\<rparr> in
     andThen (on_settle i (settle_pay payout) (save_market i m' (save_lp_fees i 0 c))) (\<lambda>c1.
     andThen (pay_out T E (mk_creator m) payout c1) (\<lambda>c2.
       Inr (payout, publish (PoolRemainderClaimed i (mk_creator m) payout) c2)))))))))"

text \<open>One market of a batch: its item and, when it settles, the new state.\<close>

definition redeem_one ::
    "address \<Rightarrow> nat \<Rightarrow> 't mc \<Rightarrow> (batch_item \<times> 't mc) mc_res" where
  "redeem_one holder i c =
     (case mc_markets c i of None \<Rightarrow> Inr (batch_skip i SkipNotFound, c)
      | Some m \<Rightarrow>
        (case market_settlement m of Inl _ \<Rightarrow> Inr (batch_skip i SkipNotFinal, c)
         | Inr kind \<Rightarrow>
           if settle_closed i c then Inr (batch_skip i SkipNothingToRedeem, c)
           else let pos = load_position i holder c in
             if ps_yes pos = 0 \<and> ps_no pos = 0 then Inr (batch_skip i SkipNothingToRedeem, c)
             else
             andThen (settle_value kind (ps_yes pos) (ps_no pos)) (\<lambda>payout.
             andThen (on_settle i (settle_redeem pos payout)
                        (save_position i holder \<lparr>ps_yes = 0, ps_no = 0\<rparr> c)) (\<lambda>c1.
               Inr (\<lparr>bi_market_id = i, bi_payout = payout, bi_status = Settled\<rparr>,
                    publish (Redeemed i holder payout) c1)))))"

definition claim_one ::
    "address \<Rightarrow> nat \<Rightarrow> 't mc \<Rightarrow> (batch_item \<times> 't mc) mc_res" where
  "claim_one creator i c =
     (case mc_markets c i of None \<Rightarrow> Inr (batch_skip i SkipNotFound, c)
      | Some m \<Rightarrow>
        if mk_creator m \<noteq> creator then Inr (batch_skip i SkipNotCreator, c)
        else
        (case market_settlement m of Inl _ \<Rightarrow> Inr (batch_skip i SkipNotFinal, c)
         | Inr kind \<Rightarrow>
           if mk_lp_claimed m \<or> settle_closed i c then Inr (batch_skip i SkipAlreadyClaimed, c)
           else
           andThen (settle_value kind (mk_reserve_yes m) (mk_reserve_no m)) (\<lambda>pool_value.
           andThen (ok_or McOverflow (checked_add pool_value (load_lp_fees i c))) (\<lambda>payout.
           let m' = m\<lparr>mk_reserve_yes := 0, mk_reserve_no := 0, mk_lp_claimed := True\<rparr> in
           andThen (on_settle i (settle_pay payout) (save_market i m' (save_lp_fees i 0 c))) (\<lambda>c1.
             Inr (\<lparr>bi_market_id = i, bi_payout = payout, bi_status = Settled\<rparr>,
                  publish (PoolRemainderClaimed i creator payout) c1))))))"

text \<open>The loop of the two batch calls, over the items so far and the running total.\<close>

fun batch_loop ::
    "(nat \<Rightarrow> 't mc \<Rightarrow> (batch_item \<times> 't mc) mc_res) \<Rightarrow> nat list \<Rightarrow> int \<Rightarrow> batch_item list \<Rightarrow> 't mc
      \<Rightarrow> ((int \<times> batch_item list) \<times> 't mc) mc_res" where
  "batch_loop one [] tot items c = Inr ((tot, items), c)"
| "batch_loop one (i # ids) tot items c =
     andThen (one i c) (\<lambda>(item, c').
       if bi_status item = Settled
       then andThen (ok_or McOverflow (checked_add tot (bi_payout item))) (\<lambda>tot'.
              batch_loop one ids tot' (items @ [item]) c')
       else batch_loop one ids tot (items @ [item]) c')"

definition settle_batch ::
    "(nat \<Rightarrow> 't mc \<Rightarrow> (batch_item \<times> 't mc) mc_res) \<Rightarrow> 't token \<Rightarrow> env \<Rightarrow> address \<Rightarrow> nat list \<Rightarrow> 't mc
      \<Rightarrow> (batch_result \<times> 't mc) mc_res" where
  "settle_batch one T E who ids c =
     andThen (require_auth E who) (\<lambda>_.
     andThen (validate_batch ids) (\<lambda>_.
     andThen (batch_loop one ids 0 [] c) (\<lambda>((tot, items), c1).
     andThen (pay_out T E who tot c1) (\<lambda>c2.
       Inr (\<lparr>br_total = tot, br_items = items\<rparr>, c2)))))"

definition redeem_many ::
    "'t token \<Rightarrow> env \<Rightarrow> address \<Rightarrow> nat list \<Rightarrow> 't mc \<Rightarrow> (batch_result \<times> 't mc) mc_res" where
  "redeem_many T E holder ids c = settle_batch (redeem_one holder) T E holder ids c"

definition claim_pool_remainders ::
    "'t token \<Rightarrow> env \<Rightarrow> address \<Rightarrow> nat list \<Rightarrow> 't mc \<Rightarrow> (batch_result \<times> 't mc) mc_res" where
  "claim_pool_remainders T E creator ids c = settle_batch (claim_one creator) T E creator ids c"

definition finalize_market ::
    "'t token \<Rightarrow> env \<Rightarrow> nat \<Rightarrow> 't mc \<Rightarrow> (int \<times> 't mc) mc_res" where
  "finalize_market T E i c =
     andThen (load_market i c) (\<lambda>m.
     andThen (market_settlement m) (\<lambda>kind.
     andThen (load_settle i c) (\<lambda>s.
     if st_closed s then Inl (Err McRedemptionClosed)
     else if e_now E < sat_add_u64 (st_finalized_at s) (st_horizon_secs s)
     then Inl (Err McRedemptionWindowOpen)
     else
     andThen (settle_upper kind (st_outstanding_yes s) (st_outstanding_no s)) (\<lambda>unclaimed_user.
     andThen (if mk_lp_claimed m then Inr 0
              else settle_value kind (mk_reserve_yes m) (mk_reserve_no m)) (\<lambda>lp_claim.
     andThen (ok_or McOverflow (checked_sub (mk_sets_minted m) (st_paid_out s))) (\<lambda>d1.
     andThen (ok_or McOverflow (checked_sub d1 unclaimed_user)) (\<lambda>d2.
     andThen (ok_or McOverflow (checked_sub d2 lp_claim)) (\<lambda>dust.
     let lp_fees = load_lp_fees i c in
     andThen (ok_or McOverflow (checked_add dust unclaimed_user)) (\<lambda>s1.
     andThen (ok_or McOverflow (checked_add s1 lp_claim)) (\<lambda>s2.
     andThen (ok_or McOverflow (checked_add s2 (mk_fees_accrued m))) (\<lambda>s3.
     andThen (ok_or McOverflow (checked_add s3 lp_fees)) (\<lambda>swept.
     let m' = m\<lparr>mk_reserve_yes := 0, mk_reserve_no := 0, mk_lp_claimed := True,
                mk_fees_accrued := 0\<rparr>;
         s' = s\<lparr>st_outstanding_yes := 0, st_outstanding_no := 0, st_closed := True\<rparr>;
         c1 = save_lp_fees i 0 (save_settle i s' (save_market i m' c)) in
     andThen (instance_get in_treasury c1) (\<lambda>treasury.
     andThen (token_transfer T (e_self E) treasury swept c1) (\<lambda>c2.
       Inr (swept, publish (MarketFinalized i swept unclaimed_user dust) c2)))))))))))))))"

definition claim_lp_fees :: "'t token \<Rightarrow> env \<Rightarrow> nat \<Rightarrow> 't mc \<Rightarrow> (int \<times> 't mc) mc_res" where
  "claim_lp_fees T E i c =
     andThen (load_market i c) (\<lambda>m.
     andThen (require_auth E (mk_creator m)) (\<lambda>_.
     let amount = load_lp_fees i c in
     if amount \<le> 0 then Inr (0, c)
     else
     andThen (token_transfer T (e_self E) (mk_creator m) amount (save_lp_fees i 0 c)) (\<lambda>c1.
       Inr (amount, publish (LpFeesClaimed i (mk_creator m) amount) c1))))"

definition sweep_fees :: "'t token \<Rightarrow> env \<Rightarrow> nat \<Rightarrow> 't mc \<Rightarrow> (int \<times> 't mc) mc_res" where
  "sweep_fees T E i c =
     andThen (load_market i c) (\<lambda>m.
     let amount = mk_fees_accrued m in
     if amount \<le> 0 then Inr (0, c)
     else
     let c1 = save_market i (m\<lparr>mk_fees_accrued := 0\<rparr>) c in
     andThen (case load_fee_terms i c1 of Some t \<Rightarrow> Inr (ft_recipient t)
              | None \<Rightarrow> instance_get in_treasury c1) (\<lambda>recipient.
     andThen (token_transfer T (e_self E) recipient amount c1) (\<lambda>c2.
       Inr (amount, publish (FeesSweptTo i recipient amount) (publish (FeesSwept i amount) c2)))))"

section \<open>Transfers of positions and of the pool\<close>

definition transfer_position ::
    "env \<Rightarrow> address \<Rightarrow> address \<Rightarrow> nat \<Rightarrow> outcome \<Rightarrow> int \<Rightarrow> 't mc \<Rightarrow> 't mc mc_res" where
  "transfer_position E from to i outcome amount c =
     andThen (require_auth E from) (\<lambda>_.
     if amount \<le> 0 \<or> from = to then Inl (Err McInvalidAmount)
     else if to = e_self E then Inl (Err McInvalidAmount)
     else
     andThen (load_market i c) (\<lambda>m.
     let a = load_position i from c; b = load_position i to c in
     if held_of outcome a < amount then Inl (Err McInsufficientShares)
     else
     andThen (position_sub outcome amount a) (\<lambda>a'.
     andThen (ok_or McOverflow (checked_add (held_of outcome b) amount)) (\<lambda>n.
     let b' = (case outcome of Yes \<Rightarrow> b\<lparr>ps_yes := n\<rparr> | No \<Rightarrow> b\<lparr>ps_no := n\<rparr>) in
       Inr (publish (PositionTransferred i from to outcome amount)
              (save_position i to b' (save_position i from a' c)))))))"

definition transfer_lp :: "env \<Rightarrow> nat \<Rightarrow> address \<Rightarrow> 't mc \<Rightarrow> 't mc mc_res" where
  "transfer_lp E i new_creator c =
     andThen (load_market i c) (\<lambda>m.
     andThen (require_auth E (mk_creator m)) (\<lambda>_.
     if mk_lp_claimed m then Inl (Err McAlreadyClaimed)
     else if new_creator = mk_creator m \<or> new_creator = e_self E then Inl (Err McInvalidAmount)
     else Inr (publish (LpTransferred i (mk_creator m) new_creator)
            (save_market i (m\<lparr>mk_creator := new_creator\<rparr>) c))))"

end
