(* ===== verification/MarketViews.thy ===== *)
theory MarketViews
  imports MarketOps
begin

text \<open>
  The read-only entry points of the market contract
  (\<^verbatim>\<open>contracts/market-core/src/lib.rs\<close>): they return a value and leave the state alone.
\<close>

definition get_config :: "'t mc \<Rightarrow> mc_config mc_res" where
  "get_config c =
     andThen (instance_get in_admin c) (\<lambda>admin.
     andThen (instance_get in_collateral c) (\<lambda>collateral.
     andThen (instance_get in_treasury c) (\<lambda>treasury.
     andThen (instance_get in_resolver c) (\<lambda>resolver.
     andThen (instance_get in_default_fee_bps c) (\<lambda>fee.
     andThen (instance_get in_protocol_fee_share_bps c) (\<lambda>share.
     andThen (instance_get in_paused c) (\<lambda>paused.
       Inr \<lparr>cf_admin = admin, cf_collateral = collateral, cf_treasury = treasury,
            cf_resolver = resolver, cf_default_fee_bps = fee,
            cf_protocol_fee_share_bps = share, cf_paused = paused\<rparr>)))))))"

definition admin_view :: "'t mc \<Rightarrow> address mc_res" where
  "admin_view c = instance_get in_admin c"

definition pending_admin_view :: "'t mc \<Rightarrow> pending_admin_rec option" where
  "pending_admin_view c = load_pending c"

definition market_count :: "'t mc \<Rightarrow> nat" where
  "market_count c = (case in_next_id (mc_inst c) of None \<Rightarrow> 0 | Some n \<Rightarrow> n)"

definition get_market :: "nat \<Rightarrow> 't mc \<Rightarrow> market mc_res" where
  "get_market i c = load_market i c"

definition get_position :: "nat \<Rightarrow> address \<Rightarrow> 't mc \<Rightarrow> position" where
  "get_position i h c = load_position i h c"

definition settle_state_view :: "nat \<Rightarrow> 't mc \<Rightarrow> settle_state mc_res" where
  "settle_state_view i c = andThen (load_market i c) (\<lambda>_. load_settle i c)"

definition redeem_deadline :: "nat \<Rightarrow> 't mc \<Rightarrow> nat option" where
  "redeem_deadline i c =
     (case mc_settles c i of None \<Rightarrow> None
      | Some s \<Rightarrow> if 0 < st_finalized_at s
                  then Some (sat_add_u64 (st_finalized_at s) (st_horizon_secs s)) else None)"

definition max_batch :: nat where
  "max_batch = MAX_BATCH"

definition get_price :: "nat \<Rightarrow> outcome \<Rightarrow> 't mc \<Rightarrow> nat mc_res" where
  "get_price i outcome c =
     andThen (load_market i c) (\<lambda>m.
     andThen (map_err from_math (price_yes_bps (mk_reserve_yes m) (mk_reserve_no m))) (\<lambda>yes.
     andThen (case outcome of Yes \<Rightarrow> Inr yes | No \<Rightarrow> sub_i128 BPS yes) (\<lambda>p.
       Inr (as_u32 p))))"

definition price_cumulative :: "env \<Rightarrow> nat \<Rightarrow> 't mc \<Rightarrow> int mc_res" where
  "price_cumulative E i c =
     andThen (load_market i c) (\<lambda>_.
     andThen (load_oracle i c) (\<lambda>st. observe_at i st (e_now E) c))"

definition observe :: "env \<Rightarrow> nat \<Rightarrow> nat \<Rightarrow> 't mc \<Rightarrow> int mc_res" where
  "observe E i seconds_ago c =
     andThen (load_market i c) (\<lambda>_.
     andThen (load_oracle i c) (\<lambda>st. observe_at i st (e_now E - seconds_ago) c))"

definition twap :: "env \<Rightarrow> nat \<Rightarrow> nat \<Rightarrow> 't mc \<Rightarrow> nat mc_res" where
  "twap E i window_secs c =
     (if window_secs = 0 then Inl (Err McInvalidAmount)
      else
      andThen (load_market i c) (\<lambda>_.
      andThen (load_oracle i c) (\<lambda>st.
      andThen (observe_at i st (e_now E) c) (\<lambda>cum_now.
      andThen (observe_at i st (e_now E - window_secs) c) (\<lambda>cum_then.
      andThen (ok_or McOverflow (checked_sub cum_now cum_then)) (\<lambda>delta.
      andThen (div_i128 delta (int window_secs)) (\<lambda>avg.
        Inr (as_u32 avg))))))))"

definition quote_buy :: "nat \<Rightarrow> outcome \<Rightarrow> int \<Rightarrow> 't mc \<Rightarrow> int mc_res" where
  "quote_buy i outcome collateral_in c =
     andThen (load_market i c) (\<lambda>m.
     let (r_bought, r_other) = reserves_for m outcome in
     andThen (map_err from_math (calc_buy r_bought r_other collateral_in (mk_fee_bps m))) (\<lambda>q.
       Inr (bq_shares_out q)))"

definition quote_sell :: "nat \<Rightarrow> outcome \<Rightarrow> int \<Rightarrow> 't mc \<Rightarrow> int mc_res" where
  "quote_sell i outcome collateral_out c =
     andThen (load_market i c) (\<lambda>m.
     let (r_sold, r_other) = reserves_for m outcome in
     andThen (map_err from_math (calc_sell r_sold r_other collateral_out (mk_fee_bps m))) (\<lambda>q.
       Inr (sq_shares_in q)))"

definition breaker_config :: "nat \<Rightarrow> 't mc \<Rightarrow> breaker_config_rec option mc_res" where
  "breaker_config i c = andThen (load_market i c) (\<lambda>_. Inr (load_breaker i c))"

definition breaker_state :: "env \<Rightarrow> nat \<Rightarrow> 't mc \<Rightarrow> band_state option mc_res" where
  "breaker_state E i c =
     andThen (load_market i c) (\<lambda>_.
       Inr (case mc_bands c i of None \<Rightarrow> None
            | Some s \<Rightarrow> if bs_ledger_seq s = e_seq E then Some s else None))"

definition would_trip :: "env \<Rightarrow> nat \<Rightarrow> outcome \<Rightarrow> int \<Rightarrow> 't mc \<Rightarrow> bool mc_res" where
  "would_trip E i outcome collateral_in c =
     andThen (load_market i c) (\<lambda>m.
     (case load_breaker i c of None \<Rightarrow> Inr False
      | Some cfg \<Rightarrow>
        if bc_max_impact_bps cfg = 0 \<and> bc_band_bps cfg = 0 then Inr False
        else let (r_bought, r_other) = reserves_for m outcome in
        andThen (map_err from_math (calc_buy r_bought r_other collateral_in (mk_fee_bps m))) (\<lambda>q.
        andThen (map_err from_math (price_yes_bps (mk_reserve_yes m) (mk_reserve_no m))) (\<lambda>pre.
        andThen (map_err from_math (price_after (outcome = Yes)
                   (bq_new_reserve_bought q) (bq_new_reserve_other q))) (\<lambda>post.
        if 0 < bc_max_impact_bps cfg \<and> int (bc_max_impact_bps cfg) < \<bar>post - pre\<bar> then Inr True
        else if 0 < bc_band_bps cfg
        then let reference = (case mc_bands c i of
                    Some s \<Rightarrow> if bs_ledger_seq s = e_seq E then bs_ref_price_bps s else as_u32 pre
                  | None \<Rightarrow> as_u32 pre)
             in Inr (int (bc_band_bps cfg) < \<bar>post - int reference\<bar>)
        else Inr False)))))"

end
