(* ===== verification/MarketFacts.thy ===== *)
theory MarketFacts
  imports MarketOps FpmmCorrect
begin

text \<open>
  What a successful call of each state-changing entry point of the market contract did: for
  every handler one elimination lemma (\<open><handler>_ok\<close>) that gives the guards that passed and the
  new value of every entry that matters to the accounting. Observations, accumulator, band
  entries and events are left out: the accounting never reads them.
\<close>

section \<open>The storage helpers\<close>

lemmas store_defs = publish_def set_inst_def save_market_def save_settle_def save_oracle_def
  save_obs_def save_fee_terms_def save_lp_fees_def save_breaker_def save_position_def

lemma instance_get_eq [res_simps]: "instance_get key c = Inr v \<longleftrightarrow> key (mc_inst c) = Some v"
  by (simp add: instance_get_def res_simps)

lemma load_market_eq [res_simps]: "load_market i c = Inr m \<longleftrightarrow> mc_markets c i = Some m"
  by (simp add: load_market_def res_simps)

lemma load_settle_eq [res_simps]: "load_settle i c = Inr s \<longleftrightarrow> mc_settles c i = Some s"
  by (simp add: load_settle_def res_simps)

lemma load_oracle_eq [res_simps]: "load_oracle i c = Inr s \<longleftrightarrow> mc_oracles c i = Some s"
  by (simp add: load_oracle_def res_simps)

lemma require_admin_eq [res_simps]:
  "require_admin E c = Inr u \<longleftrightarrow> (\<exists>a. in_admin (mc_inst c) = Some a \<and> e_auth E a)"
  by (simp add: require_admin_def res_simps int_ops)

lemma require_resolver_eq [res_simps]:
  "require_resolver E c = Inr u \<longleftrightarrow> (\<exists>a. in_resolver (mc_inst c) = Some a \<and> e_auth E a)"
  by (simp add: require_resolver_def res_simps int_ops)

lemma assert_not_paused_eq [res_simps]:
  "assert_not_paused c = Inr u \<longleftrightarrow> in_paused (mc_inst c) = Some False"
  by (auto simp: assert_not_paused_def res_simps)

lemma assert_tradable_eq [res_simps]:
  "assert_tradable E m = Inr u \<longleftrightarrow> mk_status m = Open \<and> e_now E < mk_close_time m"
  by (auto simp: assert_tradable_def)

lemma assert_not_closed_eq [res_simps]: "assert_not_closed i c = Inr u \<longleftrightarrow> \<not> settle_closed i c"
  by (simp add: assert_not_closed_def)

lemma token_transfer_eq:
  "token_transfer T from to amt c = Inr c' \<longleftrightarrow>
     (\<exists>coll t. in_collateral (mc_inst c) = Some coll
        \<and> tk_transfer T coll from to amt (mc_tok c) = Some t \<and> c' = c\<lparr>mc_tok := t\<rparr>)"
  by (auto simp: token_transfer_def res_simps)

lemma keep_obss: "\<exists>x. c = c\<lparr>mc_obss := x\<rparr>"
  by (rule exI [of _ "mc_obss c"]) simp

lemma keep_oracles: "\<exists>x. c = c\<lparr>mc_oracles := x\<rparr>"
  by (rule exI [of _ "mc_oracles c"]) simp

lemma keep_bands: "\<exists>x. c = c\<lparr>mc_bands := x\<rparr>"
  by (rule exI [of _ "mc_bands c"]) simp

lemma keep_lp_fees: "\<exists>x. c = c\<lparr>mc_lp_fees := x\<rparr>"
  by (rule exI [of _ "mc_lp_fees c"]) simp

lemma fold_oracle_ok:
  assumes "fold_oracle E i c = Inr (o', c')"
  shows "\<exists>x. c' = c\<lparr>mc_obss := x\<rparr>"
proof (cases "mc_oracles c i")
  case None
  then have "c' = c" using assms by (simp add: fold_oracle_def)
  then show ?thesis by (simp add: keep_obss)
next
  case (Some st)
  then obtain st' where "accumulate E i st c = Inr (st', c')"
    using assms by (auto simp: fold_oracle_def res_simps)
  then have "c' = c \<or> (\<exists>x. c' = c\<lparr>mc_obss := x\<rparr>)"
    by (auto simp: accumulate_def Let_def res_simps save_obs_def split: if_splits)
  then show ?thesis using keep_obss by blast
qed

lemma refresh_oracle_ok:
  assumes "refresh_oracle i m o' c = Inr c'"
  shows "\<exists>x. c' = c\<lparr>mc_oracles := x\<rparr>"
proof (cases o')
  case None
  then have "c' = c" using assms by (simp add: refresh_oracle_def)
  then show ?thesis by (simp add: keep_oracles)
next
  case (Some st)
  then show ?thesis using assms by (auto simp: refresh_oracle_def res_simps save_oracle_def)
qed

lemma band_ref_ok: "\<exists>x. snd (band_ref E i p c) = c\<lparr>mc_bands := x\<rparr>"
  using keep_bands [of c] by (auto simp: band_ref_def Let_def split: option.split)

lemma check_breakers_ok:
  assumes "check_breakers E i m oc a b c = Inr c'"
  shows "\<exists>x. c' = c\<lparr>mc_bands := x\<rparr>"
proof -
  have "c' = c \<or> (\<exists>p. c' = snd (band_ref E i p c))"
    using assms
    by (auto simp: check_breakers_def res_simps Let_def split_beta
        split: option.splits if_splits)
  then show ?thesis using keep_bands band_ref_ok by metis
qed

lemma split_fee_ok:
  assumes "split_fee fee sh = Inr (p, l)"
  shows "0 \<le> p" "0 \<le> l" "p + l = fee"
proof -
  have 1: "0 \<le> fee" "int sh \<le> BPS" "p = ceil_div (fee * int sh) BPS" "l = fee - p"
    using assms by (auto simp: split_fee_def res_simps fpmm int_ops split: if_splits)
  show "0 \<le> p" using 1 by (simp add: ceil_div_nonneg)
  have "fee * int sh \<le> fee * BPS" using 1 by (intro mult_left_mono) auto
  then have "ceil_div (fee * int sh) BPS \<le> fee" by (simp add: ceil_div_le_iff)
  then show "0 \<le> l" "p + l = fee" using 1 by auto
qed

lemma accrue_fees_ok:
  assumes "accrue_fees i fee c = Inr (prot, c')" and "0 \<le> fee"
  obtains lp where "0 \<le> prot" "0 \<le> lp" "prot + lp = fee"
    and "\<exists>l. c' = c\<lparr>mc_lp_fees := l\<rparr>"
    and "\<And>j. load_lp_fees j c' =
           (if j = i \<and> 0 < lp then max 0 (load_lp_fees i c + lp) else load_lp_fees j c)"
proof -
  obtain lp where pl: "(case mc_fee_terms c i of
        Some t \<Rightarrow> map_err from_math (split_fee fee (ft_protocol_share_bps t))
      | None \<Rightarrow> Inr (fee, 0)) = Inr (prot, lp)"
    and c': "c' = (if 0 < lp then save_lp_fees i (load_lp_fees i c + lp) c else c)"
    using assms(1)
    by (auto simp: accrue_fees_def load_fee_terms_def res_simps int_ops split: if_splits)
  have bounds: "0 \<le> prot \<and> 0 \<le> lp \<and> prot + lp = fee"
    using pl assms(2) split_fee_ok [of fee _ prot lp]
    by (auto simp: res_simps split: option.splits)
  have "\<exists>l. c' = c\<lparr>mc_lp_fees := l\<rparr>"
    using keep_lp_fees [of c] by (auto simp: c' save_lp_fees_def)
  moreover have "load_lp_fees j c' =
      (if j = i \<and> 0 < lp then max 0 (load_lp_fees i c + lp) else load_lp_fees j c)" for j
    by (auto simp: c' save_lp_fees_def load_lp_fees_def)
  ultimately show ?thesis using bounds that by blast
qed

lemma on_settle_ok:
  assumes "on_settle i f c = Inr c'"
  shows "mc_settles c i = None \<and> c' = c
    \<or> (\<exists>s s'. mc_settles c i = Some s \<and> f s = Inr s' \<and> c' = save_settle i s' c)"
  using assms by (auto simp: on_settle_def res_simps split: option.splits)

lemma load_lp_fees_cong: "mc_lp_fees c = mc_lp_fees d \<Longrightarrow> load_lp_fees i c = load_lp_fees i d"
  by (simp add: load_lp_fees_def)

lemma load_position_cong:
  "mc_positions c = mc_positions d \<Longrightarrow> load_position i h c = load_position i h d"
  by (simp add: load_position_def)


lemma position_add_ok:
  assumes "position_add oc n p = Inr p'"
  shows "ps_yes p' = ps_yes p + (if oc = Yes then n else 0)"
    and "ps_no p' = ps_no p + (if oc = No then n else 0)"
  using assms by (cases oc; auto simp: res_simps int_ops)+

lemma position_sub_ok:
  assumes "position_sub oc n p = Inr p'"
  shows "ps_yes p' = ps_yes p - (if oc = Yes then n else 0)"
    and "ps_no p' = ps_no p - (if oc = No then n else 0)"
  using assms by (cases oc; auto simp: res_simps int_ops)+

lemma settle_add_ok:
  assumes "settle_add oc n s = Inr s'"
  shows "s' = s\<lparr>st_outstanding_yes := st_outstanding_yes s + (if oc = Yes then n else 0),
                st_outstanding_no := st_outstanding_no s + (if oc = No then n else 0)\<rparr>"
  using assms by (cases oc; auto simp: res_simps int_ops)

lemma settle_sub_ok:
  assumes "settle_sub oc n s = Inr s'"
  shows "s' = s\<lparr>st_outstanding_yes := st_outstanding_yes s - (if oc = Yes then n else 0),
                st_outstanding_no := st_outstanding_no s - (if oc = No then n else 0)\<rparr>"
  using assms by (cases oc; auto simp: res_simps int_ops)

lemma held_of_eq: "held_of oc p = (if oc = Yes then ps_yes p else ps_no p)"
  by (cases oc) auto

section \<open>Trades\<close>

text \<open>What a trade does to the accounting of market \<open>i\<close>: \<open>m\<close> and \<open>s\<close> become \<open>m'\<close> and \<open>s'\<close>,
  the holder's entry \<open>p'\<close>, the fees of the pool's owner grow by \<open>lp\<close>.\<close>

definition traded :: "nat \<Rightarrow> address \<Rightarrow> market \<Rightarrow> position \<Rightarrow> int
    \<Rightarrow> (settle_state \<Rightarrow> settle_state) \<Rightarrow> 't mc \<Rightarrow> 't mc \<Rightarrow> bool" where
  "traded i h m' p' lp f c c' \<longleftrightarrow>
     mc_inst c' = mc_inst c
   \<and> mc_markets c' = (mc_markets c)(i \<mapsto> m')
   \<and> mc_positions c' = mc_positions (save_position i h p' c)
   \<and> mc_settles c' = (case mc_settles c i of None \<Rightarrow> mc_settles c
                      | Some s \<Rightarrow> (mc_settles c)(i \<mapsto> f s))
   \<and> mc_fee_terms c' = mc_fee_terms c \<and> mc_breakers c' = mc_breakers c
   \<and> (\<forall>j. load_lp_fees j c' =
        (if j = i \<and> 0 < lp then max 0 (load_lp_fees i c + lp) else load_lp_fees j c))"

lemma settle_frame:
  assumes "on_settle i g c = Inr c'" and "\<And>s s'. g s = Inr s' \<Longrightarrow> s' = f s"
  shows "c' = c\<lparr>mc_settles := (case mc_settles c i of None \<Rightarrow> mc_settles c
                               | Some s \<Rightarrow> (mc_settles c)(i \<mapsto> f s))\<rparr>"
  using on_settle_ok [OF assms(1)] assms(2) by (auto simp: save_settle_def)

lemmas settle_add_frame = settle_frame [OF _ settle_add_ok]
lemmas settle_sub_frame = settle_frame [OF _ settle_sub_ok]

lemma trade_frame:
  assumes c1: "c1 = c\<lparr>mc_obss := x\<rparr>" and c2: "c2 = c1\<lparr>mc_bands := y\<rparr>"
    and c3: "c3 = c2\<lparr>mc_lp_fees := l\<rparr>"
    and lp: "\<And>j. load_lp_fees j c3 =
          (if j = i \<and> 0 < lp then max 0 (load_lp_fees i c2 + lp) else load_lp_fees j c2)"
    and c4: "c4 = (save_market i m' (save_position i h p' c3))\<lparr>mc_oracles := z\<rparr>"
    and c5: "c5 = c4\<lparr>mc_settles := (case mc_settles c4 i of None \<Rightarrow> mc_settles c4
                               | Some s \<Rightarrow> (mc_settles c4)(i \<mapsto> f s))\<rparr>"
    and c': "c' = publish ev (c5\<lparr>mc_tok := t\<rparr>)"
  shows "traded i h m' p' lp f c c'" and "mc_inst c5 = mc_inst c" and "mc_tok c5 = mc_tok c"
    and "mc_tok c' = t" and "mc_bands c' = mc_bands c2"
proof -
  have l: "load_lp_fees j c' = load_lp_fees j c3" "load_lp_fees j c2 = load_lp_fees j c" for j
    by (auto intro!: load_lp_fees_cong simp: c' c5 c4 c2 c1 store_defs)
  show "mc_inst c5 = mc_inst c" "mc_tok c5 = mc_tok c" "mc_tok c' = t" "mc_bands c' = mc_bands c2"
    by (simp_all add: c' c5 c4 c3 c2 c1 store_defs)
  show "traded i h m' p' lp f c c'"
    unfolding traded_def l lp
    by (simp add: c' c5 c4 c3 c2 c1 store_defs cong: option.case_cong)
qed

lemma do_buy_ok:
  assumes "do_buy T E h i oc cin mo lim c = Inr (n, c')"
  obtains m rb ro q prot lp p' coll where
    "mc_markets c i = Some m" "mk_status m = Open" "e_now E < mk_close_time m"
    "in_paused (mc_inst c) = Some False" "e_auth E h"
    "reserves_for m oc = (rb, ro)" "calc_buy rb ro cin (mk_fee_bps m) = Inr q"
    "n = bq_shares_out q" "mo \<le> n"
    "lim = None \<or> (\<exists>l. lim = Some l \<and> int l \<le> BPS \<and> buy_within_limit cin n l = Inr True)"
    "mk_sets_minted m + bq_net q \<le> MAX_SETS"
    "0 \<le> prot" "0 \<le> lp" "prot + lp = bq_fee q"
    "ps_yes p' = ps_yes (load_position i h c) + (if oc = Yes then n else 0)"
    "ps_no p' = ps_no (load_position i h c) + (if oc = No then n else 0)"
    "in_collateral (mc_inst c) = Some coll"
    "tk_transfer T coll h (e_self E) cin (mc_tok c) = Some (mc_tok c')"
    "\<exists>x c2. check_breakers E i m oc (bq_new_reserve_bought q) (bq_new_reserve_other q)
        (c\<lparr>mc_obss := x\<rparr>) = Inr c2 \<and> mc_bands c' = mc_bands c2"
    "traded i h ((set_reserves m oc (bq_new_reserve_bought q) (bq_new_reserve_other q))
         \<lparr>mk_sets_minted := mk_sets_minted m + bq_net q,
          mk_fees_accrued := mk_fees_accrued m + prot\<rparr>) p' lp
       (\<lambda>s. s\<lparr>st_outstanding_yes := st_outstanding_yes s + (if oc = Yes then n else 0),
             st_outstanding_no := st_outstanding_no s + (if oc = No then n else 0)\<rparr>) c c'"
proof -
  obtain m o' c1 where pre: "in_paused (mc_inst c) = Some False" "e_auth E h"
      "mc_markets c i = Some m" "mk_status m = Open" "e_now E < mk_close_time m"
      "fold_oracle E i c = Inr (o', c1)"
    and lim1: "\<not> (case lim of Some l \<Rightarrow> BPS < int l | None \<Rightarrow> False)"
    using assms by (auto simp: do_buy_def res_simps int_ops)
  obtain rb ro where r: "reserves_for m oc = (rb, ro)" by fastforce
  obtain q where q: "calc_buy rb ro cin (mk_fee_bps m) = Inr q" "mo \<le> bq_shares_out q"
    using assms pre r by (auto simp: do_buy_def res_simps int_ops)
  define m' where "m' = (\<lambda>prot. (set_reserves m oc (bq_new_reserve_bought q) (bq_new_reserve_other q))
      \<lparr>mk_sets_minted := mk_sets_minted m + bq_net q, mk_fees_accrued := mk_fees_accrued m + prot\<rparr>)"
  obtain c2 prot c3 p' c4 c5 c6 where
      lim: "(case lim of None \<Rightarrow> Inr () | Some l \<Rightarrow>
               check_limit (buy_within_limit cin (bq_shares_out q) l)) = Inr ()"
    and b: "check_breakers E i m oc (bq_new_reserve_bought q) (bq_new_reserve_other q) c1 = Inr c2"
    and sz: "mk_sets_minted m + bq_net q \<le> MAX_SETS"
    and f: "accrue_fees i (bq_fee q) c2 = Inr (prot, c3)"
    and p: "position_add oc (bq_shares_out q) (load_position i h c3) = Inr p'"
    and o: "refresh_oracle i (m' prot) o' (save_market i (m' prot) (save_position i h p' c3)) = Inr c4"
    and st: "on_settle i (settle_add oc (bq_shares_out q)) c4 = Inr c5"
    and t: "token_transfer T h (e_self E) cin c5 = Inr c6"
    and res: "n = bq_shares_out q" "\<exists>ev. c' = publish ev c6"
    using assms lim1 pre r q unfolding m'_def
    by (simp add: do_buy_def res_simps int_ops not_less Let_def) (elim exE conjE, blast)
  obtain x where c1: "c1 = c\<lparr>mc_obss := x\<rparr>" using fold_oracle_ok [OF pre(6)] by blast
  obtain y where c2: "c2 = c1\<lparr>mc_bands := y\<rparr>" using check_breakers_ok [OF b] by blast
  obtain lp l where lp: "0 \<le> prot" "0 \<le> lp" "prot + lp = bq_fee q"
      "c3 = c2\<lparr>mc_lp_fees := l\<rparr>"
      "\<And>j. load_lp_fees j c3 =
         (if j = i \<and> 0 < lp then max 0 (load_lp_fees i c2 + lp) else load_lp_fees j c2)"
    using accrue_fees_ok [OF f calc_buy_reserves_pos(3) [OF q(1)]] by metis
  obtain z where c4: "c4 = (save_market i (m' prot) (save_position i h p' c3))\<lparr>mc_oracles := z\<rparr>"
    using refresh_oracle_ok [OF o] by blast
  obtain coll tk ev where tk: "in_collateral (mc_inst c5) = Some coll"
      "tk_transfer T coll h (e_self E) cin (mc_tok c5) = Some tk"
      "c' = publish ev (c5\<lparr>mc_tok := tk\<rparr>)"
    using t res(2) by (auto simp: token_transfer_eq)
  note frame = trade_frame [OF c1 c2 lp(4) lp(5) c4 settle_add_frame [OF st] tk(3)]
  have pos: "load_position i h c3 = load_position i h c"
    by (rule load_position_cong) (simp add: lp(4) c2 c1)
  show ?thesis
  proof (rule that [OF pre(3-5) pre(1,2) r q(1) res(1) _ _ sz lp(1-3)])
    show "mo \<le> n" using q res by simp
    show "lim = None \<or> (\<exists>l. lim = Some l \<and> int l \<le> BPS \<and> buy_within_limit cin n l = Inr True)"
      using lim lim1 res(1)
      by (auto simp: check_limit_def res_simps split: option.splits if_splits)
    show "ps_yes p' = ps_yes (load_position i h c) + (if oc = Yes then n else 0)"
         "ps_no p' = ps_no (load_position i h c) + (if oc = No then n else 0)"
      using position_add_ok [OF p] pos res(1) by simp_all
    show "in_collateral (mc_inst c) = Some coll"
      "tk_transfer T coll h (e_self E) cin (mc_tok c) = Some (mc_tok c')"
      using frame tk by simp_all
    show "\<exists>x c2. check_breakers E i m oc (bq_new_reserve_bought q) (bq_new_reserve_other q)
        (c\<lparr>mc_obss := x\<rparr>) = Inr c2 \<and> mc_bands c' = mc_bands c2"
      using b frame(5) c1 by auto
  qed (use frame res(1) in \<open>simp_all add: m'_def\<close>)
qed


lemma trade_frame_sell:
  assumes c1: "c1 = c\<lparr>mc_obss := x\<rparr>" and c2: "c2 = c1\<lparr>mc_bands := y\<rparr>"
    and c3: "c3 = (save_position i h p' c2)\<lparr>mc_lp_fees := l\<rparr>"
    and lp: "\<And>j. load_lp_fees j c3 = (if j = i \<and> 0 < lp
          then max 0 (load_lp_fees i (save_position i h p' c2) + lp)
          else load_lp_fees j (save_position i h p' c2))"
    and c4: "c4 = (save_market i m' c3)\<lparr>mc_oracles := z\<rparr>"
    and c5: "c5 = c4\<lparr>mc_settles := (case mc_settles c4 i of None \<Rightarrow> mc_settles c4
                               | Some s \<Rightarrow> (mc_settles c4)(i \<mapsto> f s))\<rparr>"
    and c': "c' = publish ev (c5\<lparr>mc_tok := t\<rparr>)"
  shows "traded i h m' p' lp f c c'" and "mc_inst c5 = mc_inst c" and "mc_tok c5 = mc_tok c"
    and "mc_tok c' = t" and "mc_bands c' = mc_bands c2"
proof -
  have l: "load_lp_fees j c' = load_lp_fees j c3"
      "load_lp_fees j (save_position i h p' c2) = load_lp_fees j c" for j
    by (auto intro!: load_lp_fees_cong simp: c' c5 c4 c2 c1 store_defs)
  show "mc_inst c5 = mc_inst c" "mc_tok c5 = mc_tok c" "mc_tok c' = t" "mc_bands c' = mc_bands c2"
    by (simp_all add: c' c5 c4 c3 c2 c1 store_defs)
  show "traded i h m' p' lp f c c'"
    unfolding traded_def l lp
    by (simp add: c' c5 c4 c3 c2 c1 store_defs cong: option.case_cong)
qed

lemma do_sell_ok:
  assumes "do_sell T E h i oc cout mx lim c = Inr (n, c')"
  obtains m rs ro q prot lp p' coll where
    "mc_markets c i = Some m" "mk_status m = Open" "e_now E < mk_close_time m"
    "in_paused (mc_inst c) = Some False" "e_auth E h"
    "reserves_for m oc = (rs, ro)" "calc_sell rs ro cout (mk_fee_bps m) = Inr q"
    "n = sq_shares_in q" "n \<le> mx"
    "lim = None \<or> (\<exists>l. lim = Some l \<and> sell_within_limit cout n l = Inr True)"
    "n \<le> held_of oc (load_position i h c)"
    "0 \<le> prot" "0 \<le> lp" "prot + lp = sq_fee q"
    "ps_yes p' = ps_yes (load_position i h c) - (if oc = Yes then n else 0)"
    "ps_no p' = ps_no (load_position i h c) - (if oc = No then n else 0)"
    "in_collateral (mc_inst c) = Some coll"
    "tk_transfer T coll (e_self E) h cout (mc_tok c) = Some (mc_tok c')"
    "\<exists>x c2. check_breakers E i m oc (sq_new_reserve_sold q) (sq_new_reserve_other q)
        (c\<lparr>mc_obss := x\<rparr>) = Inr c2 \<and> mc_bands c' = mc_bands c2"
    "traded i h ((set_reserves m oc (sq_new_reserve_sold q) (sq_new_reserve_other q))
         \<lparr>mk_sets_minted := mk_sets_minted m - sq_gross q,
          mk_fees_accrued := mk_fees_accrued m + prot\<rparr>) p' lp
       (\<lambda>s. s\<lparr>st_outstanding_yes := st_outstanding_yes s - (if oc = Yes then n else 0),
             st_outstanding_no := st_outstanding_no s - (if oc = No then n else 0)\<rparr>) c c'"
proof -
  obtain m o' c1 where pre: "in_paused (mc_inst c) = Some False" "e_auth E h"
      "mc_markets c i = Some m" "mk_status m = Open" "e_now E < mk_close_time m"
      "fold_oracle E i c = Inr (o', c1)"
    using assms by (auto simp: do_sell_def res_simps int_ops)
  obtain rs ro where r: "reserves_for m oc = (rs, ro)" by fastforce
  obtain q where q: "calc_sell rs ro cout (mk_fee_bps m) = Inr q" "sq_shares_in q \<le> mx"
    using assms pre r by (auto simp: do_sell_def res_simps int_ops)
  define m' where "m' = (\<lambda>prot. (set_reserves m oc (sq_new_reserve_sold q) (sq_new_reserve_other q))
      \<lparr>mk_sets_minted := mk_sets_minted m - sq_gross q, mk_fees_accrued := mk_fees_accrued m + prot\<rparr>)"
  obtain c2 prot c3 p' c4 c5 c6 where
      lim: "(case lim of None \<Rightarrow> Inr () | Some l \<Rightarrow>
               check_limit (sell_within_limit cout (sq_shares_in q) l)) = Inr ()"
    and b: "check_breakers E i m oc (sq_new_reserve_sold q) (sq_new_reserve_other q) c1 = Inr c2"
    and held: "sq_shares_in q \<le> held_of oc (load_position i h c2)"
    and p: "position_sub oc (sq_shares_in q) (load_position i h c2) = Inr p'"
    and f: "accrue_fees i (sq_fee q) (save_position i h p' c2) = Inr (prot, c3)"
    and o: "refresh_oracle i (m' prot) o' (save_market i (m' prot) c3) = Inr c4"
    and st: "on_settle i (settle_sub oc (sq_shares_in q)) c4 = Inr c5"
    and t: "token_transfer T (e_self E) h cout c5 = Inr c6"
    and res: "n = sq_shares_in q" "\<exists>ev. c' = publish ev c6"
    using assms pre r q unfolding m'_def
    by (simp add: do_sell_def res_simps int_ops not_less Let_def) (elim exE conjE, blast)
  obtain x where c1: "c1 = c\<lparr>mc_obss := x\<rparr>" using fold_oracle_ok [OF pre(6)] by blast
  obtain y where c2: "c2 = c1\<lparr>mc_bands := y\<rparr>" using check_breakers_ok [OF b] by blast
  obtain lp l where lp: "0 \<le> prot" "0 \<le> lp" "prot + lp = sq_fee q"
      "c3 = (save_position i h p' c2)\<lparr>mc_lp_fees := l\<rparr>"
      "\<And>j. load_lp_fees j c3 = (if j = i \<and> 0 < lp
          then max 0 (load_lp_fees i (save_position i h p' c2) + lp)
          else load_lp_fees j (save_position i h p' c2))"
    using accrue_fees_ok [OF f calc_sell_reserves_pos(3) [OF q(1)]] by metis
  obtain z where c4: "c4 = (save_market i (m' prot) c3)\<lparr>mc_oracles := z\<rparr>"
    using refresh_oracle_ok [OF o] by blast
  obtain coll tk ev where tk: "in_collateral (mc_inst c5) = Some coll"
      "tk_transfer T coll (e_self E) h cout (mc_tok c5) = Some tk"
      "c' = publish ev (c5\<lparr>mc_tok := tk\<rparr>)"
    using t res(2) by (auto simp: token_transfer_eq)
  note frame = trade_frame_sell [OF c1 c2 lp(4) lp(5) c4 settle_sub_frame [OF st] tk(3)]
  have pos: "load_position i h c2 = load_position i h c"
    by (rule load_position_cong) (simp add: c2 c1)
  show ?thesis
  proof (rule that [OF pre(3-5) pre(1,2) r q(1) res(1) _ _ _ lp(1-3)])
    show "n \<le> mx" using q res by simp
    show "lim = None \<or> (\<exists>l. lim = Some l \<and> sell_within_limit cout n l = Inr True)"
      using lim res(1)
      by (auto simp: check_limit_def res_simps split: option.splits if_splits)
    show "n \<le> held_of oc (load_position i h c)" using held pos res(1) by simp
    show "ps_yes p' = ps_yes (load_position i h c) - (if oc = Yes then n else 0)"
         "ps_no p' = ps_no (load_position i h c) - (if oc = No then n else 0)"
      using position_sub_ok [OF p] pos res(1) by simp_all
    show "in_collateral (mc_inst c) = Some coll"
      "tk_transfer T coll (e_self E) h cout (mc_tok c) = Some (mc_tok c')"
      using frame tk by simp_all
    show "\<exists>x c2. check_breakers E i m oc (sq_new_reserve_sold q) (sq_new_reserve_other q)
        (c\<lparr>mc_obss := x\<rparr>) = Inr c2 \<and> mc_bands c' = mc_bands c2"
      using b frame(5) c1 by auto
  qed (use frame res(1) in \<open>simp_all add: m'_def\<close>)
qed

end
