(* ===== verification/MarketInv.thy ===== *)
theory MarketInv
  imports MarketFacts
begin

text \<open>
  The accounting invariant of the market contract and its preservation by every entry point.

  \<^item> \<open>market_inv\<close>: one market. While it is open, on each side the pool's reserve and the holders'
    shares add up to the complete sets in existence (the check the source makes in debug builds
    only), nothing was paid out, and both reserves are positive. The settlement entry's
    outstanding counts are the sums of the holders' positions until the market is closed.
  \<^item> \<open>booked\<close>: the collateral the contract must hold for a market: its sets and fees while open;
    after resolution the larger of what can still be claimed and what \<open>finalize_market\<close> would
    sweep; nothing once closed.
  \<^item> \<open>mc_inv\<close>: every created market satisfies \<open>market_inv\<close>, nothing exists beyond the counter,
    the configuration is in range, and the contract's collateral balance covers all markets.
\<close>

section \<open>Definitions\<close>

fun claim_value :: "market_status \<Rightarrow> int \<Rightarrow> int \<Rightarrow> int" where
  "claim_value Open y n = 0"
| "claim_value (Resolved Yes) y n = y"
| "claim_value (Resolved No) y n = n"
| "claim_value Void y n = (y + n) div 2"

definition liabilities :: "market \<Rightarrow> settle_state \<Rightarrow> int" where
  "liabilities m s =
     claim_value (mk_status m) (st_outstanding_yes s) (st_outstanding_no s)
     + claim_value (mk_status m) (mk_reserve_yes m) (mk_reserve_no m)"

definition booked :: "market \<Rightarrow> settle_state \<Rightarrow> int \<Rightarrow> int" where
  "booked m s lp =
     (if st_closed s then 0
      else mk_fees_accrued m + lp
        + (if mk_status m = Open then mk_sets_minted m
           else max (liabilities m s) (mk_sets_minted m - st_paid_out s)))"

definition positions_ok :: "(address \<Rightarrow> position option) \<Rightarrow> bool" where
  "positions_ok P \<longleftrightarrow> finite (dom P)
     \<and> (\<forall>h p. P h = Some p \<longrightarrow> 0 \<le> ps_yes p \<and> 0 \<le> ps_no p)"

definition market_inv ::
    "market \<Rightarrow> settle_state \<Rightarrow> int \<Rightarrow> (address \<Rightarrow> position option) \<Rightarrow> bool" where
  "market_inv m s lp P \<longleftrightarrow>
     positions_ok P
   \<and> (\<not> st_closed s \<longrightarrow> st_outstanding_yes s = map_total ps_yes P
                        \<and> st_outstanding_no s = map_total ps_no P)
   \<and> 0 \<le> mk_fees_accrued m \<and> 0 \<le> lp \<and> mk_fee_bps m \<le> MAX_FEE_BPS
   \<and> MIN_REDEEM_HORIZON_SECS \<le> st_horizon_secs s \<and> st_horizon_secs s \<le> MAX_REDEEM_HORIZON_SECS
   \<and> 0 \<le> mk_reserve_yes m \<and> 0 \<le> mk_reserve_no m \<and> mk_sets_minted m \<le> MAX_SETS
   \<and> (\<not> st_closed s \<longrightarrow> mk_reserve_yes m + st_outstanding_yes s \<le> mk_sets_minted m
                        \<and> mk_reserve_no m + st_outstanding_no s \<le> mk_sets_minted m)
   \<and> (mk_status m = Open \<longrightarrow> 0 < mk_reserve_yes m \<and> 0 < mk_reserve_no m
        \<and> mk_reserve_yes m + st_outstanding_yes s = mk_sets_minted m
        \<and> mk_reserve_no m + st_outstanding_no s = mk_sets_minted m
        \<and> st_paid_out s = 0 \<and> \<not> mk_lp_claimed m \<and> \<not> st_closed s \<and> st_finalized_at s = 0)
   \<and> (mk_lp_claimed m \<longrightarrow> mk_reserve_yes m = 0 \<and> mk_reserve_no m = 0 \<and> lp = 0)
   \<and> (st_closed s \<longrightarrow> mk_fees_accrued m = 0 \<and> lp = 0 \<and> mk_lp_claimed m
        \<and> st_outstanding_yes s = 0 \<and> st_outstanding_no s = 0)"

definition config_inv :: "mc_instance \<Rightarrow> bool" where
  "config_inv I \<longleftrightarrow>
     (\<exists>f. in_default_fee_bps I = Some f \<and> f \<le> MAX_FEE_BPS)
   \<and> (\<exists>p. in_protocol_fee_share_bps I = Some p \<and> int p \<le> BPS)
   \<and> (\<exists>h. in_default_redeem_horizon I = Some h
          \<and> MIN_REDEEM_HORIZON_SECS \<le> h \<and> h \<le> MAX_REDEEM_HORIZON_SECS)
   \<and> in_admin I \<noteq> None \<and> in_treasury I \<noteq> None \<and> in_resolver I \<noteq> None \<and> in_paused I \<noteq> None"

definition booked_at :: "'t mc \<Rightarrow> nat \<Rightarrow> int" where
  "booked_at c i = booked (the (mc_markets c i)) (the (mc_settles c i)) (load_lp_fees i c)"

definition market_at_inv :: "'t mc \<Rightarrow> nat \<Rightarrow> bool" where
  "market_at_inv c i \<longleftrightarrow>
     (\<exists>m s t. mc_markets c i = Some m \<and> mc_settles c i = Some s
        \<and> market_inv m s (load_lp_fees i c) (mc_positions c i)
        \<and> mc_fee_terms c i = Some t \<and> int (ft_protocol_share_bps t) \<le> BPS)"

definition absent_at :: "'t mc \<Rightarrow> nat \<Rightarrow> bool" where
  "absent_at c i \<longleftrightarrow> mc_markets c i = None \<and> mc_settles c i = None
     \<and> mc_positions c i = Map.empty \<and> load_lp_fees i c = 0"

text \<open>\<open>mc_inv_owing k\<close> is the invariant with a further \<open>k\<close> of collateral owed, as in the middle of a
  batch call, between the bookkeeping of its markets and its one transfer.\<close>

definition mc_inv_owing :: "int \<Rightarrow> 't token \<Rightarrow> address \<Rightarrow> 't mc \<Rightarrow> bool" where
  "mc_inv_owing k T self c \<longleftrightarrow>
     config_inv (mc_inst c)
   \<and> (\<exists>coll n. in_collateral (mc_inst c) = Some coll \<and> in_next_id (mc_inst c) = Some n
        \<and> (\<forall>i<n. market_at_inv c i) \<and> (\<forall>i\<ge>n. absent_at c i)
        \<and> (\<Sum>i<n. booked_at c i) + k \<le> tk_balance T coll (mc_tok c) self)"

definition mc_inv :: "'t token \<Rightarrow> address \<Rightarrow> 't mc \<Rightarrow> bool" where
  "mc_inv T self c \<longleftrightarrow> mc_inv_owing 0 T self c"

section \<open>Positions\<close>

definition pos_entry :: "position \<Rightarrow> position option" where
  "pos_entry p = (if ps_yes p = 0 \<and> ps_no p = 0 then None else Some p)"

lemma save_position_map:
  "mc_positions (save_position i h p c) = (mc_positions c)(i := (mc_positions c i)(h := pos_entry p))"
  by (simp add: save_position_def pos_entry_def)

lemma at_key_position:
  "at_key ps_yes (mc_positions c i) h = ps_yes (load_position i h c)"
  "at_key ps_no (mc_positions c i) h = ps_no (load_position i h c)"
  by (simp_all add: at_key_def load_position_def split: option.split)

lemma position_total:
  assumes "finite (dom (mc_positions c i))"
  shows "map_total ps_yes ((mc_positions c i)(h := pos_entry p))
      = map_total ps_yes (mc_positions c i) - ps_yes (load_position i h c) + ps_yes p"
    and "map_total ps_no ((mc_positions c i)(h := pos_entry p))
      = map_total ps_no (mc_positions c i) - ps_no (load_position i h c) + ps_no p"
  using assms by (simp_all add: map_total_upd at_key_position pos_entry_def)

lemma positions_ok_upd:
  "positions_ok P \<Longrightarrow> 0 \<le> ps_yes p \<Longrightarrow> 0 \<le> ps_no p \<Longrightarrow> positions_ok (P(h := pos_entry p))"
  by (auto simp: positions_ok_def pos_entry_def intro: finite_subset [of _ "insert h (dom P)"])

lemma positions_ok_nonneg:
  assumes "positions_ok (mc_positions c i)"
  shows "0 \<le> ps_yes (load_position i h c)" "0 \<le> ps_no (load_position i h c)"
  using assms by (auto simp: positions_ok_def load_position_def split: option.split)

lemma positions_ok_total:
  assumes "positions_ok P"
  shows "0 \<le> map_total ps_yes P" "0 \<le> map_total ps_no P"
  using assms by (auto simp: positions_ok_def intro!: map_total_nonneg)

lemma position_le_total:
  assumes "positions_ok (mc_positions c i)"
  shows "ps_yes (load_position i h c) \<le> map_total ps_yes (mc_positions c i)"
    and "ps_no (load_position i h c) \<le> map_total ps_no (mc_positions c i)"
  using assms at_key_le_total [of "mc_positions c i" ps_yes h]
    at_key_le_total [of "mc_positions c i" ps_no h]
  by (auto simp: positions_ok_def at_key_position)

section \<open>An operation on one market\<close>

definition updated :: "nat \<Rightarrow> market \<Rightarrow> settle_state \<Rightarrow> int \<Rightarrow> (address \<Rightarrow> position option)
    \<Rightarrow> 't mc \<Rightarrow> 't mc \<Rightarrow> bool" where
  "updated i m' s' lp' P' c c' \<longleftrightarrow>
     mc_inst c' = mc_inst c \<and> mc_markets c' = (mc_markets c)(i \<mapsto> m')
   \<and> mc_settles c' = (mc_settles c)(i \<mapsto> s') \<and> mc_positions c' = (mc_positions c)(i := P')
   \<and> mc_fee_terms c' = mc_fee_terms c
   \<and> (\<forall>j. load_lp_fees j c' = (if j = i then lp' else load_lp_fees j c))"

lemma mc_inv_owingD:
  assumes "mc_inv_owing k T self c" and "mc_markets c i = Some m"
  obtains coll n s where "in_collateral (mc_inst c) = Some coll" "in_next_id (mc_inst c) = Some n"
    "i < n" "mc_settles c i = Some s" "market_inv m s (load_lp_fees i c) (mc_positions c i)"
    "(\<Sum>i<n. booked_at c i) + k \<le> tk_balance T coll (mc_tok c) self"
proof -
  obtain coll n where 1: "in_collateral (mc_inst c) = Some coll" "in_next_id (mc_inst c) = Some n"
      "\<forall>i<n. market_at_inv c i" "\<forall>i\<ge>n. absent_at c i"
      "(\<Sum>i<n. booked_at c i) + k \<le> tk_balance T coll (mc_tok c) self"
    using assms(1) by (auto simp: mc_inv_owing_def)
  have "i < n" using 1(4) assms(2) by (metis absent_at_def not_less option.distinct(1))
  then obtain s where "mc_settles c i = Some s" "market_inv m s (load_lp_fees i c) (mc_positions c i)"
    using 1(3) assms(2) by (auto simp: market_at_inv_def)
  with 1 \<open>i < n\<close> show ?thesis using that by blast
qed

lemma mc_inv_owing_updated:
  assumes inv: "mc_inv_owing k T self c" and m: "mc_markets c i = Some m" and s: "mc_settles c i = Some s"
    and coll: "in_collateral (mc_inst c) = Some coll"
    and u: "updated i m' s' lp' P' c c'" and mi: "market_inv m' s' lp' P'"
    and bal: "booked m' s' lp' - booked m s (load_lp_fees i c) + k' - k
       \<le> tk_balance T coll (mc_tok c') self - tk_balance T coll (mc_tok c) self"
  shows "mc_inv_owing k' T self c'"
proof -
  note U = u [unfolded updated_def]
  obtain n where n: "in_next_id (mc_inst c) = Some n" "i < n"
      "(\<Sum>i<n. booked_at c i) + k \<le> tk_balance T coll (mc_tok c) self"
    using mc_inv_owingD [OF inv m] coll by auto
  have all: "\<forall>j<n. market_at_inv c j" "\<forall>j\<ge>n. absent_at c j" "config_inv (mc_inst c)"
    using inv n by (auto simp: mc_inv_owing_def)
  have "market_at_inv c' j" if "j < n" for j
    using all(1) that U mi by (cases "j = i") (auto simp: market_at_inv_def)
  moreover have "absent_at c' j" if "n \<le> j" for j
    using all(2) that U n(2) by (auto simp: absent_at_def)
  moreover have "(\<Sum>j<n. booked_at c' j) + k' \<le> tk_balance T coll (mc_tok c') self"
  proof -
    have "(\<Sum>j<n. booked_at c' j) = (\<Sum>j<n. booked_at c j) - booked_at c i + booked_at c' i"
      by (rule sum_below_upd [OF n(2)]) (use U in \<open>simp add: booked_at_def\<close>)
    moreover have "booked_at c' i = booked m' s' lp'" "booked_at c i = booked m s (load_lp_fees i c)"
      using U m s by (simp_all add: booked_at_def)
    ultimately show ?thesis using n(3) bal by linarith
  qed
  ultimately show ?thesis
    using U n coll all(3) unfolding mc_inv_owing_def by auto
qed

lemmas mc_invD = mc_inv_owingD [of 0, folded mc_inv_def]
lemmas mc_inv_updated = mc_inv_owing_updated [of 0 _ _ _ _ _ _ _ _ _ _ _ _ 0, simplified, folded mc_inv_def]

section \<open>Trades\<close>

lemma traded_updated:
  assumes "traded i h m' p' lp f c c'" and "mc_settles c i = Some s" and "0 \<le> load_lp_fees i c"
    and "0 \<le> lp"
  shows "updated i m' (f s) (load_lp_fees i c + lp) ((mc_positions c i)(h := pos_entry p')) c c'"
  using assms unfolding traded_def updated_def by (auto simp: save_position_map)

lemma token_in:
  assumes "token_ok T" and "tk_transfer T coll h self amt t = Some t'" and "h \<noteq> self"
  shows "tk_balance T coll t' self = tk_balance T coll t self + amt"
  using token_okD(2) [OF assms(1,2), of coll self] assms(3) by simp

lemma token_out:
  assumes "token_ok T" and "tk_transfer T coll self h amt t = Some t'"
  shows "tk_balance T coll t self - amt \<le> tk_balance T coll t' self" and "0 \<le> amt"
  using token_okD(1) [OF assms] token_okD(2) [OF assms, of coll self] by auto

lemma do_buy_inv:
  assumes "mc_inv T self c" and "token_ok T" and "e_self E = self" and "\<not> e_auth E self"
    and "do_buy T E h i oc cin mo lim c = Inr (n, c')"
  shows "mc_inv T self c'"
  using assms(5)
proof (rule do_buy_ok)
  fix m rb ro q prot lp p' coll
  assume m: "mc_markets c i = Some m" "mk_status m = Open" and auth: "e_auth E h"
    and r: "reserves_for m oc = (rb, ro)" and q: "calc_buy rb ro cin (mk_fee_bps m) = Inr q"
    and n: "n = bq_shares_out q" and sz: "mk_sets_minted m + bq_net q \<le> MAX_SETS"
    and lp: "0 \<le> prot" "0 \<le> lp" "prot + lp = bq_fee q"
    and p': "ps_yes p' = ps_yes (load_position i h c) + (if oc = Yes then n else 0)"
      "ps_no p' = ps_no (load_position i h c) + (if oc = No then n else 0)"
    and coll: "in_collateral (mc_inst c) = Some coll"
    and tk: "tk_transfer T coll h (e_self E) cin (mc_tok c) = Some (mc_tok c')"
    and tr: "traded i h ((set_reserves m oc (bq_new_reserve_bought q) (bq_new_reserve_other q))
         \<lparr>mk_sets_minted := mk_sets_minted m + bq_net q,
          mk_fees_accrued := mk_fees_accrued m + prot\<rparr>) p' lp
       (\<lambda>s. s\<lparr>st_outstanding_yes := st_outstanding_yes s + (if oc = Yes then n else 0),
             st_outstanding_no := st_outstanding_no s + (if oc = No then n else 0)\<rparr>) c c'"
  obtain s where s: "mc_settles c i = Some s" "market_inv m s (load_lp_fees i c) (mc_positions c i)"
    using mc_invD [OF assms(1) m(1)] by metis
  note I = s(2) [unfolded market_inv_def]
  have pok: "positions_ok (mc_positions c i)" and fin: "finite (dom (mc_positions c i))"
    using I by (auto simp: positions_ok_def)
  note Q = calc_buyD [OF q] calc_buy_reserves_pos [OF q]
  have np: "0 < n" using Q n by simp
  show ?thesis
  proof (rule mc_inv_updated [OF assms(1) m(1) s(1) coll traded_updated [OF tr s(1) _ lp(2)]])
    show "0 \<le> load_lp_fees i c" using I by simp
    have "positions_ok ((mc_positions c i)(h := pos_entry p'))"
      using positions_ok_nonneg [OF pok, of h] np by (intro positions_ok_upd pok) (auto simp: p')
    then show "market_inv ((set_reserves m oc (bq_new_reserve_bought q) (bq_new_reserve_other q))
         \<lparr>mk_sets_minted := mk_sets_minted m + bq_net q,
          mk_fees_accrued := mk_fees_accrued m + prot\<rparr>)
        (s\<lparr>st_outstanding_yes := st_outstanding_yes s + (if oc = Yes then n else 0),
           st_outstanding_no := st_outstanding_no s + (if oc = No then n else 0)\<rparr>)
        (load_lp_fees i c + lp) ((mc_positions c i)(h := pos_entry p'))"
      using I m(2) r Q sz lp
      by (cases oc) (auto simp: market_inv_def position_total [OF fin] p' n)
    have "h \<noteq> self" using auth assms(4) by auto
    then have bal: "tk_balance T coll (mc_tok c') self = tk_balance T coll (mc_tok c) self + cin"
      using token_in [OF assms(2)] tk assms(3) by simp
    show "booked ((set_reserves m oc (bq_new_reserve_bought q) (bq_new_reserve_other q))
         \<lparr>mk_sets_minted := mk_sets_minted m + bq_net q,
          mk_fees_accrued := mk_fees_accrued m + prot\<rparr>)
        (s\<lparr>st_outstanding_yes := st_outstanding_yes s + (if oc = Yes then n else 0),
           st_outstanding_no := st_outstanding_no s + (if oc = No then n else 0)\<rparr>)
        (load_lp_fees i c + lp) - booked m s (load_lp_fees i c)
      \<le> tk_balance T coll (mc_tok c') self - tk_balance T coll (mc_tok c) self"
      using I m(2) Q(5) lp(3) by (cases oc) (auto simp: booked_def bal)
  qed
qed

lemma do_sell_inv:
  assumes "mc_inv T self c" and "token_ok T" and "e_self E = self" and "\<not> e_auth E self"
    and "do_sell T E h i oc cout mx lim c = Inr (n, c')"
  shows "mc_inv T self c'"
  using assms(5)
proof (rule do_sell_ok)
  fix m rs ro q prot lp p' coll
  assume m: "mc_markets c i = Some m" "mk_status m = Open" and auth: "e_auth E h"
    and r: "reserves_for m oc = (rs, ro)" and q: "calc_sell rs ro cout (mk_fee_bps m) = Inr q"
    and n: "n = sq_shares_in q" and held: "n \<le> held_of oc (load_position i h c)"
    and lp: "0 \<le> prot" "0 \<le> lp" "prot + lp = sq_fee q"
    and p': "ps_yes p' = ps_yes (load_position i h c) - (if oc = Yes then n else 0)"
      "ps_no p' = ps_no (load_position i h c) - (if oc = No then n else 0)"
    and coll: "in_collateral (mc_inst c) = Some coll"
    and tk: "tk_transfer T coll (e_self E) h cout (mc_tok c) = Some (mc_tok c')"
    and tr: "traded i h ((set_reserves m oc (sq_new_reserve_sold q) (sq_new_reserve_other q))
         \<lparr>mk_sets_minted := mk_sets_minted m - sq_gross q,
          mk_fees_accrued := mk_fees_accrued m + prot\<rparr>) p' lp
       (\<lambda>s. s\<lparr>st_outstanding_yes := st_outstanding_yes s - (if oc = Yes then n else 0),
             st_outstanding_no := st_outstanding_no s - (if oc = No then n else 0)\<rparr>) c c'"
  obtain s where s: "mc_settles c i = Some s" "market_inv m s (load_lp_fees i c) (mc_positions c i)"
    using mc_invD [OF assms(1) m(1)] by metis
  note I = s(2) [unfolded market_inv_def]
  have pok: "positions_ok (mc_positions c i)" and fin: "finite (dom (mc_positions c i))"
    using I by (auto simp: positions_ok_def)
  note Q = calc_sellD [OF q] calc_sell_reserves_pos [OF q]
  show ?thesis
  proof (rule mc_inv_updated [OF assms(1) m(1) s(1) coll traded_updated [OF tr s(1) _ lp(2)]])
    show "0 \<le> load_lp_fees i c" using I by simp
    have "positions_ok ((mc_positions c i)(h := pos_entry p'))"
      using positions_ok_nonneg [OF pok, of h] held
      by (intro positions_ok_upd pok) (auto simp: p' held_of_eq split: if_splits)
    then show "market_inv ((set_reserves m oc (sq_new_reserve_sold q) (sq_new_reserve_other q))
         \<lparr>mk_sets_minted := mk_sets_minted m - sq_gross q,
          mk_fees_accrued := mk_fees_accrued m + prot\<rparr>)
        (s\<lparr>st_outstanding_yes := st_outstanding_yes s - (if oc = Yes then n else 0),
           st_outstanding_no := st_outstanding_no s - (if oc = No then n else 0)\<rparr>)
        (load_lp_fees i c + lp) ((mc_positions c i)(h := pos_entry p'))"
      using I m(2) r Q lp
      by (cases oc) (auto simp: market_inv_def position_total [OF fin] p' n)
    have bal: "tk_balance T coll (mc_tok c) self - cout \<le> tk_balance T coll (mc_tok c') self"
      using token_out [OF assms(2)] tk assms(3) by simp
    then show "booked ((set_reserves m oc (sq_new_reserve_sold q) (sq_new_reserve_other q))
         \<lparr>mk_sets_minted := mk_sets_minted m - sq_gross q,
          mk_fees_accrued := mk_fees_accrued m + prot\<rparr>)
        (s\<lparr>st_outstanding_yes := st_outstanding_yes s - (if oc = Yes then n else 0),
           st_outstanding_no := st_outstanding_no s - (if oc = No then n else 0)\<rparr>)
        (load_lp_fees i c + lp) - booked m s (load_lp_fees i c)
      \<le> tk_balance T coll (mc_tok c') self - tk_balance T coll (mc_tok c) self"
      using I m(2) Q(6) lp(3) by (cases oc) (auto simp: booked_def)
  qed
qed

end
