(* ===== verification/MarketSettle.thy ===== *)
theory MarketSettle
  imports MarketInv
begin

text \<open>
  Preservation of the accounting invariant by creation, resolution, settlement, transfers and
  administration.
\<close>

section \<open>Settlement values\<close>

lemma settlement_value:
  assumes "settlement_of st = Inr kind" and "0 \<le> y" and "0 \<le> n"
    and "settle_value kind y n = Inr v"
  shows "v = claim_value st y n"
  using assms by (cases st rule: settlement_of.cases) (auto simp: res_simps int_ops sdiv_nonneg)

lemma settlement_upper:
  assumes "settlement_of st = Inr kind" and "0 \<le> y" and "0 \<le> n"
    and "settle_upper kind y n = Inr v"
  shows "v = claim_value st y n"
  using assms by (cases st rule: settlement_of.cases) (auto simp: res_simps int_ops sdiv_nonneg)

lemma settlement_final: "settlement_of st = Inr kind \<Longrightarrow> st \<noteq> Open"
  by auto

lemma claim_value_nonneg: "0 \<le> y \<Longrightarrow> 0 \<le> n \<Longrightarrow> 0 \<le> claim_value st y n"
  by (cases st rule: settlement_of.cases) (auto simp: pos_imp_zdiv_nonneg_iff)

lemma claim_value_sub:
  assumes "0 \<le> y" "0 \<le> n" "st \<noteq> Open"
  shows "claim_value st (Y - y) (N - n) + claim_value st y n \<le> claim_value st Y N"
  using assms by (cases st rule: settlement_of.cases) auto

lemma claim_value_zero [simp]: "claim_value st 0 0 = 0"
  by (cases st rule: settlement_of.cases) auto

section \<open>Redemption\<close>

lemma settle_redeem_ok:
  assumes "settle_redeem pos v s = Inr s'"
  shows "s' = s\<lparr>st_outstanding_yes := st_outstanding_yes s - ps_yes pos,
                st_outstanding_no := st_outstanding_no s - ps_no pos,
                st_paid_out := st_paid_out s + v\<rparr>"
  using assms by (auto simp: settle_redeem_def res_simps int_ops)

lemma settle_pay_ok:
  assumes "settle_pay v s = Inr s'"
  shows "s' = s\<lparr>st_paid_out := st_paid_out s + v\<rparr>"
  using assms by (auto simp: settle_pay_def res_simps int_ops)

lemma updated_redeem:
  assumes "on_settle i (settle_redeem pos v) (save_position i h \<lparr>ps_yes = 0, ps_no = 0\<rparr> c) = Inr c1"
    and "mc_settles c i = Some s"
  shows "updated i m (s\<lparr>st_outstanding_yes := st_outstanding_yes s - ps_yes pos,
                st_outstanding_no := st_outstanding_no s - ps_no pos,
                st_paid_out := st_paid_out s + v\<rparr>) (load_lp_fees i c)
           ((mc_positions c i)(h := pos_entry \<lparr>ps_yes = 0, ps_no = 0\<rparr>)) c (publish ev c1)
        \<longleftrightarrow> mc_markets c i = Some m"
    and "mc_tok (publish ev c1) = mc_tok c"
proof -
  have c1: "c1 = save_settle i (s\<lparr>st_outstanding_yes := st_outstanding_yes s - ps_yes pos,
                st_outstanding_no := st_outstanding_no s - ps_no pos,
                st_paid_out := st_paid_out s + v\<rparr>) (save_position i h \<lparr>ps_yes = 0, ps_no = 0\<rparr> c)"
    using on_settle_ok [OF assms(1)] assms(2) settle_redeem_ok
    by (fastforce simp: save_position_def)
  show "mc_tok (publish ev c1) = mc_tok c" by (simp add: c1 store_defs)
  show "updated i m (s\<lparr>st_outstanding_yes := st_outstanding_yes s - ps_yes pos,
                st_outstanding_no := st_outstanding_no s - ps_no pos,
                st_paid_out := st_paid_out s + v\<rparr>) (load_lp_fees i c)
           ((mc_positions c i)(h := pos_entry \<lparr>ps_yes = 0, ps_no = 0\<rparr>)) c (publish ev c1)
        \<longleftrightarrow> mc_markets c i = Some m"
    by (auto simp: updated_def c1 store_defs pos_entry_def load_lp_fees_def fun_eq_iff)
qed

lemma market_inv_redeem:
  assumes inv: "market_inv m s lp (mc_positions c i)" and fin: "mk_status m \<noteq> Open"
    and nc: "\<not> st_closed s" and v: "0 \<le> v"
    and pos: "pos = load_position i h c"
  shows "market_inv m (s\<lparr>st_outstanding_yes := st_outstanding_yes s - ps_yes pos,
                st_outstanding_no := st_outstanding_no s - ps_no pos,
                st_paid_out := st_paid_out s + v\<rparr>) lp
           ((mc_positions c i)(h := pos_entry \<lparr>ps_yes = 0, ps_no = 0\<rparr>))"
proof -
  note I = inv [unfolded market_inv_def]
  have pok: "positions_ok (mc_positions c i)" and "finite (dom (mc_positions c i))"
    using I by (auto simp: positions_ok_def)
  then show ?thesis
    using I fin nc positions_ok_nonneg [OF pok, of h]
      positions_ok_upd [OF pok, of "\<lparr>ps_yes = 0, ps_no = 0\<rparr>" h]
    by (simp add: market_inv_def position_total pos)
qed

lemma booked_redeem:
  assumes inv: "market_inv m s lp (mc_positions c i)" and fin: "mk_status m \<noteq> Open"
    and nc: "\<not> st_closed s" and pos: "pos = load_position i h c"
    and v: "v = claim_value (mk_status m) (ps_yes pos) (ps_no pos)"
  shows "booked m (s\<lparr>st_outstanding_yes := st_outstanding_yes s - ps_yes pos,
                st_outstanding_no := st_outstanding_no s - ps_no pos,
                st_paid_out := st_paid_out s + v\<rparr>) lp + v \<le> booked m s lp"
proof -
  have pok: "positions_ok (mc_positions c i)" using inv by (simp add: market_inv_def)
  have "claim_value (mk_status m) (st_outstanding_yes s - ps_yes pos)
          (st_outstanding_no s - ps_no pos) + v
      \<le> claim_value (mk_status m) (st_outstanding_yes s) (st_outstanding_no s)"
    unfolding v using positions_ok_nonneg [OF pok, of h] fin by (intro claim_value_sub) (auto simp: pos)
  then show ?thesis using fin nc by (simp add: booked_def liabilities_def)
qed

text \<open>Redeeming one market, before the transfer: the holder is now owed the payout.\<close>

lemma redeem_effect_inv:
  assumes inv: "mc_inv_owing k T self c" and m: "mc_markets c i = Some m"
    and kind: "market_settlement m = Inr kind" and nc: "\<not> settle_closed i c"
    and v: "settle_value kind (ps_yes (load_position i h c)) (ps_no (load_position i h c)) = (Inr v :: int mc_res)"
    and c1: "on_settle i (settle_redeem (load_position i h c) v)
        (save_position i h \<lparr>ps_yes = 0, ps_no = 0\<rparr> c) = Inr c1"
  shows "mc_inv_owing (k + v) T self (publish ev c1)" and "0 \<le> v"
proof -
  obtain coll n s where s: "in_collateral (mc_inst c) = Some coll" "mc_settles c i = Some s"
      "market_inv m s (load_lp_fees i c) (mc_positions c i)"
    using mc_inv_owingD [OF inv m] by metis
  have fin: "mk_status m \<noteq> Open" using kind by (auto simp: market_settlement_def)
  have ncs: "\<not> st_closed s" using nc s(2) by (simp add: settle_closed_def)
  have "positions_ok (mc_positions c i)" using s(3) by (simp add: market_inv_def)
  note nn = positions_ok_nonneg [OF this, of h]
  have val: "v = claim_value (mk_status m) (ps_yes (load_position i h c)) (ps_no (load_position i h c))"
    using settlement_value [OF _ nn v] kind by (simp add: market_settlement_def)
  then show v0: "0 \<le> v" using nn by (simp add: claim_value_nonneg)
  show "mc_inv_owing (k + v) T self (publish ev c1)"
  proof (rule mc_inv_owing_updated [OF inv m s(2,1)])
    show "updated i m (s\<lparr>st_outstanding_yes := st_outstanding_yes s - ps_yes (load_position i h c),
                st_outstanding_no := st_outstanding_no s - ps_no (load_position i h c),
                st_paid_out := st_paid_out s + v\<rparr>) (load_lp_fees i c)
           ((mc_positions c i)(h := pos_entry \<lparr>ps_yes = 0, ps_no = 0\<rparr>)) c (publish ev c1)"
      using updated_redeem(1) [OF c1 s(2)] m by simp
  qed (use market_inv_redeem [OF s(3) fin ncs v0 refl] booked_redeem [OF s(3) fin ncs refl val]
        updated_redeem(2) [OF c1 s(2)] in simp_all)
qed

text \<open>The transfer that pays what is owed.\<close>

lemma mc_inv_owing_pay:
  assumes inv: "mc_inv_owing k T self c" and T: "token_ok T" and "e_self E = self"
    and "pay_out T E h k c = Inr c'" and "0 \<le> k"
  shows "mc_inv_owing 0 T self (c'\<lparr>mc_events := evs\<rparr>)"
proof -
  obtain coll n where 1: "config_inv (mc_inst c)" "in_collateral (mc_inst c) = Some coll"
      "in_next_id (mc_inst c) = Some n" "\<forall>i<n. market_at_inv c i" "\<forall>i\<ge>n. absent_at c i"
      "(\<Sum>i<n. booked_at c i) + k \<le> tk_balance T coll (mc_tok c) self"
    using inv by (auto simp: mc_inv_owing_def)
  have "\<exists>t. c' = c\<lparr>mc_tok := t\<rparr>
      \<and> tk_balance T coll (mc_tok c) self - k \<le> tk_balance T coll t self"
  proof (cases "0 < k")
    case True
    then obtain t where "c' = c\<lparr>mc_tok := t\<rparr>" "tk_transfer T coll self h k (mc_tok c) = Some t"
      using assms(3,4) 1(2) by (auto simp: pay_out_def token_transfer_eq)
    with token_out(1) [OF T this(2)] show ?thesis by blast
  next
    case False
    then have "c' = c\<lparr>mc_tok := mc_tok c\<rparr>" "k = 0" using assms(4,5) by (simp_all add: pay_out_def)
    then show ?thesis by (intro exI [of _ "mc_tok c"]) simp
  qed
  then obtain t where t: "c' = c\<lparr>mc_tok := t\<rparr>"
      "tk_balance T coll (mc_tok c) self - k \<le> tk_balance T coll t self" by blast
  have same: "market_at_inv (c'\<lparr>mc_events := evs\<rparr>) i = market_at_inv c i"
      "absent_at (c'\<lparr>mc_events := evs\<rparr>) i = absent_at c i"
      "booked_at (c'\<lparr>mc_events := evs\<rparr>) i = booked_at c i" for i
    by (simp_all add: t(1) market_at_inv_def absent_at_def booked_at_def load_lp_fees_def)
  show ?thesis unfolding mc_inv_owing_def same using 1 t by auto
qed

lemma redeem_ok:
  assumes "redeem T E h i c = Inr (v, c')"
  obtains m kind c1 c2 where "e_auth E h" "mc_markets c i = Some m"
    "market_settlement m = Inr kind" "\<not> settle_closed i c"
    "\<not> (ps_yes (load_position i h c) = 0 \<and> ps_no (load_position i h c) = 0)"
    "settle_value kind (ps_yes (load_position i h c)) (ps_no (load_position i h c)) = (Inr v :: int mc_res)"
    "on_settle i (settle_redeem (load_position i h c) v)
        (save_position i h \<lparr>ps_yes = 0, ps_no = 0\<rparr> c) = Inr c1"
    "pay_out T E h v c1 = Inr c2" "c' = publish (Redeemed i h v) c2"
proof -
  obtain m kind where pre: "e_auth E h" "mc_markets c i = Some m"
      "market_settlement m = Inr kind" "\<not> settle_closed i c"
    using assms by (auto simp: redeem_def res_simps int_ops)
  moreover have np: "\<not> (ps_yes (load_position i h c) = 0 \<and> ps_no (load_position i h c) = 0)"
    using assms by (auto simp: redeem_def res_simps Let_def)
  moreover from pre np assms obtain c1 c2 where
    "settle_value kind (ps_yes (load_position i h c)) (ps_no (load_position i h c)) = (Inr v :: int mc_res)"
    "on_settle i (settle_redeem (load_position i h c) v)
        (save_position i h \<lparr>ps_yes = 0, ps_no = 0\<rparr> c) = Inr c1"
    "pay_out T E h v c1 = Inr c2" "c' = publish (Redeemed i h v) c2"
    by (simp add: redeem_def res_simps int_ops Let_def del: de_Morgan_conj)
      (elim exE conjE, blast)
  ultimately show ?thesis using that by blast
qed

lemma redeem_inv:
  assumes inv: "mc_inv T self c" and T: "token_ok T" and "e_self E = self"
    and "redeem T E h i c = Inr (v, c')"
  shows "mc_inv T self c'"
proof -
  obtain m kind c1 c2 where m: "mc_markets c i = Some m" "market_settlement m = Inr kind"
      "\<not> settle_closed i c"
      "settle_value kind (ps_yes (load_position i h c)) (ps_no (load_position i h c)) = (Inr v :: int mc_res)"
      "on_settle i (settle_redeem (load_position i h c) v)
        (save_position i h \<lparr>ps_yes = 0, ps_no = 0\<rparr> c) = Inr c1"
    and p: "pay_out T E h v c1 = Inr c2" "c' = publish (Redeemed i h v) c2"
    using assms(4) by (rule redeem_ok)
  note e = redeem_effect_inv [OF inv [unfolded mc_inv_def] m]
  obtain evs where ev: "publish (Redeemed i h v) c1 = c1\<lparr>mc_events := evs\<rparr>"
    by (simp add: publish_def)
  have "pay_out T E h v (publish (Redeemed i h v) c1) = Inr (c2\<lparr>mc_events := evs\<rparr>)"
    using p(1) unfolding ev by (auto simp: pay_out_def token_transfer_eq split: if_splits)
  from mc_inv_owing_pay [OF _ T assms(3) this] e(1) [of "Redeemed i h v"] e(2)
  show ?thesis unfolding mc_inv_def p(2) publish_def by fastforce
qed

section \<open>Claiming the pool\<close>

lemma updated_claim:
  assumes "on_settle i (settle_pay v) (save_market i m' (save_lp_fees i 0 c)) = Inr c1"
    and "mc_settles c i = Some s"
  shows "updated i m' (s\<lparr>st_paid_out := st_paid_out s + v\<rparr>) 0 (mc_positions c i) c (publish ev c1)"
    and "mc_tok (publish ev c1) = mc_tok c"
proof -
  have c1: "c1 = save_settle i (s\<lparr>st_paid_out := st_paid_out s + v\<rparr>)
      (save_market i m' (save_lp_fees i 0 c))"
    using on_settle_ok [OF assms(1)] assms(2) settle_pay_ok
    by (fastforce simp: save_market_def save_lp_fees_def)
  show "mc_tok (publish ev c1) = mc_tok c" by (simp add: c1 store_defs)
  show "updated i m' (s\<lparr>st_paid_out := st_paid_out s + v\<rparr>) 0 (mc_positions c i) c (publish ev c1)"
    by (auto simp: updated_def c1 store_defs load_lp_fees_def)
qed

lemma claim_effect_inv:
  assumes inv: "mc_inv_owing k T self c" and m: "mc_markets c i = Some m"
    and kind: "market_settlement m = Inr kind" and nc: "\<not> settle_closed i c"
    and nl: "\<not> mk_lp_claimed m"
    and pv: "settle_value kind (mk_reserve_yes m) (mk_reserve_no m) = (Inr pv :: int mc_res)"
    and v: "v = pv + load_lp_fees i c"
    and c1: "on_settle i (settle_pay v) (save_market i
         (m\<lparr>mk_reserve_yes := 0, mk_reserve_no := 0, mk_lp_claimed := True\<rparr>) (save_lp_fees i 0 c)) = Inr c1"
  shows "mc_inv_owing (k + v) T self (publish ev c1)" and "0 \<le> v"
proof -
  obtain coll n s where s: "in_collateral (mc_inst c) = Some coll" "mc_settles c i = Some s"
      "market_inv m s (load_lp_fees i c) (mc_positions c i)"
    using mc_inv_owingD [OF inv m] by metis
  note I = s(3) [unfolded market_inv_def]
  have fin: "mk_status m \<noteq> Open" using kind by (auto simp: market_settlement_def)
  have ncs: "\<not> st_closed s" using nc s(2) by (simp add: settle_closed_def)
  have "pv = claim_value (mk_status m) (mk_reserve_yes m) (mk_reserve_no m)"
    using settlement_value [OF _ _ _ pv] kind I by (simp add: market_settlement_def)
  moreover from this show v0: "0 \<le> v" using I by (simp add: v claim_value_nonneg)
  ultimately have b: "booked (m\<lparr>mk_reserve_yes := 0, mk_reserve_no := 0, mk_lp_claimed := True\<rparr>)
      (s\<lparr>st_paid_out := st_paid_out s + v\<rparr>) 0 + v \<le> booked m s (load_lp_fees i c)"
    using fin ncs I by (simp add: booked_def liabilities_def v max_def)
  have tot: "0 \<le> map_total ps_yes (mc_positions c i)" "0 \<le> map_total ps_no (mc_positions c i)"
    using I positions_ok_total by auto
  show "mc_inv_owing (k + v) T self (publish ev c1)"
  proof (rule mc_inv_owing_updated [OF inv m s(2,1) updated_claim(1) [OF c1 s(2)]])
    show "market_inv (m\<lparr>mk_reserve_yes := 0, mk_reserve_no := 0, mk_lp_claimed := True\<rparr>)
       (s\<lparr>st_paid_out := st_paid_out s + v\<rparr>) 0 (mc_positions c i)"
      using I fin ncs v0 tot by (simp add: market_inv_def)
  qed (use b updated_claim(2) [OF c1 s(2)] in simp)
qed

lemma claim_pool_remainder_ok:
  assumes "claim_pool_remainder T E i c = Inr (v, c')"
  obtains m kind pv c1 c2 where "mc_markets c i = Some m" "e_auth E (mk_creator m)"
    "market_settlement m = Inr kind" "\<not> settle_closed i c" "\<not> mk_lp_claimed m"
    "settle_value kind (mk_reserve_yes m) (mk_reserve_no m) = (Inr pv :: int mc_res)"
    "v = pv + load_lp_fees i c"
    "on_settle i (settle_pay v) (save_market i
         (m\<lparr>mk_reserve_yes := 0, mk_reserve_no := 0, mk_lp_claimed := True\<rparr>) (save_lp_fees i 0 c)) = Inr c1"
    "pay_out T E (mk_creator m) v c1 = Inr c2"
    "c' = publish (PoolRemainderClaimed i (mk_creator m) v) c2"
  using assms
  by (simp add: claim_pool_remainder_def res_simps int_ops Let_def) (elim exE conjE, blast)

text \<open>Paying out after an effect whose event is published last.\<close>

lemma pay_after_event:
  assumes inv: "mc_inv_owing v T self (publish ev c1)" and T: "token_ok T" "e_self E = self"
    and p: "pay_out T E h v c1 = Inr c2" and "0 \<le> v"
  shows "mc_inv T self (publish ev c2)"
proof -
  obtain evs where ev: "publish ev c1 = c1\<lparr>mc_events := evs\<rparr>" by (simp add: publish_def)
  have "pay_out T E h v (publish ev c1) = Inr (c2\<lparr>mc_events := evs\<rparr>)"
    using p unfolding ev by (auto simp: pay_out_def token_transfer_eq split: if_splits)
  from mc_inv_owing_pay [OF inv T this assms(5), of "mc_events c2 @ [ev]"]
  show ?thesis by (simp add: mc_inv_def publish_def)
qed

lemma claim_pool_remainder_inv:
  assumes inv: "mc_inv T self c" and T: "token_ok T" "e_self E = self"
    and "claim_pool_remainder T E i c = Inr (v, c')"
  shows "mc_inv T self c'"
  using assms(4)
proof (rule claim_pool_remainder_ok)
  fix m kind pv c1 c2
  assume "mc_markets c i = Some m" "market_settlement m = Inr kind" "\<not> settle_closed i c"
    "\<not> mk_lp_claimed m"
    "settle_value kind (mk_reserve_yes m) (mk_reserve_no m) = (Inr pv :: int mc_res)"
    "v = pv + load_lp_fees i c"
    "on_settle i (settle_pay v) (save_market i
         (m\<lparr>mk_reserve_yes := 0, mk_reserve_no := 0, mk_lp_claimed := True\<rparr>) (save_lp_fees i 0 c)) = Inr c1"
    and p: "pay_out T E (mk_creator m) v c1 = Inr c2"
    "c' = publish (PoolRemainderClaimed i (mk_creator m) v) c2"
  note e = claim_effect_inv [OF inv [unfolded mc_inv_def] this(1-7)]
  show ?thesis unfolding p(2)
    using pay_after_event [OF _ T p(1) e(2)] e(1) by simp
qed

section \<open>Batches\<close>

lemma redeem_one_inv:
  assumes inv: "mc_inv_owing k T self c" and "redeem_one h i c = Inr (item, c')"
  shows "if bi_status item = Settled
         then mc_inv_owing (k + bi_payout item) T self c' \<and> 0 \<le> bi_payout item
         else c' = c"
proof -
  have "(bi_status item \<noteq> Settled \<and> c' = c) \<or>
    (\<exists>m kind v c1. mc_markets c i = Some m \<and> market_settlement m = Inr kind \<and> \<not> settle_closed i c
     \<and> settle_value kind (ps_yes (load_position i h c)) (ps_no (load_position i h c)) = (Inr v :: int mc_res)
     \<and> on_settle i (settle_redeem (load_position i h c) v)
        (save_position i h \<lparr>ps_yes = 0, ps_no = 0\<rparr> c) = Inr c1
     \<and> bi_status item = Settled \<and> bi_payout item = v \<and> c' = publish (Redeemed i h v) c1)"
    using assms(2)
    by (fastforce simp: redeem_one_def batch_skip_def Let_def res_simps
        split: option.splits sum.splits if_splits)
  then show ?thesis
  proof
    assume "bi_status item \<noteq> Settled \<and> c' = c"
    then show ?thesis by simp
  next
    assume "\<exists>m kind v c1. mc_markets c i = Some m \<and> market_settlement m = Inr kind \<and> \<not> settle_closed i c
     \<and> settle_value kind (ps_yes (load_position i h c)) (ps_no (load_position i h c)) = (Inr v :: int mc_res)
     \<and> on_settle i (settle_redeem (load_position i h c) v)
        (save_position i h \<lparr>ps_yes = 0, ps_no = 0\<rparr> c) = Inr c1
     \<and> bi_status item = Settled \<and> bi_payout item = v \<and> c' = publish (Redeemed i h v) c1"
    then show ?thesis using redeem_effect_inv [OF inv] by (elim exE conjE) auto
  qed
qed

lemma claim_one_inv:
  assumes inv: "mc_inv_owing k T self c" and "claim_one h i c = Inr (item, c')"
  shows "if bi_status item = Settled
         then mc_inv_owing (k + bi_payout item) T self c' \<and> 0 \<le> bi_payout item
         else c' = c"
proof -
  have "(bi_status item \<noteq> Settled \<and> c' = c) \<or>
    (\<exists>m kind pv v c1. mc_markets c i = Some m \<and> market_settlement m = Inr kind \<and> \<not> settle_closed i c
     \<and> \<not> mk_lp_claimed m
     \<and> settle_value kind (mk_reserve_yes m) (mk_reserve_no m) = (Inr pv :: int mc_res)
     \<and> v = pv + load_lp_fees i c
     \<and> on_settle i (settle_pay v) (save_market i
         (m\<lparr>mk_reserve_yes := 0, mk_reserve_no := 0, mk_lp_claimed := True\<rparr>) (save_lp_fees i 0 c)) = Inr c1
     \<and> bi_status item = Settled \<and> bi_payout item = v \<and> c' = publish (PoolRemainderClaimed i h v) c1)"
    using assms(2)
    by (fastforce simp: claim_one_def batch_skip_def Let_def res_simps int_ops
        split: option.splits sum.splits if_splits)
  then consider "bi_status item \<noteq> Settled" "c' = c"
    | m kind pv v c1 where "mc_markets c i = Some m" "market_settlement m = Inr kind"
      "\<not> settle_closed i c" "\<not> mk_lp_claimed m"
      "settle_value kind (mk_reserve_yes m) (mk_reserve_no m) = (Inr pv :: int mc_res)"
      "v = pv + load_lp_fees i c"
      "on_settle i (settle_pay v) (save_market i
         (m\<lparr>mk_reserve_yes := 0, mk_reserve_no := 0, mk_lp_claimed := True\<rparr>) (save_lp_fees i 0 c)) = Inr c1"
      "bi_status item = Settled" "bi_payout item = v" "c' = publish (PoolRemainderClaimed i h v) c1"
    by blast
  then show ?thesis
  proof cases
    case 1
    then show ?thesis by simp
  next
    case 2
    then show ?thesis using claim_effect_inv [OF inv 2(1-7)] by simp
  qed
qed

lemma batch_loop_inv:
  assumes one: "\<And>k i c item c'. mc_inv_owing k T self c \<Longrightarrow> one i c = Inr (item, c') \<Longrightarrow>
       if bi_status item = Settled
       then mc_inv_owing (k + bi_payout item) T self c' \<and> 0 \<le> bi_payout item else c' = c"
    and "mc_inv_owing tot T self c" and "0 \<le> tot"
    and "batch_loop one ids tot items c = Inr ((tot', items'), c')"
  shows "mc_inv_owing tot' T self c' \<and> 0 \<le> tot'"
  using assms(2-4)
proof (induction ids arbitrary: tot items c)
  case (Cons i ids)
  then obtain item d where d: "one i c = Inr (item, d)"
    by (auto simp: res_simps)
  with Cons.prems(3) have rest: "if bi_status item = Settled
      then batch_loop one ids (tot + bi_payout item) (items @ [item]) d = Inr ((tot', items'), c')
      else batch_loop one ids tot (items @ [item]) d = Inr ((tot', items'), c')"
    by (auto simp: res_simps int_ops split: if_splits)
  show ?case
    using one [OF Cons.prems(1) d] rest Cons.prems(1,2)
      Cons.IH [of "tot + bi_payout item" d] Cons.IH [of tot d]
    by (auto split: if_splits)
qed simp

lemma settle_batch_inv:
  assumes one: "\<And>k i c item c'. mc_inv_owing k T self c \<Longrightarrow> one i c = Inr (item, c') \<Longrightarrow>
       if bi_status item = Settled
       then mc_inv_owing (k + bi_payout item) T self c' \<and> 0 \<le> bi_payout item else c' = c"
    and inv: "mc_inv T self c" and T: "token_ok T" "e_self E = self"
    and "settle_batch one T E h ids c = Inr (r, c')"
  shows "mc_inv T self c'"
proof -
  obtain tot items c1 where l: "batch_loop one ids 0 [] c = Inr ((tot, items), c1)"
    and p: "pay_out T E h tot c1 = Inr c'"
    using assms(5) by (auto simp: settle_batch_def res_simps split: prod.splits)
  have b: "mc_inv_owing tot T self c1 \<and> 0 \<le> tot"
    using batch_loop_inv [OF one inv [unfolded mc_inv_def] _ l] by simp
  have "mc_inv_owing 0 T self (c'\<lparr>mc_events := mc_events c'\<rparr>)"
    by (rule mc_inv_owing_pay [OF conjunct1 [OF b] T p conjunct2 [OF b]])
  then show ?thesis by (simp add: mc_inv_def)
qed

section \<open>Closing a market and collecting fees\<close>

lemma finalize_market_ok:
  assumes "finalize_market T E i c = Inr (swept, c')"
  obtains m s kind unclaimed lp_claim coll treasury t where
    "mc_markets c i = Some m" "market_settlement m = Inr kind" "mc_settles c i = Some s"
    "\<not> st_closed s" "sat_add_u64 (st_finalized_at s) (st_horizon_secs s) \<le> e_now E"
    "settle_upper kind (st_outstanding_yes s) (st_outstanding_no s) = (Inr unclaimed :: int mc_res)"
    "(if mk_lp_claimed m then Inr 0
      else settle_value kind (mk_reserve_yes m) (mk_reserve_no m)) = (Inr lp_claim :: int mc_res)"
    "swept = mk_sets_minted m - st_paid_out s + mk_fees_accrued m + load_lp_fees i c"
    "in_collateral (mc_inst c) = Some coll" "in_treasury (mc_inst c) = Some treasury"
    "tk_transfer T coll (e_self E) treasury swept (mc_tok c) = Some t"
    "c' = publish (MarketFinalized i swept unclaimed
             (mk_sets_minted m - st_paid_out s - unclaimed - lp_claim))
           ((save_lp_fees i 0 (save_settle i
               (s\<lparr>st_outstanding_yes := 0, st_outstanding_no := 0, st_closed := True\<rparr>)
             (save_market i (m\<lparr>mk_reserve_yes := 0, mk_reserve_no := 0, mk_lp_claimed := True,
                mk_fees_accrued := 0\<rparr>) c)))\<lparr>mc_tok := t\<rparr>)"
proof -
  obtain m s kind unclaimed lp_claim where 1: "mc_markets c i = Some m"
      "market_settlement m = Inr kind" "mc_settles c i = Some s" "\<not> st_closed s"
      "sat_add_u64 (st_finalized_at s) (st_horizon_secs s) \<le> e_now E"
      "settle_upper kind (st_outstanding_yes s) (st_outstanding_no s) = (Inr unclaimed :: int mc_res)"
      "(if mk_lp_claimed m then Inr 0
        else settle_value kind (mk_reserve_yes m) (mk_reserve_no m)) = (Inr lp_claim :: int mc_res)"
    using assms by (auto simp: finalize_market_def res_simps not_less)
  have inst: "mc_inst (save_lp_fees i 0 (save_settle i s' (save_market i m' c))) = mc_inst c"
    "mc_tok (save_lp_fees i 0 (save_settle i s' (save_market i m' c))) = mc_tok c" for s' m'
    by (simp_all add: store_defs)
  show ?thesis
    using assms 1(1-5)
    by (simp add: finalize_market_def res_simps int_ops Let_def 1(6,7) token_transfer_eq inst)
      (elim exE conjE, rule that [OF 1], auto simp: algebra_simps)
qed

lemma finalize_market_inv:
  assumes inv: "mc_inv T self c" and T: "token_ok T" "e_self E = self"
    and "finalize_market T E i c = Inr (swept, c')"
  shows "mc_inv T self c'"
  using assms(4)
proof (rule finalize_market_ok)
  fix m s kind unclaimed lp_claim coll treasury t
  assume m: "mc_markets c i = Some m" "market_settlement m = Inr kind" "mc_settles c i = Some s"
      "\<not> st_closed s"
    and swept: "swept = mk_sets_minted m - st_paid_out s + mk_fees_accrued m + load_lp_fees i c"
    and coll: "in_collateral (mc_inst c) = Some coll"
    and tk: "tk_transfer T coll (e_self E) treasury swept (mc_tok c) = Some t"
    and c': "c' = publish (MarketFinalized i swept unclaimed
             (mk_sets_minted m - st_paid_out s - unclaimed - lp_claim))
           ((save_lp_fees i 0 (save_settle i
               (s\<lparr>st_outstanding_yes := 0, st_outstanding_no := 0, st_closed := True\<rparr>)
             (save_market i (m\<lparr>mk_reserve_yes := 0, mk_reserve_no := 0, mk_lp_claimed := True,
                mk_fees_accrued := 0\<rparr>) c)))\<lparr>mc_tok := t\<rparr>)"
  have mi: "market_inv m s (load_lp_fees i c) (mc_positions c i)"
    using mc_invD [OF inv m(1)] m(3) by (metis option.inject)
  note I = mi [unfolded market_inv_def]
  have fin: "mk_status m \<noteq> Open" using m(2) by (auto simp: market_settlement_def)
  have u: "updated i (m\<lparr>mk_reserve_yes := 0, mk_reserve_no := 0, mk_lp_claimed := True,
                mk_fees_accrued := 0\<rparr>)
      (s\<lparr>st_outstanding_yes := 0, st_outstanding_no := 0, st_closed := True\<rparr>) 0
      (mc_positions c i) c c'"
    by (auto simp: updated_def c' store_defs load_lp_fees_def)
  show ?thesis
  proof (rule mc_inv_updated [OF inv m(1,3) coll u])
    show "market_inv (m\<lparr>mk_reserve_yes := 0, mk_reserve_no := 0, mk_lp_claimed := True,
                mk_fees_accrued := 0\<rparr>)
      (s\<lparr>st_outstanding_yes := 0, st_outstanding_no := 0, st_closed := True\<rparr>) 0 (mc_positions c i)"
      using I fin by (simp add: market_inv_def)
    have "swept \<le> booked m s (load_lp_fees i c)"
      using m(4) fin by (simp add: booked_def swept)
    moreover have "tk_balance T coll (mc_tok c) self - swept \<le> tk_balance T coll (mc_tok c') self"
      using token_out(1) [OF T(1), of coll self treasury swept] tk T(2) by (simp add: c' publish_def)
    ultimately show "booked (m\<lparr>mk_reserve_yes := 0, mk_reserve_no := 0, mk_lp_claimed := True,
                mk_fees_accrued := 0\<rparr>)
      (s\<lparr>st_outstanding_yes := 0, st_outstanding_no := 0, st_closed := True\<rparr>) 0
      - booked m s (load_lp_fees i c)
      \<le> tk_balance T coll (mc_tok c') self - tk_balance T coll (mc_tok c) self"
      by (simp add: booked_def)
  qed
qed

lemma claim_lp_fees_inv:
  assumes inv: "mc_inv T self c" and T: "token_ok T" "e_self E = self"
    and "claim_lp_fees T E i c = Inr (v, c')"
  shows "mc_inv T self c'"
proof (cases "load_lp_fees i c \<le> 0")
  case True
  then show ?thesis using assms by (auto simp: claim_lp_fees_def res_simps Let_def)
next
  case False
  then obtain m coll t where m: "mc_markets c i = Some m" "in_collateral (mc_inst c) = Some coll"
      "tk_transfer T coll (e_self E) (mk_creator m) (load_lp_fees i c) (mc_tok c) = Some t"
      "c' = publish (LpFeesClaimed i (mk_creator m) (load_lp_fees i c))
              ((save_lp_fees i 0 c)\<lparr>mc_tok := t\<rparr>)"
    using assms(4)
    by (auto simp: claim_lp_fees_def res_simps Let_def token_transfer_eq save_lp_fees_def)
  obtain s where s: "mc_settles c i = Some s"
      "market_inv m s (load_lp_fees i c) (mc_positions c i)"
    using mc_invD [OF inv m(1)] by metis
  note I = s(2) [unfolded market_inv_def]
  have u: "updated i m s 0 (mc_positions c i) c c'"
    using m(1) s(1) by (auto simp: updated_def m(4) store_defs load_lp_fees_def)
  have "tk_balance T coll (mc_tok c) self - load_lp_fees i c \<le> tk_balance T coll (mc_tok c') self"
    using token_out(1) [OF T(1)] m(3) T(2) by (simp add: m(4) publish_def)
  moreover have "\<not> st_closed s" using I False by auto
  ultimately show ?thesis
    using I by (intro mc_inv_updated [OF inv m(1) s(1) m(2) u])
      (auto simp: market_inv_def booked_def)
qed

lemma sweep_fees_inv:
  assumes inv: "mc_inv T self c" and T: "token_ok T" "e_self E = self"
    and "sweep_fees T E i c = Inr (v, c')"
  shows "mc_inv T self c'"
proof -
  obtain m where m: "mc_markets c i = Some m"
    using assms(4) by (auto simp: sweep_fees_def res_simps)
  show ?thesis
  proof (cases "mk_fees_accrued m \<le> 0")
    case True
    then show ?thesis using assms m by (auto simp: sweep_fees_def res_simps Let_def)
  next
    case False
    then obtain r coll t where m2: "in_collateral (mc_inst c) = Some coll"
        "tk_transfer T coll (e_self E) r (mk_fees_accrued m) (mc_tok c) = Some t"
        "c' = publish (FeesSweptTo i r (mk_fees_accrued m)) (publish (FeesSwept i (mk_fees_accrued m))
               ((save_market i (m\<lparr>mk_fees_accrued := 0\<rparr>) c)\<lparr>mc_tok := t\<rparr>))"
      using assms(4) m
      by (auto simp: sweep_fees_def res_simps Let_def token_transfer_eq save_market_def)
    obtain s where s: "mc_settles c i = Some s"
        "market_inv m s (load_lp_fees i c) (mc_positions c i)"
      using mc_invD [OF inv m] by metis
    note I = s(2) [unfolded market_inv_def]
    have u: "updated i (m\<lparr>mk_fees_accrued := 0\<rparr>) s (load_lp_fees i c) (mc_positions c i) c c'"
      using m s(1) by (auto simp: updated_def m2(3) store_defs load_lp_fees_def)
    have "tk_balance T coll (mc_tok c) self - mk_fees_accrued m \<le> tk_balance T coll (mc_tok c') self"
      using token_out(1) [OF T(1)] m2(2) T(2) by (simp add: m2(3) publish_def)
    moreover have "\<not> st_closed s" using I False by auto
    ultimately show ?thesis
      using I by (intro mc_inv_updated [OF inv m s(1) m2(1) u])
        (auto simp: market_inv_def booked_def liabilities_def)
  qed
qed

section \<open>Transfers\<close>

lemma transfer_position_inv:
  assumes inv: "mc_inv T self c" and "transfer_position E a b i oc amt c = Inr c'"
  shows "mc_inv T self c'"
proof -
  define pa where "pa = load_position i a c"
  define pb where "pb = load_position i b c"
  obtain m pa' where m: "mc_markets c i = Some m" "0 < amt" "a \<noteq> b" "amt \<le> held_of oc pa"
      "position_sub oc amt pa = Inr pa'"
    using assms(2)
    by (auto simp: transfer_position_def res_simps int_ops Let_def pa_def not_le not_less)
  define pb' where "pb' = (case oc of Yes \<Rightarrow> pb\<lparr>ps_yes := ps_yes pb + amt\<rparr>
                                    | No \<Rightarrow> pb\<lparr>ps_no := ps_no pb + amt\<rparr>)"
  have c': "c' = publish (PositionTransferred i a b oc amt)
      (save_position i b pb' (save_position i a pa' c))"
    using assms(2) m
    by (cases oc) (auto simp: transfer_position_def res_simps int_ops Let_def pa_def pb_def pb'_def)
  obtain coll s where s: "mc_settles c i = Some s" "in_collateral (mc_inst c) = Some coll"
      "market_inv m s (load_lp_fees i c) (mc_positions c i)"
    using mc_invD [OF inv m(1)] by metis
  note I = s(3) [unfolded market_inv_def]
  have pok: "positions_ok (mc_positions c i)" and fin: "finite (dom (mc_positions c i))"
    using I by (auto simp: positions_ok_def)
  define P1 where "P1 = (mc_positions c i)(a := pos_entry pa')"
  define c1 where "c1 = save_position i a pa' c"
  have P1: "mc_positions c1 i = P1" by (simp add: P1_def c1_def save_position_map)
  have pb1: "load_position i b c1 = pb"
    using m(3) by (simp add: load_position_def P1 P1_def pb_def)
  note PA = position_sub_ok [OF m(5)]
  have "0 \<le> ps_yes pa'" "0 \<le> ps_no pa'"
    using PA m(4) positions_ok_nonneg [OF pok, of a] by (auto simp: pa_def held_of_eq split: if_splits)
  then have pok1: "positions_ok P1" unfolding P1_def by (intro positions_ok_upd pok)
  have PB: "ps_yes pb' = ps_yes pb + (if oc = Yes then amt else 0)"
      "ps_no pb' = ps_no pb + (if oc = No then amt else 0)"
    by (cases oc; simp add: pb'_def)+
  have "0 \<le> ps_yes pb'" "0 \<le> ps_no pb'"
    using PB m(2) positions_ok_nonneg [OF pok, of b] by (auto simp: pb_def)
  then have pok2: "positions_ok (P1(b := pos_entry pb'))" by (intro positions_ok_upd pok1)
  have fin1: "finite (dom (mc_positions c1 i))" using pok1 P1 by (simp add: positions_ok_def)
  have tot: "map_total ps_yes (P1(b := pos_entry pb')) = map_total ps_yes (mc_positions c i)"
      "map_total ps_no (P1(b := pos_entry pb')) = map_total ps_no (mc_positions c i)"
    using position_total [OF fin1, of b pb'] position_total [OF fin, of a pa'] PA PB
    by (auto simp: P1 pb1 P1_def pa_def)
  have u: "updated i m s (load_lp_fees i c) (P1(b := pos_entry pb')) c c'"
    using m(1) s(1)
    by (auto simp: updated_def c' store_defs pos_entry_def P1_def load_lp_fees_def fun_eq_iff)
  show ?thesis
    by (rule mc_inv_updated [OF inv m(1) s(1,2) u])
      (use I pok2 tot in \<open>auto simp: market_inv_def c' store_defs\<close>)
qed

lemma transfer_lp_inv:
  assumes inv: "mc_inv T self c" and "transfer_lp E i h c = Inr c'"
  shows "mc_inv T self c'"
proof -
  obtain m where m: "mc_markets c i = Some m"
      "c' = publish (LpTransferred i (mk_creator m) h) (save_market i (m\<lparr>mk_creator := h\<rparr>) c)"
    using assms(2) by (auto simp: transfer_lp_def res_simps int_ops split: if_splits)
  obtain coll s where s: "mc_settles c i = Some s" "in_collateral (mc_inst c) = Some coll"
      "market_inv m s (load_lp_fees i c) (mc_positions c i)"
    using mc_invD [OF inv m(1)] by metis
  have u: "updated i (m\<lparr>mk_creator := h\<rparr>) s (load_lp_fees i c) (mc_positions c i) c c'"
    using s(1) by (auto simp: updated_def m(2) store_defs load_lp_fees_def)
  show ?thesis
    by (rule mc_inv_updated [OF inv m(1) s(1,2) u])
      (use s(3) in \<open>auto simp: market_inv_def m(2) store_defs booked_def liabilities_def\<close>)
qed

section \<open>Resolution\<close>

text \<open>Resolving and voiding only set the status and the time of finality.\<close>

lemma finality_inv:
  assumes inv: "mc_inv T self c" and m: "mc_markets c i = Some m" "mk_status m = Open"
    and st: "st \<noteq> Open"
    and c': "c' = publish ev (mark_finalized E i (save_market i (m\<lparr>mk_status := st\<rparr>) c))"
  shows "mc_inv T self c'"
proof -
  obtain coll s where s: "mc_settles c i = Some s" "in_collateral (mc_inst c) = Some coll"
      "market_inv m s (load_lp_fees i c) (mc_positions c i)"
    using mc_invD [OF inv m(1)] by metis
  note I = s(3) [unfolded market_inv_def]
  have u: "updated i (m\<lparr>mk_status := st\<rparr>) (s\<lparr>st_finalized_at := e_now E\<rparr>)
      (load_lp_fees i c) (mc_positions c i) c c'"
    using s(1) by (auto simp: updated_def c' mark_finalized_def store_defs load_lp_fees_def)
  have "mk_reserve_yes m + st_outstanding_yes s = mk_sets_minted m"
      "mk_reserve_no m + st_outstanding_no s = mk_sets_minted m"
    using I m(2) by auto
  then have "claim_value st (st_outstanding_yes s) (st_outstanding_no s)
      + claim_value st (mk_reserve_yes m) (mk_reserve_no m) \<le> mk_sets_minted m"
    using st by (cases st rule: settlement_of.cases) auto
  then have "booked (m\<lparr>mk_status := st\<rparr>) (s\<lparr>st_finalized_at := e_now E\<rparr>) (load_lp_fees i c)
      = booked m s (load_lp_fees i c)"
    using I m(2) st by (simp add: booked_def liabilities_def)
  then show ?thesis
    using I m(2) st s(1)
    by (intro mc_inv_updated [OF inv m(1) s(1,2) u])
      (auto simp: market_inv_def c' mark_finalized_def store_defs)
qed

lemma resolve_inv:
  assumes "mc_inv T self c" and "resolve E i oc c = Inr c'"
  shows "mc_inv T self c'"
proof -
  obtain m where "mc_markets c i = Some m" "mk_status m = Open"
    "c' = publish (MarketResolved i (Some oc))
            (mark_finalized E i (save_market i (m\<lparr>mk_status := Resolved oc\<rparr>) c))"
    using assms(2) by (auto simp: resolve_def res_simps split: if_splits)
  then show ?thesis using finality_inv [OF assms(1)] by blast
qed

lemma void_market_inv:
  assumes "mc_inv T self c" and "void_market E i c = Inr c'"
  shows "mc_inv T self c'"
proof -
  obtain m where "mc_markets c i = Some m" "mk_status m = Open"
    "c' = publish (MarketResolved i None)
            (mark_finalized E i (save_market i (m\<lparr>mk_status := Void\<rparr>) c))"
    using assms(2) by (auto simp: void_market_def res_simps split: if_splits)
  then show ?thesis using finality_inv [OF assms(1)] by blast
qed

end
