(* ===== verification/MarketSteps.thy ===== *)
theory MarketSteps
  imports MarketSettle
begin

text \<open>
  Creation and administration, and the market contract as a transition system: \<open>mc_step\<close> is one
  successful call of a state-changing entry point (or a token transfer of somebody else that
  does not take from the contract), \<open>reachable\<close> the states a deployment can get into.
\<close>

section \<open>Creation\<close>

lemma seed_reserves_ok:
  assumes "seed_reserves seed p = Inr r"
  shows "0 < sr_reserve_yes r" "0 < sr_reserve_no r"
    and "sr_reserve_yes r + sr_creator_yes r = seed" "sr_reserve_no r + sr_creator_no r = seed"
    and "0 \<le> sr_creator_yes r" "0 \<le> sr_creator_no r"
proof -
  have 1: "0 < seed" "MIN_PROB_BPS \<le> p" "p \<le> MAX_PROB_BPS"
    using assms by (auto simp: seed_reserves_def split: if_splits)
  have *: "seed * a div b \<le> seed" if "0 \<le> a" "a \<le> b" "0 < b" for a b :: int
  proof -
    have "seed * a \<le> seed * b" using 1 that by (intro mult_left_mono) auto
    then have "ceil_div (seed * a) b \<le> seed" using that by (simp add: ceil_div_le_iff)
    then show ?thesis by (auto simp: ceil_div_def split: if_splits)
  qed
  have p: "BPS = 10000" "100 \<le> int p" "int p \<le> 9900"
    using 1 by (auto simp: BPS_def MIN_PROB_BPS_def MAX_PROB_BPS_def)
  have half: "BPS div 2 = 5000" by (simp add: BPS_def)
  have "(\<exists>ry rn. 0 < ry \<and> 0 < rn \<and> ry \<le> seed \<and> rn \<le> seed
      \<and> r = \<lparr>sr_reserve_yes = ry, sr_reserve_no = rn,
             sr_creator_yes = seed - ry, sr_creator_no = seed - rn\<rparr>)"
  proof (cases "BPS div 2 \<le> int p")
    case True
    have le: "seed * (BPS - int p) div int p \<le> seed" by (rule *) (use True p half in linarith)+
    from True show ?thesis
      using assms 1 le
      by (auto simp: seed_reserves_def Let_def res_simps int_ops fpmm split: if_splits)
  next
    case False
    have le: "seed * int p div (BPS - int p) \<le> seed" by (rule *) (use False p half in linarith)+
    from False show ?thesis
      using assms 1 le
      by (auto simp: seed_reserves_def Let_def res_simps int_ops fpmm split: if_splits)
  qed
  then show "0 < sr_reserve_yes r" "0 < sr_reserve_no r"
    "sr_reserve_yes r + sr_creator_yes r = seed" "sr_reserve_no r + sr_creator_no r = seed"
    "0 \<le> sr_creator_yes r" "0 \<le> sr_creator_no r" by auto
qed

lemma optional_breaker:
  "(case br of Some b \<Rightarrow> save_breaker i b c | None \<Rightarrow> c)
     = c\<lparr>mc_breakers := (mc_breakers c)(i := (case br of None \<Rightarrow> mc_breakers c i | Some b \<Rightarrow> Some b))\<rparr>"
  by (simp add: save_breaker_def split: option.split)

lemma optional_position:
  "(if x then save_position i h p c else c)
     = c\<lparr>mc_positions := (mc_positions c)(i := (if x then (mc_positions c i)(h := pos_entry p)
                                             else mc_positions c i))\<rparr>"
  by (simp add: save_position_def pos_entry_def)

lemma write_market_fields:
  assumes d_def: "d = write_market i m terms br r horizon c"
  shows "mc_inst d = mc_inst c" "mc_tok d = mc_tok c" "mc_lp_fees d = mc_lp_fees c"
    "mc_markets d = (mc_markets c)(i \<mapsto> m)"
    "mc_settles d = (mc_settles c)(i \<mapsto> \<lparr>st_outstanding_yes = sr_creator_yes r,
       st_outstanding_no = sr_creator_no r, st_finalized_at = 0, st_horizon_secs = horizon,
       st_paid_out = 0, st_closed = False\<rparr>)"
    "mc_positions d = (mc_positions c)(i := (if 0 < sr_creator_yes r \<or> 0 < sr_creator_no r
        then (mc_positions c i)
          (mk_creator m := pos_entry \<lparr>ps_yes = sr_creator_yes r, ps_no = sr_creator_no r\<rparr>)
        else mc_positions c i))"
    "mc_fee_terms d = (mc_fee_terms c)(i \<mapsto> terms)"
    "mc_breakers d = (mc_breakers c)(i := (case br of None \<Rightarrow> mc_breakers c i | Some b \<Rightarrow> Some b))"
  unfolding d_def
  by (simp_all add: write_market_def Let_def optional_breaker optional_position
      save_fee_terms_def save_market_def save_settle_def split: option.split)

lemma open_oracle_fields:
  "mc_inst (open_oracle E i price c) = mc_inst c" "mc_tok (open_oracle E i price c) = mc_tok c"
  "mc_lp_fees (open_oracle E i price c) = mc_lp_fees c"
  "mc_markets (open_oracle E i price c) = mc_markets c"
  "mc_settles (open_oracle E i price c) = mc_settles c"
  "mc_positions (open_oracle E i price c) = mc_positions c"
  "mc_fee_terms (open_oracle E i price c) = mc_fee_terms c"
  "mc_breakers (open_oracle E i price c) = mc_breakers c"
  by (simp_all add: open_oracle_def store_defs)

lemma create_market_ok:
  assumes "create_market T E cr qh rh uri cat close seed p c = Inr (i, c')"
  obtains r fee horizon share treasury coll m s where
    "in_paused (mc_inst c) = Some False" "e_auth E cr" "e_now E < close"
    "MIN_SEED \<le> seed" "seed \<le> MAX_SETS" "seed_reserves seed p = Inr r"
    "in_next_id (mc_inst c) = Some i" "i + 1 \<le> u64_max"
    "in_default_fee_bps (mc_inst c) = Some fee"
    "in_default_redeem_horizon (mc_inst c) = Some horizon"
    "in_protocol_fee_share_bps (mc_inst c) = Some share" "in_treasury (mc_inst c) = Some treasury"
    "in_collateral (mc_inst c) = Some coll"
    "tk_transfer T coll cr (e_self E) seed (mc_tok c) = Some (mc_tok c')"
    "m = \<lparr>mk_creator = cr, mk_question_hash = qh, mk_resolution_hash = rh, mk_meta_uri = uri,
       mk_category = cat, mk_close_time = close, mk_fee_bps = fee, mk_status = Open,
       mk_reserve_yes = sr_reserve_yes r, mk_reserve_no = sr_reserve_no r, mk_sets_minted = seed,
       mk_fees_accrued = 0, mk_lp_claimed = False\<rparr>"
    "s = \<lparr>st_outstanding_yes = sr_creator_yes r, st_outstanding_no = sr_creator_no r,
       st_finalized_at = 0, st_horizon_secs = horizon, st_paid_out = 0, st_closed = False\<rparr>"
    "mc_inst c' = (mc_inst c)\<lparr>in_next_id := Some (i + 1)\<rparr>"
    "mc_markets c' = (mc_markets c)(i \<mapsto> m)" "mc_settles c' = (mc_settles c)(i \<mapsto> s)"
    "mc_positions c' = (mc_positions c)(i := (if 0 < sr_creator_yes r \<or> 0 < sr_creator_no r
        then (mc_positions c i)(cr := pos_entry \<lparr>ps_yes = sr_creator_yes r, ps_no = sr_creator_no r\<rparr>)
        else mc_positions c i))"
    "mc_fee_terms c' = (mc_fee_terms c)(i \<mapsto> \<lparr>ft_recipient = treasury, ft_protocol_share_bps = share\<rparr>)"
    "mc_lp_fees c' = mc_lp_fees c"
    "mc_breakers c' = (mc_breakers c)(i := (case in_default_breaker (mc_inst c) of
        None \<Rightarrow> mc_breakers c i | Some b \<Rightarrow> Some b))"
proof -
  obtain r fee horizon share treasury where 1:
    "in_paused (mc_inst c) = Some False" "e_auth E cr" "e_now E < close"
    "MIN_SEED \<le> seed" "seed \<le> MAX_SETS" "seed_reserves seed p = Inr r"
    "in_next_id (mc_inst c) = Some i" "i + 1 \<le> u64_max"
    "in_default_fee_bps (mc_inst c) = Some fee"
    "in_default_redeem_horizon (mc_inst c) = Some horizon"
    "in_protocol_fee_share_bps (mc_inst c) = Some share" "in_treasury (mc_inst c) = Some treasury"
    using assms by (auto simp: create_market_def res_simps int_ops Let_def not_le not_less)
  define m where "m = \<lparr>mk_creator = cr, mk_question_hash = qh, mk_resolution_hash = rh,
       mk_meta_uri = uri, mk_category = cat, mk_close_time = close, mk_fee_bps = fee,
       mk_status = Open, mk_reserve_yes = sr_reserve_yes r, mk_reserve_no = sr_reserve_no r,
       mk_sets_minted = seed, mk_fees_accrued = 0, mk_lp_claimed = False\<rparr>"
  define d where "d = write_market i m \<lparr>ft_recipient = treasury, ft_protocol_share_bps = share\<rparr>
      (in_default_breaker (mc_inst c)) r horizon (set_inst (in_next_id_update (\<lambda>_. Some (i + 1))) c)"
  note F = write_market_fields [OF d_def]
  have "\<exists>price c2. token_transfer T cr (e_self E) seed (open_oracle E i price d) = Inr c2
      \<and> c' = publish (MarketCreated i cr cat close seed p) c2"
    using assms 1 unfolding d_def m_def
    by (simp add: create_market_def res_simps int_ops Let_def) (elim exE conjE, blast)
  then obtain coll t price where 2: "in_collateral (mc_inst c) = Some coll"
      "tk_transfer T coll cr (e_self E) seed (mc_tok c) = Some t"
      "c' = publish (MarketCreated i cr cat close seed p) ((open_oracle E i price d)\<lparr>mc_tok := t\<rparr>)"
    by (auto simp: token_transfer_eq open_oracle_fields F set_inst_def)
  show ?thesis
    by (rule that [OF 1 2(1) _ m_def refl])
      (simp_all add: 2 publish_def open_oracle_fields F, simp_all add: set_inst_def m_def split: option.split)
qed

lemma create_market_inv:
  assumes inv: "mc_inv T self c" and T: "token_ok T" "e_self E = self" "\<not> e_auth E self"
    and "create_market T E cr qh rh uri cat close seed p c = Inr (i, c')"
  shows "mc_inv T self c'"
  using assms(5)
proof (rule create_market_ok)
  fix r fee horizon share treasury coll m s
  assume auth: "e_auth E cr" and seed: "MIN_SEED \<le> seed" "seed \<le> MAX_SETS"
    and r: "seed_reserves seed p = Inr r" and n: "in_next_id (mc_inst c) = Some i"
    and cfg: "in_default_fee_bps (mc_inst c) = Some fee"
    "in_default_redeem_horizon (mc_inst c) = Some horizon"
    "in_protocol_fee_share_bps (mc_inst c) = Some share"
    and coll: "in_collateral (mc_inst c) = Some coll"
    and tk: "tk_transfer T coll cr (e_self E) seed (mc_tok c) = Some (mc_tok c')"
    and m: "m = \<lparr>mk_creator = cr, mk_question_hash = qh, mk_resolution_hash = rh, mk_meta_uri = uri,
       mk_category = cat, mk_close_time = close, mk_fee_bps = fee, mk_status = Open,
       mk_reserve_yes = sr_reserve_yes r, mk_reserve_no = sr_reserve_no r, mk_sets_minted = seed,
       mk_fees_accrued = 0, mk_lp_claimed = False\<rparr>"
    and s: "s = \<lparr>st_outstanding_yes = sr_creator_yes r, st_outstanding_no = sr_creator_no r,
       st_finalized_at = 0, st_horizon_secs = horizon, st_paid_out = 0, st_closed = False\<rparr>"
    and c': "mc_inst c' = (mc_inst c)\<lparr>in_next_id := Some (i + 1)\<rparr>"
    "mc_markets c' = (mc_markets c)(i \<mapsto> m)" "mc_settles c' = (mc_settles c)(i \<mapsto> s)"
    "mc_positions c' = (mc_positions c)(i := (if 0 < sr_creator_yes r \<or> 0 < sr_creator_no r
        then (mc_positions c i)(cr := pos_entry \<lparr>ps_yes = sr_creator_yes r, ps_no = sr_creator_no r\<rparr>)
        else mc_positions c i))"
    "mc_fee_terms c' = (mc_fee_terms c)(i \<mapsto> \<lparr>ft_recipient = treasury, ft_protocol_share_bps = share\<rparr>)"
    "mc_lp_fees c' = mc_lp_fees c"
  have all: "\<forall>j<i. market_at_inv c j" "\<forall>j\<ge>i. absent_at c j" "config_inv (mc_inst c)"
      "(\<Sum>j<i. booked_at c j) \<le> tk_balance T coll (mc_tok c) self"
    using inv n coll by (auto simp: mc_inv_def mc_inv_owing_def)
  note R = seed_reserves_ok [OF r]
  have lp: "load_lp_fees j c' = load_lp_fees j c" for j by (rule load_lp_fees_cong) (rule c'(6))
  have absent: "mc_positions c i = Map.empty" "load_lp_fees i c = 0"
    using all(2) by (auto simp: absent_at_def)
  define P where "P = (if 0 < sr_creator_yes r \<or> 0 < sr_creator_no r
      then Map.empty(cr := pos_entry \<lparr>ps_yes = sr_creator_yes r, ps_no = sr_creator_no r\<rparr>)
      else Map.empty)"
  have e: "positions_ok Map.empty" by (simp add: positions_ok_def)
  have P: "positions_ok P" "map_total ps_yes P = sr_creator_yes r" "map_total ps_no P = sr_creator_no r"
    using R positions_ok_upd [OF e, of "\<lparr>ps_yes = sr_creator_yes r, ps_no = sr_creator_no r\<rparr>" cr] e
    by (auto simp: P_def map_total_upd at_key_def pos_entry_def)
  have "market_inv m s 0 P"
    using R P seed all(3) cfg
    by (auto simp: market_inv_def m s config_inv_def)
  then have new: "market_at_inv c' i"
    using all(3) cfg(3) by (auto simp: market_at_inv_def c' lp absent P_def config_inv_def)
  have old: "market_at_inv c' j = market_at_inv c j" "booked_at c' j = booked_at c j" if "j < i" for j
    using that by (simp_all add: market_at_inv_def booked_at_def c' lp)
  have "market_at_inv c' j" if "j < i + 1" for j
    using new old all(1) that by (cases "j = i") auto
  moreover have "absent_at c' j" if "i + 1 \<le> j" for j
    using all(2) that by (auto simp: absent_at_def c' lp)
  moreover have "(\<Sum>j<i + 1. booked_at c' j) \<le> tk_balance T coll (mc_tok c') self"
  proof -
    have "booked_at c' i = seed" by (simp add: booked_at_def booked_def c' lp absent m s)
    moreover have "(\<Sum>j<i. booked_at c' j) = (\<Sum>j<i. booked_at c j)" using old by simp
    moreover have "cr \<noteq> self" using auth T(3) by auto
    ultimately show ?thesis using all(4) token_in [OF T(1)] tk T(2) by simp
  qed
  moreover have "config_inv (mc_inst c')" using all(3) by (simp add: config_inv_def c')
  ultimately show ?thesis
    unfolding mc_inv_def mc_inv_owing_def using coll by (simp add: c')
qed

section \<open>Administration\<close>

text \<open>An operation that only changes configuration entries other than the collateral and the
  counter, and keeps the configuration in range.\<close>

lemma mc_inv_config:
  assumes "mc_inv T self c" and "c' = c\<lparr>mc_inst := I, mc_events := evs\<rparr>" and "config_inv I"
    and "in_collateral I = in_collateral (mc_inst c)" and "in_next_id I = in_next_id (mc_inst c)"
  shows "mc_inv T self c'"
proof -
  have "market_at_inv c' i = market_at_inv c i" "absent_at c' i = absent_at c i"
    "booked_at c' i = booked_at c i" for i
    by (simp_all add: assms(2) market_at_inv_def absent_at_def booked_at_def load_lp_fees_def)
  then show ?thesis using assms by (simp add: mc_inv_def mc_inv_owing_def)
qed

lemma config_op_inv:
  assumes inv: "mc_inv T self c"
    and c': "c' = publish ev (set_inst f c) \<or> c' = set_inst f c"
    and "config_inv (mc_inst c) \<Longrightarrow> config_inv (f (mc_inst c))"
    and "in_collateral (f (mc_inst c)) = in_collateral (mc_inst c)"
    and "in_next_id (f (mc_inst c)) = in_next_id (mc_inst c)"
  shows "mc_inv T self c'"
proof -
  have "config_inv (mc_inst c)" using inv by (simp add: mc_inv_def mc_inv_owing_def)
  moreover have "c' = c\<lparr>mc_inst := f (mc_inst c), mc_events := mc_events c'\<rparr>"
    using c' by (auto simp: set_inst_def publish_def)
  ultimately show ?thesis using mc_inv_config [OF inv] assms(3-5) by blast
qed

section \<open>The contract as a transition system\<close>

datatype mc_call =
  CallProposeAdmin address | CallAcceptAdmin | CallCancelAdminTransfer | CallSetPaused bool
| CallSetDefaultFee nat | CallProposeResolver address | CallAcceptResolver
| CallProposeTreasury address | CallAcceptTreasury | CallSetProtocolFeeShare nat
| CallSetDefaultBreaker breaker_config_rec | CallSetDefaultRedeemHorizon nat
| CallCreateMarket address bytesN bytesN symbol category nat int nat
| CallBuy address nat outcome int int | CallBuyV2 address nat outcome int int nat nat
| CallSell address nat outcome int int | CallSellV2 address nat outcome int int nat nat
| CallResolve nat outcome | CallVoidMarket nat
| CallRedeem address nat | CallClaimPoolRemainder nat
| CallRedeemMany address "nat list" | CallClaimPoolRemainders address "nat list"
| CallFinalizeMarket nat | CallClaimLpFees nat | CallSweepFees nat
| CallTransferPosition address address nat outcome int | CallTransferLp nat address

definition state_of :: "('e, 'a \<times> 's) res \<Rightarrow> ('e, 's) res" where
  "state_of r = andThen r (\<lambda>(_, c). Inr c)"

fun exec :: "'t token \<Rightarrow> (address \<Rightarrow> address option) \<Rightarrow> env \<Rightarrow> mc_call \<Rightarrow> 't mc \<Rightarrow> 't mc mc_res" where
  "exec T peer E (CallProposeAdmin a) c = propose_admin E a c"
| "exec T peer E CallAcceptAdmin c = accept_admin E c"
| "exec T peer E CallCancelAdminTransfer c = cancel_admin_transfer E c"
| "exec T peer E (CallSetPaused b) c = set_paused E b c"
| "exec T peer E (CallSetDefaultFee f) c = set_default_fee_bps E f c"
| "exec T peer E (CallProposeResolver a) c = propose_resolver E a c"
| "exec T peer E CallAcceptResolver c = accept_resolver peer E c"
| "exec T peer E (CallProposeTreasury a) c = propose_treasury E a c"
| "exec T peer E CallAcceptTreasury c = accept_treasury peer E c"
| "exec T peer E (CallSetProtocolFeeShare f) c = set_protocol_fee_share_bps E f c"
| "exec T peer E (CallSetDefaultBreaker b) c = set_default_breaker E b c"
| "exec T peer E (CallSetDefaultRedeemHorizon h) c = set_default_redeem_horizon E h c"
| "exec T peer E (CallCreateMarket a qh rh uri cat close seed p) c =
     state_of (create_market T E a qh rh uri cat close seed p c)"
| "exec T peer E (CallBuy a i oc cin mo) c = state_of (buy T E a i oc cin mo c)"
| "exec T peer E (CallBuyV2 a i oc cin mo l d) c = state_of (buy_v2 T E a i oc cin mo l d c)"
| "exec T peer E (CallSell a i oc cout mx) c = state_of (sell T E a i oc cout mx c)"
| "exec T peer E (CallSellV2 a i oc cout mx l d) c = state_of (sell_v2 T E a i oc cout mx l d c)"
| "exec T peer E (CallResolve i oc) c = resolve E i oc c"
| "exec T peer E (CallVoidMarket i) c = void_market E i c"
| "exec T peer E (CallRedeem a i) c = state_of (redeem T E a i c)"
| "exec T peer E (CallClaimPoolRemainder i) c = state_of (claim_pool_remainder T E i c)"
| "exec T peer E (CallRedeemMany a ids) c = state_of (redeem_many T E a ids c)"
| "exec T peer E (CallClaimPoolRemainders a ids) c = state_of (claim_pool_remainders T E a ids c)"
| "exec T peer E (CallFinalizeMarket i) c = state_of (finalize_market T E i c)"
| "exec T peer E (CallClaimLpFees i) c = state_of (claim_lp_fees T E i c)"
| "exec T peer E (CallSweepFees i) c = state_of (sweep_fees T E i c)"
| "exec T peer E (CallTransferPosition a b i oc n) c = transfer_position E a b i oc n c"
| "exec T peer E (CallTransferLp i a) c = transfer_lp E i a c"

lemma state_of_eq [res_simps]: "state_of r = Inr c \<longleftrightarrow> (\<exists>x. r = Inr (x, c))"
  by (auto simp: state_of_def res_simps)

inductive mc_step ::
    "'t token \<Rightarrow> (address \<Rightarrow> address option) \<Rightarrow> address \<Rightarrow> 't mc \<Rightarrow> 't mc \<Rightarrow> bool"
  for T peer self where
  step_call: "e_self E = self \<Longrightarrow> \<not> e_auth E self \<Longrightarrow> exec T peer E call c = Inr c'
     \<Longrightarrow> mc_step T peer self c c'"
| step_other: "in_collateral (mc_inst c) = Some coll
     \<Longrightarrow> tk_balance T coll (mc_tok c) self \<le> tk_balance T coll t self
     \<Longrightarrow> mc_step T peer self c (c\<lparr>mc_tok := t\<rparr>)"

inductive mc_reachable ::
    "'t token \<Rightarrow> (address \<Rightarrow> address option) \<Rightarrow> address \<Rightarrow> 't mc \<Rightarrow> bool"
  for T peer self where
  reach_init: "constructor admin coll treasury resolver fee share (deployed t) = Inr c
     \<Longrightarrow> 0 \<le> tk_balance T coll t self \<Longrightarrow> mc_reachable T peer self c"
| reach_step: "mc_reachable T peer self c \<Longrightarrow> mc_step T peer self c c'
     \<Longrightarrow> mc_reachable T peer self c'"

inductive_cases mc_stepE: "mc_step T peer self c c'"

lemma constructor_inv:
  assumes "constructor admin coll treasury resolver fee share (deployed t) = Inr c"
    and "0 \<le> tk_balance T coll t self"
  shows "mc_inv T self c"
proof -
  have "MAX_FEE_BPS \<ge> fee" "BPS \<ge> int share"
    using assms(1) by (auto simp: constructor_def split: if_splits)
  moreover have "c = (deployed t)\<lparr>mc_inst := empty_instance
             \<lparr>in_admin := Some admin, in_collateral := Some coll,
              in_treasury := Some treasury, in_resolver := Some resolver,
              in_default_fee_bps := Some fee, in_protocol_fee_share_bps := Some share,
              in_paused := Some False, in_next_id := Some 0,
              in_default_redeem_horizon := Some DEFAULT_REDEEM_HORIZON_SECS\<rparr>\<rparr>"
    using assms(1) by (auto simp: constructor_def deployed_def split: if_splits)
  ultimately show ?thesis using assms(2)
    by (simp add: mc_inv_def mc_inv_owing_def config_inv_def absent_at_def deployed_def
        load_lp_fees_def DEFAULT_REDEEM_HORIZON_SECS_def MIN_REDEEM_HORIZON_SECS_def
        MAX_REDEEM_HORIZON_SECS_def)
qed

lemma exec_inv:
  assumes inv: "mc_inv T self c" and T: "token_ok T" "e_self E = self" "\<not> e_auth E self"
    and "exec T peer E call c = Inr c'"
  shows "mc_inv T self c'"
proof (cases call)
  case (CallProposeAdmin a)
  with assms(5) show ?thesis
    by (auto simp: propose_admin_def res_simps int_ops config_inv_def
        intro!: config_op_inv [OF inv disjI1])
next
  case CallAcceptAdmin
  with assms(5) show ?thesis
    by (auto simp: accept_admin_def res_simps int_ops config_inv_def
        intro!: config_op_inv [OF inv disjI1])
next
  case CallCancelAdminTransfer
  with assms(5) show ?thesis
    by (auto simp: cancel_admin_transfer_def res_simps int_ops config_inv_def
        intro!: config_op_inv [OF inv disjI1])
next
  case (CallSetPaused b)
  with assms(5) show ?thesis
    by (auto simp: set_paused_def res_simps int_ops config_inv_def
        intro!: config_op_inv [OF inv disjI2])
next
  case (CallSetDefaultFee f)
  with assms(5) show ?thesis
    by (auto simp: set_default_fee_bps_def res_simps int_ops config_inv_def
        intro!: config_op_inv [OF inv disjI2])
next
  case (CallProposeResolver a)
  with assms(5) show ?thesis
    by (auto simp: propose_resolver_def res_simps int_ops config_inv_def
        intro!: config_op_inv [OF inv disjI1])
next
  case CallAcceptResolver
  with assms(5) show ?thesis
    by (auto simp: accept_resolver_def res_simps int_ops config_inv_def
        intro!: config_op_inv [OF inv disjI1])
next
  case (CallProposeTreasury a)
  with assms(5) show ?thesis
    by (auto simp: propose_treasury_def res_simps int_ops config_inv_def
        intro!: config_op_inv [OF inv disjI1])
next
  case CallAcceptTreasury
  with assms(5) show ?thesis
    by (auto simp: accept_treasury_def res_simps int_ops config_inv_def
        intro!: config_op_inv [OF inv disjI1])
next
  case (CallSetProtocolFeeShare f)
  with assms(5) show ?thesis
    by (auto simp: set_protocol_fee_share_bps_def res_simps int_ops config_inv_def
        intro!: config_op_inv [OF inv disjI1])
next
  case (CallSetDefaultBreaker b)
  with assms(5) show ?thesis
    by (auto simp: set_default_breaker_def res_simps int_ops config_inv_def
        intro!: config_op_inv [OF inv disjI2])
next
  case (CallSetDefaultRedeemHorizon h)
  with assms(5) show ?thesis
    by (auto simp: set_default_redeem_horizon_def res_simps int_ops config_inv_def
        intro!: config_op_inv [OF inv disjI2])
qed (use assms(5) in \<open>auto simp: res_simps buy_def buy_v2_def sell_def sell_v2_def redeem_many_def
      claim_pool_remainders_def split: if_splits
    intro: create_market_inv [OF inv T] do_buy_inv [OF inv T] do_sell_inv [OF inv T]
      resolve_inv [OF inv] void_market_inv [OF inv] redeem_inv [OF inv T(1,2)]
      claim_pool_remainder_inv [OF inv T(1,2)] finalize_market_inv [OF inv T(1,2)]
      claim_lp_fees_inv [OF inv T(1,2)] sweep_fees_inv [OF inv T(1,2)]
      transfer_position_inv [OF inv] transfer_lp_inv [OF inv]
      settle_batch_inv [OF redeem_one_inv inv T(1,2)] settle_batch_inv [OF claim_one_inv inv T(1,2)]\<close>)

lemma mc_step_inv:
  assumes "mc_step T peer self c c'" and inv: "mc_inv T self c" and "token_ok T"
  shows "mc_inv T self c'"
  using assms(1)
proof (rule mc_stepE)
  fix coll t
  assume c': "c' = c\<lparr>mc_tok := t\<rparr>" and coll: "in_collateral (mc_inst c) = Some coll"
    and "tk_balance T coll (mc_tok c) self \<le> tk_balance T coll t self"
  moreover have "market_at_inv c' i = market_at_inv c i" "absent_at c' i = absent_at c i"
    "booked_at c' i = booked_at c i" for i
    by (simp_all add: c' market_at_inv_def absent_at_def booked_at_def load_lp_fees_def)
  ultimately show ?thesis using inv by (auto simp: mc_inv_def mc_inv_owing_def)
qed (use exec_inv [OF inv assms(3)] in blast)

lemma mc_reachable_inv:
  assumes "mc_reachable T peer self c" and "token_ok T"
  shows "mc_inv T self c"
  using assms(1)
  by (induction rule: mc_reachable.induct) (auto intro: constructor_inv mc_step_inv [OF _ _ assms(2)])

end
