(* ===== verification/MarketDemo.thy ===== *)
theory MarketDemo
  imports MarketViews MarketSteps
begin

text \<open>
  A concrete run of the market contract, on the concrete token ledger: deployment, a market, a
  purchase of each outcome, resolution, and the settlement calls. The states are written out;
  the lemmas evaluate each call. The properties use them as instances.
\<close>

text \<open>Token 50; the contract is 100; admin 9, treasury 8, resolver 7, creator 2, trader 1.\<close>

definition demo_tok :: ledger where
  "demo_tok = (\<lambda>_ _. 0)(50 := (\<lambda>_. 0)(1 := 5000000000, 2 := 5000000000))"

definition demo_env :: "nat \<Rightarrow> env" where
  "demo_env now = \<lparr>e_now = now, e_seq = now, e_max_ttl = 3110400, e_self = 100,
                   e_auth = (\<lambda>a. a \<noteq> 100)\<rparr>"

definition no_peer :: "address \<Rightarrow> address option" where
  "no_peer a = Some 100"

definition demo_inst :: mc_instance where
  "demo_inst =
     \<lparr>in_admin = Some 9, in_pending_admin = None, in_collateral = Some 50, in_treasury = Some 8,
      in_resolver = Some 7, in_pending_resolver = None, in_pending_treasury = None,
      in_default_fee_bps = Some 100, in_protocol_fee_share_bps = Some 4000,
      in_default_breaker = None, in_paused = Some False, in_next_id = Some 0,
      in_default_redeem_horizon = Some DEFAULT_REDEEM_HORIZON_SECS\<rparr>"

definition demo0 :: "ledger mc" where
  "demo0 = (deployed demo_tok)\<lparr>mc_inst := demo_inst\<rparr>"

lemma demo0_run: "constructor 9 50 8 7 100 4000 (deployed demo_tok) = Inr demo0"
  by (simp add: constructor_def MAX_FEE_BPS_def BPS_def demo0_def deployed_def demo_inst_def
      empty_instance_def)

lemmas exec_defs = buy_def buy_v2_def sell_def sell_v2_def do_buy_def do_sell_def
  create_market_def write_market_def open_oracle_def resolve_def void_market_def
  redeem_def claim_pool_remainder_def finalize_market_def claim_lp_fees_def sweep_fees_def
  transfer_position_def transfer_lp_def redeem_many_def claim_pool_remainders_def settle_batch_def
  redeem_one_def claim_one_def validate_batch_def batch_skip_def

lemmas helper_defs = assert_not_paused_def assert_tradable_def instance_get_def require_auth_def
  require_admin_def require_resolver_def load_market_def load_settle_def load_position_def
  load_lp_fees_def load_fee_terms_def load_breaker_def check_breakers_def fold_oracle_def
  refresh_oracle_def accumulate_def accrue_fees_def on_settle_def token_transfer_def pay_out_def
  settle_redeem_def settle_pay_def mark_finalized_def settle_closed_def assert_not_closed_def
  market_settlement_def check_limit_def state_of_def ORACLE_RING_def as_u32_def sat_add_u64_def
  u64_max_def u32_max_def add_u64_def add_u32_def MAX_BATCH_def

lemmas math_defs = calc_buy_def calc_sell_def mul_div_ceil_def mul_div_floor_def mul_def i128_defs
  BPS_def MAX_SETS_def MIN_PROB_BPS_def MAX_PROB_BPS_def MIN_SEED_def price_yes_bps_def
  split_fee_def seed_reserves_def signed_divide_int_def signed_modulo_int_def ceil_div_def

lemmas demo_eval = exec_defs helper_defs math_defs store_defs Let_def demo_env_def ledger_token_def

definition demo_market :: market where
  "demo_market = \<lparr>mk_creator = 2, mk_question_hash = [], mk_resolution_hash = [], mk_meta_uri = [],
     mk_category = Other, mk_close_time = 1000, mk_fee_bps = 100, mk_status = Open,
     mk_reserve_yes = 1000000000, mk_reserve_no = 1000000000, mk_sets_minted = 1000000000,
     mk_fees_accrued = 0, mk_lp_claimed = False\<rparr>"

definition demo_settle :: settle_state where
  "demo_settle = \<lparr>st_outstanding_yes = 0, st_outstanding_no = 0, st_finalized_at = 0,
     st_horizon_secs = DEFAULT_REDEEM_HORIZON_SECS, st_paid_out = 0, st_closed = False\<rparr>"

definition demo1 :: "ledger mc" where
  "demo1 =
     \<lparr>mc_inst = demo_inst\<lparr>in_next_id := Some 1\<rparr>, mc_markets = [0 \<mapsto> demo_market],
      mc_positions = (\<lambda>_. Map.empty), mc_settles = [0 \<mapsto> demo_settle],
      mc_oracles = [0 \<mapsto> \<lparr>or_price_cumulative = 0, or_last_ts = 100, or_last_price_bps = 5000,
                          or_obs_index = 0, or_obs_count = 1\<rparr>],
      mc_obss = (\<lambda>_. Map.empty)(0 := [0 \<mapsto> \<lparr>ob_ts = 100, ob_cumulative = 0\<rparr>]),
      mc_fee_terms = [0 \<mapsto> \<lparr>ft_recipient = 8, ft_protocol_share_bps = 4000\<rparr>],
      mc_lp_fees = Map.empty, mc_breakers = Map.empty, mc_bands = Map.empty,
      mc_tok = demo_tok(50 := (demo_tok 50)(2 := 4000000000, 100 := 1000000000)),
      mc_events = [MarketCreated 0 2 Other 1000 1000000000 5000]\<rparr>"

lemma demo1_run:
  "create_market ledger_token (demo_env 100) 2 [] [] [] Other 1000 1000000000 5000 demo0
     = Inr (0, demo1)"
  by (simp add: demo_eval demo0_def demo1_def deployed_def demo_inst_def demo_market_def
      demo_settle_def demo_tok_def)

text \<open>Trader 1 buys the Yes outcome for 100 (10 000 000 * 100 units): fee 1 %, of which 60 % goes to
  the pool's owner.\<close>

definition demo2 :: "ledger mc" where
  "demo2 = demo1
     \<lparr>mc_markets := [0 \<mapsto> demo_market\<lparr>mk_reserve_yes := 502512563, mk_reserve_no := 1990000000,
          mk_sets_minted := 1990000000, mk_fees_accrued := 4000000\<rparr>],
      mc_positions := (\<lambda>_. Map.empty)(0 := [1 \<mapsto> \<lparr>ps_yes = 1487487437, ps_no = 0\<rparr>]),
      mc_settles := [0 \<mapsto> demo_settle\<lparr>st_outstanding_yes := 1487487437\<rparr>],
      mc_oracles := [0 \<mapsto> \<lparr>or_price_cumulative = 500000, or_last_ts = 200, or_last_price_bps = 7983,
                          or_obs_index = 1, or_obs_count = 2\<rparr>],
      mc_obss := (\<lambda>_. Map.empty)(0 := [0 \<mapsto> \<lparr>ob_ts = 100, ob_cumulative = 0\<rparr>,
                                       1 \<mapsto> \<lparr>ob_ts = 200, ob_cumulative = 500000\<rparr>]),
      mc_lp_fees := [0 \<mapsto> 6000000],
      mc_tok := demo_tok(50 := (demo_tok 50)(1 := 4000000000, 2 := 4000000000, 100 := 2000000000)),
      mc_events := [MarketCreated 0 2 Other 1000 1000000000 5000,
        Trade 0 1 Yes True 1000000000 1487487437 10000000 502512563 1990000000]\<rparr>"

lemma demo2_run:
  "buy ledger_token (demo_env 200) 1 0 Yes 1000000000 1 demo1 = Inr (1487487437, demo2)"
  by (simp add: demo_eval demo1_def demo2_def demo_inst_def demo_market_def demo_settle_def
      demo_tok_def fun_upd_twist numeral_2_eq_2 [symmetric])

text \<open>Resolved Yes at its close; the pool's owner claims, the trader redeems.\<close>

definition demo3 :: "ledger mc" where
  "demo3 = demo2
     \<lparr>mc_markets := [0 \<mapsto> demo_market\<lparr>mk_reserve_yes := 502512563, mk_reserve_no := 1990000000,
          mk_sets_minted := 1990000000, mk_fees_accrued := 4000000, mk_status := Resolved Yes\<rparr>],
      mc_settles := [0 \<mapsto> demo_settle\<lparr>st_outstanding_yes := 1487487437, st_finalized_at := 1000\<rparr>],
      mc_events := mc_events demo2 @ [MarketResolved 0 (Some Yes)]\<rparr>"

lemma demo3_run: "resolve (demo_env 1000) 0 Yes demo2 = Inr demo3"
  by (simp add: demo_eval demo1_def demo2_def demo3_def demo_inst_def demo_market_def demo_settle_def
      fun_upd_twist)

definition demo4 :: "ledger mc" where
  "demo4 = demo3
     \<lparr>mc_markets := [0 \<mapsto> demo_market\<lparr>mk_reserve_yes := 0, mk_reserve_no := 0,
          mk_sets_minted := 1990000000, mk_fees_accrued := 4000000, mk_status := Resolved Yes,
          mk_lp_claimed := True\<rparr>],
      mc_settles := [0 \<mapsto> demo_settle\<lparr>st_outstanding_yes := 1487487437, st_finalized_at := 1000,
          st_paid_out := 508512563\<rparr>],
      mc_lp_fees := Map.empty,
      mc_tok := demo_tok(50 := (demo_tok 50)(1 := 4000000000, 2 := 4508512563, 100 := 1491487437)),
      mc_events := mc_events demo3 @ [PoolRemainderClaimed 0 2 508512563]\<rparr>"

lemma demo4_run:
  "claim_pool_remainder ledger_token (demo_env 1001) 0 demo3 = Inr (508512563, demo4)"
  by (simp add: demo_eval demo1_def demo2_def demo3_def demo4_def demo_inst_def demo_market_def
      demo_settle_def demo_tok_def fun_upd_twist)

definition demo5 :: "ledger mc" where
  "demo5 = demo4
     \<lparr>mc_positions := (\<lambda>_. Map.empty),
      mc_settles := [0 \<mapsto> demo_settle\<lparr>st_finalized_at := 1000, st_paid_out := 1996000000\<rparr>],
      mc_tok := demo_tok(50 := (demo_tok 50)(1 := 5487487437, 2 := 4508512563, 100 := 4000000)),
      mc_events := mc_events demo4 @ [Redeemed 0 1 1487487437]\<rparr>"

lemma demo5_run: "redeem ledger_token (demo_env 1002) 1 0 demo4 = Inr (1487487437, demo5)"
  by (simp add: demo_eval demo1_def demo2_def demo3_def demo4_def demo5_def demo_inst_def
      demo_market_def demo_settle_def demo_tok_def fun_upd_twist fun_upd_idem)

lemmas demo_states = demo0_def demo1_def demo2_def demo3_def demo4_def demo5_def demo_inst_def
  demo_market_def demo_settle_def demo_tok_def deployed_def

lemma demo_step:
  assumes "exec ledger_token no_peer (demo_env n) call c = Inr c'"
  shows "mc_step ledger_token no_peer 100 c c'"
  by (rule step_call [OF _ _ assms]) (simp_all add: demo_env_def)

lemma demo_reach:
  "mc_reachable ledger_token no_peer 100 demo0" "mc_reachable ledger_token no_peer 100 demo1"
  "mc_reachable ledger_token no_peer 100 demo2" "mc_reachable ledger_token no_peer 100 demo3"
  "mc_reachable ledger_token no_peer 100 demo4" "mc_reachable ledger_token no_peer 100 demo5"
proof -
  show 0: "mc_reachable ledger_token no_peer 100 demo0"
    by (rule reach_init [OF demo0_run]) (simp add: ledger_token_def demo_tok_def)
  show 1: "mc_reachable ledger_token no_peer 100 demo1"
    by (rule reach_step [OF 0], rule demo_step
        [of 100 "CallCreateMarket 2 [] [] [] Other 1000 1000000000 5000"])
      (simp add: demo1_run state_of_def)
  show 2: "mc_reachable ledger_token no_peer 100 demo2"
    by (rule reach_step [OF 1], rule demo_step [of 200 "CallBuy 1 0 Yes 1000000000 1"])
      (simp add: demo2_run [unfolded One_nat_def] state_of_def)
  show 3: "mc_reachable ledger_token no_peer 100 demo3"
    by (rule reach_step [OF 2], rule demo_step [of 1000 "CallResolve 0 Yes"]) (simp add: demo3_run)
  show 4: "mc_reachable ledger_token no_peer 100 demo4"
    by (rule reach_step [OF 3], rule demo_step [of 1001 "CallClaimPoolRemainder 0"])
      (simp add: demo4_run state_of_def)
  show "mc_reachable ledger_token no_peer 100 demo5"
    by (rule reach_step [OF 4], rule demo_step [of 1002 "CallRedeem 1 0"])
      (simp add: demo5_run [unfolded One_nat_def] state_of_def)
qed

end
