(* ===== verification/MarketProps.thy ===== *)
theory MarketProps
  imports MarketDemo
begin

text \<open>
  The properties of the market contract, over its reachable states and over single calls, each
  with a concrete instance from the run of \<^theory_text>\<open>MarketDemo\<close>.
\<close>

section \<open>Solvency and conservation\<close>

lemma mc_inv_below:
  assumes "mc_inv T self c" and "in_next_id (mc_inst c) = Some n" and "i < n"
  obtains m s where "mc_markets c i = Some m" "mc_settles c i = Some s"
    "market_inv m s (load_lp_fees i c) (mc_positions c i)"
proof -
  have "market_at_inv c i" using assms by (auto simp: mc_inv_def mc_inv_owing_def)
  then show ?thesis using that by (auto simp: market_at_inv_def)
qed

lemma liabilities_nonneg:
  assumes "market_inv m s lp P"
  shows "0 \<le> liabilities m s"
proof -
  note I = assms [unfolded market_inv_def]
  have "0 \<le> st_outstanding_yes s" "0 \<le> st_outstanding_no s"
    using I positions_ok_total [of P] by (cases "st_closed s"; auto)+
  then show ?thesis using I by (simp add: liabilities_def claim_value_nonneg)
qed

lemma booked_nonneg:
  assumes "market_inv m s lp P"
  shows "0 \<le> booked m s lp"
proof -
  note I = assms [unfolded market_inv_def]
  have "mk_status m = Open \<Longrightarrow> 0 \<le> mk_sets_minted m"
    using I positions_ok_total [of P] by auto
  then show ?thesis using I liabilities_nonneg [OF assms] by (auto simp: booked_def)
qed

text \<open>C1. In every state the contract can reach, its collateral balance covers what it owes on all
  markets together: the complete sets and fees of each open market, everything still claimable
  on each resolved one, nothing on closed ones.\<close>

theorem market_always_solvent:
  assumes "mc_reachable T peer self c" and "token_ok T"
    and "in_collateral (mc_inst c) = Some coll" and "in_next_id (mc_inst c) = Some n"
  shows "(\<Sum>i<n. booked_at c i) \<le> tk_balance T coll (mc_tok c) self
     \<and> (\<forall>i<n. 0 \<le> booked_at c i
          \<and> (\<exists>m s. mc_markets c i = Some m \<and> mc_settles c i = Some s
               \<and> (mk_status m \<noteq> Open \<and> \<not> st_closed s \<longrightarrow>
                    liabilities m s + mk_fees_accrued m + load_lp_fees i c \<le> booked_at c i)))"
proof -
  have inv: "mc_inv T self c" using mc_reachable_inv assms(1,2) by blast
  have "0 \<le> booked_at c i \<and> (\<exists>m s. mc_markets c i = Some m \<and> mc_settles c i = Some s
      \<and> (mk_status m \<noteq> Open \<and> \<not> st_closed s \<longrightarrow>
           liabilities m s + mk_fees_accrued m + load_lp_fees i c \<le> booked_at c i))" if "i < n" for i
    by (rule mc_inv_below [OF inv assms(4) that])
      (auto simp: booked_at_def booked_nonneg, simp add: booked_def)
  moreover have "(\<Sum>i<n. booked_at c i) \<le> tk_balance T coll (mc_tok c) self"
    using inv assms(3,4) by (auto simp: mc_inv_def mc_inv_owing_def)
  ultimately show ?thesis by blast
qed

theorem market_always_solvent_witness:
  "(\<Sum>i<1. booked_at demo3 i) \<le> tk_balance ledger_token 50 (mc_tok demo3) 100
   \<and> booked_at demo3 0 = 2000000000"
proof -
  have "(\<Sum>i<1. booked_at demo3 i) \<le> tk_balance ledger_token 50 (mc_tok demo3) 100"
    using market_always_solvent [OF demo_reach(4) token_ok_ledger, of 50 1]
    by (simp add: demo_states)
  then show ?thesis
    by (simp add: booked_at_def booked_def liabilities_def load_lp_fees_def demo_states)
qed

text \<open>C3. While a market is open, on each side the pool's reserve plus the shares in all holders'
  positions is the number of complete sets in existence, and the settlement entry counts exactly
  those positions; nothing has been paid out, and both reserves are positive.\<close>

theorem open_market_conserves_shares:
  assumes "mc_reachable T peer self c" and "token_ok T"
    and "mc_markets c i = Some m" and "mk_status m = Open"
  shows "\<exists>s. mc_settles c i = Some s
    \<and> mk_reserve_yes m + map_total ps_yes (mc_positions c i) = mk_sets_minted m
    \<and> mk_reserve_no m + map_total ps_no (mc_positions c i) = mk_sets_minted m
    \<and> st_outstanding_yes s = map_total ps_yes (mc_positions c i)
    \<and> st_outstanding_no s = map_total ps_no (mc_positions c i)
    \<and> 0 < mk_reserve_yes m \<and> 0 < mk_reserve_no m \<and> mk_sets_minted m \<le> MAX_SETS
    \<and> st_paid_out s = 0 \<and> \<not> mk_lp_claimed m"
proof -
  obtain s where "mc_settles c i = Some s" "market_inv m s (load_lp_fees i c) (mc_positions c i)"
    using mc_invD [OF mc_reachable_inv [OF assms(1,2)] assms(3)] by metis
  then show ?thesis using assms(4) unfolding market_inv_def by auto
qed

theorem open_market_conserves_shares_witness:
  "map_total ps_yes (mc_positions demo2 0) = 1487487437"
proof -
  have "mc_markets demo2 0 = Some (demo_market\<lparr>mk_reserve_yes := 502512563,
      mk_reserve_no := 1990000000, mk_sets_minted := 1990000000, mk_fees_accrued := 4000000\<rparr>)"
    by (simp add: demo2_def)
  from open_market_conserves_shares [OF demo_reach(3) token_ok_ledger this]
  show ?thesis by (auto simp: demo_market_def)
qed

section \<open>Redemption\<close>

lemma in_i128_range: "- (2 ^ 126) \<le> x \<Longrightarrow> x \<le> 2 ^ 126 \<Longrightarrow> in_i128 x"
  by (simp add: in_i128_def)

lemma market_below_balance:
  assumes inv: "mc_inv T self c" and m: "mc_markets c i = Some m" and s: "mc_settles c i = Some s"
    and fin: "mk_status m \<noteq> Open" and nc: "\<not> st_closed s"
    and coll: "in_collateral (mc_inst c) = Some coll"
  shows "liabilities m s \<le> tk_balance T coll (mc_tok c) self"
proof -
  obtain n where n: "in_next_id (mc_inst c) = Some n" "i < n"
      "market_inv m s (load_lp_fees i c) (mc_positions c i)"
      "(\<Sum>i<n. booked_at c i) \<le> tk_balance T coll (mc_tok c) self"
  proof -
    fix n
    assume *: "\<And>n. in_next_id (mc_inst c) = Some n \<Longrightarrow> i < n
      \<Longrightarrow> market_inv m s (load_lp_fees i c) (mc_positions c i)
      \<Longrightarrow> (\<Sum>i<n. booked_at c i) \<le> tk_balance T coll (mc_tok c) self \<Longrightarrow> thesis"
    show thesis by (rule mc_invD [OF inv m], rule *) (use coll s in auto)
  qed
  have nn: "0 \<le> booked_at c j" if "j < n" for j
    by (rule mc_inv_below [OF inv n(1) that]) (simp add: booked_at_def booked_nonneg)
  have "liabilities m s \<le> booked_at c i"
    using n(3) m s fin nc by (auto simp: booked_at_def booked_def market_inv_def)
  also have "\<dots> \<le> (\<Sum>j<n. booked_at c j)"
    using n(2) nn by (intro member_le_sum) auto
  finally show ?thesis using n(4) by simp
qed

lemma claim_value_le:
  assumes "0 \<le> y" "y \<le> Y" "0 \<le> n" "n \<le> N"
  shows "claim_value st y n \<le> claim_value st Y N"
proof (cases st rule: settlement_of.cases)
  case 4
  then show ?thesis using zdiv_mono1 [of "y + n" "Y + N" 2] assms by simp
qed (use assms in auto)

text \<open>C2. Every holder can redeem in full: in a resolved or voided market that has not been closed,
  the contract holds at least the value of any holder's position. When the holder authorises the call,
  it succeeds exactly when the token executes the transfer of that value from the contract to the holder
  (there is none when the value is zero) and the market's counter of payments does not overflow; it then
  returns the value, has made that transfer, has cleared the position and counted the payment.\<close>

theorem redeem_pays_in_full:
  assumes "mc_reachable T peer self c" and "token_ok T"
    and m: "mc_markets c i = Some m" and s: "mc_settles c i = Some s"
    and fin: "mk_status m \<noteq> Open" and nc: "\<not> st_closed s"
    and pos: "p = load_position i h c" "ps_yes p \<noteq> 0 \<or> ps_no p \<noteq> 0"
    and E: "e_self E = self" "e_auth E h"
    and tok: "in_collateral (mc_inst c) = Some coll"
    and val: "v = claim_value (mk_status m) (ps_yes p) (ps_no p)"
  shows "0 \<le> v \<and> v \<le> tk_balance T coll (mc_tok c) self
    \<and> (redeem T E h i c = Inr (paid, c') \<longleftrightarrow>
        paid = v \<and> in_i128 (st_paid_out s + v)
        \<and> (\<exists>t. (if 0 < v then tk_transfer T coll self h v (mc_tok c) = Some t else t = mc_tok c)
             \<and> c' = publish (Redeemed i h v) ((save_settle i
                  (s\<lparr>st_outstanding_yes := st_outstanding_yes s - ps_yes p,
                     st_outstanding_no := st_outstanding_no s - ps_no p, st_paid_out := st_paid_out s + v\<rparr>)
                  (save_position i h \<lparr>ps_yes = 0, ps_no = 0\<rparr> c))\<lparr>mc_tok := t\<rparr>)))"
proof -
  have inv: "mc_inv T self c" using mc_reachable_inv assms(1,2) by blast
  have I: "market_inv m s (load_lp_fees i c) (mc_positions c i)"
    using mc_invD [OF inv m] s by (metis option.inject)
  note I = I [unfolded market_inv_def]
  have pok: "positions_ok (mc_positions c i)" using I by simp
  have nn: "0 \<le> ps_yes p" "0 \<le> ps_no p" using positions_ok_nonneg [OF pok, of h] pos(1) by auto
  have le: "ps_yes p \<le> st_outstanding_yes s" "ps_no p \<le> st_outstanding_no s"
    using position_le_total [OF pok, of h] I nc pos(1) by auto
  have out: "0 \<le> st_outstanding_yes s" "0 \<le> st_outstanding_no s"
      "st_outstanding_yes s \<le> MAX_SETS" "st_outstanding_no s \<le> MAX_SETS"
    using le nn I nc by auto
  have v0: "0 \<le> v" using nn by (simp add: val claim_value_nonneg)
  have big: "MAX_SETS = 1000000000000000000" by (simp add: MAX_SETS_def)
  have "\<exists>kind. market_settlement m = Inr kind \<and> settle_value kind (ps_yes p) (ps_no p) = (Inr v :: int mc_res)"
    using fin nn le out unfolding market_settlement_def val
    by (cases "mk_status m" rule: settlement_of.cases)
      (auto simp: add_i128_Inr div_i128_eq sdiv_nonneg in_i128_def big)
  then obtain kind where kind: "market_settlement m = Inr kind"
      "settle_value kind (ps_yes p) (ps_no p) = (Inr v :: int mc_res)" by blast
  define s' where "s' = s\<lparr>st_outstanding_yes := st_outstanding_yes s - ps_yes p,
      st_outstanding_no := st_outstanding_no s - ps_no p, st_paid_out := st_paid_out s + v\<rparr>"
  define c1 where "c1 = save_settle i s' (save_position i h \<lparr>ps_yes = 0, ps_no = 0\<rparr> c)"
  have "in_i128 (st_outstanding_yes s - ps_yes p)" "in_i128 (st_outstanding_no s - ps_no p)"
    using nn le out by (auto intro!: in_i128_range simp: big)
  then have "settle_redeem p v s = (if in_i128 (st_paid_out s + v) then Inr s' else Inl (Err McOverflow))"
    by (simp add: settle_redeem_def s'_def checked_sub_def checked_add_def checked_i128_def)
  then have booked: "on_settle i (settle_redeem p v) (save_position i h \<lparr>ps_yes = 0, ps_no = 0\<rparr> c)
      = (if in_i128 (st_paid_out s + v) then Inr c1 else Inl (Err McOverflow))"
    using s by (simp add: on_settle_def c1_def save_position_def)
  have "in_collateral (mc_inst c1) = Some coll" "mc_tok c1 = mc_tok c" using tok by (simp_all add: c1_def store_defs)
  then have pay: "pay_out T E h v c1 = Inr c2 \<longleftrightarrow>
      (\<exists>t. (if 0 < v then tk_transfer T coll self h v (mc_tok c) = Some t else t = mc_tok c) \<and> c2 = c1\<lparr>mc_tok := t\<rparr>)" for c2
    using E(1) by (auto simp: pay_out_def token_transfer_eq)
  have "\<not> settle_closed i c" using s nc by (simp add: settle_closed_def)
  then have "redeem T E h i c = Inr (paid, c') \<longleftrightarrow> paid = v \<and> in_i128 (st_paid_out s + v)
      \<and> (\<exists>c2. pay_out T E h v c1 = Inr c2 \<and> c' = publish (Redeemed i h v) c2)"
    using m kind booked pos(2) E(2)
    by (auto simp: redeem_def load_market_def require_auth_def assert_not_closed_def Let_def
        pos(1) [symmetric] res_simps)
  moreover have "v \<le> liabilities m s"
    using claim_value_le [OF nn(1) le(1) nn(2) le(2), of "mk_status m"] I
    by (simp add: liabilities_def val claim_value_nonneg add_increasing2)
  then have "v \<le> tk_balance T coll (mc_tok c) self"
    using market_below_balance [OF inv m s fin nc tok] by simp
  moreover have "(\<exists>c2. pay_out T E h v c1 = Inr c2 \<and> c' = publish (Redeemed i h v) c2) \<longleftrightarrow>
      (\<exists>t. (if 0 < v then tk_transfer T coll self h v (mc_tok c) = Some t else t = mc_tok c)
         \<and> c' = publish (Redeemed i h v) (c1\<lparr>mc_tok := t\<rparr>))"
    unfolding pay by blast
  ultimately show ?thesis using v0 unfolding c1_def s'_def by simp
qed

theorem redeem_pays_in_full_witness:
  "1487487437 \<le> tk_balance ledger_token 50 (mc_tok demo4) 100
     \<and> (\<exists>c'. redeem ledger_token (demo_env 1002) 1 0 demo4 = Inr (1487487437, c')
          \<and> tk_transfer ledger_token 50 100 1 1487487437 (mc_tok demo4) = Some (mc_tok c'))"
proof -
  define m where "m = demo_market\<lparr>mk_reserve_yes := 0, mk_reserve_no := 0,
          mk_sets_minted := 1990000000, mk_fees_accrued := 4000000, mk_status := Resolved Yes,
          mk_lp_claimed := True\<rparr>"
  define s where "s = demo_settle\<lparr>st_outstanding_yes := 1487487437, st_finalized_at := 1000,
          st_paid_out := 508512563\<rparr>"
  have "mc_markets demo4 0 = Some m" "mc_settles demo4 0 = Some s" "in_collateral (mc_inst demo4) = Some 50"
    "load_position 0 1 demo4 = \<lparr>ps_yes = 1487487437, ps_no = 0\<rparr>"
    by (simp_all add: demo4_def demo3_def demo2_def demo1_def demo_inst_def load_position_def m_def s_def)
  note claim = redeem_pays_in_full [OF demo_reach(5) token_ok_ledger this(1,2) _ _ this(4) [symmetric] _ _ _ this(3) refl,
      of "demo_env 1002" 1487487437 demo5]
  have "mk_status m = Resolved Yes" "\<not> st_closed s" by (simp_all add: m_def s_def demo_settle_def)
  with claim demo5_run have "1487487437 \<le> tk_balance ledger_token 50 (mc_tok demo4) 100
      \<and> (\<exists>t. tk_transfer ledger_token 50 100 1 1487487437 (mc_tok demo4) = Some t
        \<and> (\<exists>d. demo5 = publish (Redeemed 0 1 1487487437) (d\<lparr>mc_tok := t\<rparr>)))"
    by (simp add: demo_env_def) blast
  then obtain t where t: "tk_transfer ledger_token 50 100 1 1487487437 (mc_tok demo4) = Some t"
      "\<exists>d. demo5 = publish (Redeemed 0 1 1487487437) (d\<lparr>mc_tok := t\<rparr>)"
    and "1487487437 \<le> tk_balance ledger_token 50 (mc_tok demo4) 100"
    by blast
  moreover from t(2) obtain d where d: "demo5 = publish (Redeemed 0 1 1487487437) (d\<lparr>mc_tok := t\<rparr>)" by blast
  have "mc_tok demo5 = t" unfolding d by (simp add: publish_def)
  ultimately show ?thesis using demo5_run by auto
qed

end
