(* ===== verification/MarketTrace.thy ===== *)
theory MarketTrace
  imports MarketSteps
begin

text \<open>
  What a call can do to one market: \<open>market_step\<close> is the life of a market and its settlement
  entry as a transition relation, and every successful call of the contract takes each existing
  market along it (\<open>exec_advances\<close>) without touching its fee terms and breakers.
\<close>

inductive market_step ::
    "env \<Rightarrow> mc_instance \<Rightarrow> market \<times> settle_state \<Rightarrow> market \<times> settle_state \<Rightarrow> bool"
  for E I where
  ms_buy: "in_paused I = Some False \<Longrightarrow> mk_status m = Open \<Longrightarrow> e_now E < mk_close_time m
     \<Longrightarrow> reserves_for m oc = (rb, ro) \<Longrightarrow> calc_buy rb ro cin (mk_fee_bps m) = Inr q
     \<Longrightarrow> 0 \<le> prot \<Longrightarrow> prot \<le> bq_fee q
     \<Longrightarrow> market_step E I (m, s)
           ((set_reserves m oc (bq_new_reserve_bought q) (bq_new_reserve_other q))
              \<lparr>mk_sets_minted := mk_sets_minted m + bq_net q,
               mk_fees_accrued := mk_fees_accrued m + prot\<rparr>,
            s\<lparr>st_outstanding_yes := st_outstanding_yes s + (if oc = Yes then bq_shares_out q else 0),
              st_outstanding_no := st_outstanding_no s + (if oc = No then bq_shares_out q else 0)\<rparr>)"
| ms_sell: "in_paused I = Some False \<Longrightarrow> mk_status m = Open \<Longrightarrow> e_now E < mk_close_time m
     \<Longrightarrow> reserves_for m oc = (rs, ro) \<Longrightarrow> calc_sell rs ro cout (mk_fee_bps m) = Inr q
     \<Longrightarrow> 0 \<le> prot \<Longrightarrow> prot \<le> sq_fee q
     \<Longrightarrow> market_step E I (m, s)
           ((set_reserves m oc (sq_new_reserve_sold q) (sq_new_reserve_other q))
              \<lparr>mk_sets_minted := mk_sets_minted m - sq_gross q,
               mk_fees_accrued := mk_fees_accrued m + prot\<rparr>,
            s\<lparr>st_outstanding_yes := st_outstanding_yes s - (if oc = Yes then sq_shares_in q else 0),
              st_outstanding_no := st_outstanding_no s - (if oc = No then sq_shares_in q else 0)\<rparr>)"
| ms_final: "in_resolver I = Some a \<Longrightarrow> e_auth E a \<Longrightarrow> mk_status m = Open
     \<Longrightarrow> st = Void \<or> (\<exists>oc. st = Resolved oc) \<and> mk_close_time m \<le> e_now E
     \<Longrightarrow> market_step E I (m, s) (m\<lparr>mk_status := st\<rparr>, s\<lparr>st_finalized_at := e_now E\<rparr>)"
| ms_redeem: "mk_status m \<noteq> Open \<Longrightarrow> \<not> st_closed s \<Longrightarrow> 0 \<le> y \<Longrightarrow> 0 \<le> n \<Longrightarrow> v = claim_value (mk_status m) y n
     \<Longrightarrow> market_step E I (m, s)
           (m, s\<lparr>st_outstanding_yes := st_outstanding_yes s - y,
                 st_outstanding_no := st_outstanding_no s - n, st_paid_out := st_paid_out s + v\<rparr>)"
| ms_claim: "mk_status m \<noteq> Open \<Longrightarrow> \<not> st_closed s \<Longrightarrow> \<not> mk_lp_claimed m \<Longrightarrow> e_auth E (mk_creator m) \<Longrightarrow> 0 \<le> v
     \<Longrightarrow> market_step E I (m, s)
           (m\<lparr>mk_reserve_yes := 0, mk_reserve_no := 0, mk_lp_claimed := True\<rparr>,
            s\<lparr>st_paid_out := st_paid_out s + v\<rparr>)"
| ms_close: "mk_status m \<noteq> Open \<Longrightarrow> \<not> st_closed s
     \<Longrightarrow> sat_add_u64 (st_finalized_at s) (st_horizon_secs s) \<le> e_now E
     \<Longrightarrow> 0 \<le> mk_sets_minted m - st_paid_out s + mk_fees_accrued m + lp \<Longrightarrow> mk_lp_claimed m \<longrightarrow> lp = 0
     \<Longrightarrow> market_step E I (m, s)
           (m\<lparr>mk_reserve_yes := 0, mk_reserve_no := 0, mk_lp_claimed := True, mk_fees_accrued := 0\<rparr>,
            s\<lparr>st_outstanding_yes := 0, st_outstanding_no := 0, st_closed := True\<rparr>)"
| ms_sweep: "market_step E I (m, s) (m\<lparr>mk_fees_accrued := 0\<rparr>, s)"
| ms_lp: "e_auth E (mk_creator m) \<Longrightarrow> \<not> mk_lp_claimed m
     \<Longrightarrow> market_step E I (m, s) (m\<lparr>mk_creator := h\<rparr>, s)"

inductive_cases market_stepE: "market_step E I (m, s) (m', s')"

definition advances :: "env \<Rightarrow> 't mc \<Rightarrow> 't mc \<Rightarrow> bool" where
  "advances E c c' \<longleftrightarrow> (\<forall>j m s. mc_markets c j = Some m \<longrightarrow> mc_settles c j = Some s \<longrightarrow>
     (\<exists>m' s'. mc_markets c' j = Some m' \<and> mc_settles c' j = Some s'
        \<and> (market_step E (mc_inst c))\<^sup>*\<^sup>* (m, s) (m', s')
        \<and> mc_fee_terms c' j = mc_fee_terms c j \<and> mc_breakers c' j = mc_breakers c j))"

lemma advances_same:
  "mc_markets c' = mc_markets c \<Longrightarrow> mc_settles c' = mc_settles c
    \<Longrightarrow> mc_fee_terms c' = mc_fee_terms c \<Longrightarrow> mc_breakers c' = mc_breakers c \<Longrightarrow> advances E c c'"
  by (simp add: advances_def)

lemma advances_one:
  assumes "mc_markets c i = Some m" and "mc_settles c i = Some s"
    and "mc_markets c' = (mc_markets c)(i \<mapsto> m')" and "mc_settles c' = (mc_settles c)(i \<mapsto> s')"
    and "mc_fee_terms c' = mc_fee_terms c" and "mc_breakers c' = mc_breakers c"
    and "market_step E (mc_inst c) (m, s) (m', s')"
  shows "advances E c c'"
  using assms by (auto simp: advances_def)

lemma advances_trans:
  assumes "advances E c d" and "advances E d e" and "mc_inst d = mc_inst c"
  shows "advances E c e"
  unfolding advances_def
proof (intro allI impI)
  fix j m s
  assume "mc_markets c j = Some m" "mc_settles c j = Some s"
  then obtain m1 s1 where 1: "mc_markets d j = Some m1" "mc_settles d j = Some s1"
      "(market_step E (mc_inst c))\<^sup>*\<^sup>* (m, s) (m1, s1)" "mc_fee_terms d j = mc_fee_terms c j"
      "mc_breakers d j = mc_breakers c j"
    using assms(1) unfolding advances_def by blast
  then obtain m2 s2 where "mc_markets e j = Some m2" "mc_settles e j = Some s2"
      "(market_step E (mc_inst c))\<^sup>*\<^sup>* (m1, s1) (m2, s2)" "mc_fee_terms e j = mc_fee_terms d j"
      "mc_breakers e j = mc_breakers d j"
    using assms(2,3) unfolding advances_def by metis
  with 1 show "\<exists>m' s'. mc_markets e j = Some m' \<and> mc_settles e j = Some s'
      \<and> (market_step E (mc_inst c))\<^sup>*\<^sup>* (m, s) (m', s')
      \<and> mc_fee_terms e j = mc_fee_terms c j \<and> mc_breakers e j = mc_breakers c j"
    by (metis rtranclp_trans)
qed

section \<open>The entry points\<close>

text \<open>\<open>settled c\<close>: every market has its settlement entry and no negative amounts, as all created
  markets do.\<close>

definition settled :: "'t mc \<Rightarrow> bool" where
  "settled c \<longleftrightarrow> (\<forall>i m. mc_markets c i = Some m \<longrightarrow> (\<exists>s. mc_settles c i = Some s)
     \<and> positions_ok (mc_positions c i) \<and> 0 \<le> mk_reserve_yes m \<and> 0 \<le> mk_reserve_no m \<and> 0 \<le> load_lp_fees i c
     \<and> (mk_lp_claimed m \<longrightarrow> load_lp_fees i c = 0))"

lemma settled_inv: "mc_inv_owing k T self c \<Longrightarrow> settled c"
  unfolding settled_def
proof (intro allI impI)
  fix i m
  assume "mc_inv_owing k T self c" "mc_markets c i = Some m"
  then obtain s where "mc_settles c i = Some s" "market_inv m s (load_lp_fees i c) (mc_positions c i)"
    by (metis mc_inv_owingD)
  then show "(\<exists>s. mc_settles c i = Some s) \<and> positions_ok (mc_positions c i) \<and> 0 \<le> mk_reserve_yes m
      \<and> 0 \<le> mk_reserve_no m \<and> 0 \<le> load_lp_fees i c \<and> (mk_lp_claimed m \<longrightarrow> load_lp_fees i c = 0)"
    by (simp add: market_inv_def)
qed

lemma do_buy_advances:
  assumes "settled c" and "do_buy T E h i oc cin mo lim c = Inr (n, c')"
  shows "advances E c c'"
  using assms(2)
proof (rule do_buy_ok)
  fix m rb ro q prot lp p' coll
  assume a: "mc_markets c i = Some m" "mk_status m = Open" "e_now E < mk_close_time m"
    "in_paused (mc_inst c) = Some False" "reserves_for m oc = (rb, ro)"
    "calc_buy rb ro cin (mk_fee_bps m) = Inr q" "n = bq_shares_out q"
    "0 \<le> prot" "0 \<le> lp" "prot + lp = bq_fee q"
    and t: "traded i h ((set_reserves m oc (bq_new_reserve_bought q) (bq_new_reserve_other q))
         \<lparr>mk_sets_minted := mk_sets_minted m + bq_net q,
          mk_fees_accrued := mk_fees_accrued m + prot\<rparr>) p' lp
       (\<lambda>s. s\<lparr>st_outstanding_yes := st_outstanding_yes s + (if oc = Yes then n else 0),
             st_outstanding_no := st_outstanding_no s + (if oc = No then n else 0)\<rparr>) c c'"
  obtain s where s: "mc_settles c i = Some s" using assms(1) a(1) by (auto simp: settled_def)
  have step: "market_step E (mc_inst c) (m, s)
      ((set_reserves m oc (bq_new_reserve_bought q) (bq_new_reserve_other q))
         \<lparr>mk_sets_minted := mk_sets_minted m + bq_net q, mk_fees_accrued := mk_fees_accrued m + prot\<rparr>,
       s\<lparr>st_outstanding_yes := st_outstanding_yes s + (if oc = Yes then bq_shares_out q else 0),
         st_outstanding_no := st_outstanding_no s + (if oc = No then bq_shares_out q else 0)\<rparr>)"
    by (rule ms_buy [OF a(4,2,3,5,6)]) (use a in simp_all)
  show ?thesis
    by (rule advances_one [OF a(1) s _ _ _ _ step]) (use t s a(7) in \<open>simp_all add: traded_def\<close>)
qed

lemma do_sell_advances:
  assumes "settled c" and "do_sell T E h i oc cout mx lim c = Inr (n, c')"
  shows "advances E c c'"
  using assms(2)
proof (rule do_sell_ok)
  fix m rs ro q prot lp p' coll
  assume a: "mc_markets c i = Some m" "mk_status m = Open" "e_now E < mk_close_time m"
    "in_paused (mc_inst c) = Some False" "reserves_for m oc = (rs, ro)"
    "calc_sell rs ro cout (mk_fee_bps m) = Inr q" "n = sq_shares_in q"
    "0 \<le> prot" "0 \<le> lp" "prot + lp = sq_fee q"
    and t: "traded i h ((set_reserves m oc (sq_new_reserve_sold q) (sq_new_reserve_other q))
         \<lparr>mk_sets_minted := mk_sets_minted m - sq_gross q,
          mk_fees_accrued := mk_fees_accrued m + prot\<rparr>) p' lp
       (\<lambda>s. s\<lparr>st_outstanding_yes := st_outstanding_yes s - (if oc = Yes then n else 0),
             st_outstanding_no := st_outstanding_no s - (if oc = No then n else 0)\<rparr>) c c'"
  obtain s where s: "mc_settles c i = Some s" using assms(1) a(1) by (auto simp: settled_def)
  have step: "market_step E (mc_inst c) (m, s)
      ((set_reserves m oc (sq_new_reserve_sold q) (sq_new_reserve_other q))
         \<lparr>mk_sets_minted := mk_sets_minted m - sq_gross q, mk_fees_accrued := mk_fees_accrued m + prot\<rparr>,
       s\<lparr>st_outstanding_yes := st_outstanding_yes s - (if oc = Yes then sq_shares_in q else 0),
         st_outstanding_no := st_outstanding_no s - (if oc = No then sq_shares_in q else 0)\<rparr>)"
    by (rule ms_sell [OF a(4,2,3,5,6)]) (use a in simp_all)
  show ?thesis
    by (rule advances_one [OF a(1) s _ _ _ _ step]) (use t s a(7) in \<open>simp_all add: traded_def\<close>)
qed

lemma redeem_effect_advances:
  assumes st: "settled c" and m: "mc_markets c i = Some m" and kind: "market_settlement m = Inr kind"
    and nc: "\<not> settle_closed i c" and pos: "pos = load_position i h c"
    and v: "settle_value kind (ps_yes pos) (ps_no pos) = (Inr v :: int mc_res)"
    and c1: "on_settle i (settle_redeem pos v) (save_position i h \<lparr>ps_yes = 0, ps_no = 0\<rparr> c) = Inr c1"
  shows "advances E c c1" and "settled c1" and "mc_inst c1 = mc_inst c"
proof -
  obtain s where s: "mc_settles c i = Some s" using st m by (auto simp: settled_def)
  have pok: "positions_ok (mc_positions c i)" using st m by (auto simp: settled_def)
  have nn: "0 \<le> ps_yes pos" "0 \<le> ps_no pos" using positions_ok_nonneg [OF pok, of h] pos by simp_all
  have e: "c1 = save_settle i (s\<lparr>st_outstanding_yes := st_outstanding_yes s - ps_yes pos,
      st_outstanding_no := st_outstanding_no s - ps_no pos, st_paid_out := st_paid_out s + v\<rparr>)
      (save_position i h \<lparr>ps_yes = 0, ps_no = 0\<rparr> c)"
    using on_settle_ok [OF c1] s settle_redeem_ok by (fastforce simp: save_position_def)
  have so: "settlement_of (mk_status m) = Inr kind" using kind by (simp add: market_settlement_def)
  have "\<not> st_closed s" using nc s by (simp add: settle_closed_def)
  then show "advances E c c1"
    by (intro advances_one [OF m s _ _ _ _ ms_redeem [OF settlement_final [OF so] _ nn settlement_value [OF so nn v]]])
      (use m in \<open>auto simp: e store_defs\<close>)
  show "settled c1"
    using st pok positions_ok_upd [OF pok, of "\<lparr>ps_yes = 0, ps_no = 0\<rparr>" h]
    by (auto simp: e settled_def save_position_map save_settle_def save_position_def pos_entry_def load_lp_fees_def)
  show "mc_inst c1 = mc_inst c" by (simp add: e store_defs)
qed

lemma claim_effect_advances:
  assumes st: "settled c" and m: "mc_markets c i = Some m" and kind: "market_settlement m = Inr kind"
    and nc: "\<not> settle_closed i c" and nl: "\<not> mk_lp_claimed m" and auth: "e_auth E (mk_creator m)"
    and pv: "settle_value kind (mk_reserve_yes m) (mk_reserve_no m) = (Inr pv :: int mc_res)" "v = pv + load_lp_fees i c"
    and c1: "on_settle i (settle_pay v) (save_market i
         (m\<lparr>mk_reserve_yes := 0, mk_reserve_no := 0, mk_lp_claimed := True\<rparr>) (save_lp_fees i 0 c)) = Inr c1"
  shows "advances E c c1" and "settled c1" and "mc_inst c1 = mc_inst c"
proof -
  obtain s where s: "mc_settles c i = Some s" using st m by (auto simp: settled_def)
  have nn: "0 \<le> mk_reserve_yes m" "0 \<le> mk_reserve_no m" "0 \<le> load_lp_fees i c"
    using st m by (auto simp: settled_def)
  have e: "c1 = save_settle i (s\<lparr>st_paid_out := st_paid_out s + v\<rparr>) (save_market i
         (m\<lparr>mk_reserve_yes := 0, mk_reserve_no := 0, mk_lp_claimed := True\<rparr>) (save_lp_fees i 0 c))"
    using on_settle_ok [OF c1] s settle_pay_ok by (fastforce simp: save_market_def save_lp_fees_def)
  have so: "settlement_of (mk_status m) = Inr kind" using kind by (simp add: market_settlement_def)
  have "0 \<le> v" using settlement_value [OF so nn(1,2) pv(1)] nn by (simp add: pv(2) claim_value_nonneg)
  moreover have "\<not> st_closed s" using nc s by (simp add: settle_closed_def)
  ultimately show "advances E c c1"
    by (intro advances_one [OF m s _ _ _ _ ms_claim [OF settlement_final [OF so] _ nl auth]])
      (auto simp: e store_defs)
  have "positions_ok (mc_positions c i)" using st m by (auto simp: settled_def)
  then show "settled c1" "mc_inst c1 = mc_inst c"
    using st by (auto simp: e store_defs settled_def load_lp_fees_def)
qed

text \<open>Events, and the token's state, do not matter.\<close>

lemma advances_cong:
  assumes "advances E c d" and "mc_markets e = mc_markets d" and "mc_settles e = mc_settles d"
    and "mc_fee_terms e = mc_fee_terms d" and "mc_breakers e = mc_breakers d"
  shows "advances E c e"
  using assms by (simp add: advances_def)

lemma pay_out_same:
  assumes "pay_out T E h v c = Inr c'"
  shows "mc_markets c' = mc_markets c" "mc_settles c' = mc_settles c"
    "mc_fee_terms c' = mc_fee_terms c" "mc_breakers c' = mc_breakers c" "mc_inst c' = mc_inst c"
    "mc_positions c' = mc_positions c" "mc_lp_fees c' = mc_lp_fees c"
  using assms by (auto simp: pay_out_def token_transfer_eq split: if_splits)

lemma publish_same [simp]:
  "mc_markets (publish ev c) = mc_markets c" "mc_settles (publish ev c) = mc_settles c"
  "mc_fee_terms (publish ev c) = mc_fee_terms c" "mc_breakers (publish ev c) = mc_breakers c"
  "mc_inst (publish ev c) = mc_inst c" "mc_positions (publish ev c) = mc_positions c"
  "mc_lp_fees (publish ev c) = mc_lp_fees c"
  by (simp_all add: publish_def)

lemma settled_cong:
  "mc_markets d = mc_markets c \<Longrightarrow> mc_settles d = mc_settles c \<Longrightarrow> mc_positions d = mc_positions c
    \<Longrightarrow> mc_lp_fees d = mc_lp_fees c \<Longrightarrow> settled d = settled c"
  by (simp add: settled_def load_lp_fees_def)

lemma redeem_advances:
  assumes "settled c" and "redeem T E h i c = Inr (v, c')"
  shows "advances E c c'"
  using assms(2)
proof (rule redeem_ok)
  fix m kind c1 c2
  assume "mc_markets c i = Some m" "market_settlement m = Inr kind" "\<not> settle_closed i c"
    "settle_value kind (ps_yes (load_position i h c)) (ps_no (load_position i h c)) = (Inr v :: int mc_res)"
    "on_settle i (settle_redeem (load_position i h c) v)
        (save_position i h \<lparr>ps_yes = 0, ps_no = 0\<rparr> c) = Inr c1"
    and p: "pay_out T E h v c1 = Inr c2" "c' = publish (Redeemed i h v) c2"
  note a = redeem_effect_advances(1) [OF assms(1) this(1-3) refl this(4,5), of E]
  show ?thesis by (rule advances_cong [OF a]) (simp_all add: p(2) pay_out_same [OF p(1)])
qed

lemma claim_pool_remainder_advances:
  assumes "settled c" and "claim_pool_remainder T E i c = Inr (v, c')"
  shows "advances E c c'"
  using assms(2)
proof (rule claim_pool_remainder_ok)
  fix m kind pv c1 c2
  assume "mc_markets c i = Some m" "e_auth E (mk_creator m)" "market_settlement m = Inr kind"
    "\<not> settle_closed i c" "\<not> mk_lp_claimed m"
    "settle_value kind (mk_reserve_yes m) (mk_reserve_no m) = (Inr pv :: int mc_res)" "v = pv + load_lp_fees i c"
    "on_settle i (settle_pay v) (save_market i
         (m\<lparr>mk_reserve_yes := 0, mk_reserve_no := 0, mk_lp_claimed := True\<rparr>) (save_lp_fees i 0 c)) = Inr c1"
    and p: "pay_out T E (mk_creator m) v c1 = Inr c2"
    "c' = publish (PoolRemainderClaimed i (mk_creator m) v) c2"
  note a = claim_effect_advances(1) [OF assms(1) this(1,3,4,5,2,6,7,8)]
  show ?thesis by (rule advances_cong [OF a]) (simp_all add: p(2) pay_out_same [OF p(1)])
qed

lemma redeem_one_cases:
  assumes "redeem_one h i c = Inr (item, c')"
  obtains "bi_status item \<noteq> Settled" "bi_payout item = 0" "bi_market_id item = i" "c' = c"
  | m kind v c1 where "mc_markets c i = Some m" "market_settlement m = Inr kind"
    "\<not> settle_closed i c"
    "\<not> (ps_yes (load_position i h c) = 0 \<and> ps_no (load_position i h c) = 0)"
    "settle_value kind (ps_yes (load_position i h c)) (ps_no (load_position i h c)) = (Inr v :: int mc_res)"
    "on_settle i (settle_redeem (load_position i h c) v)
        (save_position i h \<lparr>ps_yes = 0, ps_no = 0\<rparr> c) = Inr c1"
    "item = \<lparr>bi_market_id = i, bi_payout = v, bi_status = Settled\<rparr>"
    "c' = publish (Redeemed i h v) c1"
  using assms unfolding redeem_one_def batch_skip_def
  by (auto simp: Let_def res_simps split: option.splits sum.splits if_splits)

lemma claim_one_cases:
  assumes "claim_one h i c = Inr (item, c')"
  obtains "bi_status item \<noteq> Settled" "bi_payout item = 0" "bi_market_id item = i" "c' = c"
  | m kind pv v c1 where "mc_markets c i = Some m" "mk_creator m = h"
    "market_settlement m = Inr kind" "\<not> settle_closed i c" "\<not> mk_lp_claimed m"
    "settle_value kind (mk_reserve_yes m) (mk_reserve_no m) = (Inr pv :: int mc_res)"
    "v = pv + load_lp_fees i c"
    "on_settle i (settle_pay v) (save_market i
         (m\<lparr>mk_reserve_yes := 0, mk_reserve_no := 0, mk_lp_claimed := True\<rparr>) (save_lp_fees i 0 c)) = Inr c1"
    "item = \<lparr>bi_market_id = i, bi_payout = v, bi_status = Settled\<rparr>"
    "c' = publish (PoolRemainderClaimed i h v) c1"
proof (cases "mc_markets c i")
  case None
  then show ?thesis using assms that(1) by (auto simp: claim_one_def batch_skip_def)
next
  case (Some m)
  show ?thesis
  proof (cases "mk_creator m = h \<and> (\<exists>kind. market_settlement m = Inr kind)
      \<and> \<not> mk_lp_claimed m \<and> \<not> settle_closed i c")
    case True
    then obtain kind where 1: "mk_creator m = h" "market_settlement m = Inr kind"
        "\<not> mk_lp_claimed m" "\<not> settle_closed i c" by blast
    then obtain pv c1 where
      "settle_value kind (mk_reserve_yes m) (mk_reserve_no m) = (Inr pv :: int mc_res)"
      "on_settle i (settle_pay (pv + load_lp_fees i c)) (save_market i
         (m\<lparr>mk_reserve_yes := 0, mk_reserve_no := 0, mk_lp_claimed := True\<rparr>) (save_lp_fees i 0 c)) = Inr c1"
      "item = \<lparr>bi_market_id = i, bi_payout = pv + load_lp_fees i c, bi_status = Settled\<rparr>"
      "c' = publish (PoolRemainderClaimed i h (pv + load_lp_fees i c)) c1"
      using assms Some by (auto simp: claim_one_def Let_def res_simps int_ops)
    then show ?thesis using that(2) [OF Some 1(1,2,4,3)] by blast
  next
    case False
    then show ?thesis
      using assms Some that(1)
      by (cases "market_settlement m") (auto simp: claim_one_def batch_skip_def split: if_splits)
  qed
qed

lemma redeem_one_advances:
  assumes "settled c" and "redeem_one h i c = Inr (item, c')"
  shows "advances E c c' \<and> settled c' \<and> mc_inst c' = mc_inst c"
  using assms(2)
proof (cases rule: redeem_one_cases)
  case 1
  then show ?thesis using assms(1) by (simp add: advances_same)
next
  case (2 m kind v c1)
  note a = redeem_effect_advances [OF assms(1) 2(1,2,3) refl 2(5,6)]
  have "advances E c c'" by (rule advances_cong [OF a(1)]) (simp_all add: 2(8))
  then show ?thesis using a(2,3) settled_cong [of c' c1] by (simp add: 2(8))
qed

lemma claim_one_advances:
  assumes "settled c" and "claim_one h i c = Inr (item, c')" and "e_auth E h"
  shows "advances E c c' \<and> settled c' \<and> mc_inst c' = mc_inst c"
  using assms(2)
proof (cases rule: claim_one_cases)
  case 1
  then show ?thesis using assms(1) by (simp add: advances_same)
next
  case (2 m kind pv v c1)
  have auth: "e_auth E (mk_creator m)" using assms(3) 2(2) by simp
  note a = claim_effect_advances [OF assms(1) 2(1,3,4,5) auth 2(6,7,8)]
  have "advances E c c'" by (rule advances_cong [OF a(1)]) (simp_all add: 2(10))
  then show ?thesis using a(2,3) settled_cong [of c' c1] by (simp add: 2(10))
qed

lemma batch_loop_advances:
  assumes one: "\<And>i c item c'. settled c \<Longrightarrow> one i c = Inr (item, c') \<Longrightarrow>
       advances E c c' \<and> settled c' \<and> mc_inst c' = mc_inst c"
    and "settled c" and "batch_loop one ids tot items c = Inr (r, c')"
  shows "advances E c c' \<and> mc_inst c' = mc_inst c"
  using assms(2,3)
proof (induction ids arbitrary: tot items c)
  case Nil
  then show ?case by (simp add: advances_same)
next
  case (Cons i ids)
  then obtain item d where d: "one i c = Inr (item, d)"
    by (auto simp: res_simps)
  with Cons.prems(2) obtain tot' where
      rest: "batch_loop one ids tot' (items @ [item]) d = Inr (r, c')"
    by (auto simp: res_simps split: if_splits)
  have 1: "advances E c d" "settled d" "mc_inst d = mc_inst c"
    using one [OF Cons.prems(1) d] by auto
  have "advances E d c' \<and> mc_inst c' = mc_inst d" by (rule Cons.IH [OF 1(2) rest])
  then show ?case using 1 advances_trans by fastforce
qed

lemma settle_batch_advances:
  assumes one: "\<And>i c item c'. settled c \<Longrightarrow> one i c = Inr (item, c') \<Longrightarrow> e_auth E h \<Longrightarrow>
       advances E c c' \<and> settled c' \<and> mc_inst c' = mc_inst c"
    and st: "settled c" and b: "settle_batch one T E h ids c = Inr (r, c')"
  shows "advances E c c'" and "mc_inst c' = mc_inst c"
proof -
  obtain x c1 where l: "batch_loop one ids 0 [] c = Inr (x, c1)" and auth: "e_auth E h"
    and p: "\<exists>v. pay_out T E h v c1 = Inr c'"
    using b by (auto simp: settle_batch_def res_simps int_ops split: prod.splits)
  have "advances E c c1 \<and> mc_inst c1 = mc_inst c"
    by (rule batch_loop_advances [OF _ st l]) (use one auth in blast)
  then show "advances E c c'" "mc_inst c' = mc_inst c"
    using p by (auto intro: advances_cong simp: pay_out_same)
qed

lemma finalize_market_advances:
  assumes "settled c" and "token_ok T" and "finalize_market T E i c = Inr (v, c')"
  shows "advances E c c'"
  using assms(3)
proof (rule finalize_market_ok)
  fix m s kind unclaimed lp_claim coll treasury t
  assume a: "mc_markets c i = Some m" "market_settlement m = Inr kind" "mc_settles c i = Some s"
      "\<not> st_closed s" "sat_add_u64 (st_finalized_at s) (st_horizon_secs s) \<le> e_now E"
      "v = mk_sets_minted m - st_paid_out s + mk_fees_accrued m + load_lp_fees i c"
      "tk_transfer T coll (e_self E) treasury v (mc_tok c) = Some t"
    and c': "c' = publish (MarketFinalized i v unclaimed
             (mk_sets_minted m - st_paid_out s - unclaimed - lp_claim))
           ((save_lp_fees i 0 (save_settle i
               (s\<lparr>st_outstanding_yes := 0, st_outstanding_no := 0, st_closed := True\<rparr>)
             (save_market i (m\<lparr>mk_reserve_yes := 0, mk_reserve_no := 0, mk_lp_claimed := True,
                mk_fees_accrued := 0\<rparr>) c)))\<lparr>mc_tok := t\<rparr>)"
  have fin: "mk_status m \<noteq> Open" using a(2) by (auto simp: market_settlement_def)
  have "0 \<le> mk_sets_minted m - st_paid_out s + mk_fees_accrued m + load_lp_fees i c"
    using token_okD(1) [OF assms(2) a(7)] a(6) by simp
  moreover have "mk_lp_claimed m \<longrightarrow> load_lp_fees i c = 0" using assms(1) a(1) by (auto simp: settled_def)
  ultimately show ?thesis
    by (intro advances_one [OF a(1,3) _ _ _ _ ms_close [OF fin a(4,5)]])
      (simp_all add: c' store_defs)
qed

lemma finality_advances:
  assumes "settled c" and "mc_markets c i = Some m" and "mk_status m = Open"
    and "in_resolver (mc_inst c) = Some a" "e_auth E a"
    and "st = Void \<or> (\<exists>oc. st = Resolved oc) \<and> mk_close_time m \<le> e_now E"
    and c': "c' = publish ev (mark_finalized E i (save_market i (m\<lparr>mk_status := st\<rparr>) c))"
  shows "advances E c c'"
proof -
  obtain s where s: "mc_settles c i = Some s" using assms(1,2) by (auto simp: settled_def)
  show ?thesis
    by (rule advances_one [OF assms(2) s _ _ _ _ ms_final [OF assms(4,5,3,6)]])
      (simp_all add: c' mark_finalized_def s store_defs)
qed

lemma sweep_fees_advances:
  assumes "settled c" and "sweep_fees T E i c = Inr (v, c')"
  shows "advances E c c'"
proof -
  obtain m where m: "mc_markets c i = Some m"
    using assms(2) by (auto simp: sweep_fees_def res_simps)
  then obtain s where s: "mc_settles c i = Some s" using assms(1) by (auto simp: settled_def)
  have "c' = c \<or> mc_markets c' = (mc_markets c)(i \<mapsto> m\<lparr>mk_fees_accrued := 0\<rparr>)
      \<and> mc_settles c' = mc_settles c \<and> mc_fee_terms c' = mc_fee_terms c
      \<and> mc_breakers c' = mc_breakers c"
    using assms(2) m
    by (auto simp: sweep_fees_def res_simps Let_def token_transfer_eq store_defs split: if_splits)
  then show ?thesis
  proof
    assume "c' = c"
    then show ?thesis by (simp add: advances_same)
  next
    assume u: "mc_markets c' = (mc_markets c)(i \<mapsto> m\<lparr>mk_fees_accrued := 0\<rparr>)
      \<and> mc_settles c' = mc_settles c \<and> mc_fee_terms c' = mc_fee_terms c
      \<and> mc_breakers c' = mc_breakers c"
    show ?thesis by (rule advances_one [OF m s _ _ _ _ ms_sweep]) (use u s in auto)
  qed
qed

lemma transfer_lp_advances:
  assumes "settled c" and "transfer_lp E i h c = Inr c'"
  shows "advances E c c'"
proof -
  obtain m where m: "mc_markets c i = Some m" "e_auth E (mk_creator m)" "\<not> mk_lp_claimed m"
      "c' = publish (LpTransferred i (mk_creator m) h) (save_market i (m\<lparr>mk_creator := h\<rparr>) c)"
    using assms(2) by (auto simp: transfer_lp_def res_simps int_ops split: if_splits)
  then obtain s where s: "mc_settles c i = Some s" using assms(1) by (auto simp: settled_def)
  show ?thesis
    by (rule advances_one [OF m(1) s _ _ _ _ ms_lp [OF m(2,3)]]) (use m s in \<open>auto simp: store_defs\<close>)
qed

lemma create_market_advances:
  assumes "mc_inv T' self c" and "create_market T E cr qh rh uri cat close seed p c = Inr (i, c')"
  shows "advances E c c'"
  using assms(2)
proof (rule create_market_ok)
  fix m s treasury share
  assume n: "in_next_id (mc_inst c) = Some i"
    and u: "mc_markets c' = (mc_markets c)(i \<mapsto> m)" "mc_settles c' = (mc_settles c)(i \<mapsto> s)"
    "mc_fee_terms c' = (mc_fee_terms c)(i \<mapsto> \<lparr>ft_recipient = treasury, ft_protocol_share_bps = share\<rparr>)"
    "mc_breakers c' = (mc_breakers c)(i := (case in_default_breaker (mc_inst c) of
        None \<Rightarrow> mc_breakers c i | Some b \<Rightarrow> Some b))"
  have "mc_markets c i = None"
    using assms(1) n by (auto simp: mc_inv_def mc_inv_owing_def absent_at_def)
  then show ?thesis by (auto simp: advances_def u)
qed

lemma set_inst_same [simp]:
  "mc_markets (set_inst f c) = mc_markets c" "mc_settles (set_inst f c) = mc_settles c"
  "mc_fee_terms (set_inst f c) = mc_fee_terms c" "mc_breakers (set_inst f c) = mc_breakers c"
  "mc_positions (set_inst f c) = mc_positions c" "mc_lp_fees (set_inst f c) = mc_lp_fees c"
  by (simp_all add: set_inst_def)

lemma claim_lp_fees_same:
  assumes "claim_lp_fees T E i c = Inr (v, c')"
  shows "mc_markets c' = mc_markets c" "mc_settles c' = mc_settles c"
    "mc_fee_terms c' = mc_fee_terms c" "mc_breakers c' = mc_breakers c" "mc_inst c' = mc_inst c"
    "mc_positions c' = mc_positions c"
proof -
  have "c' = c \<or> (\<exists>ev t. c' = publish ev ((save_lp_fees i 0 c)\<lparr>mc_tok := t\<rparr>))"
    using assms
    by (auto simp: claim_lp_fees_def res_simps Let_def token_transfer_eq split: if_splits)
  then show "mc_markets c' = mc_markets c" "mc_settles c' = mc_settles c"
    "mc_fee_terms c' = mc_fee_terms c" "mc_breakers c' = mc_breakers c" "mc_inst c' = mc_inst c"
    "mc_positions c' = mc_positions c" by (auto simp: save_lp_fees_def)
qed

lemma transfer_position_same:
  assumes "transfer_position E a b i oc n c = Inr c'"
  shows "mc_markets c' = mc_markets c" "mc_settles c' = mc_settles c"
    "mc_fee_terms c' = mc_fee_terms c" "mc_breakers c' = mc_breakers c" "mc_inst c' = mc_inst c"
    "mc_lp_fees c' = mc_lp_fees c"
proof -
  have "\<exists>ev p q. c' = publish ev (save_position i b p (save_position i a q c))"
    using assms by (auto simp: transfer_position_def res_simps Let_def split: if_splits)
  then show "mc_markets c' = mc_markets c" "mc_settles c' = mc_settles c"
    "mc_fee_terms c' = mc_fee_terms c" "mc_breakers c' = mc_breakers c" "mc_inst c' = mc_inst c"
    "mc_lp_fees c' = mc_lp_fees c" by (auto simp: save_position_def)
qed

lemmas config_defs = propose_admin_def accept_admin_def cancel_admin_transfer_def set_paused_def
  set_default_fee_bps_def propose_resolver_def accept_resolver_def propose_treasury_def
  accept_treasury_def set_protocol_fee_share_bps_def set_default_breaker_def
  set_default_redeem_horizon_def

text \<open>The calls that only change the configuration.\<close>

fun config_call :: "mc_call \<Rightarrow> bool" where
  "config_call (CallProposeAdmin _) = True" | "config_call CallAcceptAdmin = True"
| "config_call CallCancelAdminTransfer = True" | "config_call (CallSetPaused _) = True"
| "config_call (CallSetDefaultFee _) = True" | "config_call (CallProposeResolver _) = True"
| "config_call CallAcceptResolver = True" | "config_call (CallProposeTreasury _) = True"
| "config_call CallAcceptTreasury = True" | "config_call (CallSetProtocolFeeShare _) = True"
| "config_call (CallSetDefaultBreaker _) = True" | "config_call (CallSetDefaultRedeemHorizon _) = True"
| "config_call _ = False"

lemma config_call_same:
  assumes "exec T peer E call c = Inr c'" and "config_call call"
  shows "\<exists>f. c' = set_inst f c \<or> (\<exists>ev. c' = publish ev (set_inst f c))"
  using assms by (cases call) (auto simp: config_defs res_simps int_ops split: if_splits)

lemma exec_advances:
  assumes inv: "mc_inv T self c" and T: "token_ok T" and ex: "exec T peer E call c = Inr c'"
  shows "advances E c c'"
proof (cases "config_call call")
  case True
  then show ?thesis using config_call_same [OF ex] by (auto intro!: advances_same)
next
  case False
  have st: "settled c" using inv settled_inv by (auto simp: mc_inv_def)
  show ?thesis
  proof (cases call)
    case (CallResolve i oc)
    then obtain m a where "mc_markets c i = Some m" "mk_status m = Open"
        "in_resolver (mc_inst c) = Some a" "e_auth E a" "mk_close_time m \<le> e_now E"
        "c' = publish (MarketResolved i (Some oc))
            (mark_finalized E i (save_market i (m\<lparr>mk_status := Resolved oc\<rparr>) c))"
      using ex by (auto simp: resolve_def res_simps split: if_splits)
    then show ?thesis using finality_advances [OF st] by blast
  next
    case (CallVoidMarket i)
    then obtain m a where "mc_markets c i = Some m" "mk_status m = Open"
        "in_resolver (mc_inst c) = Some a" "e_auth E a"
        "c' = publish (MarketResolved i None)
            (mark_finalized E i (save_market i (m\<lparr>mk_status := Void\<rparr>) c))"
      using ex by (auto simp: void_market_def res_simps split: if_splits)
    then show ?thesis using finality_advances [OF st] by blast
  next
    case (CallClaimLpFees i)
    then show ?thesis using ex by (auto simp: res_simps intro!: advances_same claim_lp_fees_same)
  next
    case (CallTransferPosition a b i oc n)
    then show ?thesis using ex by (auto simp: res_simps intro!: advances_same transfer_position_same)
  qed (use ex False in \<open>auto simp: res_simps buy_def buy_v2_def sell_def sell_v2_def redeem_many_def
      claim_pool_remainders_def split: if_splits
    intro: do_buy_advances [OF st] do_sell_advances [OF st] redeem_advances [OF st]
      claim_pool_remainder_advances [OF st] finalize_market_advances [OF st T]
      sweep_fees_advances [OF st] transfer_lp_advances [OF st] create_market_advances [OF inv]
      settle_batch_advances(1) [OF redeem_one_advances st]
      settle_batch_advances(1) [OF claim_one_advances st]\<close>)
qed

section \<open>The configuration\<close>

lemma on_settle_inst: "on_settle i f c = Inr c' \<Longrightarrow> mc_inst c' = mc_inst c"
  using on_settle_ok [of i f c c'] by (auto simp: save_settle_def)

lemma redeem_inst: "redeem T E h i c = Inr (v, c') \<Longrightarrow> mc_inst c' = mc_inst c"
  by (erule redeem_ok) (auto dest!: on_settle_inst simp: pay_out_same save_position_def)

lemma claim_pool_remainder_inst:
  "claim_pool_remainder T E i c = Inr (v, c') \<Longrightarrow> mc_inst c' = mc_inst c"
  by (erule claim_pool_remainder_ok)
    (auto dest!: on_settle_inst simp: pay_out_same save_market_def save_lp_fees_def)

lemma finalize_market_inst: "finalize_market T E i c = Inr (v, c') \<Longrightarrow> mc_inst c' = mc_inst c"
  by (erule finalize_market_ok) (simp add: store_defs)

lemma mark_finalized_inst: "mc_inst (mark_finalized E i c) = mc_inst c"
  by (simp add: mark_finalized_def save_settle_def split: option.split)

lemma sweep_fees_inst: "sweep_fees T E i c = Inr (v, c') \<Longrightarrow> mc_inst c' = mc_inst c"
  by (auto simp: sweep_fees_def res_simps Let_def token_transfer_eq save_market_def split: if_splits)

lemma do_buy_inst: "do_buy T E h i oc x y l c = Inr (v, c') \<Longrightarrow> mc_inst c' = mc_inst c"
  by (erule do_buy_ok) (simp add: traded_def)

lemma do_sell_inst: "do_sell T E h i oc x y l c = Inr (v, c') \<Longrightarrow> mc_inst c' = mc_inst c"
  by (erule do_sell_ok) (simp add: traded_def)

lemma batch_inst:
  assumes one: "\<And>i c item c'. one i c = Inr (item, c') \<Longrightarrow> mc_inst c' = mc_inst c"
    and b: "settle_batch one T E h ids c = Inr (r, c')"
  shows "mc_inst c' = mc_inst c"
proof -
  have loop: "mc_inst d' = mc_inst d"
    if "batch_loop one ids tot items d = Inr (x, d')" for ids tot items d x d'
    using that
  proof (induction ids arbitrary: tot items d)
    case (Cons i ids)
    then obtain item e where e: "one i d = Inr (item, e)" by (auto simp: res_simps)
    with Cons.prems obtain tot' where "batch_loop one ids tot' (items @ [item]) e = Inr (x, d')"
      by (auto simp: res_simps split: if_splits)
    from Cons.IH [OF this] one [OF e] show ?case by simp
  qed simp
  show ?thesis
    using b loop by (auto simp: settle_batch_def res_simps pay_out_same split: prod.splits)
qed

lemma redeem_one_inst: "redeem_one h i c = Inr (item, c') \<Longrightarrow> mc_inst c' = mc_inst c"
  by (erule redeem_one_cases) (auto dest!: on_settle_inst simp: save_position_def)

lemma claim_one_inst: "claim_one h i c = Inr (item, c') \<Longrightarrow> mc_inst c' = mc_inst c"
  by (erule claim_one_cases) (auto dest!: on_settle_inst simp: save_market_def save_lp_fees_def)

lemma redeem_batch_inst:
  "settle_batch (redeem_one h) T E a ids c = Inr (r, c') \<Longrightarrow> mc_inst c' = mc_inst c"
  by (rule batch_inst [OF redeem_one_inst])

lemma claim_batch_inst:
  "settle_batch (claim_one h) T E a ids c = Inr (r, c') \<Longrightarrow> mc_inst c' = mc_inst c"
  by (rule batch_inst [OF claim_one_inst])

text \<open>No call but the configuration calls and the creation of a market writes instance storage.\<close>

lemma exec_inst:
  assumes ex: "exec T peer E call c = Inr c'"
  shows "config_call call \<or> mc_inst c' = mc_inst c
    \<or> (\<exists>a qh rh uri cat close seed p i. call = CallCreateMarket a qh rh uri cat close seed p
         \<and> create_market T E a qh rh uri cat close seed p c = Inr (i, c'))"
proof (cases "config_call call")
  case False
  then show ?thesis
    using ex
    by (cases call) (auto simp: res_simps buy_def buy_v2_def sell_def sell_v2_def redeem_many_def
      claim_pool_remainders_def resolve_def void_market_def transfer_lp_def mark_finalized_inst
      save_market_def split: if_splits
      dest: redeem_inst claim_pool_remainder_inst finalize_market_inst sweep_fees_inst do_buy_inst
        do_sell_inst claim_lp_fees_same(5) transfer_position_same(5)
        redeem_batch_inst claim_batch_inst)
qed simp

lemma config_call_next_id:
  assumes "exec T peer E call c = Inr c'" and "config_call call"
  shows "in_next_id (mc_inst c') = in_next_id (mc_inst c)
    \<and> in_collateral (mc_inst c') = in_collateral (mc_inst c)"
  using assms by (cases call) (auto simp: config_defs res_simps int_ops set_inst_def split: if_splits)

end
