(* ===== verification/MarketRules.thy ===== *)
theory MarketRules
  imports MarketTrace MarketDemo
begin

text \<open>
  The rules of a market's life: what is fixed at creation, who can settle it and when, that
  trading never lowers the pool's product and stops while paused, and that nothing is paid twice.
\<close>

section \<open>What every step preserves\<close>

definition same_terms :: "market \<times> settle_state \<Rightarrow> market \<times> settle_state \<Rightarrow> bool" where
  "same_terms x y \<longleftrightarrow> (case (x, y) of ((m, s), (m', s')) \<Rightarrow>
     mk_question_hash m' = mk_question_hash m \<and> mk_resolution_hash m' = mk_resolution_hash m
   \<and> mk_meta_uri m' = mk_meta_uri m \<and> mk_category m' = mk_category m
   \<and> mk_close_time m' = mk_close_time m \<and> mk_fee_bps m' = mk_fee_bps m
   \<and> st_horizon_secs s' = st_horizon_secs s
   \<and> (mk_status m \<noteq> Open \<longrightarrow> mk_status m' = mk_status m \<and> st_finalized_at s' = st_finalized_at s
        \<and> mk_sets_minted m' = mk_sets_minted m)
   \<and> (mk_lp_claimed m \<longrightarrow> mk_lp_claimed m') \<and> (st_closed s \<longrightarrow> st_closed s'))"

lemma set_reserves_same [simp]:
  "mk_creator (set_reserves m oc a b) = mk_creator m"
  "mk_question_hash (set_reserves m oc a b) = mk_question_hash m"
  "mk_resolution_hash (set_reserves m oc a b) = mk_resolution_hash m"
  "mk_meta_uri (set_reserves m oc a b) = mk_meta_uri m"
  "mk_category (set_reserves m oc a b) = mk_category m"
  "mk_close_time (set_reserves m oc a b) = mk_close_time m"
  "mk_fee_bps (set_reserves m oc a b) = mk_fee_bps m"
  "mk_status (set_reserves m oc a b) = mk_status m"
  "mk_lp_claimed (set_reserves m oc a b) = mk_lp_claimed m"
  by (cases oc; simp)+

lemma market_step_terms: "market_step E I x y \<Longrightarrow> same_terms x y"
  by (cases rule: market_step.cases) (auto simp: same_terms_def)

lemma market_steps_terms: "(market_step E I)\<^sup>*\<^sup>* x y \<Longrightarrow> same_terms x y"
proof (induction rule: rtranclp_induct)
  case base
  then show ?case by (simp add: same_terms_def split: prod.split)
next
  case (step y z)
  then show ?case using market_step_terms [OF step(2)] by (auto simp: same_terms_def)
qed

definition pool_product :: "market \<Rightarrow> int" where
  "pool_product m = mk_reserve_yes m * mk_reserve_no m"

lemma market_steps_product:
  "(market_step E I)\<^sup>*\<^sup>* x y \<Longrightarrow> mk_status (fst y) = Open
     \<Longrightarrow> mk_status (fst x) = Open \<and> pool_product (fst x) \<le> pool_product (fst y)"
proof (induction rule: rtranclp_induct)
  case (step y z)
  from step(2) have "mk_status (fst z) = Open \<Longrightarrow>
      mk_status (fst y) = Open \<and> pool_product (fst y) \<le> pool_product (fst z)"
  proof (cases rule: market_step.cases)
    case (ms_buy m oc rb ro cin q prot s)
    then show ?thesis using calc_buy_k [OF ms_buy(7)]
      by (cases oc) (auto simp: pool_product_def mult.commute)
  next
    case (ms_sell m oc rs ro cout q prot s)
    then show ?thesis using calc_sell_k [OF ms_sell(7)]
      by (cases oc) (auto simp: pool_product_def mult.commute)
  qed (auto simp: pool_product_def)
  with step show ?case by force
qed simp

lemma market_steps_paused:
  "(market_step E I)\<^sup>*\<^sup>* x y \<Longrightarrow> in_paused I = Some True \<Longrightarrow> mk_status (fst y) = Open
     \<Longrightarrow> mk_status (fst x) = Open \<and> mk_reserve_yes (fst y) = mk_reserve_yes (fst x)
       \<and> mk_reserve_no (fst y) = mk_reserve_no (fst x)
       \<and> mk_sets_minted (fst y) = mk_sets_minted (fst x) \<and> snd y = snd x"
proof (induction rule: rtranclp_induct)
  case (step y z)
  from step(2,4) have "mk_status (fst z) = Open \<Longrightarrow>
      mk_status (fst y) = Open \<and> mk_reserve_yes (fst z) = mk_reserve_yes (fst y)
       \<and> mk_reserve_no (fst z) = mk_reserve_no (fst y)
       \<and> mk_sets_minted (fst z) = mk_sets_minted (fst y) \<and> snd z = snd y"
    by (cases rule: market_step.cases) auto
  with step show ?case by simp
qed simp

lemma market_steps_final:
  "(market_step E I)\<^sup>*\<^sup>* x y \<Longrightarrow> mk_status (fst x) = Open \<Longrightarrow> mk_status (fst y) \<noteq> Open
     \<Longrightarrow> \<exists>a. in_resolver I = Some a \<and> e_auth E a \<and> st_finalized_at (snd y) = e_now E
       \<and> (mk_status (fst y) = Void \<or> mk_close_time (fst x) \<le> e_now E)"
proof (induction rule: rtranclp_induct)
  case (step y z)
  have ct: "mk_close_time (fst y) = mk_close_time (fst x)"
    using market_steps_terms [OF step(1)] by (auto simp: same_terms_def split: prod.splits)
  show ?case
  proof (cases "mk_status (fst y) = Open")
    case True
    from step(2) True step(5) ct show ?thesis by (cases rule: market_step.cases) auto
  next
    case False
    then have "mk_status (fst z) = mk_status (fst y)
        \<and> st_finalized_at (snd z) = st_finalized_at (snd y)"
      using market_step_terms [OF step(2)] by (auto simp: same_terms_def split: prod.splits)
    then show ?thesis using step False by auto
  qed
qed simp

section \<open>Properties of every call\<close>

lemma reachable_advances:
  assumes "mc_reachable T peer self c" and "token_ok T" and "exec T peer E call c = Inr c'"
    and "mc_markets c i = Some m"
  obtains s m' s' where "mc_settles c i = Some s" "mc_markets c' i = Some m'"
    "mc_settles c' i = Some s'" "(market_step E (mc_inst c))\<^sup>*\<^sup>* (m, s) (m', s')"
    "mc_fee_terms c' i = mc_fee_terms c i" "mc_breakers c' i = mc_breakers c i"
proof -
  have inv: "mc_inv T self c" using mc_reachable_inv assms(1,2) by blast
  obtain s where s: "mc_settles c i = Some s" using mc_invD [OF inv assms(4)] by metis
  show ?thesis
    using exec_advances [OF inv assms(2,3)] assms(4) s that unfolding advances_def by blast
qed

text \<open>The terms of a market never change: whatever call succeeds, an existing market keeps its
  question, resolution commitment, close time, fee, redemption horizon, fee split and breakers.
  Once resolved or voided its outcome and time of finality are fixed too, and a claimed pool and
  a closed market stay so.\<close>

lemma market_terms_are_fixed:
  assumes "mc_reachable T peer self c" and "token_ok T" and "exec T peer E call c = Inr c'"
    and "mc_markets c i = Some m" and "mc_settles c i = Some s"
  shows "\<exists>m' s'. mc_markets c' i = Some m' \<and> mc_settles c' i = Some s'
    \<and> same_terms (m, s) (m', s')
    \<and> mc_fee_terms c' i = mc_fee_terms c i \<and> mc_breakers c' i = mc_breakers c i"
  by (rule reachable_advances [OF assms(1-4)]) (use assms(5) market_steps_terms in fastforce)

lemma market_terms_are_fixed_witness:
  "\<exists>m'. mc_markets demo3 0 = Some m' \<and> mk_close_time m' = 1000 \<and> mk_fee_bps m' = 100"
proof -
  have "exec ledger_token no_peer (demo_env 1000) (CallResolve 0 Yes) demo2 = Inr demo3"
    by (simp add: demo3_run)
  moreover have "\<exists>m s. mc_markets demo2 0 = Some m \<and> mc_settles demo2 0 = Some s
      \<and> mk_close_time m = 1000 \<and> mk_fee_bps m = 100"
    by (simp add: demo_states)
  ultimately show ?thesis
    using market_terms_are_fixed [OF demo_reach(3) token_ok_ledger, of "demo_env 1000"]
    by (fastforce simp: same_terms_def)
qed

text \<open>C37. Only the configured resolver ends a market: when a call makes an open market final, the
  resolver authorised it, the close time had passed unless the market was voided, and the time
  of finality recorded is the time of that call.\<close>

theorem only_resolver_settles:
  assumes "mc_reachable T peer self c" and "token_ok T" and "exec T peer E call c = Inr c'"
    and "mc_markets c i = Some m" and "mk_status m = Open"
    and "mc_markets c' i = Some m'" and "mk_status m' \<noteq> Open"
  shows "\<exists>a s'. in_resolver (mc_inst c) = Some a \<and> e_auth E a
    \<and> (mk_status m' = Void \<or> mk_close_time m \<le> e_now E)
    \<and> mc_settles c' i = Some s' \<and> st_finalized_at s' = e_now E"
  by (rule reachable_advances [OF assms(1-4)])
    (use assms(5-7) market_steps_final [of E "mc_inst c"] in fastforce)

theorem only_resolver_settles_witness:
  "in_resolver (mc_inst demo2) = Some 7 \<and> (\<exists>s. mc_settles demo3 0 = Some s \<and> st_finalized_at s = 1000)"
proof -
  have "exec ledger_token no_peer (demo_env 1000) (CallResolve 0 Yes) demo2 = Inr demo3"
    by (simp add: demo3_run)
  moreover have "\<exists>m m'. mc_markets demo2 0 = Some m \<and> mk_status m = Open
      \<and> mc_markets demo3 0 = Some m' \<and> mk_status m' \<noteq> Open"
    by (simp add: demo_states)
  ultimately have "\<exists>a s'. in_resolver (mc_inst demo2) = Some a
      \<and> mc_settles demo3 0 = Some s' \<and> st_finalized_at s' = e_now (demo_env 1000)"
    using only_resolver_settles [OF demo_reach(3) token_ok_ledger] by blast
  then show ?thesis by (simp add: demo_env_def) (simp add: demo_states)
qed

text \<open>The product of a pool's reserves never falls while its market is open, whatever is
  called: rounding is always in favour of the pool.\<close>

lemma pool_product_never_falls:
  assumes "mc_reachable T peer self c" and "token_ok T" and "exec T peer E call c = Inr c'"
    and "mc_markets c i = Some m" and "mc_markets c' i = Some m'" and "mk_status m' = Open"
  shows "mk_reserve_yes m * mk_reserve_no m \<le> mk_reserve_yes m' * mk_reserve_no m'"
  by (rule reachable_advances [OF assms(1-4)])
    (use assms(5,6) market_steps_product [of E "mc_inst c"] in \<open>fastforce simp: pool_product_def\<close>)

lemma pool_product_never_falls_witness:
  "\<exists>m m'. mc_markets demo1 0 = Some m \<and> mc_markets demo2 0 = Some m'
     \<and> mk_reserve_yes m * mk_reserve_no m \<le> mk_reserve_yes m' * mk_reserve_no m'"
proof -
  have "exec ledger_token no_peer (demo_env 200) (CallBuy 1 0 Yes 1000000000 1) demo1 = Inr demo2"
    by (simp add: demo2_run [unfolded One_nat_def] state_of_def)
  moreover have "\<exists>m m'. mc_markets demo1 0 = Some m
      \<and> mc_markets demo2 0 = Some m' \<and> mk_status m' = Open"
    by (simp add: demo_states)
  ultimately show ?thesis
    using pool_product_never_falls [OF demo_reach(2) token_ok_ledger] by blast
qed

text \<open>While the contract is paused no market is created and no open market trades: reserves,
  sets and outstanding shares of every market that stays open are unchanged by any call.\<close>

lemma pause_freezes_trading:
  assumes "mc_reachable T peer self c" and "token_ok T" and "exec T peer E call c = Inr c'"
    and "in_paused (mc_inst c) = Some True"
  shows "in_next_id (mc_inst c') = in_next_id (mc_inst c)
    \<and> (\<forall>i m m'. mc_markets c i = Some m \<and> mc_markets c' i = Some m' \<and> mk_status m' = Open
         \<longrightarrow> mk_reserve_yes m' = mk_reserve_yes m \<and> mk_reserve_no m' = mk_reserve_no m
           \<and> mk_sets_minted m' = mk_sets_minted m \<and> mc_settles c' i = mc_settles c i)"
proof (intro conjI allI impI)
  have "create_market T E a qh rh uri cat close seed p c \<noteq> Inr (i, c')"
    for a qh rh uri cat close seed p i
    using assms(4) by (auto elim: create_market_ok)
  then show "in_next_id (mc_inst c') = in_next_id (mc_inst c)"
    using exec_inst [OF assms(3)]
      config_call_next_id [OF assms(3)] by metis
next
  fix i m m'
  assume a: "mc_markets c i = Some m \<and> mc_markets c' i = Some m' \<and> mk_status m' = Open"
  then have m: "mc_markets c i = Some m" by simp
  have "mk_reserve_yes m' = mk_reserve_yes m \<and> mk_reserve_no m' = mk_reserve_no m
      \<and> mk_sets_minted m' = mk_sets_minted m \<and> mc_settles c' i = mc_settles c i"
    by (rule reachable_advances [OF assms(1-3) m])
      (use a assms(4) market_steps_paused [of E "mc_inst c"] in fastforce)
  then show "mk_reserve_yes m' = mk_reserve_yes m" "mk_reserve_no m' = mk_reserve_no m"
    "mk_sets_minted m' = mk_sets_minted m" "mc_settles c' i = mc_settles c i" by auto
qed

lemma pause_freezes_trading_witness:
  "\<exists>c c'. mc_reachable ledger_token no_peer 100 c \<and> in_paused (mc_inst c) = Some True
     \<and> exec ledger_token no_peer (demo_env 300) (CallVoidMarket 0) c = Inr c'
     \<and> in_next_id (mc_inst c') = in_next_id (mc_inst c)"
proof -
  define c where "c = set_inst (in_paused_update (\<lambda>_. Some True)) demo2"
  have p: "exec ledger_token no_peer (demo_env 250) (CallSetPaused True) demo2 = Inr c"
    by (simp add: set_paused_def c_def demo_eval demo_states)
  have r: "mc_reachable ledger_token no_peer 100 c"
    by (rule reach_step [OF demo_reach(3) demo_step [OF p]])
  have "\<exists>c'. exec ledger_token no_peer (demo_env 300) (CallVoidMarket 0) c = Inr c'"
    by (simp add: c_def demo_eval demo_states)
  moreover have "in_paused (mc_inst c) = Some True" by (simp add: c_def set_inst_def)
  ultimately show ?thesis using pause_freezes_trading [OF r token_ok_ledger] r by blast
qed

section \<open>Nothing is paid twice\<close>

lemma save_position_zero: "load_position i h (save_position i h \<lparr>ps_yes = 0, ps_no = 0\<rparr> c)
    = \<lparr>ps_yes = 0, ps_no = 0\<rparr>"
  by (simp add: load_position_def save_position_def)

lemma on_settle_positions: "on_settle i f c = Inr c' \<Longrightarrow> mc_positions c' = mc_positions c"
  using on_settle_ok [of i f c c'] by (auto simp: save_settle_def)

lemma on_settle_markets: "on_settle i f c = Inr c' \<Longrightarrow> mc_markets c' = mc_markets c"
  using on_settle_ok [of i f c c'] by (auto simp: save_settle_def)

lemma on_settle_open:
  assumes "on_settle i f c = Inr c'" and "\<And>s s'. f s = Inr s' \<Longrightarrow> st_closed s' = st_closed s"
  shows "settle_closed j c' = settle_closed j c"
  using on_settle_ok [OF assms(1)] assms(2)
  by (cases "j = i") (auto simp: save_settle_def settle_closed_def)

lemma redeem_once:
  assumes r: "redeem T E h i c = Inr (v, c')" and a: "e_auth E' h"
  shows "redeem T' E' h i c' = Inl (Err McNothingToRedeem)"
  using r
proof (rule redeem_ok)
  fix m kind c1 c2
  assume m: "mc_markets c i = Some m" "market_settlement m = Inr kind" "\<not> settle_closed i c"
    and s: "on_settle i (settle_redeem (load_position i h c) v)
      (save_position i h \<lparr>ps_yes = 0, ps_no = 0\<rparr> c) = Inr c1"
    and p: "pay_out T E h v c1 = Inr c2" "c' = publish (Redeemed i h v) c2"
  have "settle_closed i c1 = settle_closed i c"
    using on_settle_open [OF s, of i] settle_redeem_ok
    by (fastforce simp: settle_closed_def save_position_def)
  moreover have "settle_closed i c' = settle_closed i c1"
    by (simp add: settle_closed_def p(2) pay_out_same [OF p(1)])
  moreover have "mc_markets c' = mc_markets c"
    using on_settle_markets [OF s] by (simp add: p(2) pay_out_same [OF p(1)] save_position_def)
  moreover have "load_position i h c' = \<lparr>ps_yes = 0, ps_no = 0\<rparr>"
    using on_settle_positions [OF s] save_position_zero [of i h c]
    by (simp add: p(2) pay_out_same [OF p(1)] load_position_def)
  ultimately show ?thesis
    using m a by (simp add: redeem_def load_market_def require_auth_def assert_not_closed_def)
qed

lemma claim_once:
  assumes r: "claim_pool_remainder T E i c = Inr (v, c')" and m0: "mc_markets c i = Some m"
    and a: "e_auth E' (mk_creator m)"
  shows "claim_pool_remainder T' E' i c' = Inl (Err McAlreadyClaimed)"
  using r
proof (rule claim_pool_remainder_ok)
  fix m1 kind pv c1 c2
  assume m: "mc_markets c i = Some m1" "market_settlement m1 = Inr kind" "\<not> settle_closed i c"
    and s: "on_settle i (settle_pay v) (save_market i
       (m1\<lparr>mk_reserve_yes := 0, mk_reserve_no := 0, mk_lp_claimed := True\<rparr>) (save_lp_fees i 0 c)) = Inr c1"
    and p: "pay_out T E (mk_creator m1) v c1 = Inr c2"
      "c' = publish (PoolRemainderClaimed i (mk_creator m1) v) c2"
  have "settle_closed i c1 = settle_closed i c"
    using on_settle_open [OF s, of i] settle_pay_ok
    by (fastforce simp: settle_closed_def save_market_def save_lp_fees_def)
  moreover have "settle_closed i c' = settle_closed i c1"
    by (simp add: settle_closed_def p(2) pay_out_same [OF p(1)])
  moreover have "mc_markets c' i
      = Some (m1\<lparr>mk_reserve_yes := 0, mk_reserve_no := 0, mk_lp_claimed := True\<rparr>)"
    using on_settle_markets [OF s]
    by (simp add: p(2) pay_out_same [OF p(1)] save_market_def save_lp_fees_def)
  moreover have "m1 = m" using m(1) m0 by simp
  ultimately show ?thesis
    using m a
    by (simp add: claim_pool_remainder_def load_market_def require_auth_def assert_not_closed_def
        market_settlement_def)
qed

text \<open>A position is paid once and a pool is claimed once: right after a successful redemption
  the holder has nothing to redeem, and right after a successful claim the pool is claimed, so
  that repeating the call is refused without a transfer.\<close>

lemma nothing_is_paid_twice:
  "(redeem T E h i c = Inr (v, c') \<and> e_auth E' h \<longrightarrow>
      redeem T' E' h i c' = Inl (Err McNothingToRedeem))
   \<and> (claim_pool_remainder T E i c = Inr (v, c') \<and> mc_markets c i = Some m
        \<and> e_auth E' (mk_creator m) \<longrightarrow>
      claim_pool_remainder T' E' i c' = Inl (Err McAlreadyClaimed))"
  using redeem_once claim_once by blast

lemma nothing_is_paid_twice_witness:
  "redeem ledger_token (demo_env 1003) 1 0 demo5 = Inl (Err McNothingToRedeem)
   \<and> claim_pool_remainder ledger_token (demo_env 1003) 0 demo4 = Inl (Err McAlreadyClaimed)"
proof -
  have "mc_markets demo3 0 = Some (demo_market\<lparr>mk_reserve_yes := 502512563, mk_reserve_no := 1990000000,
          mk_sets_minted := 1990000000, mk_fees_accrued := 4000000, mk_status := Resolved Yes\<rparr>)"
    by (simp add: demo3_def)
  moreover have "e_auth (demo_env 1003) 1" "e_auth (demo_env 1003) 2" by (simp_all add: demo_env_def)
  ultimately show ?thesis
    using nothing_is_paid_twice demo4_run demo5_run by (fastforce simp: demo_market_def)
qed

end
