(* ===== verification/MarketTrades.thy ===== *)
theory MarketTrades
  imports MarketDemo MarketTrace
begin

text \<open>
  Trades as the trader sees them: deadlines, limits and exact amounts, the circuit breakers and
  the view that predicts them; and batches as sequences of single settlements.
\<close>

section \<open>Limits\<close>

lemma buy_limit_ok:
  assumes "buy_within_limit cin n l = Inr True"
  shows "cin * BPS \<le> n * int l"
  using assms by (auto simp: buy_within_limit_def res_simps fpmm split: if_splits)

lemma sell_limit_ok:
  assumes "sell_within_limit cout n l = Inr True"
  shows "n * int l \<le> cout * BPS"
  using assms by (auto simp: sell_within_limit_def res_simps fpmm split: if_splits)

lemma load_position_saved:
  assumes "mc_positions c' = mc_positions (save_position i h p c)"
  shows "ps_yes (load_position i h c') = ps_yes p" "ps_no (load_position i h c') = ps_no p"
  using assms by (auto simp: load_position_def save_position_def)

text \<open>C28. A \<open>buy_v2\<close> that succeeds ran before its deadline with the trader's authorisation,
  returned at least the requested shares at no more than the limit price on average, fee
  included, moved exactly the payment from the trader to the contract, and added exactly the
  returned shares to the trader's position on the bought side only.\<close>

theorem buy_v2_respects_limits:
  assumes "buy_v2 T E h i oc cin min_out limit deadline c = Inr (n, c')" and "token_ok T"
    and "in_collateral (mc_inst c) = Some coll" and "h \<noteq> e_self E"
  shows "e_now E \<le> deadline \<and> e_auth E h \<and> min_out \<le> n \<and> 0 < n
    \<and> (limit \<noteq> 0 \<longrightarrow> cin * 10000 \<le> n * int limit)
    \<and> tk_balance T coll (mc_tok c') h = tk_balance T coll (mc_tok c) h - cin
    \<and> tk_balance T coll (mc_tok c') (e_self E) = tk_balance T coll (mc_tok c) (e_self E) + cin
    \<and> ps_yes (load_position i h c') = ps_yes (load_position i h c) + (if oc = Yes then n else 0)
    \<and> ps_no (load_position i h c') = ps_no (load_position i h c) + (if oc = No then n else 0)"
proof -
  have dl: "e_now E \<le> deadline" and b: "do_buy T E h i oc cin min_out
      (if limit = 0 then None else Some limit) c = Inr (n, c')"
    using assms(1) by (auto simp: buy_v2_def split: if_splits)
  from b show ?thesis
  proof (rule do_buy_ok)
    fix m rb ro q prot lp p' coll'
    assume a: "e_auth E h" "calc_buy rb ro cin (mk_fee_bps m) = Inr q" "n = bq_shares_out q"
        "min_out \<le> n"
      and lim: "(if limit = 0 then None else Some limit) = None \<or> (\<exists>l. (if limit = 0 then None else Some limit) = Some l
          \<and> int l \<le> BPS \<and> buy_within_limit cin n l = Inr True)"
      and p': "ps_yes p' = ps_yes (load_position i h c) + (if oc = Yes then n else 0)"
        "ps_no p' = ps_no (load_position i h c) + (if oc = No then n else 0)"
      and tk: "in_collateral (mc_inst c) = Some coll'"
        "tk_transfer T coll' h (e_self E) cin (mc_tok c) = Some (mc_tok c')"
      and t: "traded i h ((set_reserves m oc (bq_new_reserve_bought q) (bq_new_reserve_other q))
         \<lparr>mk_sets_minted := mk_sets_minted m + bq_net q,
          mk_fees_accrued := mk_fees_accrued m + prot\<rparr>) p' lp
       (\<lambda>s. s\<lparr>st_outstanding_yes := st_outstanding_yes s + (if oc = Yes then n else 0),
             st_outstanding_no := st_outstanding_no s + (if oc = No then n else 0)\<rparr>) c c'"
    have pos: "mc_positions c' = mc_positions (save_position i h p' c)"
      using t by (simp add: traded_def)
    have "coll' = coll" using tk(1) assms(3) by simp
    note B = token_okD(2) [OF assms(2) tk(2) [unfolded this], of coll]
    have "limit \<noteq> 0 \<longrightarrow> cin * 10000 \<le> n * int limit"
      using lim buy_limit_ok [of cin n limit] by (auto simp: BPS_def)
    then show ?thesis
      using dl a(1,4) B [of h] B [of "e_self E"] assms(4) load_position_saved [OF pos] p'
        calc_buyD(10) [OF a(2)] a(3) by simp
  qed
qed

theorem buy_v2_respects_limits_witness:
  "\<exists>n c'. buy_v2 ledger_token (demo_env 200) 1 0 Yes 1000000000 1 7000 300 demo1 = Inr (n, c')
     \<and> 1000000000 * 10000 \<le> n * 7000"
proof -
  have "\<exists>c'. buy_v2 ledger_token (demo_env 200) 1 0 Yes 1000000000 1 7000 300 demo1
      = Inr (1487487437, c')"
    by (simp add: demo_eval demo_states buy_within_limit_def)
  moreover have "in_collateral (mc_inst demo1) = Some 50" by (simp add: demo_states)
  moreover have "(1::nat) \<noteq> e_self (demo_env 200)" by (simp add: demo_env_def)
  ultimately show ?thesis using buy_v2_respects_limits [OF _ token_ok_ledger] by fastforce
qed

text \<open>A \<open>sell_v2\<close> that succeeds ran before its deadline with the trader's authorisation, paid
  out exactly the requested collateral, took no more than the accepted number of shares, all of
  them held by the trader, at no less than the limit price on average.\<close>

lemma sell_v2_respects_limits:
  assumes "sell_v2 T E h i oc cout max_in limit deadline c = Inr (n, c')" and "token_ok T"
    and "in_collateral (mc_inst c) = Some coll" and "h \<noteq> e_self E"
  shows "e_now E \<le> deadline \<and> e_auth E h \<and> n \<le> max_in \<and> 0 < n
    \<and> n \<le> held_of oc (load_position i h c)
    \<and> n * int limit \<le> cout * 10000
    \<and> tk_balance T coll (mc_tok c') h = tk_balance T coll (mc_tok c) h + cout
    \<and> tk_balance T coll (mc_tok c') (e_self E) = tk_balance T coll (mc_tok c) (e_self E) - cout
    \<and> ps_yes (load_position i h c') = ps_yes (load_position i h c) - (if oc = Yes then n else 0)
    \<and> ps_no (load_position i h c') = ps_no (load_position i h c) - (if oc = No then n else 0)"
proof -
  have dl: "e_now E \<le> deadline" and b: "do_sell T E h i oc cout max_in
      (if limit = 0 then None else Some limit) c = Inr (n, c')"
    using assms(1) by (auto simp: sell_v2_def split: if_splits)
  from b show ?thesis
  proof (rule do_sell_ok)
    fix m rs ro q prot lp p' coll'
    assume a: "e_auth E h" "calc_sell rs ro cout (mk_fee_bps m) = Inr q" "n = sq_shares_in q"
        "n \<le> max_in" "n \<le> held_of oc (load_position i h c)"
      and lim: "(if limit = 0 then None else Some limit) = None \<or> (\<exists>l. (if limit = 0 then None else Some limit) = Some l
          \<and> sell_within_limit cout n l = Inr True)"
      and p': "ps_yes p' = ps_yes (load_position i h c) - (if oc = Yes then n else 0)"
        "ps_no p' = ps_no (load_position i h c) - (if oc = No then n else 0)"
      and tk: "in_collateral (mc_inst c) = Some coll'"
        "tk_transfer T coll' (e_self E) h cout (mc_tok c) = Some (mc_tok c')"
      and t: "traded i h ((set_reserves m oc (sq_new_reserve_sold q) (sq_new_reserve_other q))
         \<lparr>mk_sets_minted := mk_sets_minted m - sq_gross q,
          mk_fees_accrued := mk_fees_accrued m + prot\<rparr>) p' lp
       (\<lambda>s. s\<lparr>st_outstanding_yes := st_outstanding_yes s - (if oc = Yes then n else 0),
             st_outstanding_no := st_outstanding_no s - (if oc = No then n else 0)\<rparr>) c c'"
    have pos: "mc_positions c' = mc_positions (save_position i h p' c)"
      using t by (simp add: traded_def)
    have "coll' = coll" using tk(1) assms(3) by simp
    note B = token_okD(2) [OF assms(2) tk(2) [unfolded this], of coll]
    have "0 < cout" using calc_sellD(1) [OF a(2)] .
    then have "n * int limit \<le> cout * 10000"
      using lim sell_limit_ok [of cout n limit] by (cases "limit = 0") (auto simp: BPS_def)
    then show ?thesis
      using dl a(1,4,5) B [of h] B [of "e_self E"] assms(4) load_position_saved [OF pos] p'
        calc_sellD(11) [OF a(2)] a(3) by simp
  qed
qed

lemma sell_v2_respects_limits_witness:
  "\<exists>n c'. sell_v2 ledger_token (demo_env 300) 1 0 Yes 100000000 200000000 5000 300 demo2 = Inr (n, c')
     \<and> n * 5000 \<le> 100000000 * 10000"
proof -
  have "\<exists>n c'. sell_v2 ledger_token (demo_env 300) 1 0 Yes 100000000 200000000 5000 300 demo2
      = Inr (n, c')"
    by (simp add: demo_eval demo_states sell_within_limit_def)
  moreover have "in_collateral (mc_inst demo2) = Some 50" by (simp add: demo_states)
  moreover have "(1::nat) \<noteq> e_self (demo_env 300)" by (simp add: demo_env_def)
  ultimately show ?thesis using sell_v2_respects_limits [OF _ token_ok_ledger] by fastforce
qed

section \<open>Circuit breakers\<close>

text \<open>What passing the breakers means: \<open>band_base\<close> is the reference price of the ledger.\<close>

definition band_base :: "env \<Rightarrow> nat \<Rightarrow> int \<Rightarrow> 't mc \<Rightarrow> int" where
  "band_base E i pre c =
     (case mc_bands c i of
        Some b \<Rightarrow> if bs_ledger_seq b = e_seq E then int (bs_ref_price_bps b) else int (as_u32 pre)
      | None \<Rightarrow> int (as_u32 pre))"

lemma check_breakers_bounds:
  assumes "check_breakers E i m oc a b c = Inr c'" and "mc_breakers c i = Some cfg"
    and "bc_max_impact_bps cfg \<noteq> 0 \<or> bc_band_bps cfg \<noteq> 0"
  obtains pre post where "price_yes_bps (mk_reserve_yes m) (mk_reserve_no m) = Inr pre"
    "price_after (oc = Yes) a b = Inr post"
    "0 < bc_max_impact_bps cfg \<Longrightarrow> \<bar>post - pre\<bar> \<le> int (bc_max_impact_bps cfg)"
    "0 < bc_band_bps cfg \<Longrightarrow> \<bar>post - band_base E i pre c\<bar> \<le> int (bc_band_bps cfg)
       \<and> mc_bands c' i = Some \<lparr>bs_ledger_seq = e_seq E, bs_ref_price_bps = nat (band_base E i pre c)\<rparr>"
proof -
  obtain pre post where p: "price_yes_bps (mk_reserve_yes m) (mk_reserve_no m) = Inr pre"
    "price_after (oc = Yes) a b = Inr post"
    using assms by (auto simp: check_breakers_def load_breaker_def res_simps)
  have imp: "0 < bc_max_impact_bps cfg \<Longrightarrow> \<bar>post - pre\<bar> \<le> int (bc_max_impact_bps cfg)"
    using assms p by (auto simp: check_breakers_def load_breaker_def split: if_splits)
  have "\<bar>post - band_base E i pre c\<bar> \<le> int (bc_band_bps cfg)
       \<and> mc_bands c' i = Some \<lparr>bs_ledger_seq = e_seq E, bs_ref_price_bps = nat (band_base E i pre c)\<rparr>"
    if "0 < bc_band_bps cfg"
    using assms p that
    by (auto simp: check_breakers_def load_breaker_def band_ref_def band_base_def Let_def
        split: if_splits option.splits)
  then show ?thesis by (intro that [OF p imp])
qed

lemma price_after_reserves:
  "price_after (oc = Yes) a b
     = price_yes_bps (mk_reserve_yes (set_reserves m oc a b)) (mk_reserve_no (set_reserves m oc a b))"
  by (cases oc) (simp_all add: price_after_def)

text \<open>The reserves a trade leaves passed the breaker check, on a state with the same entries.\<close>

definition checked_move :: "env \<Rightarrow> nat \<Rightarrow> outcome \<Rightarrow> 't mc \<Rightarrow> 't mc \<Rightarrow> bool" where
  "checked_move E i oc c c' \<longleftrightarrow> (\<exists>m m' a b x c2. mc_markets c i = Some m \<and> mc_markets c' i = Some m'
     \<and> mk_reserve_yes m' = mk_reserve_yes (set_reserves m oc a b)
     \<and> mk_reserve_no m' = mk_reserve_no (set_reserves m oc a b)
     \<and> check_breakers E i m oc a b (c\<lparr>mc_obss := x\<rparr>) = Inr c2 \<and> mc_bands c' = mc_bands c2)"

lemma checked_moveI:
  assumes "mc_markets c i = Some m" and "traded i h m' p' lp f c c'"
    and "m' = (set_reserves m oc a b)\<lparr>mk_sets_minted := x, mk_fees_accrued := y\<rparr>"
    and "\<exists>x c2. check_breakers E i m oc a b (c\<lparr>mc_obss := x\<rparr>) = Inr c2 \<and> mc_bands c' = mc_bands c2"
  shows "checked_move E i oc c c'"
proof -
  have "mc_markets c' i = Some m'" using assms(2) by (simp add: traded_def)
  moreover have "mk_reserve_yes m' = mk_reserve_yes (set_reserves m oc a b)"
    "mk_reserve_no m' = mk_reserve_no (set_reserves m oc a b)" by (simp_all add: assms(3))
  ultimately show ?thesis using assms(1,4) unfolding checked_move_def by blast
qed

lemma do_buy_checked:
  "do_buy T E h i oc cin y l c = Inr (n, c') \<Longrightarrow> checked_move E i oc c c'"
  by (erule do_buy_ok) (rule checked_moveI [OF _ _ refl])

lemma do_sell_checked:
  "do_sell T E h i oc cout y l c = Inr (n, c') \<Longrightarrow> checked_move E i oc c c'"
  by (erule do_sell_ok) (rule checked_moveI [OF _ _ refl])

text \<open>C29. A trade on a market with circuit breakers moves its price by at most the impact limit, and
  leaves it within the band around the reference price of the current ledger; the reference is
  set by the first trade of the ledger to the price before it, and kept by the later ones.\<close>

theorem trades_respect_breakers:
  assumes "(\<exists>x l. do_buy T E h i oc amt x l c = Inr (n, c')) \<or>
           (\<exists>x l. do_sell T E h i oc amt x l c = Inr (n, c'))"
    and "mc_breakers c i = Some cfg" and "bc_max_impact_bps cfg \<noteq> 0 \<or> bc_band_bps cfg \<noteq> 0"
  shows "\<exists>m m' pre post. mc_markets c i = Some m \<and> mc_markets c' i = Some m'
    \<and> price_yes_bps (mk_reserve_yes m) (mk_reserve_no m) = Inr pre
    \<and> price_yes_bps (mk_reserve_yes m') (mk_reserve_no m') = Inr post
    \<and> (0 < bc_max_impact_bps cfg \<longrightarrow> \<bar>post - pre\<bar> \<le> int (bc_max_impact_bps cfg))
    \<and> (0 < bc_band_bps cfg \<longrightarrow> \<bar>post - band_base E i pre c\<bar> \<le> int (bc_band_bps cfg)
         \<and> mc_bands c' i = Some \<lparr>bs_ledger_seq = e_seq E, bs_ref_price_bps = nat (band_base E i pre c)\<rparr>)"
proof -
  have "checked_move E i oc c c'" 
    using assms(1) by (elim disjE exE) (erule do_buy_checked, erule do_sell_checked)
  then obtain m m' a b x c2 where m: "mc_markets c i = Some m" "mc_markets c' i = Some m'"
      "mk_reserve_yes m' = mk_reserve_yes (set_reserves m oc a b)"
      "mk_reserve_no m' = mk_reserve_no (set_reserves m oc a b)"
      "check_breakers E i m oc a b (c\<lparr>mc_obss := x\<rparr>) = Inr c2" "mc_bands c' = mc_bands c2"
    unfolding checked_move_def by blast
  have cfg: "mc_breakers (c\<lparr>mc_obss := x\<rparr>) i = Some cfg" using assms(2) by simp
  have base: "band_base E i pre (c\<lparr>mc_obss := x\<rparr>) = band_base E i pre c" for pre
    by (simp add: band_base_def)
  show ?thesis
    by (rule check_breakers_bounds [OF m(5) cfg assms(3)])
      (use m in \<open>simp add: price_after_reserves [of oc a b m] base\<close>)
qed

definition demo_breaker :: breaker_config_rec where
  "demo_breaker = \<lparr>bc_max_impact_bps = 3000, bc_band_bps = 4000\<rparr>"

theorem trades_respect_breakers_witness:
  "\<exists>c c' b. do_buy ledger_token (demo_env 200) 1 0 Yes 1000000000 1 None c = Inr (1487487437, c')
     \<and> mc_breakers c 0 = Some demo_breaker \<and> mc_bands c' 0 = Some b \<and> bs_ref_price_bps b = 5000"
proof -
  define c where "c = demo1\<lparr>mc_breakers := [0 \<mapsto> demo_breaker]\<rparr>"
  have cfg: "mc_breakers c 0 = Some demo_breaker" by (simp add: c_def)
  obtain c' where c': "do_buy ledger_token (demo_env 200) 1 0 Yes 1000000000 1 None c
      = Inr (1487487437, c')"
    by (simp add: demo_eval demo_states c_def demo_breaker_def price_after_def band_ref_def)
  have ex: "(\<exists>x l. do_buy ledger_token (demo_env 200) 1 0 Yes 1000000000 x l c = Inr (1487487437, c'))
      \<or> (\<exists>x l. do_sell ledger_token (demo_env 200) 1 0 Yes 1000000000 x l c = Inr (1487487437, c'))"
    using c' by blast
  have "\<exists>m pre. mc_markets c 0 = Some m
      \<and> price_yes_bps (mk_reserve_yes m) (mk_reserve_no m) = Inr pre
      \<and> (0 < bc_band_bps demo_breaker \<longrightarrow>
           mc_bands c' 0 = Some \<lparr>bs_ledger_seq = e_seq (demo_env 200),
             bs_ref_price_bps = nat (band_base (demo_env 200) 0 pre c)\<rparr>)"
    using trades_respect_breakers [OF ex cfg] by (auto simp: demo_breaker_def)
  moreover have "mc_markets c 0 = Some demo_market" by (simp add: c_def demo1_def)
  moreover have "price_yes_bps 1000000000 1000000000 = Inr 5000"
    by (simp add: math_defs)
  ultimately have "mc_bands c' 0 = Some \<lparr>bs_ledger_seq = e_seq (demo_env 200),
      bs_ref_price_bps = nat (band_base (demo_env 200) 0 5000 c)\<rparr>"
    by (auto simp: demo_breaker_def demo_market_def)
  moreover have "band_base (demo_env 200) 0 5000 c = 5000"
    by (simp add: band_base_def c_def demo1_def as_u32_def)
  ultimately show ?thesis using c' cfg by fastforce
qed

text \<open>The view \<open>would_trip\<close> predicts the breakers exactly: for a purchase that can be priced, it
  answers yes if and only if the breaker check of the purchase refuses it.\<close>

lemma would_trip_predicts:
  assumes "mc_markets c i = Some m" and "reserves_for m oc = (rb, ro)"
    and "calc_buy rb ro cin (mk_fee_bps m) = Inr q"
    and "mk_reserve_yes m + mk_reserve_no m \<le> 4 * MAX_SETS"
    and "rb + ro + bq_net q \<le> 4 * MAX_SETS"
  shows "\<exists>t. would_trip E i oc cin c = Inr t
    \<and> (t \<longleftrightarrow> check_breakers E i m oc (bq_new_reserve_bought q) (bq_new_reserve_other q) c
           \<in> {Inl (Err McPriceImpactTooHigh), Inl (Err McPriceBandExceeded)})
    \<and> (\<not> t \<longleftrightarrow> (\<exists>c'. check_breakers E i m oc (bq_new_reserve_bought q) (bq_new_reserve_other q) c
           = Inr c'))"
proof -
  have price: "\<exists>p. price_yes_bps a b = Inr p" if "0 < a" "0 < b" "a + b \<le> 4 * MAX_SETS" for a b
  proof -
    have "in_i128 (a + b)" using that by (intro in_i128_MAX_SETS) auto
    moreover have "in_i128 (b * BPS)"
      using that by (intro in_i128_MAX_SETS_mult) (auto simp: BPS_def MAX_SETS_def)
    ultimately have "mul_div_floor b BPS (a + b) = Inr (b * BPS div (a + b))"
      using that by (simp add: mul_div_floor_eq BPS_def)
    then show ?thesis
      using that \<open>in_i128 (a + b)\<close>
      by (auto simp: price_yes_bps_def checked_add_def checked_i128_Some)
  qed
  note Q = calc_buyD [OF assms(3)] calc_buy_reserves_pos [OF assms(3)]
  have pos: "0 < mk_reserve_yes m" "0 < mk_reserve_no m"
    using Q(2,3) assms(2) by (cases oc; auto)+
  obtain pre where pre: "price_yes_bps (mk_reserve_yes m) (mk_reserve_no m) = Inr pre"
    using price [OF pos assms(4)] by blast
  have sum: "bq_new_reserve_bought q + bq_new_reserve_other q \<le> 4 * MAX_SETS"
    using Q(7,18) assms(5) by linarith
  obtain post where post: "price_after (oc = Yes) (bq_new_reserve_bought q) (bq_new_reserve_other q)
      = Inr post"
    using price [of "bq_new_reserve_bought q" "bq_new_reserve_other q"]
      price [of "bq_new_reserve_other q" "bq_new_reserve_bought q"] Q sum
    by (cases oc) (auto simp: price_after_def add.commute)
  show ?thesis
    using assms(1-3) pre post
    by (cases "mc_breakers c i")
      (auto simp: would_trip_def check_breakers_def load_market_def load_breaker_def band_ref_def
        Let_def split: option.split)
qed

lemma would_trip_predicts_witness:
  "\<exists>t. would_trip (demo_env 200) 0 Yes 1000000000 (demo1\<lparr>mc_breakers := [0 \<mapsto> demo_breaker]\<rparr>) = Inr t"
proof -
  have q: "calc_buy 1000000000 1000000000 1000000000 (mk_fee_bps demo_market)
    = Inr \<lparr>bq_shares_out = 1487487437, bq_fee = 10000000, bq_net = 990000000,
           bq_new_reserve_bought = 502512563, bq_new_reserve_other = 1990000000\<rparr>"
    by (simp add: math_defs Let_def demo_market_def)
  have m: "mc_markets (demo1\<lparr>mc_breakers := [0 \<mapsto> demo_breaker]\<rparr>) 0 = Some demo_market"
    by (simp add: demo1_def)
  have r: "reserves_for demo_market Yes = (1000000000, 1000000000)" by (simp add: demo_market_def)
  from would_trip_predicts [OF m r q, of "demo_env 200"] show ?thesis
    by (auto simp: demo_market_def MAX_SETS_def)
qed

end
