(* ===== verification/MarketBatch.thy ===== *)
theory MarketBatch
  imports MarketDemo MarketTrace
begin

text \<open>
  The batch calls settle each market exactly as the single calls would: the markets of a batch
  are distinct, and settling one does not read or write what another one uses.
\<close>

section \<open>Locality\<close>

definition local_eq :: "nat \<Rightarrow> 't mc \<Rightarrow> 't mc \<Rightarrow> bool" where
  "local_eq j c c' \<longleftrightarrow> mc_markets c' j = mc_markets c j \<and> mc_settles c' j = mc_settles c j
     \<and> mc_positions c' j = mc_positions c j \<and> mc_lp_fees c' j = mc_lp_fees c j"

definition redeem_item :: "address \<Rightarrow> nat \<Rightarrow> 't mc \<Rightarrow> batch_item mc_res" where
  "redeem_item h i c = andThen (redeem_one h i c) (\<lambda>(item, _). Inr item)"

definition claim_item :: "address \<Rightarrow> nat \<Rightarrow> 't mc \<Rightarrow> batch_item mc_res" where
  "claim_item h i c = andThen (claim_one h i c) (\<lambda>(item, _). Inr item)"

lemma local_eqD:
  assumes "local_eq j c c'"
  shows "mc_markets c' j = mc_markets c j" "mc_settles c' j = mc_settles c j"
    "load_position j h c' = load_position j h c" "load_lp_fees j c' = load_lp_fees j c"
    "settle_closed j c' = settle_closed j c"
  using assms by (simp_all add: local_eq_def load_position_def load_lp_fees_def settle_closed_def)

lemma andThen_assoc: "andThen (andThen r f) g = andThen r (\<lambda>x. andThen (f x) g)"
  by (cases r) auto

lemma on_settle_item:
  "andThen (on_settle i f c) (\<lambda>c1. Inr item)
     = (case mc_settles c i of None \<Rightarrow> Inr item | Some s \<Rightarrow> andThen (f s) (\<lambda>_. Inr item))"
  by (simp add: on_settle_def andThen_assoc split: option.split)

lemma redeem_item_eq:
  "redeem_item h i c =
     (case mc_markets c i of None \<Rightarrow> Inr (batch_skip i SkipNotFound)
      | Some m \<Rightarrow>
        (case market_settlement m of Inl _ \<Rightarrow> Inr (batch_skip i SkipNotFinal)
         | Inr kind \<Rightarrow>
           if settle_closed i c then Inr (batch_skip i SkipNothingToRedeem)
           else let pos = load_position i h c in
             if ps_yes pos = 0 \<and> ps_no pos = 0 then Inr (batch_skip i SkipNothingToRedeem)
             else andThen (settle_value kind (ps_yes pos) (ps_no pos)) (\<lambda>payout.
               (case mc_settles c i of
                  None \<Rightarrow> Inr \<lparr>bi_market_id = i, bi_payout = payout, bi_status = Settled\<rparr>
                | Some s \<Rightarrow> andThen (settle_redeem pos payout s)
                    (\<lambda>_. Inr \<lparr>bi_market_id = i, bi_payout = payout, bi_status = Settled\<rparr>)))))"
  by (auto simp: redeem_item_def redeem_one_def andThen_assoc on_settle_item Let_def
      save_position_def split: option.split sum.split)

lemma claim_item_eq:
  "claim_item h i c =
     (case mc_markets c i of None \<Rightarrow> Inr (batch_skip i SkipNotFound)
      | Some m \<Rightarrow>
        if mk_creator m \<noteq> h then Inr (batch_skip i SkipNotCreator)
        else
        (case market_settlement m of Inl _ \<Rightarrow> Inr (batch_skip i SkipNotFinal)
         | Inr kind \<Rightarrow>
           if mk_lp_claimed m \<or> settle_closed i c then Inr (batch_skip i SkipAlreadyClaimed)
           else andThen (settle_value kind (mk_reserve_yes m) (mk_reserve_no m)) (\<lambda>pool_value.
             andThen (ok_or McOverflow (checked_add pool_value (load_lp_fees i c))) (\<lambda>payout.
               (case mc_settles c i of
                  None \<Rightarrow> Inr \<lparr>bi_market_id = i, bi_payout = payout, bi_status = Settled\<rparr>
                | Some s \<Rightarrow> andThen (settle_pay payout s)
                    (\<lambda>_. Inr \<lparr>bi_market_id = i, bi_payout = payout, bi_status = Settled\<rparr>))))))"
  by (auto simp: claim_item_def claim_one_def andThen_assoc on_settle_item Let_def
      save_market_def save_lp_fees_def split: option.split sum.split)

lemma redeem_item_local:
  assumes "local_eq i c c'"
  shows "redeem_item h i c' = redeem_item h i c"
  unfolding redeem_item_eq local_eqD [OF assms] ..

lemma claim_item_local:
  assumes "local_eq i c c'"
  shows "claim_item h i c' = claim_item h i c"
  unfolding claim_item_eq local_eqD [OF assms] ..

lemma on_settle_local:
  assumes "on_settle i f c = Inr c'" and "j \<noteq> i"
  shows "local_eq j c c'"
  using on_settle_ok [OF assms(1)] assms(2) by (auto simp: local_eq_def save_settle_def)

lemma local_eq_trans: "local_eq j a b \<Longrightarrow> local_eq j b c \<Longrightarrow> local_eq j a c"
  by (simp add: local_eq_def)

lemma redeem_one_local:
  assumes "redeem_one h i c = Inr (item, c')" and "j \<noteq> i"
  shows "local_eq j c c'"
  using assms(1)
proof (cases rule: redeem_one_cases)
  case (2 m kind v c1)
  have "local_eq j c (save_position i h \<lparr>ps_yes = 0, ps_no = 0\<rparr> c)"
    using assms(2) by (simp add: local_eq_def save_position_def)
  moreover have "local_eq j c1 c'" by (simp add: 2(8) local_eq_def publish_def)
  ultimately show ?thesis using on_settle_local [OF 2(6) assms(2)] local_eq_trans by blast
qed (simp add: local_eq_def)

lemma claim_one_local:
  assumes "claim_one h i c = Inr (item, c')" and "j \<noteq> i"
  shows "local_eq j c c'"
  using assms(1)
proof (cases rule: claim_one_cases)
  case (2 m kind pv v c1)
  have "local_eq j c (save_market i
      (m\<lparr>mk_reserve_yes := 0, mk_reserve_no := 0, mk_lp_claimed := True\<rparr>) (save_lp_fees i 0 c))"
    using assms(2) by (simp add: local_eq_def save_market_def save_lp_fees_def)
  moreover have "local_eq j c1 c'" by (simp add: 2(10) local_eq_def publish_def)
  ultimately show ?thesis using on_settle_local [OF 2(8) assms(2)] local_eq_trans by blast
qed (simp add: local_eq_def)

lemma strictly_ascending_less:
  "strictly_ascending (i # ids) \<Longrightarrow> strictly_ascending ids \<and> (\<forall>j\<in>set ids. i < j)"
proof (induction ids arbitrary: i)
  case (Cons a ids)
  then have "i < a" "strictly_ascending (a # ids)" by auto
  then show ?case using Cons.IH [of a] by auto
qed simp

lemma strictly_ascending_distinct: "strictly_ascending ids \<Longrightarrow> distinct ids"
proof (induction ids)
  case (Cons i ids)
  then show ?case using strictly_ascending_less [of i ids] by auto
qed simp

section \<open>The interface of a batched operation\<close>

text \<open>What the batch loop needs of the operation it repeats: it reports the market it was given,
  pays nothing when it skips, and neither reads nor writes another market's entries.\<close>

locale batched =
  fixes one :: "nat \<Rightarrow> 't mc \<Rightarrow> (batch_item \<times> 't mc) mc_res"
    and item_of :: "nat \<Rightarrow> 't mc \<Rightarrow> batch_item mc_res"
  assumes item_of: "item_of i c = andThen (one i c) (\<lambda>(item, _). Inr item)"
    and item_local: "local_eq i c c' \<Longrightarrow> item_of i c' = item_of i c"
    and one_local: "one i c = Inr (item, c') \<Longrightarrow> j \<noteq> i \<Longrightarrow> local_eq j c c'"
    and skip_free: "one i c = Inr (item, c') \<Longrightarrow> bi_status item \<noteq> Settled \<Longrightarrow> bi_payout item = 0"
begin

lemma loop_items:
  assumes "batch_loop one ids tot items c = Inr ((tot', items'), c')" and "distinct ids"
  shows "\<exists>its. items' = items @ its \<and> List.map (\<lambda>i. item_of i c) ids = List.map Inr its
    \<and> tot' = tot + sum_list (List.map bi_payout its)"
  using assms
proof (induction ids arbitrary: tot items c)
  case (Cons i ids)
  then obtain item d where d: "one i c = Inr (item, d)" by (auto simp: res_simps)
  define tot1 where "tot1 = tot + bi_payout item"
  have rest: "batch_loop one ids tot1 (items @ [item]) d = Inr ((tot', items'), c')"
    using Cons.prems(1) d skip_free [OF d]
    by (auto simp: res_simps int_ops tot1_def split: if_splits)
  obtain its where its: "items' = (items @ [item]) @ its"
      "List.map (\<lambda>i. item_of i d) ids = List.map Inr its"
      "tot' = tot1 + sum_list (List.map bi_payout its)"
    using Cons.IH [OF rest] Cons.prems(2) by auto
  have "item_of j d = item_of j c" if "j \<in> set ids" for j
    using that Cons.prems(2) item_local [OF one_local [OF d]] by (cases "j = i") auto
  then have "List.map (\<lambda>i. item_of i d) ids = List.map (\<lambda>i. item_of i c) ids" by simp
  moreover have "item_of i c = Inr item" by (simp add: item_of d)
  ultimately have "List.map (\<lambda>i. item_of i c) (i # ids) = List.map Inr (item # its)"
    using its(2) by simp
  then show ?case using its(1,3) by (intro exI [of _ "item # its"]) (simp add: tot1_def)
qed simp

lemma batch_items:
  assumes "settle_batch one T E h ids c = Inr (r, c')"
  shows "e_auth E h \<and> 0 < length ids \<and> length ids \<le> MAX_BATCH \<and> distinct ids
    \<and> List.map (\<lambda>i. item_of i c) ids = List.map Inr (br_items r)
    \<and> br_total r = sum_list (List.map bi_payout (br_items r))"
proof -
  obtain tot items c1 where 1: "e_auth E h" "validate_batch ids = Inr ()"
      "batch_loop one ids 0 [] c = Inr ((tot, items), c1)" "r = \<lparr>br_total = tot, br_items = items\<rparr>"
    using assms by (auto simp: settle_batch_def res_simps int_ops split: prod.splits)
  have v: "0 < length ids" "length ids \<le> MAX_BATCH" "strictly_ascending ids"
    using 1(2) by (auto simp: validate_batch_def split: if_splits)
  show ?thesis
    using loop_items [OF 1(3) strictly_ascending_distinct [OF v(3)]] v 1(1,4)
      strictly_ascending_distinct [OF v(3)] by auto
qed

end

interpretation redeems: batched "redeem_one h" "redeem_item h" for h
  by unfold_locales
    (rule redeem_item_def, erule redeem_item_local, erule (1) redeem_one_local,
      erule redeem_one_cases, simp_all)

interpretation claims: batched "claim_one h" "claim_item h" for h
  by unfold_locales
    (rule claim_item_def, erule claim_item_local, erule (1) claim_one_local,
      erule claim_one_cases, simp_all)

section \<open>One by one\<close>

text \<open>The specification of a batch: call \<open>redeem\<close> for each market in turn, with a token that accepts every
  transfer, so that only the bookkeeping remains, and turn the refusals of a single call into skips;
  any other failure ends the batch.\<close>

definition unpaid :: "'t token" where
  "unpaid = \<lparr>tk_transfer = (\<lambda>coll from to amt t. Some t), tk_balance = (\<lambda>coll t a. 0)\<rparr>"

fun skip_of :: "mc_error fail \<Rightarrow> skip_reason option" where
  "skip_of (Err McMarketNotFound) = Some SkipNotFound"
| "skip_of (Err McNotFinal) = Some SkipNotFinal"
| "skip_of (Err McRedemptionClosed) = Some SkipNothingToRedeem"
| "skip_of (Err McNothingToRedeem) = Some SkipNothingToRedeem"
| "skip_of _ = None"

definition try_redeem :: "env \<Rightarrow> address \<Rightarrow> nat \<Rightarrow> 't mc \<Rightarrow> (batch_item \<times> 't mc) mc_res" where
  "try_redeem E h i c =
     (case redeem unpaid E h i c of
        Inr (v, c1) \<Rightarrow> Inr (\<lparr>bi_market_id = i, bi_payout = v, bi_status = Settled\<rparr>, c1)
      | Inl e \<Rightarrow> (case skip_of e of Some why \<Rightarrow> Inr (batch_skip i why, c) | None \<Rightarrow> Inl e))"

fun one_by_one :: "env \<Rightarrow> address \<Rightarrow> nat list \<Rightarrow> 't mc \<Rightarrow> (batch_item list \<times> 't mc) mc_res" where
  "one_by_one E h [] c = Inr ([], c)"
| "one_by_one E h (i # ids) c =
     andThen (try_redeem E h i c) (\<lambda>(item, c1).
     andThen (one_by_one E h ids c1) (\<lambda>(items, c2). Inr (item # items, c2)))"

lemma pay_out_unpaid:
  "in_collateral (mc_inst c) = Some coll \<Longrightarrow> pay_out unpaid E h v c = Inr c"
  by (simp add: pay_out_def token_transfer_def instance_get_def unpaid_def)

lemma settle_errors:
  "settle_value kind y n = Inl e \<Longrightarrow> skip_of e = None"
  "settle_redeem pos v s = Inl e \<Longrightarrow> skip_of e = None"
  by (cases kind; auto simp: i128_defs split: if_splits)
    (auto simp: settle_redeem_def checked_add_def checked_sub_def checked_i128_def split: if_splits)

lemma redeem_one_is_redeem:
  assumes "e_auth E h" and coll: "in_collateral (mc_inst c) = Some coll"
  shows "redeem_one h i c = try_redeem E h i c"
proof (cases "mc_markets c i")
  case None
  then show ?thesis using assms(1) by (simp add: redeem_one_def try_redeem_def redeem_def load_market_def require_auth_def)
next
  case (Some m)
  note pre = Some assms(1)
  show ?thesis
  proof (cases "market_settlement m")
    case (Inl e)
    then have "e = Err McNotFinal"
      unfolding market_settlement_def by (cases "mk_status m" rule: settlement_of.cases) auto
    then show ?thesis
      using pre Inl by (simp add: redeem_one_def try_redeem_def redeem_def load_market_def require_auth_def)
  next
    case (Inr kind)
    let ?pos = "load_position i h c" and ?c0 = "save_position i h \<lparr>ps_yes = 0, ps_no = 0\<rparr> c"
    show ?thesis
    proof (cases "settle_closed i c \<or> ps_yes ?pos = 0 \<and> ps_no ?pos = 0")
      case True
      then show ?thesis
        using pre Inr by (auto simp: redeem_one_def try_redeem_def redeem_def load_market_def require_auth_def
            assert_not_closed_def Let_def)
    next
      case False
      have errs: "skip_of e = None" if "on_settle i (settle_redeem ?pos v) ?c0 = Inl e" for v e
        using that settle_errors(2) [of ?pos v]
        by (cases "mc_settles c i"; cases "settle_redeem ?pos v (the (mc_settles c i))")
          (auto simp: on_settle_def save_position_def)
      have paid: "pay_out unpaid E h v c1 = Inr c1" if "on_settle i (settle_redeem ?pos v) ?c0 = Inr c1" for v c1
        by (rule pay_out_unpaid [of _ coll]) (use on_settle_inst [OF that] coll in \<open>simp add: save_position_def\<close>)
      show ?thesis
      proof (cases "settle_value kind (ps_yes ?pos) (ps_no ?pos) :: int mc_res")
        case (Inl e)
        then show ?thesis
          using pre Inr False settle_errors(1) [OF Inl]
          by (simp add: redeem_one_def try_redeem_def redeem_def load_market_def require_auth_def assert_not_closed_def Let_def)
      next
        case v: (Inr v)
        show ?thesis
          using pre Inr False v errs [of v] paid [of v]
          by (cases "on_settle i (settle_redeem ?pos v) ?c0")
            (auto simp: redeem_one_def try_redeem_def redeem_def load_market_def require_auth_def assert_not_closed_def Let_def)
      qed
    qed
  qed
qed

text \<open>The loop makes the same calls, and adds the payouts within the range of i128.\<close>

fun sums_fit :: "int \<Rightarrow> int list \<Rightarrow> bool" where
  "sums_fit tot [] \<longleftrightarrow> True"
| "sums_fit tot (v # vs) \<longleftrightarrow> in_i128 (tot + v) \<and> sums_fit (tot + v) vs"

lemma batch_loop_one_by_one:
  assumes "e_auth E h" and "in_collateral (mc_inst c) = Some coll" and "in_i128 tot"
  shows "batch_loop (redeem_one h) ids tot items c = Inr ((tot', items'), c') \<longleftrightarrow>
    (\<exists>its. one_by_one E h ids c = Inr (its, c') \<and> items' = items @ its \<and> tot' = tot + sum_list (List.map bi_payout its)
       \<and> sums_fit tot (List.map bi_payout its))"
  using assms(2,3)
proof (induction ids arbitrary: tot items c)
  case Nil
  then show ?case by auto
next
  case (Cons i ids)
  note same = redeem_one_is_redeem [OF assms(1) Cons.prems(1), of i]
  show ?case
  proof (cases "redeem_one h i c")
    case (Inl e)
    then show ?thesis using same by simp
  next
    case (Inr x)
    obtain item d where x: "x = (item, d)" by (cases x)
    have one: "redeem_one h i c = Inr (item, d)" "try_redeem E h i c = Inr (item, d)" using Inr x same by simp_all
    have coll: "in_collateral (mc_inst d) = Some coll" using redeem_one_inst [OF one(1)] Cons.prems(1) by simp
    have "bi_status item \<noteq> Settled \<Longrightarrow> bi_payout item = 0" using redeems.skip_free [OF one(1)] by simp
    then have "batch_loop (redeem_one h) (i # ids) tot items c = Inr ((tot', items'), c') \<longleftrightarrow> in_i128 (tot + bi_payout item)
        \<and> batch_loop (redeem_one h) ids (tot + bi_payout item) (items @ [item]) d = Inr ((tot', items'), c')"
      using Cons.prems(2) by (cases "bi_status item = Settled") (simp_all add: one(1) res_simps int_ops)
    also have "\<dots> \<longleftrightarrow> in_i128 (tot + bi_payout item) \<and> (\<exists>its. one_by_one E h ids d = Inr (its, c') \<and> items' = (items @ [item]) @ its
        \<and> tot' = tot + bi_payout item + sum_list (List.map bi_payout its)
        \<and> sums_fit (tot + bi_payout item) (List.map bi_payout its))"
      using Cons.IH [OF coll, of "tot + bi_payout item" "items @ [item]"] by blast
    finally show ?thesis by (auto simp: one(2) res_simps add.assoc)
  qed
qed

lemma redeem_one_tok: "redeem_one h i c = Inr (item, c') \<Longrightarrow> mc_tok c' = mc_tok c"
  by (erule redeem_one_cases) (auto dest!: on_settle_ok simp: save_settle_def save_position_def publish_def)

lemma one_by_one_same:
  assumes "e_auth E h" and "in_collateral (mc_inst c) = Some coll" and "one_by_one E h ids c = Inr (its, c')"
  shows "mc_tok c' = mc_tok c" and "mc_inst c' = mc_inst c"
proof -
  have "mc_tok c' = mc_tok c \<and> mc_inst c' = mc_inst c"
    using assms(2,3)
  proof (induction ids arbitrary: c its)
    case (Cons i ids)
    from Cons.prems(2) obtain item d js where d: "try_redeem E h i c = Inr (item, d)" "one_by_one E h ids d = Inr (js, c')"
      by (auto simp: res_simps split: prod.splits)
    have "redeem_one h i c = Inr (item, d)" using redeem_one_is_redeem [OF assms(1) Cons.prems(1)] d(1) by simp
    then have "mc_tok d = mc_tok c" "mc_inst d = mc_inst c" using redeem_one_tok redeem_one_inst by blast+
    then show ?case using Cons.IH [OF _ d(2)] Cons.prems(1) by simp
  qed simp
  then show "mc_tok c' = mc_tok c" "mc_inst c' = mc_inst c" by simp_all
qed

lemma redeem_settles:
  assumes "redeem T E h i c = Inr (v, d)"
  shows "redeem_item h i c = Inr \<lparr>bi_market_id = i, bi_payout = v, bi_status = Settled\<rparr>"
  using assms
proof (rule redeem_ok)
  fix m kind d1 d2
  assume a: "mc_markets c i = Some m" "market_settlement m = Inr kind" "\<not> settle_closed i c"
    "\<not> (ps_yes (load_position i h c) = 0 \<and> ps_no (load_position i h c) = 0)"
    "settle_value kind (ps_yes (load_position i h c)) (ps_no (load_position i h c)) = (Inr v :: int mc_res)"
    "on_settle i (settle_redeem (load_position i h c) v)
      (save_position i h \<lparr>ps_yes = 0, ps_no = 0\<rparr> c) = Inr d1"
  show ?thesis
    using a(1-3,5,6) a(4) by (auto simp: redeem_item_def redeem_one_def Let_def)
qed

section \<open>Properties\<close>

text \<open>C34. Redeeming a batch is redeeming its markets one by one with a single transfer: the call succeeds
  exactly when the holder authorised it, the identifiers are at most the allowed number, at least one,
  and ascending, the single redemptions, made one after the other without their transfers, go through
  (a refused one is skipped), every partial sum of the payouts is in range, and the token executes one
  transfer of the whole sum from the contract to the holder (none when the sum is zero). The result is
  that of the single redemptions and that transfer; and a market that the holder could have redeemed
  by itself is settled by the batch with the same payout.\<close>

theorem redeem_many_is_one_by_one:
  assumes "in_collateral (mc_inst c) = Some coll"
  shows "(redeem_many T E h ids c = Inr (r, c') \<longleftrightarrow>
        e_auth E h \<and> 0 < length ids \<and> length ids \<le> MAX_BATCH \<and> strictly_ascending ids
      \<and> (\<exists>c1. one_by_one E h ids c = Inr (br_items r, c1) \<and> br_total r = sum_list (List.map bi_payout (br_items r))
           \<and> sums_fit 0 (List.map bi_payout (br_items r))
           \<and> (\<exists>t. (if 0 < br_total r then tk_transfer T coll (e_self E) h (br_total r) (mc_tok c) = Some t else t = mc_tok c)
                \<and> c' = c1\<lparr>mc_tok := t\<rparr>)))
    \<and> (\<forall>i v d. redeem_many T E h ids c = Inr (r, c') \<and> i \<in> set ids \<and> redeem T E h i c = Inr (v, d) \<longrightarrow>
         \<lparr>bi_market_id = i, bi_payout = v, bi_status = Settled\<rparr> \<in> set (br_items r))"
proof (intro conjI allI impI)
  have "redeem_many T E h ids c = Inr (r, c') \<longleftrightarrow> e_auth E h \<and> validate_batch ids = Inr ()
      \<and> (\<exists>c1. batch_loop (redeem_one h) ids 0 [] c = Inr ((br_total r, br_items r), c1)
           \<and> pay_out T E h (br_total r) c1 = Inr c')"
    by (cases r) (auto simp: redeem_many_def settle_batch_def res_simps int_ops split: prod.splits)
  moreover have "validate_batch ids = Inr () \<longleftrightarrow> 0 < length ids \<and> length ids \<le> MAX_BATCH \<and> strictly_ascending ids"
    by (auto simp: validate_batch_def)
  moreover have "batch_loop (redeem_one h) ids 0 [] c = Inr ((br_total r, br_items r), c1) \<longleftrightarrow>
      one_by_one E h ids c = Inr (br_items r, c1) \<and> br_total r = sum_list (List.map bi_payout (br_items r))
      \<and> sums_fit 0 (List.map bi_payout (br_items r))" if "e_auth E h" for c1
    using batch_loop_one_by_one [OF that assms, of 0 ids "[]"] by (auto simp: in_i128_def)
  moreover have "pay_out T E h v c1 = Inr c' \<longleftrightarrow>
      (\<exists>t. (if 0 < v then tk_transfer T coll (e_self E) h v (mc_tok c) = Some t else t = mc_tok c) \<and> c' = c1\<lparr>mc_tok := t\<rparr>)"
    if "e_auth E h" "one_by_one E h ids c = Inr (its, c1)" for v its c1
    using one_by_one_same [OF that(1) assms that(2)] assms by (auto simp: pay_out_def token_transfer_eq)
  ultimately show "redeem_many T E h ids c = Inr (r, c') \<longleftrightarrow>
        e_auth E h \<and> 0 < length ids \<and> length ids \<le> MAX_BATCH \<and> strictly_ascending ids
      \<and> (\<exists>c1. one_by_one E h ids c = Inr (br_items r, c1) \<and> br_total r = sum_list (List.map bi_payout (br_items r))
           \<and> sums_fit 0 (List.map bi_payout (br_items r))
           \<and> (\<exists>t. (if 0 < br_total r then tk_transfer T coll (e_self E) h (br_total r) (mc_tok c) = Some t else t = mc_tok c)
                \<and> c' = c1\<lparr>mc_tok := t\<rparr>))"
    by blast
next
  fix i v d
  assume a: "redeem_many T E h ids c = Inr (r, c') \<and> i \<in> set ids \<and> redeem T E h i c = Inr (v, d)"
  then have b: "List.map (\<lambda>i. redeem_item h i c) ids = List.map Inr (br_items r)"
    using redeems.batch_items unfolding redeem_many_def by blast
  have "redeem_item h i c = Inr \<lparr>bi_market_id = i, bi_payout = v, bi_status = Settled\<rparr>"
    using a redeem_settles by blast
  then have "Inr \<lparr>bi_market_id = i, bi_payout = v, bi_status = Settled\<rparr> \<in> set (List.map (\<lambda>i. redeem_item h i c) ids)"
    using a by force
  then show "\<lparr>bi_market_id = i, bi_payout = v, bi_status = Settled\<rparr> \<in> set (br_items r)" by (auto simp: b)
qed

lemma demo4_batch:
  "\<exists>c'. redeem_many ledger_token (demo_env 1002) 1 [0, 5] demo4
     = Inr (\<lparr>br_total = 1487487437, br_items =
         [\<lparr>bi_market_id = 0, bi_payout = 1487487437, bi_status = Settled\<rparr>,
          \<lparr>bi_market_id = 5, bi_payout = 0, bi_status = Skipped SkipNotFound\<rparr>]\<rparr>, c')"
  by (simp add: demo_eval demo_states)

theorem redeem_many_is_one_by_one_witness:
  "\<exists>c' c1 its t. redeem_many ledger_token (demo_env 1002) 1 [0, 5] demo4 = Inr (\<lparr>br_total = 1487487437, br_items = its\<rparr>, c')
     \<and> one_by_one (demo_env 1002) 1 [0, 5] demo4 = Inr (its, c1)
     \<and> tk_transfer ledger_token 50 100 1 1487487437 (mc_tok demo4) = Some t \<and> c' = c1\<lparr>mc_tok := t\<rparr>"
proof -
  obtain c' where c': "redeem_many ledger_token (demo_env 1002) 1 [0, 5] demo4
     = Inr (\<lparr>br_total = 1487487437, br_items =
         [\<lparr>bi_market_id = 0, bi_payout = 1487487437, bi_status = Settled\<rparr>,
          \<lparr>bi_market_id = 5, bi_payout = 0, bi_status = Skipped SkipNotFound\<rparr>]\<rparr>, c')" using demo4_batch by blast
  have "in_collateral (mc_inst demo4) = Some 50" "e_self (demo_env 1002) = 100" by (simp_all add: demo_states demo_env_def)
  from iffD1 [OF conjunct1 [OF redeem_many_is_one_by_one [OF this(1)]] c'] this(2) c' show ?thesis by auto
qed

text \<open>Likewise for the pool's owner: a batch of claims gives each market the item it gives by
  itself in the state before the call, skipping the markets of other creators, and transfers the
  sum of the payouts.\<close>

lemma claim_pool_remainders_is_one_by_one:
  assumes "claim_pool_remainders T E h ids c = Inr (r, c')"
  shows "distinct ids \<and> List.map (\<lambda>i. claim_item h i c) ids = List.map Inr (br_items r)
    \<and> br_total r = sum_list (List.map bi_payout (br_items r))
    \<and> (\<forall>i m. i \<in> set ids \<and> mc_markets c i = Some m \<and> mk_creator m \<noteq> h \<longrightarrow>
         batch_skip i SkipNotCreator \<in> set (br_items r))"
proof -
  have b: "List.map (\<lambda>i. claim_item h i c) ids = List.map Inr (br_items r)"
    "distinct ids" "br_total r = sum_list (List.map bi_payout (br_items r))"
    using claims.batch_items [OF assms [unfolded claim_pool_remainders_def]] by auto
  have "batch_skip i SkipNotCreator \<in> set (br_items r)"
    if "i \<in> set ids" "mc_markets c i = Some m" "mk_creator m \<noteq> h" for i m
  proof -
    have "claim_item h i c = Inr (batch_skip i SkipNotCreator)"
      using that(2,3) by (simp add: claim_item_eq)
    then have "Inr (batch_skip i SkipNotCreator) \<in> set (List.map (\<lambda>i. claim_item h i c) ids)"
      using that(1) by force
    then show ?thesis by (auto simp: b(1))
  qed
  then show ?thesis using b by blast
qed

lemma demo3_claims:
  "\<exists>c'. claim_pool_remainders ledger_token (demo_env 1001) 3 [0] demo3
     = Inr (\<lparr>br_total = 0, br_items = [batch_skip 0 SkipNotCreator]\<rparr>, c')"
  by (simp add: demo_eval demo_states)

theorem claim_pool_remainders_is_one_by_one_witness:
  "claim_item 3 0 demo3 = Inr (batch_skip 0 SkipNotCreator)"
proof -
  from demo3_claims obtain c' where "claim_pool_remainders ledger_token (demo_env 1001) 3 [0] demo3
     = Inr (\<lparr>br_total = 0, br_items = [batch_skip 0 SkipNotCreator]\<rparr>, c')" by blast
  from claim_pool_remainders_is_one_by_one [OF this] show ?thesis by simp
qed

end
