(* ===== verification/MarketClosing.thy ===== *)
theory MarketClosing
  imports MarketRules MarketBatch
begin

text \<open>
  The end of a market: how a final market's books evolve in every later state, when it can be
  closed, and what is refused afterwards.
\<close>

section \<open>The books of a final market\<close>

text \<open>What was paid out so far and what the outstanding shares can still claim.\<close>

definition paid_or_due :: "market \<Rightarrow> settle_state \<Rightarrow> int" where
  "paid_or_due m s = st_paid_out s + claim_value (mk_status m) (st_outstanding_yes s) (st_outstanding_no s)"

text \<open>What \<open>finalize_market\<close> sweeps once the pool is claimed and its fees are gone.\<close>

definition left_over :: "market \<Rightarrow> settle_state \<Rightarrow> int" where
  "left_over m s = mk_sets_minted m - st_paid_out s + mk_fees_accrued m"

definition books_move :: "market \<times> settle_state \<Rightarrow> market \<times> settle_state \<Rightarrow> bool" where
  "books_move x y \<longleftrightarrow> (case (x, y) of ((m, s), (m', s')) \<Rightarrow>
     mk_status m' = mk_status m \<and> mk_sets_minted m' = mk_sets_minted m \<and> mk_lp_claimed m'
   \<and> 0 \<le> mk_fees_accrued m' \<and> mk_fees_accrued m' \<le> mk_fees_accrued m \<and> st_paid_out s \<le> st_paid_out s'
   \<and> (st_closed s \<longrightarrow> st_closed s') \<and> (\<not> st_closed s \<and> left_over m s < 0 \<longrightarrow> \<not> st_closed s')
   \<and> (\<not> st_closed s' \<and> mk_status m \<noteq> Void \<longrightarrow> paid_or_due m' s' = paid_or_due m s))"

lemma claim_value_split:
  "st \<noteq> Void \<Longrightarrow> claim_value st (Y - y) (N - n) + claim_value st y n = claim_value st Y N"
  by (cases st rule: settlement_of.cases) auto

lemma books_move_trans: "books_move x y \<Longrightarrow> books_move y z \<Longrightarrow> books_move x z"
  by (cases x; cases y; cases z) (auto simp: books_move_def left_over_def)

lemma market_step_books:
  assumes "market_step E I (m, s) (m', s')" and "mk_status m \<noteq> Open" "mk_lp_claimed m" "0 \<le> mk_fees_accrued m"
  shows "books_move (m, s) (m', s')"
  using assms(1)
proof (cases rule: market_step.cases)
  case (ms_redeem y n v)
  have "0 \<le> v" using ms_redeem by (simp add: claim_value_nonneg)
  moreover have "mk_status m \<noteq> Void \<longrightarrow> claim_value (mk_status m) (st_outstanding_yes s - y) (st_outstanding_no s - n) + v
      = claim_value (mk_status m) (st_outstanding_yes s) (st_outstanding_no s)"
    using ms_redeem claim_value_split by blast
  ultimately show ?thesis using assms(2-4) ms_redeem by (auto simp: books_move_def paid_or_due_def)
qed (use assms(2-4) in \<open>auto simp: books_move_def paid_or_due_def left_over_def\<close>)

lemma market_steps_books:
  assumes "(market_step E I)\<^sup>*\<^sup>* x y" and "mk_status (fst x) \<noteq> Open" "mk_lp_claimed (fst x)" "0 \<le> mk_fees_accrued (fst x)"
    and "books_move w x"
  shows "books_move w y"
  using assms(1)
proof (induction rule: rtranclp_induct)
  case base
  then show ?case by (rule assms(5))
next
  case (step y z)
  obtain m s m1 s1 m2 s2 where xyz: "x = (m, s)" "y = (m1, s1)" "z = (m2, s2)" by (cases x; cases y; cases z) auto
  obtain m0 s0 where w: "w = (m0, s0)" by (cases w)
  have "mk_status m1 \<noteq> Open" "mk_lp_claimed m1" "0 \<le> mk_fees_accrued m1"
    using step.IH assms(2,5) by (auto simp: books_move_def xyz w)
  then show ?case using market_step_books step(2) books_move_trans [OF step.IH] by (simp add: xyz)
qed

section \<open>Later states\<close>

lemma final_later:
  assumes "mc_reachable T peer self c" and "token_ok T" and "(mc_step T peer self)\<^sup>*\<^sup>* c v"
    and m: "mc_markets c i = Some m" "mc_settles c i = Some s" "mk_status m \<noteq> Open"
  obtains m' s' where "mc_reachable T peer self v" "mc_markets v i = Some m'" "mc_settles v i = Some s'"
    "mk_status m' = mk_status m" "st_closed s \<Longrightarrow> st_closed s'"
    "mk_lp_claimed m \<Longrightarrow> books_move (m, s) (m', s')"
proof -
  have start: "books_move (m, s) (m, s)" if "mk_lp_claimed m"
  proof -
    have "market_inv m s (load_lp_fees i c) (mc_positions c i)"
      using mc_invD [OF mc_reachable_inv [OF assms(1,2)] m(1)] m(2) by (metis option.inject)
    then show ?thesis using that by (simp add: books_move_def market_inv_def)
  qed
  from assms(3) have "mc_reachable T peer self v \<and> (\<exists>m' s'. mc_markets v i = Some m' \<and> mc_settles v i = Some s'
      \<and> mk_status m' = mk_status m \<and> (st_closed s \<longrightarrow> st_closed s') \<and> (mk_lp_claimed m \<longrightarrow> books_move (m, s) (m', s')))"
  proof (induction rule: rtranclp_induct)
    case base
    then show ?case using assms(1) m start by auto
  next
    case (step u v)
    then obtain m1 s1 where u: "mc_reachable T peer self u" "mc_markets u i = Some m1" "mc_settles u i = Some s1"
        "mk_status m1 = mk_status m" "st_closed s \<longrightarrow> st_closed s1" "mk_lp_claimed m \<longrightarrow> books_move (m, s) (m1, s1)"
      by blast
    note reach = reach_step [OF u(1) step(2)]
    from step(2) show ?case
    proof (rule mc_stepE)
      fix E call
      assume ex: "exec T peer E call u = Inr v"
      obtain m2 s2 where v: "mc_markets v i = Some m2" "mc_settles v i = Some s2"
          "(market_step E (mc_inst u))\<^sup>*\<^sup>* (m1, s1) (m2, s2)"
        by (rule reachable_advances [OF u(1) assms(2) ex u(2)]) (use u(3) in auto)
      have "books_move (m, s) (m2, s2)" if "mk_lp_claimed m"
      proof (rule market_steps_books [OF v(3)])
        show "books_move (m, s) (m1, s1)" using u(6) that by blast
        then show "mk_lp_claimed (fst (m1, s1))" "0 \<le> mk_fees_accrued (fst (m1, s1))"
          by (simp_all add: books_move_def)
      qed (use u(4) m(3) in simp)
      then show ?thesis
        using market_steps_terms [OF v(3)] reach v(1,2) u(4,5) m(3) by (auto simp: same_terms_def)
    next
      fix coll t
      assume "v = u\<lparr>mc_tok := t\<rparr>"
      then show ?thesis using reach u by auto
    qed
  qed
  then show ?thesis using that by blast
qed

section \<open>What a closed market refuses\<close>

lemma closed_refuses:
  assumes "mc_markets v i = Some m" and "mc_settles v i = Some s" and "mk_status m \<noteq> Open" and "st_closed s"
  shows "e_auth E h \<Longrightarrow> redeem T E h i v = Inl (Err McRedemptionClosed)"
    and "finalize_market T E i v = Inl (Err McRedemptionClosed)"
    and "e_auth E (mk_creator m) \<Longrightarrow> claim_pool_remainder T E i v = Inl (Err McRedemptionClosed)"
    and "redeem_item h i v = Inr (batch_skip i SkipNothingToRedeem)"
    and "claim_item h i v = Inr (batch_skip i SkipAlreadyClaimed) \<or> claim_item h i v = Inr (batch_skip i SkipNotCreator)"
proof -
  obtain kind where "market_settlement m = Inr kind"
    using assms(3) unfolding market_settlement_def by (cases "mk_status m" rule: settlement_of.cases) auto
  moreover have "settle_closed i v" using assms(2,4) by (simp add: settle_closed_def)
  ultimately show "e_auth E h \<Longrightarrow> redeem T E h i v = Inl (Err McRedemptionClosed)"
    "finalize_market T E i v = Inl (Err McRedemptionClosed)"
    "e_auth E (mk_creator m) \<Longrightarrow> claim_pool_remainder T E i v = Inl (Err McRedemptionClosed)"
    "redeem_item h i v = Inr (batch_skip i SkipNothingToRedeem)"
    "claim_item h i v = Inr (batch_skip i SkipAlreadyClaimed) \<or> claim_item h i v = Inr (batch_skip i SkipNotCreator)"
    using assms(1,2,4)
    by (auto simp: redeem_def claim_pool_remainder_def finalize_market_def load_market_def load_settle_def
        require_auth_def assert_not_closed_def redeem_item_eq claim_item_eq)
qed

lemma redeem_item_id: "redeem_item h i c = Inr item \<Longrightarrow> bi_market_id item = i"
  by (auto simp: redeem_item_eq batch_skip_def Let_def res_simps split: option.splits sum.splits if_splits)

lemma claim_item_id: "claim_item h i c = Inr item \<Longrightarrow> bi_market_id item = i"
  by (auto simp: claim_item_eq batch_skip_def Let_def res_simps split: option.splits sum.splits if_splits)

lemma closed_batches:
  assumes "mc_markets v i = Some m" and "mc_settles v i = Some s" and "mk_status m \<noteq> Open" and "st_closed s"
    and "redeem_many T E h ids v = Inr (r, v') \<or> claim_pool_remainders T E h ids v = Inr (r, v')"
    and "item \<in> set (br_items r)" and "bi_market_id item = i"
  shows "bi_payout item = 0"
proof -
  have free: "bi_payout x = 0" if "redeem_item h i v = Inr x \<or> claim_item h i v = Inr x" for x
    using closed_refuses(4,5) [OF assms(1-4), of h] that by (auto simp: batch_skip_def)
  from assms(5) show ?thesis
  proof
    assume "redeem_many T E h ids v = Inr (r, v')"
    then have "List.map (\<lambda>j. redeem_item h j v) ids = List.map Inr (br_items r)"
      using redeems.batch_items unfolding redeem_many_def by blast
    then obtain j where "redeem_item h j v = Inr item" using assms(6) by (metis image_iff list.set_map)
    then show ?thesis using redeem_item_id assms(7) free by blast
  next
    assume "claim_pool_remainders T E h ids v = Inr (r, v')"
    then have "List.map (\<lambda>j. claim_item h j v) ids = List.map Inr (br_items r)"
      using claims.batch_items unfolding claim_pool_remainders_def by blast
    then obtain j where "claim_item h j v = Inr item" using assms(6) by (metis image_iff list.set_map)
    then show ?thesis using claim_item_id assms(7) free by blast
  qed
qed

section \<open>Resolved markets pay their sets\<close>

text \<open>Until its pool is claimed, what a resolved market has paid, what its shares can claim and what its
  pool is worth are together its complete sets.\<close>

definition sets_balance :: "market \<times> settle_state \<Rightarrow> bool" where
  "sets_balance x \<longleftrightarrow> (case x of (m, s) \<Rightarrow>
     (mk_status m = Open \<longrightarrow> mk_reserve_yes m + st_outstanding_yes s = mk_sets_minted m
        \<and> mk_reserve_no m + st_outstanding_no s = mk_sets_minted m \<and> st_paid_out s = 0)
   \<and> ((\<exists>oc. mk_status m = Resolved oc) \<and> \<not> mk_lp_claimed m \<and> \<not> st_closed s \<longrightarrow>
        paid_or_due m s + claim_value (mk_status m) (mk_reserve_yes m) (mk_reserve_no m) = mk_sets_minted m))"

lemma market_step_balance:
  assumes "market_step E I x y" and "sets_balance x"
  shows "sets_balance y"
  using assms(1)
proof (cases rule: market_step.cases)
  case (ms_buy m oc rb ro cin q prot s)
  then show ?thesis using assms(2) calc_buyD [OF ms_buy(7)] by (cases oc) (auto simp: sets_balance_def)
next
  case (ms_sell m oc rs ro cout q prot s)
  then show ?thesis using assms(2) calc_sellD [OF ms_sell(7)] by (cases oc) (auto simp: sets_balance_def)
next
  case (ms_final a m st s)
  then show ?thesis
    using assms(2) by (cases st rule: settlement_of.cases) (auto simp: sets_balance_def paid_or_due_def)
next
  case (ms_redeem m s y n v)
  have "mk_status m \<noteq> Void \<longrightarrow> claim_value (mk_status m) (st_outstanding_yes s - y) (st_outstanding_no s - n) + v
      = claim_value (mk_status m) (st_outstanding_yes s) (st_outstanding_no s)"
    using ms_redeem claim_value_split by blast
  then show ?thesis using assms(2) ms_redeem by (auto simp: sets_balance_def paid_or_due_def)
qed (use assms(2) in \<open>auto simp: sets_balance_def paid_or_due_def\<close>)

lemma exec_new_market_open:
  assumes "mc_inv T self c" and "mc_inv T self c'" and "exec T peer E call c = Inr c'"
    and "mc_markets c i = None" and "mc_markets c' i = Some m"
  shows "mk_status m = Open"
proof -
  obtain n where n: "in_next_id (mc_inst c') = Some n" "i < n"
    using mc_invD [OF assms(2,5)] by metis
  have old: "\<not> i < k" if "in_next_id (mc_inst c) = Some k" for k
    using assms(1,4) that by (auto simp: mc_inv_def mc_inv_owing_def market_at_inv_def)
  from exec_inst [OF assms(3)] show ?thesis
  proof (elim disjE exE conjE)
    fix a qh rh uri cat close seed p j
    assume "create_market T E a qh rh uri cat close seed p c = Inr (j, c')"
    then show ?thesis
      by (rule create_market_ok) (use assms(4,5) in \<open>auto split: if_splits\<close>)
  qed (use config_call_next_id [OF assms(3)] old n in auto)
qed

lemma reachable_balance:
  assumes "mc_reachable T peer self c" and "token_ok T" and "mc_markets c i = Some m" and "mc_settles c i = Some s"
  shows "sets_balance (m, s)"
  using assms(1,3,4)
proof (induction arbitrary: m s rule: mc_reachable.induct)
  case (reach_init admin coll treasury resolver fee share t c)
  then show ?case by (auto simp: constructor_def deployed_def split: if_splits)
next
  case (reach_step c c')
  note reach = mc_reachable.reach_step [OF reach_step(1,2)]
  from reach_step(2) show ?case
  proof (rule mc_stepE)
    fix E call
    assume ex: "exec T peer E call c = Inr c'"
    show ?thesis
    proof (cases "mc_markets c i")
      case None
      have inv: "mc_inv T self c'" using mc_reachable_inv [OF reach assms(2)] .
      have "mk_status m = Open"
        by (rule exec_new_market_open [OF mc_reachable_inv [OF reach_step(1) assms(2)] inv ex None reach_step(4)])
      moreover have "market_inv m s (load_lp_fees i c') (mc_positions c' i)"
        using mc_invD [OF inv reach_step(4)] reach_step(5) by (metis option.inject)
      ultimately show ?thesis unfolding market_inv_def by (auto simp: sets_balance_def)
    next
      case (Some m0)
      obtain s0 where 0: "mc_settles c i = Some s0" "(market_step E (mc_inst c))\<^sup>*\<^sup>* (m0, s0) (m, s)"
        by (rule reachable_advances [OF reach_step(1) assms(2) ex Some]) (use reach_step(4,5) in auto)
      from 0(2) show ?thesis
        by (induction rule: rtranclp_induct) (use reach_step.IH [OF Some 0(1)] market_step_balance in blast)+
    qed
  next
    fix coll t
    assume "c' = c\<lparr>mc_tok := t\<rparr>"
    then show ?thesis using reach_step.IH [of m s] reach_step(4,5) by simp
  qed
qed

section \<open>Properties\<close>

text \<open>C11. A market is closed only when it is final and its redemption window is over: at least 180 days
  (and at most five years) after it became final. Closing transfers to the treasury exactly what the
  books say is left. In every later state of the contract each redemption, each pool claim and each
  further closing of the market is refused, and the batch calls pay nothing for it.\<close>

theorem closing_ends_redemption:
  assumes "mc_reachable T peer self c" and "token_ok T" and "e_self E = self" and "\<not> e_auth E self"
    and "finalize_market T E i c = Inr (swept, c')"
  shows "\<exists>m s coll treasury. mc_markets c i = Some m \<and> mc_settles c i = Some s \<and> mk_status m \<noteq> Open
      \<and> 180 * 86400 \<le> st_horizon_secs s \<and> st_horizon_secs s \<le> 1825 * 86400
      \<and> min u64_max (st_finalized_at s + st_horizon_secs s) \<le> e_now E
      \<and> in_collateral (mc_inst c) = Some coll \<and> in_treasury (mc_inst c) = Some treasury
      \<and> swept = mk_sets_minted m - st_paid_out s + mk_fees_accrued m + load_lp_fees i c
      \<and> tk_transfer T coll self treasury swept (mc_tok c) = Some (mc_tok c')
      \<and> (\<forall>v. (mc_step T peer self)\<^sup>*\<^sup>* c' v \<longrightarrow>
            (\<forall>E' h. e_auth E' h \<longrightarrow> redeem T E' h i v = Inl (Err McRedemptionClosed))
          \<and> (\<forall>E' mv. mc_markets v i = Some mv \<and> e_auth E' (mk_creator mv) \<longrightarrow>
               claim_pool_remainder T E' i v = Inl (Err McRedemptionClosed))
          \<and> (\<forall>E'. finalize_market T E' i v = Inl (Err McRedemptionClosed))
          \<and> (\<forall>E' h ids r w item. (redeem_many T E' h ids v = Inr (r, w) \<or> claim_pool_remainders T E' h ids v = Inr (r, w))
               \<and> item \<in> set (br_items r) \<and> bi_market_id item = i \<longrightarrow> bi_payout item = 0))"
  using assms(5)
proof (rule finalize_market_ok)
  fix m s kind unclaimed lp_claim coll treasury t
  assume a: "mc_markets c i = Some m" "market_settlement m = Inr kind" "mc_settles c i = Some s"
      "\<not> st_closed s" "sat_add_u64 (st_finalized_at s) (st_horizon_secs s) \<le> e_now E"
      "swept = mk_sets_minted m - st_paid_out s + mk_fees_accrued m + load_lp_fees i c"
      "in_collateral (mc_inst c) = Some coll" "in_treasury (mc_inst c) = Some treasury"
    and t: "tk_transfer T coll (e_self E) treasury swept (mc_tok c) = Some t"
    and c': "c' = publish (MarketFinalized i swept unclaimed
             (mk_sets_minted m - st_paid_out s - unclaimed - lp_claim))
           ((save_lp_fees i 0 (save_settle i
               (s\<lparr>st_outstanding_yes := 0, st_outstanding_no := 0, st_closed := True\<rparr>)
             (save_market i (m\<lparr>mk_reserve_yes := 0, mk_reserve_no := 0, mk_lp_claimed := True,
                mk_fees_accrued := 0\<rparr>) c)))\<lparr>mc_tok := t\<rparr>)"
  obtain s1 where "mc_settles c i = Some s1" "market_inv m s1 (load_lp_fees i c) (mc_positions c i)"
    using mc_invD [OF mc_reachable_inv [OF assms(1,2)] a(1)] by metis
  then have h: "180 * 86400 \<le> st_horizon_secs s" "st_horizon_secs s \<le> 1825 * 86400"
    using a(3) by (auto simp: market_inv_def MIN_REDEEM_HORIZON_SECS_def
        MAX_REDEEM_HORIZON_SECS_def DAY_SECS_def)
  have fin: "mk_status m \<noteq> Open" using a(2) by (auto simp: market_settlement_def)
  have m': "mc_markets c' i = Some (m\<lparr>mk_reserve_yes := 0, mk_reserve_no := 0, mk_lp_claimed := True,
                mk_fees_accrued := 0\<rparr>)"
    and s': "mc_settles c' i
      = Some (s\<lparr>st_outstanding_yes := 0, st_outstanding_no := 0, st_closed := True\<rparr>)"
    and tok: "mc_tok c' = t"
    by (simp_all add: c' store_defs)
  have "mc_step T peer self c c'"
    by (rule step_call [OF assms(3,4), of _ _ "CallFinalizeMarket i"]) (use assms(5) in \<open>simp add: state_of_def\<close>)
  note reach = reach_step [OF assms(1) this]
  have later: "\<exists>mv sv. mc_markets v i = Some mv \<and> mc_settles v i = Some sv \<and> mk_status mv \<noteq> Open \<and> st_closed sv"
    if "(mc_step T peer self)\<^sup>*\<^sup>* c' v" for v
    by (rule final_later [OF reach assms(2) that m' s']) (use fin in auto)
  have refused: "(\<forall>E' h. e_auth E' h \<longrightarrow> redeem T E' h i v = Inl (Err McRedemptionClosed))
      \<and> (\<forall>E' mv. mc_markets v i = Some mv \<and> e_auth E' (mk_creator mv) \<longrightarrow>
           claim_pool_remainder T E' i v = Inl (Err McRedemptionClosed))
      \<and> (\<forall>E'. finalize_market T E' i v = Inl (Err McRedemptionClosed))
      \<and> (\<forall>E' h ids r w item. (redeem_many T E' h ids v = Inr (r, w) \<or> claim_pool_remainders T E' h ids v = Inr (r, w))
           \<and> item \<in> set (br_items r) \<and> bi_market_id item = i \<longrightarrow> bi_payout item = 0)"
    if run: "(mc_step T peer self)\<^sup>*\<^sup>* c' v" for v
  proof -
    obtain mv sv where v: "mc_markets v i = Some mv" "mc_settles v i = Some sv" "mk_status mv \<noteq> Open" "st_closed sv"
      using later [OF run] by blast
    have "\<forall>E' h ids r w item. (redeem_many T E' h ids v = Inr (r, w) \<or> claim_pool_remainders T E' h ids v = Inr (r, w))
        \<and> item \<in> set (br_items r) \<and> bi_market_id item = i \<longrightarrow> bi_payout item = 0"
      using closed_batches [OF v] by blast
    then show ?thesis using closed_refuses(1-3) [OF v] v(1) by simp
  qed
  have "min u64_max (st_finalized_at s + st_horizon_secs s) \<le> e_now E" using a(5) by (simp add: sat_add_u64_def)
  moreover have "tk_transfer T coll self treasury swept (mc_tok c) = Some (mc_tok c')" using t tok assms(3) by simp
  ultimately show ?thesis using a(1,3,6-8) h fin refused by blast
qed

lemma demo3_finalize:
  "\<exists>c'. finalize_market ledger_token (demo_env 31537000) 0 demo3 = Inr (2000000000, c')"
  by (simp add: demo_eval demo_states DEFAULT_REDEEM_HORIZON_SECS_def DAY_SECS_def)

theorem closing_ends_redemption_witness:
  "\<exists>c'. finalize_market ledger_token (demo_env 31537000) 0 demo3 = Inr (2000000000, c')
     \<and> tk_transfer ledger_token 50 100 8 2000000000 (mc_tok demo3) = Some (mc_tok c')
     \<and> redeem ledger_token (demo_env 31537001) 1 0 c' = Inl (Err McRedemptionClosed)"
proof -
  obtain c' where c': "finalize_market ledger_token (demo_env 31537000) 0 demo3 = Inr (2000000000, c')"
    using demo3_finalize by blast
  have env: "e_self (demo_env 31537000) = 100" "\<not> e_auth (demo_env 31537000) 100" "e_auth (demo_env 31537001) 1"
    "in_collateral (mc_inst demo3) = Some 50" "in_treasury (mc_inst demo3) = Some 8"
    by (simp_all add: demo_env_def demo_states)
  from closing_ends_redemption [OF demo_reach(4) token_ok_ledger env(1,2) c']
  show ?thesis using c' env(3-5) by auto
qed

text \<open>C36. A defect of the books: a pool claim adds the owner's trading fees to \<open>paid_out\<close>, which closing
  subtracts from the sets alone. Once the pool of a resolved market was claimed together with trading
  fees and the winning shares are all redeemed, the market can never be closed if the protocol's
  accrued fees are below those trading fees: in every later state \<open>finalize_market\<close> fails, whoever
  calls it and however long after the window, and the market stays unclosed.\<close>

theorem claimed_fees_block_closing:
  assumes "mc_reachable T peer self c" and "token_ok T" and "e_self E = self" and "\<not> e_auth E self"
    and m: "mc_markets c i = Some m" "mk_status m = Resolved oc"
    and claim: "claim_pool_remainder T E i c = Inr (v, c')"
    and w: "(mc_step T peer self)\<^sup>*\<^sup>* c' w" "mc_markets w i = Some mw" "mc_settles w i = Some sw" "\<not> st_closed sw"
    and redeemed: "claim_value (Resolved oc) (st_outstanding_yes sw) (st_outstanding_no sw) = 0"
    and fees: "mk_fees_accrued mw < load_lp_fees i c"
    and z: "(mc_step T peer self)\<^sup>*\<^sup>* w z"
  shows "finalize_market T E' i z \<noteq> Inr r \<and> (\<exists>sz. mc_settles z i = Some sz \<and> \<not> st_closed sz)"
proof -
  obtain s where s: "mc_settles c i = Some s" "market_inv m s (load_lp_fees i c) (mc_positions c i)"
    using mc_invD [OF mc_reachable_inv [OF assms(1,2)] m(1)] by metis
  note balance = reachable_balance [OF assms(1,2) m(1) s(1)]
  have "\<exists>m' s'. mc_markets c' i = Some m' \<and> mc_settles c' i = Some s' \<and> mk_status m' = Resolved oc \<and> mk_lp_claimed m'
      \<and> mk_sets_minted m' = mk_sets_minted m \<and> paid_or_due m' s' = mk_sets_minted m + load_lp_fees i c"
    using claim
  proof (rule claim_pool_remainder_ok)
    fix m1 kind pv c1 c2
    assume c: "mc_markets c i = Some m1" "market_settlement m1 = Inr kind" "\<not> settle_closed i c" "\<not> mk_lp_claimed m1"
        "settle_value kind (mk_reserve_yes m1) (mk_reserve_no m1) = (Inr pv :: int mc_res)" "v = pv + load_lp_fees i c"
      and c1: "on_settle i (settle_pay v) (save_market i
         (m1\<lparr>mk_reserve_yes := 0, mk_reserve_no := 0, mk_lp_claimed := True\<rparr>) (save_lp_fees i 0 c)) = Inr c1"
      and c': "pay_out T E (mk_creator m1) v c1 = Inr c2" "c' = publish (PoolRemainderClaimed i (mk_creator m1) v) c2"
    have m1: "m1 = m" using c(1) m(1) by simp
    have "pv = claim_value (mk_status m) (mk_reserve_yes m) (mk_reserve_no m)"
      using settlement_value [OF _ _ _ c(5)] c(2) s(2) by (simp add: market_settlement_def m1 market_inv_def)
    moreover have "paid_or_due m s + claim_value (mk_status m) (mk_reserve_yes m) (mk_reserve_no m) = mk_sets_minted m"
      using balance m(2) c(3,4) s(1) by (auto simp: sets_balance_def m1 settle_closed_def)
    moreover have "updated i (m\<lparr>mk_reserve_yes := 0, mk_reserve_no := 0, mk_lp_claimed := True\<rparr>)
        (s\<lparr>st_paid_out := st_paid_out s + v\<rparr>) 0 (mc_positions c i) c (publish (PoolRemainderClaimed i (mk_creator m1) v) c1)"
      using updated_claim(1) [OF c1 s(1)] by (simp add: m1)
    ultimately show ?thesis
      using m(2) by (simp add: c'(2) pay_out_same [OF c'(1)] updated_def paid_or_due_def c(6))
  qed
  then obtain m' s' where c': "mc_markets c' i = Some m'" "mc_settles c' i = Some s'" "mk_status m' = Resolved oc"
      "mk_lp_claimed m'" "mk_sets_minted m' = mk_sets_minted m" "paid_or_due m' s' = mk_sets_minted m + load_lp_fees i c"
    by blast
  have "mc_step T peer self c c'"
    by (rule step_call [OF assms(3,4), of _ _ "CallClaimPoolRemainder i"]) (use claim in \<open>simp add: state_of_def\<close>)
  note reach = reach_step [OF assms(1) this]
  have at_w: "mc_reachable T peer self w" "mk_status mw = Resolved oc" "books_move (m', s') (mw, sw)"
    by (rule final_later [OF reach assms(2) w(1) c'(1,2)]; use c' w in simp)+
  then have "left_over mw sw < 0" "mk_lp_claimed mw"
    using c' w(4) redeemed fees by (simp_all add: books_move_def left_over_def paid_or_due_def)
  obtain mz sz where at_z: "mc_reachable T peer self z" "mc_markets z i = Some mz" "mc_settles z i = Some sz"
      "books_move (mw, sw) (mz, sz)"
    by (rule final_later [OF at_w(1) assms(2) z w(2,3)]) (use at_w(2) \<open>mk_lp_claimed mw\<close> in auto)
  then have left: "left_over mz sz < 0" "\<not> st_closed sz" "mk_lp_claimed mz"
    using \<open>left_over mw sw < 0\<close> w(4) by (auto simp: books_move_def left_over_def)
  have "finalize_market T E' i z \<noteq> Inr (swept, z')" for swept z'
  proof
    assume "finalize_market T E' i z = Inr (swept, z')"
    then show False
    proof (rule finalize_market_ok)
      fix m s coll treasury t
      assume f: "mc_markets z i = Some m" "mc_settles z i = Some s"
        "swept = mk_sets_minted m - st_paid_out s + mk_fees_accrued m + load_lp_fees i z"
        "tk_transfer T coll (e_self E') treasury swept (mc_tok z) = Some t"
      have "market_inv mz sz (load_lp_fees i z) (mc_positions z i)"
        using mc_invD [OF mc_reachable_inv [OF at_z(1) assms(2)] at_z(2)] at_z(3) by (metis option.inject)
      then have "swept = left_over mz sz"
        using f(1-3) at_z(2,3) left(3) by (simp add: market_inv_def left_over_def)
      then show False using token_okD(1) [OF assms(2) f(4)] left(1) by simp
    qed
  qed
  then show ?thesis using at_z(3) left(2) by (cases r) auto
qed

theorem claimed_fees_block_closing_witness:
  "(\<forall>r. finalize_market ledger_token (demo_env 40000000) 0 demo5 \<noteq> Inr r)
   \<and> tk_balance ledger_token 50 (mc_tok demo5) 100 = 4000000"
proof -
  have "mc_step ledger_token no_peer 100 demo4 demo5"
    by (rule demo_step [of 1002 "CallRedeem 1 0"]) (simp add: demo5_run [unfolded One_nat_def] state_of_def)
  then have "(mc_step ledger_token no_peer 100)\<^sup>*\<^sup>* demo4 demo5" by blast
  moreover have "\<exists>m. mc_markets demo3 0 = Some m \<and> mk_status m = Resolved Yes"
    "\<exists>m s. mc_markets demo5 0 = Some m \<and> mc_settles demo5 0 = Some s \<and> \<not> st_closed s \<and> st_outstanding_yes s = 0
       \<and> mk_fees_accrued m = 4000000" "load_lp_fees 0 demo3 = 6000000"
    "e_self (demo_env 1001) = 100" "\<not> e_auth (demo_env 1001) 100"
    by (simp_all add: demo_states load_lp_fees_def demo_env_def)
  ultimately show ?thesis
    using claimed_fees_block_closing [OF demo_reach(4) token_ok_ledger, of "demo_env 1001" 0 _ Yes 508512563 demo4 demo5 _ _ demo5
        "demo_env 40000000"] demo4_run
    by (fastforce simp: demo_states ledger_token_def)
qed

end
