(* ===== verification/Handover.thy ===== *)
theory Handover
  imports Host
begin

text \<open>
  The two-step handover of the admin role, which every contract of the protocol implements with
  its own storage and entry points: the admin proposes, the proposed address accepts in time, the
  admin may cancel. The locale states what a contract's calls promise about the role; the lemmas
  are the guarantees that follow for any sequence of calls.
\<close>

datatype handover_op = Propose address | Accept | Cancel

text \<open>In a sequence of calls \<open>cs\<close>: \<open>p\<close> was proposed with expiry \<open>x\<close>; \<open>p\<close> was proposed and itself
  accepted within the time allowed.\<close>

definition proposed_in ::
    "('c \<Rightarrow> handover_op option) \<Rightarrow> nat \<Rightarrow> (env \<times> 'c) list \<Rightarrow> address \<Rightarrow> nat \<Rightarrow> bool" where
  "proposed_in kind ttl cs p x \<longleftrightarrow>
     (\<exists>E c. (E, c) \<in> set cs \<and> kind c = Some (Propose p) \<and> x = e_now E + ttl)"

definition accepted_in ::
    "('c \<Rightarrow> handover_op option) \<Rightarrow> nat \<Rightarrow> (env \<times> 'c) list \<Rightarrow> address \<Rightarrow> bool" where
  "accepted_in kind ttl cs p \<longleftrightarrow>
     (\<exists>x E c. proposed_in kind ttl cs p x \<and> (E, c) \<in> set cs \<and> kind c = Some Accept
        \<and> e_auth E p \<and> e_now E \<le> x)"

lemma proposed_in_snoc: "proposed_in kind ttl cs p x \<Longrightarrow> proposed_in kind ttl (cs @ ds) p x"
  by (auto simp: proposed_in_def)

lemma accepted_in_snoc: "accepted_in kind ttl cs p \<Longrightarrow> accepted_in kind ttl (cs @ ds) p"
  unfolding accepted_in_def using proposed_in_snoc by fastforce

locale two_step_admin =
  fixes step :: "env \<Rightarrow> 'c \<Rightarrow> 's \<Rightarrow> ('e, 's) res"
    and kind :: "'c \<Rightarrow> handover_op option"
    and admin_of :: "'s \<Rightarrow> address option"
    and pending_of :: "'s \<Rightarrow> (address \<times> nat) option"
    and ttl :: nat
  assumes propose: "step E c s = Inr s' \<Longrightarrow> kind c = Some (Propose p) \<Longrightarrow>
        (\<exists>a. admin_of s = Some a \<and> e_auth E a) \<and> admin_of s' = admin_of s
        \<and> pending_of s' = Some (p, e_now E + ttl)"
    and accept: "step E c s = Inr s' \<Longrightarrow> kind c = Some Accept \<Longrightarrow>
        \<exists>p x. pending_of s = Some (p, x) \<and> e_now E \<le> x \<and> e_auth E p
          \<and> admin_of s' = Some p \<and> pending_of s' = None"
    and cancel: "step E c s = Inr s' \<Longrightarrow> kind c = Some Cancel \<Longrightarrow>
        (\<exists>a. admin_of s = Some a \<and> e_auth E a) \<and> admin_of s' = admin_of s \<and> pending_of s' = None"
    and other: "step E c s = Inr s' \<Longrightarrow> kind c = None \<Longrightarrow>
        admin_of s' = admin_of s \<and> pending_of s' = pending_of s"
begin

text \<open>\<open>run\<close> executes a sequence of successful calls.\<close>

fun run :: "(env \<times> 'c) list \<Rightarrow> 's \<Rightarrow> ('e, 's) res" where
  "run [] s = Inr s"
| "run ((E, c) # cs) s = andThen (step E c s) (run cs)"

lemma run_append: "run (cs @ ds) s = andThen (run cs s) (run ds)"
proof (induction cs arbitrary: s)
  case (Cons x cs)
  obtain E c where "x = (E, c)" by (cases x)
  then show ?case by (cases "step E c s") (simp_all add: Cons)
qed simp

lemma run_snoc:
  "run (cs @ [(E, c)]) s = Inr s' \<longleftrightarrow> (\<exists>t. run cs s = Inr t \<and> step E c t = Inr s')"
  by (cases "run cs s") (auto simp: run_append res_simps)

text \<open>An admin who proposes nobody stays the admin.\<close>

lemma no_takeover:
  assumes "run cs s = Inr s'" and "admin_of s = Some a" and "pending_of s = None"
    and "\<And>E c p. (E, c) \<in> set cs \<Longrightarrow> kind c = Some (Propose p) \<Longrightarrow> \<not> e_auth E a"
  shows "admin_of s' = Some a \<and> pending_of s' = None"
  using assms
proof (induction cs arbitrary: s)
  case (Cons x cs)
  obtain E c where x: "x = (E, c)" by (cases x)
  then obtain t where t: "step E c s = Inr t" "run cs t = Inr s'"
    using Cons.prems(1) by (auto simp: res_simps)
  have "admin_of t = Some a \<and> pending_of t = None"
  proof (cases "kind c")
    case None
    then show ?thesis using other [OF t(1)] Cons.prems(2,3) by simp
  next
    case (Some k)
    then show ?thesis
      using propose [OF t(1)] accept [OF t(1)] cancel [OF t(1)] Cons.prems(2-4) x
      by (cases k) auto
  qed
  then show ?case using Cons.IH [OF t(2)] Cons.prems(4) by auto
qed simp

text \<open>Every change of the admin is a proposal accepted, within the time allowed, by the proposed
  address itself.\<close>

lemma handover_trace:
  assumes "run cs s = Inr s'" and "pending_of s = None"
  shows "(\<forall>p x. pending_of s' = Some (p, x) \<longrightarrow> proposed_in kind ttl cs p x)
    \<and> (admin_of s' = admin_of s \<or> (\<exists>p. admin_of s' = Some p \<and> accepted_in kind ttl cs p))"
  using assms(1)
proof (induction cs arbitrary: s' rule: rev_induct)
  case Nil
  then show ?case using assms(2) by simp
next
  case (snoc x cs)
  obtain E c where x: "x = (E, c)" by (cases x)
  then obtain t where t: "run cs s = Inr t" "step E c t = Inr s'"
    using snoc.prems run_snoc by blast
  note IH = snoc.IH [OF t(1)]
  have kept: "admin_of t = admin_of s
      \<or> (\<exists>p. admin_of t = Some p \<and> accepted_in kind ttl (cs @ [x]) p)"
    using IH accepted_in_snoc by blast
  show ?case
  proof (cases "kind c")
    case None
    then show ?thesis using other [OF t(2)] IH kept proposed_in_snoc by metis
  next
    case (Some k)
    show ?thesis
    proof (cases k)
      case (Propose p)
      then have "pending_of s' = Some (p, e_now E + ttl)" "admin_of s' = admin_of t"
        using propose [OF t(2)] Some by auto
      moreover have "proposed_in kind ttl (cs @ [x]) p (e_now E + ttl)"
        using Propose Some by (auto simp: proposed_in_def x)
      ultimately show ?thesis using kept by simp
    next
      case Cancel
      then show ?thesis using cancel [OF t(2)] Some kept by simp
    next
      case Accept
      then obtain p y where p: "pending_of t = Some (p, y)" "e_now E \<le> y" "e_auth E p"
          "admin_of s' = Some p" "pending_of s' = None"
        using accept [OF t(2)] Some by blast
      then have "proposed_in kind ttl (cs @ [x]) p y" using IH proposed_in_snoc by blast
      then have "accepted_in kind ttl (cs @ [x]) p"
        unfolding accepted_in_def using p(2,3) Accept Some x by (intro exI [of _ y]) fastforce
      then show ?thesis using p(4,5) by simp
    qed
  qed
qed

end

end
