(* ===== verification/MarketAdmin.thy ===== *)
theory MarketAdmin
  imports Handover MarketTrace MarketDemo
begin

text \<open>
  The admin role of the market contract implements the two-step handover, whatever else is
  called in between.
\<close>

fun market_handover :: "mc_call \<Rightarrow> handover_op option" where
  "market_handover (CallProposeAdmin a) = Some (Propose a)"
| "market_handover CallAcceptAdmin = Some Accept"
| "market_handover CallCancelAdminTransfer = Some Cancel"
| "market_handover _ = None"

definition market_admin :: "'t mc \<Rightarrow> address option" where
  "market_admin c = in_admin (mc_inst c)"

definition market_pending :: "'t mc \<Rightarrow> (address \<times> nat) option" where
  "market_pending c =
     map_option (\<lambda>p. (pa_address p, pa_expires_at p)) (in_pending_admin (mc_inst c))"

lemma market_handover_other:
  assumes "exec T peer E call c = Inr c'" and "market_handover call = None"
  shows "market_admin c' = market_admin c \<and> market_pending c' = market_pending c"
proof -
  from exec_inst [OF assms(1)] consider "config_call call" | "mc_inst c' = mc_inst c"
    | a qh rh uri cat close seed p i
      where "create_market T E a qh rh uri cat close seed p c = Inr (i, c')" by blast
  then show ?thesis
  proof cases
    case 1
    with assms show ?thesis
      by (cases call) (auto simp: config_defs res_simps int_ops set_inst_def market_admin_def
          market_pending_def split: if_splits)
  next
    case 3
    then show ?thesis
      by (rule create_market_ok) (simp add: market_admin_def market_pending_def)
  qed (simp add: market_admin_def market_pending_def)
qed

interpretation market_role: two_step_admin "exec T peer" market_handover market_admin
    market_pending ADMIN_PROPOSAL_TTL_SECS for T peer
proof (unfold_locales, goal_cases)
  case (1 E c s s' p)
  then show ?case
    by (cases c) (auto simp: propose_admin_def res_simps int_ops market_admin_def market_pending_def
        set_inst_def)
next
  case (2 E c s s')
  then show ?case
    by (cases c) (auto simp: accept_admin_def res_simps int_ops market_admin_def market_pending_def
        load_pending_def set_inst_def not_less)
next
  case (3 E c s s')
  then show ?case
    by (cases c) (auto simp: cancel_admin_transfer_def res_simps int_ops market_admin_def
        market_pending_def set_inst_def)
next
  case (4 E c s s')
  then show ?case using market_handover_other by metis
qed

text \<open>Control of the market contract cannot be taken: along any sequence of successful calls,
  an admin who never authorises a proposal stays the admin, and otherwise the admin at the end
  accepted a proposal of itself within seven days of it.\<close>

lemma market_admin_is_not_taken:
  assumes "market_role.run T peer cs c = Inr c'" and "market_admin c = Some a"
    and "market_pending c = None"
  shows "((\<forall>(E, call)\<in>set cs. \<forall>p. call = CallProposeAdmin p \<longrightarrow> \<not> e_auth E a)
            \<longrightarrow> market_admin c' = Some a)
    \<and> (market_admin c' \<noteq> Some a \<longrightarrow> (\<exists>p E1 E2. market_admin c' = Some p
         \<and> (E1, CallProposeAdmin p) \<in> set cs \<and> (E2, CallAcceptAdmin) \<in> set cs
         \<and> e_auth E2 p \<and> e_now E2 \<le> e_now E1 + 7 * 86400))"
proof -
  have p: "market_handover call = Some (Propose p) \<longleftrightarrow> call = CallProposeAdmin p"
    "market_handover call = Some Accept \<longleftrightarrow> call = CallAcceptAdmin" for call p
    by (cases call; auto)+
  have "market_admin c' = Some a"
    if "\<forall>(E, call)\<in>set cs. \<forall>p. call = CallProposeAdmin p \<longrightarrow> \<not> e_auth E a"
    using market_role.no_takeover [OF assms] that by (auto simp: p)
  moreover have "market_admin c' \<noteq> Some a \<longrightarrow> (\<exists>p E1 E2. market_admin c' = Some p
         \<and> (E1, CallProposeAdmin p) \<in> set cs \<and> (E2, CallAcceptAdmin) \<in> set cs
         \<and> e_auth E2 p \<and> e_now E2 \<le> e_now E1 + 7 * 86400)"
    using market_role.handover_trace [OF assms(1,3)] assms(2)
    by (auto simp: accepted_in_def proposed_in_def p ADMIN_PROPOSAL_TTL_SECS_def)
  ultimately show ?thesis by blast
qed

lemma market_admin_is_not_taken_witness:
  "\<exists>c'. market_role.run ledger_token no_peer
        [(demo_env 10, CallProposeAdmin 4), (demo_env 20, CallAcceptAdmin)] demo0 = Inr c'
     \<and> market_admin c' = Some 4
     \<and> (\<exists>p (E1::env) (E2::env). market_admin c' = Some p \<and> e_auth E2 p \<and> e_now E2 \<le> e_now E1 + 7 * 86400)"
proof -
  define c1 where "c1 = publish (AdminTransferProposed 4) (set_inst (in_pending_admin_update
    (\<lambda>_. Some \<lparr>pa_address = 4, pa_expires_at = 604810\<rparr>)) demo0)"
  have "propose_admin (demo_env 10) 4 demo0 = Inr c1"
    by (simp add: propose_admin_def require_admin_def instance_get_def require_auth_def demo_states
        demo_env_def add_u64_def u64_max_def ADMIN_PROPOSAL_TTL_SECS_def c1_def)
  moreover have "\<exists>c'. accept_admin (demo_env 20) c1 = Inr c' \<and> market_admin c' = Some 4"
    by (simp add: accept_admin_def load_pending_def instance_get_def require_auth_def demo_env_def
        c1_def publish_def set_inst_def market_admin_def demo0_def demo_inst_def)
  ultimately obtain c' where c': "market_role.run ledger_token no_peer
      [(demo_env 10, CallProposeAdmin 4), (demo_env 20, CallAcceptAdmin)] demo0 = Inr c'"
    "market_admin c' = Some 4"
    by auto
  have a: "market_admin demo0 = Some 9" "market_pending demo0 = None"
    by (simp_all add: market_admin_def market_pending_def demo0_def demo_inst_def)
  have "market_admin c' \<noteq> Some 9" using c'(2) by simp
  then have "\<exists>p (E1::env) (E2::env). market_admin c' = Some p \<and> e_auth E2 p \<and> e_now E2 \<le> e_now E1 + 7 * 86400"
    using market_admin_is_not_taken [OF c'(1) a] by blast
  then show ?thesis using c' by blast
qed

end
