(* ===== verification/Timelock.thy ===== *)
theory Timelock
  imports Handover
begin

text \<open>
  The timelock contract (\<^verbatim>\<open>contracts/timelock/src/lib.rs\<close>): privileged calls are scheduled,
  wait for the effective delay of their target and function, and can then be executed for a
  limited time, or cancelled; a small allow-list of safety calls bypasses the delay.

  Calls into other contracts are a parameter: \<open>invoke target fn args w\<close> is the effect of the call on
  the rest of the ledger \<open>w\<close> (\<open>None\<close> if it aborts). A contract cannot call itself back, so an
  emergency call to the timelock's own address aborts.
\<close>

section \<open>Types and state\<close>

definition MIN_DELAY :: nat where "MIN_DELAY = 86400"
definition MAX_DELAY :: nat where "MAX_DELAY = 30 * 86400"
definition EXECUTION_GRACE :: nat where "EXECUTION_GRACE = 7 * 86400"
definition ADMIN_TRANSFER_TTL :: nat where "ADMIN_TRANSFER_TTL = 7 * 24 * 60 * 60"

text \<open>A host value, as far as the contract looks at its arguments: it converts one to a \<open>u64\<close> or
  a \<open>bool\<close>, and passes the others on.\<close>

datatype host_val = ValBool bool | ValU64 nat | ValOther bytesN

record roles_rec =
  ro_proposer :: address
  ro_canceller :: address
  ro_executor :: "address option"
  ro_emergency :: "address option"

record operation =
  op_proposer :: address
  op_target :: address
  op_fn_name :: symbol
  op_args :: "host_val list"
  op_eta :: nat
  op_expires :: nat

datatype tl_error =
  TlNotInitialized | TlUnauthorized | TlInvalidConfig | TlOperationNotFound | TlOperationNotReady
| TlOperationExpired | TlOperationNotPending | TlEmergencyNotAllowed | TlDelayOutOfRange
| TlFloorRaiseRequiresTimelock | TlNoPendingAdmin | TlAdminTransferExpired | TlSelfCallUnsupported

datatype tl_event =
  OperationScheduled nat address symbol nat
| OperationExecuted nat
| OperationCancelled nat
| EmergencyExecuted address symbol
| RolesSet address address "address option" "address option"
| DefaultDelaySet nat
| DelaySet address symbol nat
| TlAdminTransferProposed address
| TlAdminTransferred address address
| TlAdminTransferCancelled

record 'w tl =
  tl_admin :: "address option"
  tl_pending_admin :: "address option"
  tl_pending_admin_at :: "nat option"
  tl_roles :: "roles_rec option"
  tl_default_delay :: "nat option"
  tl_delays :: "address \<times> symbol \<Rightarrow> nat option"
  tl_next_id :: "nat option"
  tl_ops :: "nat \<Rightarrow> operation option"
  tl_world :: 'w
  tl_events :: "tl_event list"

type_synonym 'a tl_res = "(tl_error, 'a) res"
type_synonym 'w invoke = "address \<Rightarrow> symbol \<Rightarrow> host_val list \<Rightarrow> 'w \<Rightarrow> 'w option"

definition tl_deployed :: "'w \<Rightarrow> 'w tl" where
  "tl_deployed w =
     \<lparr>tl_admin = None, tl_pending_admin = None, tl_pending_admin_at = None, tl_roles = None,
      tl_default_delay = None, tl_delays = Map.empty, tl_next_id = None, tl_ops = Map.empty,
      tl_world = w, tl_events = []\<rparr>"

definition tl_publish :: "tl_event \<Rightarrow> 'w tl \<Rightarrow> 'w tl" where
  "tl_publish ev s = s\<lparr>tl_events := tl_events s @ [ev]\<rparr>"

section \<open>Internals\<close>

definition tl_require_admin :: "env \<Rightarrow> 'w tl \<Rightarrow> unit tl_res" where
  "tl_require_admin E s = andThen (ok_or TlNotInitialized (tl_admin s)) (require_auth E)"

definition get_roles :: "'w tl \<Rightarrow> roles_rec tl_res" where
  "get_roles s = ok_or TlNotInitialized (tl_roles s)"

definition default_delay :: "'w tl \<Rightarrow> nat" where
  "default_delay s = (case tl_default_delay s of None \<Rightarrow> MIN_DELAY | Some d \<Rightarrow> d)"

definition effective_delay :: "address \<Rightarrow> symbol \<Rightarrow> 'w tl \<Rightarrow> nat" where
  "effective_delay target fn_name s =
     (let floor = default_delay s;
          base = (case tl_delays s (target, fn_name) of None \<Rightarrow> 0 | Some d \<Rightarrow> d)
      in if floor < base then base else floor)"

definition check_delay_bounds :: "nat \<Rightarrow> unit tl_res" where
  "check_delay_bounds d =
     (if MIN_DELAY \<le> d \<and> d \<le> MAX_DELAY then Inr () else Inl (Err TlDelayOutOfRange))"

definition apply_default_delay :: "env \<Rightarrow> nat \<Rightarrow> bool \<Rightarrow> 'w tl \<Rightarrow> 'w tl tl_res" where
  "apply_default_delay E d scheduled s =
     andThen (check_delay_bounds d) (\<lambda>_.
     andThen (if default_delay s < d
              then if \<not> scheduled then Inl (Err TlFloorRaiseRequiresTimelock) else Inr ()
              else if \<not> scheduled then tl_require_admin E s else Inr ()) (\<lambda>_.
       Inr (s\<lparr>tl_default_delay := Some d\<rparr>)))"

definition load_op :: "nat \<Rightarrow> 'w tl \<Rightarrow> operation tl_res" where
  "load_op i s = ok_or TlOperationNotFound (tl_ops s i)"

definition remove_op :: "nat \<Rightarrow> 'w tl \<Rightarrow> 'w tl" where
  "remove_op i s = s\<lparr>tl_ops := (tl_ops s)(i := None)\<rparr>"

definition is_emergency_allowed :: "symbol \<Rightarrow> host_val list \<Rightarrow> bool" where
  "is_emergency_allowed fn_name args =
     (if fn_name = ''set_paused''
      then (case args of [ValBool paused] \<Rightarrow> paused | _ \<Rightarrow> False)
      else fn_name = ''cancel_proposal'')"

definition pending_admin_entry :: "env \<Rightarrow> 'w tl \<Rightarrow> address option tl_res" where
  "pending_admin_entry E s =
     (case tl_pending_admin s of None \<Rightarrow> Inr None
      | Some p \<Rightarrow> andThen (ok_or TlNoPendingAdmin (tl_pending_admin_at s)) (\<lambda>at.
          if at < e_now E then Inl (Err TlAdminTransferExpired) else Inr (Some p)))"

definition call_out :: "'w invoke \<Rightarrow> env \<Rightarrow> address \<Rightarrow> symbol \<Rightarrow> host_val list \<Rightarrow> 'w tl \<Rightarrow> 'w tl tl_res" where
  "call_out invoke E target fn_name args s =
     (if target = e_self E then Inl Trap
      else andThen (unwrap (invoke target fn_name args (tl_world s))) (\<lambda>w. Inr (s\<lparr>tl_world := w\<rparr>)))"

section \<open>Entry points\<close>

definition tl_constructor ::
    "address \<Rightarrow> address \<Rightarrow> address \<Rightarrow> address option \<Rightarrow> address option \<Rightarrow> nat \<Rightarrow> 'w tl \<Rightarrow> 'w tl tl_res" where
  "tl_constructor admin proposer canceller executor emergency delay s =
     (if \<not> (MIN_DELAY \<le> delay \<and> delay \<le> MAX_DELAY) then Inl (Err TlInvalidConfig)
      else Inr (s\<lparr>tl_admin := Some admin,
             tl_roles := Some \<lparr>ro_proposer = proposer, ro_canceller = canceller,
                               ro_executor = executor, ro_emergency = emergency\<rparr>,
             tl_default_delay := Some delay, tl_next_id := Some 0\<rparr>))"

definition schedule ::
    "env \<Rightarrow> address \<Rightarrow> symbol \<Rightarrow> host_val list \<Rightarrow> 'w tl \<Rightarrow> (nat \<times> 'w tl) tl_res" where
  "schedule E target fn_name args s =
     andThen (get_roles s) (\<lambda>roles.
     andThen (require_auth E (ro_proposer roles)) (\<lambda>_.
     andThen (add_u64 (e_now E) (effective_delay target fn_name s)) (\<lambda>eta.
     let i = (case tl_next_id s of None \<Rightarrow> 0 | Some n \<Rightarrow> n) in
     andThen (add_u64 i 1) (\<lambda>next.
     andThen (add_u64 eta EXECUTION_GRACE) (\<lambda>expires.
     let oper = \<lparr>op_proposer = ro_proposer roles, op_target = target, op_fn_name = fn_name,
                 op_args = args, op_eta = eta, op_expires = expires\<rparr>
     in Inr (i, tl_publish (OperationScheduled i target fn_name eta)
          (s\<lparr>tl_next_id := Some next, tl_ops := (tl_ops s)(i \<mapsto> oper)\<rparr>)))))))"

definition execute :: "'w invoke \<Rightarrow> env \<Rightarrow> nat \<Rightarrow> 'w tl \<Rightarrow> 'w tl tl_res" where
  "execute invoke E i s =
     andThen (load_op i s) (\<lambda>oper.
     andThen (get_roles s) (\<lambda>roles.
     andThen (case ro_executor roles of None \<Rightarrow> Inr () | Some x \<Rightarrow> require_auth E x) (\<lambda>_.
     if e_now E < op_eta oper then Inl (Err TlOperationNotReady)
     else if op_expires oper < e_now E then Inl (Err TlOperationExpired)
     else let s1 = remove_op i s in
       andThen
         (if op_target oper = e_self E
          then if op_fn_name oper \<noteq> ''set_default_delay'' then Inl (Err TlSelfCallUnsupported)
               else (case op_args oper of [] \<Rightarrow> Inl Trap
                     | ValU64 d # _ \<Rightarrow> apply_default_delay E d True s1
                     | _ # _ \<Rightarrow> Inl (Err TlInvalidConfig))
          else call_out invoke E (op_target oper) (op_fn_name oper) (op_args oper) s1) (\<lambda>s2.
         Inr (tl_publish (OperationExecuted i) s2)))))"

definition cancel :: "env \<Rightarrow> nat \<Rightarrow> 'w tl \<Rightarrow> 'w tl tl_res" where
  "cancel E i s =
     andThen (load_op i s) (\<lambda>_.
     andThen (get_roles s) (\<lambda>roles.
     andThen (require_auth E (ro_canceller roles)) (\<lambda>_.
       Inr (tl_publish (OperationCancelled i) (remove_op i s)))))"

definition emergency :: "'w invoke \<Rightarrow> env \<Rightarrow> address \<Rightarrow> symbol \<Rightarrow> host_val list \<Rightarrow> 'w tl \<Rightarrow> 'w tl tl_res" where
  "emergency invoke E target fn_name args s =
     andThen (get_roles s) (\<lambda>roles.
     andThen (ok_or TlEmergencyNotAllowed (ro_emergency roles)) (\<lambda>em.
     andThen (require_auth E em) (\<lambda>_.
     if \<not> is_emergency_allowed fn_name args then Inl (Err TlEmergencyNotAllowed)
     else andThen (call_out invoke E target fn_name args s) (\<lambda>s1.
            Inr (tl_publish (EmergencyExecuted target fn_name) s1)))))"

definition set_roles ::
    "env \<Rightarrow> address \<Rightarrow> address \<Rightarrow> address option \<Rightarrow> address option \<Rightarrow> 'w tl \<Rightarrow> 'w tl tl_res" where
  "set_roles E proposer canceller executor em s =
     andThen (tl_require_admin E s) (\<lambda>_.
       Inr (tl_publish (RolesSet proposer canceller executor em)
         (s\<lparr>tl_roles := Some \<lparr>ro_proposer = proposer, ro_canceller = canceller,
                              ro_executor = executor, ro_emergency = em\<rparr>\<rparr>)))"

definition set_delay :: "env \<Rightarrow> address \<Rightarrow> symbol \<Rightarrow> nat option \<Rightarrow> 'w tl \<Rightarrow> 'w tl tl_res" where
  "set_delay E target fn_name delay s =
     andThen (tl_require_admin E s) (\<lambda>_.
     case delay of
       Some d \<Rightarrow> andThen (check_delay_bounds d) (\<lambda>_.
         Inr (tl_publish (DelaySet target fn_name d)
           (s\<lparr>tl_delays := (tl_delays s)((target, fn_name) \<mapsto> d)\<rparr>)))
     | None \<Rightarrow> Inr (s\<lparr>tl_delays := (tl_delays s)((target, fn_name) := None)\<rparr>))"

definition set_default_delay :: "env \<Rightarrow> nat \<Rightarrow> 'w tl \<Rightarrow> 'w tl tl_res" where
  "set_default_delay E d s =
     andThen (apply_default_delay E d False s) (\<lambda>s1. Inr (tl_publish (DefaultDelaySet d) s1))"

definition tl_propose_admin :: "env \<Rightarrow> address \<Rightarrow> 'w tl \<Rightarrow> 'w tl tl_res" where
  "tl_propose_admin E new_admin s =
     andThen (tl_require_admin E s) (\<lambda>_.
     andThen (add_u64 (e_now E) ADMIN_TRANSFER_TTL) (\<lambda>at.
       Inr (tl_publish (TlAdminTransferProposed new_admin)
         (s\<lparr>tl_pending_admin := Some new_admin, tl_pending_admin_at := Some at\<rparr>))))"

definition tl_accept_admin :: "env \<Rightarrow> 'w tl \<Rightarrow> 'w tl tl_res" where
  "tl_accept_admin E s =
     andThen (pending_admin_entry E s) (\<lambda>entry.
     andThen (ok_or TlNoPendingAdmin entry) (\<lambda>pending.
     andThen (require_auth E pending) (\<lambda>_.
     andThen (ok_or TlNotInitialized (tl_admin s)) (\<lambda>old.
       Inr (tl_publish (TlAdminTransferred old pending)
         (s\<lparr>tl_admin := Some pending, tl_pending_admin := None, tl_pending_admin_at := None\<rparr>))))))"

definition tl_cancel_admin_transfer :: "env \<Rightarrow> 'w tl \<Rightarrow> 'w tl tl_res" where
  "tl_cancel_admin_transfer E s =
     andThen (tl_require_admin E s) (\<lambda>_.
     andThen (pending_admin_entry E s) (\<lambda>entry.
     if entry = None then Inl (Err TlNoPendingAdmin)
     else Inr (tl_publish TlAdminTransferCancelled
            (s\<lparr>tl_pending_admin := None, tl_pending_admin_at := None\<rparr>))))"

subsection \<open>Views\<close>

definition delay_for :: "address \<Rightarrow> symbol \<Rightarrow> 'w tl \<Rightarrow> nat" where
  "delay_for target fn_name s = effective_delay target fn_name s"

definition tl_pending_admin_view :: "env \<Rightarrow> 'w tl \<Rightarrow> address option" where
  "tl_pending_admin_view E s = (case pending_admin_entry E s of Inl _ \<Rightarrow> None | Inr p \<Rightarrow> p)"

definition operation_view :: "nat \<Rightarrow> 'w tl \<Rightarrow> operation option" where
  "operation_view i s = tl_ops s i"

definition operation_count :: "'w tl \<Rightarrow> nat" where
  "operation_count s = (case tl_next_id s of None \<Rightarrow> 0 | Some n \<Rightarrow> n)"

section \<open>The contract as a transition system\<close>

datatype tl_call =
  TlSchedule address symbol "host_val list" | TlExecute nat | TlCancel nat
| TlEmergency address symbol "host_val list"
| TlSetRoles address address "address option" "address option"
| TlSetDelay address symbol "nat option" | TlSetDefaultDelay nat
| TlProposeAdmin address | TlAcceptAdmin | TlCancelAdminTransfer

fun tl_exec :: "'w invoke \<Rightarrow> env \<Rightarrow> tl_call \<Rightarrow> 'w tl \<Rightarrow> 'w tl tl_res" where
  "tl_exec invoke E (TlSchedule t f args) s = andThen (schedule E t f args s) (\<lambda>(_, s'). Inr s')"
| "tl_exec invoke E (TlExecute i) s = execute invoke E i s"
| "tl_exec invoke E (TlCancel i) s = cancel E i s"
| "tl_exec invoke E (TlEmergency t f args) s = emergency invoke E t f args s"
| "tl_exec invoke E (TlSetRoles p c x em) s = set_roles E p c x em s"
| "tl_exec invoke E (TlSetDelay t f d) s = set_delay E t f d s"
| "tl_exec invoke E (TlSetDefaultDelay d) s = set_default_delay E d s"
| "tl_exec invoke E (TlProposeAdmin a) s = tl_propose_admin E a s"
| "tl_exec invoke E TlAcceptAdmin s = tl_accept_admin E s"
| "tl_exec invoke E TlCancelAdminTransfer s = tl_cancel_admin_transfer E s"

text \<open>A history of a deployment: the calls made so far, each with its environment, latest last. Time
  does not run backwards; other contracts may change the rest of the ledger in between.\<close>

inductive tl_history :: "'w invoke \<Rightarrow> address \<Rightarrow> (env \<times> tl_call) list \<Rightarrow> 'w tl \<Rightarrow> bool"
  for invoke self where
  tl_init: "tl_constructor a p c x em d (tl_deployed w) = Inr s \<Longrightarrow> tl_history invoke self [] s"
| tl_call: "tl_history invoke self h s \<Longrightarrow> e_self E = self
     \<Longrightarrow> (\<forall>(E', _)\<in>set h. e_now E' \<le> e_now E)
     \<Longrightarrow> tl_exec invoke E call s = Inr s' \<Longrightarrow> tl_history invoke self (h @ [(E, call)]) s'"
| tl_world_moves: "tl_history invoke self h s \<Longrightarrow> tl_history invoke self h (s\<lparr>tl_world := w\<rparr>)"

end
