(* ===== verification/TimelockProps.thy ===== *)
theory TimelockProps
  imports Timelock
begin

text \<open>
  What the timelock guarantees: the delay of every executed call, that nothing executes twice,
  that the floor rises only through the timelock, what the emergency role can do, and the
  handover of its own admin role.
\<close>

section \<open>Inversion\<close>

lemma tl_require_admin_eq [res_simps]:
  "tl_require_admin E s = Inr u \<longleftrightarrow> (\<exists>a. tl_admin s = Some a \<and> e_auth E a)"
  by (simp add: tl_require_admin_def res_simps int_ops)

lemma get_roles_eq [res_simps]: "get_roles s = Inr r \<longleftrightarrow> tl_roles s = Some r"
  by (simp add: get_roles_def res_simps)

lemma load_op_eq [res_simps]: "load_op i s = Inr r \<longleftrightarrow> tl_ops s i = Some r"
  by (simp add: load_op_def res_simps)

lemma check_delay_bounds_eq [res_simps]:
  "check_delay_bounds d = Inr u \<longleftrightarrow> MIN_DELAY \<le> d \<and> d \<le> MAX_DELAY"
  by (simp add: check_delay_bounds_def)

lemma call_out_ok:
  assumes "call_out invoke E t f args s = Inr s'"
  shows "t \<noteq> e_self E" and "\<exists>w. s' = s\<lparr>tl_world := w\<rparr>"
  using assms by (auto simp: call_out_def res_simps split: if_splits)

lemma apply_default_delay_ok:
  assumes "apply_default_delay E d sch s = Inr s'"
  shows "MIN_DELAY \<le> d" "d \<le> MAX_DELAY" "s' = s\<lparr>tl_default_delay := Some d\<rparr>"
    and "\<not> sch \<Longrightarrow> d \<le> default_delay s \<and> (\<exists>a. tl_admin s = Some a \<and> e_auth E a)"
  using assms by (auto simp: apply_default_delay_def res_simps split: if_splits)

lemma schedule_ok:
  assumes "schedule E t f args s = Inr (i, s')"
  obtains r where "tl_roles s = Some r" "e_auth E (ro_proposer r)"
    "i = operation_count s"
    "s' = tl_publish (OperationScheduled i t f (e_now E + effective_delay t f s))
       (s\<lparr>tl_next_id := Some (i + 1),
          tl_ops := (tl_ops s)(i \<mapsto> \<lparr>op_proposer = ro_proposer r, op_target = t, op_fn_name = f,
             op_args = args, op_eta = e_now E + effective_delay t f s,
             op_expires = e_now E + effective_delay t f s + EXECUTION_GRACE\<rparr>)\<rparr>)"
  using assms by (auto simp: schedule_def res_simps int_ops Let_def operation_count_def)

lemma execute_ok:
  assumes "execute invoke E i s = Inr s'"
  obtains oper r s2 where "tl_ops s i = Some oper" "tl_roles s = Some r"
    "\<forall>x. ro_executor r = Some x \<longrightarrow> e_auth E x"
    "op_eta oper \<le> e_now E" "e_now E \<le> op_expires oper"
    "if op_target oper = e_self E
     then op_fn_name oper = ''set_default_delay''
       \<and> (\<exists>d rest. op_args oper = ValU64 d # rest \<and> MIN_DELAY \<le> d \<and> d \<le> MAX_DELAY
            \<and> s2 = (remove_op i s)\<lparr>tl_default_delay := Some d\<rparr>)
     else (\<exists>w. s2 = (remove_op i s)\<lparr>tl_world := w\<rparr>)"
    "s' = tl_publish (OperationExecuted i) s2"
proof -
  obtain oper r where 1: "tl_ops s i = Some oper" "tl_roles s = Some r"
      "\<forall>x. ro_executor r = Some x \<longrightarrow> e_auth E x"
      "op_eta oper \<le> e_now E" "e_now E \<le> op_expires oper"
    using assms
    by (auto simp: execute_def res_simps int_ops not_less Let_def split: option.splits if_splits)
  then obtain s2 where s2: "(if op_target oper = e_self E
        then if op_fn_name oper \<noteq> ''set_default_delay'' then Inl (Err TlSelfCallUnsupported)
             else (case op_args oper of [] \<Rightarrow> Inl Trap
                     | ValU64 d # _ \<Rightarrow> apply_default_delay E d True (remove_op i s)
                     | _ # _ \<Rightarrow> Inl (Err TlInvalidConfig))
        else call_out invoke E (op_target oper) (op_fn_name oper) (op_args oper) (remove_op i s)) = Inr s2"
      "s' = tl_publish (OperationExecuted i) s2"
    using assms
    by (auto simp: execute_def res_simps int_ops Let_def split: option.splits)
  show ?thesis
  proof (rule that [OF 1 _ s2(2)], cases "op_target oper = e_self E")
    case True
    then have "op_fn_name oper = ''set_default_delay''
       \<and> (\<exists>d rest. op_args oper = ValU64 d # rest
            \<and> apply_default_delay E d True (remove_op i s) = Inr s2)"
      using s2(1) by (auto split: if_splits list.splits host_val.splits)
    then show "if op_target oper = e_self E
     then op_fn_name oper = ''set_default_delay''
       \<and> (\<exists>d rest. op_args oper = ValU64 d # rest \<and> MIN_DELAY \<le> d \<and> d \<le> MAX_DELAY
            \<and> s2 = (remove_op i s)\<lparr>tl_default_delay := Some d\<rparr>)
     else (\<exists>w. s2 = (remove_op i s)\<lparr>tl_world := w\<rparr>)"
      using True apply_default_delay_ok(1-3) by fastforce
  next
    case False
    then show "if op_target oper = e_self E
     then op_fn_name oper = ''set_default_delay''
       \<and> (\<exists>d rest. op_args oper = ValU64 d # rest \<and> MIN_DELAY \<le> d \<and> d \<le> MAX_DELAY
            \<and> s2 = (remove_op i s)\<lparr>tl_default_delay := Some d\<rparr>)
     else (\<exists>w. s2 = (remove_op i s)\<lparr>tl_world := w\<rparr>)"
      using s2(1) call_out_ok(2) by simp
  qed
qed

text \<open>The calls other than scheduling, executing and cancelling leave the operations alone.\<close>

fun queue_call :: "tl_call \<Rightarrow> bool" where
  "queue_call (TlSchedule _ _ _) = True" | "queue_call (TlExecute _) = True"
| "queue_call (TlCancel _) = True" | "queue_call _ = False"

lemma other_calls_keep_queue:
  assumes "tl_exec invoke E call s = Inr s'" and "\<not> queue_call call"
  shows "tl_ops s' = tl_ops s \<and> tl_next_id s' = tl_next_id s"
  using assms
  by (cases call) (auto simp: res_simps int_ops set_roles_def set_delay_def set_default_delay_def
      tl_propose_admin_def tl_accept_admin_def tl_cancel_admin_transfer_def emergency_def
      tl_publish_def split: option.splits if_splits dest!: apply_default_delay_ok(3) call_out_ok(2))

section \<open>Delays stay within bounds\<close>

definition delays_inv :: "'w tl \<Rightarrow> bool" where
  "delays_inv s \<longleftrightarrow> (\<exists>d. tl_default_delay s = Some d \<and> MIN_DELAY \<le> d \<and> d \<le> MAX_DELAY)
     \<and> (\<forall>k d. tl_delays s k = Some d \<longrightarrow> MIN_DELAY \<le> d \<and> d \<le> MAX_DELAY)"

lemma effective_delay_bounds:
  "delays_inv s \<Longrightarrow> MIN_DELAY \<le> effective_delay t f s \<and> effective_delay t f s \<le> MAX_DELAY"
  by (auto simp: delays_inv_def effective_delay_def default_delay_def Let_def split: option.splits)

lemma execute_delays:
  assumes "delays_inv s" and "execute invoke E i s = Inr s'"
  shows "delays_inv s'"
  using assms(2)
proof (rule execute_ok)
  fix oper s2
  assume a: "if op_target oper = e_self E
     then op_fn_name oper = ''set_default_delay''
       \<and> (\<exists>d rest. op_args oper = ValU64 d # rest \<and> MIN_DELAY \<le> d \<and> d \<le> MAX_DELAY
            \<and> s2 = (remove_op i s)\<lparr>tl_default_delay := Some d\<rparr>)
     else (\<exists>w. s2 = (remove_op i s)\<lparr>tl_world := w\<rparr>)" "s' = tl_publish (OperationExecuted i) s2"
  have "(\<exists>d. MIN_DELAY \<le> d \<and> d \<le> MAX_DELAY \<and> s2 = (remove_op i s)\<lparr>tl_default_delay := Some d\<rparr>)
      \<or> (\<exists>w. s2 = (remove_op i s)\<lparr>tl_world := w\<rparr>)"
    using a(1) by (auto split: if_splits)
  then show ?thesis using assms(1) by (auto simp: a(2) delays_inv_def remove_op_def tl_publish_def)
qed

lemma tl_exec_delays:
  assumes inv: "delays_inv s" and ex: "tl_exec invoke E call s = Inr s'"
  shows "delays_inv s'"
proof (cases call)
  case (TlSchedule t f args)
  then obtain i where "schedule E t f args s = Inr (i, s')" using ex by (auto simp: res_simps)
  then show ?thesis by (rule schedule_ok) (use inv in \<open>simp add: delays_inv_def tl_publish_def\<close>)
next
  case (TlExecute i)
  then show ?thesis using ex execute_delays [OF inv] by simp
next
  case (TlSetDefaultDelay d)
  then obtain s1 where s1: "apply_default_delay E d False s = Inr s1"
      "s' = tl_publish (DefaultDelaySet d) s1"
    using ex by (auto simp: set_default_delay_def res_simps)
  show ?thesis using inv apply_default_delay_ok(1-3) [OF s1(1)]
    by (simp add: s1(2) delays_inv_def tl_publish_def)
next
  case (TlEmergency t f args)
  then obtain w ev where "s' = tl_publish ev (s\<lparr>tl_world := w\<rparr>)"
    using ex by (auto simp: emergency_def res_simps int_ops split: if_splits dest!: call_out_ok(2))
  then show ?thesis using inv by (simp add: delays_inv_def tl_publish_def)
next
  case (TlSetDelay t f d)
  then show ?thesis using ex inv
    by (cases d) (auto simp: set_delay_def res_simps delays_inv_def tl_publish_def split: if_splits)
qed (use ex inv in \<open>auto simp: res_simps int_ops delays_inv_def tl_publish_def cancel_def remove_op_def
    set_roles_def tl_propose_admin_def tl_accept_admin_def tl_cancel_admin_transfer_def
    split: if_splits\<close>)

lemma tl_history_delays: "tl_history invoke self h s \<Longrightarrow> delays_inv s"
proof (induction rule: tl_history.induct)
  case (tl_init a p c x em d w s)
  then show ?case
    by (auto simp: tl_constructor_def tl_deployed_def delays_inv_def split: if_splits)
next
  case (tl_call h s E call s')
  then show ?case using tl_exec_delays by blast
next
  case (tl_world_moves h s w)
  then show ?case by (simp add: delays_inv_def)
qed

text \<open>The wait of a scheduled call is always between one and thirty days: whatever the history of
  the contract, the delay of every target and function is within the bounds.\<close>

lemma delays_stay_bounded:
  assumes "tl_history invoke self h s"
  shows "86400 \<le> delay_for target fn_name s \<and> delay_for target fn_name s \<le> 30 * 86400"
  using effective_delay_bounds [OF tl_history_delays [OF assms]]
  by (simp add: delay_for_def MIN_DELAY_def MAX_DELAY_def)

definition no_call :: "'w invoke" where
  "no_call target fn_name args w = Some w"

definition tl_demo :: "unit tl" where
  "tl_demo = (tl_deployed ())\<lparr>tl_admin := Some 1,
     tl_roles := Some \<lparr>ro_proposer = 2, ro_canceller = 3, ro_executor = None, ro_emergency = Some 4\<rparr>,
     tl_default_delay := Some 172800, tl_next_id := Some 0\<rparr>"

lemma tl_demo_init: "tl_history no_call 50 [] tl_demo"
  by (rule tl_init [of 1 2 3 None "Some 4" 172800 "()"])
    (simp add: tl_constructor_def tl_demo_def MIN_DELAY_def MAX_DELAY_def tl_deployed_def)

theorem delays_stay_bounded_witness:
  "86400 \<le> delay_for 7 ''set_paused'' tl_demo \<and> delay_for 7 ''set_paused'' tl_demo \<le> 30 * 86400"
  by (rule delays_stay_bounded [OF tl_demo_init])

section \<open>Scheduling before executing\<close>

text \<open>\<open>scheduled_as h oper\<close>: the operation was scheduled by a call of the history that its proposer
  authorised, and waits between the bounds from then on.\<close>

definition scheduled_as :: "(env \<times> tl_call) list \<Rightarrow> operation \<Rightarrow> bool" where
  "scheduled_as h oper \<longleftrightarrow> (\<exists>E. (E, TlSchedule (op_target oper) (op_fn_name oper) (op_args oper)) \<in> set h
     \<and> e_auth E (op_proposer oper)
     \<and> e_now E + MIN_DELAY \<le> op_eta oper \<and> op_eta oper \<le> e_now E + MAX_DELAY
     \<and> op_expires oper = op_eta oper + EXECUTION_GRACE)"

definition uses :: "nat \<Rightarrow> (env \<times> tl_call) list \<Rightarrow> nat" where
  "uses i h = length (List.filter (\<lambda>(E, call). call = TlExecute i \<or> call = TlCancel i) h)"

definition queue_inv :: "(env \<times> tl_call) list \<Rightarrow> 'w tl \<Rightarrow> bool" where
  "queue_inv h s \<longleftrightarrow> (\<exists>n. tl_next_id s = Some n
     \<and> (\<forall>i oper. tl_ops s i = Some oper \<longrightarrow> i < n \<and> scheduled_as h oper)
     \<and> (\<forall>i. uses i h \<noteq> 0 \<longrightarrow> i < n \<and> tl_ops s i = None))"

lemma uses_snoc [simp]:
  "uses i (h @ [(E, call)])
     = uses i h + (if call = TlExecute i \<or> call = TlCancel i then 1 else 0)"
  by (simp add: uses_def)

lemma uses_Nil [simp]: "uses i [] = 0"
  by (simp add: uses_def)

lemma scheduled_as_snoc: "scheduled_as h oper \<Longrightarrow> scheduled_as (h @ [x]) oper"
  by (auto simp: scheduled_as_def)

lemma remove_queue:
  assumes "queue_inv h s" and "tl_ops s i = Some oper" and "call = TlExecute i \<or> call = TlCancel i"
    and "tl_ops s' = (tl_ops s)(i := None)" and "tl_next_id s' = tl_next_id s"
  shows "queue_inv (h @ [(E, call)]) s'"
proof -
  obtain n where n: "tl_next_id s = Some n"
      "\<forall>i oper. tl_ops s i = Some oper \<longrightarrow> i < n \<and> scheduled_as h oper"
      "\<forall>i. uses i h \<noteq> 0 \<longrightarrow> i < n \<and> tl_ops s i = None"
    using assms(1) by (auto simp: queue_inv_def)
  have "i < n" using n(2) assms(2) by blast
  then show ?thesis
    unfolding queue_inv_def using n assms(3-5) scheduled_as_snoc by (intro exI [of _ n]) auto
qed

lemma execute_queue:
  assumes "execute invoke E i s = Inr s'"
  shows "\<exists>oper. tl_ops s i = Some oper \<and> op_eta oper \<le> e_now E \<and> e_now E \<le> op_expires oper"
    and "tl_ops s' = (tl_ops s)(i := None)" and "tl_next_id s' = tl_next_id s"
  using assms
  by (rule execute_ok; auto simp: remove_op_def tl_publish_def split: if_splits)+

lemma cancel_queue:
  assumes "cancel E i s = Inr s'"
  shows "\<exists>oper. tl_ops s i = Some oper" and "tl_ops s' = (tl_ops s)(i := None)"
    and "tl_next_id s' = tl_next_id s"
  using assms by (auto simp: cancel_def res_simps remove_op_def tl_publish_def)

lemma tl_exec_queue:
  assumes inv: "queue_inv h s" and d: "delays_inv s" and ex: "tl_exec invoke E call s = Inr s'"
  shows "queue_inv (h @ [(E, call)]) s'"
proof (cases "queue_call call")
  case False
  have "tl_ops s' = tl_ops s \<and> tl_next_id s' = tl_next_id s"
    by (rule other_calls_keep_queue [OF ex False])
  moreover have "call \<noteq> TlExecute i \<and> call \<noteq> TlCancel i" for i using False by auto
  ultimately show ?thesis using inv scheduled_as_snoc unfolding queue_inv_def by simp metis
next
  case True
  then show ?thesis
  proof (cases call)
    case (TlExecute i)
    then have x: "execute invoke E i s = Inr s'" using ex by simp
    obtain oper where "tl_ops s i = Some oper" using execute_queue(1) [OF x] by blast
    then show ?thesis
      by (rule remove_queue [OF inv]) (use execute_queue(2,3) [OF x] TlExecute in auto)
  next
    case (TlCancel i)
    then have x: "cancel E i s = Inr s'" using ex by simp
    obtain oper where "tl_ops s i = Some oper" using cancel_queue(1) [OF x] by blast
    then show ?thesis
      by (rule remove_queue [OF inv]) (use cancel_queue(2,3) [OF x] TlCancel in auto)
  next
    case (TlSchedule t f args)
    then obtain i where "schedule E t f args s = Inr (i, s')" using ex by (auto simp: res_simps)
    then show ?thesis
    proof (rule schedule_ok)
      fix r
      assume a: "e_auth E (ro_proposer r)" "i = operation_count s"
        "s' = tl_publish (OperationScheduled i t f (e_now E + effective_delay t f s))
           (s\<lparr>tl_next_id := Some (i + 1),
              tl_ops := (tl_ops s)(i \<mapsto> \<lparr>op_proposer = ro_proposer r, op_target = t, op_fn_name = f,
                 op_args = args, op_eta = e_now E + effective_delay t f s,
                 op_expires = e_now E + effective_delay t f s + EXECUTION_GRACE\<rparr>)\<rparr>)"
      obtain n where n: "tl_next_id s = Some n"
          "\<forall>i oper. tl_ops s i = Some oper \<longrightarrow> i < n \<and> scheduled_as h oper"
          "\<forall>i. uses i h \<noteq> 0 \<longrightarrow> i < n \<and> tl_ops s i = None"
        using inv by (auto simp: queue_inv_def)
      have i: "i = n" using a(2) n(1) by (simp add: operation_count_def)
      have new: "scheduled_as (h @ [(E, call)]) \<lparr>op_proposer = ro_proposer r, op_target = t,
          op_fn_name = f, op_args = args, op_eta = e_now E + effective_delay t f s,
          op_expires = e_now E + effective_delay t f s + EXECUTION_GRACE\<rparr>"
        using effective_delay_bounds [OF d, of t f] a(1) TlSchedule
        by (auto simp: scheduled_as_def)
      have "i' < n + 1 \<and> scheduled_as (h @ [(E, call)]) oper" if "tl_ops s' i' = Some oper" for i' oper
        using that n(2) new scheduled_as_snoc
        by (auto simp: a(3) tl_publish_def i split: if_splits dest!: less_SucI)
      moreover have "i' < n + 1 \<and> tl_ops s' i' = None" if "uses i' (h @ [(E, call)]) \<noteq> 0" for i'
        using n(3) that TlSchedule by (fastforce simp: a(3) tl_publish_def i)
      ultimately show ?thesis
        unfolding queue_inv_def by (intro exI [of _ "n + 1"]) (auto simp: a(3) tl_publish_def i)
    qed
  qed simp_all
qed

lemma tl_history_queue: "tl_history invoke self h s \<Longrightarrow> queue_inv h s"
proof (induction rule: tl_history.induct)
  case (tl_init a p c x em d w s)
  then show ?case
    by (auto simp: tl_constructor_def tl_deployed_def queue_inv_def split: if_splits)
next
  case (tl_call h s E call s')
  then show ?case using tl_exec_queue tl_history_delays by blast
next
  case (tl_world_moves h s w)
  then show ?case by (simp add: queue_inv_def)
qed

text \<open>C12. Nothing executes before its time: a call that executes was scheduled earlier, by the
  proposer and with the same target, function and arguments, at least one day before; and it
  executes at most thirty days and the seven-day grace period after it was scheduled.\<close>

theorem executed_calls_waited:
  assumes "tl_history invoke self h s" and "execute invoke E i s = Inr s'"
  shows "\<exists>oper E0. tl_ops s i = Some oper
    \<and> (E0, TlSchedule (op_target oper) (op_fn_name oper) (op_args oper)) \<in> set h
    \<and> e_auth E0 (op_proposer oper)
    \<and> e_now E0 + 86400 \<le> e_now E \<and> e_now E \<le> e_now E0 + 37 * 86400"
proof -
  obtain oper where o: "tl_ops s i = Some oper" "op_eta oper \<le> e_now E" "e_now E \<le> op_expires oper"
    using execute_queue(1) [OF assms(2)] by blast
  then have "scheduled_as h oper" using tl_history_queue [OF assms(1)] by (auto simp: queue_inv_def)
  then obtain E0 where "(E0, TlSchedule (op_target oper) (op_fn_name oper) (op_args oper)) \<in> set h"
      "e_auth E0 (op_proposer oper)" "e_now E0 + MIN_DELAY \<le> op_eta oper"
      "op_eta oper \<le> e_now E0 + MAX_DELAY" "op_expires oper = op_eta oper + EXECUTION_GRACE"
    by (auto simp: scheduled_as_def)
  then show ?thesis
    using o by (intro exI [of _ oper] exI [of _ E0])
      (auto simp: MIN_DELAY_def MAX_DELAY_def EXECUTION_GRACE_def)
qed

definition tl_env :: "nat \<Rightarrow> env" where
  "tl_env now = \<lparr>e_now = now, e_seq = 0, e_max_ttl = 0, e_self = 50, e_auth = (\<lambda>_. True)\<rparr>"

definition tl_demo1 :: "unit tl" where
  "tl_demo1 = tl_publish (OperationScheduled 0 7 ''set_paused'' 172900)
     (tl_demo\<lparr>tl_next_id := Some 1, tl_ops := [0 \<mapsto> \<lparr>op_proposer = 2, op_target = 7,
        op_fn_name = ''set_paused'', op_args = [ValBool False], op_eta = 172900,
        op_expires = 777700\<rparr>]\<rparr>)"

lemma tl_demo1_history:
  "tl_history no_call 50 [(tl_env 100, TlSchedule 7 ''set_paused'' [ValBool False])] tl_demo1"
proof -
  have "tl_exec no_call (tl_env 100) (TlSchedule 7 ''set_paused'' [ValBool False]) tl_demo = Inr tl_demo1"
    by (simp add: schedule_def get_roles_def require_auth_def tl_env_def effective_delay_def
        default_delay_def tl_demo_def tl_demo1_def tl_deployed_def add_u64_def u64_max_def
        EXECUTION_GRACE_def Let_def)
  from tl_call [OF tl_demo_init _ _ this] show ?thesis by (simp add: tl_env_def)
qed

lemma tl_demo1_execute: "\<exists>s'. execute no_call (tl_env 200000) 0 tl_demo1 = Inr s'"
  by (simp add: execute_def load_op_def get_roles_def tl_demo1_def tl_demo_def tl_deployed_def
      tl_publish_def tl_env_def call_out_def no_call_def remove_op_def Let_def)

theorem executed_calls_waited_witness:
  "\<exists>s'. execute no_call (tl_env 200000) 0 tl_demo1 = Inr s' \<and> (100::nat) + 86400 \<le> 200000"
proof -
  obtain s' where s': "execute no_call (tl_env 200000) 0 tl_demo1 = Inr s'"
    using tl_demo1_execute by blast
  from executed_calls_waited [OF tl_demo1_history s'] s' show ?thesis by (auto simp: tl_env_def)
qed

text \<open>C38. No replay: along any history an operation is executed or cancelled at most once.\<close>

theorem operations_run_once:
  assumes "tl_history invoke self h s"
  shows "uses i h \<le> 1"
  using assms
proof (induction rule: tl_history.induct)
  case (tl_call h s E call s')
  show ?case
  proof (cases "call = TlExecute i \<or> call = TlCancel i")
    case True
    have "\<exists>oper. tl_ops s i = Some oper"
      using True tl_call.hyps execute_queue(1) [of invoke E i s s'] cancel_queue(1) [of E i s s']
      by auto
    then have "uses i h = 0"
      using tl_history_queue [OF tl_call.hyps(1)] by (fastforce simp: queue_inv_def)
    then show ?thesis by simp
  next
    case False
    then show ?thesis using tl_call.IH by simp
  qed
qed simp_all

theorem operations_run_once_witness:
  "uses 0 [(tl_env 100, TlSchedule 7 ''set_paused'' [ValBool False])] \<le> 1"
  by (rule operations_run_once [OF tl_demo1_history])

section \<open>The floor, the emergency role and self-calls\<close>

text \<open>The delay floor rises only through the timelock itself: a call that raises it is the
  execution of a due operation that was scheduled on the timelock for that purpose. Lowering it
  directly needs the admin.\<close>

lemma floor_rises_only_through_the_queue:
  assumes "tl_exec invoke E call s = Inr s'" and "default_delay s' \<noteq> default_delay s"
  shows "(\<exists>i oper d rest. call = TlExecute i \<and> tl_ops s i = Some oper \<and> op_eta oper \<le> e_now E
            \<and> op_target oper = e_self E \<and> op_fn_name oper = ''set_default_delay''
            \<and> op_args oper = ValU64 d # rest \<and> default_delay s' = d)
    \<or> (call = TlSetDefaultDelay (default_delay s') \<and> default_delay s' < default_delay s
         \<and> (\<exists>a. tl_admin s = Some a \<and> e_auth E a))"
proof (cases call)
  case (TlExecute i)
  then have "execute invoke E i s = Inr s'" using assms(1) by simp
  then show ?thesis
  proof (rule execute_ok)
    fix oper s2
    assume a: "tl_ops s i = Some oper" "op_eta oper \<le> e_now E"
      "if op_target oper = e_self E
       then op_fn_name oper = ''set_default_delay''
         \<and> (\<exists>d rest. op_args oper = ValU64 d # rest \<and> MIN_DELAY \<le> d \<and> d \<le> MAX_DELAY
              \<and> s2 = (remove_op i s)\<lparr>tl_default_delay := Some d\<rparr>)
       else (\<exists>w. s2 = (remove_op i s)\<lparr>tl_world := w\<rparr>)" "s' = tl_publish (OperationExecuted i) s2"
    have "op_target oper = e_self E"
      using a(3,4) assms(2)
      by (auto simp: default_delay_def remove_op_def tl_publish_def split: if_splits)
    then show ?thesis
      using a TlExecute by (auto simp: default_delay_def remove_op_def tl_publish_def)
  qed
next
  case (TlSetDefaultDelay d)
  then obtain s1 where "apply_default_delay E d False s = Inr s1" "s' = tl_publish (DefaultDelaySet d) s1"
    using assms(1) by (auto simp: set_default_delay_def res_simps)
  then show ?thesis
    using apply_default_delay_ok(3,4) [of E d False s s1] TlSetDefaultDelay assms(2)
    by (auto simp: default_delay_def tl_publish_def)
next
  case (TlSchedule t f args)
  then obtain i where "schedule E t f args s = Inr (i, s')" using assms(1) by (auto simp: res_simps)
  then have "default_delay s' = default_delay s"
    by (rule schedule_ok) (simp add: default_delay_def tl_publish_def)
  then show ?thesis using assms(2) by simp
next
  case (TlEmergency t f args)
  then obtain w ev where "s' = tl_publish ev (s\<lparr>tl_world := w\<rparr>)"
    using assms(1) by (auto simp: emergency_def res_simps int_ops split: if_splits dest!: call_out_ok(2))
  then show ?thesis using assms(2) by (simp add: default_delay_def tl_publish_def)
next
  case (TlSetDelay t f d)
  then show ?thesis using assms
    by (cases d) (auto simp: set_delay_def res_simps default_delay_def tl_publish_def)
qed (use assms in \<open>auto simp: res_simps int_ops default_delay_def tl_publish_def cancel_def
    remove_op_def set_roles_def tl_propose_admin_def tl_accept_admin_def
    tl_cancel_admin_transfer_def split: if_splits\<close>)

lemma floor_rises_only_through_the_queue_witness:
  "\<exists>s'. tl_exec no_call (tl_env 5) (TlSetDefaultDelay 86400) tl_demo = Inr s' \<and> default_delay s' = 86400
     \<and> default_delay s' < default_delay tl_demo"
proof -
  obtain s' where s': "tl_exec no_call (tl_env 5) (TlSetDefaultDelay 86400) tl_demo = Inr s'"
      "default_delay s' = 86400"
    by (simp add: set_default_delay_def apply_default_delay_def check_delay_bounds_def MIN_DELAY_def
        MAX_DELAY_def default_delay_def tl_require_admin_def require_auth_def tl_demo_def
        tl_env_def tl_publish_def)
  moreover have "default_delay tl_demo = 172800" by (simp add: default_delay_def tl_demo_def)
  ultimately show ?thesis using floor_rises_only_through_the_queue [OF s'(1)] by auto
qed

lemma emergency_allows:
  assumes "is_emergency_allowed f args"
  shows "f = ''set_paused'' \<and> args = [ValBool True] \<or> f = ''cancel_proposal''"
proof (cases "f = ''set_paused''")
  case True
  obtain v rest where a: "args = v # rest" using assms True
    by (cases args) (simp_all add: is_emergency_allowed_def)
  moreover have "rest = []" using assms True a
    by (cases rest; cases v) (simp_all add: is_emergency_allowed_def)
  ultimately show ?thesis using assms True
    by (cases v) (simp_all add: is_emergency_allowed_def)
next
  case False
  then show ?thesis using assms by (simp add: is_emergency_allowed_def split: if_splits)
qed

text \<open>The timelock reaches another contract in two ways only: by executing a due operation, with
  exactly the scheduled target, function and arguments, or by an emergency call, authorised by
  the emergency role, that pauses or cancels a proposal.\<close>

lemma outside_calls_are_due_or_allowed:
  assumes "tl_exec invoke E call s = Inr s'" and "tl_world s' \<noteq> tl_world s"
  shows "(\<exists>i oper. call = TlExecute i \<and> tl_ops s i = Some oper
           \<and> op_eta oper \<le> e_now E \<and> e_now E \<le> op_expires oper
           \<and> invoke (op_target oper) (op_fn_name oper) (op_args oper) (tl_world s) = Some (tl_world s'))
    \<or> (\<exists>target fn_name args r em. call = TlEmergency target fn_name args
           \<and> tl_roles s = Some r \<and> ro_emergency r = Some em \<and> e_auth E em
           \<and> (fn_name = ''set_paused'' \<and> args = [ValBool True] \<or> fn_name = ''cancel_proposal'')
           \<and> invoke target fn_name args (tl_world s) = Some (tl_world s'))"
proof (cases call)
  case (TlExecute i)
  then have ex: "execute invoke E i s = Inr s'" using assms(1) by simp
  then obtain oper where o: "tl_ops s i = Some oper" "op_eta oper \<le> e_now E" "e_now E \<le> op_expires oper"
    using execute_queue(1) by blast
  have "op_target oper \<noteq> e_self E"
  proof
    assume "op_target oper = e_self E"
    then have "tl_world s' = tl_world s"
      using ex o(1) by - (erule execute_ok, auto simp: remove_op_def tl_publish_def)
    then show False using assms(2) by simp
  qed
  then have "invoke (op_target oper) (op_fn_name oper) (op_args oper) (tl_world s) = Some (tl_world s')"
    using ex o
    by (auto simp: execute_def res_simps int_ops Let_def call_out_def remove_op_def tl_publish_def)
  then show ?thesis using o TlExecute by blast
next
  case (TlEmergency t f args)
  then have "emergency invoke E t f args s = Inr s'" using assms(1) by simp
  then obtain r em where 1: "tl_roles s = Some r" "ro_emergency r = Some em" "e_auth E em"
      "is_emergency_allowed f args" "invoke t f args (tl_world s) = Some (tl_world s')"
    by (auto simp: emergency_def res_simps int_ops call_out_def tl_publish_def split: if_splits)
  have "f = ''set_paused'' \<and> args = [ValBool True] \<or> f = ''cancel_proposal''"
    using 1(4) by (rule emergency_allows)
  then show ?thesis using 1 TlEmergency by blast
next
  case (TlSchedule t f args)
  then obtain i where "schedule E t f args s = Inr (i, s')" using assms(1) by (auto simp: res_simps)
  then have "tl_world s' = tl_world s" by (rule schedule_ok) (simp add: tl_publish_def)
  then show ?thesis using assms(2) by simp
next
  case (TlSetDefaultDelay d)
  then obtain s1 where "apply_default_delay E d False s = Inr s1" "s' = tl_publish (DefaultDelaySet d) s1"
    using assms(1) by (auto simp: set_default_delay_def res_simps)
  then show ?thesis
    using apply_default_delay_ok(3) [of E d False s s1] assms(2) by (auto simp: tl_publish_def)
next
  case (TlSetDelay t f d)
  then show ?thesis using assms
    by (cases d) (auto simp: set_delay_def res_simps tl_publish_def)
qed (use assms in \<open>auto simp: res_simps int_ops tl_publish_def cancel_def
    remove_op_def set_roles_def tl_propose_admin_def tl_accept_admin_def
    tl_cancel_admin_transfer_def split: if_splits\<close>)

definition count_call :: "nat invoke" where
  "count_call target fn_name args w = Some (w + 1)"

definition tl_demo_count :: "nat tl" where
  "tl_demo_count = (tl_deployed 0)\<lparr>tl_admin := Some 1,
     tl_roles := Some \<lparr>ro_proposer = 2, ro_canceller = 3, ro_executor = None, ro_emergency = Some 4\<rparr>,
     tl_default_delay := Some 172800, tl_next_id := Some 0\<rparr>"

lemma outside_calls_are_due_or_allowed_witness:
  "\<exists>s'. tl_exec count_call (tl_env 5) (TlEmergency 7 ''set_paused'' [ValBool True]) tl_demo_count = Inr s'
     \<and> count_call 7 ''set_paused'' [ValBool True] 0 = Some (tl_world s')"
proof -
  obtain s' where s': "tl_exec count_call (tl_env 5) (TlEmergency 7 ''set_paused'' [ValBool True])
      tl_demo_count = Inr s'" "tl_world s' = 1"
    by (simp add: emergency_def get_roles_def require_auth_def is_emergency_allowed_def call_out_def
        count_call_def tl_demo_count_def tl_deployed_def tl_env_def tl_publish_def)
  have "tl_world tl_demo_count = 0" by (simp add: tl_demo_count_def tl_deployed_def)
  then show ?thesis
    using outside_calls_are_due_or_allowed [OF s'(1)] s' by auto
qed

text \<open>Scheduled changes of the timelock's own roles or delays can never execute: an operation on
  the timelock itself other than raising the floor is refused at every time and by everyone,
  although it can be scheduled.\<close>

lemma self_calls_are_refused:
  assumes "tl_ops s i = Some oper" and "op_target oper = e_self E"
    and "op_fn_name oper \<noteq> ''set_default_delay''"
  shows "\<exists>e. execute invoke E i s = Inl e"
proof (cases "execute invoke E i s")
  case (Inr s')
  then show ?thesis by (rule execute_ok) (use assms in auto)
qed simp

lemma self_calls_are_refused_witness:
  "\<exists>i s e. schedule (tl_env 5) 50 ''set_roles'' [] tl_demo = Inr (i, s)
     \<and> execute no_call (tl_env 200000) i s = Inl e"
proof -
  obtain s where s: "schedule (tl_env 5) 50 ''set_roles'' [] tl_demo = Inr (0, s)"
      "\<exists>oper. tl_ops s 0 = Some oper \<and> op_target oper = 50 \<and> op_fn_name oper = ''set_roles''"
    by (simp add: schedule_def get_roles_def require_auth_def tl_env_def effective_delay_def
        default_delay_def tl_demo_def tl_deployed_def add_u64_def u64_max_def
        EXECUTION_GRACE_def Let_def tl_publish_def)
  then have "\<exists>e. execute no_call (tl_env 200000) 0 s = Inl e"
    using self_calls_are_refused [of s 0 _ "tl_env 200000" no_call] by (auto simp: tl_env_def)
  then show ?thesis using s(1) by blast
qed

section \<open>The admin role\<close>

fun tl_handover :: "tl_call \<Rightarrow> handover_op option" where
  "tl_handover (TlProposeAdmin a) = Some (Propose a)"
| "tl_handover TlAcceptAdmin = Some Accept"
| "tl_handover TlCancelAdminTransfer = Some Cancel"
| "tl_handover _ = None"

definition tl_pending :: "'w tl \<Rightarrow> (address \<times> nat) option" where
  "tl_pending s = (case tl_pending_admin s of None \<Rightarrow> None
     | Some p \<Rightarrow> (case tl_pending_admin_at s of None \<Rightarrow> None | Some x \<Rightarrow> Some (p, x)))"

lemma tl_handover_other:
  assumes "tl_exec invoke E call s = Inr s'" and "tl_handover call = None"
  shows "tl_admin s' = tl_admin s \<and> tl_pending s' = tl_pending s"
proof (cases call)
  case (TlExecute i)
  then have "execute invoke E i s = Inr s'" using assms(1) by simp
  then show ?thesis
    by (rule execute_ok) (auto simp: tl_pending_def remove_op_def tl_publish_def split: if_splits option.split)
next
  case (TlEmergency t f args)
  then show ?thesis using assms(1)
    by (auto simp: emergency_def res_simps int_ops tl_pending_def tl_publish_def
        split: if_splits option.split dest!: call_out_ok(2))
next
  case (TlSetDefaultDelay d)
  then show ?thesis using assms(1)
    by (auto simp: set_default_delay_def res_simps tl_pending_def tl_publish_def
        split: option.split dest!: apply_default_delay_ok(3))
next
  case (TlSchedule t f args)
  then obtain i where "schedule E t f args s = Inr (i, s')" using assms(1) by (auto simp: res_simps)
  then show ?thesis by (rule schedule_ok) (simp add: tl_pending_def tl_publish_def split: option.split)
next
  case (TlSetDelay t f d)
  then show ?thesis using assms
    by (cases d) (auto simp: set_delay_def res_simps tl_pending_def tl_publish_def split: option.split)
qed (use assms in \<open>auto simp: res_simps int_ops tl_pending_def tl_publish_def cancel_def
    remove_op_def set_roles_def split: if_splits option.split\<close>)

interpretation tl_role: two_step_admin "tl_exec invoke" tl_handover tl_admin tl_pending
    ADMIN_TRANSFER_TTL for invoke
proof (unfold_locales, goal_cases)
  case (1 E c s s' p)
  then show ?case
    by (cases c) (auto simp: tl_propose_admin_def res_simps int_ops tl_pending_def tl_publish_def)
next
  case (2 E c s s')
  then show ?case
    by (cases c) (auto simp: tl_accept_admin_def pending_admin_entry_def res_simps int_ops
        tl_pending_def tl_publish_def split: option.splits if_splits)
next
  case (3 E c s s')
  then show ?case
    by (cases c) (auto simp: tl_cancel_admin_transfer_def res_simps int_ops tl_pending_def
        tl_publish_def split: if_splits)
next
  case (4 E c s s')
  then show ?case using tl_handover_other by metis
qed

text \<open>Control of the timelock cannot be taken either: the executed operations and emergency calls
  never move the admin role, which changes only by a proposal the admin authorised and the new
  admin accepted within seven days.\<close>

lemma timelock_admin_is_not_taken:
  assumes "tl_role.run invoke cs s = Inr s'" and "tl_admin s = Some a" and "tl_pending s = None"
  shows "((\<forall>(E, call)\<in>set cs. \<forall>p. call = TlProposeAdmin p \<longrightarrow> \<not> e_auth E a)
            \<longrightarrow> tl_admin s' = Some a)
    \<and> (tl_admin s' \<noteq> Some a \<longrightarrow> (\<exists>p E1 E2. tl_admin s' = Some p
         \<and> (E1, TlProposeAdmin p) \<in> set cs \<and> (E2, TlAcceptAdmin) \<in> set cs
         \<and> e_auth E2 p \<and> e_now E2 \<le> e_now E1 + 7 * 86400))"
proof -
  have p: "tl_handover call = Some (Propose p) \<longleftrightarrow> call = TlProposeAdmin p"
    "tl_handover call = Some Accept \<longleftrightarrow> call = TlAcceptAdmin" for call p
    by (cases call; auto)+
  have "tl_admin s' = Some a"
    if "\<forall>(E, call)\<in>set cs. \<forall>p. call = TlProposeAdmin p \<longrightarrow> \<not> e_auth E a"
    using tl_role.no_takeover [OF assms] that by (auto simp: p)
  moreover have "tl_admin s' \<noteq> Some a \<longrightarrow> (\<exists>p E1 E2. tl_admin s' = Some p
         \<and> (E1, TlProposeAdmin p) \<in> set cs \<and> (E2, TlAcceptAdmin) \<in> set cs
         \<and> e_auth E2 p \<and> e_now E2 \<le> e_now E1 + 7 * 86400)"
    using tl_role.handover_trace [OF assms(1,3)] assms(2)
    by (auto simp: accepted_in_def proposed_in_def p ADMIN_TRANSFER_TTL_def)
  ultimately show ?thesis by blast
qed

lemma timelock_admin_is_not_taken_witness:
  "\<exists>s'. tl_role.run no_call [(tl_env 5, TlCancelAdminTransfer)] tl_demo = Inl (Err TlNoPendingAdmin)
     \<and> tl_role.run no_call [] tl_demo = Inr s' \<and> tl_admin s' = Some 1"
proof -
  have "tl_role.run no_call [] tl_demo = Inr tl_demo" by simp
  moreover have "tl_admin tl_demo = Some 1" "tl_pending tl_demo = None"
    by (simp_all add: tl_demo_def tl_pending_def tl_deployed_def)
  ultimately have "tl_admin tl_demo = Some 1"
    using timelock_admin_is_not_taken [of no_call "[]" tl_demo tl_demo 1] by simp
  moreover have "tl_role.run no_call [(tl_env 5, TlCancelAdminTransfer)] tl_demo
      = Inl (Err TlNoPendingAdmin)"
    by (simp add: tl_cancel_admin_transfer_def tl_require_admin_def require_auth_def
        pending_admin_entry_def tl_demo_def tl_deployed_def tl_env_def)
  ultimately show ?thesis by auto
qed

end
