(* ===== verification/TreasuryTypes.thy ===== *)
theory TreasuryTypes
  imports MarketState "HOL-Library.Word"
begin

text \<open>
  Constants, types, errors and events of the treasury contract
  (\<^verbatim>\<open>contracts/treasury/src/lib.rs\<close>), and the contracts it calls.

  Bit masks (agent roles, allowed categories) are words of 32 bits. The contracts the treasury
  calls (collateral token, market-core, resolver, lending pool) and the hash functions of the
  host are the record \<open>'w peers\<close>, over a state \<open>'w\<close> of everything outside the treasury: a call
  returns its result with the new outside state, or fails and leaves it as it was. The types and
  error codes of market-core's interface are those of \<^theory_text>\<open>MarketState\<close>.
\<close>

unbundle bit_operations_syntax

section \<open>Constants\<close>

definition SPEC_DOMAIN :: symbol where "SPEC_DOMAIN = ''oracledesk:resolution-spec''"
definition SPEC_V2_VERSION :: nat where "SPEC_V2_VERSION = 2"
definition DAY_SECONDS :: nat where "DAY_SECONDS = 86400"
definition BUCKET_SECONDS :: nat where "BUCKET_SECONDS = 3600"
definition BUCKETS :: nat where "BUCKETS = 25"
definition ROLE_CREATE :: "32 word" where "ROLE_CREATE = 1"
definition ROLE_TRADE :: "32 word" where "ROLE_TRADE = 2"
definition ROLE_SETTLE :: "32 word" where "ROLE_SETTLE = 4"
definition ROLE_ALL :: "32 word" where "ROLE_ALL = ROLE_CREATE OR ROLE_TRADE OR ROLE_SETTLE"
definition MAX_AGENTS :: nat where "MAX_AGENTS = 16"
definition MIN_CONFIG_DELAY :: nat where "MIN_CONFIG_DELAY = 86400"
definition MAX_OPEN_MARKETS :: nat where "MAX_OPEN_MARKETS = 12"
definition MIN_DEPOSIT :: int where "MIN_DEPOSIT = 10 * 10000000"
definition VIRTUAL_SHARES :: int where "VIRTUAL_SHARES = 1000"
definition VIRTUAL_ASSETS :: int where "VIRTUAL_ASSETS = 1"
definition CREATION_BUCKETS :: nat where "CREATION_BUCKETS = 24"
definition BLEND_REQUEST_SUPPLY :: nat where "BLEND_REQUEST_SUPPLY = 0"
definition BLEND_REQUEST_WITHDRAW :: nat where "BLEND_REQUEST_WITHDRAW = 1"

section \<open>Types\<close>

record risk_config =
  rc_agent :: address
  rc_collateral :: address
  rc_market_core :: address
  rc_max_trade :: int
  rc_max_market :: int
  rc_max_daily :: int

record global_config =
  gc_collateral :: address
  gc_market_core :: address
  gc_max_trade :: int
  gc_max_market :: int
  gc_max_daily :: int
  gc_max_net_exposure :: int

record agent_policy =
  ap_roles :: "32 word"
  ap_max_trade :: int
  ap_max_daily :: int
  ap_active :: bool

record pending_config_rec =
  pg_config :: global_config
  pg_proposed_at :: nat
  pg_executable_at :: nat

record pending_agent_rec =
  pn_policy :: agent_policy
  pn_proposed_at :: nat
  pn_executable_at :: nat

record price_policy =
  pp_max_buy_price_bps :: nat
  pp_min_sell_price_bps :: nat
  pp_max_impact_bps :: nat
  pp_max_slippage_bps :: nat

record pending_price_policy_rec =
  pq_policy :: price_policy
  pq_proposed_at :: nat
  pq_executable_at :: nat

record market_exposure_rec =
  me_amount :: int
  me_open :: bool

record daily_usage_rec =
  du_day_start :: nat
  du_amount :: int

record usage_window =
  uw_head_hour :: nat
  uw_amounts :: "int list"
  uw_head_idx :: nat

record net_position_rec =
  np_collateral_in :: int
  np_collateral_out :: int

record valuation =
  va_cost_basis :: int
  va_floor_value :: int
  va_spot_value :: int
  va_at_risk :: int

record open_market =
  om_core :: address
  om_market_id :: nat

record withdraw_ticket_rec =
  wt_owner :: address
  wt_remaining :: int
  wt_created_at :: nat

record settlement_report =
  sp_redeemed :: int
  sp_lp_claimed :: int
  sp_already_settled :: bool

record realized_rec =
  re_position_proceeds :: int
  re_lp_proceeds :: int
  re_settled :: bool

record market_pnl_rec =
  pl_cost :: int
  pl_proceeds :: int
  pl_realized :: bool

record drawdown_config =
  dd_max_drawdown :: int
  dd_window_days :: nat

record pnl_days =
  py_head_day :: nat
  py_amounts :: "int list"
  py_head_idx :: nat

record drawdown_status_rec =
  ds_tripped :: bool
  ds_window_pnl :: int
  ds_max_drawdown :: int

record creation_policy =
  cp_max_seed :: int
  cp_max_markets_per_window :: nat
  cp_creation_window_secs :: nat
  cp_min_close_horizon :: nat
  cp_max_close_horizon :: nat
  cp_allowed_categories :: "32 word"

record creation_bucket =
  cb_bucket_start :: nat
  cb_count :: nat

record blend_request =
  bl_request_type :: nat
  bl_address :: address
  bl_amount :: int

record blend_positions =
  bp_supply_shares :: int
  bp_liabilities :: int

record yield_venue =
  yv_pool :: address
  yv_max_allocation :: int
  yv_enabled :: bool

record capital_breakdown_rec =
  ca_liquid :: int
  ca_yield_principal :: int
  ca_yield_value :: int

text \<open>The keys of per-market entries: \<open>Market(id)\<close>/\<open>Net(id)\<close> for the market-core the treasury was
  deployed against, \<open>MarketV2(core, id)\<close>/\<open>NetV2(core, id)\<close> for the others.\<close>

datatype core_key = OriginalKey nat | CoreKey address nat

section \<open>Errors\<close>

text \<open>The last twelve are used by the code, although the source's enumeration does not declare
  them.\<close>

datatype tr_error =
  TrNotInitialized | TrUnauthorized | TrInvalidConfig | TrInvalidAmount | TrTradeCapExceeded
| TrMarketCapExceeded | TrDailyCapExceeded | TrMarketNotOpen | TrInsufficientBalance | TrPaused
| TrNoSuccessor | TrNetExposureExceeded | TrAgentDailyCapExceeded | TrProposalPending
| TrTimelockActive | TrNoPendingConfig | TrLegacyCoreUnknown | TrTooManyOpenMarkets
| TrCapitalReserved | TrDepositTooSmall | TrInsufficientShares | TrTicketNotFound | TrNothingToPay
| TrPriceOutOfBand | TrPriceImpactExceeded | TrInvalidPricePolicy | TrSlippageExceeded
| TrNotPaused | TrMarketNotFinal | TrMarketCoreError | TrDrawdownTripped
| TrInvalidDrawdownConfig | TrNotAcknowledged | TrSeedCapExceeded | TrCreationRateExceeded
| TrCloseTimeTooSoon | TrCloseTimeTooFar | TrCategoryNotAllowed | TrPolicyLoosening
| TrYieldDisabled | TrYieldCapExceeded | TrYieldWithdrawFailed | TrVenueHasPrincipal
| TrCategoryCapExceeded | TrBucketCapExceeded | TrNoPendingAdmin | TrPendingAdminExpired
| TrInvalidResolution
| CoreMarketNotFound | CoreNotFinal | CoreMarketNotOpen | CoreMarketClosed
| CoreInsufficientLiquidity | CoreInsufficientShares | CoreAlreadyClaimed | CoreNothingToRedeem
| CoreInvalidAmount | CoreOverflow | CoreSlippageExceeded | CoreCallFailed

type_synonym 'a tr_res = "(tr_error, 'a) res"

fun map_market_core_error :: "mc_error \<Rightarrow> tr_error" where
  "map_market_core_error McMarketNotFound = CoreMarketNotFound"
| "map_market_core_error McNotFinal = CoreNotFinal"
| "map_market_core_error McMarketNotOpen = CoreMarketNotOpen"
| "map_market_core_error McMarketClosed = CoreMarketClosed"
| "map_market_core_error McInsufficientLiquidity = CoreInsufficientLiquidity"
| "map_market_core_error McInsufficientShares = CoreInsufficientShares"
| "map_market_core_error McAlreadyClaimed = CoreAlreadyClaimed"
| "map_market_core_error McNothingToRedeem = CoreNothingToRedeem"
| "map_market_core_error McInvalidAmount = CoreInvalidAmount"
| "map_market_core_error McOverflow = CoreOverflow"
| "map_market_core_error McSlippageExceeded = CoreSlippageExceeded"
| "map_market_core_error _ = CoreCallFailed"

text \<open>A \<open>try_\<close> call: the callee's error and an aborted call both become errors of the treasury.\<close>

fun core_call :: "(mc_error, 'a) res \<Rightarrow> 'a tr_res" where
  "core_call (Inr x) = Inr x"
| "core_call (Inl (Err e)) = Inl (Err (map_market_core_error e))"
| "core_call (Inl Trap) = Inl (Err CoreCallFailed)"

lemma core_call_eq [res_simps]: "core_call r = Inr x \<longleftrightarrow> r = Inr x"
  by (cases r rule: core_call.cases) auto

section \<open>Events\<close>

datatype tr_event =
  EvTradeAuthorized nat address int int int
| EvNetExposureUpdated nat int int
| EvPositionClosed nat int
| EvFeesCollected nat int
| EvSuccessorSet "address option" address
| EvMarketMigrated nat address int int bool
| EvAgentPolicySet address "32 word" int int
| EvAgentPolicyProposed address "32 word" int int nat
| EvAgentPolicyCancelled address
| EvAgentRemoved address
| EvConfigProposed global_config global_config nat
| EvConfigExecuted global_config global_config bool
| EvConfigCancelled global_config
| EvConfigDelaySet nat nat
| EvPricePolicyProposed price_policy price_policy nat
| EvPricePolicySet price_policy price_policy bool
| EvPricePolicyCancelled price_policy
| EvDeposited address int int int
| EvWithdrawRequested address int int int nat
| EvWithdrawPaid nat int
| EvEmergencyWithdrawn address int int
| EvMarketSettled nat int int address
| EvPnlRealized nat int int int
| EvDrawdownPause int nat nat
| EvPnlWindowReset address
| EvCreationPolicyUpdated creation_policy creation_policy
| EvYieldAllocated address int int
| EvYieldRecalled address int int symbol
| EvYieldVenueSet address int

section \<open>The contracts around the treasury\<close>

record 'w peers =
  pr_balance :: "address \<Rightarrow> address \<Rightarrow> 'w \<Rightarrow> int"
  pr_transfer :: "env \<Rightarrow> address \<Rightarrow> address \<Rightarrow> address \<Rightarrow> int \<Rightarrow> 'w \<Rightarrow> 'w option"
  pr_create_market :: "env \<Rightarrow> address \<Rightarrow> address \<Rightarrow> bytesN \<Rightarrow> bytesN \<Rightarrow> symbol \<Rightarrow> category \<Rightarrow> nat
    \<Rightarrow> int \<Rightarrow> nat \<Rightarrow> 'w \<Rightarrow> (mc_error, nat \<times> 'w) res"
  pr_trade :: "env \<Rightarrow> address \<Rightarrow> symbol \<Rightarrow> address \<Rightarrow> nat \<Rightarrow> outcome \<Rightarrow> int \<Rightarrow> int
    \<Rightarrow> (nat \<times> nat) option \<Rightarrow> 'w \<Rightarrow> (mc_error, int \<times> 'w) res"
  pr_get_price :: "address \<Rightarrow> nat \<Rightarrow> outcome \<Rightarrow> 'w \<Rightarrow> (mc_error, nat) res"
  pr_quote_buy :: "address \<Rightarrow> nat \<Rightarrow> outcome \<Rightarrow> int \<Rightarrow> 'w \<Rightarrow> (mc_error, int) res"
  pr_quote_sell :: "address \<Rightarrow> nat \<Rightarrow> outcome \<Rightarrow> int \<Rightarrow> 'w \<Rightarrow> (mc_error, int) res"
  pr_get_market :: "address \<Rightarrow> nat \<Rightarrow> 'w \<Rightarrow> (mc_error, market) res"
  pr_get_position :: "address \<Rightarrow> nat \<Rightarrow> address \<Rightarrow> 'w \<Rightarrow> (mc_error, position) res"
  pr_redeem :: "env \<Rightarrow> address \<Rightarrow> address \<Rightarrow> nat \<Rightarrow> 'w \<Rightarrow> (mc_error, int \<times> 'w) res"
  pr_claim_pool_remainder :: "env \<Rightarrow> address \<Rightarrow> nat \<Rightarrow> 'w \<Rightarrow> (mc_error, int \<times> 'w) res"
  pr_redeem_many :: "env \<Rightarrow> address \<Rightarrow> address \<Rightarrow> nat list \<Rightarrow> 'w \<Rightarrow> (mc_error, batch_result \<times> 'w) res"
  pr_claim_pool_remainders ::
    "env \<Rightarrow> address \<Rightarrow> address \<Rightarrow> nat list \<Rightarrow> 'w \<Rightarrow> (mc_error, batch_result \<times> 'w) res"
  pr_claim_lp_fees :: "env \<Rightarrow> address \<Rightarrow> nat \<Rightarrow> 'w \<Rightarrow> (mc_error, int \<times> 'w) res"
  pr_sweep_fees :: "env \<Rightarrow> address \<Rightarrow> nat \<Rightarrow> 'w \<Rightarrow> (mc_error, int \<times> 'w) res"
  pr_transfer_position :: "env \<Rightarrow> address \<Rightarrow> address \<Rightarrow> address \<Rightarrow> nat \<Rightarrow> outcome \<Rightarrow> int \<Rightarrow> 'w
    \<Rightarrow> (mc_error, 'w) res"
  pr_transfer_lp :: "env \<Rightarrow> address \<Rightarrow> nat \<Rightarrow> address \<Rightarrow> 'w \<Rightarrow> (mc_error, 'w) res"
  pr_submit :: "env \<Rightarrow> address \<Rightarrow> address \<Rightarrow> address \<Rightarrow> address \<Rightarrow> blend_request list \<Rightarrow> 'w \<Rightarrow> 'w option"
  pr_positions :: "address \<Rightarrow> address \<Rightarrow> 'w \<Rightarrow> blend_positions option"
  pr_register_spec :: "env \<Rightarrow> address \<Rightarrow> nat \<Rightarrow> resolution_spec_v2 \<Rightarrow> 'w \<Rightarrow> 'w option"
  pr_network_id :: bytesN
  pr_to_xdr :: "resolution_spec_v2 \<Rightarrow> nat list"
  pr_sha256 :: "nat list \<Rightarrow> bytesN"

end
