(* ===== verification/Correlation.thy ===== *)
theory Correlation
  imports TreasuryTypes
begin

text \<open>
  The caps on correlated risk of \<^verbatim>\<open>contracts/treasury/src/correlation.rs\<close>: exposure per market
  category and per close-date bucket.
\<close>

definition CATEGORY_COUNT :: nat where "CATEGORY_COUNT = 6"
definition MIN_BUCKET_SECS :: nat where "MIN_BUCKET_SECS = 86400"
definition CATEGORY_CAP_DAILY_MULTIPLE :: int where "CATEGORY_CAP_DAILY_MULTIPLE = 30"

fun category_index :: "category \<Rightarrow> nat" where
  "category_index Crypto = 0"
| "category_index Macro = 1"
| "category_index Geopolitics = 2"
| "category_index Sports = 3"
| "category_index Culture = 4"
| "category_index Other = 5"

definition close_bucket :: "nat \<Rightarrow> nat \<Rightarrow> nat tr_res" where
  "close_bucket close_time bucket_secs =
     (if bucket_secs < MIN_BUCKET_SECS then Inl (Err TrInvalidConfig)
      else Inr (close_time div bucket_secs))"

definition validate_correlation_caps :: "int list \<Rightarrow> int \<Rightarrow> nat \<Rightarrow> int \<Rightarrow> int \<Rightarrow> unit tr_res" where
  "validate_correlation_caps max_per_category max_per_bucket bucket_secs max_market max_daily =
     (if length max_per_category \<noteq> CATEGORY_COUNT then Inl (Err TrInvalidConfig)
      else andThen (ok_or TrInvalidConfig (checked_mul max_daily CATEGORY_CAP_DAILY_MULTIPLE)) (\<lambda>top.
        if list_ex (\<lambda>cap. cap < max_market \<or> top < cap) max_per_category
        then Inl (Err TrInvalidConfig)
        else if max_per_bucket < max_market \<or> bucket_secs < MIN_BUCKET_SECS
        then Inl (Err TrInvalidConfig)
        else Inr ()))"

definition check_correlated :: "int list \<Rightarrow> int \<Rightarrow> nat \<Rightarrow> int \<Rightarrow> int \<Rightarrow> int \<Rightarrow> (int \<times> int) tr_res" where
  "check_correlated max_per_category max_per_bucket category_idx category_exposure bucket_exposure
       amount =
     andThen (if category_idx < length max_per_category
              then Inr (max_per_category ! category_idx) else Inl (Err TrInvalidConfig)) (\<lambda>cap.
     andThen (ok_or TrInvalidAmount (checked_add category_exposure amount)) (\<lambda>new_category.
     if cap < new_category then Inl (Err TrCategoryCapExceeded)
     else
     andThen (ok_or TrInvalidAmount (checked_add bucket_exposure amount)) (\<lambda>new_bucket.
     if max_per_bucket < new_bucket then Inl (Err TrBucketCapExceeded)
     else Inr (new_category, new_bucket))))"

section \<open>Facts\<close>

lemma category_index_less: "category_index c < CATEGORY_COUNT"
  by (cases c) (simp_all add: CATEGORY_COUNT_def)

lemma category_index_inj: "category_index c = category_index d \<longleftrightarrow> c = d"
  by (cases c; cases d) simp_all

text \<open>Caps that pass the validation give every category a cap, and a market within its own cap
  never exceeds an empty category's or an empty bucket's.\<close>

lemma single_market_fits:
  assumes "validate_correlation_caps caps bucket_cap bucket_secs max_market max_daily = Inr ()"
    and "0 \<le> amount" and "amount \<le> max_market" and "in_i128 max_market"
  shows "check_correlated caps bucket_cap (category_index c) 0 0 amount = Inr (amount, amount)"
proof -
  have len: "category_index c < length caps" and
    caps: "\<And>x. x \<in> set caps \<Longrightarrow> max_market \<le> x" "max_market \<le> bucket_cap"
    using assms(1) category_index_less [of c]
    by (auto simp: validate_correlation_caps_def res_simps list_ex_iff split: if_splits)
  have "in_i128 amount" using assms by (auto intro: in_i128_below)
  moreover have "max_market \<le> caps ! category_index c" using caps(1) len by simp
  ultimately show ?thesis using caps(2) len assms
    by (simp add: check_correlated_def checked_add_def checked_i128_Some)
qed

text \<open>An accepted reservation keeps both totals within their caps.\<close>

lemma check_correlated_bounds:
  assumes "check_correlated caps bucket_cap i cat buck amount = Inr (cat', buck')"
  shows "cat' = cat + amount \<and> buck' = buck + amount \<and> cat' \<le> caps ! i \<and> buck' \<le> bucket_cap"
  using assms by (auto simp: check_correlated_def res_simps int_ops split: if_splits)

end
