(* ===== verification/RingWindow.thy ===== *)
theory RingWindow
  imports Prelude
begin

text \<open>
  A ring of per-period amounts, as the treasury keeps its hourly usage and its daily profit and
  loss (\<^verbatim>\<open>contracts/treasury/src/lib.rs\<close>): a vector, the index of the newest period in it
  and that period's number. \<open>ring_clear\<close> is the loop of both \<open>advance\<close> functions: it moves the
  head step by step and zeroes the slot it arrives at.

  The abstract view of a ring is the function from periods (hours, days) to amounts,
  \<open>ring_at\<close>: zero outside the window of the last \<open>n\<close> periods. Advancing forgets the periods that
  leave the window and nothing else, and the sum of the vector is the sum over the window.
\<close>

section \<open>Vectors\<close>

text \<open>\<open>Vec::set\<close> of the host panics outside the vector.\<close>

definition vec_set :: "nat \<Rightarrow> 'a \<Rightarrow> 'a list \<Rightarrow> ('e, 'a list) res" where
  "vec_set i x xs = (if i < length xs then Inr (xs[i := x]) else Inl Trap)"

lemma vec_set_eq [int_ops]: "vec_set i x xs = Inr ys \<longleftrightarrow> i < length xs \<and> ys = xs[i := x]"
  by (auto simp: vec_set_def)

section \<open>The loop\<close>

fun ring_clear :: "nat \<Rightarrow> nat \<Rightarrow> int list \<Rightarrow> nat \<Rightarrow> ('e, int list \<times> nat) res" where
  "ring_clear n 0 xs idx = Inr (xs, idx)"
| "ring_clear n (Suc k) xs idx =
     andThen (vec_set ((idx + 1) mod n) 0 xs) (\<lambda>xs'. ring_clear n k xs' ((idx + 1) mod n))"

section \<open>The abstract view\<close>

definition ring_ok :: "nat \<Rightarrow> int list \<Rightarrow> nat \<Rightarrow> bool" where
  "ring_ok n xs idx \<longleftrightarrow> 0 < n \<and> length xs = n \<and> idx < n"

text \<open>The slot of the period \<open>d\<close> before the head.\<close>

definition ring_slot :: "nat \<Rightarrow> nat \<Rightarrow> nat \<Rightarrow> nat" where
  "ring_slot n idx d = (idx + n - d) mod n"

definition ring_at :: "nat \<Rightarrow> int list \<Rightarrow> nat \<Rightarrow> int \<Rightarrow> int \<Rightarrow> int" where
  "ring_at n xs idx head h =
     (if h \<le> head \<and> head < h + int n then xs ! ring_slot n idx (nat (head - h)) else 0)"

lemma ring_slot_less: "0 < n \<Longrightarrow> ring_slot n idx d < n"
  by (simp add: ring_slot_def)

lemma ring_slot_0: "idx < n \<Longrightarrow> ring_slot n idx 0 = idx"
  by (simp add: ring_slot_def)

lemma ring_slot_cases:
  assumes "idx < n" and "d < n"
  shows "ring_slot n idx d = (if d \<le> idx then idx - d else idx + n - d)"
proof (cases "d \<le> idx")
  case True
  then have "idx + n - d = (idx - d) + n" by simp
  then have "ring_slot n idx d = (idx - d + n) mod n" by (simp only: ring_slot_def)
  also have "\<dots> = (idx - d) mod n" by (rule mod_add_self2)
  also have "\<dots> = idx - d" using assms by simp
  finally show ?thesis using True by simp
next
  case False
  with assms show ?thesis by (simp add: ring_slot_def)
qed

lemma ring_slot_inj:
  assumes "idx < n" and "d < n" and "d' < n" and "ring_slot n idx d = ring_slot n idx d'"
  shows "d = d'"
  using assms by (auto simp: ring_slot_cases split: if_splits)

lemma ring_slot_step:
  assumes "idx < n" and "Suc d < n"
  shows "ring_slot n ((idx + 1) mod n) (Suc d) = ring_slot n idx d"
proof (cases "idx + 1 = n")
  case True
  then show ?thesis using assms by (auto simp: ring_slot_cases)
next
  case False
  then have "(idx + 1) mod n = idx + 1" using assms by simp
  then show ?thesis using assms False by (simp add: ring_slot_cases)
qed

lemma ring_at_head: "ring_ok n xs idx \<Longrightarrow> ring_at n xs idx head head = xs ! idx"
  by (simp add: ring_at_def ring_ok_def ring_slot_0)

lemma ring_at_future: "head < h \<Longrightarrow> ring_at n xs idx head h = 0"
  by (simp add: ring_at_def)

lemma ring_at_set_head:
  assumes "ring_ok n xs idx"
  shows "ring_at n (xs[idx := x]) idx head = (ring_at n xs idx head)(head := x)"
proof
  fix h
  show "ring_at n (xs[idx := x]) idx head h = ((ring_at n xs idx head)(head := x)) h"
  proof (cases "h < head \<and> head < h + int n")
    case True
    have "nat (head - h) < n" using True by (simp add: nat_less_iff)
    then have "ring_slot n idx (nat (head - h)) \<noteq> ring_slot n idx 0"
      using ring_slot_inj [of idx n "nat (head - h)" 0] assms True by (auto simp: ring_ok_def)
    then show ?thesis
      using True assms by (simp add: ring_at_def ring_slot_0 ring_ok_def)
  next
    case False
    then show ?thesis
      using assms by (auto simp: ring_at_def ring_ok_def ring_slot_0)
  qed
qed

text \<open>One step of the loop: the period before stays readable, the oldest one is forgotten.\<close>

lemma ring_at_step:
  assumes "ring_ok n xs idx"
  defines "j \<equiv> (idx + 1) mod n"
  shows "ring_ok n (xs[j := 0]) j"
    and "ring_at n (xs[j := 0]) j (head + 1) h =
           (if head + 1 < h + int n then ring_at n xs idx head h else 0)"
proof -
  show ok: "ring_ok n (xs[j := 0]) j" using assms by (simp add: ring_ok_def)
  show "ring_at n (xs[j := 0]) j (head + 1) h =
           (if head + 1 < h + int n then ring_at n xs idx head h else 0)"
  proof (cases "h \<le> head \<and> head + 1 < h + int n")
    case True
    define d where "d = nat (head - h)"
    have d: "nat (head + 1 - h) = Suc d" "Suc d < n" using True by (auto simp: d_def)
    have slot: "ring_slot n j (Suc d) = ring_slot n idx d"
      using ring_slot_step [of idx n d] d assms by (simp add: ring_ok_def j_def)
    have "ring_slot n j (Suc d) \<noteq> ring_slot n j 0"
      using ring_slot_inj [of j n "Suc d" 0] d ok by (auto simp: ring_ok_def)
    then have "ring_slot n idx d \<noteq> j" using slot ok by (simp add: ring_slot_0 ring_ok_def)
    then show ?thesis using True d slot by (simp add: ring_at_def d_def)
  next
    case False
    then show ?thesis
      using ok by (auto simp: ring_at_def ring_slot_0 ring_ok_def)
  qed
qed

lemma ring_clear_ok:
  assumes "ring_ok n xs idx"
  shows "\<exists>ys j. (ring_clear n k xs idx :: ('e, int list \<times> nat) res) = Inr (ys, j) \<and> ring_ok n ys j
           \<and> (\<forall>h. ring_at n ys j (head + int k) h =
                (if head + int k < h + int n then ring_at n xs idx head h else 0))"
  using assms
proof (induction k arbitrary: xs idx head)
  case 0
  then show ?case by (auto simp: ring_at_def)
next
  case (Suc k)
  define j where "j = (idx + 1) mod n"
  have s: "(vec_set j 0 xs :: ('e, int list) res) = Inr (xs[j := 0])"
    using Suc.prems by (simp add: vec_set_def ring_ok_def j_def)
  note step = ring_at_step [OF Suc.prems, folded j_def]
  obtain ys i where r: "(ring_clear n k (xs[j := 0]) j :: ('e, int list \<times> nat) res) = Inr (ys, i)" "ring_ok n ys i"
      "\<forall>h. ring_at n ys i (head + 1 + int k) h =
         (if head + 1 + int k < h + int n then ring_at n (xs[j := 0]) j (head + 1) h else 0)"
    using Suc.IH [OF step(1), of "head + 1"] by blast
  have "(ring_clear n (Suc k) xs idx :: ('e, int list \<times> nat) res) = Inr (ys, i)" using s r(1) by (simp add: j_def)
  moreover have "ring_at n ys i (head + int (Suc k)) h =
      (if head + int (Suc k) < h + int n then ring_at n xs idx head h else 0)" for h
    using r(3) [THEN spec, of h] step(2) [of head h] by (simp add: add.commute add.left_commute)
  ultimately show ?case using r(2) by blast
qed

text \<open>Advancing by any distance: the loop runs at most \<open>n\<close> times, whatever the distance.\<close>

lemma ring_advance:
  assumes "ring_ok n xs idx"
  shows "\<exists>ys j. (ring_clear n (min d n) xs idx :: ('e, int list \<times> nat) res) = Inr (ys, j) \<and> ring_ok n ys j
           \<and> (\<forall>h. ring_at n ys j (head + int d) h =
                (if head + int d < h + int n then ring_at n xs idx head h else 0))"
proof (cases "d \<le> n")
  case True
  then show ?thesis using ring_clear_ok [OF assms, of d head] by simp
next
  case False
  obtain ys j where r: "(ring_clear n n xs idx :: ('e, int list \<times> nat) res) = Inr (ys, j)" "ring_ok n ys j"
      "\<And>h. ring_at n ys j (head + int n) h =
         (if head + int n < h + int n then ring_at n xs idx head h else 0)"
    using ring_clear_ok [OF assms, of n head] by blast
  have zero: "ys ! i = 0" if "i < n" for i
  proof -
    define e where "e = (j + n - i) mod n"
    have e: "e < n" using r(2) by (simp add: e_def ring_ok_def)
    have "ring_slot n j e = i"
      using ring_slot_cases [of j n i] ring_slot_cases [of j n e] that r(2) e
      by (simp add: e_def ring_ok_def flip: ring_slot_def split: if_splits)
    moreover have "ring_at n ys j (head + int n) (head + int n - int e) = 0"
      using r(3) [of "head + int n - int e"] e
      by (cases "e = 0") (auto simp: ring_at_def)
    ultimately show ?thesis using e by (simp add: ring_at_def)
  qed
  have "ring_at n ys j (head + int d) h = 0" for h
    using zero ring_slot_less [of n j] r(2) by (auto simp: ring_at_def ring_ok_def)
  moreover have "ring_at n xs idx head h = 0" if "head + int d < h + int n" for h
    using that False by (auto simp: ring_at_def)
  ultimately have "ring_at n ys j (head + int d) h =
      (if head + int d < h + int n then ring_at n xs idx head h else 0)" for h
    by simp
  moreover have "min d n = n" using False by simp
  ultimately show ?thesis using r(1,2) by auto
qed

section \<open>The sum over the window\<close>

lemma ring_sum:
  assumes "ring_ok n xs idx"
  shows "sum_list xs = (\<Sum>h\<in>{head - int n<..head}. ring_at n xs idx head h)"
proof -
  have inj: "inj_on (ring_slot n idx) {..<n}"
    using assms ring_slot_inj by (auto simp: inj_on_def ring_ok_def)
  have img: "ring_slot n idx ` {..<n} = {..<n}"
    by (rule endo_inj_surj) (use inj assms in \<open>auto simp: ring_ok_def ring_slot_less\<close>)
  have "sum_list xs = (\<Sum>i<n. xs ! i)"
    using assms by (simp add: ring_ok_def sum_list_sum_nth atLeast0LessThan)
  also have "\<dots> = (\<Sum>d<n. xs ! ring_slot n idx d)"
    using sum.reindex [OF inj, of "(!) xs"] img by simp
  also have "\<dots> = (\<Sum>d<n. ring_at n xs idx head (head - int d))"
    by (rule sum.cong) (auto simp: ring_at_def)
  also have "\<dots> = (\<Sum>h\<in>{head - int n<..head}. ring_at n xs idx head h)"
    by (rule sum.reindex_bij_witness [of _ "\<lambda>h. nat (head - h)" "\<lambda>d. head - int d"]) auto
  finally show ?thesis .
qed

end
