(* ===== verification/UsageWindow.thy ===== *)
theory UsageWindow
  imports TreasuryTypes RingWindow
begin

text \<open>
  The sliding daily window of the treasury (\<^verbatim>\<open>contracts/treasury/src/lib.rs\<close>, "daily windows"):
  a ring of 25 hourly buckets that every spend of an agent is charged to, both in the treasury's
  window and in the agent's own.

  \<open>window_at\<close> is the abstract view: the amount charged to an hour. \<open>charges\<close> is a sequence of
  accepted charges; \<open>charges_bounded\<close> shows that those of any 24 hours stay within the cap, although
  the window only knows hours.
\<close>

section \<open>Operations\<close>

definition empty_window :: "nat \<Rightarrow> usage_window" where
  "empty_window head_hour =
     \<lparr>uw_head_hour = head_hour, uw_amounts = replicate BUCKETS 0, uw_head_idx = 0\<rparr>"

definition advance :: "usage_window \<Rightarrow> nat \<Rightarrow> usage_window tr_res" where
  "advance w now_hour =
     (if now_hour \<le> uw_head_hour w then Inr w
      else andThen (ring_clear BUCKETS (min (now_hour - uw_head_hour w) BUCKETS)
                      (uw_amounts w) (uw_head_idx w)) (\<lambda>(amounts, idx).
             Inr \<lparr>uw_head_hour = now_hour, uw_amounts = amounts, uw_head_idx = idx\<rparr>))"

fun sum_checked :: "tr_error \<Rightarrow> int list \<Rightarrow> int \<Rightarrow> int tr_res" where
  "sum_checked e [] acc = Inr acc"
| "sum_checked e (x # xs) acc = andThen (ok_or e (checked_add acc x)) (sum_checked e xs)"

definition window_sum :: "usage_window \<Rightarrow> int tr_res" where
  "window_sum w = sum_checked TrDailyCapExceeded (uw_amounts w) 0"

definition summarize :: "usage_window \<Rightarrow> daily_usage_rec tr_res" where
  "summarize w =
     andThen (window_sum w) (\<lambda>amount.
       Inr \<lparr>du_day_start = min u64_max ((uw_head_hour w - (BUCKETS - 1)) * BUCKET_SECONDS),
            du_amount = amount\<rparr>)"

definition consume_window ::
    "usage_window \<Rightarrow> nat \<Rightarrow> int \<Rightarrow> int \<Rightarrow> (int \<times> usage_window) tr_res" where
  "consume_window w now amount max_daily =
     andThen (advance w (now div BUCKET_SECONDS)) (\<lambda>w1.
     andThen (window_sum w1) (\<lambda>used.
     andThen (ok_or TrDailyCapExceeded (checked_add used amount)) (\<lambda>total.
     if max_daily < total then Inl (Err TrDailyCapExceeded)
     else
     andThen (if uw_head_idx w1 < length (uw_amounts w1)
              then Inr (uw_amounts w1 ! uw_head_idx w1) else Inl (Err TrNotInitialized)) (\<lambda>head.
     andThen (ok_or TrDailyCapExceeded (checked_add head amount)) (\<lambda>head'.
     andThen (vec_set (uw_head_idx w1) head' (uw_amounts w1)) (\<lambda>amounts.
       Inr (total, w1\<lparr>uw_amounts := amounts\<rparr>)))))))"

section \<open>The abstract view\<close>

definition window_ok :: "usage_window \<Rightarrow> bool" where
  "window_ok w \<longleftrightarrow> ring_ok BUCKETS (uw_amounts w) (uw_head_idx w)"

definition window_at :: "usage_window \<Rightarrow> int \<Rightarrow> int" where
  "window_at w = ring_at BUCKETS (uw_amounts w) (uw_head_idx w) (int (uw_head_hour w))"

definition window_hours :: "usage_window \<Rightarrow> int set" where
  "window_hours w = {int (uw_head_hour w) - int BUCKETS<..int (uw_head_hour w)}"

lemma window_ok_empty: "window_ok (empty_window h)"
  by (simp add: window_ok_def empty_window_def ring_ok_def BUCKETS_def)

lemma window_at_empty: "window_at (empty_window h) x = 0"
  by (auto simp: window_at_def ring_at_def empty_window_def ring_slot_less BUCKETS_def)

lemma advance_ok:
  assumes "window_ok w"
  shows "\<exists>w'. advance w h = Inr w' \<and> window_ok w' \<and> uw_head_hour w' = max (uw_head_hour w) h
    \<and> (\<forall>x. window_at w' x = (if x \<in> window_hours w' then window_at w x else 0))"
proof (cases "h \<le> uw_head_hour w")
  case True
  then show ?thesis using assms
    by (auto simp: advance_def window_at_def window_hours_def ring_at_def)
next
  case False
  define d where "d = h - uw_head_hour w"
  obtain ys j where r: "(ring_clear BUCKETS (min d BUCKETS) (uw_amounts w) (uw_head_idx w)
        :: (tr_error, int list \<times> nat) res) = Inr (ys, j)" "ring_ok BUCKETS ys j"
      "\<forall>x. ring_at BUCKETS ys j (int (uw_head_hour w) + int d) x =
        (if int (uw_head_hour w) + int d < x + int BUCKETS
         then ring_at BUCKETS (uw_amounts w) (uw_head_idx w) (int (uw_head_hour w)) x else 0)"
    using ring_advance [of BUCKETS "uw_amounts w" "uw_head_idx w" d "int (uw_head_hour w)"] assms
    unfolding window_ok_def by blast
  have h: "int (uw_head_hour w) + int d = int h" using False by (simp add: d_def)
  let ?w = "\<lparr>uw_head_hour = h, uw_amounts = ys, uw_head_idx = j\<rparr>"
  have "advance w h = Inr ?w" using r(1) False by (simp add: advance_def d_def)
  moreover have "window_at ?w x = (if x \<in> window_hours ?w then window_at w x else 0)" for x
    using r(3) h by (auto simp: window_at_def window_hours_def ring_at_future)
  moreover have "window_ok ?w" using r(2) by (simp add: window_ok_def)
  ultimately show ?thesis using False by (auto simp: max_def)
qed

lemma sum_checked_eq: "sum_checked e xs acc = Inr r \<Longrightarrow> r = acc + sum_list xs"
proof (induction xs arbitrary: acc)
  case (Cons x xs)
  then have "r = (acc + x) + sum_list xs"
    by (intro Cons.IH) (simp add: res_simps int_ops)
  then show ?case by simp
qed simp

lemma window_sum_eq:
  assumes "window_ok w" and "window_sum w = Inr r"
  shows "r = (\<Sum>h\<in>window_hours w. window_at w h)"
  using sum_checked_eq [OF assms(2) [unfolded window_sum_def]]
    ring_sum [OF assms(1) [unfolded window_ok_def], of "int (uw_head_hour w)"]
  by (simp add: window_at_def window_hours_def)

text \<open>What an accepted charge does, in the abstract view.\<close>

lemma consume_window_ok:
  assumes "window_ok w" and "consume_window w now amount max_daily = Inr (tot, w')"
  shows "window_ok w'"
    and "uw_head_hour w' = max (uw_head_hour w) (now div BUCKET_SECONDS)"
    and "window_at w' h = (if h \<in> window_hours w' then window_at w h else 0)
           + (if h = int (uw_head_hour w') then amount else 0)"
    and "tot = (\<Sum>h\<in>window_hours w'. window_at w' h)" and "tot \<le> max_daily"
proof -
  obtain w1 where w1: "advance w (now div BUCKET_SECONDS) = Inr w1" "window_ok w1"
      "uw_head_hour w1 = max (uw_head_hour w) (now div BUCKET_SECONDS)"
      "\<And>x. window_at w1 x = (if x \<in> window_hours w1 then window_at w x else 0)"
    using advance_ok [OF assms(1)] by metis
  let ?idx = "uw_head_idx w1" and ?xs = "uw_amounts w1" and ?head = "int (uw_head_hour w1)"
  obtain used where u: "window_sum w1 = Inr used" "tot = used + amount" "tot \<le> max_daily"
      "w' = w1\<lparr>uw_amounts := ?xs[?idx := ?xs ! ?idx + amount]\<rparr>"
    using assms(2) w1(1) by (auto simp: consume_window_def res_simps int_ops split: if_splits)
  have ring: "ring_ok BUCKETS ?xs ?idx" using w1(2) by (simp add: window_ok_def)
  then show "window_ok w'" using u(4) by (simp add: window_ok_def ring_ok_def)
  show "uw_head_hour w' = max (uw_head_hour w) (now div BUCKET_SECONDS)" using u(4) w1(3) by simp
  have hours: "window_hours w' = window_hours w1" using u(4) by (simp add: window_hours_def)
  have head: "?head \<in> window_hours w1" by (simp add: window_hours_def BUCKETS_def)
  have at: "window_at w' = (window_at w1)(?head := window_at w1 ?head + amount)"
    using u(4) ring_at_set_head [OF ring] ring_at_head [OF ring] by (simp add: window_at_def)
  show "window_at w' h = (if h \<in> window_hours w' then window_at w h else 0)
           + (if h = int (uw_head_hour w') then amount else 0)"
    using at hours w1(4) u(4) by auto
  have "(\<Sum>h\<in>window_hours w1. window_at w' h)
      = (\<Sum>h\<in>window_hours w1. window_at w1 h + (if h = ?head then amount else 0))"
    using at by (intro sum.cong) auto
  also have "\<dots> = used + amount"
    using window_sum_eq [OF w1(2) u(1)] head
    by (simp add: sum.distrib sum.delta window_hours_def)
  finally show "tot = (\<Sum>h\<in>window_hours w'. window_at w' h)" using u(2) hours by simp
  show "tot \<le> max_daily" by (rule u(3))
qed

section \<open>Sequences of charges\<close>

text \<open>\<open>charges w cs w'\<close>: the charges \<open>cs\<close>, each a time, an amount and the cap it was accepted under,
  took the window from \<open>w\<close> to \<open>w'\<close>.\<close>

fun charge_all :: "(nat \<times> int \<times> int) list \<Rightarrow> usage_window \<Rightarrow> usage_window tr_res" where
  "charge_all [] w = Inr w"
| "charge_all ((now, amount, cap) # cs) w =
     andThen (consume_window w now amount cap) (\<lambda>(tot, w'). charge_all cs w')"

lemma charge_all_snoc:
  "charge_all (cs @ [(now, amount, cap)]) w = Inr w' \<longleftrightarrow>
     (\<exists>w1 tot. charge_all cs w = Inr w1 \<and> consume_window w1 now amount cap = Inr (tot, w'))"
  by (induction cs w rule: charge_all.induct) (fastforce simp: res_simps)+

text \<open>The amounts charged in the hour \<open>h\<close>, and those charged in the 24 hours up to \<open>t\<close>.\<close>

definition in_hour :: "(nat \<times> int \<times> int) list \<Rightarrow> int \<Rightarrow> int" where
  "in_hour cs h =
     sum_list (map (\<lambda>(now, amount, cap). if int (now div BUCKET_SECONDS) = h then amount else 0) cs)"

definition in_day :: "(nat \<times> int \<times> int) list \<Rightarrow> nat \<Rightarrow> int" where
  "in_day cs t =
     sum_list (map (\<lambda>(now, amount, cap). if t < now + DAY_SECONDS \<and> now \<le> t then amount else 0) cs)"

lemma in_hour_snoc:
  "in_hour (cs @ [(now, amount, cap)]) h =
     in_hour cs h + (if int (now div BUCKET_SECONDS) = h then amount else 0)"
  by (simp add: in_hour_def)

lemma in_hour_zero: "\<forall>c\<in>set cs. int (fst c div BUCKET_SECONDS) \<noteq> h \<Longrightarrow> in_hour cs h = 0"
  by (induction cs) (auto simp: in_hour_def)

lemma le_fst_last: "sorted (map fst cs) \<Longrightarrow> c \<in> set cs \<Longrightarrow> fst c \<le> fst (last cs)"
  by (induction cs rule: rev_induct) (auto simp: sorted_append)

text \<open>The window holds at least what was charged to each of its hours.\<close>

lemma window_covers_charges:
  assumes "charge_all cs w = Inr w'" and "window_ok w" and "\<forall>h. 0 \<le> window_at w h"
    and "sorted (map fst cs)" and "\<forall>c\<in>set cs. uw_head_hour w \<le> fst c div BUCKET_SECONDS"
    and "\<forall>(now, amount, cap)\<in>set cs. 0 \<le> amount"
  shows "window_ok w' \<and> (\<forall>h. 0 \<le> window_at w' h)
    \<and> (cs \<noteq> [] \<longrightarrow> uw_head_hour w' = fst (last cs) div BUCKET_SECONDS)
    \<and> (cs = [] \<longrightarrow> w' = w)
    \<and> (\<forall>h\<in>window_hours w'. in_hour cs h \<le> window_at w' h)"
  using assms(1,4,5,6)
proof (induction cs arbitrary: w' rule: rev_induct)
  case Nil
  then show ?case using assms by (simp add: in_hour_def)
next
  case (snoc c cs)
  obtain now amount cap where c: "c = (now, amount, cap)" by (cases c)
  obtain w1 tot where w1: "charge_all cs w = Inr w1" "consume_window w1 now amount cap = Inr (tot, w')"
    using snoc.prems(1) c charge_all_snoc by blast
  have IH: "window_ok w1 \<and> (\<forall>h. 0 \<le> window_at w1 h)
    \<and> (cs \<noteq> [] \<longrightarrow> uw_head_hour w1 = fst (last cs) div BUCKET_SECONDS) \<and> (cs = [] \<longrightarrow> w1 = w)
    \<and> (\<forall>h\<in>window_hours w1. in_hour cs h \<le> window_at w1 h)"
    using snoc.prems by (intro snoc.IH [OF w1(1)]) (auto simp: sorted_append)
  note step = consume_window_ok [OF _ w1(2)]
  have le: "uw_head_hour w1 \<le> now div BUCKET_SECONDS"
  proof (cases "cs = []")
    case True
    then show ?thesis using IH snoc.prems(3) c by simp
  next
    case False
    then have "fst (last cs) \<le> now" using snoc.prems(2) c by (auto simp: sorted_append)
    then show ?thesis using IH False by (simp add: div_le_mono)
  qed
  then have head: "uw_head_hour w' = now div BUCKET_SECONDS" using step(2) IH by simp
  have amount: "0 \<le> amount" using snoc.prems(4) c by simp
  have "in_hour (cs @ [c]) h \<le> window_at w' h" if h: "h \<in> window_hours w'" for h
  proof (cases "h \<in> window_hours w1")
    case True
    then show ?thesis using IH step(3) [of h] h head c by (auto simp: in_hour_snoc)
  next
    case False
    then have "int (uw_head_hour w1) < h"
      using h le head by (auto simp: window_hours_def)
    then have "in_hour cs h = 0"
    proof -
      have "int (fst d div BUCKET_SECONDS) \<noteq> h" if d: "d \<in> set cs" for d
      proof -
        have "fst d \<le> fst (last cs)"
          using snoc.prems(2) d by (intro le_fst_last) (auto simp: sorted_append)
        then have "int (fst d div BUCKET_SECONDS) \<le> int (uw_head_hour w1)"
          using IH d by (cases "cs = []") (auto simp: div_le_mono)
        then show ?thesis using \<open>int (uw_head_hour w1) < h\<close> by simp
      qed
      then show ?thesis by (intro in_hour_zero) auto
    qed
    then show ?thesis using step(3) [of h] IH h head c by (auto simp: in_hour_snoc)
  qed
  moreover have "0 \<le> window_at w' h" for h using step(3) [of h] IH amount by auto
  ultimately show ?case using step(1) IH head c by auto
qed

text \<open>So whatever was charged in the 24 hours up to the last charge is within its cap.\<close>

lemma in_day_le_hours:
  assumes "\<forall>(now, amount, cap)\<in>set cs. 0 \<le> amount"
    and "finite H" and "\<And>u. t < u + DAY_SECONDS \<Longrightarrow> u \<le> t \<Longrightarrow> int (u div BUCKET_SECONDS) \<in> H"
  shows "in_day cs t \<le> (\<Sum>h\<in>H. in_hour cs h)"
  using assms(1)
proof (induction cs)
  case (Cons c cs)
  obtain now amount cap where c: "c = (now, amount, cap)" by (cases c)
  have "(if t < now + DAY_SECONDS \<and> now \<le> t then amount else 0)
      \<le> (\<Sum>h\<in>H. if int (now div BUCKET_SECONDS) = h then amount else 0)"
    using assms(2) assms(3) [of now] Cons.prems c by (auto simp: sum.delta)
  then show ?case using Cons c by (simp add: in_day_def in_hour_def sum.distrib)
qed (simp add: in_day_def in_hour_def)

lemma charges_bounded:
  assumes "charge_all (cs @ [(now, amount, cap)]) w = Inr w'" and "window_ok w"
    and "\<forall>h. 0 \<le> window_at w h" and "sorted (map fst (cs @ [(now, amount, cap)]))"
    and "\<forall>c\<in>set (cs @ [(now, amount, cap)]). uw_head_hour w \<le> fst c div BUCKET_SECONDS"
    and "\<forall>(now, amount, cap)\<in>set (cs @ [(now, amount, cap)]). 0 \<le> amount"
  shows "in_day (cs @ [(now, amount, cap)]) now \<le> cap"
proof -
  let ?cs = "cs @ [(now, amount, cap)]"
  note all = window_covers_charges [OF assms]
  obtain w1 tot where w1: "charge_all cs w = Inr w1" "consume_window w1 now amount cap = Inr (tot, w')"
    using assms(1) charge_all_snoc by blast
  have "window_ok w1"
    using window_covers_charges [OF w1(1) assms(2,3)] assms(4,5,6) by (auto simp: sorted_append)
  note last = consume_window_ok [OF this w1(2)]
  have head: "uw_head_hour w' = now div BUCKET_SECONDS" using all by simp
  have "in_day ?cs now \<le> (\<Sum>h\<in>window_hours w'. in_hour ?cs h)"
  proof (rule in_day_le_hours [OF assms(6)])
    fix u assume u: "now < u + DAY_SECONDS" "u \<le> now"
    have "now div BUCKET_SECONDS < u div BUCKET_SECONDS + BUCKETS"
      using u by (simp add: BUCKETS_def BUCKET_SECONDS_def DAY_SECONDS_def)
    moreover have "u div BUCKET_SECONDS \<le> now div BUCKET_SECONDS" using u by (simp add: div_le_mono)
    ultimately show "int (u div BUCKET_SECONDS) \<in> window_hours w'"
      by (simp add: window_hours_def head flip: of_nat_add)
  qed (simp add: window_hours_def)
  also have "\<dots> \<le> (\<Sum>h\<in>window_hours w'. window_at w' h)" using all by (intro sum_mono) auto
  also have "\<dots> \<le> cap" using last(4,5) by simp
  finally show ?thesis .
qed

end
