(* ===== verification/OpenIndex.thy ===== *)
theory OpenIndex
  imports TreasuryTypes
begin

text \<open>
  The open-market index of the treasury (\<^verbatim>\<open>contracts/treasury/src/lib.rs\<close>, "open-market index"):
  a dense array of the markets holding treasury capital, with a reverse map from market to slot
  for swap-and-pop removal, and its refinement of a bounded finite set.

  The locale \<open>bounded_set\<close> is what the valuation of the vault and the settlement code rely on;
  it is interpreted on the two storage operations.
\<close>

section \<open>Storage and operations\<close>

record open_index =
  oi_count :: "nat option"
  oi_at :: "nat \<Rightarrow> open_market option"
  oi_slot :: "address \<times> nat \<Rightarrow> nat option"

definition open_count :: "open_index \<Rightarrow> nat" where
  "open_count ix = (case oi_count ix of None \<Rightarrow> 0 | Some n \<Rightarrow> n)"

definition index_add :: "address \<Rightarrow> nat \<Rightarrow> open_index \<Rightarrow> open_index tr_res" where
  "index_add core i ix =
     (if oi_slot ix (core, i) \<noteq> None then Inr ix
      else let count = open_count ix in
        if MAX_OPEN_MARKETS \<le> count then Inl (Err TrTooManyOpenMarkets)
        else andThen (add_u32 count 1) (\<lambda>next.
          Inr \<lparr>oi_count = Some next,
               oi_at = (oi_at ix)(count \<mapsto> \<lparr>om_core = core, om_market_id = i\<rparr>),
               oi_slot = (oi_slot ix)((core, i) \<mapsto> count)\<rparr>))"

definition index_remove :: "address \<Rightarrow> nat \<Rightarrow> open_index \<Rightarrow> open_index tr_res" where
  "index_remove core i ix =
     (case oi_slot ix (core, i) of None \<Rightarrow> Inr ix
      | Some slot \<Rightarrow>
          andThen (sub_nat (open_count ix) 1) (\<lambda>last.
            let ix1 = (if slot \<noteq> last
                       then (case oi_at ix last of None \<Rightarrow> ix
                             | Some moved \<Rightarrow>
                                 ix\<lparr>oi_at := (oi_at ix)(slot \<mapsto> moved),
                                    oi_slot := (oi_slot ix)((om_core moved, om_market_id moved) \<mapsto> slot)\<rparr>)
                       else ix)
            in Inr \<lparr>oi_count = Some last,
                    oi_at = (oi_at ix1)(last := None),
                    oi_slot = (oi_slot ix1)((core, i) := None)\<rparr>))"

section \<open>What the index promises\<close>

locale bounded_set =
  fixes add :: "'a \<Rightarrow> 's \<Rightarrow> ('e, 's) res"
    and remove :: "'a \<Rightarrow> 's \<Rightarrow> ('e, 's) res"
    and members :: "'s \<Rightarrow> 'a set"
    and enum :: "'s \<Rightarrow> 'a list"
    and invar :: "'s \<Rightarrow> bool"
    and capacity :: nat
  assumes enum: "invar s \<Longrightarrow> distinct (enum s) \<and> set (enum s) = members s"
    and add: "invar s \<Longrightarrow> (\<exists>s'. add x s = Inr s') \<longleftrightarrow> x \<in> members s \<or> card (members s) < capacity"
    and add_ok: "invar s \<Longrightarrow> add x s = Inr s' \<Longrightarrow> invar s' \<and> members s' = insert x (members s)"
    and remove: "invar s \<Longrightarrow> \<exists>s'. remove x s = Inr s' \<and> invar s' \<and> members s' = members s - {x}"
begin

lemma length_enum: "invar s \<Longrightarrow> length (enum s) = card (members s)"
  using enum distinct_card by metis

lemma finite_members: "invar s \<Longrightarrow> finite (members s)"
  using enum List.finite_set by metis

text \<open>A full set accepts a new member again once any member is removed.\<close>

lemma remove_makes_room:
  assumes "invar s" and "card (members s) \<le> capacity" and "y \<in> members s"
    and "remove y s = Inr s'"
  shows "\<exists>t. add x s' = Inr t \<and> members t = insert x (members s - {y})"
proof -
  have s': "invar s'" "members s' = members s - {y}" using remove [OF assms(1), of y] assms(4) by auto
  have "card (members s - {y}) < card (members s)"
    by (rule card_Diff1_less) (use finite_members assms in auto)
  then have "card (members s') < capacity" using assms(2) s'(2) by simp
  then obtain t where "add x s' = Inr t" using add [OF s'(1)] by blast
  then show ?thesis using add_ok [OF s'(1)] s'(2) by blast
qed

lemma card_bounded:
  assumes "invar s" and "card (members s) \<le> capacity" and "add x s = Inr s'"
  shows "card (members s') \<le> capacity"
  using assms add [OF assms(1), of x] add_ok [OF assms(1,3)] finite_members [OF assms(1)]
  by (auto simp: card_insert_if)

end

section \<open>The invariant and the abstraction\<close>

definition market_of :: "open_market \<Rightarrow> address \<times> nat" where
  "market_of m = (om_core m, om_market_id m)"

definition index_ok :: "open_index \<Rightarrow> bool" where
  "index_ok ix \<longleftrightarrow> open_count ix \<le> MAX_OPEN_MARKETS
     \<and> (\<forall>k. oi_at ix k \<noteq> None \<longleftrightarrow> k < open_count ix)
     \<and> (\<forall>x k. oi_slot ix x = Some k \<longleftrightarrow> (\<exists>m. oi_at ix k = Some m \<and> market_of m = x))"

definition index_set :: "open_index \<Rightarrow> (address \<times> nat) set" where
  "index_set ix = dom (oi_slot ix)"

definition index_list :: "open_index \<Rightarrow> (address \<times> nat) list" where
  "index_list ix = map (\<lambda>k. market_of (the (oi_at ix k))) [0..<open_count ix]"

definition empty_index :: open_index where
  "empty_index = \<lparr>oi_count = None, oi_at = Map.empty, oi_slot = Map.empty\<rparr>"

lemma market_of_eq: "market_of m = (c, i) \<longleftrightarrow> m = \<lparr>om_core = c, om_market_id = i\<rparr>"
  by (cases m) (auto simp: market_of_def)

lemma index_ok_empty: "index_ok empty_index"
  by (simp add: index_ok_def empty_index_def open_count_def)

lemma index_set_empty: "index_set empty_index = {}"
  by (simp add: index_set_def empty_index_def)

lemma index_at: "index_ok ix \<Longrightarrow> oi_at ix k \<noteq> None \<longleftrightarrow> k < open_count ix"
  unfolding index_ok_def by blast

lemma index_slot:
  "index_ok ix \<Longrightarrow> oi_slot ix x = Some k \<longleftrightarrow> (\<exists>m. oi_at ix k = Some m \<and> market_of m = x)"
  unfolding index_ok_def by blast

lemma index_enum:
  assumes "index_ok ix"
  shows "distinct (index_list ix)" and "set (index_list ix) = index_set ix"
proof -
  have at: "oi_slot ix (market_of (the (oi_at ix k))) = Some k" if k: "k < open_count ix" for k
  proof -
    obtain m where m: "oi_at ix k = Some m" using index_at [OF assms, of k] k by auto
    then show ?thesis using index_slot [OF assms, of "market_of m" k] by auto
  qed
  have "inj_on (\<lambda>k. market_of (the (oi_at ix k))) {0..<open_count ix}"
  proof (rule inj_onI)
    fix a b assume ab: "a \<in> {0..<open_count ix}" "b \<in> {0..<open_count ix}"
      "market_of (the (oi_at ix a)) = market_of (the (oi_at ix b))"
    have "oi_slot ix (market_of (the (oi_at ix a))) = Some a" by (rule at) (use ab in simp)
    moreover have "oi_slot ix (market_of (the (oi_at ix b))) = Some b" by (rule at) (use ab in simp)
    ultimately have "Some a = Some b" unfolding ab(3) by simp
    then show "a = b" by simp
  qed
  then show "distinct (index_list ix)" by (simp add: index_list_def distinct_map)
  show "set (index_list ix) = index_set ix"
  proof
    show "set (index_list ix) \<subseteq> index_set ix"
      using at by (auto simp: index_list_def index_set_def)
    show "index_set ix \<subseteq> set (index_list ix)"
    proof
      fix x assume "x \<in> index_set ix"
      then obtain k where "oi_slot ix x = Some k" by (auto simp: index_set_def)
      then obtain m where "oi_at ix k = Some m" "market_of m = x"
        using index_slot [OF assms, of x k] by blast
      moreover then have "k < open_count ix" using index_at [OF assms, of k] by simp
      ultimately show "x \<in> set (index_list ix)" by (force simp: index_list_def)
    qed
  qed
qed

lemma index_count: "index_ok ix \<Longrightarrow> card (index_set ix) = open_count ix"
  using index_enum [of ix] distinct_card [of "index_list ix"] by (simp add: index_list_def)

lemma index_add_ok:
  assumes "index_ok ix" and "index_add core i ix = Inr ix'"
  shows "index_ok ix'" and "index_set ix' = insert (core, i) (index_set ix)"
proof -
  have "index_ok ix' \<and> index_set ix' = insert (core, i) (index_set ix)"
  proof (cases "oi_slot ix (core, i)")
    case (Some k)
    then show ?thesis using assms by (auto simp: index_add_def index_set_def)
  next
    case None
    then have ix': "ix' = \<lparr>oi_count = Some (Suc (open_count ix)),
         oi_at = (oi_at ix)(open_count ix \<mapsto> \<lparr>om_core = core, om_market_id = i\<rparr>),
         oi_slot = (oi_slot ix)((core, i) \<mapsto> open_count ix)\<rparr>"
      "open_count ix < MAX_OPEN_MARKETS"
      using assms(2) by (auto simp: index_add_def Let_def res_simps int_ops split: if_splits)
    have no: "oi_at ix k \<noteq> Some m" if "market_of m = (core, i)" for k m
      using index_slot [OF assms(1), of "(core, i)" k] None that by auto
    have free: "oi_at ix (open_count ix) = None" using index_at [OF assms(1)] by blast
    have count: "open_count ix' = Suc (open_count ix)" using ix' by (simp add: open_count_def)
    have "oi_at ix' k \<noteq> None \<longleftrightarrow> k < open_count ix'" for k
      unfolding count using ix'(1) index_at [OF assms(1), of k] by auto
    moreover have "oi_slot ix' x = Some k \<longleftrightarrow> (\<exists>m. oi_at ix' k = Some m \<and> market_of m = x)" for x k
      using ix'(1) index_slot [OF assms(1), of x k] no free by (auto simp: market_of_def)
    ultimately have "index_ok ix'" unfolding index_ok_def using ix'(2) count by simp
    moreover have "index_set ix' = insert (core, i) (index_set ix)"
      using ix'(1) by (simp add: index_set_def)
    ultimately show ?thesis by simp
  qed
  then show "index_ok ix'" and "index_set ix' = insert (core, i) (index_set ix)" by auto
qed

lemma index_add_iff:
  assumes "index_ok ix"
  shows "(\<exists>ix'. index_add core i ix = Inr ix')
    \<longleftrightarrow> (core, i) \<in> index_set ix \<or> card (index_set ix) < MAX_OPEN_MARKETS"
  using assms index_count [OF assms]
  by (auto simp: index_add_def Let_def res_simps int_ops index_set_def MAX_OPEN_MARKETS_def u32_max_def)

lemma index_remove_ok:
  assumes "index_ok ix"
  shows "\<exists>ix'. index_remove core i ix = Inr ix' \<and> index_ok ix'
    \<and> index_set ix' = index_set ix - {(core, i)}"
proof (cases "oi_slot ix (core, i)")
  case None
  then show ?thesis using assms by (auto simp: index_remove_def index_set_def)
next
  case (Some k)
  obtain m where m: "oi_at ix k = Some m" "market_of m = (core, i)"
    using index_slot [OF assms, of "(core, i)" k] Some by auto
  then have k: "k < open_count ix" using index_at [OF assms, of k] by simp
  define n where "n = open_count ix - 1"
  have n: "open_count ix = Suc n" using k by (simp add: n_def)
  obtain m' where m': "oi_at ix n = Some m'" using index_at [OF assms, of n] n by auto
  have slot: "oi_slot ix x = Some j \<longleftrightarrow> (\<exists>m. oi_at ix j = Some m \<and> market_of m = x)" for x j
    by (rule index_slot [OF assms])
  have at: "oi_at ix j \<noteq> None \<longleftrightarrow> j < Suc n" for j using index_at [OF assms, of j] n by simp
  let ?at = "((oi_at ix)(k \<mapsto> m'))(n := None)"
  let ?slot = "((oi_slot ix)(market_of m' \<mapsto> k))((core, i) := None)"
  have inj: "oi_at ix j = Some a \<Longrightarrow> oi_at ix j' = Some b \<Longrightarrow> market_of a = market_of b \<Longrightarrow> j = j'"
    for j j' a b using slot by (metis option.inject)
  have r: "index_remove core i ix = Inr \<lparr>oi_count = Some n, oi_at = ?at, oi_slot = ?slot\<rparr>"
  proof (cases "k = n")
    case True
    then have "m' = m" using m m' by simp
    then show ?thesis using True Some n m
      by (simp add: index_remove_def sub_nat_def Let_def fun_eq_iff)
  next
    case False
    then show ?thesis using Some n m'
      by (simp add: index_remove_def sub_nat_def Let_def market_of_def)
  qed
  have last: "oi_slot ix (market_of m') = Some n" using slot m' by blast
  have removed: "oi_at ix j = Some a \<Longrightarrow> market_of a = (core, i) \<Longrightarrow> j = k" for j a
    using inj m by metis
  have moved: "oi_at ix j = Some a \<Longrightarrow> market_of a = market_of m' \<Longrightarrow> j = n" for j a
    using inj m' by metis
  have "?slot x = Some j \<longleftrightarrow> (\<exists>a. ?at j = Some a \<and> market_of a = x)" for x j
  proof -
    consider "x = (core, i)" | "x \<noteq> (core, i)" "x = market_of m'"
      | "x \<noteq> (core, i)" "x \<noteq> market_of m'" by blast
    then show ?thesis
    proof cases
      case 1
      have False if a: "?at j = Some a" "market_of a = x" for a
      proof (cases "j = k")
        case True
        then have "j \<noteq> n" "a = m'" using a(1) by (auto split: if_splits)
        then show False using moved [OF m(1)] m(2) a(2) 1 True by simp
      next
        case False
        then have "oi_at ix j = Some a" using a(1) by (simp split: if_splits)
        then show False using removed [of j a] a(2) 1 False by simp
      qed
      then show ?thesis using 1 by auto
    next
      case 2
      then have "k \<noteq> n" using m m' by auto
      then show ?thesis using 2 moved [of j] by (auto split: if_splits)
    next
      case 3
      then show ?thesis using slot [of x j] m m' by (auto split: if_splits)
    qed
  qed
  moreover have "?at j \<noteq> None \<longleftrightarrow> j < n" for j using at [of j] k n by auto
  ultimately have ok: "index_ok \<lparr>oi_count = Some n, oi_at = ?at, oi_slot = ?slot\<rparr>"
    using assms n by (simp add: index_ok_def open_count_def)
  have "dom ?slot = index_set ix - {(core, i)}"
    using last by (auto simp: index_set_def)
  then show ?thesis using r ok by (auto simp: index_set_def)
qed

interpretation open_markets: bounded_set "\<lambda>(core, i). index_add core i"
    "\<lambda>(core, i). index_remove core i" index_set index_list index_ok MAX_OPEN_MARKETS
proof (unfold_locales, goal_cases)
  case (1 s)
  then show ?case using index_enum by blast
next
  case (2 s x)
  then show ?case using index_add_iff by (cases x) simp
next
  case (3 s x s')
  then show ?case using index_add_ok by (cases x) simp
next
  case (4 s x)
  then show ?case using index_remove_ok by (cases x) simp
qed

end
