(* ===== verification/NetBook.thy ===== *)
theory NetBook
  imports TreasuryTypes
begin

text \<open>
  The treasury's net-exposure accounting (\<^verbatim>\<open>contracts/treasury/src/lib.rs\<close>, "net exposure"): per
  market the collateral sent in and received back, and a running total of the cost bases that is
  never recomputed. \<open>net_ok\<close> says that the running total is the sum; storing an entry keeps it.
\<close>

record net_book =
  nb_total :: "int option"
  nb_net :: "core_key \<Rightarrow> net_position_rec option"

definition cost_basis :: "net_position_rec \<Rightarrow> int" where
  "cost_basis p = max 0 (saturate_i128 (np_collateral_in p - np_collateral_out p))"

definition no_position :: net_position_rec where
  "no_position = \<lparr>np_collateral_in = 0, np_collateral_out = 0\<rparr>"

definition net_total :: "net_book \<Rightarrow> int" where
  "net_total nb = (case nb_total nb of None \<Rightarrow> 0 | Some t \<Rightarrow> t)"

definition net_at :: "core_key \<Rightarrow> net_book \<Rightarrow> net_position_rec" where
  "net_at k nb = (case nb_net nb k of None \<Rightarrow> no_position | Some p \<Rightarrow> p)"

definition put_net ::
    "core_key \<Rightarrow> net_position_rec \<Rightarrow> net_position_rec \<Rightarrow> net_book \<Rightarrow> (int \<times> net_book) tr_res" where
  "put_net k before next nb =
     andThen (ok_or TrNetExposureExceeded
       (case checked_sub (net_total nb) (cost_basis before) of None \<Rightarrow> None
        | Some t \<Rightarrow> checked_add t (cost_basis next))) (\<lambda>tot.
       Inr (tot, nb\<lparr>nb_total := Some tot, nb_net := (nb_net nb)(k \<mapsto> next)\<rparr>))"

section \<open>The running total\<close>

definition net_ok :: "net_book \<Rightarrow> bool" where
  "net_ok nb \<longleftrightarrow> finite (dom (nb_net nb)) \<and> net_total nb = map_total cost_basis (nb_net nb)"

lemma cost_basis_nonneg: "0 \<le> cost_basis p"
  by (simp add: cost_basis_def)

lemma cost_basis_none: "cost_basis no_position = 0"
  by (simp add: cost_basis_def no_position_def saturate_i128_def)

lemma at_key_net: "at_key cost_basis (nb_net nb) k = cost_basis (net_at k nb)"
  by (simp add: at_key_def net_at_def cost_basis_none split: option.split)

lemma put_net_eq [int_ops]:
  "put_net k before next nb = Inr (tot, nb') \<longleftrightarrow>
     in_i128 (net_total nb - cost_basis before)
     \<and> in_i128 (net_total nb - cost_basis before + cost_basis next)
     \<and> tot = net_total nb - cost_basis before + cost_basis next
     \<and> nb' = nb\<lparr>nb_total := Some tot, nb_net := (nb_net nb)(k \<mapsto> next)\<rparr>"
  by (auto simp: put_net_def res_simps checked_sub_def checked_add_def checked_i128_def)

lemma put_net_ok:
  assumes "net_ok nb" and "put_net k (net_at k nb) next nb = Inr (tot, nb')"
  shows "net_ok nb'" and "net_total nb' = tot" and "net_at k nb' = next"
    and "l \<noteq> k \<Longrightarrow> net_at l nb' = net_at l nb"
  using assms map_total_upd [of "nb_net nb" cost_basis k "Some next"] finite_dom_upd
  by (auto simp: net_ok_def int_ops net_total_def at_key_net net_at_def)

lemma cost_basis_le_total: "net_ok nb \<Longrightarrow> cost_basis (net_at k nb) \<le> net_total nb"
  using at_key_le_total [of "nb_net nb" cost_basis k] cost_basis_nonneg
  by (simp add: net_ok_def at_key_net)

end
