(* ===== verification/Vault.thy ===== *)
theory Vault
  imports TreasuryTypes
begin

text \<open>
  The share ledger and the withdrawal queue of the treasury vault
  (\<^verbatim>\<open>contracts/treasury/src/lib.rs\<close>, "shares and queue" and the vault entry points): minting and
  burning shares at a net asset value, and the queue of withdrawals that wait for capital.
\<close>

section \<open>Share arithmetic\<close>

definition tr_mul_div_floor :: "int \<Rightarrow> int \<Rightarrow> int \<Rightarrow> int option" where
  "tr_mul_div_floor a b c =
     (if a < 0 \<or> b < 0 \<or> c \<le> 0 then None
      else (case checked_mul a b of None \<Rightarrow> None | Some p \<Rightarrow> Some (p div c)))"

definition tr_mul_div_ceil :: "int \<Rightarrow> int \<Rightarrow> int \<Rightarrow> int option" where
  "tr_mul_div_ceil a b c =
     (if a < 0 \<or> b < 0 \<or> c \<le> 0 then None
      else (case checked_mul a b of None \<Rightarrow> None
            | Some p \<Rightarrow> Some (if p mod c \<noteq> 0 then p div c + 1 else p div c)))"

definition shares_for_deposit :: "int \<Rightarrow> int \<Rightarrow> int \<Rightarrow> int option" where
  "shares_for_deposit amount nav issued =
     (case checked_add issued VIRTUAL_SHARES of None \<Rightarrow> None
      | Some s \<Rightarrow> (case checked_add nav VIRTUAL_ASSETS of None \<Rightarrow> None
                   | Some n \<Rightarrow> tr_mul_div_floor amount s n))"

definition assets_for_shares :: "int \<Rightarrow> int \<Rightarrow> int \<Rightarrow> int option" where
  "assets_for_shares shares nav issued =
     (case checked_add nav VIRTUAL_ASSETS of None \<Rightarrow> None
      | Some n \<Rightarrow> (case checked_add issued VIRTUAL_SHARES of None \<Rightarrow> None
                   | Some s \<Rightarrow> tr_mul_div_floor shares n s))"

section \<open>Storage and operations\<close>

record vault =
  vl_shares :: "address \<Rightarrow> int option"
  vl_total_shares :: "int option"
  vl_head :: "nat option"
  vl_tail :: "nat option"
  vl_tickets :: "nat \<Rightarrow> withdraw_ticket_rec option"
  vl_reserved :: "int option"

definition share_supply :: "vault \<Rightarrow> int" where
  "share_supply v = (case vl_total_shares v of None \<Rightarrow> 0 | Some n \<Rightarrow> n)"

definition reserved :: "vault \<Rightarrow> int" where
  "reserved v = (case vl_reserved v of None \<Rightarrow> 0 | Some n \<Rightarrow> n)"

definition queue_head :: "vault \<Rightarrow> nat" where
  "queue_head v = (case vl_head v of None \<Rightarrow> 1 | Some n \<Rightarrow> n)"

definition queue_tail :: "vault \<Rightarrow> nat" where
  "queue_tail v = (case vl_tail v of None \<Rightarrow> 1 | Some n \<Rightarrow> n)"

definition shares_of :: "address \<Rightarrow> vault \<Rightarrow> int" where
  "shares_of owner v = (case vl_shares v owner of None \<Rightarrow> 0 | Some n \<Rightarrow> n)"

definition mint_shares :: "address \<Rightarrow> int \<Rightarrow> int \<Rightarrow> vault \<Rightarrow> (int \<times> vault) tr_res" where
  "mint_shares owner amount nav v =
     andThen (ok_or TrInvalidAmount (shares_for_deposit amount nav (share_supply v))) (\<lambda>minted.
     andThen (if share_supply v = 0 then sub_i128 minted VIRTUAL_SHARES else Inr minted) (\<lambda>credited.
     if credited \<le> 0 then Inl (Err TrDepositTooSmall)
     else
     andThen (ok_or TrInvalidAmount (checked_add (share_supply v) minted)) (\<lambda>new_supply.
     andThen (ok_or TrInvalidAmount (checked_add (shares_of owner v) credited)) (\<lambda>balance.
       Inr (credited, v\<lparr>vl_shares := (vl_shares v)(owner \<mapsto> balance),
                        vl_total_shares := Some new_supply\<rparr>)))))"

definition burn_shares :: "address \<Rightarrow> int \<Rightarrow> vault \<Rightarrow> vault tr_res" where
  "burn_shares owner shares v =
     (if shares_of owner v < shares then Inl (Err TrInsufficientShares)
      else
      andThen (sub_i128 (shares_of owner v) shares) (\<lambda>balance.
      andThen (sub_i128 (share_supply v) shares) (\<lambda>new_supply.
        Inr (v\<lparr>vl_shares := (vl_shares v)(owner \<mapsto> balance),
               vl_total_shares := Some new_supply\<rparr>))))"

text \<open>The ticket \<open>request_withdraw\<close> queues for what could not be paid at once, and the payment of a
  ticket by \<open>claim_withdraw\<close>.\<close>

definition queue_ticket :: "address \<Rightarrow> int \<Rightarrow> nat \<Rightarrow> int \<Rightarrow> vault \<Rightarrow> (nat \<times> vault) tr_res" where
  "queue_ticket owner remaining now res v =
     (let i = queue_tail v in
      andThen (add_u64 i 1) (\<lambda>next.
      andThen (ok_or TrInvalidAmount (checked_add res remaining)) (\<lambda>res'.
        Inr (i, v\<lparr>vl_tickets := (vl_tickets v)(i \<mapsto> \<lparr>wt_owner = owner, wt_remaining = remaining,
                                                     wt_created_at = now\<rparr>),
                  vl_tail := Some next, vl_reserved := Some res'\<rparr>))))"

definition pay_ticket :: "nat \<Rightarrow> withdraw_ticket_rec \<Rightarrow> int \<Rightarrow> vault \<Rightarrow> vault tr_res" where
  "pay_ticket i ticket amount v =
     andThen (sub_i128 (wt_remaining ticket) amount) (\<lambda>remaining.
     andThen (sub_i128 (reserved v) amount) (\<lambda>res.
     if remaining = 0
     then andThen (add_u64 (queue_head v) 1) (\<lambda>next.
            Inr (v\<lparr>vl_reserved := Some res, vl_tickets := (vl_tickets v)(i := None),
                   vl_head := Some next\<rparr>))
     else Inr (v\<lparr>vl_reserved := Some res,
                 vl_tickets := (vl_tickets v)(i \<mapsto> ticket\<lparr>wt_remaining := remaining\<rparr>)\<rparr>)))"

section \<open>The share price\<close>

text \<open>The share price is the quotient of the two offset totals, \<open>(nav + 1) / (supply + 1000)\<close>.
  Deposits and withdrawals round in favour of the vault, so it never falls for those who stay.\<close>

lemma tr_mul_div_floor_eq [int_ops]:
  "tr_mul_div_floor a b c = Some q \<longleftrightarrow> 0 \<le> a \<and> 0 \<le> b \<and> 0 < c \<and> in_i128 (a * b) \<and> q = a * b div c"
  by (auto simp: tr_mul_div_floor_def checked_mul_def checked_i128_def)

lemma shares_for_deposit_eq [int_ops]:
  "shares_for_deposit amount nav issued = Some n \<longleftrightarrow>
     in_i128 (issued + VIRTUAL_SHARES) \<and> in_i128 (nav + VIRTUAL_ASSETS)
     \<and> 0 \<le> amount \<and> 0 \<le> issued + VIRTUAL_SHARES \<and> 0 < nav + VIRTUAL_ASSETS
     \<and> in_i128 (amount * (issued + VIRTUAL_SHARES))
     \<and> n = amount * (issued + VIRTUAL_SHARES) div (nav + VIRTUAL_ASSETS)"
  by (auto simp: shares_for_deposit_def int_ops checked_add_def checked_i128_def)

lemma assets_for_shares_eq [int_ops]:
  "assets_for_shares shares nav issued = Some n \<longleftrightarrow>
     in_i128 (issued + VIRTUAL_SHARES) \<and> in_i128 (nav + VIRTUAL_ASSETS)
     \<and> 0 \<le> shares \<and> 0 < issued + VIRTUAL_SHARES \<and> 0 \<le> nav + VIRTUAL_ASSETS
     \<and> in_i128 (shares * (nav + VIRTUAL_ASSETS))
     \<and> n = shares * (nav + VIRTUAL_ASSETS) div (issued + VIRTUAL_SHARES)"
  by (auto simp: assets_for_shares_def int_ops checked_add_def checked_i128_def)

lemma deposit_keeps_price:
  assumes "shares_for_deposit amount nav issued = Some minted"
  shows "(nav + VIRTUAL_ASSETS) * (issued + minted + VIRTUAL_SHARES)
    \<le> (nav + amount + VIRTUAL_ASSETS) * (issued + VIRTUAL_SHARES)"
proof -
  have "0 < nav + VIRTUAL_ASSETS"
    and minted: "minted = amount * (issued + VIRTUAL_SHARES) div (nav + VIRTUAL_ASSETS)"
    using assms by (auto simp: int_ops)
  then have "minted * (nav + VIRTUAL_ASSETS) \<le> amount * (issued + VIRTUAL_SHARES)"
    using floor_div_bounds by blast
  then show ?thesis by (simp add: algebra_simps)
qed

lemma withdraw_keeps_price:
  assumes "assets_for_shares shares nav issued = Some assets"
  shows "(nav + VIRTUAL_ASSETS) * (issued - shares + VIRTUAL_SHARES)
    \<le> (nav - assets + VIRTUAL_ASSETS) * (issued + VIRTUAL_SHARES)"
proof -
  have "0 < issued + VIRTUAL_SHARES"
    and assets: "assets = shares * (nav + VIRTUAL_ASSETS) div (issued + VIRTUAL_SHARES)"
    using assms by (auto simp: int_ops)
  then have "assets * (issued + VIRTUAL_SHARES) \<le> shares * (nav + VIRTUAL_ASSETS)"
    using floor_div_bounds by blast
  then show ?thesis by (simp add: algebra_simps)
qed

section \<open>The invariant of the vault\<close>

text \<open>\<open>queue_list\<close> is the queue as a list of tickets, the next one to be paid first.\<close>

definition queue_list :: "vault \<Rightarrow> withdraw_ticket_rec list" where
  "queue_list v = map (\<lambda>i. the (vl_tickets v i)) [queue_head v..<queue_tail v]"

definition queue_ok :: "vault \<Rightarrow> bool" where
  "queue_ok v \<longleftrightarrow> 1 \<le> queue_head v \<and> queue_head v \<le> queue_tail v
     \<and> (\<forall>i. vl_tickets v i \<noteq> None \<longleftrightarrow> queue_head v \<le> i \<and> i < queue_tail v)
     \<and> (\<forall>i t. vl_tickets v i = Some t \<longrightarrow> 0 < wt_remaining t)
     \<and> reserved v = sum_list (map wt_remaining (queue_list v))"

text \<open>Either nothing was ever minted, or all shares but the dead ones of the first mint are owned.\<close>

definition shares_ok :: "vault \<Rightarrow> bool" where
  "shares_ok v \<longleftrightarrow> finite (dom (vl_shares v)) \<and> (\<forall>a n. vl_shares v a = Some n \<longrightarrow> 0 \<le> n)
     \<and> (share_supply v = 0 \<and> map_total id (vl_shares v) = 0
        \<or> share_supply v = map_total id (vl_shares v) + VIRTUAL_SHARES)"

definition empty_vault :: vault where
  "empty_vault = \<lparr>vl_shares = Map.empty, vl_total_shares = None, vl_head = None, vl_tail = None,
     vl_tickets = Map.empty, vl_reserved = None\<rparr>"

lemma vault_ok_empty: "queue_ok empty_vault" "shares_ok empty_vault"
  by (auto simp: queue_ok_def shares_ok_def empty_vault_def queue_head_def queue_tail_def
      reserved_def share_supply_def queue_list_def)

lemma at_key_shares: "at_key id (vl_shares v) a = shares_of a v"
  by (simp add: at_key_def shares_of_def split: option.split)

lemma supply_nonneg: "shares_ok v \<Longrightarrow> 0 \<le> share_supply v"
  using map_total_nonneg [of "vl_shares v" id] by (auto simp: shares_ok_def VIRTUAL_SHARES_def)

lemma shares_le_supply: "shares_ok v \<Longrightarrow> shares_of a v \<le> share_supply v"
  using at_key_le_total [of "vl_shares v" id a]
  by (auto simp: shares_ok_def VIRTUAL_SHARES_def at_key_shares)

lemma mint_shares_ok:
  assumes "mint_shares owner amount nav v = Inr (credited, v')" and "shares_ok v"
  shows "shares_ok v'" and "shares_of owner v' = shares_of owner v + credited" and "0 < credited"
    and "\<exists>minted. shares_for_deposit amount nav (share_supply v) = Some minted \<and> credited \<le> minted
           \<and> share_supply v' = share_supply v + minted"
    and "queue_list v' = queue_list v" and "queue_ok v' = queue_ok v"
    and "reserved v' = reserved v"
proof -
  obtain minted where m: "shares_for_deposit amount nav (share_supply v) = Some minted"
      "credited = (if share_supply v = 0 then minted - VIRTUAL_SHARES else minted)" "0 < credited"
      "v' = v\<lparr>vl_shares := (vl_shares v)(owner \<mapsto> shares_of owner v + credited),
              vl_total_shares := Some (share_supply v + minted)\<rparr>"
    using assms(1) by (auto simp: mint_shares_def res_simps checked_add_eq sub_i128_eq split: if_splits)
  have owned: "map_total id (vl_shares v') = map_total id (vl_shares v) + credited"
    using m(4) assms(2) map_total_upd [of "vl_shares v" id owner "Some (shares_of owner v + credited)"]
    by (simp add: shares_ok_def at_key_shares)
  have nonneg: "0 \<le> shares_of owner v" using assms(2) by (auto simp: shares_ok_def shares_of_def split: option.split)
  have issued: "share_supply v' = share_supply v + minted" using m(4) by (simp add: share_supply_def)
  have "0 \<le> map_total id (vl_shares v)"
    using assms(2) by (auto simp: shares_ok_def intro: map_total_nonneg)
  then have "share_supply v' = map_total id (vl_shares v') + VIRTUAL_SHARES"
    using assms(2) owned issued m(2) by (auto simp: shares_ok_def VIRTUAL_SHARES_def split: if_splits)
  then show "shares_ok v'"
    using assms(2) m(3,4) nonneg by (auto simp: shares_ok_def finite_dom_upd)
  show "shares_of owner v' = shares_of owner v + credited" using m(4) by (simp add: shares_of_def)
  show "0 < credited" by (rule m(3))
  show "\<exists>minted. shares_for_deposit amount nav (share_supply v) = Some minted \<and> credited \<le> minted
           \<and> share_supply v' = share_supply v + minted"
    using m(1,2) issued by (auto simp: VIRTUAL_SHARES_def)
  show "queue_list v' = queue_list v" "queue_ok v' = queue_ok v" "reserved v' = reserved v"
    using m(4) by (simp_all add: queue_list_def queue_ok_def queue_head_def queue_tail_def reserved_def)
qed

lemma burn_shares_ok:
  assumes "burn_shares owner shares v = Inr v'" and "shares_ok v" and "0 \<le> shares"
  shows "shares_ok v'" and "shares_of owner v' = shares_of owner v - shares"
    and "shares \<le> shares_of owner v" and "share_supply v' = share_supply v - shares"
    and "queue_list v' = queue_list v" and "queue_ok v' = queue_ok v" and "reserved v' = reserved v"
proof -
  have m: "shares \<le> shares_of owner v"
      "v' = v\<lparr>vl_shares := (vl_shares v)(owner \<mapsto> shares_of owner v - shares),
              vl_total_shares := Some (share_supply v - shares)\<rparr>"
    using assms(1) by (auto simp: burn_shares_def res_simps int_ops split: if_splits)
  have owned: "map_total id (vl_shares v') = map_total id (vl_shares v) - shares"
    using m assms(2) map_total_upd [of "vl_shares v" id owner "Some (shares_of owner v - shares)"]
    by (simp add: shares_ok_def at_key_shares)
  show issued: "share_supply v' = share_supply v - shares" using m(2) by (simp add: share_supply_def)
  have "shares_of owner v \<le> map_total id (vl_shares v)"
    using at_key_le_total [of "vl_shares v" id owner] assms(2) by (simp add: shares_ok_def at_key_shares)
  then have "share_supply v' = 0 \<and> map_total id (vl_shares v') = 0
      \<or> share_supply v' = map_total id (vl_shares v') + VIRTUAL_SHARES"
    using assms(2,3) owned issued m(1) by (auto simp: shares_ok_def)
  then show "shares_ok v'"
    using assms(2) m by (auto simp: shares_ok_def finite_dom_upd)
  show "shares_of owner v' = shares_of owner v - shares" using m(2) by (simp add: shares_of_def)
  show "shares \<le> shares_of owner v" by (rule m(1))
  show "queue_list v' = queue_list v" "queue_ok v' = queue_ok v" "reserved v' = reserved v"
    using m(2) by (simp_all add: queue_list_def queue_ok_def queue_head_def queue_tail_def reserved_def)
qed

section \<open>The queue is first in, first out\<close>

lemma queue_ticket_ok:
  assumes "queue_ticket owner remaining now (reserved v) v = Inr (i, v')" and "queue_ok v"
    and "0 < remaining"
  shows "queue_ok v'"
    and "queue_list v' = queue_list v
           @ [\<lparr>wt_owner = owner, wt_remaining = remaining, wt_created_at = now\<rparr>]"
    and "reserved v' = reserved v + remaining" and "i = queue_tail v"
    and "vl_shares v' = vl_shares v" and "share_supply v' = share_supply v"
proof -
  let ?t = "\<lparr>wt_owner = owner, wt_remaining = remaining, wt_created_at = now\<rparr>"
  have v': "v' = v\<lparr>vl_tickets := (vl_tickets v)(queue_tail v \<mapsto> ?t),
       vl_tail := Some (Suc (queue_tail v)), vl_reserved := Some (reserved v + remaining)\<rparr>"
      and i: "i = queue_tail v"
    using assms(1) by (auto simp: queue_ticket_def Let_def res_simps int_ops)
  have bounds: "queue_head v \<le> queue_tail v" using assms(2) by (simp add: queue_ok_def)
  show list: "queue_list v' = queue_list v @ [?t]"
    using bounds v' by (simp add: queue_list_def queue_head_def queue_tail_def)
  show res: "reserved v' = reserved v + remaining" using v' by (simp add: reserved_def)
  have ends: "queue_head v' = queue_head v" "queue_tail v' = Suc (queue_tail v)"
    using v' by (simp_all add: queue_head_def queue_tail_def)
  have "vl_tickets v' k \<noteq> None \<longleftrightarrow> queue_head v' \<le> k \<and> k < queue_tail v'" for k
    unfolding ends using v' assms(2) bounds by (auto simp: queue_ok_def less_Suc_eq)
  then show "queue_ok v'"
    using assms(2,3) bounds v' ends list res unfolding queue_ok_def by (auto split: if_splits)
  show "i = queue_tail v" by (rule i)
  show "vl_shares v' = vl_shares v" "share_supply v' = share_supply v" using v' by (simp_all add: share_supply_def)
qed

lemma pay_ticket_ok:
  assumes "pay_ticket (queue_head v) ticket amount v = Inr v'" and "queue_ok v"
    and "vl_tickets v (queue_head v) = Some ticket" and "0 \<le> amount" and "amount \<le> wt_remaining ticket"
  shows "\<exists>rest. queue_list v = ticket # rest
     \<and> queue_list v' = (if amount = wt_remaining ticket then rest
                        else ticket\<lparr>wt_remaining := wt_remaining ticket - amount\<rparr> # rest)"
    and "queue_ok v'" and "reserved v' = reserved v - amount"
    and "vl_shares v' = vl_shares v" and "share_supply v' = share_supply v"
proof -
  let ?h = "queue_head v" and ?t = "ticket\<lparr>wt_remaining := wt_remaining ticket - amount\<rparr>"
  have bounds: "1 \<le> ?h" "?h < queue_tail v"
    using assms(2,3) unfolding queue_ok_def by (simp, metis option.distinct(1))
  have tickets: "vl_tickets v k \<noteq> None \<longleftrightarrow> ?h \<le> k \<and> k < queue_tail v" for k
    using assms(2) unfolding queue_ok_def by blast
  have pos: "vl_tickets v k = Some t \<Longrightarrow> 0 < wt_remaining t" for k t
    using assms(2) unfolding queue_ok_def by blast
  define rest where "rest = map (\<lambda>i. the (vl_tickets v i)) [Suc ?h..<queue_tail v]"
  have list: "queue_list v = ticket # rest"
    using bounds assms(3) by (simp add: queue_list_def rest_def upt_conv_Cons)
  have sum: "reserved v = wt_remaining ticket + sum_list (map wt_remaining rest)"
    using assms(2) list by (simp add: queue_ok_def)
  have "(queue_list v' = (if amount = wt_remaining ticket then rest else ?t # rest))
      \<and> queue_ok v' \<and> reserved v' = reserved v - amount
      \<and> vl_shares v' = vl_shares v \<and> share_supply v' = share_supply v"
  proof (cases "amount = wt_remaining ticket")
    case True
    then have v': "v' = v\<lparr>vl_reserved := Some (reserved v - amount),
        vl_tickets := (vl_tickets v)(?h := None), vl_head := Some (Suc ?h)\<rparr>"
      using assms(1) by (auto simp: pay_ticket_def res_simps int_ops)
    have ends: "queue_head v' = Suc ?h" "queue_tail v' = queue_tail v"
      using v' by (simp_all add: queue_head_def queue_tail_def)
    have list': "queue_list v' = rest"
      unfolding queue_list_def rest_def ends using v' by (auto intro: map_cong)
    have "vl_tickets v' k \<noteq> None \<longleftrightarrow> queue_head v' \<le> k \<and> k < queue_tail v'" for k
      unfolding ends using v' tickets [of k] by auto
    moreover have res: "reserved v' = reserved v - amount" using v' by (simp add: reserved_def)
    ultimately have "queue_ok v'"
      unfolding queue_ok_def list' using ends bounds pos v' sum True by (auto split: if_splits)
    then show ?thesis using True list' res v' by (simp add: share_supply_def)
  next
    case False
    then have v': "v' = v\<lparr>vl_reserved := Some (reserved v - amount),
        vl_tickets := (vl_tickets v)(?h \<mapsto> ?t)\<rparr>"
      using assms(1) by (auto simp: pay_ticket_def res_simps int_ops)
    have ends: "queue_head v' = ?h" "queue_tail v' = queue_tail v"
      using v' by (simp_all add: queue_head_def queue_tail_def)
    have list': "queue_list v' = ?t # rest"
      unfolding queue_list_def rest_def ends upt_conv_Cons [OF bounds(2)]
      using v' by (auto intro: map_cong)
    have "vl_tickets v' k \<noteq> None \<longleftrightarrow> queue_head v' \<le> k \<and> k < queue_tail v'" for k
      unfolding ends using v' tickets [of k] bounds by auto
    moreover have res: "reserved v' = reserved v - amount" using v' by (simp add: reserved_def)
    ultimately have "queue_ok v'"
      unfolding queue_ok_def list' using ends bounds pos v' sum False assms(5)
      by (auto split: if_splits)
    then show ?thesis using False list' res v' by (simp add: share_supply_def)
  qed
  then show "queue_ok v'" "reserved v' = reserved v - amount" "vl_shares v' = vl_shares v"
      "share_supply v' = share_supply v"
    and "\<exists>rest. queue_list v = ticket # rest
     \<and> queue_list v' = (if amount = wt_remaining ticket then rest else ?t # rest)"
    using list by auto
qed

lemma reserved_nonneg: "queue_ok v \<Longrightarrow> 0 \<le> reserved v"
proof -
  assume ok: "queue_ok v"
  have "0 \<le> wt_remaining t" if t: "t \<in> set (queue_list v)" for t
  proof -
    obtain i where "queue_head v \<le> i" "i < queue_tail v" "t = the (vl_tickets v i)"
      using t by (auto simp: queue_list_def)
    then show ?thesis using ok unfolding queue_ok_def by (metis less_imp_le option.collapse)
  qed
  then show ?thesis using ok by (auto simp: queue_ok_def intro!: sum_list_nonneg)
qed

end
