(* ===== verification/TreasuryState.thy ===== *)
theory TreasuryState
  imports UsageWindow OpenIndex NetBook Vault
begin

text \<open>
  The storage of the treasury and its internal helpers (\<^verbatim>\<open>contracts/treasury/src/lib.rs\<close>): the
  configuration with its legacy migration, the agent registry, pausing, the open-market index,
  the net book and the vault lifted to the whole state, and the cap on what an agent may spend.

  The state \<open>'w tr\<close> groups the entries by component; \<open>tr_world\<close> is everything outside. A helper
  that reads only takes the state, one that writes returns it. \<open>load_global\<close> writes: it migrates
  the storage of the version before the registry.
\<close>

section \<open>State\<close>

record gov_state =
  gv_admin :: "address option"
  gv_config :: "risk_config option"
  gv_net_cap :: "int option"
  gv_global :: "global_config option"
  gv_config_delay :: "nat option"
  gv_pending_config :: "pending_config_rec option"
  gv_original_core :: "address option"
  gv_legacy_cores :: "address \<Rightarrow> bool option"
  gv_price_policy :: "price_policy option"
  gv_pending_price :: "pending_price_policy_rec option"
  gv_successor :: "address option"

record agent_state =
  ag_count :: "nat option"
  ag_at :: "nat \<Rightarrow> address option"
  ag_policies :: "address \<Rightarrow> agent_policy option"
  ag_pending :: "address \<Rightarrow> pending_agent_rec option"
  ag_windows :: "address \<Rightarrow> usage_window option"

record risk_state =
  rk_paused :: "bool option"
  rk_admin_paused :: "bool option"
  rk_tripped :: "bool option"
  rk_acknowledged :: "bool option"
  rk_drawdown_cfg :: "drawdown_config option"
  rk_pnl_days :: "pnl_days option"
  rk_pnl :: "nat \<Rightarrow> market_pnl_rec option"
  rk_realized :: "nat \<Rightarrow> realized_rec option"
  rk_creation_policy :: "creation_policy option"
  rk_creation_buckets :: "creation_bucket list option"

record yield_state =
  yl_venue :: "yield_venue option"
  yl_principal :: "int option"

record 'w tr =
  tr_gov :: gov_state
  tr_agents :: agent_state
  tr_risk :: risk_state
  tr_yield :: yield_state
  tr_usage :: "usage_window option"
  tr_daily :: "daily_usage_rec option"
  tr_exposure :: "core_key \<Rightarrow> market_exposure_rec option"
  tr_net :: net_book
  tr_index :: open_index
  tr_vault :: vault
  tr_world :: 'w
  tr_events :: "tr_event list"

definition tr_publish :: "tr_event \<Rightarrow> 'w tr \<Rightarrow> 'w tr" where
  "tr_publish ev s = s\<lparr>tr_events := tr_events s @ [ev]\<rparr>"

definition flag :: "bool option \<Rightarrow> bool" where
  "flag b \<longleftrightarrow> b = Some True"

definition upd_gov :: "(gov_state \<Rightarrow> gov_state) \<Rightarrow> 'w tr \<Rightarrow> 'w tr" where
  "upd_gov f s = s\<lparr>tr_gov := f (tr_gov s)\<rparr>"

definition upd_risk :: "(risk_state \<Rightarrow> risk_state) \<Rightarrow> 'w tr \<Rightarrow> 'w tr" where
  "upd_risk f s = s\<lparr>tr_risk := f (tr_risk s)\<rparr>"

text \<open>A panicking client call, and a \<open>Result\<close> the caller drops.\<close>

fun core_must :: "(mc_error, 'a) res \<Rightarrow> 'a tr_res" where
  "core_must (Inr x) = Inr x"
| "core_must (Inl e) = Inl Trap"

fun ignore_err :: "'s \<Rightarrow> ('e, 's) res \<Rightarrow> ('e, 's) res" where
  "ignore_err s (Inr s') = Inr s'"
| "ignore_err s (Inl (Err e)) = Inr s"
| "ignore_err s (Inl Trap) = Inl Trap"

lemma core_must_eq [res_simps]: "core_must r = Inr x \<longleftrightarrow> r = Inr x"
  by (cases r rule: core_must.cases) auto

lemma ignore_err_eq [res_simps]:
  "ignore_err s r = Inr t \<longleftrightarrow> r = Inr t \<or> (\<exists>e. r = Inl (Err e)) \<and> t = s"
  by (cases "(s, r)" rule: ignore_err.cases) auto

section \<open>Administration and pausing\<close>

definition tr_require_admin :: "env \<Rightarrow> 'w tr \<Rightarrow> unit tr_res" where
  "tr_require_admin E s =
     andThen (ok_or TrNotInitialized (gv_admin (tr_gov s))) (\<lambda>admin. require_auth E admin)"

definition is_paused :: "'w tr \<Rightarrow> bool" where
  "is_paused s \<longleftrightarrow> flag (rk_paused (tr_risk s))"

definition tr_assert_not_paused :: "'w tr \<Rightarrow> unit tr_res" where
  "tr_assert_not_paused s =
     (if flag (rk_paused (tr_risk s))
      then if flag (rk_tripped (tr_risk s)) then Inl (Err TrDrawdownTripped) else Inl (Err TrPaused)
      else Inr ())"

section \<open>Comparing configurations\<close>

datatype change = NoChange | TightenOnly | NeedsDelay

fun classify_loop :: "bool \<Rightarrow> (int \<times> int) list \<Rightarrow> change" where
  "classify_loop lowered [] = (if lowered then TightenOnly else NoChange)"
| "classify_loop lowered ((old, new) # pairs) =
     (if old < new then NeedsDelay else classify_loop (lowered \<or> new < old) pairs)"

definition classify_caps :: "(int \<times> int) list \<Rightarrow> change" where
  "classify_caps pairs = classify_loop False pairs"

definition classify_global :: "global_config \<Rightarrow> global_config \<Rightarrow> change" where
  "classify_global old new =
     (if gc_collateral old \<noteq> gc_collateral new \<or> gc_market_core old \<noteq> gc_market_core new
      then NeedsDelay
      else classify_caps [(gc_max_trade old, gc_max_trade new), (gc_max_market old, gc_max_market new),
             (gc_max_daily old, gc_max_daily new),
             (gc_max_net_exposure old, gc_max_net_exposure new)])"

definition classify_agent :: "agent_policy option \<Rightarrow> agent_policy \<Rightarrow> change" where
  "classify_agent current new =
     (case current of None \<Rightarrow> NeedsDelay
      | Some cur \<Rightarrow>
          if \<not> ap_active cur then NeedsDelay
          else if ap_roles new AND NOT (ap_roles cur) \<noteq> 0 then NeedsDelay
          else (case classify_caps [(ap_max_trade cur, ap_max_trade new),
                                    (ap_max_daily cur, ap_max_daily new)] of
                  NoChange \<Rightarrow> if ap_roles new \<noteq> ap_roles cur then TightenOnly else NoChange
                | c \<Rightarrow> c))"

definition validate_global :: "global_config \<Rightarrow> unit tr_res" where
  "validate_global c =
     (if gc_max_trade c \<le> 0 \<or> gc_max_market c < gc_max_trade c \<or> gc_max_daily c < gc_max_market c
         \<or> gc_max_net_exposure c < gc_max_trade c
      then Inl (Err TrInvalidConfig) else Inr ())"

definition validate_price_policy :: "price_policy \<Rightarrow> unit tr_res" where
  "validate_price_policy p =
     (let mx = nat BPS in
      if mx < pp_max_buy_price_bps p \<or> mx < pp_min_sell_price_bps p \<or> mx < pp_max_impact_bps p
         \<or> pp_max_buy_price_bps p \<le> pp_min_sell_price_bps p \<or> pp_max_impact_bps p = 0
         \<or> mx \<le> pp_max_slippage_bps p
      then Inl (Err TrInvalidPricePolicy) else Inr ())"

definition validate_policy :: "agent_policy \<Rightarrow> global_config \<Rightarrow> unit tr_res" where
  "validate_policy p g =
     (if \<not> ap_active p \<or> ap_roles p = 0 \<or> ap_roles p AND NOT ROLE_ALL \<noteq> 0
         \<or> ap_max_trade p \<le> 0 \<or> ap_max_daily p < ap_max_trade p
         \<or> gc_max_trade g < ap_max_trade p \<or> gc_max_daily g < ap_max_daily p
      then Inl (Err TrInvalidConfig) else Inr ())"

definition DEFAULT_PRICE_POLICY :: price_policy where
  "DEFAULT_PRICE_POLICY = \<lparr>pp_max_buy_price_bps = 9500, pp_min_sell_price_bps = 500,
     pp_max_impact_bps = 500, pp_max_slippage_bps = 200\<rparr>"

definition load_price_policy :: "'w tr \<Rightarrow> price_policy" where
  "load_price_policy s =
     (case gv_price_policy (tr_gov s) of None \<Rightarrow> DEFAULT_PRICE_POLICY | Some p \<Rightarrow> p)"

definition config_delay_of :: "'w tr \<Rightarrow> nat" where
  "config_delay_of s = (case gv_config_delay (tr_gov s) of None \<Rightarrow> MIN_CONFIG_DELAY | Some d \<Rightarrow> d)"

definition unlock_time :: "env \<Rightarrow> 'w tr \<Rightarrow> nat tr_res" where
  "unlock_time E s =
     (if e_now E + config_delay_of s \<le> u64_max then Inr (e_now E + config_delay_of s)
      else Inl (Err TrInvalidConfig))"

definition require_legacy :: "address \<Rightarrow> 'w tr \<Rightarrow> unit tr_res" where
  "require_legacy core s =
     (if flag (gv_legacy_cores (tr_gov s) core) then Inr () else Inl (Err TrLegacyCoreUnknown))"

section \<open>Agents\<close>

definition agent_count_of :: "'w tr \<Rightarrow> nat" where
  "agent_count_of s = (case ag_count (tr_agents s) of None \<Rightarrow> 0 | Some n \<Rightarrow> n)"

definition write_agent :: "address \<Rightarrow> agent_policy \<Rightarrow> 'w tr \<Rightarrow> 'w tr tr_res" where
  "write_agent agent policy s =
     andThen
       (if ag_policies (tr_agents s) agent = None
        then let count = agent_count_of s in
          if MAX_AGENTS \<le> count then Inl (Err TrInvalidConfig)
          else andThen (add_u32 count 1) (\<lambda>next.
                 Inr (s\<lparr>tr_agents := (tr_agents s)\<lparr>ag_at := (ag_at (tr_agents s))(count \<mapsto> agent),
                                                     ag_count := Some next\<rparr>\<rparr>))
        else Inr s) (\<lambda>s1.
       Inr (tr_publish (EvAgentPolicySet agent (ap_roles policy) (ap_max_trade policy) (ap_max_daily policy))
         (s1\<lparr>tr_agents := (tr_agents s1)\<lparr>ag_policies := (ag_policies (tr_agents s1))(agent \<mapsto> policy)\<rparr>\<rparr>)))"

definition can_settle :: "agent_policy \<Rightarrow> bool" where
  "can_settle p \<longleftrightarrow> ap_active p \<and> ap_roles p AND ROLE_SETTLE \<noteq> 0"

definition ensure_settler :: "'w tr \<Rightarrow> unit tr_res" where
  "ensure_settler s =
     (if list_ex (\<lambda>i. case ag_at (tr_agents s) i of None \<Rightarrow> False
                      | Some a \<Rightarrow> (case ag_policies (tr_agents s) a of None \<Rightarrow> False
                                   | Some p \<Rightarrow> can_settle p)) [0..<agent_count_of s]
      then Inr () else Inl (Err TrInvalidConfig))"

definition require_agent :: "env \<Rightarrow> address \<Rightarrow> 32 word \<Rightarrow> 'w tr \<Rightarrow> agent_policy tr_res" where
  "require_agent E agent role s =
     andThen (require_auth E agent) (\<lambda>_.
     andThen (ok_or TrUnauthorized (ag_policies (tr_agents s) agent)) (\<lambda>policy.
     if \<not> ap_active policy \<or> ap_roles policy AND role = 0 then Inl (Err TrUnauthorized)
     else Inr policy))"

definition check_trade_size :: "global_config \<Rightarrow> agent_policy \<Rightarrow> int \<Rightarrow> unit tr_res" where
  "check_trade_size g policy amount =
     (if amount \<le> 0 then Inl (Err TrInvalidAmount)
      else if ap_max_trade policy < amount \<or> gc_max_trade g < amount
      then Inl (Err TrTradeCapExceeded) else Inr ())"

section \<open>The vault and the configuration\<close>

definition idle :: "'w peers \<Rightarrow> env \<Rightarrow> global_config \<Rightarrow> 'w tr \<Rightarrow> int" where
  "idle P E g s = pr_balance P (gc_collateral g) (e_self E) (tr_world s)"

definition tr_mint :: "address \<Rightarrow> int \<Rightarrow> int \<Rightarrow> 'w tr \<Rightarrow> (int \<times> 'w tr) tr_res" where
  "tr_mint owner amount nav s =
     andThen (mint_shares owner amount nav (tr_vault s)) (\<lambda>(credited, v).
       Inr (credited, s\<lparr>tr_vault := v\<rparr>))"

definition load_global :: "'w peers \<Rightarrow> env \<Rightarrow> 'w tr \<Rightarrow> (global_config \<times> 'w tr) tr_res" where
  "load_global P E s =
     (case gv_global (tr_gov s) of Some g \<Rightarrow> Inr (g, s)
      | None \<Rightarrow>
        andThen (ok_or TrNotInitialized (gv_config (tr_gov s))) (\<lambda>legacy.
        let g = \<lparr>gc_collateral = rc_collateral legacy, gc_market_core = rc_market_core legacy,
                 gc_max_trade = rc_max_trade legacy, gc_max_market = rc_max_market legacy,
                 gc_max_daily = rc_max_daily legacy,
                 gc_max_net_exposure = (case gv_net_cap (tr_gov s) of None \<Rightarrow> rc_max_daily legacy
                                        | Some c \<Rightarrow> c)\<rparr>;
            s1 = upd_gov (\<lambda>v. v\<lparr>gv_global := Some g, gv_config := None, gv_net_cap := None,
                   gv_original_core := (if gv_original_core v = None then Some (gc_market_core g)
                                        else gv_original_core v)\<rparr>) s in
        andThen (write_agent (rc_agent legacy) \<lparr>ap_roles = ROLE_ALL, ap_max_trade = gc_max_trade g,
                   ap_max_daily = gc_max_daily g, ap_active = True\<rparr> s1) (\<lambda>s2.
        if share_supply (tr_vault s2) = 0 \<and> 0 < idle P E g s2
        then andThen (ok_or TrNotInitialized (gv_admin (tr_gov s2))) (\<lambda>admin.
             andThen (tr_mint admin (idle P E g s2) 0 s2) (\<lambda>(credited, s3). Inr (g, s3)))
        else Inr (g, s2))))"

definition check_collateral_change ::
    "'w peers \<Rightarrow> env \<Rightarrow> global_config \<Rightarrow> global_config \<Rightarrow> 'w tr \<Rightarrow> unit tr_res" where
  "check_collateral_change P E old new s =
     (if gc_collateral old = gc_collateral new then Inr ()
      else if idle P E old s \<noteq> 0 \<or> open_count (tr_index s) \<noteq> 0 \<or> reserved (tr_vault s) \<noteq> 0
      then Inl (Err TrInvalidConfig) else Inr ())"

definition ensure_unreserved :: "'w peers \<Rightarrow> env \<Rightarrow> global_config \<Rightarrow> int \<Rightarrow> 'w tr \<Rightarrow> unit tr_res" where
  "ensure_unreserved P E g amount s =
     (if reserved (tr_vault s) = 0 then Inr ()
      else if saturate_i128 (idle P E g s - amount) < reserved (tr_vault s)
      then Inl (Err TrCapitalReserved) else Inr ())"

definition pay :: "'w peers \<Rightarrow> env \<Rightarrow> global_config \<Rightarrow> address \<Rightarrow> address \<Rightarrow> int \<Rightarrow> 'w tr \<Rightarrow> 'w tr tr_res" where
  "pay P E g from to amount s =
     andThen (unwrap (pr_transfer P E (gc_collateral g) from to amount (tr_world s))) (\<lambda>w.
       Inr (s\<lparr>tr_world := w\<rparr>))"

section \<open>Per-market entries\<close>

definition is_original_core :: "address \<Rightarrow> 'w tr \<Rightarrow> bool" where
  "is_original_core core s =
     (case gv_original_core (tr_gov s) of None \<Rightarrow> True | Some original \<Rightarrow> original = core)"

definition core_key :: "address \<Rightarrow> nat \<Rightarrow> 'w tr \<Rightarrow> core_key" where
  "core_key core i s = (if is_original_core core s then OriginalKey i else CoreKey core i)"

definition market_exposure :: "address \<Rightarrow> nat \<Rightarrow> 'w tr \<Rightarrow> market_exposure_rec" where
  "market_exposure core i s =
     (case tr_exposure s (core_key core i s) of None \<Rightarrow> \<lparr>me_amount = 0, me_open = False\<rparr> | Some x \<Rightarrow> x)"

definition save_exposure :: "address \<Rightarrow> nat \<Rightarrow> market_exposure_rec \<Rightarrow> 'w tr \<Rightarrow> 'w tr" where
  "save_exposure core i x s = s\<lparr>tr_exposure := (tr_exposure s)(core_key core i s \<mapsto> x)\<rparr>"

definition load_net :: "address \<Rightarrow> nat \<Rightarrow> 'w tr \<Rightarrow> net_position_rec" where
  "load_net core i s = net_at (core_key core i s) (tr_net s)"

definition save_net ::
    "address \<Rightarrow> nat \<Rightarrow> net_position_rec \<Rightarrow> net_position_rec \<Rightarrow> 'w tr \<Rightarrow> (int \<times> 'w tr) tr_res" where
  "save_net core i before next s =
     andThen (put_net (core_key core i s) before next (tr_net s)) (\<lambda>(tot, nb).
       Inr (tot, tr_publish (EvNetExposureUpdated i (cost_basis next) tot) (s\<lparr>tr_net := nb\<rparr>)))"

definition reserve_net :: "global_config \<Rightarrow> nat \<Rightarrow> int \<Rightarrow> 'w tr \<Rightarrow> 'w tr tr_res" where
  "reserve_net g i amount s =
     (let core = gc_market_core g; before = load_net core i s in
      andThen (ok_or TrNetExposureExceeded (checked_add (np_collateral_in before) amount)) (\<lambda>inn.
      andThen (save_net core i before (before\<lparr>np_collateral_in := inn\<rparr>) s) (\<lambda>(tot, s1).
      if gc_max_net_exposure g < tot then Inl (Err TrNetExposureExceeded) else Inr s1)))"

definition record_return :: "address \<Rightarrow> nat \<Rightarrow> int \<Rightarrow> 'w tr \<Rightarrow> 'w tr tr_res" where
  "record_return core i amount s =
     (if amount \<le> 0 then Inr s
      else let before = load_net core i s in
        andThen (ok_or TrInvalidAmount (checked_add (np_collateral_out before) amount)) (\<lambda>out.
        andThen (save_net core i before (before\<lparr>np_collateral_out := out\<rparr>) s) (\<lambda>(tot, s1). Inr s1)))"

definition clear_net :: "address \<Rightarrow> nat \<Rightarrow> 'w tr \<Rightarrow> 'w tr tr_res" where
  "clear_net core i s =
     andThen (save_net core i (load_net core i s) no_position s) (\<lambda>(tot, s1). Inr s1)"

definition on_index :: "(open_index \<Rightarrow> open_index tr_res) \<Rightarrow> 'w tr \<Rightarrow> 'w tr tr_res" where
  "on_index f s = andThen (f (tr_index s)) (\<lambda>ix. Inr (s\<lparr>tr_index := ix\<rparr>))"

section \<open>The daily windows\<close>

definition load_window :: "env \<Rightarrow> 'w tr \<Rightarrow> usage_window tr_res" where
  "load_window E s =
     (case tr_usage s of Some w \<Rightarrow> Inr w
      | None \<Rightarrow>
        andThen (ok_or TrNotInitialized (tr_daily s)) (\<lambda>legacy.
        let w = empty_window (e_now E div BUCKET_SECONDS) in
        if e_now E < sat_add_u64 (du_day_start legacy) DAY_SECONDS
        then andThen (vec_set (uw_head_idx w) (du_amount legacy) (uw_amounts w)) (\<lambda>amounts.
               Inr (w\<lparr>uw_amounts := amounts\<rparr>))
        else Inr w))"

definition load_agent_window :: "env \<Rightarrow> address \<Rightarrow> 'w tr \<Rightarrow> usage_window" where
  "load_agent_window E agent s =
     (case ag_windows (tr_agents s) agent of Some w \<Rightarrow> w
      | None \<Rightarrow> empty_window (e_now E div BUCKET_SECONDS))"

fun as_agent_cap :: "'a tr_res \<Rightarrow> 'a tr_res" where
  "as_agent_cap (Inl (Err e)) = Inl (Err TrAgentDailyCapExceeded)"
| "as_agent_cap r = r"

lemma as_agent_cap_eq [res_simps]: "as_agent_cap r = Inr x \<longleftrightarrow> r = Inr x"
  by (cases r rule: as_agent_cap.cases) auto

definition reserve_capacity ::
    "env \<Rightarrow> global_config \<Rightarrow> address \<Rightarrow> agent_policy \<Rightarrow> nat \<Rightarrow> int \<Rightarrow> 'w tr \<Rightarrow> 'w tr tr_res" where
  "reserve_capacity E g agent policy i amount s =
     (let core = gc_market_core g in
      andThen (load_window E s) (\<lambda>window.
      let agent_window = load_agent_window E agent s; exposure = market_exposure core i s in
      andThen (ok_or TrMarketCapExceeded (checked_add (me_amount exposure) amount)) (\<lambda>new_market.
      if gc_max_market g < new_market then Inl (Err TrMarketCapExceeded)
      else
      andThen (consume_window window (e_now E) amount (gc_max_daily g)) (\<lambda>(new_daily, window').
      andThen (as_agent_cap (consume_window agent_window (e_now E) amount (ap_max_daily policy)))
        (\<lambda>(agent_total, agent_window').
      andThen (on_index (index_add core i) s) (\<lambda>s1.
      let s2 = save_exposure core i \<lparr>me_amount = new_market, me_open = True\<rparr> s1;
          s3 = s2\<lparr>tr_agents := (tr_agents s2)\<lparr>ag_windows := (ag_windows (tr_agents s2))(agent \<mapsto> agent_window')\<rparr>,
                  tr_usage := Some window', tr_daily := None\<rparr>
      in Inr (tr_publish (EvTradeAuthorized i agent amount new_market new_daily) s3)))))))"

end
