(* ===== verification/TreasuryGov.thy ===== *)
theory TreasuryGov
  imports TreasuryState
begin

text \<open>
  The treasury's configuration entry points (\<^verbatim>\<open>contracts/treasury/src/lib.rs\<close>): agents, caps and
  price policy, all under the rule that tightening applies at once and loosening waits for the
  configured delay; pausing, drawdown limits and the creation policy.
\<close>

section \<open>Agents\<close>

definition set_agent :: "'w peers \<Rightarrow> env \<Rightarrow> address \<Rightarrow> agent_policy \<Rightarrow> 'w tr \<Rightarrow> 'w tr tr_res" where
  "set_agent P E agent policy s0 =
     andThen (tr_require_admin E s0) (\<lambda>_.
     andThen (load_global P E s0) (\<lambda>(g, s).
     andThen (validate_policy policy g) (\<lambda>_.
     let current = ag_policies (tr_agents s) agent in
     (case classify_agent current policy of
        NoChange \<Rightarrow> Inl (Err TrInvalidConfig)
      | TightenOnly \<Rightarrow> andThen (write_agent agent policy s) (\<lambda>s1.
                       andThen (ensure_settler s1) (\<lambda>_. Inr s1))
      | NeedsDelay \<Rightarrow>
          if ag_pending (tr_agents s) agent \<noteq> None then Inl (Err TrProposalPending)
          else if current = None \<and> MAX_AGENTS \<le> agent_count_of s then Inl (Err TrInvalidConfig)
          else
          andThen (unlock_time E s) (\<lambda>executable_at.
            Inr (tr_publish (EvAgentPolicyProposed agent (ap_roles policy) (ap_max_trade policy)
                               (ap_max_daily policy) executable_at)
              (s\<lparr>tr_agents := (tr_agents s)\<lparr>ag_pending := (ag_pending (tr_agents s))
                   (agent \<mapsto> \<lparr>pn_policy = policy, pn_proposed_at = e_now E,
                              pn_executable_at = executable_at\<rparr>)\<rparr>\<rparr>)))))))"

definition execute_agent :: "'w peers \<Rightarrow> env \<Rightarrow> address \<Rightarrow> 'w tr \<Rightarrow> 'w tr tr_res" where
  "execute_agent P E agent s0 =
     andThen (ok_or TrNoPendingConfig (ag_pending (tr_agents s0) agent)) (\<lambda>pending.
     if e_now E < pn_executable_at pending then Inl (Err TrTimelockActive)
     else
     andThen (load_global P E s0) (\<lambda>(g, s).
     andThen (validate_policy (pn_policy pending) g) (\<lambda>_.
     andThen (write_agent agent (pn_policy pending)
       (s\<lparr>tr_agents := (tr_agents s)\<lparr>ag_pending := (ag_pending (tr_agents s))(agent := None)\<rparr>\<rparr>)) (\<lambda>s1.
     andThen (ensure_settler s1) (\<lambda>_. Inr s1)))))"

definition cancel_agent :: "env \<Rightarrow> address \<Rightarrow> 'w tr \<Rightarrow> 'w tr tr_res" where
  "cancel_agent E agent s =
     andThen (tr_require_admin E s) (\<lambda>_.
     if ag_pending (tr_agents s) agent = None then Inl (Err TrNoPendingConfig)
     else Inr (tr_publish (EvAgentPolicyCancelled agent)
            (s\<lparr>tr_agents := (tr_agents s)\<lparr>ag_pending := (ag_pending (tr_agents s))(agent := None)\<rparr>\<rparr>)))"

definition remove_agent :: "env \<Rightarrow> address \<Rightarrow> 'w tr \<Rightarrow> 'w tr tr_res" where
  "remove_agent E agent s =
     andThen (tr_require_admin E s) (\<lambda>_.
     andThen (ok_or TrInvalidConfig
       (case ag_policies (tr_agents s) agent of None \<Rightarrow> None
        | Some p \<Rightarrow> if ap_active p then Some p else None)) (\<lambda>policy.
     let s1 = s\<lparr>tr_agents := (tr_agents s)\<lparr>ag_policies :=
                (ag_policies (tr_agents s))(agent \<mapsto> policy\<lparr>ap_active := False\<rparr>)\<rparr>\<rparr> in
     andThen (ensure_settler s1) (\<lambda>_. Inr (tr_publish (EvAgentRemoved agent) s1))))"

definition get_agent :: "address \<Rightarrow> 'w tr \<Rightarrow> agent_policy option" where
  "get_agent agent s = ag_policies (tr_agents s) agent"

definition pending_agent :: "address \<Rightarrow> 'w tr \<Rightarrow> pending_agent_rec option" where
  "pending_agent agent s = ag_pending (tr_agents s) agent"

definition agent_at :: "nat \<Rightarrow> 'w tr \<Rightarrow> address option" where
  "agent_at i s = ag_at (tr_agents s) i"

section \<open>Caps\<close>

definition set_global :: "global_config \<Rightarrow> 'w tr \<Rightarrow> 'w tr" where
  "set_global g = upd_gov (\<lambda>v. v\<lparr>gv_global := Some g\<rparr>)"

definition propose_config :: "'w peers \<Rightarrow> env \<Rightarrow> global_config \<Rightarrow> 'w tr \<Rightarrow> 'w tr tr_res" where
  "propose_config P E new s0 =
     andThen (tr_require_admin E s0) (\<lambda>_.
     andThen (validate_global new) (\<lambda>_.
     andThen (load_global P E s0) (\<lambda>(old, s).
     (case classify_global old new of
        NoChange \<Rightarrow> Inl (Err TrInvalidConfig)
      | TightenOnly \<Rightarrow> Inr (tr_publish (EvConfigExecuted old new True) (set_global new s))
      | NeedsDelay \<Rightarrow>
          if gv_pending_config (tr_gov s) \<noteq> None then Inl (Err TrProposalPending)
          else
          andThen (check_collateral_change P E old new s) (\<lambda>_.
          andThen (unlock_time E s) (\<lambda>executable_at.
            Inr (tr_publish (EvConfigProposed old new executable_at)
              (upd_gov (\<lambda>v. v\<lparr>gv_pending_config := Some \<lparr>pg_config = new, pg_proposed_at = e_now E,
                 pg_executable_at = executable_at\<rparr>\<rparr>) s))))))))"

definition execute_config :: "'w peers \<Rightarrow> env \<Rightarrow> 'w tr \<Rightarrow> 'w tr tr_res" where
  "execute_config P E s0 =
     andThen (ok_or TrNoPendingConfig (gv_pending_config (tr_gov s0))) (\<lambda>pending.
     if e_now E < pg_executable_at pending then Inl (Err TrTimelockActive)
     else
     andThen (load_global P E s0) (\<lambda>(old, s).
     let new = pg_config pending in
     andThen (validate_global new) (\<lambda>_.
     andThen (check_collateral_change P E old new s) (\<lambda>_.
     let s1 = (if gc_market_core new \<noteq> gc_market_core old
               then upd_gov (\<lambda>v. v\<lparr>gv_legacy_cores := (gv_legacy_cores v)(gc_market_core old \<mapsto> True)\<rparr>) s
               else s)
     in Inr (tr_publish (EvConfigExecuted old new False)
          (upd_gov (\<lambda>v. v\<lparr>gv_global := Some new, gv_pending_config := None\<rparr>) s1))))))"

definition cancel_config :: "env \<Rightarrow> 'w tr \<Rightarrow> 'w tr tr_res" where
  "cancel_config E s =
     andThen (tr_require_admin E s) (\<lambda>_.
     andThen (ok_or TrNoPendingConfig (gv_pending_config (tr_gov s))) (\<lambda>pending.
       Inr (tr_publish (EvConfigCancelled (pg_config pending))
              (upd_gov (\<lambda>v. v\<lparr>gv_pending_config := None\<rparr>) s))))"

definition pending_config :: "'w tr \<Rightarrow> pending_config_rec option" where
  "pending_config s = gv_pending_config (tr_gov s)"

definition set_config_delay :: "env \<Rightarrow> nat \<Rightarrow> 'w tr \<Rightarrow> 'w tr tr_res" where
  "set_config_delay E new_delay s =
     andThen (tr_require_admin E s) (\<lambda>_.
     let old = config_delay_of s in
     if new_delay < old then Inl (Err TrInvalidConfig)
     else Inr (tr_publish (EvConfigDelaySet old new_delay)
            (upd_gov (\<lambda>v. v\<lparr>gv_config_delay := Some new_delay\<rparr>) s)))"

section \<open>Price policy\<close>

definition set_price_policy :: "env \<Rightarrow> price_policy \<Rightarrow> 'w tr \<Rightarrow> 'w tr tr_res" where
  "set_price_policy E policy s =
     andThen (tr_require_admin E s) (\<lambda>_.
     andThen (validate_price_policy policy) (\<lambda>_.
     let old = load_price_policy s in
     (case classify_caps
        [(int (pp_max_buy_price_bps old), int (pp_max_buy_price_bps policy)),
         (- int (pp_min_sell_price_bps old), - int (pp_min_sell_price_bps policy)),
         (int (pp_max_impact_bps old), int (pp_max_impact_bps policy)),
         (int (pp_max_slippage_bps old), int (pp_max_slippage_bps policy))] of
        NoChange \<Rightarrow> Inl (Err TrInvalidPricePolicy)
      | TightenOnly \<Rightarrow> Inr (tr_publish (EvPricePolicySet old policy True)
                          (upd_gov (\<lambda>v. v\<lparr>gv_price_policy := Some policy\<rparr>) s))
      | NeedsDelay \<Rightarrow>
          if gv_pending_price (tr_gov s) \<noteq> None then Inl (Err TrProposalPending)
          else
          andThen (unlock_time E s) (\<lambda>executable_at.
            Inr (tr_publish (EvPricePolicyProposed old policy executable_at)
              (upd_gov (\<lambda>v. v\<lparr>gv_pending_price := Some \<lparr>pq_policy = policy, pq_proposed_at = e_now E,
                 pq_executable_at = executable_at\<rparr>\<rparr>) s))))))"

definition execute_price_policy :: "env \<Rightarrow> 'w tr \<Rightarrow> 'w tr tr_res" where
  "execute_price_policy E s =
     andThen (ok_or TrNoPendingConfig (gv_pending_price (tr_gov s))) (\<lambda>pending.
     if e_now E < pq_executable_at pending then Inl (Err TrTimelockActive)
     else let old = load_price_policy s in
       Inr (tr_publish (EvPricePolicySet old (pq_policy pending) False)
         (upd_gov (\<lambda>v. v\<lparr>gv_price_policy := Some (pq_policy pending), gv_pending_price := None\<rparr>) s)))"

definition cancel_price_policy :: "env \<Rightarrow> 'w tr \<Rightarrow> 'w tr tr_res" where
  "cancel_price_policy E s =
     andThen (tr_require_admin E s) (\<lambda>_.
     andThen (ok_or TrNoPendingConfig (gv_pending_price (tr_gov s))) (\<lambda>pending.
       Inr (tr_publish (EvPricePolicyCancelled (pq_policy pending))
              (upd_gov (\<lambda>v. v\<lparr>gv_pending_price := None\<rparr>) s))))"

definition pending_price_policy :: "'w tr \<Rightarrow> pending_price_policy_rec option" where
  "pending_price_policy s = gv_pending_price (tr_gov s)"

section \<open>Pausing and drawdown limits\<close>

definition tr_set_paused :: "env \<Rightarrow> bool \<Rightarrow> 'w tr \<Rightarrow> 'w tr tr_res" where
  "tr_set_paused E paused s =
     andThen (tr_require_admin E s) (\<lambda>_.
     if paused
     then Inr (upd_risk (\<lambda>r. r\<lparr>rk_paused := Some True, rk_admin_paused := Some True\<rparr>) s)
     else
     andThen (if flag (rk_tripped (tr_risk s))
              then if \<not> flag (rk_acknowledged (tr_risk s)) then Inl (Err TrNotAcknowledged)
                   else Inr (upd_risk (\<lambda>r. r\<lparr>rk_tripped := Some False, rk_acknowledged := Some False\<rparr>) s)
              else Inr s) (\<lambda>s1.
       Inr (upd_risk (\<lambda>r. r\<lparr>rk_paused := Some False, rk_admin_paused := Some False\<rparr>) s1)))"

definition validate_drawdown_config :: "int \<Rightarrow> nat \<Rightarrow> unit tr_res" where
  "validate_drawdown_config max_drawdown window_days =
     (if max_drawdown \<le> 0 then Inl (Err TrInvalidDrawdownConfig)
      else if \<not> (1 \<le> window_days \<and> window_days \<le> 30) then Inl (Err TrInvalidDrawdownConfig)
      else Inr ())"

definition empty_pnl_days :: "nat \<Rightarrow> nat \<Rightarrow> pnl_days" where
  "empty_pnl_days head_day window_days =
     \<lparr>py_head_day = head_day, py_amounts = replicate window_days 0, py_head_idx = 0\<rparr>"

definition load_drawdown_cfg :: "'w tr \<Rightarrow> drawdown_config tr_res" where
  "load_drawdown_cfg s = ok_or TrNotInitialized (rk_drawdown_cfg (tr_risk s))"

definition acknowledge_drawdown :: "env \<Rightarrow> 'w tr \<Rightarrow> 'w tr tr_res" where
  "acknowledge_drawdown E s =
     andThen (tr_require_admin E s) (\<lambda>_.
       Inr (if flag (rk_tripped (tr_risk s))
            then upd_risk (\<lambda>r. r\<lparr>rk_acknowledged := Some True\<rparr>) s else s))"

definition reset_pnl_window :: "env \<Rightarrow> 'w tr \<Rightarrow> 'w tr tr_res" where
  "reset_pnl_window E s =
     andThen (tr_require_admin E s) (\<lambda>_.
     andThen (load_drawdown_cfg s) (\<lambda>cfg.
     let s1 = upd_risk (\<lambda>r. r\<lparr>rk_pnl_days := Some (empty_pnl_days (e_now E div DAY_SECONDS)
                (dd_window_days cfg))\<rparr>) s in
     andThen (unwrap (gv_admin (tr_gov s1))) (\<lambda>admin. Inr (tr_publish (EvPnlWindowReset admin) s1))))"

definition set_drawdown_config :: "env \<Rightarrow> int \<Rightarrow> nat \<Rightarrow> 'w tr \<Rightarrow> 'w tr tr_res" where
  "set_drawdown_config E max_drawdown window_days s =
     andThen (tr_require_admin E s) (\<lambda>_.
     andThen (validate_drawdown_config max_drawdown window_days) (\<lambda>_.
       Inr (upd_risk (\<lambda>r. r\<lparr>
         rk_drawdown_cfg := Some \<lparr>dd_max_drawdown = max_drawdown, dd_window_days = window_days\<rparr>,
         rk_pnl_days := Some (empty_pnl_days (e_now E div DAY_SECONDS) window_days)\<rparr>) s)))"

section \<open>The policy for creating markets\<close>

fun category_bit :: "category \<Rightarrow> 32 word" where
  "category_bit Crypto = push_bit 0 1"
| "category_bit Macro = push_bit 1 1"
| "category_bit Geopolitics = push_bit 2 1"
| "category_bit Sports = push_bit 3 1"
| "category_bit Culture = push_bit 4 1"
| "category_bit Other = push_bit 5 1"

definition validate_creation_policy :: "global_config \<Rightarrow> creation_policy \<Rightarrow> unit tr_res" where
  "validate_creation_policy g policy =
     (if cp_max_seed policy \<le> 0 \<or> gc_max_market g < cp_max_seed policy then Inl (Err TrInvalidConfig)
      else if cp_max_markets_per_window policy < 1 then Inl (Err TrInvalidConfig)
      else if cp_creation_window_secs policy < CREATION_BUCKETS then Inl (Err TrInvalidConfig)
      else if cp_max_close_horizon policy \<le> cp_min_close_horizon policy then Inl (Err TrInvalidConfig)
      else if cp_allowed_categories policy = 0 \<or> cp_allowed_categories policy AND NOT 0x3F \<noteq> 0
      then Inl (Err TrInvalidConfig)
      else Inr ())"

definition load_creation_policy :: "'w tr \<Rightarrow> creation_policy tr_res" where
  "load_creation_policy s = ok_or TrNotInitialized (rk_creation_policy (tr_risk s))"

definition set_creation_policy :: "'w peers \<Rightarrow> env \<Rightarrow> creation_policy \<Rightarrow> 'w tr \<Rightarrow> 'w tr tr_res" where
  "set_creation_policy P E new s0 =
     andThen (tr_require_admin E s0) (\<lambda>_.
     andThen (load_global P E s0) (\<lambda>(g, s).
     andThen (validate_creation_policy g new) (\<lambda>_.
     andThen (load_creation_policy s) (\<lambda>old.
     if cp_max_seed old < cp_max_seed new
        \<or> cp_max_markets_per_window old < cp_max_markets_per_window new
        \<or> cp_min_close_horizon new < cp_min_close_horizon old
        \<or> cp_max_close_horizon old < cp_max_close_horizon new
        \<or> cp_allowed_categories new AND NOT (cp_allowed_categories old) \<noteq> 0
        \<or> cp_creation_window_secs new < cp_creation_window_secs old
     then Inl (Err TrPolicyLoosening)
     else Inr (tr_publish (EvCreationPolicyUpdated old new)
            (upd_risk (\<lambda>r. r\<lparr>rk_creation_policy := Some new\<rparr>) s))))))"

definition creation_buckets_of :: "'w tr \<Rightarrow> creation_bucket list" where
  "creation_buckets_of s = (case rk_creation_buckets (tr_risk s) of None \<Rightarrow> [] | Some bs \<Rightarrow> bs)"

definition bucket_active :: "creation_policy \<Rightarrow> nat \<Rightarrow> creation_bucket \<Rightarrow> bool" where
  "bucket_active policy now b \<longleftrightarrow> now < sat_add_u64 (cb_bucket_start b) (cp_creation_window_secs policy)"

definition creation_usage :: "env \<Rightarrow> 'w tr \<Rightarrow> nat tr_res" where
  "creation_usage E s =
     andThen (load_creation_policy s) (\<lambda>policy.
       Inr (foldl (\<lambda>tot b. if bucket_active policy (e_now E) b
                           then min u32_max (tot + cb_count b) else tot) 0 (creation_buckets_of s)))"

definition checked_add_u32 :: "nat \<Rightarrow> nat \<Rightarrow> nat option" where
  "checked_add_u32 a b = (if a + b \<le> u32_max then Some (a + b) else None)"

fun active_buckets ::
    "creation_policy \<Rightarrow> nat \<Rightarrow> creation_bucket list \<Rightarrow> nat \<Rightarrow> (nat \<times> creation_bucket list) tr_res" where
  "active_buckets policy now [] tot = Inr (tot, [])"
| "active_buckets policy now (b # bs) tot =
     (if bucket_active policy now b
      then andThen (ok_or TrCreationRateExceeded (checked_add_u32 tot (cb_count b))) (\<lambda>tot'.
           andThen (active_buckets policy now bs tot') (\<lambda>(r, active). Inr (r, b # active)))
      else active_buckets policy now bs tot)"

definition record_creation :: "env \<Rightarrow> creation_policy \<Rightarrow> 'w tr \<Rightarrow> 'w tr tr_res" where
  "record_creation E policy s =
     (let now = e_now E;
          bucket_width = max (cp_creation_window_secs policy div CREATION_BUCKETS) 1 in
      andThen (active_buckets policy now (creation_buckets_of s) 0) (\<lambda>(total_count, active).
      if cp_max_markets_per_window policy \<le> total_count then Inl (Err TrCreationRateExceeded)
      else
      let cur_start = now - now mod bucket_width in
      andThen
        (if active \<noteq> [] \<and> cb_bucket_start (last active) = cur_start
         then andThen (ok_or TrCreationRateExceeded (checked_add_u32 (cb_count (last active)) 1)) (\<lambda>n.
                Inr (butlast active @ [(last active)\<lparr>cb_count := n\<rparr>]))
         else let pushed = active @ [\<lparr>cb_bucket_start = cur_start, cb_count = 1\<rparr>] in
                Inr (drop (length pushed - CREATION_BUCKETS) pushed)) (\<lambda>updated.
        Inr (upd_risk (\<lambda>r. r\<lparr>rk_creation_buckets := Some updated\<rparr>) s))))"

end
