(* ===== verification/TreasuryVaultOps.thy ===== *)
theory TreasuryVaultOps
  imports TreasuryState
begin

text \<open>
  Valuation and the vault entry points of the treasury
  (\<^verbatim>\<open>contracts/treasury/src/lib.rs\<close>): what the holdings in a market are worth, the net asset
  value, deposits and withdrawals; and the placement of idle collateral in a lending pool.
\<close>

section \<open>Valuation\<close>

text \<open>The mirror of market-core's settlement value for final markets.\<close>

definition sat_add :: "int \<Rightarrow> int \<Rightarrow> int" where
  "sat_add a b = saturate_i128 (a + b)"

definition sat_mul :: "int \<Rightarrow> int \<Rightarrow> int" where
  "sat_mul a b = saturate_i128 (a * b)"

fun tr_settle_value :: "market_status \<Rightarrow> int \<Rightarrow> int \<Rightarrow> int" where
  "tr_settle_value (Resolved Yes) yes no = yes"
| "tr_settle_value (Resolved No) yes no = no"
| "tr_settle_value Void yes no = sat_add yes no sdiv 2"
| "tr_settle_value Open yes no = 0"

text \<open>The treasury still owns the pool of a market it created and has not claimed.\<close>

definition owns_pool :: "env \<Rightarrow> market \<Rightarrow> bool" where
  "owns_pool E m \<longleftrightarrow> mk_creator m = e_self E \<and> \<not> mk_lp_claimed m"

definition holdings_value :: "'w peers \<Rightarrow> env \<Rightarrow> address \<Rightarrow> nat \<Rightarrow> 'w \<Rightarrow> (int \<times> int) tr_res" where
  "holdings_value P E core i w =
     andThen (core_call (pr_get_market P core i w)) (\<lambda>m.
     andThen (core_call (pr_get_position P core i (e_self E) w)) (\<lambda>pos.
     let (lp_yes, lp_no) = (if owns_pool E m then (mk_reserve_yes m, mk_reserve_no m) else (0, 0)) in
     if mk_status m = Open
     then let flr = sat_add (min (ps_yes pos) (ps_no pos)) (min lp_yes lp_no);
              reserves = sat_add (mk_reserve_yes m) (mk_reserve_no m);
              p_yes = (if 0 < reserves then sat_mul (mk_reserve_no m) BPS sdiv reserves else BPS sdiv 2);
              yes = sat_add (ps_yes pos) lp_yes;
              no = sat_add (ps_no pos) lp_no in
       andThen (sub_i128 BPS p_yes) (\<lambda>p_no.
         Inr (flr, sat_add (sat_mul yes p_yes) (sat_mul no p_no) sdiv BPS))
     else let final = sat_add (tr_settle_value (mk_status m) (ps_yes pos) (ps_no pos))
                              (tr_settle_value (mk_status m) lp_yes lp_no)
       in Inr (final, final)))"

fun add_holdings :: "'w peers \<Rightarrow> env \<Rightarrow> open_index \<Rightarrow> 'w \<Rightarrow> nat list \<Rightarrow> int \<Rightarrow> int tr_res" where
  "add_holdings P E ix w [] tot = Inr tot"
| "add_holdings P E ix w (k # ks) tot =
     andThen (ok_or TrNotInitialized (oi_at ix k)) (\<lambda>entry.
     andThen (holdings_value P E (om_core entry) (om_market_id entry) w) (\<lambda>(flr, spot).
     andThen (ok_or TrInvalidAmount (checked_add tot flr)) (\<lambda>tot'.
       add_holdings P E ix w ks tot')))"

definition compute_nav :: "'w peers \<Rightarrow> env \<Rightarrow> global_config \<Rightarrow> 'w tr \<Rightarrow> int tr_res" where
  "compute_nav P E g s =
     andThen (add_holdings P E (tr_index s) (tr_world s) [0..<open_count (tr_index s)] (idle P E g s)) (\<lambda>tot.
       Inr (max 0 (saturate_i128 (tot - reserved (tr_vault s)))))"

definition nav :: "'w peers \<Rightarrow> env \<Rightarrow> 'w tr \<Rightarrow> (int \<times> 'w tr) tr_res" where
  "nav P E s0 =
     andThen (load_global P E s0) (\<lambda>(g, s). andThen (compute_nav P E g s) (\<lambda>n. Inr (n, s)))"

definition market_valuation :: "'w peers \<Rightarrow> env \<Rightarrow> nat \<Rightarrow> 'w tr \<Rightarrow> (valuation \<times> 'w tr) tr_res" where
  "market_valuation P E i s0 =
     andThen (load_global P E s0) (\<lambda>(g, s).
     andThen (holdings_value P E (gc_market_core g) i (tr_world s)) (\<lambda>(floor_value, spot_value).
     let basis = cost_basis (load_net (gc_market_core g) i s) in
       Inr (\<lparr>va_cost_basis = basis, va_floor_value = floor_value, va_spot_value = spot_value,
             va_at_risk = max 0 (saturate_i128 (basis - floor_value))\<rparr>, s)))"

section \<open>Deposits and withdrawals\<close>

definition deposit :: "'w peers \<Rightarrow> env \<Rightarrow> address \<Rightarrow> int \<Rightarrow> 'w tr \<Rightarrow> (int \<times> 'w tr) tr_res" where
  "deposit P E from amount s0 =
     andThen (tr_assert_not_paused s0) (\<lambda>_.
     andThen (load_global P E s0) (\<lambda>(g, s).
     andThen (require_auth E from) (\<lambda>_.
     if amount \<le> 0 then Inl (Err TrInvalidAmount)
     else if amount < MIN_DEPOSIT then Inl (Err TrDepositTooSmall)
     else
     andThen (compute_nav P E g s) (\<lambda>n.
     andThen (pay P E g from (e_self E) amount s) (\<lambda>s1.
     andThen (tr_mint from amount n s1) (\<lambda>(credited, s2).
       Inr (credited, tr_publish (EvDeposited from amount credited n) s2)))))))"

definition request_withdraw ::
    "'w peers \<Rightarrow> env \<Rightarrow> address \<Rightarrow> int \<Rightarrow> 'w tr \<Rightarrow> ((int \<times> nat) \<times> 'w tr) tr_res" where
  "request_withdraw P E owner shares s0 =
     andThen (load_global P E s0) (\<lambda>(g, s).
     andThen (require_auth E owner) (\<lambda>_.
     if shares \<le> 0 then Inl (Err TrInvalidAmount)
     else if shares_of owner (tr_vault s) < shares then Inl (Err TrInsufficientShares)
     else
     andThen (compute_nav P E g s) (\<lambda>n.
     andThen (ok_or TrInvalidAmount (assets_for_shares shares n (share_supply (tr_vault s)))) (\<lambda>assets.
     if assets \<le> 0 then Inl (Err TrInvalidAmount)
     else
     andThen (burn_shares owner shares (tr_vault s)) (\<lambda>v.
     let s1 = s\<lparr>tr_vault := v\<rparr>;
         res = reserved v;
         free = max 0 (saturate_i128 (idle P E g s1 - res));
         paid_now = min assets free in
     andThen (if 0 < paid_now then pay P E g (e_self E) owner paid_now s1 else Inr s1) (\<lambda>s2.
     andThen (sub_i128 assets paid_now) (\<lambda>remaining.
     andThen (if 0 < remaining
              then andThen (queue_ticket owner remaining (e_now E) res (tr_vault s2)) (\<lambda>(i, v').
                     Inr (i, s2\<lparr>tr_vault := v'\<rparr>))
              else Inr (0, s2)) (\<lambda>(ticket_id, s3).
       Inr ((paid_now, ticket_id),
            tr_publish (EvWithdrawRequested owner shares assets paid_now ticket_id) s3)))))))))"

definition claim_withdraw :: "'w peers \<Rightarrow> env \<Rightarrow> nat \<Rightarrow> 'w tr \<Rightarrow> (int \<times> 'w tr) tr_res" where
  "claim_withdraw P E ticket_id s0 =
     andThen (load_global P E s0) (\<lambda>(g, s).
     andThen (ok_or TrTicketNotFound (vl_tickets (tr_vault s) ticket_id)) (\<lambda>ticket.
     if ticket_id \<noteq> queue_head (tr_vault s) then Inl (Err TrNothingToPay)
     else let amount = min (wt_remaining ticket) (idle P E g s) in
     if amount \<le> 0 then Inl (Err TrNothingToPay)
     else
     andThen (pay P E g (e_self E) (wt_owner ticket) amount s) (\<lambda>s1.
     andThen (pay_ticket ticket_id ticket amount (tr_vault s1)) (\<lambda>v.
       Inr (amount, tr_publish (EvWithdrawPaid ticket_id amount) (s1\<lparr>tr_vault := v\<rparr>))))))"

definition emergency_withdraw :: "'w peers \<Rightarrow> env \<Rightarrow> address \<Rightarrow> int \<Rightarrow> 'w tr \<Rightarrow> (int \<times> 'w tr) tr_res" where
  "emergency_withdraw P E owner shares s0 =
     andThen (load_global P E s0) (\<lambda>(g, s).
     andThen (require_auth E owner) (\<lambda>_.
     if \<not> is_paused s then Inl (Err TrNotPaused)
     else if shares \<le> 0 then Inl (Err TrInvalidAmount)
     else let free = max 0 (saturate_i128 (idle P E g s - reserved (tr_vault s))) in
     andThen (ok_or TrInvalidAmount (checked_add (share_supply (tr_vault s)) VIRTUAL_SHARES)) (\<lambda>total_shares.
     andThen (ok_or TrInvalidAmount (tr_mul_div_floor shares free total_shares)) (\<lambda>amount.
     andThen (burn_shares owner shares (tr_vault s)) (\<lambda>v.
     let s1 = s\<lparr>tr_vault := v\<rparr> in
     andThen (if 0 < amount then pay P E g (e_self E) owner amount s1 else Inr s1) (\<lambda>s2.
       Inr (amount, tr_publish (EvEmergencyWithdrawn owner shares amount) s2)))))))"

section \<open>Lending\<close>

definition yield_principal :: "'w tr \<Rightarrow> int" where
  "yield_principal s = (case yl_principal (tr_yield s) of None \<Rightarrow> 0 | Some p \<Rightarrow> p)"

definition set_principal :: "int \<Rightarrow> 'w tr \<Rightarrow> 'w tr" where
  "set_principal p s = s\<lparr>tr_yield := (tr_yield s)\<lparr>yl_principal := Some p\<rparr>\<rparr>"

definition yield_value :: "'w peers \<Rightarrow> env \<Rightarrow> 'w tr \<Rightarrow> int tr_res" where
  "yield_value P E s =
     (case yl_venue (tr_yield s) of None \<Rightarrow> Inr 0
      | Some venue \<Rightarrow> andThen (unwrap (pr_positions P (yv_pool venue) (e_self E) (tr_world s)))
                        (\<lambda>pos. Inr (bp_supply_shares pos)))"

definition submit_request ::
    "'w peers \<Rightarrow> env \<Rightarrow> yield_venue \<Rightarrow> nat \<Rightarrow> address \<Rightarrow> int \<Rightarrow> 'w tr \<Rightarrow> 'w tr tr_res" where
  "submit_request P E venue kind asset amount s =
     andThen (ok_or TrYieldWithdrawFailed
       (pr_submit P E (yv_pool venue) (e_self E) (e_self E) (e_self E)
          [\<lparr>bl_request_type = kind, bl_address = asset, bl_amount = amount\<rparr>] (tr_world s))) (\<lambda>w.
       Inr (s\<lparr>tr_world := w\<rparr>))"

definition ensure_liquid :: "'w peers \<Rightarrow> env \<Rightarrow> global_config \<Rightarrow> int \<Rightarrow> 'w tr \<Rightarrow> 'w tr tr_res" where
  "ensure_liquid P E g needed s =
     (if needed \<le> idle P E g s then Inr s
      else
      andThen (case yl_venue (tr_yield s) of
                 Some v \<Rightarrow> if yv_enabled v then Inr v else Inl (Err TrInsufficientBalance)
               | None \<Rightarrow> Inl (Err TrInsufficientBalance)) (\<lambda>venue.
      andThen (sub_i128 needed (idle P E g s)) (\<lambda>shortfall.
      let to_withdraw = sat_add shortfall 1 in
      andThen (submit_request P E venue BLEND_REQUEST_WITHDRAW (gc_collateral g) to_withdraw s) (\<lambda>s1.
      let new_principal = max 0 (saturate_i128 (yield_principal s1 - to_withdraw));
          s2 = tr_publish (EvYieldRecalled (yv_pool venue) to_withdraw new_principal ''jit'')
                 (set_principal new_principal s1) in
      if idle P E g s2 < needed then Inl (Err TrInsufficientBalance) else Inr s2))))"

definition set_yield_venue :: "env \<Rightarrow> address \<Rightarrow> int \<Rightarrow> 'w tr \<Rightarrow> 'w tr tr_res" where
  "set_yield_venue E pool max_allocation s =
     andThen (tr_require_admin E s) (\<lambda>_.
     if max_allocation \<le> 0 then Inl (Err TrInvalidAmount)
     else if 0 < yield_principal s then Inl (Err TrVenueHasPrincipal)
     else Inr (tr_publish (EvYieldVenueSet pool max_allocation)
       (s\<lparr>tr_yield := (tr_yield s)\<lparr>yl_venue := Some \<lparr>yv_pool = pool, yv_max_allocation = max_allocation,
                                                    yv_enabled = True\<rparr>\<rparr>\<rparr>)))"

definition allocate_to_yield :: "'w peers \<Rightarrow> env \<Rightarrow> int \<Rightarrow> 'w tr \<Rightarrow> 'w tr tr_res" where
  "allocate_to_yield P E amount s0 =
     andThen (tr_require_admin E s0) (\<lambda>_.
     if amount \<le> 0 then Inl (Err TrInvalidAmount)
     else
     andThen (ok_or TrYieldDisabled (yl_venue (tr_yield s0))) (\<lambda>venue.
     if \<not> yv_enabled venue then Inl (Err TrYieldDisabled)
     else
     andThen (ok_or TrInvalidAmount (checked_add (yield_principal s0) amount)) (\<lambda>new_principal.
     if yv_max_allocation venue < new_principal then Inl (Err TrYieldCapExceeded)
     else
     andThen (load_global P E s0) (\<lambda>(g, s).
     if saturate_i128 (idle P E g s - amount) < gc_max_daily g then Inl (Err TrDailyCapExceeded)
     else
     andThen (submit_request P E venue BLEND_REQUEST_SUPPLY (gc_collateral g) amount s) (\<lambda>s1.
       Inr (tr_publish (EvYieldAllocated (yv_pool venue) amount new_principal)
              (set_principal new_principal s1)))))))"

definition recall_from_yield :: "'w peers \<Rightarrow> env \<Rightarrow> int \<Rightarrow> 'w tr \<Rightarrow> 'w tr tr_res" where
  "recall_from_yield P E amount s0 =
     andThen (tr_require_admin E s0) (\<lambda>_.
     if amount \<le> 0 then Inl (Err TrInvalidAmount)
     else
     andThen (ok_or TrYieldDisabled (yl_venue (tr_yield s0))) (\<lambda>venue.
     andThen (load_global P E s0) (\<lambda>(g, s).
     andThen (submit_request P E venue BLEND_REQUEST_WITHDRAW (gc_collateral g) amount s) (\<lambda>s1.
     let new_principal = max 0 (saturate_i128 (yield_principal s1 - amount)) in
       Inr (tr_publish (EvYieldRecalled (yv_pool venue) amount new_principal ''admin'')
              (set_principal new_principal s1))))))"

definition disable_yield :: "env \<Rightarrow> 'w tr \<Rightarrow> 'w tr tr_res" where
  "disable_yield E s =
     andThen (tr_require_admin E s) (\<lambda>_.
       Inr (case yl_venue (tr_yield s) of None \<Rightarrow> s
            | Some venue \<Rightarrow> s\<lparr>tr_yield := (tr_yield s)\<lparr>yl_venue := Some (venue\<lparr>yv_enabled := False\<rparr>)\<rparr>\<rparr>))"

definition withdraw :: "'w peers \<Rightarrow> env \<Rightarrow> address \<Rightarrow> int \<Rightarrow> 'w tr \<Rightarrow> 'w tr tr_res" where
  "withdraw P E to amount s0 =
     andThen (tr_require_admin E s0) (\<lambda>_.
     if amount \<le> 0 then Inl (Err TrInvalidAmount)
     else
     andThen (load_global P E s0) (\<lambda>(g, s).
     andThen (ensure_liquid P E g amount s) (\<lambda>s1.
     if idle P E g s1 < amount then Inl (Err TrInsufficientBalance)
     else pay P E g (e_self E) to amount s1)))"

section \<open>Views\<close>

definition available_capital :: "'w peers \<Rightarrow> env \<Rightarrow> 'w tr \<Rightarrow> (int \<times> 'w tr) tr_res" where
  "available_capital P E s0 =
     andThen (load_global P E s0) (\<lambda>(g, s).
     andThen (yield_value P E s) (\<lambda>y. Inr (sat_add (idle P E g s) y, s)))"

definition liquid_capital :: "'w peers \<Rightarrow> env \<Rightarrow> 'w tr \<Rightarrow> (int \<times> 'w tr) tr_res" where
  "liquid_capital P E s0 = andThen (load_global P E s0) (\<lambda>(g, s). Inr (idle P E g s, s))"

definition capital_breakdown :: "'w peers \<Rightarrow> env \<Rightarrow> 'w tr \<Rightarrow> (capital_breakdown_rec \<times> 'w tr) tr_res" where
  "capital_breakdown P E s0 =
     andThen (load_global P E s0) (\<lambda>(g, s).
     andThen (yield_value P E s) (\<lambda>y.
       Inr (\<lparr>ca_liquid = idle P E g s, ca_yield_principal = yield_principal s, ca_yield_value = y\<rparr>, s)))"

definition get_risk_config :: "'w peers \<Rightarrow> env \<Rightarrow> 'w tr \<Rightarrow> (risk_config \<times> 'w tr) tr_res" where
  "get_risk_config P E s0 =
     andThen (load_global P E s0) (\<lambda>(g, s).
     andThen (ok_or TrNotInitialized (ag_at (tr_agents s) 0)) (\<lambda>agent.
       Inr (\<lparr>rc_agent = agent, rc_collateral = gc_collateral g, rc_market_core = gc_market_core g,
             rc_max_trade = gc_max_trade g, rc_max_market = gc_max_market g,
             rc_max_daily = gc_max_daily g\<rparr>, s)))"

definition daily_usage_detail :: "env \<Rightarrow> 'w tr \<Rightarrow> usage_window tr_res" where
  "daily_usage_detail E s = andThen (load_window E s) (\<lambda>w. advance w (e_now E div BUCKET_SECONDS))"

definition daily_usage :: "env \<Rightarrow> 'w tr \<Rightarrow> daily_usage_rec tr_res" where
  "daily_usage E s = andThen (daily_usage_detail E s) summarize"

definition daily_headroom :: "'w peers \<Rightarrow> env \<Rightarrow> 'w tr \<Rightarrow> (int \<times> 'w tr) tr_res" where
  "daily_headroom P E s0 =
     andThen (load_global P E s0) (\<lambda>(g, s).
     andThen (daily_usage E s) (\<lambda>u. Inr (max 0 (saturate_i128 (gc_max_daily g - du_amount u)), s)))"

definition agent_daily_usage :: "env \<Rightarrow> address \<Rightarrow> 'w tr \<Rightarrow> daily_usage_rec tr_res" where
  "agent_daily_usage E agent s =
     andThen (advance (load_agent_window E agent s) (e_now E div BUCKET_SECONDS)) summarize"

definition get_net_cap :: "'w peers \<Rightarrow> env \<Rightarrow> 'w tr \<Rightarrow> (int \<times> 'w tr) tr_res" where
  "get_net_cap P E s0 = andThen (load_global P E s0) (\<lambda>(g, s). Inr (gc_max_net_exposure g, s))"

definition net_exposure :: "'w tr \<Rightarrow> int" where
  "net_exposure s = net_total (tr_net s)"

definition net_position :: "'w peers \<Rightarrow> env \<Rightarrow> nat \<Rightarrow> 'w tr \<Rightarrow> (net_position_rec \<times> 'w tr) tr_res" where
  "net_position P E i s0 =
     andThen (load_global P E s0) (\<lambda>(g, s). Inr (load_net (gc_market_core g) i s, s))"

definition withdraw_ticket :: "nat \<Rightarrow> 'w tr \<Rightarrow> withdraw_ticket_rec option" where
  "withdraw_ticket i s = vl_tickets (tr_vault s) i"

definition queue_bounds :: "'w tr \<Rightarrow> nat \<times> nat" where
  "queue_bounds s = (queue_head (tr_vault s), queue_tail (tr_vault s))"

definition open_market_at :: "nat \<Rightarrow> 'w tr \<Rightarrow> open_market option" where
  "open_market_at i s = oi_at (tr_index s) i"

end
