(* ===== verification/TreasuryTrade.thy ===== *)
theory TreasuryTrade
  imports TreasuryGov TreasuryVaultOps
begin

text \<open>
  The treasury's trading, settlement and migration entry points
  (\<^verbatim>\<open>contracts/treasury/src/lib.rs\<close>): creating markets, price-checked buying and selling for the
  agents, redeeming and claiming with the profit-and-loss accounting and the drawdown pause, and
  the constructor. Authorisation entries for nested token transfers change no state; the
  authorised transfers are part of the calls of \<open>'w peers\<close>.
\<close>

section \<open>Construction\<close>

definition tr_deployed :: "'w \<Rightarrow> 'w tr" where
  "tr_deployed w =
     \<lparr>tr_gov = \<lparr>gv_admin = None, gv_config = None, gv_net_cap = None, gv_global = None,
        gv_config_delay = None, gv_pending_config = None, gv_original_core = None,
        gv_legacy_cores = Map.empty, gv_price_policy = None, gv_pending_price = None,
        gv_successor = None\<rparr>,
      tr_agents = \<lparr>ag_count = None, ag_at = Map.empty, ag_policies = Map.empty,
        ag_pending = Map.empty, ag_windows = Map.empty\<rparr>,
      tr_risk = \<lparr>rk_paused = None, rk_admin_paused = None, rk_tripped = None,
        rk_acknowledged = None, rk_drawdown_cfg = None, rk_pnl_days = None, rk_pnl = Map.empty,
        rk_realized = Map.empty, rk_creation_policy = None, rk_creation_buckets = None\<rparr>,
      tr_yield = \<lparr>yl_venue = None, yl_principal = None\<rparr>,
      tr_usage = None, tr_daily = None, tr_exposure = Map.empty,
      tr_net = \<lparr>nb_total = None, nb_net = Map.empty\<rparr>, tr_index = empty_index,
      tr_vault = empty_vault, tr_world = w, tr_events = []\<rparr>"

definition tr_constructor ::
    "'w peers \<Rightarrow> env \<Rightarrow> address \<Rightarrow> address \<Rightarrow> global_config \<Rightarrow> nat \<Rightarrow> int \<Rightarrow> nat \<Rightarrow> creation_policy
      \<Rightarrow> 'w tr \<Rightarrow> 'w tr tr_res" where
  "tr_constructor P E admin agent g config_delay max_drawdown window_days policy s =
     andThen (validate_global g) (\<lambda>_.
     if config_delay < MIN_CONFIG_DELAY then Inl (Err TrInvalidConfig)
     else
     andThen (validate_drawdown_config max_drawdown window_days) (\<lambda>_.
     andThen (validate_creation_policy g policy) (\<lambda>_.
     let s1 = upd_gov (\<lambda>v. v\<lparr>gv_admin := Some admin, gv_global := Some g,
                gv_original_core := Some (gc_market_core g), gv_config_delay := Some config_delay,
                gv_price_policy := Some DEFAULT_PRICE_POLICY\<rparr>) s;
         s2 = s1\<lparr>tr_usage := Some (empty_window (e_now E div BUCKET_SECONDS))\<rparr>;
         s3 = set_principal 0 (upd_risk (\<lambda>r. r\<lparr>rk_paused := Some False, rk_admin_paused := Some False,
                rk_tripped := Some False, rk_acknowledged := Some False,
                rk_drawdown_cfg := Some \<lparr>dd_max_drawdown = max_drawdown, dd_window_days = window_days\<rparr>,
                rk_pnl_days := Some (empty_pnl_days (e_now E div DAY_SECONDS) window_days),
                rk_creation_policy := Some policy, rk_creation_buckets := Some []\<rparr>) s2) in
     andThen (write_agent agent \<lparr>ap_roles = ROLE_ALL, ap_max_trade = gc_max_trade g,
                ap_max_daily = gc_max_daily g, ap_active = True\<rparr> s3) (\<lambda>s4.
     if 0 < idle P E g s4
     then andThen (tr_mint admin (idle P E g s4) 0 s4) (\<lambda>(credited, s5). Inr s5)
     else Inr s4))))"

section \<open>Profit and loss\<close>

definition load_pnl :: "nat \<Rightarrow> 'w tr \<Rightarrow> market_pnl_rec" where
  "load_pnl i s = (case rk_pnl (tr_risk s) i of
     None \<Rightarrow> \<lparr>pl_cost = 0, pl_proceeds = 0, pl_realized = False\<rparr> | Some p \<Rightarrow> p)"

definition save_pnl :: "nat \<Rightarrow> market_pnl_rec \<Rightarrow> 'w tr \<Rightarrow> 'w tr" where
  "save_pnl i p = upd_risk (\<lambda>r. r\<lparr>rk_pnl := (rk_pnl r)(i \<mapsto> p)\<rparr>)"

definition load_realized :: "nat \<Rightarrow> 'w tr \<Rightarrow> realized_rec" where
  "load_realized i s = (case rk_realized (tr_risk s) i of
     None \<Rightarrow> \<lparr>re_position_proceeds = 0, re_lp_proceeds = 0, re_settled = False\<rparr> | Some r \<Rightarrow> r)"

definition save_realized :: "nat \<Rightarrow> realized_rec \<Rightarrow> 'w tr \<Rightarrow> 'w tr" where
  "save_realized i x = upd_risk (\<lambda>r. r\<lparr>rk_realized := (rk_realized r)(i \<mapsto> x)\<rparr>)"

definition record_cost :: "nat \<Rightarrow> int \<Rightarrow> 'w tr \<Rightarrow> 'w tr tr_res" where
  "record_cost i amount s =
     (if amount \<le> 0 then Inr s
      else let p = load_pnl i s in
        andThen (ok_or TrInvalidAmount (checked_add (pl_cost p) amount)) (\<lambda>c.
          Inr (save_pnl i (p\<lparr>pl_cost := c\<rparr>) s)))"

definition record_proceeds :: "nat \<Rightarrow> int \<Rightarrow> 'w tr \<Rightarrow> 'w tr tr_res" where
  "record_proceeds i amount s =
     (if amount \<le> 0 then Inr s
      else let p = load_pnl i s in
        andThen (ok_or TrInvalidAmount (checked_add (pl_proceeds p) amount)) (\<lambda>c.
          Inr (save_pnl i (p\<lparr>pl_proceeds := c\<rparr>) s)))"

definition advance_pnl_days :: "pnl_days \<Rightarrow> nat \<Rightarrow> nat \<Rightarrow> pnl_days tr_res" where
  "advance_pnl_days days now_day window_days =
     (if now_day \<le> py_head_day days then Inr days
      else let delta = (now_day - py_head_day days) mod 2 ^ 32 in
        andThen (ring_clear window_days (min delta window_days) (py_amounts days) (py_head_idx days))
          (\<lambda>(amounts, idx).
          Inr \<lparr>py_head_day = now_day, py_amounts = amounts, py_head_idx = idx\<rparr>))"

definition add_daily_pnl :: "env \<Rightarrow> int \<Rightarrow> 'w tr \<Rightarrow> 'w tr tr_res" where
  "add_daily_pnl E pnl s =
     andThen (load_drawdown_cfg s) (\<lambda>cfg.
     andThen (ok_or TrNotInitialized (rk_pnl_days (tr_risk s))) (\<lambda>days0.
     andThen (advance_pnl_days days0 (e_now E div DAY_SECONDS) (dd_window_days cfg)) (\<lambda>days.
     let curr = (if py_head_idx days < length (py_amounts days)
                 then py_amounts days ! py_head_idx days else 0) in
     andThen (ok_or TrInvalidAmount (checked_add curr pnl)) (\<lambda>x.
     andThen (vec_set (py_head_idx days) x (py_amounts days)) (\<lambda>amounts.
       Inr (upd_risk (\<lambda>r. r\<lparr>rk_pnl_days := Some (days\<lparr>py_amounts := amounts\<rparr>)\<rparr>) s))))))"

definition calc_window_pnl :: "env \<Rightarrow> 'w tr \<Rightarrow> int tr_res" where
  "calc_window_pnl E s =
     andThen (load_drawdown_cfg s) (\<lambda>cfg.
     andThen (ok_or TrNotInitialized (rk_pnl_days (tr_risk s))) (\<lambda>days0.
     andThen (advance_pnl_days days0 (e_now E div DAY_SECONDS) (dd_window_days cfg)) (\<lambda>days.
       sum_checked TrInvalidAmount (take (dd_window_days cfg) (py_amounts days)) 0)))"

definition check_drawdown :: "env \<Rightarrow> nat \<Rightarrow> 'w tr \<Rightarrow> 'w tr tr_res" where
  "check_drawdown E i s =
     andThen (calc_window_pnl E s) (\<lambda>wpnl.
     andThen (load_drawdown_cfg s) (\<lambda>cfg.
     andThen (sub_i128 0 (dd_max_drawdown cfg)) (\<lambda>limit.
     if wpnl < limit \<and> \<not> flag (rk_tripped (tr_risk s))
     then andThen (sub_nat (dd_window_days cfg) 1) (\<lambda>back.
          andThen (sub_i128 0 wpnl) (\<lambda>loss.
            Inr (tr_publish (EvDrawdownPause loss (e_now E div DAY_SECONDS - back) i)
              (upd_risk (\<lambda>r. r\<lparr>rk_paused := Some True, rk_tripped := Some True,
                               rk_acknowledged := Some False\<rparr>) s))))
     else Inr s)))"

text \<open>Whether the treasury holds nothing in a market any more.\<close>

definition settled_in :: "env \<Rightarrow> position \<Rightarrow> market \<Rightarrow> bool" where
  "settled_in E pos m \<longleftrightarrow> ps_yes pos = 0 \<and> ps_no pos = 0
     \<and> (mk_creator m \<noteq> e_self E \<or> mk_lp_claimed m)"

definition try_realize :: "'w peers \<Rightarrow> env \<Rightarrow> address \<Rightarrow> nat \<Rightarrow> 'w tr \<Rightarrow> 'w tr tr_res" where
  "try_realize P E core i s =
     andThen (core_must (pr_get_market P core i (tr_world s))) (\<lambda>m.
     if mk_status m = Open then Inr s
     else
     andThen (core_must (pr_get_position P core i (e_self E) (tr_world s))) (\<lambda>pos.
     let p = load_pnl i s in
     if settled_in E pos m \<and> \<not> pl_realized p
     then andThen (ok_or TrInvalidAmount (checked_sub (pl_proceeds p) (pl_cost p))) (\<lambda>net_pnl.
          andThen (add_daily_pnl E net_pnl s) (\<lambda>s1.
          check_drawdown E i
            (tr_publish (EvPnlRealized i (pl_cost p) (pl_proceeds p) net_pnl)
              (save_pnl i (p\<lparr>pl_realized := True\<rparr>) s1))))
     else Inr s))"

definition realize :: "'w peers \<Rightarrow> env \<Rightarrow> nat \<Rightarrow> 'w tr \<Rightarrow> 'w tr tr_res" where
  "realize P E i s0 =
     andThen (load_global P E s0) (\<lambda>(g, s). try_realize P E (gc_market_core g) i s)"

definition drawdown_status :: "env \<Rightarrow> 'w tr \<Rightarrow> drawdown_status_rec tr_res" where
  "drawdown_status E s =
     andThen (load_drawdown_cfg s) (\<lambda>cfg.
     andThen (calc_window_pnl E s) (\<lambda>wpnl.
       Inr \<lparr>ds_tripped = flag (rk_tripped (tr_risk s)), ds_window_pnl = wpnl,
            ds_max_drawdown = dd_max_drawdown cfg\<rparr>))"

section \<open>Calls of market-core\<close>

definition map_market_core_code :: "mc_error \<Rightarrow> tr_error" where
  "map_market_core_code e =
     (if e = McMarketNotFound then CoreMarketNotFound
      else if e = McNotFinal then CoreNotFinal
      else if e = McMarketNotOpen then CoreMarketNotOpen
      else if e = McMarketClosed then CoreMarketClosed
      else if e = McInsufficientLiquidity then CoreInsufficientLiquidity
      else if e = McInsufficientShares then CoreInsufficientShares
      else if e = McAlreadyClaimed then CoreAlreadyClaimed
      else if e = McNothingToRedeem then CoreNothingToRedeem
      else if e = McInvalidAmount then CoreInvalidAmount
      else if e = McOverflow then CoreOverflow
      else if e = McSlippageExceeded then CoreSlippageExceeded
      else CoreCallFailed)"

text \<open>The function called is the plain one or, with a limit price and deadline, its \<open>_v2\<close>.\<close>

definition push_bound :: "(nat \<times> nat) option \<Rightarrow> symbol \<Rightarrow> symbol \<Rightarrow> symbol" where
  "push_bound bound plain bounded = (case bound of Some _ \<Rightarrow> bounded | None \<Rightarrow> plain)"

fun core_trade :: "(mc_error, 'a) res \<Rightarrow> 'a tr_res" where
  "core_trade (Inr x) = Inr x"
| "core_trade (Inl (Err e)) =
     (if e = McSlippageExceeded then Inl (Err TrSlippageExceeded)
      else Inl (Err (map_market_core_code e)))"
| "core_trade (Inl Trap) = Inl (Err CoreCallFailed)"

lemma core_trade_eq [res_simps]: "core_trade r = Inr x \<longleftrightarrow> r = Inr x"
  by (cases r rule: core_trade.cases) auto

text \<open>A settlement call for which one error means that there is nothing left to pay.\<close>

fun settle_call :: "mc_error \<Rightarrow> 'w \<Rightarrow> (mc_error, int \<times> 'w) res \<Rightarrow> (int \<times> 'w) tr_res" where
  "settle_call none w (Inr r) = Inr r"
| "settle_call none w (Inl (Err e)) =
     (if e = none then Inr (0, w)
      else if e = McNotFinal then Inl (Err TrMarketNotFinal)
      else Inl (Err TrMarketCoreError))"
| "settle_call none w (Inl Trap) = Inl (Err TrMarketCoreError)"

section \<open>Trading\<close>

definition resolve_commitment :: "'w peers \<Rightarrow> resolution_spec_v2 \<Rightarrow> bytesN tr_res" where
  "resolve_commitment P spec =
     (if v2_version spec \<noteq> SPEC_V2_VERSION \<or> v2_salt spec = replicate 32 0
      then Inl (Err TrInvalidResolution)
      else if v2_network_id spec \<noteq> pr_network_id P then Inl (Err TrInvalidResolution)
      else if \<not> (case v2_rule spec of
                   Price cfg \<Rightarrow> 0 \<le> pc_threshold cfg \<and> pc_max_staleness cfg \<noteq> 0
                 | Signers cfg \<Rightarrow> sc_signers cfg \<noteq> [] \<and> sc_threshold cfg \<noteq> 0
                     \<and> sc_threshold cfg \<le> length (sc_signers cfg) \<and> sc_dispute_window cfg \<noteq> 0
                 | _ \<Rightarrow> False)
      then Inl (Err TrInvalidResolution)
      else Inr (pr_sha256 P (map of_char SPEC_DOMAIN @ pr_to_xdr P spec)))"

definition agent_create_market ::
    "'w peers \<Rightarrow> env \<Rightarrow> address \<Rightarrow> bytesN \<Rightarrow> bytesN \<Rightarrow> symbol \<Rightarrow> category \<Rightarrow> nat \<Rightarrow> int \<Rightarrow> nat \<Rightarrow> 'w tr
      \<Rightarrow> (nat \<times> 'w tr) tr_res" where
  "agent_create_market P E agent question_hash resolution_hash meta_uri cat close_time seed_amount
       initial_yes_bps s0 =
     andThen (tr_assert_not_paused s0) (\<lambda>_.
     andThen (load_global P E s0) (\<lambda>(g, s).
     andThen (require_agent E agent ROLE_CREATE s) (\<lambda>policy.
     if seed_amount \<le> 0 then Inl (Err TrInvalidAmount)
     else
     andThen (load_creation_policy s) (\<lambda>creation.
     if cp_max_seed creation < seed_amount then Inl (Err TrSeedCapExceeded)
     else if close_time < e_now E then Inl (Err TrCloseTimeTooSoon)
     else if close_time - e_now E < cp_min_close_horizon creation then Inl (Err TrCloseTimeTooSoon)
     else if cp_max_close_horizon creation < close_time - e_now E then Inl (Err TrCloseTimeTooFar)
     else if category_bit cat AND cp_allowed_categories creation = 0 then Inl (Err TrCategoryNotAllowed)
     else let prices = load_price_policy s in
     if initial_yes_bps < pp_min_sell_price_bps prices \<or> pp_max_buy_price_bps prices < initial_yes_bps
     then Inl (Err TrPriceOutOfBand)
     else
     andThen (record_creation E creation s) (\<lambda>s1.
     andThen (ensure_liquid P E g seed_amount s1) (\<lambda>s2.
     andThen (ensure_unreserved P E g seed_amount s2) (\<lambda>_.
     andThen (core_call (pr_create_market P E (gc_market_core g) (e_self E) question_hash
                resolution_hash meta_uri cat close_time seed_amount initial_yes_bps (tr_world s2)))
       (\<lambda>(i, w).
     andThen (reserve_capacity E g agent policy i seed_amount (s2\<lparr>tr_world := w\<rparr>)) (\<lambda>s3.
     andThen (reserve_net g i seed_amount s3) (\<lambda>s4.
     andThen (record_cost i seed_amount s4) (\<lambda>s5.
       Inr (i, s5))))))))))))"

definition agent_create_market_and_reveal ::
    "'w peers \<Rightarrow> env \<Rightarrow> address \<Rightarrow> address \<Rightarrow> bytesN \<Rightarrow> symbol \<Rightarrow> category \<Rightarrow> nat \<Rightarrow> int \<Rightarrow> nat
      \<Rightarrow> resolution_spec_v2 \<Rightarrow> 'w tr \<Rightarrow> (nat \<times> 'w tr) tr_res" where
  "agent_create_market_and_reveal P E agent resolver question_hash meta_uri cat close_time seed_amount
       initial_yes_bps spec s =
     andThen (resolve_commitment P spec) (\<lambda>resolution_hash.
     andThen (agent_create_market P E agent question_hash resolution_hash meta_uri cat close_time
                seed_amount initial_yes_bps s) (\<lambda>(i, s1).
     andThen (unwrap (pr_register_spec P E resolver i spec (tr_world s1))) (\<lambda>w.
       Inr (i, s1\<lparr>tr_world := w\<rparr>))))"

definition nat_diff :: "nat \<Rightarrow> nat \<Rightarrow> nat" where
  "nat_diff a b = (if a \<le> b then b - a else a - b)"

definition do_agent_buy ::
    "'w peers \<Rightarrow> env \<Rightarrow> address \<Rightarrow> nat \<Rightarrow> outcome \<Rightarrow> int \<Rightarrow> int \<Rightarrow> (nat \<times> nat) option \<Rightarrow> 'w tr
      \<Rightarrow> (int \<times> 'w tr) tr_res" where
  "do_agent_buy P E agent i outcome collateral_in min_shares_out bound s0 =
     andThen (tr_assert_not_paused s0) (\<lambda>_.
     andThen (load_global P E s0) (\<lambda>(g, s).
     andThen (require_agent E agent ROLE_TRADE s) (\<lambda>policy.
     andThen (check_trade_size g policy collateral_in) (\<lambda>_.
     andThen (ensure_unreserved P E g collateral_in s) (\<lambda>_.
     let prices = load_price_policy s; core = gc_market_core g in
     andThen (core_call (pr_get_price P core i outcome (tr_world s))) (\<lambda>p_before.
     if pp_max_buy_price_bps prices < p_before then Inl (Err TrPriceOutOfBand)
     else
     andThen (core_call (pr_quote_buy P core i outcome collateral_in (tr_world s))) (\<lambda>quoted.
     andThen (sub_i128 BPS (int (pp_max_slippage_bps prices))) (\<lambda>keep.
     andThen (ok_or TrInvalidAmount (tr_mul_div_floor quoted keep BPS)) (\<lambda>flr.
     let effective_min = max min_shares_out (max flr 1) in
     andThen (ensure_liquid P E g collateral_in s) (\<lambda>s1.
     andThen (core_trade (pr_trade P E core (push_bound bound ''buy'' ''buy_v2'') (e_self E) i outcome
                collateral_in effective_min bound (tr_world s1))) (\<lambda>(shares, w).
     andThen (core_call (pr_get_price P core i outcome w)) (\<lambda>p_after.
     if pp_max_impact_bps prices < nat_diff p_after p_before then Inl (Err TrPriceImpactExceeded)
     else
     andThen (reserve_capacity E g agent policy i collateral_in (s1\<lparr>tr_world := w\<rparr>)) (\<lambda>s2.
     andThen (reserve_net g i collateral_in s2) (\<lambda>s3.
     andThen (record_cost i collateral_in s3) (\<lambda>s4.
       Inr (shares, s4))))))))))))))))"

definition agent_buy ::
    "'w peers \<Rightarrow> env \<Rightarrow> address \<Rightarrow> nat \<Rightarrow> outcome \<Rightarrow> int \<Rightarrow> int \<Rightarrow> 'w tr \<Rightarrow> (int \<times> 'w tr) tr_res" where
  "agent_buy P E agent i outcome collateral_in min_shares_out s =
     do_agent_buy P E agent i outcome collateral_in min_shares_out None s"

definition agent_buy_v2 ::
    "'w peers \<Rightarrow> env \<Rightarrow> address \<Rightarrow> nat \<Rightarrow> outcome \<Rightarrow> int \<Rightarrow> int \<Rightarrow> nat \<Rightarrow> nat \<Rightarrow> 'w tr
      \<Rightarrow> (int \<times> 'w tr) tr_res" where
  "agent_buy_v2 P E agent i outcome collateral_in min_shares_out limit_price_bps deadline s =
     do_agent_buy P E agent i outcome collateral_in min_shares_out (Some (limit_price_bps, deadline)) s"

definition do_agent_sell ::
    "'w peers \<Rightarrow> env \<Rightarrow> address \<Rightarrow> nat \<Rightarrow> outcome \<Rightarrow> int \<Rightarrow> int \<Rightarrow> (nat \<times> nat) option \<Rightarrow> 'w tr
      \<Rightarrow> (int \<times> 'w tr) tr_res" where
  "do_agent_sell P E agent i outcome collateral_out max_shares_in bound s0 =
     (if flag (rk_admin_paused (tr_risk s0)) then Inl (Err TrPaused)
      else if flag (rk_paused (tr_risk s0)) \<and> \<not> flag (rk_tripped (tr_risk s0)) then Inl (Err TrPaused)
      else
      andThen (load_global P E s0) (\<lambda>(g, s).
      andThen (require_agent E agent ROLE_TRADE s) (\<lambda>policy.
      let prices = load_price_policy s; core = gc_market_core g in
      andThen (core_call (pr_get_price P core i outcome (tr_world s))) (\<lambda>p_before.
      if p_before < pp_min_sell_price_bps prices then Inl (Err TrPriceOutOfBand)
      else
      andThen (core_call (pr_quote_sell P core i outcome collateral_out (tr_world s))) (\<lambda>quoted.
      andThen (add_i128 BPS (int (pp_max_slippage_bps prices))) (\<lambda>stretch.
      andThen (ok_or TrInvalidAmount (tr_mul_div_ceil quoted stretch BPS)) (\<lambda>cap.
      let effective_max = min max_shares_in cap in
      andThen (core_trade (pr_trade P E core (push_bound bound ''sell'' ''sell_v2'') (e_self E) i outcome
                 collateral_out effective_max bound (tr_world s))) (\<lambda>(shares_in, w).
      andThen (core_call (pr_get_price P core i outcome w)) (\<lambda>p_after.
      if pp_max_impact_bps prices < nat_diff p_after p_before then Inl (Err TrPriceImpactExceeded)
      else
      andThen (record_return core i collateral_out (s\<lparr>tr_world := w\<rparr>)) (\<lambda>s1.
      andThen (record_proceeds i collateral_out s1) (\<lambda>s2.
        Inr (shares_in, s2))))))))))))"

definition agent_sell ::
    "'w peers \<Rightarrow> env \<Rightarrow> address \<Rightarrow> nat \<Rightarrow> outcome \<Rightarrow> int \<Rightarrow> int \<Rightarrow> 'w tr \<Rightarrow> (int \<times> 'w tr) tr_res" where
  "agent_sell P E agent i outcome collateral_out max_shares_in s =
     do_agent_sell P E agent i outcome collateral_out max_shares_in None s"

definition agent_sell_v2 ::
    "'w peers \<Rightarrow> env \<Rightarrow> address \<Rightarrow> nat \<Rightarrow> outcome \<Rightarrow> int \<Rightarrow> int \<Rightarrow> nat \<Rightarrow> nat \<Rightarrow> 'w tr
      \<Rightarrow> (int \<times> 'w tr) tr_res" where
  "agent_sell_v2 P E agent i outcome collateral_out max_shares_in limit_price_bps deadline s =
     do_agent_sell P E agent i outcome collateral_out max_shares_in (Some (limit_price_bps, deadline)) s"

definition close_trade :: "'w peers \<Rightarrow> env \<Rightarrow> address \<Rightarrow> nat \<Rightarrow> 'w tr \<Rightarrow> (int \<times> 'w tr) tr_res" where
  "close_trade P E agent i s0 =
     andThen (load_global P E s0) (\<lambda>(g, s).
     andThen (require_agent E agent ROLE_SETTLE s) (\<lambda>_.
     let core = gc_market_core g; exposure = market_exposure core i s in
     if \<not> me_open exposure then Inl (Err TrMarketNotOpen)
     else Inr (me_amount exposure, tr_publish (EvPositionClosed i (me_amount exposure))
            (save_exposure core i (exposure\<lparr>me_open := False\<rparr>) s))))"

section \<open>Settlement\<close>

definition close_market_exposure :: "address \<Rightarrow> nat \<Rightarrow> 'w tr \<Rightarrow> 'w tr" where
  "close_market_exposure core i s =
     (let exposure = market_exposure core i s in
      if me_open exposure then save_exposure core i (exposure\<lparr>me_open := False\<rparr>) s else s)"

definition prune_if_settled :: "'w peers \<Rightarrow> env \<Rightarrow> address \<Rightarrow> nat \<Rightarrow> 'w tr \<Rightarrow> 'w tr tr_res" where
  "prune_if_settled P E core i s =
     (if oi_slot (tr_index s) (core, i) = None then Inr s
      else
      andThen (core_call (pr_get_position P core i (e_self E) (tr_world s))) (\<lambda>pos.
      andThen (core_call (pr_get_market P core i (tr_world s))) (\<lambda>m.
      if ps_yes pos = 0 \<and> ps_no pos = 0 \<and> \<not> owns_pool E m
      then on_index (index_remove core i) s
      else Inr s)))"

text \<open>The end of every settlement: record the proceeds, and when nothing is left close the
  exposure, drop the market from the index and realize its profit or loss.\<close>

definition finish_settlement ::
    "'w peers \<Rightarrow> env \<Rightarrow> address \<Rightarrow> nat \<Rightarrow> realized_rec \<Rightarrow> 'w tr \<Rightarrow> 'w tr tr_res" where
  "finish_settlement P E core i r s =
     andThen (core_must (pr_get_position P core i (e_self E) (tr_world s))) (\<lambda>pos.
     andThen (core_must (pr_get_market P core i (tr_world s))) (\<lambda>m.
     let r' = (if settled_in E pos m then r\<lparr>re_settled := True\<rparr> else r);
         s1 = (if settled_in E pos m then close_market_exposure core i s else s);
         s2 = save_realized i r' s1 in
     andThen (ignore_err s2 (prune_if_settled P E core i s2)) (\<lambda>s3.
     if re_settled r' then try_realize P E core i s3 else Inr s3)))"

text \<open>Money received from a market.\<close>

definition record_payout :: "address \<Rightarrow> nat \<Rightarrow> int \<Rightarrow> 'w tr \<Rightarrow> 'w tr tr_res" where
  "record_payout core i payout s =
     (if 0 < payout
      then andThen (record_return core i payout s) (record_proceeds i payout) else Inr s)"

definition do_redeem :: "'w peers \<Rightarrow> env \<Rightarrow> address \<Rightarrow> nat \<Rightarrow> 'w tr \<Rightarrow> (int \<times> 'w tr) tr_res" where
  "do_redeem P E core i s =
     andThen (settle_call McNothingToRedeem (tr_world s)
                (pr_redeem P E core (e_self E) i (tr_world s))) (\<lambda>(payout, w).
     andThen (record_payout core i payout (s\<lparr>tr_world := w\<rparr>)) (\<lambda>s1.
     let r = load_realized i s1 in
     andThen (ok_or TrInvalidAmount (checked_add (re_position_proceeds r) payout)) (\<lambda>x.
     andThen (finish_settlement P E core i (r\<lparr>re_position_proceeds := x\<rparr>) s1) (\<lambda>s2.
       Inr (payout, s2)))))"

definition do_claim :: "'w peers \<Rightarrow> env \<Rightarrow> address \<Rightarrow> nat \<Rightarrow> 'w tr \<Rightarrow> (int \<times> 'w tr) tr_res" where
  "do_claim P E core i s =
     andThen (settle_call McAlreadyClaimed (tr_world s)
                (pr_claim_pool_remainder P E core i (tr_world s))) (\<lambda>(payout, w).
     andThen (record_payout core i payout (s\<lparr>tr_world := w\<rparr>)) (\<lambda>s1.
     let r = load_realized i s1 in
     andThen (ok_or TrInvalidAmount (checked_add (re_lp_proceeds r) payout)) (\<lambda>x.
     andThen (finish_settlement P E core i (r\<lparr>re_lp_proceeds := x\<rparr>) s1) (\<lambda>s2.
       Inr (payout, s2)))))"

definition tr_redeem :: "'w peers \<Rightarrow> env \<Rightarrow> address \<Rightarrow> nat \<Rightarrow> 'w tr \<Rightarrow> (int \<times> 'w tr) tr_res" where
  "tr_redeem P E agent i s0 =
     andThen (load_global P E s0) (\<lambda>(g, s).
     andThen (require_agent E agent ROLE_SETTLE s) (\<lambda>_. do_redeem P E (gc_market_core g) i s))"

definition tr_claim_pool_remainder ::
    "'w peers \<Rightarrow> env \<Rightarrow> address \<Rightarrow> nat \<Rightarrow> 'w tr \<Rightarrow> (int \<times> 'w tr) tr_res" where
  "tr_claim_pool_remainder P E agent i s0 =
     andThen (load_global P E s0) (\<lambda>(g, s).
     andThen (require_agent E agent ROLE_SETTLE s) (\<lambda>_. do_claim P E (gc_market_core g) i s))"

definition legacy_redeem ::
    "'w peers \<Rightarrow> env \<Rightarrow> address \<Rightarrow> address \<Rightarrow> nat \<Rightarrow> 'w tr \<Rightarrow> (int \<times> 'w tr) tr_res" where
  "legacy_redeem P E agent core i s =
     andThen (require_agent E agent ROLE_SETTLE s) (\<lambda>_.
     andThen (require_legacy core s) (\<lambda>_. do_redeem P E core i s))"

definition legacy_claim_pool_remainder ::
    "'w peers \<Rightarrow> env \<Rightarrow> address \<Rightarrow> address \<Rightarrow> nat \<Rightarrow> 'w tr \<Rightarrow> (int \<times> 'w tr) tr_res" where
  "legacy_claim_pool_remainder P E agent core i s =
     andThen (require_agent E agent ROLE_SETTLE s) (\<lambda>_.
     andThen (require_legacy core s) (\<lambda>_. do_claim P E core i s))"

definition tr_redeem_many ::
    "'w peers \<Rightarrow> env \<Rightarrow> address \<Rightarrow> nat list \<Rightarrow> 'w tr \<Rightarrow> (batch_result \<times> 'w tr) tr_res" where
  "tr_redeem_many P E agent ids s0 =
     andThen (load_global P E s0) (\<lambda>(g, s).
     andThen (require_agent E agent ROLE_SETTLE s) (\<lambda>_.
     andThen (core_must (pr_redeem_many P E (gc_market_core g) (e_self E) ids (tr_world s))) (\<lambda>(r, w).
       Inr (r, s\<lparr>tr_world := w\<rparr>))))"

definition tr_claim_pool_remainders ::
    "'w peers \<Rightarrow> env \<Rightarrow> address \<Rightarrow> nat list \<Rightarrow> 'w tr \<Rightarrow> (batch_result \<times> 'w tr) tr_res" where
  "tr_claim_pool_remainders P E agent ids s0 =
     andThen (load_global P E s0) (\<lambda>(g, s).
     andThen (require_agent E agent ROLE_SETTLE s) (\<lambda>_.
     andThen (core_must (pr_claim_pool_remainders P E (gc_market_core g) (e_self E) ids (tr_world s))) (\<lambda>(r, w).
       Inr (r, s\<lparr>tr_world := w\<rparr>))))"

definition agent_claim_lp_fees ::
    "'w peers \<Rightarrow> env \<Rightarrow> address \<Rightarrow> nat \<Rightarrow> 'w tr \<Rightarrow> (int \<times> 'w tr) tr_res" where
  "agent_claim_lp_fees P E agent i s0 =
     andThen (load_global P E s0) (\<lambda>(g, s).
     andThen (require_agent E agent ROLE_SETTLE s) (\<lambda>_.
     andThen (core_call (pr_claim_lp_fees P E (gc_market_core g) i (tr_world s))) (\<lambda>(amount, w).
     andThen (record_return (gc_market_core g) i amount (s\<lparr>tr_world := w\<rparr>)) (\<lambda>s1.
       Inr (amount, s1)))))"

definition collect_market_fees :: "'w peers \<Rightarrow> env \<Rightarrow> nat \<Rightarrow> 'w tr \<Rightarrow> (int \<times> 'w tr) tr_res" where
  "collect_market_fees P E i s0 =
     andThen (tr_require_admin E s0) (\<lambda>_.
     andThen (load_global P E s0) (\<lambda>(g, s).
     andThen (core_call (pr_sweep_fees P E (gc_market_core g) i (tr_world s))) (\<lambda>(amount, w).
       Inr (amount, tr_publish (EvFeesCollected i amount) (s\<lparr>tr_world := w\<rparr>)))))"

definition settle_market ::
    "'w peers \<Rightarrow> env \<Rightarrow> address \<Rightarrow> nat \<Rightarrow> 'w tr \<Rightarrow> (settlement_report \<times> 'w tr) tr_res" where
  "settle_market P E caller i s0 =
     andThen (require_auth E caller) (\<lambda>_.
     let r = load_realized i s0 in
     if re_settled r
     then Inr (\<lparr>sp_redeemed = 0, sp_lp_claimed = 0, sp_already_settled = True\<rparr>, s0)
     else
     andThen (load_global P E s0) (\<lambda>(g, s).
     let core = gc_market_core g in
     andThen (settle_call McNothingToRedeem (tr_world s)
                (pr_redeem P E core (e_self E) i (tr_world s))) (\<lambda>(redeemed, w).
     andThen (record_payout core i redeemed (s\<lparr>tr_world := w\<rparr>)) (\<lambda>s1.
     andThen (core_must (pr_get_market P core i (tr_world s1))) (\<lambda>m.
     if mk_status m = Open then Inl (Err TrMarketNotFinal)
     else
     andThen (if owns_pool E m
              then andThen (settle_call McAlreadyClaimed (tr_world s1)
                              (pr_claim_pool_remainder P E core i (tr_world s1))) (\<lambda>(p, w2).
                   andThen (record_payout core i p (s1\<lparr>tr_world := w2\<rparr>)) (\<lambda>s2. Inr (p, s2)))
              else Inr (0, s1)) (\<lambda>(lp_claimed, s2).
     andThen (ok_or TrInvalidAmount (checked_add (re_position_proceeds r) redeemed)) (\<lambda>x.
     andThen (ok_or TrInvalidAmount (checked_add (re_lp_proceeds r) lp_claimed)) (\<lambda>y.
     andThen (finish_settlement P E core i (r\<lparr>re_position_proceeds := x, re_lp_proceeds := y\<rparr>) s2) (\<lambda>s3.
       Inr (\<lparr>sp_redeemed = redeemed, sp_lp_claimed = lp_claimed, sp_already_settled = False\<rparr>,
            tr_publish (EvMarketSettled i redeemed lp_claimed caller) s3))))))))))"

section \<open>Migration\<close>

definition set_successor :: "env \<Rightarrow> address \<Rightarrow> 'w tr \<Rightarrow> 'w tr tr_res" where
  "set_successor E successor s =
     andThen (tr_require_admin E s) (\<lambda>_.
       Inr (tr_publish (EvSuccessorSet (gv_successor (tr_gov s)) successor)
              (upd_gov (\<lambda>v. v\<lparr>gv_successor := Some successor\<rparr>) s)))"

definition hand_over ::
    "'w peers \<Rightarrow> env \<Rightarrow> address \<Rightarrow> address \<Rightarrow> nat \<Rightarrow> outcome \<Rightarrow> int \<Rightarrow> 'w \<Rightarrow> 'w tr_res" where
  "hand_over P E core successor i outcome amount w =
     (if 0 < amount
      then core_must (pr_transfer_position P E core (e_self E) successor i outcome amount w)
      else Inr w)"

definition migrate_market :: "'w peers \<Rightarrow> env \<Rightarrow> nat \<Rightarrow> 'w tr \<Rightarrow> 'w tr tr_res" where
  "migrate_market P E i s0 =
     andThen (tr_require_admin E s0) (\<lambda>_.
     andThen (ok_or TrNoSuccessor (gv_successor (tr_gov s0))) (\<lambda>successor.
     andThen (load_global P E s0) (\<lambda>(g, s).
     let core = gc_market_core g in
     andThen (core_must (pr_get_position P core i (e_self E) (tr_world s))) (\<lambda>pos.
     andThen (hand_over P E core successor i Yes (ps_yes pos) (tr_world s)) (\<lambda>w1.
     andThen (hand_over P E core successor i No (ps_no pos) w1) (\<lambda>w2.
     andThen (core_must (pr_get_market P core i w2)) (\<lambda>m.
     let lp = owns_pool E m in
     andThen (if lp then core_must (pr_transfer_lp P E core i successor w2) else Inr w2) (\<lambda>w3.
     let s1 = s\<lparr>tr_world := w3\<rparr>;
         s2 = save_exposure core i ((market_exposure core i s1)\<lparr>me_open := False\<rparr>) s1 in
     andThen (clear_net core i s2) (\<lambda>s3.
     andThen (on_index (index_remove core i) s3) (\<lambda>s4.
       Inr (tr_publish (EvMarketMigrated i successor (ps_yes pos) (ps_no pos) lp) s4)))))))))))"

end
