(* ===== verification/TreasuryFacts.thy ===== *)
theory TreasuryFacts
  imports TreasuryTrade
begin

text \<open>
  What a successful helper of the treasury did to the state: for each, one lemma that gives the
  new state as an update of the old one, so that every entry not mentioned is unchanged, and the
  facts about the components it touched.

  The treasury is configured once its constructor ran: loading the configuration is then a read.
\<close>

lemmas tr_simps = res_simps int_ops tr_publish_def upd_gov_def upd_risk_def set_global_def
  set_principal_def save_exposure_def save_pnl_def save_realized_def

lemma load_global_configured:
  "gv_global (tr_gov s) = Some g \<Longrightarrow> load_global P E s = Inr (g, s)"
  by (simp add: load_global_def)

lemma require_agent_eq:
  "require_agent E agent role s = Inr policy \<longleftrightarrow> e_auth E agent
     \<and> ag_policies (tr_agents s) agent = Some policy \<and> ap_active policy \<and> ap_roles policy AND role \<noteq> 0"
  by (auto simp: require_agent_def tr_simps)

lemma pay_ok:
  assumes "pay P E g from to amount s = Inr s'"
  obtains w where "pr_transfer P E (gc_collateral g) from to amount (tr_world s) = Some w"
    and "s' = s\<lparr>tr_world := w\<rparr>"
  using assms by (auto simp: pay_def tr_simps)

lemma tr_mint_ok:
  assumes "tr_mint owner amount n s = Inr (credited, s')"
  obtains v where "mint_shares owner amount n (tr_vault s) = Inr (credited, v)"
    and "s' = s\<lparr>tr_vault := v\<rparr>"
  using assms by (auto simp: tr_mint_def tr_simps)

lemma write_agent_ok:
  assumes "write_agent agent policy s = Inr s'"
  obtains ag ev where "s' = s\<lparr>tr_agents := ag, tr_events := ev\<rparr>"
    and "ag_policies ag = (ag_policies (tr_agents s))(agent \<mapsto> policy)"
    and "ag_windows ag = ag_windows (tr_agents s)" and "ag_pending ag = ag_pending (tr_agents s)"
  using assms by (auto simp: write_agent_def Let_def tr_simps split: if_splits)

section \<open>Net exposure\<close>

lemma save_net_ok:
  assumes "save_net core i (load_net core i s) next s = Inr (tot, s')"
  obtains nb ev where "s' = s\<lparr>tr_net := nb, tr_events := ev\<rparr>"
    and "net_ok (tr_net s) \<Longrightarrow> net_ok nb" and "net_total nb = tot"
    and "net_ok (tr_net s) \<Longrightarrow> net_at (core_key core i s) nb = next"
proof -
  obtain nb where nb: "put_net (core_key core i s) (load_net core i s) next (tr_net s) = Inr (tot, nb)"
      "s' = tr_publish (EvNetExposureUpdated i (cost_basis next) tot) (s\<lparr>tr_net := nb\<rparr>)"
    using assms unfolding save_net_def by (auto simp: res_simps)
  have "net_total nb = tot" using nb(1) by (auto simp: put_net_eq net_total_def)
  then show thesis
    using nb put_net_ok [OF _ nb(1) [unfolded load_net_def]]
    by (intro that [where nb = nb and ev = "tr_events s @ [EvNetExposureUpdated i (cost_basis next) tot]"])
      (simp_all add: tr_publish_def)
qed

lemma reserve_net_ok:
  assumes "reserve_net g i amount s = Inr s'"
  obtains nb ev where "s' = s\<lparr>tr_net := nb, tr_events := ev\<rparr>"
    and "net_ok (tr_net s) \<Longrightarrow> net_ok nb" and "net_total nb \<le> gc_max_net_exposure g"
proof -
  obtain inn tot where "save_net (gc_market_core g) i (load_net (gc_market_core g) i s)
      ((load_net (gc_market_core g) i s)\<lparr>np_collateral_in := inn\<rparr>) s = Inr (tot, s')"
      and tot: "tot \<le> gc_max_net_exposure g"
    using assms by (auto simp: reserve_net_def Let_def res_simps split: if_splits)
  then show thesis by (elim save_net_ok) (use that tot in auto)
qed

lemma record_return_ok:
  assumes "record_return core i amount s = Inr s'"
  obtains nb ev where "s' = s\<lparr>tr_net := nb, tr_events := ev\<rparr>"
    and "net_ok (tr_net s) \<Longrightarrow> net_ok nb"
proof (cases "amount \<le> 0")
  case True
  then show thesis using assms that [where nb = "tr_net s" and ev = "tr_events s"] by (simp add: record_return_def)
next
  case False
  then obtain out tot where "save_net core i (load_net core i s)
      ((load_net core i s)\<lparr>np_collateral_out := out\<rparr>) s = Inr (tot, s')"
    using assms by (auto simp: record_return_def Let_def res_simps)
  then show thesis by (elim save_net_ok) (use that in auto)
qed

lemma clear_net_ok:
  assumes "clear_net core i s = Inr s'"
  obtains nb ev where "s' = s\<lparr>tr_net := nb, tr_events := ev\<rparr>"
    and "net_ok (tr_net s) \<Longrightarrow> net_ok nb"
    and "net_ok (tr_net s) \<Longrightarrow> net_at (core_key core i s) nb = no_position"
proof -
  obtain tot where "save_net core i (load_net core i s) no_position s = Inr (tot, s')"
    using assms by (auto simp: clear_net_def res_simps)
  then show thesis by (elim save_net_ok) (use that in auto)
qed

section \<open>Profit and loss\<close>

text \<open>What accounting may do to the pause flags: nothing, or trip the drawdown pause.\<close>

definition risk_step :: "risk_state \<Rightarrow> risk_state \<Rightarrow> bool" where
  "risk_step r r' \<longleftrightarrow> rk_admin_paused r' = rk_admin_paused r
     \<and> (rk_paused r' = rk_paused r \<and> rk_tripped r' = rk_tripped r
           \<and> rk_acknowledged r' = rk_acknowledged r
        \<or> \<not> flag (rk_tripped r) \<and> rk_paused r' = Some True \<and> rk_tripped r' = Some True
           \<and> rk_acknowledged r' = Some False)"

lemma risk_step_refl [simp]: "risk_step r r"
  by (simp add: risk_step_def)

lemma risk_step_trans: "risk_step r r' \<Longrightarrow> risk_step r' r'' \<Longrightarrow> risk_step r r''"
  by (auto simp: risk_step_def flag_def)

lemma risk_step_upd [simp]:
  "risk_step r (r\<lparr>rk_pnl := a\<rparr>)" "risk_step r (r\<lparr>rk_realized := b\<rparr>)"
  "risk_step r (r\<lparr>rk_pnl_days := c\<rparr>)" "risk_step r (r\<lparr>rk_creation_buckets := d\<rparr>)"
  by (simp_all add: risk_step_def)

lemma record_cost_ok:
  assumes "record_cost i amount s = Inr s'"
  obtains r where "s' = s\<lparr>tr_risk := r\<rparr>" and "risk_step (tr_risk s) r"
  using assms that [of "tr_risk s"] by (auto simp: record_cost_def Let_def tr_simps split: if_splits)

lemma record_proceeds_ok:
  assumes "record_proceeds i amount s = Inr s'"
  obtains r where "s' = s\<lparr>tr_risk := r\<rparr>" and "risk_step (tr_risk s) r"
  using assms that [of "tr_risk s"] by (auto simp: record_proceeds_def Let_def tr_simps split: if_splits)

lemma record_payout_ok:
  assumes "record_payout core i payout s = Inr s'"
  obtains nb r ev where "s' = s\<lparr>tr_net := nb, tr_risk := r, tr_events := ev\<rparr>"
    and "net_ok (tr_net s) \<Longrightarrow> net_ok nb" and "risk_step (tr_risk s) r"
proof (cases "0 < payout")
  case True
  then obtain s1 where "record_return core i payout s = Inr s1" and p: "record_proceeds i payout s1 = Inr s'"
    using assms by (auto simp: record_payout_def res_simps)
  then obtain nb ev where nb: "s1 = s\<lparr>tr_net := nb, tr_events := ev\<rparr>"
      "net_ok (tr_net s) \<Longrightarrow> net_ok nb" by (elim record_return_ok) auto
  from p obtain r where "s' = s1\<lparr>tr_risk := r\<rparr>" "risk_step (tr_risk s1) r" by (elim record_proceeds_ok)
  then show thesis using nb by (intro that [where nb = nb and r = r and ev = ev]) simp_all
next
  case False
  then show thesis using assms that [where nb = "tr_net s" and r = "tr_risk s" and ev = "tr_events s"] by (simp add: record_payout_def)
qed

lemma add_daily_pnl_ok:
  assumes "add_daily_pnl E pnl s = Inr s'"
  obtains r where "s' = s\<lparr>tr_risk := r\<rparr>" and "risk_step (tr_risk s) r"
  using assms by (auto simp: add_daily_pnl_def Let_def tr_simps)

lemma check_drawdown_ok:
  assumes "check_drawdown E i s = Inr s'"
  obtains r ev where "s' = s\<lparr>tr_risk := r, tr_events := ev\<rparr>" and "risk_step (tr_risk s) r"
  using assms that [where r = "tr_risk s" and ev = "tr_events s"]
  by (auto simp: check_drawdown_def tr_simps risk_step_def split: if_splits)

lemma try_realize_ok:
  assumes "try_realize P E core i s = Inr s'"
  obtains r ev where "s' = s\<lparr>tr_risk := r, tr_events := ev\<rparr>" and "risk_step (tr_risk s) r"
proof -
  have "s' = s \<or> (\<exists>s1 p ev. add_daily_pnl E (pl_proceeds p - pl_cost p) s = Inr s1
      \<and> check_drawdown E i (tr_publish ev (save_pnl i (p\<lparr>pl_realized := True\<rparr>) s1)) = Inr s')"
    using assms by (auto simp: try_realize_def Let_def res_simps int_ops split: if_splits)
  then show thesis
  proof (elim disjE exE conjE)
    assume "s' = s"
    then show thesis using that [where r = "tr_risk s" and ev = "tr_events s"] by simp
  next
    fix s1 p ev
    assume "add_daily_pnl E (pl_proceeds p - pl_cost p) s = Inr s1"
      and "check_drawdown E i (tr_publish ev (save_pnl i (p\<lparr>pl_realized := True\<rparr>) s1)) = Inr s'"
    then obtain r1 r2 ev' where "s1 = s\<lparr>tr_risk := r1\<rparr>" "risk_step (tr_risk s) r1"
        "s' = (tr_publish ev (save_pnl i (p\<lparr>pl_realized := True\<rparr>) s1))\<lparr>tr_risk := r2, tr_events := ev'\<rparr>"
        "risk_step (tr_risk (tr_publish ev (save_pnl i (p\<lparr>pl_realized := True\<rparr>) s1))) r2"
      by (elim add_daily_pnl_ok check_drawdown_ok) blast
    then show thesis
      by (intro that [where r = r2 and ev = ev'])
        (auto simp: tr_simps intro: risk_step_trans [OF _ risk_step_trans [OF risk_step_upd(1)]])
  qed
qed

section \<open>The index\<close>

lemma on_index_add_ok:
  assumes "on_index (index_add core i) s = Inr s'"
  obtains ix where "index_add core i (tr_index s) = Inr ix" and "s' = s\<lparr>tr_index := ix\<rparr>"
  using assms by (auto simp: on_index_def res_simps)

lemma on_index_remove_ok:
  assumes "on_index (index_remove core i) s = Inr s'"
  obtains ix where "s' = s\<lparr>tr_index := ix\<rparr>" and "index_ok (tr_index s) \<Longrightarrow> index_ok ix"
    and "index_ok (tr_index s) \<Longrightarrow> index_set ix = index_set (tr_index s) - {(core, i)}"
proof -
  obtain ix where ix: "index_remove core i (tr_index s) = Inr ix" "s' = s\<lparr>tr_index := ix\<rparr>"
    using assms by (auto simp: on_index_def res_simps)
  then show thesis using that index_remove_ok [of "tr_index s" core i] by auto
qed

lemma prune_ok:
  assumes "ignore_err s (prune_if_settled P E core i s) = Inr s'"
  obtains ix where "s' = s\<lparr>tr_index := ix\<rparr>" and "index_ok (tr_index s) \<Longrightarrow> index_ok ix"
proof -
  have "s' = s \<or> on_index (index_remove core i) s = Inr s'"
    using assms by (auto simp: res_simps prune_if_settled_def split: if_splits)
  then show thesis
  proof
    assume "s' = s"
    then show thesis using that [of "tr_index s"] by simp
  next
    assume "on_index (index_remove core i) s = Inr s'"
    then show thesis by (elim on_index_remove_ok) (use that in auto)
  qed
qed

section \<open>Settlement\<close>

lemma finish_settlement_ok:
  assumes "finish_settlement P E core i r s = Inr s'"
  obtains ex rk ix ev where
    "s' = s\<lparr>tr_exposure := ex, tr_risk := rk, tr_index := ix, tr_events := ev\<rparr>"
    and "index_ok (tr_index s) \<Longrightarrow> index_ok ix" and "risk_step (tr_risk s) rk"
proof -
  obtain pos m s3 where *: "ignore_err
        (save_realized i (if settled_in E pos m then r\<lparr>re_settled := True\<rparr> else r)
           (if settled_in E pos m then close_market_exposure core i s else s))
        (prune_if_settled P E core i
           (save_realized i (if settled_in E pos m then r\<lparr>re_settled := True\<rparr> else r)
             (if settled_in E pos m then close_market_exposure core i s else s))) = Inr s3"
      and **: "(if re_settled (if settled_in E pos m then r\<lparr>re_settled := True\<rparr> else r)
             then try_realize P E core i s3 else Inr s3) = Inr s'"
    using assms unfolding finish_settlement_def Let_def andThen_eq_Inr by blast
  have "\<exists>ex rk. save_realized i (if settled_in E pos m then r\<lparr>re_settled := True\<rparr> else r)
      (if settled_in E pos m then close_market_exposure core i s else s)
      = s\<lparr>tr_exposure := ex, tr_risk := rk\<rparr> \<and> risk_step (tr_risk s) rk"
    by (rule exI [of _ "tr_exposure (if settled_in E pos m then close_market_exposure core i s else s)"],
        rule exI [of _ "tr_risk (save_realized i (if settled_in E pos m then r\<lparr>re_settled := True\<rparr> else r) s)"])
      (simp add: close_market_exposure_def Let_def tr_simps)
  then obtain ex rk where s2: "save_realized i (if settled_in E pos m then r\<lparr>re_settled := True\<rparr> else r)
      (if settled_in E pos m then close_market_exposure core i s else s)
      = s\<lparr>tr_exposure := ex, tr_risk := rk\<rparr>" and rk: "risk_step (tr_risk s) rk" by blast
  from * obtain ix where ix: "s3 = s\<lparr>tr_exposure := ex, tr_risk := rk, tr_index := ix\<rparr>"
      "index_ok (tr_index s) \<Longrightarrow> index_ok ix"
    unfolding s2 by (elim prune_ok) auto
  from ** have "s' = s3 \<or> try_realize P E core i s3 = Inr s'" by (auto split: if_splits)
  then show thesis
  proof
    assume "s' = s3"
    then show thesis using ix rk that [where ex = ex and rk = rk and ix = ix and ev = "tr_events s"] by simp
  next
    assume "try_realize P E core i s3 = Inr s'"
    then obtain r ev where "s' = s3\<lparr>tr_risk := r, tr_events := ev\<rparr>" "risk_step (tr_risk s3) r"
      by (elim try_realize_ok)
    then show thesis using ix rk
      by (intro that [where ex = ex and rk = r and ix = ix and ev = ev]) (auto intro: risk_step_trans)
  qed
qed

section \<open>Spending\<close>

lemma reserve_capacity_ok:
  assumes "reserve_capacity E g agent policy i amount s = Inr s'"
  obtains w w' aw' tot atot ix ex ev where
    "s' = s\<lparr>tr_agents := (tr_agents s)\<lparr>ag_windows := (ag_windows (tr_agents s))(agent \<mapsto> aw')\<rparr>,
            tr_usage := Some w', tr_daily := None, tr_exposure := ex, tr_index := ix, tr_events := ev\<rparr>"
    and "load_window E s = Inr w" and "consume_window w (e_now E) amount (gc_max_daily g) = Inr (tot, w')"
    and "consume_window (load_agent_window E agent s) (e_now E) amount (ap_max_daily policy)
           = Inr (atot, aw')"
    and "index_add (gc_market_core g) i (tr_index s) = Inr ix"
proof -
  obtain w tot w' atot aw' nm s1 where r: "load_window E s = Inr w"
      "consume_window w (e_now E) amount (gc_max_daily g) = Inr (tot, w')"
      "consume_window (load_agent_window E agent s) (e_now E) amount (ap_max_daily policy)
        = Inr (atot, aw')"
      "on_index (index_add (gc_market_core g) i) s = Inr s1"
      "s' = tr_publish (EvTradeAuthorized i agent amount nm tot)
         ((save_exposure (gc_market_core g) i \<lparr>me_amount = nm, me_open = True\<rparr> s1)
           \<lparr>tr_agents := (tr_agents s1)\<lparr>ag_windows := (ag_windows (tr_agents s1))(agent \<mapsto> aw')\<rparr>,
            tr_usage := Some w', tr_daily := None\<rparr>)"
    using assms
    by (auto simp: reserve_capacity_def Let_def res_simps save_exposure_def split: if_splits)
  from r(4) obtain ix where ix: "index_add (gc_market_core g) i (tr_index s) = Inr ix"
      "s1 = s\<lparr>tr_index := ix\<rparr>" by (rule on_index_add_ok)
  have "s' = s\<lparr>tr_agents := (tr_agents s)\<lparr>ag_windows := (ag_windows (tr_agents s))(agent \<mapsto> aw')\<rparr>,
      tr_usage := Some w', tr_daily := None, tr_exposure := tr_exposure s', tr_index := ix,
      tr_events := tr_events s'\<rparr>"
    by (simp add: r(5) ix(2) tr_publish_def save_exposure_def)
  then show thesis by (rule that [OF _ r(1,2,3) ix(1)])
qed

lemma ensure_liquid_ok:
  assumes "ensure_liquid P E g needed s = Inr s'"
  obtains w y ev where "s' = s\<lparr>tr_world := w, tr_yield := y, tr_events := ev\<rparr>"
proof (cases "needed \<le> idle P E g s")
  case True
  then show thesis using assms that [where w = "tr_world s" and y = "tr_yield s" and ev = "tr_events s"]
    by (simp add: ensure_liquid_def)
next
  case False
  then obtain venue amount w ev p where
      "s' = tr_publish ev (set_principal p (s\<lparr>tr_world := w\<rparr>))"
    using assms by (auto simp: ensure_liquid_def submit_request_def Let_def res_simps int_ops
        split: if_splits option.splits)
  then show thesis by (intro that) (simp add: tr_publish_def set_principal_def)
qed

text \<open>A spend: the guards that passed, the charge to both windows and the net book.\<close>

lemma spend_ok:
  assumes "reserve_capacity E g agent policy i amount s = Inr s1"
    and "reserve_net g i amount s1 = Inr s2" and "record_cost i amount s2 = Inr s'"
  obtains w w' aw' tot atot ix ex nb rk ev where
    "s' = s\<lparr>tr_agents := (tr_agents s)\<lparr>ag_windows := (ag_windows (tr_agents s))(agent \<mapsto> aw')\<rparr>,
            tr_usage := Some w', tr_daily := None, tr_exposure := ex, tr_index := ix,
            tr_net := nb, tr_risk := rk, tr_events := ev\<rparr>"
    and "load_window E s = Inr w" and "consume_window w (e_now E) amount (gc_max_daily g) = Inr (tot, w')"
    and "consume_window (load_agent_window E agent s) (e_now E) amount (ap_max_daily policy)
           = Inr (atot, aw')"
    and "index_add (gc_market_core g) i (tr_index s) = Inr ix"
    and "net_ok (tr_net s) \<Longrightarrow> net_ok nb" and "net_total nb \<le> gc_max_net_exposure g"
    and "risk_step (tr_risk s) rk"
proof -
  from assms(1) obtain w w' aw' tot atot ix ex ev where s1:
    "s1 = s\<lparr>tr_agents := (tr_agents s)\<lparr>ag_windows := (ag_windows (tr_agents s))(agent \<mapsto> aw')\<rparr>,
            tr_usage := Some w', tr_daily := None, tr_exposure := ex, tr_index := ix, tr_events := ev\<rparr>"
    "load_window E s = Inr w" "consume_window w (e_now E) amount (gc_max_daily g) = Inr (tot, w')"
    "consume_window (load_agent_window E agent s) (e_now E) amount (ap_max_daily policy)
           = Inr (atot, aw')"
    "index_add (gc_market_core g) i (tr_index s) = Inr ix"
    by (rule reserve_capacity_ok)
  from assms(2) obtain nb ev' where s2: "s2 = s1\<lparr>tr_net := nb, tr_events := ev'\<rparr>"
      "net_ok (tr_net s1) \<Longrightarrow> net_ok nb" "net_total nb \<le> gc_max_net_exposure g"
    by (rule reserve_net_ok) blast
  from assms(3) obtain rk where s3: "s' = s2\<lparr>tr_risk := rk\<rparr>" "risk_step (tr_risk s2) rk" by (rule record_cost_ok)
  then have "s' = s\<lparr>tr_agents := (tr_agents s)\<lparr>ag_windows := (ag_windows (tr_agents s))(agent \<mapsto> aw')\<rparr>,
      tr_usage := Some w', tr_daily := None, tr_exposure := ex, tr_index := ix,
      tr_net := nb, tr_risk := rk, tr_events := ev'\<rparr>"
    using s1(1) s2(1) by simp
  then show thesis by (rule that [OF _ s1(2-5)]) (use s1(1) s2 s3(2) in auto)
qed

end
