(* ===== verification/TreasuryCalls.thy ===== *)
theory TreasuryCalls
  imports TreasuryFacts
begin

text \<open>
  The treasury as a transition system: the calls of its state-changing entry points and what a
  sequence of successful calls does. \<open>TrOutside w\<close> is a step of
  the rest of the world between two calls; \<open>TrView\<close> stands for the views that load (and so may
  migrate) the configuration.
\<close>

section \<open>Calls\<close>

datatype 'w tr_call =
  TrSetAgent address agent_policy
| TrExecuteAgent address
| TrCancelAgent address
| TrRemoveAgent address
| TrProposeConfig global_config
| TrExecuteConfig
| TrCancelConfig
| TrSetConfigDelay nat
| TrSetPricePolicy price_policy
| TrExecutePricePolicy
| TrCancelPricePolicy
| TrSetPaused bool
| TrAcknowledge
| TrResetPnl
| TrSetDrawdown int nat
| TrSetCreationPolicy creation_policy
| TrDeposit address int
| TrRequestWithdraw address int
| TrClaimWithdraw nat
| TrEmergencyWithdraw address int
| TrCreateMarket address bytesN bytesN symbol category nat int nat
| TrCreateReveal address address bytesN symbol category nat int nat resolution_spec_v2
| TrAgentBuy address nat outcome int int "(nat \<times> nat) option"
| TrAgentSell address nat outcome int int "(nat \<times> nat) option"
| TrCloseTrade address nat
| TrRedeem address nat
| TrClaim address nat
| TrLegacyRedeem address address nat
| TrLegacyClaim address address nat
| TrRedeemMany address "nat list"
| TrClaimMany address "nat list"
| TrClaimLpFees address nat
| TrCollectFees nat
| TrSettleMarket address nat
| TrRealize nat
| TrSetYieldVenue address int
| TrAllocate int
| TrRecall int
| TrDisableYield
| TrWithdraw address int
| TrSetSuccessor address
| TrMigrate nat
| TrView
| TrOutside 'w

definition drop_result :: "('e, 'a \<times> 's) res \<Rightarrow> ('e, 's) res" where
  "drop_result r = andThen r (\<lambda>(x, s). Inr s)"

lemma drop_result_eq [res_simps]: "drop_result r = Inr s \<longleftrightarrow> (\<exists>x. r = Inr (x, s))"
  by (auto simp: drop_result_def res_simps)

fun tr_exec :: "'w peers \<Rightarrow> env \<Rightarrow> 'w tr_call \<Rightarrow> 'w tr \<Rightarrow> 'w tr tr_res" where
  "tr_exec P E (TrSetAgent a p) s = set_agent P E a p s"
| "tr_exec P E (TrExecuteAgent a) s = execute_agent P E a s"
| "tr_exec P E (TrCancelAgent a) s = cancel_agent E a s"
| "tr_exec P E (TrRemoveAgent a) s = remove_agent E a s"
| "tr_exec P E (TrProposeConfig g) s = propose_config P E g s"
| "tr_exec P E TrExecuteConfig s = execute_config P E s"
| "tr_exec P E TrCancelConfig s = cancel_config E s"
| "tr_exec P E (TrSetConfigDelay d) s = set_config_delay E d s"
| "tr_exec P E (TrSetPricePolicy p) s = set_price_policy E p s"
| "tr_exec P E TrExecutePricePolicy s = execute_price_policy E s"
| "tr_exec P E TrCancelPricePolicy s = cancel_price_policy E s"
| "tr_exec P E (TrSetPaused b) s = tr_set_paused E b s"
| "tr_exec P E TrAcknowledge s = acknowledge_drawdown E s"
| "tr_exec P E TrResetPnl s = reset_pnl_window E s"
| "tr_exec P E (TrSetDrawdown x n) s = set_drawdown_config E x n s"
| "tr_exec P E (TrSetCreationPolicy p) s = set_creation_policy P E p s"
| "tr_exec P E (TrDeposit a n) s = drop_result (deposit P E a n s)"
| "tr_exec P E (TrRequestWithdraw a n) s = drop_result (request_withdraw P E a n s)"
| "tr_exec P E (TrClaimWithdraw i) s = drop_result (claim_withdraw P E i s)"
| "tr_exec P E (TrEmergencyWithdraw a n) s = drop_result (emergency_withdraw P E a n s)"
| "tr_exec P E (TrCreateMarket a qh rh uri cat close seed bps) s =
     drop_result (agent_create_market P E a qh rh uri cat close seed bps s)"
| "tr_exec P E (TrCreateReveal a r qh uri cat close seed bps spec) s =
     drop_result (agent_create_market_and_reveal P E a r qh uri cat close seed bps spec s)"
| "tr_exec P E (TrAgentBuy a i out n m bound) s =
     drop_result (case bound of None \<Rightarrow> agent_buy P E a i out n m s
                  | Some (limit, deadline) \<Rightarrow> agent_buy_v2 P E a i out n m limit deadline s)"
| "tr_exec P E (TrAgentSell a i out n m bound) s =
     drop_result (case bound of None \<Rightarrow> agent_sell P E a i out n m s
                  | Some (limit, deadline) \<Rightarrow> agent_sell_v2 P E a i out n m limit deadline s)"
| "tr_exec P E (TrCloseTrade a i) s = drop_result (close_trade P E a i s)"
| "tr_exec P E (TrRedeem a i) s = drop_result (tr_redeem P E a i s)"
| "tr_exec P E (TrClaim a i) s = drop_result (tr_claim_pool_remainder P E a i s)"
| "tr_exec P E (TrLegacyRedeem a core i) s = drop_result (legacy_redeem P E a core i s)"
| "tr_exec P E (TrLegacyClaim a core i) s = drop_result (legacy_claim_pool_remainder P E a core i s)"
| "tr_exec P E (TrRedeemMany a ids) s = drop_result (tr_redeem_many P E a ids s)"
| "tr_exec P E (TrClaimMany a ids) s = drop_result (tr_claim_pool_remainders P E a ids s)"
| "tr_exec P E (TrClaimLpFees a i) s = drop_result (agent_claim_lp_fees P E a i s)"
| "tr_exec P E (TrCollectFees i) s = drop_result (collect_market_fees P E i s)"
| "tr_exec P E (TrSettleMarket a i) s = drop_result (settle_market P E a i s)"
| "tr_exec P E (TrRealize i) s = realize P E i s"
| "tr_exec P E (TrSetYieldVenue pool n) s = set_yield_venue E pool n s"
| "tr_exec P E (TrAllocate n) s = allocate_to_yield P E n s"
| "tr_exec P E (TrRecall n) s = recall_from_yield P E n s"
| "tr_exec P E TrDisableYield s = disable_yield E s"
| "tr_exec P E (TrWithdraw to n) s = withdraw P E to n s"
| "tr_exec P E (TrSetSuccessor a) s = set_successor E a s"
| "tr_exec P E (TrMigrate i) s = migrate_market P E i s"
| "tr_exec P E TrView s = drop_result (load_global P E s)"
| "tr_exec P E (TrOutside w) s = Inr (s\<lparr>tr_world := w\<rparr>)"

text \<open>A sequence of successful calls.\<close>

fun tr_run :: "'w peers \<Rightarrow> (env \<times> 'w tr_call) list \<Rightarrow> 'w tr \<Rightarrow> 'w tr tr_res" where
  "tr_run P [] s = Inr s"
| "tr_run P ((E, c) # cs) s = andThen (tr_exec P E c s) (tr_run P cs)"

lemma tr_run_snoc:
  "tr_run P (cs @ [(E, c)]) s = Inr s' \<longleftrightarrow>
     (\<exists>t. tr_run P cs s = Inr t \<and> tr_exec P E c t = Inr s')"
proof (induction cs arbitrary: s)
  case (Cons x cs)
  obtain E0 c0 where "x = (E0, c0)" by (cases x)
  then show ?case by (auto simp: Cons res_simps)
qed (auto simp: res_simps)

section \<open>Spending calls\<close>

text \<open>The calls that charge an agent's spending, with the amount.\<close>

fun spend_of :: "'w tr_call \<Rightarrow> (address \<times> int) option" where
  "spend_of (TrCreateMarket a qh rh uri cat close seed bps) = Some (a, seed)"
| "spend_of (TrCreateReveal a r qh uri cat close seed bps spec) = Some (a, seed)"
| "spend_of (TrAgentBuy a i out n m bound) = Some (a, n)"
| "spend_of _ = None"

end
