(* ===== verification/TreasurySteps.thy ===== *)
theory TreasurySteps
  imports TreasuryCalls
begin

text \<open>
  What each call of the treasury changes: for every group of entry points (spending, settling,
  configuring, vault, lending) a relation between the states before and after it.
\<close>

section \<open>Spending\<close>

text \<open>\<open>spent E agent amount s s'\<close>: the charge to both windows, and what it was checked against.\<close>

definition spent :: "env \<Rightarrow> address \<Rightarrow> int \<Rightarrow> 'w tr \<Rightarrow> 'w tr \<Rightarrow> bool" where
  "spent E agent amount s s' \<longleftrightarrow> 0 < amount \<and> e_auth E agent
     \<and> \<not> is_paused s
     \<and> (\<exists>g policy w w' aw' tot atot ix i.
          gv_global (tr_gov s) = Some g
        \<and> ag_policies (tr_agents s) agent = Some policy \<and> ap_active policy
        \<and> load_window E s = Inr w
        \<and> consume_window w (e_now E) amount (gc_max_daily g) = Inr (tot, w')
        \<and> consume_window (load_agent_window E agent s) (e_now E) amount (ap_max_daily policy)
            = Inr (atot, aw')
        \<and> index_add (gc_market_core g) i (tr_index s) = Inr ix \<and> tr_index s' = ix
        \<and> tr_usage s' = Some w'
        \<and> ag_windows (tr_agents s') = (ag_windows (tr_agents s))(agent \<mapsto> aw')
        \<and> (net_ok (tr_net s) \<longrightarrow> net_ok (tr_net s'))
        \<and> net_total (tr_net s') \<le> gc_max_net_exposure g)
     \<and> risk_step (tr_risk s) (tr_risk s')
     \<and> tr_gov s' = tr_gov s \<and> tr_vault s' = tr_vault s
     \<and> ag_policies (tr_agents s') = ag_policies (tr_agents s)
     \<and> ag_at (tr_agents s') = ag_at (tr_agents s) \<and> ag_count (tr_agents s') = ag_count (tr_agents s)"

lemma record_creation_ok:
  assumes "record_creation E policy s = Inr s'"
  obtains r where "s' = s\<lparr>tr_risk := r\<rparr>" and "risk_step (tr_risk s) r"
proof -
  obtain bs where "s' = upd_risk (\<lambda>r. r\<lparr>rk_creation_buckets := Some bs\<rparr>) s"
    using assms unfolding record_creation_def Let_def
    by (elim andThenE) (auto simp: res_simps simp del: if_split)
  then show thesis
    by (intro that [where r = "(tr_risk s)\<lparr>rk_creation_buckets := Some bs\<rparr>"])
      (simp_all add: upd_risk_def risk_step_def)
qed

lemma not_paused: "tr_assert_not_paused s = Inr () \<Longrightarrow> \<not> is_paused s"
  by (auto simp: tr_assert_not_paused_def is_paused_def split: if_splits)

lemma spent_from:
  assumes "reserve_capacity E g agent policy i amount s1 = Inr s2"
    and "reserve_net g i amount s2 = Inr s3" and "record_cost i amount s3 = Inr s'"
    and "s1 = s\<lparr>tr_world := wd, tr_yield := y, tr_risk := r, tr_events := ev\<rparr>"
    and "risk_step (tr_risk s) r"
    and "gv_global (tr_gov s) = Some g" and "ag_policies (tr_agents s) agent = Some policy"
    and "ap_active policy" and "0 < amount" and "e_auth E agent" and "\<not> is_paused s"
  shows "spent E agent amount s s'"
proof -
  from assms(1-3) obtain w w' aw' tot atot ix ex nb rk ev' where
    s': "s' = s1\<lparr>tr_agents := (tr_agents s1)\<lparr>ag_windows := (ag_windows (tr_agents s1))(agent \<mapsto> aw')\<rparr>,
            tr_usage := Some w', tr_daily := None, tr_exposure := ex, tr_index := ix,
            tr_net := nb, tr_risk := rk, tr_events := ev'\<rparr>"
    and w: "load_window E s1 = Inr w" "consume_window w (e_now E) amount (gc_max_daily g) = Inr (tot, w')"
      "consume_window (load_agent_window E agent s1) (e_now E) amount (ap_max_daily policy)
           = Inr (atot, aw')"
      "index_add (gc_market_core g) i (tr_index s1) = Inr ix"
    and nb: "net_ok (tr_net s1) \<Longrightarrow> net_ok nb" "net_total nb \<le> gc_max_net_exposure g"
      "risk_step (tr_risk s1) rk"
    by (rule spend_ok) blast
  have "load_window E s = Inr w"
    "consume_window (load_agent_window E agent s) (e_now E) amount (ap_max_daily policy) = Inr (atot, aw')"
    "index_add (gc_market_core g) i (tr_index s) = Inr ix"
    using w assms(4) by (auto simp: load_window_def load_agent_window_def split: option.splits)
  then show ?thesis
    unfolding spent_def using assms(4-11) s' w(2) nb by (auto intro: risk_step_trans)
qed

lemma agent_create_market_spent:
  assumes "agent_create_market P E agent qh rh uri cat close seed bps s = Inr (i, s')"
    and "gv_global (tr_gov s) = Some g"
  shows "spent E agent seed s s'"
proof -
  obtain policy creation s1 s2 w s3 s4 where
    r: "tr_assert_not_paused s = Inr ()" "require_agent E agent ROLE_CREATE s = Inr policy" "0 < seed"
      "record_creation E creation s = Inr s1" "ensure_liquid P E g seed s1 = Inr s2"
      "reserve_capacity E g agent policy i seed (s2\<lparr>tr_world := w\<rparr>) = Inr s3"
      "reserve_net g i seed s3 = Inr s4" "record_cost i seed s4 = Inr s'"
    using assms(1) unfolding agent_create_market_def
    by (auto simp: res_simps load_global_configured [OF assms(2)] Let_def split: if_splits)
  from r(4) obtain rk where s1: "s1 = s\<lparr>tr_risk := rk\<rparr>" and rk: "risk_step (tr_risk s) rk"
    by (rule record_creation_ok)
  from r(5) obtain w2 y ev where s2: "s2 = s1\<lparr>tr_world := w2, tr_yield := y, tr_events := ev\<rparr>"
    by (rule ensure_liquid_ok)
  have "s2\<lparr>tr_world := w\<rparr> = s\<lparr>tr_world := w, tr_yield := y, tr_risk := rk, tr_events := ev\<rparr>"
    using s1 s2 by simp
  from spent_from [OF r(6-8) this rk assms(2)] show ?thesis
    using r(1-3) not_paused by (auto simp: require_agent_eq)
qed

lemma do_agent_buy_spent:
  assumes "do_agent_buy P E agent i out n m bound s = Inr (x, s')"
    and "gv_global (tr_gov s) = Some g"
  shows "spent E agent n s s'"
proof -
  obtain policy s1 w s2 s3 where
    r: "tr_assert_not_paused s = Inr ()" "require_agent E agent ROLE_TRADE s = Inr policy" "0 < n"
      "ensure_liquid P E g n s = Inr s1"
      "reserve_capacity E g agent policy i n (s1\<lparr>tr_world := w\<rparr>) = Inr s2"
      "reserve_net g i n s2 = Inr s3" "record_cost i n s3 = Inr s'"
    using assms(1) unfolding do_agent_buy_def
    by (auto simp: res_simps load_global_configured [OF assms(2)] Let_def check_trade_size_def
        split: if_splits)
  from r(4) obtain w2 y ev where s1: "s1 = s\<lparr>tr_world := w2, tr_yield := y, tr_events := ev\<rparr>"
    by (rule ensure_liquid_ok)
  have "s1\<lparr>tr_world := w\<rparr> = s\<lparr>tr_world := w, tr_yield := y, tr_risk := tr_risk s, tr_events := ev\<rparr>"
    using s1 by simp
  from spent_from [OF r(5-7) this risk_step_refl assms(2)] show ?thesis
    using r(1-3) not_paused by (auto simp: require_agent_eq)
qed

lemma spent_world: "spent E agent n s s' \<Longrightarrow> spent E agent n s (s'\<lparr>tr_world := w\<rparr>)"
  unfolding spent_def by simp

lemma spend_exec:
  assumes "tr_exec P E c s = Inr s'" and "spend_of c = Some (agent, n)" and "gv_global (tr_gov s) = Some g"
  shows "spent E agent n s s'"
  using assms(2)
proof (cases c rule: spend_of.cases)
  case (1 a qh rh uri cat close seed bps)
  then show ?thesis using assms agent_create_market_spent by (fastforce simp: res_simps)
next
  case (2 a r qh uri cat close seed bps spec)
  then obtain h i s1 w where "agent_create_market P E a qh h uri cat close seed bps s = Inr (i, s1)"
      "s' = s1\<lparr>tr_world := w\<rparr>"
    using assms(1) by (auto simp: res_simps agent_create_market_and_reveal_def)
  then show ?thesis using 2 assms agent_create_market_spent spent_world by fastforce
next
  case (3 a i out k m bound)
  then obtain x where "do_agent_buy P E a i out k m bound s = Inr (x, s')"
    using assms(1) by (auto simp: res_simps agent_buy_def agent_buy_v2_def split: option.splits)
  then show ?thesis using 3 assms do_agent_buy_spent by fastforce
qed auto

section \<open>Calls that do not spend\<close>

text \<open>Money moving in settlements: the net book, the index and the profit and loss.\<close>

definition settles :: "'w tr \<Rightarrow> 'w tr \<Rightarrow> bool" where
  "settles s s' \<longleftrightarrow> (\<exists>w nb rk ex ix ev.
     s' = s\<lparr>tr_world := w, tr_net := nb, tr_risk := rk, tr_exposure := ex, tr_index := ix, tr_events := ev\<rparr>
     \<and> (net_ok (tr_net s) \<longrightarrow> net_ok nb) \<and> (index_ok (tr_index s) \<longrightarrow> index_ok ix)
     \<and> risk_step (tr_risk s) rk)"

lemma settles_refl: "settles s s"
  unfolding settles_def
  by (intro exI [of _ "tr_world s"] exI [of _ "tr_net s"] exI [of _ "tr_risk s"]
      exI [of _ "tr_exposure s"] exI [of _ "tr_index s"] exI [of _ "tr_events s"]) simp

lemma settlesI:
  assumes "s' = s\<lparr>tr_world := w, tr_net := nb, tr_risk := rk, tr_exposure := ex, tr_index := ix,
                  tr_events := ev\<rparr>"
    and "net_ok (tr_net s) \<Longrightarrow> net_ok nb" and "index_ok (tr_index s) \<Longrightarrow> index_ok ix"
    and "risk_step (tr_risk s) rk"
  shows "settles s s'"
  unfolding settles_def using assms by blast

lemma settles_trans: "settles s t \<Longrightarrow> settles t u \<Longrightarrow> settles s u"
proof -
  assume "settles s t" "settles t u"
  then obtain w nb rk ex ix ev w2 nb2 rk2 ex2 ix2 ev2 where
    "t = s\<lparr>tr_world := w, tr_net := nb, tr_risk := rk, tr_exposure := ex, tr_index := ix, tr_events := ev\<rparr>"
    "u = t\<lparr>tr_world := w2, tr_net := nb2, tr_risk := rk2, tr_exposure := ex2, tr_index := ix2,
           tr_events := ev2\<rparr>"
    "net_ok (tr_net s) \<longrightarrow> net_ok nb" "index_ok (tr_index s) \<longrightarrow> index_ok ix"
    "net_ok (tr_net t) \<longrightarrow> net_ok nb2" "index_ok (tr_index t) \<longrightarrow> index_ok ix2"
    "risk_step (tr_risk s) rk" "risk_step (tr_risk t) rk2"
    unfolding settles_def by blast
  then show ?thesis by (intro settlesI [where w = w2 and nb = nb2 and rk = rk2 and ex = ex2 and ix = ix2 and ev = ev2])
      (auto intro: risk_step_trans)
qed

lemma settles_events: "settles s s' \<Longrightarrow> settles s (tr_publish ev s')"
  by (erule settles_trans)
    (rule settlesI [where w = "tr_world s'" and nb = "tr_net s'" and rk = "tr_risk s'"
        and ex = "tr_exposure s'" and ix = "tr_index s'" and ev = "tr_events s' @ [ev]"],
      simp_all add: tr_publish_def)

lemma settles_world: "settles s (s\<lparr>tr_world := w\<rparr>)"
  by (rule settlesI [where w = w and nb = "tr_net s" and rk = "tr_risk s" and ex = "tr_exposure s"
        and ix = "tr_index s" and ev = "tr_events s"]) simp_all

lemma settles_payout: "record_payout core i p s = Inr s' \<Longrightarrow> settles s s'"
proof (erule record_payout_ok)
  fix nb r ev assume "s' = s\<lparr>tr_net := nb, tr_risk := r, tr_events := ev\<rparr>"
    "net_ok (tr_net s) \<Longrightarrow> net_ok nb" "risk_step (tr_risk s) r"
  then show "settles s s'"
    by (intro settlesI [where w = "tr_world s" and nb = nb and rk = r and ex = "tr_exposure s"
        and ix = "tr_index s" and ev = ev]) simp_all
qed

lemma settles_return: "record_return core i p s = Inr s' \<Longrightarrow> settles s s'"
proof (erule record_return_ok)
  fix nb ev assume "s' = s\<lparr>tr_net := nb, tr_events := ev\<rparr>" "net_ok (tr_net s) \<Longrightarrow> net_ok nb"
  then show "settles s s'"
    by (intro settlesI [where w = "tr_world s" and nb = nb and rk = "tr_risk s" and ex = "tr_exposure s"
        and ix = "tr_index s" and ev = ev]) simp_all
qed

lemma settles_finish: "finish_settlement P E core i r s = Inr s' \<Longrightarrow> settles s s'"
proof (erule finish_settlement_ok)
  fix ex rk ix ev
  assume "s' = s\<lparr>tr_exposure := ex, tr_risk := rk, tr_index := ix, tr_events := ev\<rparr>"
    "index_ok (tr_index s) \<Longrightarrow> index_ok ix" "risk_step (tr_risk s) rk"
  then show "settles s s'"
    by (intro settlesI [where w = "tr_world s" and nb = "tr_net s" and rk = rk and ex = ex
        and ix = ix and ev = ev]) simp_all
qed

lemma settles_receive: "record_payout core i p (s\<lparr>tr_world := w\<rparr>) = Inr s' \<Longrightarrow> settles s s'"
  using settles_trans [OF settles_world settles_payout] .

lemma settles_redeem: "do_redeem P E core i s = Inr (p, s') \<Longrightarrow> settles s s'"
  unfolding do_redeem_def
  by (auto simp: res_simps Let_def intro: settles_trans [OF settles_receive settles_finish])

lemma settles_claim: "do_claim P E core i s = Inr (p, s') \<Longrightarrow> settles s s'"
  unfolding do_claim_def
  by (auto simp: res_simps Let_def intro: settles_trans [OF settles_receive settles_finish])

lemma settles_try_realize: "try_realize P E core i s = Inr s' \<Longrightarrow> settles s s'"
proof (erule try_realize_ok)
  fix r ev assume "s' = s\<lparr>tr_risk := r, tr_events := ev\<rparr>" "risk_step (tr_risk s) r"
  then show "settles s s'"
    by (intro settlesI [where w = "tr_world s" and nb = "tr_net s" and rk = r and ex = "tr_exposure s"
        and ix = "tr_index s" and ev = ev]) simp_all
qed

lemma settles_proceeds: "record_proceeds i n s = Inr s' \<Longrightarrow> settles s s'"
proof (erule record_proceeds_ok)
  fix r assume "s' = s\<lparr>tr_risk := r\<rparr>" "risk_step (tr_risk s) r"
  then show "settles s s'"
    by (intro settlesI [where w = "tr_world s" and nb = "tr_net s" and rk = r and ex = "tr_exposure s"
        and ix = "tr_index s" and ev = "tr_events s"]) simp_all
qed

lemma settles_return_world: "record_return core i n (s\<lparr>tr_world := w\<rparr>) = Inr s' \<Longrightarrow> settles s s'"
  using settles_trans [OF settles_world settles_return] .

lemma settles_exposure: "settles s (save_exposure core i x s)"
  by (rule settlesI [where w = "tr_world s" and nb = "tr_net s" and rk = "tr_risk s"
        and ex = "tr_exposure (save_exposure core i x s)" and ix = "tr_index s" and ev = "tr_events s"])
    (simp_all add: save_exposure_def)

lemma settles_clear: "clear_net core i s = Inr s' \<Longrightarrow> settles s s'"
proof (erule clear_net_ok)
  fix nb ev assume "s' = s\<lparr>tr_net := nb, tr_events := ev\<rparr>" "net_ok (tr_net s) \<Longrightarrow> net_ok nb"
  then show "settles s s'"
    by (intro settlesI [where w = "tr_world s" and nb = nb and rk = "tr_risk s" and ex = "tr_exposure s"
        and ix = "tr_index s" and ev = ev]) simp_all
qed

lemma settles_remove: "on_index (index_remove core i) s = Inr s' \<Longrightarrow> settles s s'"
proof (erule on_index_remove_ok)
  fix ix assume "s' = s\<lparr>tr_index := ix\<rparr>" "index_ok (tr_index s) \<Longrightarrow> index_ok ix"
  then show "settles s s'"
    by (intro settlesI [where w = "tr_world s" and nb = "tr_net s" and rk = "tr_risk s"
        and ex = "tr_exposure s" and ix = ix and ev = "tr_events s"]) simp_all
qed

lemma settles_settle_market:
  assumes "settle_market P E caller i s = Inr (x, s')" and "gv_global (tr_gov s) = Some g"
  shows "settles s s'"
proof (cases "re_settled (load_realized i s)")
  case True
  then show ?thesis using assms by (auto simp: settle_market_def Let_def res_simps settles_refl)
next
  case False
  obtain p w s1 s2 s3 r where r: "record_payout (gc_market_core g) i p (s\<lparr>tr_world := w\<rparr>) = Inr s1"
      "s2 = s1 \<or> (\<exists>p w. record_payout (gc_market_core g) i p (s1\<lparr>tr_world := w\<rparr>) = Inr s2)"
      "finish_settlement P E (gc_market_core g) i r s2 = Inr s3"
      "\<exists>ev. s' = tr_publish ev s3"
    using assms(1) False
    by (auto simp: settle_market_def Let_def res_simps load_global_configured [OF assms(2)]
        split: if_splits) blast+
  have "settles s s1" by (rule settles_receive [OF r(1)])
  moreover have "settles s1 s2" using r(2) by (auto intro: settles_refl settles_receive)
  moreover have "settles s2 s3" by (rule settles_finish [OF r(3)])
  ultimately have "settles s s3" by (blast intro: settles_trans)
  then show ?thesis using r(4) by (auto intro: settles_events)
qed

lemma settles_migrate:
  assumes "migrate_market P E i s = Inr s'" and "gv_global (tr_gov s) = Some g"
  shows "settles s s'"
proof -
  obtain w s3 s4 ev where r: "clear_net (gc_market_core g) i
        (save_exposure (gc_market_core g) i
           ((market_exposure (gc_market_core g) i (s\<lparr>tr_world := w\<rparr>))\<lparr>me_open := False\<rparr>)
           (s\<lparr>tr_world := w\<rparr>)) = Inr s3"
      "on_index (index_remove (gc_market_core g) i) s3 = Inr s4" "s' = tr_publish ev s4"
    using assms(1) unfolding migrate_market_def Let_def
    by (simp add: res_simps load_global_configured [OF assms(2)]) blast
  have "settles s s3"
    using settles_trans [OF settles_trans [OF settles_world settles_exposure] settles_clear [OF r(1)]] .
  from settles_trans [OF this settles_remove [OF r(2)]] show ?thesis
    unfolding r(3) by (rule settles_events)
qed

lemma settles_sell:
  assumes "do_agent_sell P E agent i out n m bound s = Inr (x, s')" and "gv_global (tr_gov s) = Some g"
  shows "settles s s'"
  using assms(1) unfolding do_agent_sell_def
  by (auto simp: res_simps load_global_configured [OF assms(2)] Let_def split: if_splits
      intro: settles_trans [OF settles_return_world settles_proceeds])

fun settling :: "'w tr_call \<Rightarrow> bool" where
  "settling (TrAgentSell a i out n m bound) = True"
| "settling (TrCloseTrade a i) = True"
| "settling (TrRedeem a i) = True"
| "settling (TrClaim a i) = True"
| "settling (TrLegacyRedeem a core i) = True"
| "settling (TrLegacyClaim a core i) = True"
| "settling (TrRedeemMany a ids) = True"
| "settling (TrClaimMany a ids) = True"
| "settling (TrClaimLpFees a i) = True"
| "settling (TrCollectFees i) = True"
| "settling (TrSettleMarket a i) = True"
| "settling (TrRealize i) = True"
| "settling (TrMigrate i) = True"
| "settling (TrOutside w) = True"
| "settling _ = False"

lemma settling_exec:
  assumes "tr_exec P E c s = Inr s'" and "settling c" and "gv_global (tr_gov s) = Some g"
  shows "settles s s'"
proof -
  note g = load_global_configured [OF assms(3)]
  show ?thesis
    using assms(1,2)
  proof (cases c rule: settling.cases)
    case 1
    then show ?thesis using assms settles_sell [OF _ assms(3)]
      by (auto simp: res_simps agent_sell_def agent_sell_v2_def split: option.splits)
  next
    case 2
    then show ?thesis using assms(1)
      by (auto simp: res_simps g close_trade_def Let_def intro: settles_events settles_exposure)
  next
    case 11
    then show ?thesis using assms(1) settles_settle_market [OF _ assms(3)] by (auto simp: res_simps)
  next
    case 13
    then show ?thesis using assms(1) settles_migrate [OF _ assms(3)] by (auto simp: res_simps)
  qed (auto simp: res_simps g tr_redeem_def tr_claim_pool_remainder_def legacy_redeem_def
      legacy_claim_pool_remainder_def tr_redeem_many_def tr_claim_pool_remainders_def
      agent_claim_lp_fees_def collect_market_fees_def realize_def
      intro: settles_redeem settles_claim settles_world settles_return_world settles_try_realize
        settles_events)
qed

section \<open>Configuration\<close>

text \<open>Configuring changes no book, keeps the treasury configured and keeps a settler.\<close>

definition same_books :: "'w tr \<Rightarrow> 'w tr \<Rightarrow> bool" where
  "same_books s s' \<longleftrightarrow> tr_usage s' = tr_usage s \<and> tr_daily s' = tr_daily s \<and> tr_net s' = tr_net s
     \<and> tr_index s' = tr_index s \<and> tr_vault s' = tr_vault s \<and> tr_exposure s' = tr_exposure s
     \<and> tr_yield s' = tr_yield s \<and> tr_world s' = tr_world s
     \<and> ag_windows (tr_agents s') = ag_windows (tr_agents s)"

definition governs :: "'w tr \<Rightarrow> 'w tr \<Rightarrow> bool" where
  "governs s s' \<longleftrightarrow> same_books s s'
     \<and> (gv_global (tr_gov s) \<noteq> None \<longrightarrow> gv_global (tr_gov s') \<noteq> None)
     \<and> (ensure_settler s = Inr () \<longrightarrow> ensure_settler s' = Inr ())"

lemma settler_cong:
  assumes "ag_at (tr_agents s') = ag_at (tr_agents s)" and "ag_count (tr_agents s') = ag_count (tr_agents s)"
    and "ag_policies (tr_agents s') = ag_policies (tr_agents s)"
  shows "ensure_settler s' = ensure_settler s"
  unfolding ensure_settler_def agent_count_of_def assms ..

lemma settler_upd [simp]:
  "ensure_settler (s\<lparr>tr_agents := (tr_agents s)\<lparr>ag_pending := p\<rparr>\<rparr>) = ensure_settler s"
  "ensure_settler (s\<lparr>tr_events := ev\<rparr>) = ensure_settler s"
  "ensure_settler (s\<lparr>tr_gov := gv\<rparr>) = ensure_settler s"
  "ensure_settler (s\<lparr>tr_risk := rk\<rparr>) = ensure_settler s"
  by (rule settler_cong; simp)+

lemma ensure_settler_unit: "ensure_settler s = Inr u \<longleftrightarrow> ensure_settler s = Inr ()"
  by simp

lemma write_agent_books: "write_agent agent policy s = Inr s' \<Longrightarrow> same_books s s' \<and> tr_gov s' = tr_gov s"
  by (erule write_agent_ok) (simp add: same_books_def)

fun configuring :: "'w tr_call \<Rightarrow> bool" where
  "configuring (TrSetAgent a p) = True"
| "configuring (TrExecuteAgent a) = True"
| "configuring (TrCancelAgent a) = True"
| "configuring (TrRemoveAgent a) = True"
| "configuring (TrProposeConfig g) = True"
| "configuring TrExecuteConfig = True"
| "configuring TrCancelConfig = True"
| "configuring (TrSetConfigDelay d) = True"
| "configuring (TrSetPricePolicy p) = True"
| "configuring TrExecutePricePolicy = True"
| "configuring TrCancelPricePolicy = True"
| "configuring (TrSetPaused b) = True"
| "configuring TrAcknowledge = True"
| "configuring TrResetPnl = True"
| "configuring (TrSetDrawdown x n) = True"
| "configuring (TrSetCreationPolicy p) = True"
| "configuring (TrSetSuccessor a) = True"
| "configuring TrView = True"
| "configuring _ = False"

lemma set_agent_governs:
  assumes "set_agent P E agent policy s = Inr s'" and "gv_global (tr_gov s) = Some g"
  shows "governs s s'"
proof -
  consider "write_agent agent policy s = Inr s'" "ensure_settler s' = Inr ()"
    | p ev where "s' = s\<lparr>tr_agents := (tr_agents s)\<lparr>ag_pending := p\<rparr>, tr_events := ev\<rparr>"
    using assms(1) unfolding set_agent_def
    by (auto simp: tr_simps load_global_configured [OF assms(2)] Let_def split: change.splits if_splits)
  then show ?thesis
  proof cases
    case 1
    then show ?thesis using write_agent_books [OF 1(1)] by (simp add: governs_def)
  next
    case 2
    then show ?thesis by (simp add: governs_def same_books_def)
  qed
qed

lemma execute_agent_governs:
  assumes "execute_agent P E agent s = Inr s'" and "gv_global (tr_gov s) = Some g"
  shows "governs s s'"
proof -
  obtain policy where "write_agent agent policy
       (s\<lparr>tr_agents := (tr_agents s)\<lparr>ag_pending := (ag_pending (tr_agents s))(agent := None)\<rparr>\<rparr>) = Inr s'"
      "ensure_settler s' = Inr ()"
    using assms(1) unfolding execute_agent_def
    by (auto simp: res_simps load_global_configured [OF assms(2)] split: if_splits)
  then show ?thesis using write_agent_books by (fastforce simp: governs_def same_books_def)
qed

lemma remove_agent_governs: "remove_agent E agent s = Inr s' \<Longrightarrow> governs s s'"
  unfolding remove_agent_def
  by (auto simp: tr_simps Let_def governs_def same_books_def split: if_splits option.splits)

lemmas governs_simps = tr_simps Let_def governs_def same_books_def

lemma governsI:
  assumes "s' = s\<lparr>tr_gov := gv, tr_events := ev\<rparr>" and "gv_global (tr_gov s) \<noteq> None \<Longrightarrow> gv_global gv \<noteq> None"
  shows "governs s s'"
  using assms by (simp add: governs_def same_books_def)

lemma execute_config_governs:
  assumes "execute_config P E s = Inr s'" and "gv_global (tr_gov s) = Some g"
  shows "governs s s'"
proof -
  obtain new where s': "s' = tr_publish (EvConfigExecuted g new False)
         (upd_gov (\<lambda>v. v\<lparr>gv_global := Some new, gv_pending_config := None\<rparr>)
           (if gc_market_core new \<noteq> gc_market_core g
            then upd_gov (\<lambda>v. v\<lparr>gv_legacy_cores := (gv_legacy_cores v)(gc_market_core g \<mapsto> True)\<rparr>) s
            else s))"
    using assms(1) unfolding execute_config_def Let_def
    by (auto simp: res_simps load_global_configured [OF assms(2)] simp del: if_split)
  show ?thesis
    by (cases "gc_market_core new = gc_market_core g")
      (simp_all add: s' governs_def same_books_def tr_publish_def upd_gov_def)
qed

lemma config_governs:
  assumes "gv_global (tr_gov s) = Some g"
  shows "propose_config P E c s = Inr s' \<Longrightarrow> governs s s'"
    and "execute_config P E s = Inr s' \<Longrightarrow> governs s s'"
    and "cancel_config E s = Inr s' \<Longrightarrow> governs s s'"
    and "set_config_delay E d s = Inr s' \<Longrightarrow> governs s s'"
    and "set_successor E a s = Inr s' \<Longrightarrow> governs s s'"
    and "cancel_agent E a s = Inr s' \<Longrightarrow> governs s s'"
  subgoal unfolding propose_config_def load_global_configured [OF assms]
    by (auto simp: governs_simps split: if_splits change.splits)
  subgoal by (rule execute_config_governs [OF _ assms])
  subgoal unfolding cancel_config_def by (auto simp: governs_simps)
  subgoal unfolding set_config_delay_def by (auto simp: governs_simps split: if_splits)
  subgoal unfolding set_successor_def by (auto simp: governs_simps)
  subgoal unfolding cancel_agent_def by (auto simp: governs_simps split: if_splits)
  done

lemma price_governs:
  shows "set_price_policy E p s = Inr s' \<Longrightarrow> governs s s'"
    and "execute_price_policy E s = Inr s' \<Longrightarrow> governs s s'"
    and "cancel_price_policy E s = Inr s' \<Longrightarrow> governs s s'"
  subgoal unfolding set_price_policy_def by (auto simp: governs_simps split: if_splits change.splits)
  subgoal unfolding execute_price_policy_def by (auto simp: governs_simps split: if_splits)
  subgoal unfolding cancel_price_policy_def by (auto simp: governs_simps)
  done

lemma risk_governs:
  assumes "gv_global (tr_gov s) = Some g"
  shows "tr_set_paused E b s = Inr s' \<Longrightarrow> governs s s'"
    and "acknowledge_drawdown E s = Inr s' \<Longrightarrow> governs s s'"
    and "reset_pnl_window E s = Inr s' \<Longrightarrow> governs s s'"
    and "set_drawdown_config E x n s = Inr s' \<Longrightarrow> governs s s'"
    and "set_creation_policy P E cp s = Inr s' \<Longrightarrow> governs s s'"
  subgoal unfolding tr_set_paused_def by (auto simp: governs_simps split: if_splits)
  subgoal unfolding acknowledge_drawdown_def by (auto simp: governs_simps split: if_splits)
  subgoal unfolding reset_pnl_window_def by (auto simp: governs_simps)
  subgoal unfolding set_drawdown_config_def by (auto simp: governs_simps)
  subgoal unfolding set_creation_policy_def load_global_configured [OF assms]
    by (auto simp: governs_simps split: if_splits)
  done

lemma governs_refl: "governs s s"
  by (simp add: governs_def same_books_def)

lemma configuring_exec:
  assumes "tr_exec P E c s = Inr s'" and "configuring c" and "gv_global (tr_gov s) = Some g"
  shows "governs s s'"
  using assms(1,2)
  by (cases c rule: configuring.cases)
    (simp_all add: set_agent_governs [OF _ assms(3)] execute_agent_governs [OF _ assms(3)]
      remove_agent_governs config_governs [OF assms(3)] price_governs risk_governs [OF assms(3)]
      drop_result_eq load_global_configured [OF assms(3)] governs_refl)

end
