(* ===== verification/TreasuryInv.thy ===== *)
theory TreasuryInv
  imports TreasuryBank
begin

text \<open>
  The invariant of the treasury's books, kept by every call from the constructor on, and the
  history of spends that the daily windows account for.
\<close>

section \<open>The invariant\<close>

definition windows_ok :: "'w tr \<Rightarrow> bool" where
  "windows_ok s \<longleftrightarrow> (\<exists>w. tr_usage s = Some w \<and> window_ok w)
     \<and> (\<forall>a w. ag_windows (tr_agents s) a = Some w \<longrightarrow> window_ok w)"

definition tr_inv :: "'w tr \<Rightarrow> bool" where
  "tr_inv s \<longleftrightarrow> gv_global (tr_gov s) \<noteq> None \<and> ensure_settler s = Inr () \<and> windows_ok s
     \<and> net_ok (tr_net s) \<and> index_ok (tr_index s) \<and> vault_ok (tr_vault s)"

lemma load_agent_window_ok: "windows_ok s \<Longrightarrow> window_ok (load_agent_window E a s)"
  by (auto simp: windows_ok_def load_agent_window_def window_ok_empty split: option.split)

lemma load_window_usage: "tr_usage s = Some w \<Longrightarrow> load_window E s = Inr w"
  by (simp add: load_window_def)

lemma spentE:
  assumes "spent E agent n s s'"
  obtains g policy w w' aw' tot atot i where "0 < n" and "gv_global (tr_gov s) = Some g"
    and "ag_policies (tr_agents s) agent = Some policy" and "load_window E s = Inr w"
    and "consume_window w (e_now E) n (gc_max_daily g) = Inr (tot, w')"
    and "consume_window (load_agent_window E agent s) (e_now E) n (ap_max_daily policy) = Inr (atot, aw')"
    and "index_add (gc_market_core g) i (tr_index s) = Inr (tr_index s')"
    and "tr_usage s' = Some w'" and "ag_windows (tr_agents s') = (ag_windows (tr_agents s))(agent \<mapsto> aw')"
    and "net_ok (tr_net s) \<Longrightarrow> net_ok (tr_net s')" and "tr_gov s' = tr_gov s"
    and "tr_vault s' = tr_vault s" and "ensure_settler s' = ensure_settler s"
    and "risk_step (tr_risk s) (tr_risk s')" and "\<not> is_paused s"
    and "net_total (tr_net s') \<le> gc_max_net_exposure g"
proof -
  have "ensure_settler s' = ensure_settler s"
    by (rule settler_cong) (use assms in \<open>simp_all add: spent_def\<close>)
  with assms show thesis
    unfolding spent_def by (elim exE conjE) (rule that; simp)
qed

lemma spent_inv:
  assumes "spent E agent n s s'" and inv: "tr_inv s"
  shows "tr_inv s'"
  using assms(1)
proof (rule spentE)
  fix g policy w w' aw' tot atot i
  assume r: "load_window E s = Inr w" "consume_window w (e_now E) n (gc_max_daily g) = Inr (tot, w')"
    "consume_window (load_agent_window E agent s) (e_now E) n (ap_max_daily policy) = Inr (atot, aw')"
    "index_add (gc_market_core g) i (tr_index s) = Inr (tr_index s')" "tr_usage s' = Some w'"
    "ag_windows (tr_agents s') = (ag_windows (tr_agents s))(agent \<mapsto> aw')"
    "net_ok (tr_net s) \<Longrightarrow> net_ok (tr_net s')" "tr_gov s' = tr_gov s" "tr_vault s' = tr_vault s"
    "ensure_settler s' = ensure_settler s"
  have w: "windows_ok s" using inv by (simp add: tr_inv_def)
  then have "window_ok w" using r(1) by (auto simp: windows_ok_def load_window_usage)
  then have "window_ok w'" "window_ok aw'"
    using consume_window_ok(1) r(2,3) load_agent_window_ok [OF w] by blast+
  then have "windows_ok s'" using r(5,6) w by (simp add: windows_ok_def)
  moreover have "index_ok (tr_index s')" using index_add_ok(1) [OF _ r(4)] inv by (simp add: tr_inv_def)
  ultimately show ?thesis using inv r(7-10) by (simp add: tr_inv_def)
qed

lemma settles_inv: "settles s s' \<Longrightarrow> tr_inv s \<Longrightarrow> tr_inv s'"
proof -
  assume s: "settles s s'" and inv: "tr_inv s"
  then have "ensure_settler s' = ensure_settler s" by (intro settler_cong) (auto simp: settles_def)
  with s inv show ?thesis by (auto simp: settles_def tr_inv_def windows_ok_def)
qed

lemma governs_inv: "governs s s' \<Longrightarrow> tr_inv s \<Longrightarrow> tr_inv s'"
  unfolding governs_def same_books_def tr_inv_def windows_ok_def by simp

lemma banks_inv: "banks s s' \<Longrightarrow> tr_inv s \<Longrightarrow> tr_inv s'"
proof -
  assume s: "banks s s'" and inv: "tr_inv s"
  then have "ensure_settler s' = ensure_settler s" by (intro settler_cong) (auto simp: banks_def)
  with s inv show ?thesis by (simp add: banks_def tr_inv_def windows_ok_def)
qed

lemma tr_exec_inv:
  assumes "tr_exec P E c s = Inr s'" and "tr_inv s"
  shows "tr_inv s'"
proof -
  obtain g where g: "gv_global (tr_gov s) = Some g" using assms(2) by (auto simp: tr_inv_def)
  consider a n where "spend_of c = Some (a, n)" | "settling c" | "configuring c" | "banking c"
    using call_kind [of c] by auto
  then show ?thesis
  proof cases
    case 1
    then show ?thesis using spend_exec [OF assms(1) _ g] spent_inv assms(2) by blast
  next
    case 2
    then show ?thesis using settling_exec [OF assms(1) _ g] settles_inv assms(2) by blast
  next
    case 3
    then show ?thesis using configuring_exec [OF assms(1) _ g] governs_inv assms(2) by blast
  next
    case 4
    then show ?thesis using banking_exec [OF assms(1) _ g] banks_inv assms(2) by blast
  qed
qed

lemma tr_run_inv: "tr_run P cs s = Inr s' \<Longrightarrow> tr_inv s \<Longrightarrow> tr_inv s'"
  by (induction P cs s rule: tr_run.induct) (auto simp: res_simps intro: tr_exec_inv)

section \<open>The state after the constructor\<close>

lemma role_all_settles: "ROLE_ALL AND ROLE_SETTLE \<noteq> 0"
  by (simp add: ROLE_ALL_def ROLE_CREATE_def ROLE_TRADE_def ROLE_SETTLE_def)

lemma tr_constructor_ok:
  assumes "tr_constructor P E admin agent g delay dd days policy (tr_deployed wd) = Inr s"
  shows "tr_inv s" and "tr_usage s = Some (empty_window (e_now E div BUCKET_SECONDS))"
    and "ag_windows (tr_agents s) = Map.empty" and "gv_pending_config (tr_gov s) = None"
    and "gv_config_delay (tr_gov s) = Some delay" and "MIN_CONFIG_DELAY \<le> delay"
    and "gv_global (tr_gov s) = Some g" and "tr_world s = wd"
proof -
  let ?a = "\<lparr>ap_roles = ROLE_ALL, ap_max_trade = gc_max_trade g, ap_max_daily = gc_max_daily g, ap_active = True\<rparr>"
  obtain s3 s4 where s3: "tr_gov s3 = (tr_gov (tr_deployed wd))\<lparr>gv_admin := Some admin, gv_global := Some g,
                gv_original_core := Some (gc_market_core g), gv_config_delay := Some delay,
                gv_price_policy := Some DEFAULT_PRICE_POLICY\<rparr>"
      "tr_usage s3 = Some (empty_window (e_now E div BUCKET_SECONDS))"
      "tr_agents s3 = tr_agents (tr_deployed wd)" "tr_net s3 = tr_net (tr_deployed wd)"
      "tr_index s3 = empty_index" "tr_vault s3 = empty_vault" "tr_world s3 = wd"
    and s4: "write_agent agent ?a s3 = Inr s4"
    and s: "s = s4 \<or> (\<exists>c. tr_mint admin (idle P E g s4) 0 s4 = Inr (c, s))"
    and delay: "MIN_CONFIG_DELAY \<le> delay"
    using assms unfolding tr_constructor_def Let_def
    by (simp add: res_simps not_less del: if_split)
      (elim exE conjE, rule that, simp_all add: tr_simps tr_deployed_def, auto simp: res_simps split: if_splits)
  have a: "tr_agents s4 = \<lparr>ag_count = Some 1, ag_at = [0 \<mapsto> agent], ag_policies = [agent \<mapsto> ?a],
      ag_pending = Map.empty, ag_windows = Map.empty\<rparr>"
    and same: "tr_gov s4 = tr_gov s3" "tr_usage s4 = tr_usage s3" "tr_net s4 = tr_net s3"
      "tr_index s4 = tr_index s3" "tr_vault s4 = tr_vault s3" "tr_world s4 = tr_world s3"
    using s4 s3(3) by (auto simp: write_agent_def Let_def agent_count_of_def tr_simps tr_deployed_def
        split: if_splits)
  have "tr_gov s = tr_gov s3" "tr_usage s = tr_usage s3" "tr_net s = tr_net s3" "tr_index s = tr_index s3"
      "tr_agents s = tr_agents s4" "tr_world s = tr_world s3"
    using s same by (auto elim!: tr_mint_ok)
  note f = this [unfolded s3]
  have "vault_ok (tr_vault s4)" using same s3(6) vault_ok_empty by (simp add: vault_ok_def)
  then have "vault_ok (tr_vault s)" using s by (auto elim!: tr_mint_ok dest: mint_vault_ok)
  moreover have "ensure_settler s = Inr ()"
    using f(5) a role_all_settles by (simp add: ensure_settler_def agent_count_of_def can_settle_def)
  moreover have "net_ok (tr_net (tr_deployed wd))"
    by (simp add: net_ok_def tr_deployed_def net_total_def)
  ultimately show "tr_inv s"
    using f a by (simp add: tr_inv_def windows_ok_def window_ok_empty index_ok_empty)
  show "tr_usage s = Some (empty_window (e_now E div BUCKET_SECONDS))" by (rule f(2))
  show "ag_windows (tr_agents s) = Map.empty" using f(5) a by simp
  show "gv_pending_config (tr_gov s) = None" "gv_config_delay (tr_gov s) = Some delay"
      "gv_global (tr_gov s) = Some g" "tr_world s = wd"
    using f by (simp_all add: tr_deployed_def)
  show "MIN_CONFIG_DELAY \<le> delay" by (rule delay)
qed

section \<open>The history of spends\<close>

text \<open>The spends of a sequence of calls, and those of one agent: time and amount.\<close>

fun spends :: "(env \<times> 'w tr_call) list \<Rightarrow> (nat \<times> int) list" where
  "spends [] = []"
| "spends ((E, c) # cs) =
     (case spend_of c of None \<Rightarrow> spends cs | Some (a, n) \<Rightarrow> (e_now E, n) # spends cs)"

fun agent_spends :: "address \<Rightarrow> (env \<times> 'w tr_call) list \<Rightarrow> (nat \<times> int) list" where
  "agent_spends agent [] = []"
| "agent_spends agent ((E, c) # cs) =
     (case spend_of c of None \<Rightarrow> agent_spends agent cs
      | Some (a, n) \<Rightarrow> if a = agent then (e_now E, n) # agent_spends agent cs else agent_spends agent cs)"

text \<open>What was spent in the 24 hours up to \<open>t\<close>.\<close>

definition day_total :: "(nat \<times> int) list \<Rightarrow> nat \<Rightarrow> int" where
  "day_total xs t = sum_list (map (\<lambda>(now, n). if t < now + DAY_SECONDS \<and> now \<le> t then n else 0) xs)"

definition charge_of :: "nat \<times> int \<times> int \<Rightarrow> nat \<times> int" where
  "charge_of c = (fst c, fst (snd c))"

lemma charge_of [simp]: "charge_of (now, n, cap) = (now, n)"
  by (simp add: charge_of_def)

lemma in_day_total: "in_day ds t = day_total (map charge_of ds) t"
  by (induction ds) (auto simp: in_day_def day_total_def)

lemma spends_snoc:
  "spends (cs @ [(E, c)]) = spends cs @ (case spend_of c of None \<Rightarrow> [] | Some (a, n) \<Rightarrow> [(e_now E, n)])"
  by (induction cs rule: spends.induct) (auto split: option.splits)

lemma agent_spends_snoc:
  "agent_spends agent (cs @ [(E, c)]) = agent_spends agent cs
     @ (case spend_of c of None \<Rightarrow> [] | Some (a, n) \<Rightarrow> if a = agent then [(e_now E, n)] else [])"
  by (induction agent cs rule: agent_spends.induct) (auto split: option.splits)

lemma agent_spends_subset: "set (agent_spends a cs) \<subseteq> set (spends cs)"
proof (induction cs)
  case (Cons x cs)
  obtain E c where "x = (E, c)" by (cases x)
  then show ?case using Cons by (auto split: option.splits)
qed simp

lemma spends_times: "p \<in> set (spends cs) \<Longrightarrow> \<exists>x\<in>set cs. fst p = e_now (fst x)"
proof (induction cs)
  case (Cons x cs)
  obtain E c where "x = (E, c)" by (cases x)
  then show ?case using Cons by (auto split: option.splits)
qed simp

lemma sorted_spends:
  "sorted (map (e_now \<circ> fst) cs) \<Longrightarrow> sorted (map fst (spends cs)) \<and> sorted (map fst (agent_spends a cs))"
proof (induction cs)
  case (Cons x cs)
  obtain E c where x: "x = (E, c)" by (cases x)
  have "e_now E \<le> fst p" if "p \<in> set (spends cs)" for p
    using spends_times [OF that] Cons.prems x by auto
  moreover from this have "e_now E \<le> fst p" if "p \<in> set (agent_spends a cs)" for p
    using that agent_spends_subset by blast
  ultimately show ?case using Cons x by (auto split: option.splits)
qed simp

text \<open>A call that does not spend leaves the windows alone.\<close>

lemma quiet_exec:
  assumes "tr_exec P E c s = Inr s'" and "tr_inv s" and "spend_of c = None"
  shows "tr_usage s' = tr_usage s" and "ag_windows (tr_agents s') = ag_windows (tr_agents s)"
proof -
  obtain g where g: "gv_global (tr_gov s) = Some g" using assms(2) by (auto simp: tr_inv_def)
  consider "settling c" | "configuring c" | "banking c" using call_kind [of c] assms(3) by auto
  then have "tr_usage s' = tr_usage s \<and> ag_windows (tr_agents s') = ag_windows (tr_agents s)"
  proof cases
    case 1
    then show ?thesis using settling_exec [OF assms(1) _ g] by (auto simp: settles_def)
  next
    case 2
    then show ?thesis using configuring_exec [OF assms(1) _ g] by (simp add: governs_def same_books_def)
  next
    case 3
    then show ?thesis using banking_exec [OF assms(1) _ g] by (simp add: banks_def)
  qed
  then show "tr_usage s' = tr_usage s" and "ag_windows (tr_agents s') = ag_windows (tr_agents s)" by auto
qed

text \<open>The treasury's window was charged with exactly the spends of the history.\<close>

lemma run_charges:
  assumes "tr_run P cs s0 = Inr s" and "tr_inv s0" and "tr_usage s0 = Some w0"
  shows "\<exists>ds w. map charge_of ds = spends cs \<and> charge_all ds w0 = Inr w \<and> tr_usage s = Some w
           \<and> (\<forall>d\<in>set ds. 0 < fst (snd d))"
  using assms(1)
proof (induction cs arbitrary: s rule: rev_induct)
  case Nil
  then show ?case using assms(3) by (intro exI [of _ "[]"] exI [of _ w0]) simp
next
  case (snoc x cs)
  obtain E c where x: "x = (E, c)" by (cases x)
  obtain t where t: "tr_run P cs s0 = Inr t" "tr_exec P E c t = Inr s"
    using snoc.prems unfolding x tr_run_snoc by blast
  have inv: "tr_inv t" by (rule tr_run_inv [OF t(1) assms(2)])
  obtain ds w where IH: "map charge_of ds = spends cs" "charge_all ds w0 = Inr w" "tr_usage t = Some w"
      "\<forall>d\<in>set ds. 0 < fst (snd d)"
    using snoc.IH [OF t(1)] by blast
  show ?case
  proof (cases "spend_of c")
    case None
    then show ?thesis using IH quiet_exec(1) [OF t(2) inv None] x by (auto simp: spends_snoc)
  next
    case (Some an)
    obtain a n where an: "an = (a, n)" by (cases an)
    obtain g where g: "gv_global (tr_gov t) = Some g" using inv by (auto simp: tr_inv_def)
    from spend_exec [OF t(2) Some [unfolded an] g] show ?thesis
    proof (rule spentE)
      fix g policy v w' aw' tot atot i
      assume "0 < n" "load_window E t = Inr v"
        "consume_window v (e_now E) n (gc_max_daily g) = Inr (tot, w')" "tr_usage s = Some w'"
      moreover have "v = w" using \<open>load_window E t = Inr v\<close> IH(3) by (simp add: load_window_usage)
      ultimately show ?thesis using IH Some an x
        by (intro exI [of _ "ds @ [(e_now E, n, gc_max_daily g)]"] exI [of _ w'])
          (auto simp: spends_snoc charge_all_snoc)
    qed
  qed
qed

text \<open>An agent's window was charged with exactly that agent's spends since its first one.\<close>

lemma run_agent_charges:
  assumes "tr_run P cs s0 = Inr s" and "tr_inv s0" and "ag_windows (tr_agents s0) = Map.empty"
  shows "(agent_spends agent cs = [] \<and> ag_windows (tr_agents s) agent = None)
    \<or> (\<exists>ds w. map charge_of ds = agent_spends agent cs \<and> ds \<noteq> [] \<and> ag_windows (tr_agents s) agent = Some w
         \<and> charge_all ds (empty_window (fst (hd ds) div BUCKET_SECONDS)) = Inr w
         \<and> (\<forall>d\<in>set ds. 0 < fst (snd d)))"
  using assms(1)
proof (induction cs arbitrary: s rule: rev_induct)
  case Nil
  then show ?case using assms(3) by simp
next
  case (snoc x cs)
  obtain E c where x: "x = (E, c)" by (cases x)
  obtain t where t: "tr_run P cs s0 = Inr t" "tr_exec P E c t = Inr s"
    using snoc.prems unfolding x tr_run_snoc by blast
  have inv: "tr_inv t" by (rule tr_run_inv [OF t(1) assms(2)])
  note IH = snoc.IH [OF t(1)]
  show ?case
  proof (cases "spend_of c")
    case None
    then show ?thesis using IH quiet_exec(2) [OF t(2) inv None] x by (auto simp: agent_spends_snoc)
  next
    case (Some an)
    obtain a n where an: "an = (a, n)" by (cases an)
    obtain g where g: "gv_global (tr_gov t) = Some g" using inv by (auto simp: tr_inv_def)
    from spend_exec [OF t(2) Some [unfolded an] g] show ?thesis
    proof (rule spentE)
      fix g policy v w' aw' tot atot i
      assume n: "0 < n" and consume: "consume_window (load_agent_window E a t) (e_now E) n (ap_max_daily policy) = Inr (atot, aw')"
        and upd: "ag_windows (tr_agents s) = (ag_windows (tr_agents t))(a \<mapsto> aw')"
      show ?thesis
      proof (cases "a = agent")
        case False
        then show ?thesis using IH upd Some an x by (auto simp: agent_spends_snoc)
      next
        case True
        show ?thesis
        proof (cases "ag_windows (tr_agents t) agent")
          case None
          then have "agent_spends agent cs = []" using IH by auto
          moreover have "load_agent_window E agent t = empty_window (e_now E div BUCKET_SECONDS)"
            using None by (simp add: load_agent_window_def)
          ultimately show ?thesis using consume upd n Some an x True
            by (intro disjI2 exI [of _ "[(e_now E, n, ap_max_daily policy)]"] exI [of _ aw'])
              (simp add: agent_spends_snoc)
        next
          case (Some w)
          then obtain ds where ds: "map charge_of ds = agent_spends agent cs" "ds \<noteq> []"
              "charge_all ds (empty_window (fst (hd ds) div BUCKET_SECONDS)) = Inr w"
              "\<forall>d\<in>set ds. 0 < fst (snd d)" using IH by auto
          moreover have "load_agent_window E agent t = w" using Some by (simp add: load_agent_window_def)
          ultimately show ?thesis using consume upd n \<open>spend_of c = Some an\<close> an x True
            by (intro disjI2 exI [of _ "ds @ [(e_now E, n, ap_max_daily policy)]"] exI [of _ aw'])
              (auto simp: agent_spends_snoc charge_all_snoc)
        qed
      qed
    qed
  qed
qed

section \<open>Caps over any day\<close>

text \<open>A charge to a window that holds the history \<open>ds\<close> since its creation.\<close>

lemma charge_day_cap:
  assumes "charge_all ds (empty_window h) = Inr w" and "window_ok w"
    and "consume_window w now n cap = Inr (tot, w')" and "sorted (map fst ds @ [now])"
    and "\<forall>d\<in>set ds. 0 < fst (snd d)" and "0 < n"
    and "\<forall>d\<in>set ds. h \<le> fst d div BUCKET_SECONDS" and "h \<le> now div BUCKET_SECONDS"
  shows "day_total (map charge_of ds @ [(now, n)]) now \<le> cap"
proof -
  have all: "charge_all (ds @ [(now, n, cap)]) (empty_window h) = Inr w'"
    using assms(1,3) by (auto simp: charge_all_snoc)
  have empty: "\<forall>x. 0 \<le> window_at (empty_window h) x" by (simp add: window_at_empty)
  have "uw_head_hour (empty_window h) = h" by (simp add: empty_window_def)
  then have "in_day (ds @ [(now, n, cap)]) now \<le> cap"
    using assms(4-8) by (intro charges_bounded [OF all window_ok_empty empty]) fastforce+
  then show ?thesis by (simp add: in_day_total)
qed

end
