(* ===== verification/TreasuryDemo.thy ===== *)
theory TreasuryDemo
  imports TreasuryCalls
begin

text \<open>
  A concrete treasury for the instances of the properties: one collateral token, a market
  contract that sells shares one to one at an even price, a lending pool that only takes and
  gives collateral. The states are those the entry points return.
\<close>

text \<open>Token 50, market contract 100, treasury 200, admin 9, agent 3, depositor 1, lending pool 70.\<close>

definition moved :: "address \<Rightarrow> address \<Rightarrow> int \<Rightarrow> (address \<Rightarrow> int) \<Rightarrow> (address \<Rightarrow> int) option" where
  "moved from to n w =
     (if 0 \<le> n \<and> n \<le> w from then let w1 = w(from := w from - n) in Some (w1(to := w1 to + n)) else None)"

definition demo_held :: market where
  "demo_held = \<lparr>mk_creator = 2, mk_question_hash = [], mk_resolution_hash = [], mk_meta_uri = [],
     mk_category = Other, mk_close_time = 1000000, mk_fee_bps = 100, mk_status = Open,
     mk_reserve_yes = 1000000000, mk_reserve_no = 1000000000, mk_sets_minted = 1000000000,
     mk_fees_accrued = 0, mk_lp_claimed = False\<rparr>"

text \<open>Market 0 is open, every other one resolved against Yes.\<close>

definition demo_market_at :: "nat \<Rightarrow> market" where
  "demo_market_at i = (if i = 0 then demo_held else demo_held\<lparr>mk_status := Resolved No\<rparr>)"

definition demo_position_at :: "nat \<Rightarrow> position" where
  "demo_position_at i = (if i = 0 then \<lparr>ps_yes = 4000000000, ps_no = 4000000000\<rparr> else \<lparr>ps_yes = 0, ps_no = 0\<rparr>)"

definition trap :: "('e, 'a) res" where
  "trap = Inl Trap"

definition demo_peers :: "(address \<Rightarrow> int) peers" where
  "demo_peers =
     \<lparr>pr_balance = (\<lambda>tok a w. w a),
      pr_transfer = (\<lambda>E tok from to n w. moved from to n w),
      pr_create_market = (\<lambda>E core a qh rh uri cat close seed bps w.
        andThen (unwrap (moved a core seed w)) (\<lambda>w. Inr (7, w))),
      pr_trade = (\<lambda>E core f a i out n lim bound w.
        if f = ''buy'' \<or> f = ''buy_v2'' then andThen (unwrap (moved a core n w)) (\<lambda>w. Inr (n, w))
        else andThen (unwrap (moved core a n w)) (\<lambda>w. Inr (n, w))),
      pr_get_price = (\<lambda>core i out w. Inr 5000),
      pr_quote_buy = (\<lambda>core i out n w. Inr n),
      pr_quote_sell = (\<lambda>core i out n w. Inr n),
      pr_get_market = (\<lambda>core i w. Inr (demo_market_at i)),
      pr_get_position = (\<lambda>core i a w. Inr (demo_position_at i)),
      pr_redeem = (\<lambda>E core a i w. trap),
      pr_claim_pool_remainder = (\<lambda>E core i w. trap),
      pr_redeem_many = (\<lambda>E core a ids w. trap),
      pr_claim_pool_remainders = (\<lambda>E core a ids w. trap),
      pr_claim_lp_fees = (\<lambda>E core i w. trap),
      pr_sweep_fees = (\<lambda>E core i w. trap),
      pr_transfer_position = (\<lambda>E core a b i out n w. trap),
      pr_transfer_lp = (\<lambda>E core i a w. trap),
      pr_submit = (\<lambda>E pool a b c rs w. moved 200 pool 1000 w),
      pr_positions = (\<lambda>pool a w. None),
      pr_register_spec = (\<lambda>E r i spec w. Some w),
      pr_network_id = [], pr_to_xdr = (\<lambda>spec. []), pr_sha256 = (\<lambda>xs. xs)\<rparr>"

definition demo_global :: global_config where
  "demo_global = \<lparr>gc_collateral = 50, gc_market_core = 100, gc_max_trade = 1000, gc_max_market = 5000,
     gc_max_daily = 6000, gc_max_net_exposure = 10000\<rparr>"

definition demo_creation :: creation_policy where
  "demo_creation = \<lparr>cp_max_seed = 1000, cp_max_markets_per_window = 5, cp_creation_window_secs = 2400,
     cp_min_close_horizon = 10, cp_max_close_horizon = 100000, cp_allowed_categories = 1\<rparr>"

definition at_time :: "nat \<Rightarrow> env" where
  "at_time now = \<lparr>e_now = now, e_seq = now, e_max_ttl = 3110400, e_self = 200, e_auth = (\<lambda>a. a \<noteq> 100)\<rparr>"

definition demo_funds :: "address \<Rightarrow> int" where
  "demo_funds = (\<lambda>_. 0)(200 := 1000000000, 1 := 1000000000000)"

definition built :: "(address \<Rightarrow> int) tr tr_res" where
  "built = tr_constructor demo_peers (at_time 100) 9 3 demo_global 86400 500 7 demo_creation
     (tr_deployed demo_funds)"

definition demo_agent :: agent_policy where
  "demo_agent = \<lparr>ap_roles = ROLE_ALL, ap_max_trade = 1000, ap_max_daily = 6000, ap_active = True\<rparr>"

definition treasury0 :: "(address \<Rightarrow> int) tr" where
  "treasury0 =
     \<lparr>tr_gov = \<lparr>gv_admin = Some 9, gv_config = None, gv_net_cap = None, gv_global = Some demo_global,
        gv_config_delay = Some 86400, gv_pending_config = None, gv_original_core = Some 100,
        gv_legacy_cores = Map.empty, gv_price_policy = Some DEFAULT_PRICE_POLICY,
        gv_pending_price = None, gv_successor = None\<rparr>,
      tr_agents = \<lparr>ag_count = Some 1, ag_at = [0 \<mapsto> 3], ag_policies = [3 \<mapsto> demo_agent],
        ag_pending = Map.empty, ag_windows = Map.empty\<rparr>,
      tr_risk = \<lparr>rk_paused = Some False, rk_admin_paused = Some False, rk_tripped = Some False,
        rk_acknowledged = Some False, rk_drawdown_cfg = Some \<lparr>dd_max_drawdown = 500, dd_window_days = 7\<rparr>,
        rk_pnl_days = Some (empty_pnl_days 0 7), rk_pnl = Map.empty,
        rk_realized = Map.empty, rk_creation_policy = Some demo_creation, rk_creation_buckets = Some []\<rparr>,
      tr_yield = \<lparr>yl_venue = None, yl_principal = Some 0\<rparr>,
      tr_usage = Some (empty_window 0), tr_daily = None, tr_exposure = Map.empty,
      tr_net = \<lparr>nb_total = None, nb_net = Map.empty\<rparr>, tr_index = empty_index,
      tr_vault = empty_vault\<lparr>vl_shares := [9 \<mapsto> 999999999000], vl_total_shares := Some 1000000000000\<rparr>,
      tr_world = demo_funds, tr_events = [EvAgentPolicySet 3 ROLE_ALL 1000 6000]\<rparr>"

lemmas demo_consts = demo_global_def demo_creation_def demo_agent_def at_time_def demo_peers_def
  i128_defs u64_max_def u32_max_def MIN_CONFIG_DELAY_def CREATION_BUCKETS_def DAY_SECONDS_def BUCKET_SECONDS_def
  BUCKETS_def MAX_AGENTS_def VIRTUAL_SHARES_def VIRTUAL_ASSETS_def MIN_DEPOSIT_def BPS_def
  MAX_OPEN_MARKETS_def

lemmas demo_vault_defs = tr_mint_def mint_shares_def shares_for_deposit_def tr_mul_div_floor_def
  share_supply_def empty_vault_def shares_of_def

lemma built: "built = Inr treasury0"
  unfolding built_def
  by (simp add: tr_constructor_def tr_deployed_def validate_global_def validate_drawdown_config_def
      validate_creation_policy_def write_agent_def agent_count_of_def idle_def tr_simps demo_consts Let_def
      demo_vault_defs demo_funds_def treasury0_def)

text \<open>After the agent bought for 1000 in a market, and then for 500 more.\<close>

definition buy_call :: "nat \<Rightarrow> int \<Rightarrow> (address \<Rightarrow> int) tr_call" where
  "buy_call i n = TrAgentBuy 3 i Yes n 0 None"

definition demo_window :: "int \<Rightarrow> usage_window" where
  "demo_window n = \<lparr>uw_head_hour = 0, uw_amounts = [n, 0, 0, 0, 0, 0, 0, 0, 0, 0, 0, 0, 0, 0, 0, 0, 0, 0, 0, 0, 0, 0, 0, 0, 0], uw_head_idx = 0\<rparr>"

definition bought :: "nat \<Rightarrow> int \<Rightarrow> (address \<Rightarrow> int) \<Rightarrow> tr_event list \<Rightarrow> (address \<Rightarrow> int) tr" where
  "bought i n w ev = treasury0
     \<lparr>tr_agents := (tr_agents treasury0)\<lparr>ag_windows := [3 \<mapsto> demo_window n]\<rparr>,
      tr_risk := (tr_risk treasury0)\<lparr>rk_pnl := [i \<mapsto> \<lparr>pl_cost = n, pl_proceeds = 0, pl_realized = False\<rparr>]\<rparr>,
      tr_usage := Some (demo_window n), tr_exposure := [OriginalKey i \<mapsto> \<lparr>me_amount = n, me_open = True\<rparr>],
      tr_net := \<lparr>nb_total = Some n, nb_net = [OriginalKey i \<mapsto> \<lparr>np_collateral_in = n, np_collateral_out = 0\<rparr>]\<rparr>,
      tr_index := \<lparr>oi_count = Some 1, oi_at = [0 \<mapsto> \<lparr>om_core = 100, om_market_id = i\<rparr>], oi_slot = [(100, i) \<mapsto> 0]\<rparr>,
      tr_world := w, tr_events := ev\<rparr>"

definition treasury1 :: "nat \<Rightarrow> (address \<Rightarrow> int) tr" where
  "treasury1 i = bought i 1000 (demo_funds(200 := 999999000, 100 := 1000))
     [EvAgentPolicySet 3 ROLE_ALL 1000 6000, EvTradeAuthorized i 3 1000 1000 1000,
      EvNetExposureUpdated i 1000 1000]"

definition treasury2 :: "(address \<Rightarrow> int) tr" where
  "treasury2 = bought 0 1500 (demo_funds(200 := 999998500, 100 := 1500))
     [EvAgentPolicySet 3 ROLE_ALL 1000 6000, EvTradeAuthorized 0 3 1000 1000 1000,
      EvNetExposureUpdated 0 1000 1000, EvTradeAuthorized 0 3 500 1500 1500,
      EvNetExposureUpdated 0 1500 1500]"

lemmas spend_defs = do_agent_buy_def agent_buy_def tr_assert_not_paused_def flag_def load_global_def
  require_agent_def require_auth_def check_trade_size_def ensure_unreserved_def reserved_def
  load_price_policy_def DEFAULT_PRICE_POLICY_def ensure_liquid_def idle_def push_bound_def nat_diff_def
  reserve_capacity_def load_window_def load_agent_window_def market_exposure_def core_key_def
  is_original_core_def consume_window_def advance_def window_sum_def vec_set_def on_index_def index_add_def
  open_count_def save_exposure_def reserve_net_def load_net_def save_net_def put_net_def net_at_def
  no_position_def cost_basis_def net_total_def saturate_i128_def record_cost_def load_pnl_def
  tr_mul_div_floor_def moved_def drop_result_def empty_window_def empty_vault_def empty_index_def add_u32_def sub_i128_def

lemma roles_ok: "ROLE_ALL AND ROLE_TRADE \<noteq> 0" "ROLE_ALL AND ROLE_SETTLE \<noteq> 0" "ROLE_ALL AND ROLE_CREATE \<noteq> 0"
  by (simp_all add: ROLE_ALL_def ROLE_CREATE_def ROLE_TRADE_def ROLE_SETTLE_def)

lemma empty_buckets: "replicate 25 (0 :: int) = [0, 0, 0, 0, 0, 0, 0, 0, 0, 0, 0, 0, 0, 0, 0, 0, 0, 0, 0, 0, 0, 0, 0, 0, 0]"
  by (simp add: numeral_eq_Suc)

lemma bought_1000: "tr_exec demo_peers (at_time 200) (buy_call i 1000) treasury0 = Inr (treasury1 i)"
  by (simp add: buy_call_def treasury0_def treasury1_def bought_def demo_window_def spend_defs tr_simps demo_consts
      Let_def roles_ok demo_funds_def empty_buckets)

lemma bought_500: "tr_exec demo_peers (at_time 300) (buy_call 0 500) (treasury1 0) = Inr treasury2"
  by (simp add: buy_call_def treasury0_def treasury1_def treasury2_def bought_def demo_window_def spend_defs
      tr_simps demo_consts Let_def roles_ok demo_funds_def empty_buckets)

text \<open>After the loss of the 1000 in a market that resolved against the purchase was realized.\<close>

definition treasury_stopped :: "(address \<Rightarrow> int) tr" where
  "treasury_stopped = tr_publish (EvDrawdownPause 1000 0 1)
     (upd_risk (\<lambda>r. r\<lparr>rk_paused := Some True, rk_tripped := Some True, rk_acknowledged := Some False,
        rk_pnl := [1 \<mapsto> \<lparr>pl_cost = 1000, pl_proceeds = 0, pl_realized = True\<rparr>],
        rk_pnl_days := Some \<lparr>py_head_day = 0, py_amounts = [-1000, 0, 0, 0, 0, 0, 0], py_head_idx = 0\<rparr>\<rparr>)
       (tr_publish (EvPnlRealized 1 1000 0 (-1000)) (treasury1 1)))"

lemma empty_days: "replicate 7 (0 :: int) = [0, 0, 0, 0, 0, 0, 0]"
  by (simp add: numeral_eq_Suc)

lemma loss_realized: "tr_exec demo_peers (at_time 300) (TrRealize 1) (treasury1 1) = Inr treasury_stopped"
  by (simp add: treasury0_def treasury1_def bought_def treasury_stopped_def realize_def try_realize_def
      load_global_def demo_market_at_def demo_position_at_def demo_held_def load_pnl_def settled_in_def add_daily_pnl_def
      load_drawdown_cfg_def advance_pnl_days_def empty_pnl_days_def empty_days vec_set_def check_drawdown_def
      calc_window_pnl_def flag_def tr_simps demo_consts Let_def sub_nat_def sub_i128_def)

text \<open>After the admin asked for half of all shares, of which the idle collateral pays only a part, and
  after collateral came back and a part of the ticket was paid.\<close>

definition demo_ticket :: "int \<Rightarrow> withdraw_ticket_rec" where
  "demo_ticket n = \<lparr>wt_owner = 9, wt_remaining = n, wt_created_at = 300\<rparr>"

definition queued :: "int \<Rightarrow> vault" where
  "queued n = \<lparr>vl_shares = [9 \<mapsto> 499999999000], vl_total_shares = Some 500000000000, vl_head = None,
     vl_tail = Some 2, vl_tickets = [1 \<mapsto> demo_ticket n], vl_reserved = Some n\<rparr>"

definition treasury_queued :: "(address \<Rightarrow> int) tr" where
  "treasury_queued = tr_publish (EvWithdrawRequested 9 500000000000 2499999498 999999000 1)
     ((treasury1 0)\<lparr>tr_vault := queued 1500000498,
        tr_world := demo_funds(100 := 1000, 200 := 0, 9 := 999999000)\<rparr>)"

definition refunded :: "address \<Rightarrow> int" where
  "refunded = demo_funds(200 := 500000000, 100 := 1000, 9 := 999999000)"

definition treasury_paid :: "(address \<Rightarrow> int) tr" where
  "treasury_paid = tr_publish (EvWithdrawPaid 1 500000000)
     (treasury_queued\<lparr>tr_vault := queued 1000000498,
        tr_world := demo_funds(200 := 0, 100 := 1000, 9 := 1499999000)\<rparr>)"

lemmas vault_eval = load_global_def compute_nav_def idle_def open_count_def holdings_value_def core_call.simps
  demo_market_at_def demo_position_at_def demo_held_def owns_pool_def sat_add_def sat_mul_def saturate_i128_def
  reserved_def share_supply_def shares_of_def assets_for_shares_def tr_mul_div_floor_def burn_shares_def
  queue_ticket_def pay_ticket_def queue_tail_def queue_head_def pay_def moved_def queued_def demo_ticket_def
  require_auth_def sub_i128_def add_u64_def empty_vault_def

lemma demo_prices:
  "sat_mul 1000000000 BPS sdiv 2000000000 = 5000" "\<not> owns_pool (at_time 300) demo_held"
  "sat_add (sat_mul 4000000000 5000) (sat_mul 4000000000 5000) sdiv BPS = 4000000000"
  "sat_add 4000000000 0 = 4000000000" "sat_add 1000000000 1000000000 = 2000000000"
  by (simp_all add: sat_mul_def sat_add_def saturate_i128_def i128_defs BPS_def signed_divide_int_def owns_pool_def
      at_time_def demo_held_def)

lemma demo_held_fields: "mk_reserve_yes demo_held = 1000000000" "mk_reserve_no demo_held = 1000000000"
    "mk_status demo_held = Open"
  by (simp_all add: demo_held_def)

lemma demo_holdings: "holdings_value demo_peers (at_time 300) 100 0 w = Inr (4000000000, 4000000000)"
proof -
  have "sub_i128 BPS 5000 = (Inr 5000 :: int tr_res)" by (simp add: sub_i128_def BPS_def i128_defs)
  moreover have "core_call (pr_get_market demo_peers 100 0 w) = Inr demo_held"
    "core_call (pr_get_position demo_peers 100 0 (e_self (at_time 300)) w) = Inr (demo_position_at 0)"
    by (simp_all add: demo_peers_def demo_market_at_def)
  ultimately show ?thesis
    by (simp add: holdings_value_def demo_position_at_def demo_prices demo_held_fields Let_def)
qed

lemma nav_before: "compute_nav demo_peers (at_time 300) demo_global (treasury1 0) = Inr 4999999000"
proof -
  have "tr_index (treasury1 0) = \<lparr>oi_count = Some 1, oi_at = [0 \<mapsto> \<lparr>om_core = 100, om_market_id = 0\<rparr>],
      oi_slot = [(100, 0) \<mapsto> 0]\<rparr>" by (simp add: treasury1_def bought_def)
  moreover have "idle demo_peers (at_time 300) demo_global (treasury1 0) = 999999000"
    by (simp add: idle_def demo_consts treasury1_def bought_def demo_funds_def)
  moreover have "reserved (tr_vault (treasury1 0)) = 0"
    by (simp add: reserved_def treasury1_def bought_def treasury0_def empty_vault_def)
  ultimately show ?thesis
    by (simp add: compute_nav_def open_count_def demo_holdings i128_defs saturate_i128_def)
qed

lemma half_burnt: "burn_shares 9 500000000000 (tr_vault (treasury1 0))
    = Inr ((tr_vault (treasury1 0))\<lparr>vl_shares := [9 \<mapsto> 499999999000], vl_total_shares := Some 500000000000\<rparr>)"
  by (simp add: burn_shares_def shares_of_def share_supply_def treasury1_def bought_def treasury0_def sub_i128_def
      i128_defs)

lemma half_worth: "assets_for_shares 500000000000 4999999000 (share_supply (tr_vault (treasury1 0))) = Some 2499999498"
  by (simp add: assets_for_shares_def tr_mul_div_floor_def share_supply_def treasury1_def bought_def treasury0_def
      i128_defs VIRTUAL_SHARES_def VIRTUAL_ASSETS_def)

lemma half_held: "shares_of 9 (tr_vault (treasury1 0)) = 999999999000"
  by (simp add: shares_of_def treasury1_def bought_def treasury0_def)

lemma idle_before: "idle demo_peers (at_time 300) demo_global (treasury1 0) = 999999000"
  by (simp add: idle_def demo_consts treasury1_def bought_def demo_funds_def)

lemma configured: "load_global demo_peers E (treasury1 0) = Inr (demo_global, treasury1 0)"
  by (simp add: load_global_def treasury1_def bought_def treasury0_def)

lemma idle_same: "idle P E g (s\<lparr>tr_vault := v\<rparr>) = idle P E g s"
  by (simp add: idle_def)

lemma demo_requested:
  "tr_exec demo_peers (at_time 300) (TrRequestWithdraw 9 500000000000) (treasury1 0) = Inr treasury_queued"
proof -
  let ?v = "(tr_vault (treasury1 0))\<lparr>vl_shares := [9 \<mapsto> 499999999000], vl_total_shares := Some 500000000000\<rparr>"
  have "e_auth (at_time 300) 9" by (simp add: at_time_def)
  moreover have "reserved ?v = 0"
    by (simp add: reserved_def treasury1_def bought_def treasury0_def empty_vault_def)
  moreover have "pay demo_peers (at_time 300) demo_global (e_self (at_time 300)) 9 999999000
      ((treasury1 0)\<lparr>tr_vault := ?v\<rparr>)
    = Inr ((treasury1 0)\<lparr>tr_vault := ?v, tr_world := demo_funds(100 := 1000, 200 := 0, 9 := 999999000)\<rparr>)"
    by (simp add: pay_def demo_peers_def at_time_def moved_def treasury1_def bought_def demo_funds_def
        demo_global_def)
  moreover have "queue_ticket 9 1500000498 (e_now (at_time 300)) 0 ?v = Inr (1, queued 1500000498)"
    by (simp add: queue_ticket_def queue_tail_def treasury1_def bought_def treasury0_def empty_vault_def add_u64_def
        u64_max_def i128_defs queued_def demo_ticket_def at_time_def)
  ultimately show ?thesis
    by (simp add: request_withdraw_def configured nav_before half_burnt half_worth half_held idle_before idle_same
        require_auth_def saturate_i128_def Let_def drop_result_def sub_i128_def i128_defs treasury_queued_def tr_publish_def)
qed

lemma demo_claimed:
  "tr_exec demo_peers (at_time 500) (TrClaimWithdraw 1) (treasury_queued\<lparr>tr_world := refunded\<rparr>)
    = Inr treasury_paid"
  by (simp add: claim_withdraw_def treasury0_def treasury1_def bought_def treasury_queued_def treasury_paid_def
      refunded_def load_global_def idle_def queued_def queue_head_def pay_def moved_def pay_ticket_def reserved_def
      demo_ticket_def sub_i128_def drop_result_def tr_simps demo_consts Let_def demo_funds_def)
    (auto simp: fun_eq_iff)

end
