(* ===== verification/TreasuryProps.thy ===== *)
theory TreasuryProps
  imports TreasuryInv TreasuryDemo
begin

text \<open>
  Properties of the treasury over any sequence of calls after its constructor: what agents may
  spend, the books, the delay of loosened caps, the drawdown pause.
\<close>

section \<open>Spending caps\<close>

lemma spend_times:
  assumes "sorted (t0 # map (e_now \<circ> fst) cs @ [now])"
  shows "sorted (map fst (spends cs) @ [now])" and "sorted (map fst (agent_spends a cs) @ [now])"
    and "\<forall>t\<in>set (map fst (spends cs)). t0 \<le> t" and "t0 \<le> now"
  using assms sorted_spends [of cs a] spends_times [of _ cs] agent_spends_subset [of a cs]
  by (fastforce simp: sorted_append)+

lemma map_fst_charge: "map fst (map charge_of ds) = map fst ds"
  by (simp add: charge_of_def)

lemma treasury_day_cap:
  assumes "tr_run P cs s0 = Inr s" and "tr_inv s0" and "tr_usage s0 = Some (empty_window (t0 div BUCKET_SECONDS))"
    and "load_window E s = Inr w" and "consume_window w (e_now E) n cap = Inr (tot, w')" and "0 < n"
    and "sorted (t0 # map (e_now \<circ> fst) cs @ [e_now E])"
  shows "day_total (spends cs @ [(e_now E, n)]) (e_now E) \<le> cap"
proof -
  obtain ds v where ds: "map charge_of ds = spends cs"
      "charge_all ds (empty_window (t0 div BUCKET_SECONDS)) = Inr v" "tr_usage s = Some v"
      "\<forall>d\<in>set ds. 0 < fst (snd d)"
    using run_charges [OF assms(1-3)] by blast
  note times = spend_times [OF assms(7), folded ds(1), unfolded map_fst_charge]
  have v: "v = w" using assms(4) ds(3) by (simp add: load_window_usage)
  have "window_ok v" using tr_run_inv [OF assms(1,2)] ds(3) by (auto simp: tr_inv_def windows_ok_def)
  then show ?thesis
    using charge_day_cap [OF ds(2) _ assms(5) [folded v] times(1) ds(4) assms(6)] times(3,4) ds(1)
    by (simp add: div_le_mono)
qed

lemma agent_day_cap:
  assumes "tr_run P cs s0 = Inr s" and "tr_inv s0" and "ag_windows (tr_agents s0) = Map.empty"
    and "consume_window (load_agent_window E a s) (e_now E) n cap = Inr (tot, w')" and "0 < n"
    and "sorted (t0 # map (e_now \<circ> fst) cs @ [e_now E])"
  shows "day_total (agent_spends a cs @ [(e_now E, n)]) (e_now E) \<le> cap"
  using run_agent_charges [OF assms(1-3), of a]
proof (elim disjE conjE exE)
  assume none: "agent_spends a cs = []" "ag_windows (tr_agents s) a = None"
  then have "load_agent_window E a s = empty_window (e_now E div BUCKET_SECONDS)"
    by (simp add: load_agent_window_def)
  then show ?thesis
    using charge_day_cap [of "[]" "e_now E div BUCKET_SECONDS", OF _ window_ok_empty] assms(4,5) none(1)
    by simp
next
  fix ds w
  assume ds: "map charge_of ds = agent_spends a cs" "ds \<noteq> []" "ag_windows (tr_agents s) a = Some w"
    "charge_all ds (empty_window (fst (hd ds) div BUCKET_SECONDS)) = Inr w" "\<forall>d\<in>set ds. 0 < fst (snd d)"
  note times = spend_times(2) [OF assms(6), of a, folded ds(1), unfolded map_fst_charge]
  then have hd: "\<forall>d\<in>set ds. fst (hd ds) \<le> fst d" "fst (hd ds) \<le> e_now E"
    using ds(2) by (cases ds; auto)+
  have w: "load_agent_window E a s = w" using ds(3) by (simp add: load_agent_window_def)
  have "window_ok w" using tr_run_inv [OF assms(1,2)] ds(3) by (auto simp: tr_inv_def windows_ok_def)
  then show ?thesis
    using charge_day_cap [OF ds(4) _ assms(4) [unfolded w] times ds(5) assms(5)] hd ds(1)
    by (simp add: div_le_mono)
qed

text \<open>C15. Whatever was called since the treasury was deployed, an agent's successful spend (a purchase or
  a market seed) brings what all agents spent in the 24 hours up to it to at most the daily cap in
  force, and what that agent spent in them to at most its own daily cap. The window only keeps
  hourly sums, and other calls, refused ones included, never change it.\<close>

theorem daily_caps_hold_any_day:
  assumes "tr_constructor P E0 admin agent0 g0 delay dd days pol (tr_deployed wd) = Inr s0"
    and "tr_run P cs s0 = Inr s" and "tr_exec P E c s = Inr s'" and "spend_of c = Some (a, n)"
    and "gv_global (tr_gov s) = Some g" and "ag_policies (tr_agents s) a = Some policy"
    and "sorted (e_now E0 # map (e_now \<circ> fst) cs @ [e_now E])"
  shows "day_total (spends (cs @ [(E, c)])) (e_now E) \<le> gc_max_daily g
    \<and> day_total (agent_spends a (cs @ [(E, c)])) (e_now E) \<le> ap_max_daily policy"
proof -
  note s0 = tr_constructor_ok [OF assms(1)]
  from spend_exec [OF assms(3,4,5)] show ?thesis
  proof (rule spentE)
    fix g' policy' w w' aw' tot atot i
    assume "0 < n" "gv_global (tr_gov s) = Some g'" "ag_policies (tr_agents s) a = Some policy'"
      and "load_window E s = Inr w" "consume_window w (e_now E) n (gc_max_daily g') = Inr (tot, w')"
      and "consume_window (load_agent_window E a s) (e_now E) n (ap_max_daily policy') = Inr (atot, aw')"
    then show ?thesis
      using treasury_day_cap [OF assms(2) s0(1,2) _ _ _ assms(7)]
        agent_day_cap [OF assms(2) s0(1,3) _ _ assms(7)] assms(4,5,6)
      by (simp add: spends_snoc agent_spends_snoc)
  qed
qed

theorem daily_caps_hold_any_day_witness:
  "day_total (spends ([(at_time 200, buy_call 0 1000)] @ [(at_time 300, buy_call 0 500)])) 300 \<le> 6000
    \<and> day_total (agent_spends 3 ([(at_time 200, buy_call 0 1000)] @ [(at_time 300, buy_call 0 500)])) 300 \<le> 6000"
proof -
  have "gv_global (tr_gov (treasury1 0)) = Some demo_global" "ag_policies (tr_agents (treasury1 0)) 3 = Some demo_agent"
    by (simp_all add: treasury1_def bought_def treasury0_def)
  from daily_caps_hold_any_day [OF built [unfolded built_def], of "[(at_time 200, buy_call 0 1000)]",
      OF _ bought_500 _ this] show ?thesis
    using bought_1000 by (simp add: at_time_def buy_call_def demo_global_def demo_agent_def)
qed

section \<open>The books\<close>

text \<open>C31. In every state of the treasury the running net exposure is the sum of the cost bases of
  all its markets, the reserve is what the queued tickets still ask for and the queue has no gaps,
  all shares but the thousand dead ones of the first mint are owned by someone (or none was ever
  minted), and the open-market index lists each market once, at most twelve of them.\<close>

theorem treasury_books_balance:
  assumes "tr_constructor P E0 admin agent0 g0 delay dd days pol (tr_deployed wd) = Inr s0"
    and "tr_run P cs s0 = Inr s"
  shows "net_exposure s = map_total cost_basis (nb_net (tr_net s))
    \<and> reserved (tr_vault s) = sum_list (map wt_remaining (queue_list (tr_vault s)))
    \<and> (\<forall>i. vl_tickets (tr_vault s) i \<noteq> None
          \<longleftrightarrow> queue_head (tr_vault s) \<le> i \<and> i < queue_tail (tr_vault s))
    \<and> (share_supply (tr_vault s) = 0 \<and> map_total id (vl_shares (tr_vault s)) = 0
       \<or> share_supply (tr_vault s) = map_total id (vl_shares (tr_vault s)) + VIRTUAL_SHARES)
    \<and> distinct (index_list (tr_index s)) \<and> set (index_list (tr_index s)) = index_set (tr_index s)
    \<and> length (index_list (tr_index s)) \<le> MAX_OPEN_MARKETS"
proof -
  have inv: "tr_inv s" by (rule tr_run_inv [OF assms(2) tr_constructor_ok(1) [OF assms(1)]])
  then have "length (index_list (tr_index s)) \<le> MAX_OPEN_MARKETS"
    by (simp add: tr_inv_def index_ok_def index_list_def)
  then show ?thesis
    using inv index_enum [of "tr_index s"]
    by (simp add: tr_inv_def net_ok_def net_exposure_def vault_ok_def queue_ok_def shares_ok_def)
qed

theorem treasury_books_balance_witness:
  "net_exposure treasury2 = map_total cost_basis (nb_net (tr_net treasury2))
    \<and> length (index_list (tr_index treasury2)) \<le> MAX_OPEN_MARKETS"
  using treasury_books_balance [OF built [unfolded built_def],
      of "[(at_time 200, buy_call 0 1000), (at_time 300, buy_call 0 500)]" treasury2]
    bought_1000 bought_500 by simp

text \<open>The treasury can always settle: whoever is added, changed or removed, in every state some
  registered agent is active and may settle markets.\<close>

lemma a_settler_remains:
  assumes "tr_constructor P E0 admin agent0 g0 delay dd days pol (tr_deployed wd) = Inr s0"
    and "tr_run P cs s0 = Inr s"
  shows "\<exists>k a p. k < agent_count_of s \<and> agent_at k s = Some a \<and> get_agent a s = Some p \<and> can_settle p"
proof -
  have "ensure_settler s = Inr ()"
    using tr_run_inv [OF assms(2) tr_constructor_ok(1) [OF assms(1)]] by (simp add: tr_inv_def)
  then obtain k where "k < agent_count_of s" and
      "case ag_at (tr_agents s) k of None \<Rightarrow> False
       | Some a \<Rightarrow> (case ag_policies (tr_agents s) a of None \<Rightarrow> False | Some p \<Rightarrow> can_settle p)"
    by (auto simp: ensure_settler_def list_ex_iff split: if_splits)
  then show ?thesis
    unfolding agent_at_def get_agent_def by - (rule exI [of _ k], auto split: option.split_asm)
qed

lemma a_settler_remains_witness:
  "\<exists>k a p. k < agent_count_of treasury2 \<and> agent_at k treasury2 = Some a \<and> get_agent a treasury2 = Some p
     \<and> can_settle p"
  using a_settler_remains [OF built [unfolded built_def],
      of "[(at_time 200, buy_call 0 1000), (at_time 300, buy_call 0 500)]" treasury2]
    bought_1000 bought_500 by simp

section \<open>Loosening waits\<close>

text \<open>The calls that may touch the configuration.\<close>

fun reconfigures :: "'w tr_call \<Rightarrow> bool" where
  "reconfigures (TrProposeConfig g) = True"
| "reconfigures TrExecuteConfig = True"
| "reconfigures TrCancelConfig = True"
| "reconfigures (TrSetConfigDelay d) = True"
| "reconfigures _ = False"

definition same_config :: "'w tr \<Rightarrow> 'w tr \<Rightarrow> bool" where
  "same_config s s' \<longleftrightarrow> gv_global (tr_gov s') = gv_global (tr_gov s)
     \<and> gv_pending_config (tr_gov s') = gv_pending_config (tr_gov s)
     \<and> gv_config_delay (tr_gov s') = gv_config_delay (tr_gov s)"

lemmas same_config_simps = tr_simps Let_def same_config_def

lemma agents_same_config:
  assumes "gv_global (tr_gov s) = Some g"
  shows "set_agent P E a p s = Inr s' \<Longrightarrow> same_config s s'"
    and "execute_agent P E a s = Inr s' \<Longrightarrow> same_config s s'"
    and "cancel_agent E a s = Inr s' \<Longrightarrow> same_config s s'"
    and "remove_agent E a s = Inr s' \<Longrightarrow> same_config s s'"
  subgoal unfolding set_agent_def load_global_configured [OF assms]
    by (auto simp: same_config_simps split: change.splits if_splits dest!: write_agent_books)
  subgoal unfolding execute_agent_def load_global_configured [OF assms]
    by (auto simp: same_config_simps split: if_splits dest!: write_agent_books)
  subgoal unfolding cancel_agent_def by (auto simp: same_config_simps split: if_splits)
  subgoal unfolding remove_agent_def by (auto simp: same_config_simps split: if_splits option.splits)
  done

lemma price_same_config:
  shows "set_price_policy E p s = Inr s' \<Longrightarrow> same_config s s'"
    and "execute_price_policy E s = Inr s' \<Longrightarrow> same_config s s'"
    and "cancel_price_policy E s = Inr s' \<Longrightarrow> same_config s s'"
  subgoal unfolding set_price_policy_def by (auto simp: same_config_simps split: if_splits change.splits)
  subgoal unfolding execute_price_policy_def by (auto simp: same_config_simps split: if_splits)
  subgoal unfolding cancel_price_policy_def by (auto simp: same_config_simps)
  done

lemma risk_same_config:
  assumes "gv_global (tr_gov s) = Some g"
  shows "tr_set_paused E b s = Inr s' \<Longrightarrow> same_config s s'"
    and "acknowledge_drawdown E s = Inr s' \<Longrightarrow> same_config s s'"
    and "reset_pnl_window E s = Inr s' \<Longrightarrow> same_config s s'"
    and "set_drawdown_config E x n s = Inr s' \<Longrightarrow> same_config s s'"
    and "set_creation_policy P E cp s = Inr s' \<Longrightarrow> same_config s s'"
    and "set_successor E a s = Inr s' \<Longrightarrow> same_config s s'"
  subgoal unfolding tr_set_paused_def by (auto simp: same_config_simps split: if_splits)
  subgoal unfolding acknowledge_drawdown_def by (auto simp: same_config_simps split: if_splits)
  subgoal unfolding reset_pnl_window_def by (auto simp: same_config_simps)
  subgoal unfolding set_drawdown_config_def by (auto simp: same_config_simps)
  subgoal unfolding set_creation_policy_def load_global_configured [OF assms]
    by (auto simp: same_config_simps split: if_splits)
  subgoal unfolding set_successor_def by (auto simp: same_config_simps)
  done

lemma exec_same_config:
  assumes "tr_exec P E c s = Inr s'" and "tr_inv s" and "\<not> reconfigures c"
  shows "same_config s s'"
proof -
  obtain g where g: "gv_global (tr_gov s) = Some g" using assms(2) by (auto simp: tr_inv_def)
  consider a n where "spend_of c = Some (a, n)" | "settling c" | "configuring c" | "banking c"
    using call_kind [of c] by auto
  then show ?thesis
  proof cases
    case 1
    then show ?thesis using spend_exec [OF assms(1) _ g] by (simp add: spent_def same_config_def)
  next
    case 2
    then show ?thesis using settling_exec [OF assms(1) _ g] by (auto simp: settles_def same_config_def)
  next
    case 3
    then show ?thesis using assms(1,3)
      by (cases c rule: configuring.cases)
        (simp_all add: agents_same_config [OF g] price_same_config risk_same_config [OF g] drop_result_eq
          load_global_configured [OF g], simp add: same_config_def)
  next
    case 4
    then show ?thesis using banking_exec [OF assms(1) _ g] by (simp add: banks_def same_config_def)
  qed
qed

text \<open>Every pending proposal was made by a call of the history, at least a day before it can run.\<close>

definition pending_waits :: "(env \<times> 'w tr_call) list \<Rightarrow> 'w tr \<Rightarrow> bool" where
  "pending_waits cs s \<longleftrightarrow> MIN_CONFIG_DELAY \<le> config_delay_of s
     \<and> (\<forall>p. gv_pending_config (tr_gov s) = Some p \<longrightarrow>
          (\<exists>E0. (E0, TrProposeConfig (pg_config p)) \<in> set cs
             \<and> e_now E0 + MIN_CONFIG_DELAY \<le> pg_executable_at p))"

lemma propose_config_cases:
  assumes "propose_config P E new s = Inr s'" and "gv_global (tr_gov s) = Some old"
  obtains (tightened) "classify_global old new = TightenOnly" "gv_global (tr_gov s') = Some new"
      "gv_pending_config (tr_gov s') = gv_pending_config (tr_gov s)"
      "gv_config_delay (tr_gov s') = gv_config_delay (tr_gov s)"
    | (proposed) p where "gv_global (tr_gov s') = Some old" "gv_pending_config (tr_gov s') = Some p"
      "gv_config_delay (tr_gov s') = gv_config_delay (tr_gov s)"
      "pg_config p = new" "pg_executable_at p = e_now E + config_delay_of s"
  using assms(1) unfolding propose_config_def load_global_configured [OF assms(2)]
  by (auto simp: tr_simps unlock_time_def assms(2) split: change.splits if_splits)

lemma execute_config_cases:
  assumes "execute_config P E s = Inr s'" and "gv_global (tr_gov s) = Some old"
  obtains p where "gv_pending_config (tr_gov s) = Some p" "pg_executable_at p \<le> e_now E"
      "gv_global (tr_gov s') = Some (pg_config p)" "gv_pending_config (tr_gov s') = None"
      "gv_config_delay (tr_gov s') = gv_config_delay (tr_gov s)"
proof -
  obtain p s1 ev where "gv_pending_config (tr_gov s) = Some p" "pg_executable_at p \<le> e_now E"
      "s' = tr_publish ev (upd_gov (\<lambda>v. v\<lparr>gv_global := Some (pg_config p), gv_pending_config := None\<rparr>) s1)"
      "gv_config_delay (tr_gov s1) = gv_config_delay (tr_gov s)"
    using assms(1) unfolding execute_config_def load_global_configured [OF assms(2)] Let_def
    by (auto simp: res_simps not_less upd_gov_def)
  then show thesis by (intro that [of p]) (simp_all add: tr_publish_def upd_gov_def)
qed

lemma run_pending_waits:
  assumes "tr_constructor P E0 admin agent0 g0 delay dd days pol (tr_deployed wd) = Inr s0"
    and "tr_run P cs s0 = Inr s"
  shows "pending_waits cs s"
  using assms(2)
proof (induction cs arbitrary: s rule: rev_induct)
  case Nil
  then show ?case using tr_constructor_ok [OF assms(1)] by (simp add: pending_waits_def config_delay_of_def)
next
  case (snoc x cs)
  obtain E c where x: "x = (E, c)" by (cases x)
  obtain t where t: "tr_run P cs s0 = Inr t" "tr_exec P E c t = Inr s"
    using snoc.prems unfolding x tr_run_snoc by blast
  have inv: "tr_inv t" by (rule tr_run_inv [OF t(1) tr_constructor_ok(1) [OF assms(1)]])
  then obtain g where g: "gv_global (tr_gov t) = Some g" by (auto simp: tr_inv_def)
  note IH = snoc.IH [OF t(1), unfolded pending_waits_def]
  show ?case
  proof (cases "reconfigures c")
    case False
    then show ?thesis using exec_same_config [OF t(2) inv False] IH x
      by (auto simp: pending_waits_def same_config_def config_delay_of_def)
  next
    case True
    then show ?thesis using t(2)
    proof (cases c rule: reconfigures.cases)
      case (1 new)
      then have p: "propose_config P E new t = Inr s" using t(2) by simp
      show ?thesis
        by (rule propose_config_cases [OF p g])
          (use IH x 1 in \<open>auto simp: pending_waits_def config_delay_of_def\<close>)
    next
      case 2
      then have "execute_config P E t = Inr s" using t(2) by simp
      then show ?thesis
        by (rule execute_config_cases [OF _ g]) (use IH in \<open>auto simp: pending_waits_def config_delay_of_def\<close>)
    next
      case 3
      then show ?thesis using t(2) IH
        by (auto simp: cancel_config_def tr_simps pending_waits_def config_delay_of_def)
    next
      case (4 d)
      then show ?thesis using t(2) IH x
        by (auto simp: set_config_delay_def tr_simps Let_def pending_waits_def config_delay_of_def
            split: if_splits)
    qed auto
  qed
qed

lemma loosened_needs_delay:
  "classify_global old new = NeedsDelay \<longleftrightarrow> gc_collateral new \<noteq> gc_collateral old
     \<or> gc_market_core new \<noteq> gc_market_core old \<or> gc_max_trade old < gc_max_trade new
     \<or> gc_max_market old < gc_max_market new \<or> gc_max_daily old < gc_max_daily new
     \<or> gc_max_net_exposure old < gc_max_net_exposure new"
  by (auto simp: classify_global_def classify_caps_def)

text \<open>C32. No cap of the treasury is raised, and neither its collateral nor its market contract replaced, but
  by executing a proposal of exactly the new configuration that some call made at least a day
  earlier; every other call leaves the configuration or only lowers caps.\<close>

theorem loosening_waits_a_day:
  assumes "tr_constructor P E0 admin agent0 g0 delay dd days pol (tr_deployed wd) = Inr s0"
    and "tr_run P cs s0 = Inr s" and "tr_exec P E c s = Inr s'"
    and "gv_global (tr_gov s) = Some old" and "gv_global (tr_gov s') = Some new"
    and "gc_collateral new \<noteq> gc_collateral old \<or> gc_market_core new \<noteq> gc_market_core old
      \<or> gc_max_trade old < gc_max_trade new \<or> gc_max_market old < gc_max_market new
      \<or> gc_max_daily old < gc_max_daily new \<or> gc_max_net_exposure old < gc_max_net_exposure new"
  shows "c = TrExecuteConfig
    \<and> (\<exists>E1. (E1, TrProposeConfig new) \<in> set cs \<and> e_now E1 + 86400 \<le> e_now E)"
proof -
  have loose: "classify_global old new = NeedsDelay" using assms(6) by (simp add: loosened_needs_delay)
  then have neq: "new \<noteq> old" by (auto simp: loosened_needs_delay)
  have inv: "tr_inv s" by (rule tr_run_inv [OF assms(2) tr_constructor_ok(1) [OF assms(1)]])
  have "reconfigures c"
    using exec_same_config [OF assms(3) inv] assms(4,5) neq by (auto simp: same_config_def)
  then show ?thesis
  proof (cases c rule: reconfigures.cases)
    case (1 g)
    then have "propose_config P E g s = Inr s'" using assms(3) by simp
    then show ?thesis by (rule propose_config_cases [OF _ assms(4)]) (use assms(5) loose neq in auto)
  next
    case 2
    then have "execute_config P E s = Inr s'" using assms(3) by simp
    then show ?thesis
    proof (rule execute_config_cases [OF _ assms(4)])
      fix p assume p: "gv_pending_config (tr_gov s) = Some p" "pg_executable_at p \<le> e_now E"
        "gv_global (tr_gov s') = Some (pg_config p)"
      then show ?thesis using run_pending_waits [OF assms(1,2)] assms(5) 2
        by (fastforce simp: pending_waits_def MIN_CONFIG_DELAY_def)
    qed
  next
    case 3
    then show ?thesis using assms(3-5) neq by (auto simp: cancel_config_def tr_simps)
  next
    case (4 d)
    then show ?thesis using assms(3-5) neq by (auto simp: set_config_delay_def tr_simps Let_def split: if_splits)
  qed auto
qed

definition demo_raised :: global_config where
  "demo_raised = demo_global\<lparr>gc_max_trade := 2000\<rparr>"

definition treasury_proposed :: "(address \<Rightarrow> int) tr" where
  "treasury_proposed = tr_publish (EvConfigProposed demo_global demo_raised 86600)
     (upd_gov (\<lambda>v. v\<lparr>gv_pending_config := Some \<lparr>pg_config = demo_raised, pg_proposed_at = 200,
        pg_executable_at = 86600\<rparr>\<rparr>) treasury0)"

definition treasury_raised :: "(address \<Rightarrow> int) tr" where
  "treasury_raised = tr_publish (EvConfigExecuted demo_global demo_raised False)
     (upd_gov (\<lambda>v. v\<lparr>gv_global := Some demo_raised, gv_pending_config := None\<rparr>) treasury_proposed)"

lemmas config_eval = tr_require_admin_def require_auth_def validate_global_def load_global_def
  classify_global_def classify_caps_def check_collateral_change_def unlock_time_def config_delay_of_def
  treasury_proposed_def treasury_raised_def demo_raised_def treasury0_def demo_consts tr_simps Let_def

lemma demo_proposed:
  "tr_exec demo_peers (at_time 200) (TrProposeConfig demo_raised) treasury0 = Inr treasury_proposed"
  by (simp add: propose_config_def config_eval)

lemma demo_executed: "tr_exec demo_peers (at_time 90000) TrExecuteConfig treasury_proposed = Inr treasury_raised"
  by (simp add: execute_config_def config_eval)

theorem loosening_waits_a_day_witness:
  "\<exists>E1. (E1, TrProposeConfig demo_raised :: (address \<Rightarrow> int) tr_call) \<in> set [(at_time 200, TrProposeConfig demo_raised)]
     \<and> e_now E1 + 86400 \<le> 90000"
  using loosening_waits_a_day [OF built [unfolded built_def],
      of "[(at_time 200, TrProposeConfig demo_raised)]" treasury_proposed, OF _ demo_executed,
      of demo_global demo_raised] demo_proposed
  by (simp add: treasury_proposed_def treasury_raised_def tr_simps treasury0_def demo_raised_def
      demo_global_def at_time_def)

section \<open>The drawdown stop\<close>

text \<open>Paused by a drawdown, and whether it was acknowledged.\<close>

definition stop_held :: "bool \<Rightarrow> 'w tr \<Rightarrow> bool" where
  "stop_held x s \<longleftrightarrow> rk_paused (tr_risk s) = Some True \<and> rk_tripped (tr_risk s) = Some True
     \<and> rk_acknowledged (tr_risk s) = Some x"

definition drawdown_stopped :: "'w tr \<Rightarrow> bool" where
  "drawdown_stopped s \<longleftrightarrow> stop_held False s"

text \<open>Losses beyond the limit within the window stop the treasury.\<close>

lemma check_drawdown_stops:
  assumes "check_drawdown E i s = Inr s'" and "calc_window_pnl E s = Inr pnl"
    and "load_drawdown_cfg s = Inr cfg" and "pnl < - dd_max_drawdown cfg" and "\<not> flag (rk_tripped (tr_risk s))"
  shows "drawdown_stopped s'"
  using assms by (auto simp: check_drawdown_def drawdown_stopped_def stop_held_def tr_simps split: if_splits)

lemma stopped_risk_step: "risk_step (tr_risk s) (tr_risk s') \<Longrightarrow> stop_held x s \<Longrightarrow> stop_held x s'"
  by (auto simp: risk_step_def stop_held_def flag_def)

lemmas stopped_simps = tr_simps Let_def stop_held_def flag_def

lemma write_agent_risk: "write_agent agent policy s = Inr s' \<Longrightarrow> tr_risk s' = tr_risk s"
  by (erule write_agent_ok) simp

lemma agents_stopped:
  assumes "gv_global (tr_gov s) = Some g" and "stop_held x s"
  shows "set_agent P E a p s = Inr s' \<Longrightarrow> stop_held x s'"
    and "execute_agent P E a s = Inr s' \<Longrightarrow> stop_held x s'"
    and "cancel_agent E a s = Inr s' \<Longrightarrow> stop_held x s'"
    and "remove_agent E a s = Inr s' \<Longrightarrow> stop_held x s'"
  subgoal using assms(2) unfolding set_agent_def load_global_configured [OF assms(1)]
    by (auto simp: stopped_simps split: change.splits if_splits dest!: write_agent_risk)
  subgoal using assms(2) unfolding execute_agent_def load_global_configured [OF assms(1)]
    by (auto simp: stopped_simps split: if_splits dest!: write_agent_risk)
  subgoal using assms(2) unfolding cancel_agent_def by (auto simp: stopped_simps split: if_splits)
  subgoal using assms(2) unfolding remove_agent_def by (auto simp: stopped_simps split: if_splits option.splits)
  done

lemma config_stopped:
  assumes "gv_global (tr_gov s) = Some g" and "stop_held x s"
  shows "propose_config P E c s = Inr s' \<Longrightarrow> stop_held x s'"
    and "execute_config P E s = Inr s' \<Longrightarrow> stop_held x s'"
    and "cancel_config E s = Inr s' \<Longrightarrow> stop_held x s'"
    and "set_config_delay E d s = Inr s' \<Longrightarrow> stop_held x s'"
    and "set_successor E a s = Inr s' \<Longrightarrow> stop_held x s'"
    and "set_price_policy E p s = Inr s' \<Longrightarrow> stop_held x s'"
    and "execute_price_policy E s = Inr s' \<Longrightarrow> stop_held x s'"
    and "cancel_price_policy E s = Inr s' \<Longrightarrow> stop_held x s'"
  subgoal using assms(2) unfolding propose_config_def load_global_configured [OF assms(1)]
    by (auto simp: stopped_simps split: if_splits change.splits)
  subgoal using assms(2) unfolding execute_config_def load_global_configured [OF assms(1)] Let_def andThen_Inr prod.case
    by (elim andThenE if_InlE) (auto simp: tr_publish_def upd_gov_def stop_held_def)
  subgoal using assms(2) unfolding cancel_config_def by (auto simp: stopped_simps)
  subgoal using assms(2) unfolding set_config_delay_def by (auto simp: stopped_simps split: if_splits)
  subgoal using assms(2) unfolding set_successor_def by (auto simp: stopped_simps)
  subgoal using assms(2) unfolding set_price_policy_def by (auto simp: stopped_simps split: if_splits change.splits)
  subgoal using assms(2) unfolding execute_price_policy_def by (auto simp: stopped_simps split: if_splits)
  subgoal using assms(2) unfolding cancel_price_policy_def by (auto simp: stopped_simps)
  done

lemma risk_stopped:
  assumes "gv_global (tr_gov s) = Some g" and "stop_held x s"
  shows "tr_set_paused E b s = Inr s' \<Longrightarrow> \<not> b \<longrightarrow> \<not> x \<Longrightarrow> stop_held x s'"
    and "acknowledge_drawdown E s = Inr s' \<Longrightarrow> stop_held True s'"
    and "reset_pnl_window E s = Inr s' \<Longrightarrow> stop_held x s'"
    and "set_drawdown_config E d n s = Inr s' \<Longrightarrow> stop_held x s'"
    and "set_creation_policy P E cp s = Inr s' \<Longrightarrow> stop_held x s'"
  subgoal using assms(2) unfolding tr_set_paused_def by (auto simp: stopped_simps split: if_splits)
  subgoal using assms(2) unfolding acknowledge_drawdown_def by (auto simp: stopped_simps)
  subgoal using assms(2) unfolding reset_pnl_window_def by (auto simp: stopped_simps)
  subgoal using assms(2) unfolding set_drawdown_config_def by (auto simp: stopped_simps)
  subgoal using assms(2) unfolding set_creation_policy_def load_global_configured [OF assms(1)]
    by (auto simp: stopped_simps split: if_splits)
  done

lemma stopped_deposit: "stop_held x s \<Longrightarrow> deposit P E a n s \<noteq> Inr r"
  by (auto simp: deposit_def tr_assert_not_paused_def stop_held_def flag_def)

lemma stopped_exec:
  assumes "tr_exec P E c s = Inr s'" and "tr_inv s" and "c = TrAcknowledge \<longrightarrow> x" and "c = TrSetPaused False \<longrightarrow> \<not> x"
    and "stop_held x s"
  shows "stop_held x s' \<and> spend_of c = None \<and> (\<forall>a n. c \<noteq> TrDeposit a n)"
proof -
  obtain g where g: "gv_global (tr_gov s) = Some g" using assms(2) by (auto simp: tr_inv_def)
  have spend: "spend_of c = None"
  proof (rule ccontr)
    assume "spend_of c \<noteq> None"
    then obtain a n where "spend_of c = Some (a, n)" by auto
    from spend_exec [OF assms(1) this g] have "\<not> is_paused s" by (simp add: spent_def)
    then show False using assms(5) by (simp add: is_paused_def stop_held_def flag_def)
  qed
  then consider "settling c" | "configuring c" | "banking c" using call_kind [of c] by auto
  then have "stop_held x s'"
  proof cases
    case 1
    then have "risk_step (tr_risk s) (tr_risk s')"
      using settling_exec [OF assms(1) _ g] by (auto simp: settles_def)
    then show ?thesis using assms(5) by (rule stopped_risk_step)
  next
    case 2
    show ?thesis
    proof (cases "c = TrAcknowledge")
      case True
      then show ?thesis using assms(1,3) risk_stopped(2) [OF g assms(5)] by simp
    next
      case False
      note kept = agents_stopped [OF g assms(5)] config_stopped [OF g assms(5)] risk_stopped(1,3-5) [OF g assms(5)]
      from 2 show ?thesis
        using assms(1,4,5) False kept
        by (cases c rule: configuring.cases) (simp_all add: drop_result_eq load_global_configured [OF g])
    qed
  next
    case 3
    then show ?thesis using banking_exec [OF assms(1) _ g] assms(5) by (simp add: banks_def stop_held_def)
  qed
  moreover have "c \<noteq> TrDeposit a n" for a n
    using assms(1) stopped_deposit [OF assms(5)] by (auto simp: drop_result_eq)
  ultimately show ?thesis using spend by simp
qed

text \<open>The admin alone acknowledges and unpauses.\<close>

definition by_admin :: "env \<Rightarrow> 'w tr \<Rightarrow> bool" where
  "by_admin E s \<longleftrightarrow> (\<exists>admin. gv_admin (tr_gov s) = Some admin \<and> e_auth E admin)"

definition no_deposits :: "(env \<times> 'w tr_call) list \<Rightarrow> bool" where
  "no_deposits cs \<longleftrightarrow> (\<forall>E a n. (E, TrDeposit a n) \<notin> set cs)"

lemma tr_run_append: "tr_run P (as @ bs) s = Inr s' \<longleftrightarrow> (\<exists>t. tr_run P as s = Inr t \<and> tr_run P bs t = Inr s')"
proof (induction as arbitrary: s)
  case (Cons x as)
  obtain E c where "x = (E, c)" by (cases x)
  then show ?case by (auto simp: Cons res_simps)
qed simp

lemma acknowledged_by_admin: "tr_exec P E TrAcknowledge s = Inr s' \<Longrightarrow> by_admin E s"
  by (auto simp: acknowledge_drawdown_def tr_require_admin_def by_admin_def tr_simps)

lemma unpaused_by_admin:
  assumes "tr_exec P E (TrSetPaused False) s = Inr s'" and "stop_held x s"
  shows "by_admin E s \<and> x"
  using assms by (auto simp: tr_set_paused_def tr_require_admin_def by_admin_def tr_simps stop_held_def flag_def split: if_splits)

text \<open>A stopped treasury stays so, spending nothing, until it is unpaused after an acknowledgement.\<close>

lemma stop_until_unpaused:
  assumes "tr_run P cs s = Inr s'" and "tr_inv s" and "stop_held x s"
  shows "(\<exists>y. stop_held y s' \<and> spends cs = [] \<and> no_deposits cs)
    \<or> (\<exists>as E bs t. cs = as @ (E, TrSetPaused False) # bs \<and> tr_run P as s = Inr t \<and> stop_held True t \<and> by_admin E t
         \<and> spends as = [] \<and> no_deposits as)"
  using assms
proof (induction cs arbitrary: s x)
  case Nil
  then show ?case by (auto simp: no_deposits_def)
next
  case (Cons e cs)
  obtain E c where e: "e = (E, c)" by (cases e)
  then obtain t where t: "tr_exec P E c s = Inr t" "tr_run P cs t = Inr s'" using Cons.prems(1) by (auto simp: res_simps)
  have inv: "tr_inv t" by (rule tr_exec_inv [OF t(1) Cons.prems(2)])
  show ?case
  proof (cases "c = TrSetPaused False \<and> x")
    case True
    then have "by_admin E s" using unpaused_by_admin t(1) Cons.prems(3) by blast
    then show ?thesis
      using True Cons.prems(3) e
      by (intro disjI2 exI [of _ "[]"] exI [of _ E] exI [of _ cs] exI [of _ s]) (auto simp: no_deposits_def)
  next
    case False
    define z where "z = (x \<or> c = TrAcknowledge)"
    have "stop_held z t \<and> spend_of c = None \<and> (\<forall>a n. c \<noteq> TrDeposit a n)"
    proof (cases "c = TrAcknowledge")
      case True
      then show ?thesis
        using t(1) risk_stopped(2) [OF _ Cons.prems(3)] Cons.prems(2) by (auto simp: z_def tr_inv_def)
    next
      case no: False
      then show ?thesis using stopped_exec [OF t(1) Cons.prems(2), of x] False Cons.prems(3) by (auto simp: z_def)
    qed
    then have z: "stop_held z t" "spends (e # cs) = spends cs" "no_deposits (e # cs) = no_deposits cs"
      "spends (e # as) = spends as" "no_deposits (e # as) = no_deposits as" for as
      using e by (auto simp: no_deposits_def)
    from Cons.IH [OF t(2) inv z(1)] show ?thesis
    proof (elim disjE exE conjE)
      fix y assume "stop_held y s'" "spends cs = []" "no_deposits cs"
      then show ?thesis using z(2,3) by (intro disjI1 exI [of _ y]) simp
    next
      fix as E' bs u
      assume "cs = as @ (E', TrSetPaused False) # bs" "tr_run P as t = Inr u" "stop_held True u" "by_admin E' u"
        "spends as = []" "no_deposits as"
      then show ?thesis
        using z(4,5) e t(1)
        by (intro disjI2 exI [of _ "e # as"] exI [of _ E'] exI [of _ bs] exI [of _ u]) (auto simp: res_simps)
    qed
  qed
qed

lemma stop_stays:
  assumes "tr_run P cs s = Inr s'" and "tr_inv s" and "stop_held False s" and "\<forall>e\<in>set cs. snd e \<noteq> TrAcknowledge"
  shows "stop_held False s' \<and> spends cs = [] \<and> no_deposits cs"
  using assms
proof (induction cs arbitrary: s)
  case (Cons e cs)
  obtain E c where e: "e = (E, c)" by (cases e)
  then obtain t where t: "tr_exec P E c s = Inr t" "tr_run P cs t = Inr s'" using Cons.prems(1) by (auto simp: res_simps)
  have "stop_held False t \<and> spend_of c = None \<and> (\<forall>a n. c \<noteq> TrDeposit a n)"
    using Cons.prems(3,4) e by (intro stopped_exec [OF t(1) Cons.prems(2)]) auto
  then show ?case
    using Cons.IH [OF t(2) tr_exec_inv [OF t(1) Cons.prems(2)]] Cons.prems(4) e by (auto simp: no_deposits_def)
qed (simp add: no_deposits_def)

lemma stop_needs_ack:
  assumes "tr_run P as s = Inr t" and "tr_inv s" and "stop_held False s" and "stop_held True t"
  obtains bs E ds u where "as = bs @ (E, TrAcknowledge) # ds" and "tr_run P bs s = Inr u" and "by_admin E u"
proof -
  have "\<not> (\<forall>e\<in>set as. snd e \<noteq> TrAcknowledge)"
    using stop_stays [OF assms(1-3)] assms(4) by (auto simp: stop_held_def)
  then obtain E where "(E, TrAcknowledge) \<in> set as" by force
  then obtain bs ds where split: "as = bs @ (E, TrAcknowledge) # ds" by (meson split_list)
  then obtain u where "tr_run P bs s = Inr u" "\<exists>v. tr_exec P E TrAcknowledge u = Inr v"
    using assms(1) by (auto simp: tr_run_append res_simps)
  then show thesis using that [OF split] acknowledged_by_admin by blast
qed

text \<open>C33. Once losses have tripped the drawdown pause, it takes the admin two calls to end it. In any sequence
  of calls without an acknowledgement, whether the admin tries to unpause or not, the treasury stays
  stopped: no agent buys or creates a market and no deposit is taken (sales and redemptions go on). And
  if an agent has spent, a deposit was taken or the treasury is unpaused, then before that the admin, whose
  authorisation both calls need, acknowledged the drawdown and later unpaused the treasury, which was still
  paused, without a spend or a deposit since the stop.\<close>

theorem drawdown_stop_needs_acknowledgement:
  assumes "tr_constructor P E0 admin agent0 g0 delay dd days pol (tr_deployed wd) = Inr s0"
    and "tr_run P cs0 s0 = Inr s" and "drawdown_stopped s" and "tr_run P cs s = Inr s'"
  shows "((\<forall>e\<in>set cs. snd e \<noteq> TrAcknowledge) \<longrightarrow> drawdown_stopped s' \<and> spends cs = [] \<and> no_deposits cs)
    \<and> (spends cs \<noteq> [] \<or> \<not> no_deposits cs \<or> \<not> is_paused s' \<longrightarrow>
        (\<exists>as E1 bs E2 ds s1 s2. cs = as @ (E1, TrAcknowledge) # bs @ (E2, TrSetPaused False) # ds
           \<and> tr_run P as s = Inr s1 \<and> by_admin E1 s1
           \<and> tr_run P (as @ (E1, TrAcknowledge) # bs) s = Inr s2 \<and> is_paused s2 \<and> by_admin E2 s2
           \<and> spends (as @ (E1, TrAcknowledge) # bs) = [] \<and> no_deposits (as @ (E1, TrAcknowledge) # bs)))"
proof (intro conjI impI)
  note inv = tr_run_inv [OF assms(2) tr_constructor_ok(1) [OF assms(1)]]
  note stop = assms(3) [unfolded drawdown_stopped_def]
  {
    assume "\<forall>e\<in>set cs. snd e \<noteq> TrAcknowledge"
    then show "drawdown_stopped s'" "spends cs = []" "no_deposits cs"
      using stop_stays [OF assms(4) inv stop] by (simp_all add: drawdown_stopped_def)
  }
  assume ended: "spends cs \<noteq> [] \<or> \<not> no_deposits cs \<or> \<not> is_paused s'"
  from stop_until_unpaused [OF assms(4) inv stop]
  obtain ps E2 ds s2 where split: "cs = ps @ (E2, TrSetPaused False) # ds" "tr_run P ps s = Inr s2" "stop_held True s2"
      "by_admin E2 s2" "spends ps = []" "no_deposits ps"
    using ended by (auto simp: stop_held_def is_paused_def flag_def)
  obtain as E1 bs s1 where ack: "ps = as @ (E1, TrAcknowledge) # bs" "tr_run P as s = Inr s1" "by_admin E1 s1"
    by (rule stop_needs_ack [OF split(2) inv stop split(3)])
  have "is_paused s2" using split(3) by (simp add: stop_held_def is_paused_def flag_def)
  then show "\<exists>as E1 bs E2 ds s1 s2. cs = as @ (E1, TrAcknowledge) # bs @ (E2, TrSetPaused False) # ds
           \<and> tr_run P as s = Inr s1 \<and> by_admin E1 s1
           \<and> tr_run P (as @ (E1, TrAcknowledge) # bs) s = Inr s2 \<and> is_paused s2 \<and> by_admin E2 s2
           \<and> spends (as @ (E1, TrAcknowledge) # bs) = [] \<and> no_deposits (as @ (E1, TrAcknowledge) # bs)"
    using split ack by (intro exI [of _ as] exI [of _ E1] exI [of _ bs] exI [of _ E2] exI [of _ ds] exI [of _ s1] exI [of _ s2]) simp
qed

theorem drawdown_stop_needs_acknowledgement_witness:
  "drawdown_stopped treasury_stopped \<and> spends [(at_time 400, TrSetPaused True :: (address \<Rightarrow> int) tr_call)] = []
   \<and> by_admin (at_time 400) treasury_stopped
   \<and> (\<exists>s. tr_run demo_peers [(at_time 400, TrAcknowledge), (at_time 410, TrSetPaused False)] treasury_stopped = Inr s
        \<and> \<not> is_paused s)"
proof -
  have stop: "drawdown_stopped treasury_stopped"
    by (simp add: drawdown_stopped_def stop_held_def treasury_stopped_def tr_simps)
  have run: "tr_run demo_peers [(at_time 200, buy_call 1 1000), (at_time 300, TrRealize 1)] treasury0
      = Inr treasury_stopped"
    using bought_1000 loss_realized by simp
  have "tr_exec demo_peers (at_time 400) (TrSetPaused True) treasury_stopped
      = Inr (upd_risk (\<lambda>r. r\<lparr>rk_paused := Some True, rk_admin_paused := Some True\<rparr>) treasury_stopped)"
    by (simp add: tr_set_paused_def tr_require_admin_def require_auth_def treasury_stopped_def treasury1_def
        bought_def treasury0_def tr_simps at_time_def)
  then have "spends [(at_time 400, TrSetPaused True :: (address \<Rightarrow> int) tr_call)] = []"
    using drawdown_stop_needs_acknowledgement [OF built [unfolded built_def] run stop,
        of "[(at_time 400, TrSetPaused True)]"] by auto
  moreover have "\<exists>s. tr_run demo_peers [(at_time 400, TrAcknowledge), (at_time 410, TrSetPaused False)] treasury_stopped = Inr s
      \<and> \<not> is_paused s"
    by (simp add: tr_set_paused_def acknowledge_drawdown_def tr_require_admin_def require_auth_def treasury_stopped_def
        treasury1_def bought_def treasury0_def tr_simps at_time_def is_paused_def flag_def)
  moreover from this obtain s as E1 bs s1 where "\<exists>cs. [(at_time 400, TrAcknowledge), (at_time 410, TrSetPaused False)]
      = as @ (E1, TrAcknowledge) # bs @ cs" "tr_run demo_peers as treasury_stopped = Inr s1" "by_admin E1 s1"
    using drawdown_stop_needs_acknowledgement [OF built [unfolded built_def] run stop] by blast
  then have "by_admin (at_time 400) treasury_stopped" by (auto simp: Cons_eq_append_conv)
  ultimately show ?thesis using stop by blast
qed

section \<open>The withdrawal queue\<close>

lemma lending_vault:
  assumes "gv_global (tr_gov s) = Some g"
  shows "set_yield_venue E pool n s = Inr s' \<Longrightarrow> tr_vault s' = tr_vault s"
    and "allocate_to_yield P E n s = Inr s' \<Longrightarrow> tr_vault s' = tr_vault s"
    and "recall_from_yield P E n s = Inr s' \<Longrightarrow> tr_vault s' = tr_vault s"
    and "disable_yield E s = Inr s' \<Longrightarrow> tr_vault s' = tr_vault s"
    and "withdraw P E to n s = Inr s' \<Longrightarrow> tr_vault s' = tr_vault s"
  subgoal unfolding set_yield_venue_def by (auto simp: tr_simps split: if_splits)
  subgoal unfolding allocate_to_yield_def submit_request_def load_global_configured [OF assms]
    by (auto simp: tr_simps split: if_splits)
  subgoal unfolding recall_from_yield_def submit_request_def load_global_configured [OF assms]
    by (auto simp: tr_simps Let_def split: if_splits)
  subgoal unfolding disable_yield_def by (auto simp: tr_simps split: option.splits)
  subgoal unfolding withdraw_def load_global_configured [OF assms]
    by (auto simp: res_simps split: if_splits elim!: ensure_liquid_ok dest!: pay_world)
  done

lemma deposit_queue:
  assumes "deposit P E a n s = Inr (x, s')" and "gv_global (tr_gov s) = Some g" and "shares_ok (tr_vault s)"
  shows "queue_list (tr_vault s') = queue_list (tr_vault s)"
  using assms(1) unfolding deposit_def load_global_configured [OF assms(2)]
  by (auto simp: res_simps tr_mint_def pay_def tr_publish_def split: if_splits
      dest: mint_shares_ok(5) [OF _ assms(3)])

lemma request_queue:
  assumes "request_withdraw P E a k s = Inr (x, s')" and "gv_global (tr_gov s) = Some g"
    and "vault_ok (tr_vault s)"
  obtains ts where "queue_list (tr_vault s') = queue_list (tr_vault s) @ ts"
    and "ts = [] \<or> (\<exists>t. ts = [t] \<and> wt_owner t = a)"
proof -
  obtain paid i where x: "x = (paid, i)" by (cases x)
  obtain n assets v s2 s3 where r: "0 < k" "burn_shares a k (tr_vault s) = Inr v"
      "(if 0 < paid then pay P E g (e_self E) a paid (s\<lparr>tr_vault := v\<rparr>) else Inr (s\<lparr>tr_vault := v\<rparr>)) = Inr s2"
      "s3 = s2 \<and> assets = paid \<or> paid < assets \<and> (\<exists>v'. queue_ticket a (assets - paid) (e_now E) (reserved v)
          (tr_vault s2) = Inr (i, v') \<and> s3 = s2\<lparr>tr_vault := v'\<rparr>)"
      "s' = tr_publish (EvWithdrawRequested a k assets paid i) s3"
    by (rule request_withdraw_ok [OF assms(1) [unfolded x] assms(2)])
  have v: "queue_list v = queue_list (tr_vault s)" "queue_ok v"
    using burn_shares_ok(5,6) [OF r(2)] assms(3) r(1) by (auto simp: vault_ok_def)
  from r(3) obtain w where s2: "tr_vault s2 = v" by (rule optional_pay) simp
  from r(4) show thesis
  proof (elim disjE conjE exE)
    assume "s3 = s2"
    then show thesis using that [of "[]"] v(1) s2 r(5) by (simp add: tr_publish_def)
  next
    fix v' assume "queue_ticket a (assets - paid) (e_now E) (reserved v) (tr_vault s2) = Inr (i, v')"
      and s3: "s3 = s2\<lparr>tr_vault := v'\<rparr>" and "paid < assets"
    then have "queue_list v' = queue_list v @ [\<lparr>wt_owner = a, wt_remaining = assets - paid, wt_created_at = e_now E\<rparr>]"
      using queue_ticket_ok(2) [of a "assets - paid" "e_now E" v i v'] v(2) s2 by simp
    then show thesis using that v(1) s3 r(5) by (simp add: tr_publish_def)
  qed
qed

lemma emergency_queue:
  assumes "emergency_withdraw P E a k s = Inr (x, s')" and "gv_global (tr_gov s) = Some g"
    and "vault_ok (tr_vault s)"
  shows "queue_list (tr_vault s') = queue_list (tr_vault s)"
proof -
  obtain v s1 ev where r: "burn_shares a k (tr_vault s) = Inr v" "0 < k"
      "(if 0 < x then pay P E g (e_self E) a x (s\<lparr>tr_vault := v\<rparr>) else Inr (s\<lparr>tr_vault := v\<rparr>)) = Inr s1"
      "s' = tr_publish ev s1"
    using assms(1) unfolding emergency_withdraw_def load_global_configured [OF assms(2)] Let_def
    by (auto simp: res_simps simp del: if_split)
  from r(3) have "tr_vault s1 = v" by (rule optional_pay) simp
  then show ?thesis
    using burn_shares_ok(5) [OF r(1)] assms(3) r(2,4) by (simp add: vault_ok_def tr_publish_def)
qed

text \<open>\<open>pays_first P E s s'\<close>: the step from \<open>s\<close> to \<open>s'\<close> paid the first ticket, in full or in part.\<close>

definition pays_first :: "'w peers \<Rightarrow> env \<Rightarrow> 'w tr \<Rightarrow> 'w tr \<Rightarrow> bool" where
  "pays_first P E s s' \<longleftrightarrow> (\<exists>t rest n g. queue_list (tr_vault s) = t # rest \<and> 0 < n \<and> n \<le> wt_remaining t
     \<and> queue_list (tr_vault s') = (if n = wt_remaining t then rest
          else t\<lparr>wt_remaining := wt_remaining t - n\<rparr> # rest)
     \<and> reserved (tr_vault s') = reserved (tr_vault s) - n
     \<and> gv_global (tr_gov s) = Some g
     \<and> pr_transfer P E (gc_collateral g) (e_self E) (wt_owner t) n (tr_world s) = Some (tr_world s'))"

lemma claim_pays_first:
  assumes "claim_withdraw P E i s = Inr (x, s')" and "gv_global (tr_gov s) = Some g"
    and "vault_ok (tr_vault s)"
  shows "pays_first P E s s' \<and> i = queue_head (tr_vault s)"
proof -
  obtain t s1 v ev where r: "vl_tickets (tr_vault s) i = Some t" "i = queue_head (tr_vault s)" "0 < x"
      "x \<le> wt_remaining t" "pay P E g (e_self E) (wt_owner t) x s = Inr s1"
      "pay_ticket i t x (tr_vault s1) = Inr v" "s' = tr_publish ev (s1\<lparr>tr_vault := v\<rparr>)"
    using assms(1) unfolding claim_withdraw_def load_global_configured [OF assms(2)] Let_def
    by (auto simp: res_simps split: if_splits)
  from r(5) obtain w where w: "pr_transfer P E (gc_collateral g) (e_self E) (wt_owner t) x (tr_world s) = Some w"
      "s1 = s\<lparr>tr_world := w\<rparr>" by (rule pay_ok)
  have "pay_ticket (queue_head (tr_vault s)) t x (tr_vault s) = Inr v" using r(2,6) w(2) by simp
  note p = pay_ticket_ok(1,3) [OF this vault_okD(1) [OF assms(3)] r(1) [unfolded r(2)] less_imp_le [OF r(3)] r(4)]
  have "tr_vault s' = v" "tr_world s' = w" using r(7) w(2) by (simp_all add: tr_publish_def)
  then show ?thesis using p r(2-4) w(1) assms(2) unfolding pays_first_def by fastforce
qed

text \<open>The withdrawal queue is first in, first out: a call either leaves it, or is a withdrawal request
  that appends one ticket of the requesting owner, or is a claim of the head that transfers to the
  first ticket's owner what the ticket is reduced by and removes it once it is paid in full.\<close>

lemma withdrawal_queue_is_fifo:
  assumes "tr_constructor P E0 admin agent0 g0 delay dd days pol (tr_deployed wd) = Inr s0"
    and "tr_run P cs s0 = Inr s" and "tr_exec P E c s = Inr s'"
  shows "queue_list (tr_vault s') = queue_list (tr_vault s)
    \<or> (\<exists>a k t. c = TrRequestWithdraw a k \<and> wt_owner t = a
          \<and> queue_list (tr_vault s') = queue_list (tr_vault s) @ [t])
    \<or> (c = TrClaimWithdraw (queue_head (tr_vault s)) \<and> pays_first P E s s')"
proof -
  have inv: "tr_inv s" by (rule tr_run_inv [OF assms(2) tr_constructor_ok(1) [OF assms(1)]])
  then obtain g where g: "gv_global (tr_gov s) = Some g" and v: "vault_ok (tr_vault s)"
    by (auto simp: tr_inv_def)
  consider a n where "spend_of c = Some (a, n)" | "settling c" | "configuring c" | "banking c"
    using call_kind [of c] by auto
  then show ?thesis
  proof cases
    case 1
    then show ?thesis using spend_exec [OF assms(3) _ g] by (simp add: spent_def)
  next
    case 2
    then show ?thesis using settling_exec [OF assms(3) _ g] by (auto simp: settles_def)
  next
    case 3
    then show ?thesis using configuring_exec [OF assms(3) _ g] by (simp add: governs_def same_books_def)
  next
    case 4
    then show ?thesis using assms(3)
    proof (cases c rule: banking.cases)
      case (1 a n)
      then show ?thesis using assms(3) deposit_queue [OF _ g vault_okD(2) [OF v]] by (auto simp: drop_result_eq)
    next
      case (2 a k)
      then obtain x where "request_withdraw P E a k s = Inr (x, s')" using assms(3) by (auto simp: drop_result_eq)
      from request_queue [OF this g v] show ?thesis using 2 by (metis append_Nil2)
    next
      case (3 i)
      then show ?thesis using assms(3) claim_pays_first [OF _ g v] by (auto simp: drop_result_eq)
    next
      case (4 a k)
      then obtain x where "emergency_withdraw P E a k s = Inr (x, s')" using assms(3) by (auto simp: drop_result_eq)
      from emergency_queue [OF this g v] show ?thesis ..
    qed (use lending_vault [OF g] in auto)
  qed
qed

lemma withdrawal_queue_is_fifo_witness:
  "pays_first demo_peers (at_time 500) (treasury_queued\<lparr>tr_world := refunded\<rparr>) treasury_paid"
proof -
  let ?s = "treasury_queued\<lparr>tr_world := refunded\<rparr>"
  have run: "tr_run demo_peers [(at_time 200, buy_call 0 1000), (at_time 300, TrRequestWithdraw 9 500000000000),
      (at_time 400, TrOutside refunded)] treasury0 = Inr ?s"
    using bought_1000 demo_requested by simp
  have "queue_list (queued n) = [demo_ticket n]" for n
    by (simp add: queue_list_def queue_head_def queue_tail_def queued_def numeral_2_eq_2)
  then have "queue_list (tr_vault ?s) = [demo_ticket 1500000498]"
      "queue_list (tr_vault treasury_paid) = [demo_ticket 1000000498]"
    by (simp_all add: treasury_queued_def treasury_paid_def tr_publish_def)
  then show ?thesis
    using withdrawal_queue_is_fifo [OF built [unfolded built_def] run demo_claimed]
    by (simp add: demo_ticket_def)
qed

end
