(* ===== verification/TreasuryVaultProps.thy ===== *)
theory TreasuryVaultProps
  imports TreasuryInv TreasuryDemo
begin

text \<open>
  Properties of the treasury's open-market index and of its share price: the index refines a
  bounded set, the price of a share never falls by deposits and withdrawals, and depositing and
  withdrawing again earns nothing.
\<close>

section \<open>The index refines a bounded set\<close>

datatype index_op = AddMarket address nat | RemoveMarket address nat

fun index_run :: "index_op list \<Rightarrow> open_index \<Rightarrow> open_index tr_res" where
  "index_run [] ix = Inr ix"
| "index_run (AddMarket c i # ops) ix = andThen (index_add c i ix) (index_run ops)"
| "index_run (RemoveMarket c i # ops) ix = andThen (index_remove c i ix) (index_run ops)"

fun set_run :: "index_op list \<Rightarrow> (address \<times> nat) set \<Rightarrow> (address \<times> nat) set option" where
  "set_run [] S = Some S"
| "set_run (AddMarket c i # ops) S =
     (if (c, i) \<in> S \<or> card S < MAX_OPEN_MARKETS then set_run ops (insert (c, i) S) else None)"
| "set_run (RemoveMarket c i # ops) S = set_run ops (S - {(c, i)})"

lemma index_add_full:
  assumes "index_ok ix" and "\<not> (\<exists>ix'. index_add c i ix = Inr ix')"
  shows "index_add c i ix = Inl (Err TrTooManyOpenMarkets)"
  using assms(2) by (auto simp: index_add_def Let_def res_simps int_ops MAX_OPEN_MARKETS_def u32_max_def
      split: if_splits)

lemma index_run_refines:
  assumes "index_ok ix"
  shows "case set_run ops (index_set ix) of
      None \<Rightarrow> index_run ops ix = Inl (Err TrTooManyOpenMarkets)
    | Some S \<Rightarrow> \<exists>ix'. index_run ops ix = Inr ix' \<and> index_ok ix' \<and> index_set ix' = S"
  using assms
proof (induction ops arbitrary: ix)
  case Nil
  then show ?case by simp
next
  case (Cons op ops)
  show ?case
  proof (cases op)
    case (AddMarket c i)
    show ?thesis
    proof (cases "\<exists>ix1. index_add c i ix = Inr ix1")
      case True
      then obtain ix1 where ix1: "index_add c i ix = Inr ix1" by blast
      moreover have "(c, i) \<in> index_set ix \<or> card (index_set ix) < MAX_OPEN_MARKETS"
        using open_markets.add [OF Cons.prems, of "(c, i)"] True by simp
      ultimately show ?thesis
        using Cons.IH [OF index_add_ok(1) [OF Cons.prems ix1]] index_add_ok(2) [OF Cons.prems ix1] AddMarket
        by (simp split: option.splits)
    next
      case False
      then show ?thesis
        using open_markets.add [OF Cons.prems, of "(c, i)"] index_add_full [OF Cons.prems False] AddMarket
        by simp
    qed
  next
    case (RemoveMarket c i)
    obtain ix1 where "index_remove c i ix = Inr ix1" "index_ok ix1" "index_set ix1 = index_set ix - {(c, i)}"
      using open_markets.remove [OF Cons.prems, of "(c, i)"] by auto
    then show ?thesis using Cons.IH [of ix1] RemoveMarket by (simp split: option.splits)
  qed
qed

text \<open>C30. The open-market index with its reverse map and its swap-and-pop removal implements a set of at most
  twelve markets: every sequence of additions and removals succeeds or is refused as on the set, and
  what the index then lists is exactly the set, each market once.\<close>

theorem open_index_refines_set:
  "case set_run ops {} of
     None \<Rightarrow> index_run ops empty_index = Inl (Err TrTooManyOpenMarkets)
   | Some S \<Rightarrow> \<exists>ix. index_run ops empty_index = Inr ix \<and> index_set ix = S
       \<and> distinct (index_list ix) \<and> set (index_list ix) = S"
  using index_run_refines [OF index_ok_empty, of ops] open_markets.enum
  by (auto simp: index_set_empty split: option.splits)

section \<open>The token behind the vault\<close>

text \<open>What the token is known to do: a transfer moves exactly its amount between two balances, and the
  markets do not notice.\<close>

definition token_like :: "'w peers \<Rightarrow> bool" where
  "token_like P \<longleftrightarrow> (\<forall>E tok from to n w w'. pr_transfer P E tok from to n w = Some w' \<longrightarrow>
     (\<forall>a. pr_balance P tok a w' = pr_balance P tok a w + (if a = to then n else 0) - (if a = from then n else 0))
     \<and> (\<forall>core i. pr_get_market P core i w' = pr_get_market P core i w)
     \<and> (\<forall>core i a. pr_get_position P core i a w' = pr_get_position P core i a w))"

lemma token_likeD:
  assumes "token_like P" and "pr_transfer P E tok from to n w = Some w'"
  shows "pr_balance P tok a w' = pr_balance P tok a w + (if a = to then n else 0) - (if a = from then n else 0)"
    and "pr_get_market P core i w' = pr_get_market P core i w"
    and "pr_get_position P core i a w' = pr_get_position P core i a w"
  using assms unfolding token_like_def by blast+

lemma token_like_demo: "token_like demo_peers"
  by (auto simp: token_like_def demo_peers_def moved_def Let_def split: if_splits)

lemma holdings_unmoved:
  "token_like P \<Longrightarrow> pr_transfer P E' tok from to n w = Some w'
    \<Longrightarrow> holdings_value P E core i w' = holdings_value P E core i w"
  by (simp add: holdings_value_def token_likeD)

lemma add_holdings_shift:
  assumes "add_holdings P E ix w ks x = Inr t" and "add_holdings P E ix w' ks y = Inr u"
    and "\<And>core i. holdings_value P E core i w' = holdings_value P E core i w"
  shows "u - y = t - x"
  using assms(1,2)
proof (induction ks arbitrary: x y)
  case (Cons k ks)
  obtain m f p where m: "oi_at ix k = Some m" "holdings_value P E (om_core m) (om_market_id m) w = Inr (f, p)"
      "add_holdings P E ix w ks (x + f) = Inr t"
    using Cons.prems(1) by (auto simp: res_simps int_ops)
  then have "add_holdings P E ix w' ks (y + f) = Inr u"
    using Cons.prems(2) assms(3) by (auto simp: res_simps int_ops)
  from Cons.IH [OF m(3) this] show ?case by simp
qed simp

text \<open>The value of everything the treasury holds, before the queue is set aside.\<close>

definition gross_value :: "'w peers \<Rightarrow> env \<Rightarrow> global_config \<Rightarrow> 'w tr \<Rightarrow> int tr_res" where
  "gross_value P E g s =
     add_holdings P E (tr_index s) (tr_world s) [0..<open_count (tr_index s)] (idle P E g s)"

lemma compute_nav_gross:
  "compute_nav P E g s = Inr n \<longleftrightarrow>
     (\<exists>t. gross_value P E g s = Inr t \<and> n = max 0 (saturate_i128 (t - reserved (tr_vault s))))"
  by (auto simp: compute_nav_def gross_value_def res_simps)

lemma gross_after_transfer:
  assumes "token_like P" and "gross_value P E g s = Inr t" and "gross_value P E g s' = Inr t'"
    and "pr_transfer P E' (gc_collateral g) from to n (tr_world s) = Some (tr_world s')"
    and "tr_index s' = tr_index s"
  shows "t' = t + (if e_self E = to then n else 0) - (if e_self E = from then n else 0)"
  using add_holdings_shift [OF assms(2) [unfolded gross_value_def]
      assms(3) [unfolded gross_value_def assms(5)] holdings_unmoved [OF assms(1,4)]]
    token_likeD(1) [OF assms(1,4)] by (simp add: idle_def)

section \<open>Instances\<close>

text \<open>The demo treasury after the depositor brought in as much again as it held, and after the depositor
  took it out.\<close>

definition treasury_deposited :: "(address \<Rightarrow> int) tr" where
  "treasury_deposited = tr_publish (EvDeposited 1 1000000000 1000000000000 1000000000)
     (treasury0\<lparr>tr_world := demo_funds(1 := 999000000000, 200 := 2000000000),
        tr_vault := empty_vault\<lparr>vl_shares := [9 \<mapsto> 999999999000, 1 \<mapsto> 1000000000000],
          vl_total_shares := Some 2000000000000\<rparr>\<rparr>)"

definition treasury_left :: "(address \<Rightarrow> int) tr" where
  "treasury_left = tr_publish (EvWithdrawRequested 1 1000000000000 1000000000 1000000000 0)
     (treasury_deposited\<lparr>tr_vault := empty_vault\<lparr>vl_shares := [9 \<mapsto> 999999999000, 1 \<mapsto> 0],
          vl_total_shares := Some 1000000000000\<rparr>,
        tr_world := demo_funds(1 := 1000000000000, 200 := 1000000000)\<rparr>)"

lemmas vault_demo = treasury_deposited_def treasury_left_def treasury0_def tr_publish_def idle_def demo_peers_def
  demo_global_def at_time_def demo_funds_def open_count_def empty_index_def reserved_def empty_vault_def
  saturate_i128_def

lemma demo_nav0: "compute_nav demo_peers (at_time 200) demo_global treasury0 = Inr 1000000000"
  by (simp add: compute_nav_def vault_demo)

lemma demo_nav1: "e_self E = 200 \<Longrightarrow> compute_nav demo_peers E demo_global treasury_deposited = Inr 2000000000"
  by (simp add: compute_nav_def vault_demo)

lemma demo_globals: "gv_global (tr_gov treasury0) = Some demo_global"
    "gv_global (tr_gov treasury_deposited) = Some demo_global"
  by (simp_all add: vault_demo)

lemma demo_deposit: "deposit demo_peers (at_time 200) 1 1000000000 treasury0 = Inr (1000000000000, treasury_deposited)"
proof -
  have "tr_assert_not_paused treasury0 = Inr ()" "e_auth (at_time 200) 1"
    by (simp_all add: tr_assert_not_paused_def treasury0_def flag_def at_time_def)
  moreover have "pay demo_peers (at_time 200) demo_global 1 (e_self (at_time 200)) 1000000000 treasury0
      = Inr (treasury0\<lparr>tr_world := demo_funds(1 := 999000000000, 200 := 2000000000)\<rparr>)"
    by (simp add: pay_def moved_def treasury0_def demo_peers_def demo_global_def at_time_def demo_funds_def)
  moreover have "mint_shares 1 1000000000 1000000000 (tr_vault treasury0) = Inr (1000000000000,
      empty_vault\<lparr>vl_shares := [9 \<mapsto> 999999999000, 1 \<mapsto> 1000000000000],
          vl_total_shares := Some 2000000000000\<rparr>)"
    by (simp add: mint_shares_def shares_for_deposit_def tr_mul_div_floor_def share_supply_def shares_of_def
        treasury0_def empty_vault_def i128_defs VIRTUAL_SHARES_def VIRTUAL_ASSETS_def)
  ultimately show ?thesis
    by (simp add: deposit_def load_global_configured [OF demo_globals(1)] demo_nav0 MIN_DEPOSIT_def require_auth_def
        tr_mint_def treasury_deposited_def)
qed

lemma demo_withdrawn:
  "request_withdraw demo_peers (at_time 300) 1 1000000000000 treasury_deposited
    = Inr ((1000000000, 0), treasury_left)"
proof -
  let ?v = "empty_vault\<lparr>vl_shares := [9 \<mapsto> 999999999000, 1 \<mapsto> 0], vl_total_shares := Some 1000000000000\<rparr>"
  have "burn_shares 1 1000000000000 (tr_vault treasury_deposited) = Inr ?v"
    by (simp add: burn_shares_def shares_of_def share_supply_def vault_demo sub_i128_def i128_defs)
  moreover have "pay demo_peers (at_time 300) demo_global (e_self (at_time 300)) 1 1000000000
      (treasury_deposited\<lparr>tr_vault := ?v\<rparr>)
    = Inr (treasury_deposited\<lparr>tr_vault := ?v, tr_world := demo_funds(1 := 1000000000000, 200 := 1000000000)\<rparr>)"
    by (simp add: pay_def moved_def vault_demo) (auto simp: fun_eq_iff)
  moreover have "assets_for_shares 1000000000000 2000000000 (share_supply (tr_vault treasury_deposited))
      = Some 1000000000"
    by (simp add: assets_for_shares_def tr_mul_div_floor_def share_supply_def vault_demo i128_defs
        VIRTUAL_SHARES_def VIRTUAL_ASSETS_def)
  moreover have "shares_of 1 (tr_vault treasury_deposited) = 1000000000000" "reserved ?v = 0"
      "idle demo_peers (at_time 300) demo_global treasury_deposited = 2000000000" "e_auth (at_time 300) 1"
    by (simp_all add: shares_of_def vault_demo)
  moreover have "compute_nav demo_peers (at_time 300) demo_global treasury_deposited = Inr 2000000000"
    by (rule demo_nav1) (simp add: at_time_def)
  ultimately show ?thesis
    by (simp add: request_withdraw_def load_global_configured [OF demo_globals(2)] require_auth_def Let_def
        saturate_i128_def sub_i128_def i128_defs idle_vault treasury_left_def tr_publish_def)
qed

section \<open>The share price\<close>

lemma saturate_in: "in_i128 x \<Longrightarrow> saturate_i128 x = x"
  by (simp add: saturate_i128_def in_i128_def)

lemma saturate_exact: "in_i128 (saturate_i128 x + 1) \<Longrightarrow> 0 < saturate_i128 x \<Longrightarrow> saturate_i128 x = x"
  by (auto simp: saturate_i128_def in_i128_def split: if_splits)

lemma saturate_grows: "0 \<le> k \<Longrightarrow> max 0 (saturate_i128 (x + k)) \<le> max 0 (saturate_i128 x) + k"
  by (auto simp: saturate_i128_def)

lemma covered_nav:
  assumes "gross_value P E g s = Inr t" and "reserved (tr_vault s) \<le> t" and "compute_nav P E g s = Inr n"
    and "in_i128 (n + VIRTUAL_ASSETS)"
  shows "t - reserved (tr_vault s) = n" and "0 \<le> n"
proof -
  have n: "n = max 0 (saturate_i128 (t - reserved (tr_vault s)))" using assms(1,3) by (simp add: compute_nav_gross)
  then show "0 \<le> n" by simp
  have "0 \<le> saturate_i128 (t - reserved (tr_vault s))" using assms(2) by (simp add: saturate_i128_def)
  then show "t - reserved (tr_vault s) = n"
    using n assms(2,4) by (auto simp: saturate_i128_def in_i128_def VIRTUAL_ASSETS_def split: if_splits)
qed

lemma deposit_price:
  assumes "token_like P" and "deposit P E a k s = Inr (c, s')" and "gv_global (tr_gov s) = Some g"
    and "shares_ok (tr_vault s)" and "a \<noteq> e_self E" and "compute_nav P E g s = Inr n"
    and t: "gross_value P E g s = Inr t" "reserved (tr_vault s) \<le> t"
    and nav': "compute_nav P E g s' = Inr n'" and fits: "in_i128 (n' + VIRTUAL_ASSETS)"
  shows "(n + VIRTUAL_ASSETS) * (share_supply (tr_vault s') + VIRTUAL_SHARES)
    \<le> (n' + VIRTUAL_ASSETS) * (share_supply (tr_vault s) + VIRTUAL_SHARES)"
proof -
  obtain w v ev where d: "pr_transfer P E (gc_collateral g) a (e_self E) k (tr_world s) = Some w"
      "mint_shares a k n (tr_vault s) = Inr (c, v)" "s' = s\<lparr>tr_world := w, tr_vault := v, tr_events := ev\<rparr>"
      "MIN_DEPOSIT \<le> k"
    using deposit_ok [OF assms(2,3)] assms(6) by (metis Inr_inject)
  note m = mint_shares_ok [OF d(2) assms(4)]
  obtain minted where minted: "shares_for_deposit k n (share_supply (tr_vault s)) = Some minted"
      "share_supply v = share_supply (tr_vault s) + minted" using m(4) by blast
  have "in_i128 (n + VIRTUAL_ASSETS)" using minted(1) by (simp add: shares_for_deposit_eq)
  note net = covered_nav [OF t assms(6) this]
  obtain t' where t': "gross_value P E g s' = Inr t'" "n' = max 0 (saturate_i128 (t' - reserved (tr_vault s')))"
    using nav' unfolding compute_nav_gross by blast
  have "t' = t + k"
    using gross_after_transfer [OF assms(1) t(1) t'(1), of E a "e_self E" k] d(1,3) assms(5) by simp
  moreover have "reserved (tr_vault s') = reserved (tr_vault s)" using m(7) d(3) by simp
  ultimately have n': "n' = max 0 (saturate_i128 (n + k))" using net(1) t'(2) by (simp add: algebra_simps)
  have "0 < n + k" using net(2) d(4) by (simp add: MIN_DEPOSIT_def)
  then have "0 < saturate_i128 (n + k)" by (simp add: saturate_i128_def)
  then have "n' = n + k"
    using n' fits saturate_exact [of "n + k"] by (simp add: VIRTUAL_ASSETS_def)
  then show ?thesis using deposit_keeps_price [OF minted(1)] minted(2) d(3) by simp
qed

lemma request_effect:
  assumes "token_like P" and "request_withdraw P E a k s = Inr ((paid, i), s')"
    and "gv_global (tr_gov s) = Some g" and "vault_ok (tr_vault s)" and "a \<noteq> e_self E"
  obtains n assets where "compute_nav P E g s = Inr n" and "0 < k"
    and "assets_for_shares k n (share_supply (tr_vault s)) = Some assets"
    and "k \<le> shares_of a (tr_vault s)" and "share_supply (tr_vault s') = share_supply (tr_vault s) - k"
    and "reserved (tr_vault s') = reserved (tr_vault s) + (assets - paid)"
    and "\<And>t t'. gross_value P E g s = Inr t \<Longrightarrow> gross_value P E g s' = Inr t' \<Longrightarrow> t' = t - paid"
proof -
  obtain n assets v s2 s3 where r: "0 < k" "compute_nav P E g s = Inr n"
      "assets_for_shares k n (share_supply (tr_vault s)) = Some assets"
      "burn_shares a k (tr_vault s) = Inr v"
      "(if 0 < paid then pay P E g (e_self E) a paid (s\<lparr>tr_vault := v\<rparr>) else Inr (s\<lparr>tr_vault := v\<rparr>)) = Inr s2"
      "s3 = s2 \<and> assets = paid \<or> paid < assets \<and> (\<exists>v'. queue_ticket a (assets - paid) (e_now E) (reserved v)
          (tr_vault s2) = Inr (i, v') \<and> s3 = s2\<lparr>tr_vault := v'\<rparr>)"
      "s' = tr_publish (EvWithdrawRequested a k assets paid i) s3"
      "paid = min assets (max 0 (saturate_i128 (idle P E g s - reserved v)))" "0 < assets"
    by (rule request_withdraw_ok [OF assms(2,3)])
  note b = burn_shares_ok [OF r(4) vault_okD(2) [OF assms(4)] less_imp_le [OF r(1)]]
  have s2: "tr_vault s2 = v" "tr_index s2 = tr_index s"
    using r(5) by (auto elim!: optional_pay)
  have "share_supply (tr_vault s3) = share_supply v \<and> reserved (tr_vault s3) = reserved v + (assets - paid)
      \<and> tr_index s3 = tr_index s2 \<and> tr_world s3 = tr_world s2"
    using r(6)
  proof (elim disjE conjE exE)
    fix v' assume "queue_ticket a (assets - paid) (e_now E) (reserved v) (tr_vault s2) = Inr (i, v')"
      and "s3 = s2\<lparr>tr_vault := v'\<rparr>" and "paid < assets"
    then show ?thesis using queue_ticket_ok(3,6) [of a "assets - paid" "e_now E" v i v'] s2 b(6) vault_okD(1) [OF assms(4)]
      by simp
  qed (simp add: s2)
  then have s': "share_supply (tr_vault s') = share_supply (tr_vault s) - k"
      "reserved (tr_vault s') = reserved (tr_vault s) + (assets - paid)" "tr_index s' = tr_index s"
      "tr_world s' = tr_world s2"
    using r(7) b(4,7) s2 by (simp_all add: tr_publish_def)
  have "0 \<le> paid" using r(8,9) by simp
  have "t' = t - paid" if t: "gross_value P E g s = Inr t" "gross_value P E g s' = Inr t'" for t t'
  proof (cases "0 < paid")
    case True
    then obtain w where w: "pr_transfer P E (gc_collateral g) (e_self E) a paid (tr_world s) = Some w"
        "s2 = s\<lparr>tr_vault := v, tr_world := w\<rparr>" using r(5) by (auto elim!: pay_ok)
    then show ?thesis
      using gross_after_transfer [OF assms(1) t, of E "e_self E" a paid] s'(3,4) assms(5) by simp
  next
    case False
    then have "tr_world s2 = tr_world s" using r(5) by auto
    then have "gross_value P E g s' = gross_value P E g s"
      using s'(3,4) by (simp add: gross_value_def idle_def)
    then show ?thesis using t False \<open>0 \<le> paid\<close> by simp
  qed
  then show thesis using that [OF r(2,1,3) b(3) s'(1,2)] by blast
qed

lemma request_price:
  assumes "token_like P" and "request_withdraw P E a k s = Inr (x, s')" and "gv_global (tr_gov s) = Some g"
    and "vault_ok (tr_vault s)" and "a \<noteq> e_self E" and "compute_nav P E g s = Inr n"
    and t: "gross_value P E g s = Inr t" "reserved (tr_vault s) \<le> t"
    and nav': "compute_nav P E g s' = Inr n'"
  shows "(n + VIRTUAL_ASSETS) * (share_supply (tr_vault s') + VIRTUAL_SHARES)
    \<le> (n' + VIRTUAL_ASSETS) * (share_supply (tr_vault s) + VIRTUAL_SHARES)"
proof -
  obtain paid i where x: "x = (paid, i)" by (cases x)
  obtain assets where r: "0 < k" "assets_for_shares k n (share_supply (tr_vault s)) = Some assets"
      "k \<le> shares_of a (tr_vault s)" "share_supply (tr_vault s') = share_supply (tr_vault s) - k"
      "reserved (tr_vault s') = reserved (tr_vault s) + (assets - paid)"
      "\<And>t t'. gross_value P E g s = Inr t \<Longrightarrow> gross_value P E g s' = Inr t' \<Longrightarrow> t' = t - paid"
    using request_effect [OF assms(1) assms(2) [unfolded x] assms(3-5)] assms(6) by (metis Inr_inject)
  let ?S = "share_supply (tr_vault s)"
  have S: "k \<le> ?S" using shares_le_supply [OF vault_okD(2) [OF assms(4)], of a] r(3) by simp
  have a: "assets = k * (n + VIRTUAL_ASSETS) div (?S + VIRTUAL_SHARES)" "0 < ?S + VIRTUAL_SHARES"
      "in_i128 (n + VIRTUAL_ASSETS)"
    using r(2) by (auto simp: assets_for_shares_eq)
  note net = covered_nav [OF t assms(6) a(3)]
  have "k * (n + VIRTUAL_ASSETS) < (?S + VIRTUAL_SHARES) * (n + VIRTUAL_ASSETS)"
    using S net(2) by (intro mult_strict_right_mono) (simp_all add: VIRTUAL_SHARES_def VIRTUAL_ASSETS_def)
  then have "assets * (?S + VIRTUAL_SHARES) < (n + VIRTUAL_ASSETS) * (?S + VIRTUAL_SHARES)"
    using floor_div_bounds [OF a(2), of "k * (n + VIRTUAL_ASSETS)"] a(1) by (simp add: mult.commute)
  then have "assets < n + VIRTUAL_ASSETS" using a(2) by (simp add: mult_less_cancel_right)
  then have le: "assets \<le> n" by (simp add: VIRTUAL_ASSETS_def)
  obtain t' where t': "gross_value P E g s' = Inr t'" "n' = max 0 (saturate_i128 (t' - reserved (tr_vault s')))"
    using nav' unfolding compute_nav_gross by blast
  have "t' - reserved (tr_vault s') = n - assets" using r(5) r(6) [OF t(1) t'(1)] net(1) by simp
  moreover have "0 \<le> assets" using a net(2) r(1) by (simp add: pos_imp_zdiv_nonneg_iff VIRTUAL_ASSETS_def)
  moreover have "in_i128 (n - assets)"
    by (rule in_i128_below [OF a(3)]) (use le \<open>0 \<le> assets\<close> in \<open>simp_all add: VIRTUAL_ASSETS_def\<close>)
  ultimately have "n' = n - assets" using t'(2) le by (simp add: saturate_in)
  then show ?thesis using withdraw_keeps_price [OF r(2)] r(4) by simp
qed

lemma demo_gross0: "gross_value demo_peers (at_time 200) demo_global treasury0 = Inr 1000000000"
    "reserved (tr_vault treasury0) = 0"
  by (simp_all add: gross_value_def vault_demo)

text \<open>C17. While what the treasury holds covers what it reserved for queued withdrawals, a deposit or a
  withdrawal request does not lower the share price, the net asset value per share with both offset by
  their virtual parts: what the vault rounds, it rounds in favour of those who stay. (The value after
  the call stays below the end of i128.) Without that cover the net asset value is cut off at zero and
  nothing of the kind holds: a deposit then also pays for what is missing.\<close>

theorem share_price_never_falls:
  assumes "tr_constructor P E0 admin agent0 g0 delay dd days pol (tr_deployed wd) = Inr s0"
    and "tr_run P cs s0 = Inr s" and "tr_exec P E c s = Inr s'"
    and "c = TrDeposit a k \<or> c = TrRequestWithdraw a k" and "a \<noteq> e_self E" and "token_like P"
    and "gv_global (tr_gov s) = Some g" and "compute_nav P E g s = Inr n"
    and "gross_value P E g s = Inr t" and "reserved (tr_vault s) \<le> t"
    and "compute_nav P E g s' = Inr n'" and "in_i128 (n' + VIRTUAL_ASSETS)"
  shows "(n + VIRTUAL_ASSETS) * (share_supply (tr_vault s') + VIRTUAL_SHARES)
    \<le> (n' + VIRTUAL_ASSETS) * (share_supply (tr_vault s) + VIRTUAL_SHARES)"
proof -
  have v: "vault_ok (tr_vault s)"
    using tr_run_inv [OF assms(2) tr_constructor_ok(1) [OF assms(1)]] by (simp add: tr_inv_def)
  from assms(3,4) consider x where "deposit P E a k s = Inr (x, s')"
    | x where "request_withdraw P E a k s = Inr (x, s')" by (auto simp: drop_result_eq)
  then show ?thesis
    using deposit_price [OF assms(6) _ assms(7) vault_okD(2) [OF v] assms(5,8-12)]
      request_price [OF assms(6) _ assms(7) v assms(5,8-11)] by cases blast+
qed

theorem share_price_never_falls_witness:
  "(1000000000 + VIRTUAL_ASSETS) * (share_supply (tr_vault treasury_deposited) + VIRTUAL_SHARES)
    \<le> (2000000000 + VIRTUAL_ASSETS) * (share_supply (tr_vault treasury0) + VIRTUAL_SHARES)"
proof -
  have "tr_exec demo_peers (at_time 200) (TrDeposit 1 1000000000) treasury0 = Inr treasury_deposited"
    by (simp add: demo_deposit drop_result_def del: One_nat_def)
  moreover have "compute_nav demo_peers (at_time 200) demo_global treasury_deposited = Inr 2000000000"
    by (rule demo_nav1) (simp add: at_time_def)
  ultimately show ?thesis
    using share_price_never_falls [OF built [unfolded built_def], of "[]" treasury0 "at_time 200"
        "TrDeposit 1 1000000000" treasury_deposited 1 1000000000 demo_global 1000000000 1000000000 2000000000]
      demo_gross0
    by (simp add: token_like_demo demo_globals demo_nav0) (simp add: at_time_def in_i128_def VIRTUAL_ASSETS_def)
qed

section \<open>Depositing and withdrawing again\<close>

lemma gross_value_env: "e_self E' = e_self E \<Longrightarrow> gross_value P E' g s = gross_value P E g s"
proof -
  assume e: "e_self E' = e_self E"
  have h: "holdings_value P E' core i w = holdings_value P E core i w" for core i w
    unfolding holdings_value_def owns_pool_def e ..
  have "add_holdings P E' ix w ks = add_holdings P E ix w ks" for ix w ks
  proof (induction ks)
    case (Cons k ks)
    show ?case by (rule ext) (simp add: h Cons.IH)
  qed (simp add: fun_eq_iff)
  then show ?thesis by (simp add: gross_value_def idle_def e)
qed

lemma deposit_withdraw_arith:
  assumes "shares_for_deposit amount n issued = Some minted" and "k \<le> minted" and "n' \<le> n + amount"
    and "assets_for_shares k n' (issued + minted) = Some assets"
  shows "assets \<le> amount"
proof -
  let ?n = "n + VIRTUAL_ASSETS" and ?s = "issued + VIRTUAL_SHARES"
  have m: "minted * ?n \<le> amount * ?s" "0 < ?n" "0 \<le> amount"
    using assms(1) floor_div_bounds [of ?n "amount * ?s"] by (auto simp: shares_for_deposit_eq)
  have s: "0 < ?s + minted" "0 \<le> k" "assets = k * (n' + VIRTUAL_ASSETS) div (?s + minted)"
    using assms(4) by (auto simp: assets_for_shares_eq algebra_simps)
  have "assets * (?s + minted) \<le> k * (n' + VIRTUAL_ASSETS)"
    unfolding s(3) using floor_div_bounds [OF s(1)] by blast
  also have "\<dots> \<le> k * (?n + amount)" using assms(3) s(2) by (intro mult_left_mono) simp_all
  also have "\<dots> \<le> minted * (?n + amount)" using assms(2) m(2,3) by (intro mult_right_mono) simp_all
  also have "\<dots> \<le> amount * (?s + minted)" using m(1) by (simp add: algebra_simps)
  finally show ?thesis using s(1) by (simp add: mult_le_cancel_right)
qed

text \<open>C18. Depositing and at once asking for any of the credited shares back returns at most the deposit: what is
  paid immediately and what is queued together never exceed the amount deposited, in any state of
  the treasury.\<close>

theorem deposit_then_withdraw_earns_nothing:
  assumes "tr_constructor P E0 admin agent0 g0 delay dd days pol (tr_deployed wd) = Inr s0"
    and "tr_run P cs s0 = Inr s" and "deposit P E a amount s = Inr (credited, s1)"
    and "request_withdraw P E' a k s1 = Inr ((paid, i), s2)" and "k \<le> credited"
    and "e_self E' = e_self E" and "a \<noteq> e_self E" and "token_like P"
  shows "paid + (reserved (tr_vault s2) - reserved (tr_vault s1)) \<le> amount"
proof -
  have inv: "tr_inv s" by (rule tr_run_inv [OF assms(2) tr_constructor_ok(1) [OF assms(1)]])
  then obtain g where g: "gv_global (tr_gov s) = Some g" and v: "vault_ok (tr_vault s)"
    by (auto simp: tr_inv_def)
  obtain n w vt ev where d: "compute_nav P E g s = Inr n"
      "pr_transfer P E (gc_collateral g) a (e_self E) amount (tr_world s) = Some w"
      "mint_shares a amount n (tr_vault s) = Inr (credited, vt)"
      "s1 = s\<lparr>tr_world := w, tr_vault := vt, tr_events := ev\<rparr>" "MIN_DEPOSIT \<le> amount"
    using deposit_ok [OF assms(3) g] by metis
  note m = mint_shares_ok [OF d(3) vault_okD(2) [OF v]]
  obtain minted where minted: "shares_for_deposit amount n (share_supply (tr_vault s)) = Some minted"
      "credited \<le> minted" "share_supply vt = share_supply (tr_vault s) + minted" using m(4) by blast
  have g1: "gv_global (tr_gov s1) = Some g" and v1: "vault_ok (tr_vault s1)"
    using d(4) g v mint_vault_ok [OF d(3)] by simp_all
  obtain n1 assets where r: "compute_nav P E' g s1 = Inr n1"
      "assets_for_shares k n1 (share_supply (tr_vault s1)) = Some assets"
      "reserved (tr_vault s2) = reserved (tr_vault s1) + (assets - paid)"
    using request_effect [OF assms(8,4) g1 v1] assms(6,7) by metis
  obtain t t1 where t: "gross_value P E g s = Inr t" "n = max 0 (saturate_i128 (t - reserved (tr_vault s)))"
      "gross_value P E g s1 = Inr t1" "n1 = max 0 (saturate_i128 (t1 - reserved (tr_vault s1)))"
    using d(1) r(1) unfolding compute_nav_gross gross_value_env [OF assms(6)] by blast
  have "t1 = t + amount"
    using gross_after_transfer [OF assms(8) t(1,3), of E a "e_self E" amount] d(2,4) assms(7) by simp
  then have "t1 - reserved (tr_vault s1) = t - reserved (tr_vault s) + amount"
    using m(7) d(4) by simp
  then have "n1 \<le> n + amount"
    unfolding t(2,4) using saturate_grows [of amount] d(5) by (simp add: MIN_DEPOSIT_def)
  then have "assets \<le> amount"
    using deposit_withdraw_arith [OF minted(1) order_trans [OF assms(5) minted(2)]] r(2) minted(3) d(4)
    by simp
  then show ?thesis using r(3) by simp
qed

theorem deposit_then_withdraw_earns_nothing_witness:
  "1000000000 + (reserved (tr_vault treasury_left) - reserved (tr_vault treasury_deposited)) \<le> (1000000000 :: int)"
  using deposit_then_withdraw_earns_nothing [OF built [unfolded built_def] _ demo_deposit demo_withdrawn, of "[]"]
  by (simp add: token_like_demo) (simp add: at_time_def)

end
