(* ===== verification/TreasuryMarket.thy ===== *)
theory TreasuryMarket
  imports TreasuryVaultProps MarketProps
begin

text \<open>
  The treasury and the market contract together: the locale \<open>world_kept\<close> is what the treasury's
  calls may do to the contracts around it, \<open>market_peers\<close> plugs the model of the market contract
  and its collateral token into the treasury, and every call of the treasury is then a sequence of
  steps of the market contract.
\<close>

section \<open>What the treasury does to the world\<close>

locale world_kept =
  fixes P :: "'w peers" and env_ok :: "env \<Rightarrow> bool" and good :: "'w \<Rightarrow> bool"
  assumes transfer: "env_ok E \<Longrightarrow> e_auth E from \<or> from = e_self E \<Longrightarrow> good w
      \<Longrightarrow> pr_transfer P E tok from to n w = Some w' \<Longrightarrow> good w'"
    and create_market: "env_ok E \<Longrightarrow> good w
      \<Longrightarrow> pr_create_market P E core (e_self E) qh rh uri cat close seed bps w = Inr (i, w') \<Longrightarrow> good w'"
    and trade: "env_ok E \<Longrightarrow> good w \<Longrightarrow> pr_trade P E core f (e_self E) i out n m bound w = Inr (x, w') \<Longrightarrow> good w'"
    and redeem: "env_ok E \<Longrightarrow> good w \<Longrightarrow> pr_redeem P E core (e_self E) i w = Inr (x, w') \<Longrightarrow> good w'"
    and claim: "env_ok E \<Longrightarrow> good w \<Longrightarrow> pr_claim_pool_remainder P E core i w = Inr (x, w') \<Longrightarrow> good w'"
    and redeem_many: "env_ok E \<Longrightarrow> good w \<Longrightarrow> pr_redeem_many P E core (e_self E) ids w = Inr (br, w') \<Longrightarrow> good w'"
    and claim_many: "env_ok E \<Longrightarrow> good w
      \<Longrightarrow> pr_claim_pool_remainders P E core (e_self E) ids w = Inr (br, w') \<Longrightarrow> good w'"
    and lp_fees: "env_ok E \<Longrightarrow> good w \<Longrightarrow> pr_claim_lp_fees P E core i w = Inr (x, w') \<Longrightarrow> good w'"
    and sweep: "env_ok E \<Longrightarrow> good w \<Longrightarrow> pr_sweep_fees P E core i w = Inr (x, w') \<Longrightarrow> good w'"
    and transfer_position: "env_ok E \<Longrightarrow> good w
      \<Longrightarrow> pr_transfer_position P E core (e_self E) to i out n w = Inr w' \<Longrightarrow> good w'"
    and transfer_lp: "env_ok E \<Longrightarrow> good w \<Longrightarrow> pr_transfer_lp P E core i a w = Inr w' \<Longrightarrow> good w'"
    and submit: "env_ok E \<Longrightarrow> good w \<Longrightarrow> pr_submit P E pool a b d rs w = Some w' \<Longrightarrow> good w'"
    and register: "env_ok E \<Longrightarrow> good w \<Longrightarrow> pr_register_spec P E r i spec w = Some w' \<Longrightarrow> good w'"
begin

lemma pay_good:
  "env_ok E \<Longrightarrow> e_auth E from \<or> from = e_self E \<Longrightarrow> pay P E g from to n s = Inr s' \<Longrightarrow> good (tr_world s)
    \<Longrightarrow> good (tr_world s')"
  by (erule pay_ok) (use transfer in auto)

lemma opt_pay_good:
  assumes "(if 0 < k then pay P E g (e_self E) to k s else Inr s) = Inr s'" and "env_ok E" and "good (tr_world s)"
  shows "good (tr_world s')"
  using assms pay_good [of E "e_self E"] by (auto split: if_splits)

lemma ensure_liquid_good:
  "env_ok E \<Longrightarrow> ensure_liquid P E g n s = Inr s' \<Longrightarrow> good (tr_world s) \<Longrightarrow> good (tr_world s')"
  by (auto simp: ensure_liquid_def submit_request_def Let_def tr_simps split: if_splits option.splits
      intro: submit)

lemma settle_call_good:
  assumes "settle_call none w r = Inr (p, w')" and "\<And>x v. r = Inr (x, v) \<Longrightarrow> good v" and "good w"
  shows "good w'"
  using assms by (cases "(none, w, r)" rule: settle_call.cases) (auto split: if_splits)

lemma spend_world:
  assumes "reserve_capacity E g agent policy i n s1 = Inr s2" and "reserve_net g i n s2 = Inr s3"
    and "record_cost i n s3 = Inr s'"
  shows "tr_world s' = tr_world s1"
  by (rule spend_ok [OF assms]) simp

lemma record_creation_world: "record_creation E p s = Inr s' \<Longrightarrow> tr_world s' = tr_world s"
  by (erule record_creation_ok) simp

lemma create_good:
  assumes "agent_create_market P E agent qh rh uri cat close seed bps s = Inr (i, s')"
    and "gv_global (tr_gov s) = Some g" and "env_ok E" and "good (tr_world s)"
  shows "good (tr_world s')"
proof -
  obtain policy creation s1 s2 w s3 s4 where
    r: "record_creation E creation s = Inr s1" "ensure_liquid P E g seed s1 = Inr s2"
      "pr_create_market P E (gc_market_core g) (e_self E) qh rh uri cat close seed bps (tr_world s2) = Inr (i, w)"
      "reserve_capacity E g agent policy i seed (s2\<lparr>tr_world := w\<rparr>) = Inr s3"
      "reserve_net g i seed s3 = Inr s4" "record_cost i seed s4 = Inr s'"
    using assms(1) unfolding agent_create_market_def
    by (auto simp: res_simps load_global_configured [OF assms(2)] Let_def split: if_splits)
  have "good (tr_world s2)"
    using ensure_liquid_good [OF assms(3) r(2)] record_creation_world [OF r(1)] assms(4) by simp
  then have "good w" using create_market [OF assms(3) _ r(3)] by blast
  then show ?thesis using spend_world [OF r(4-6)] by simp
qed

lemma buy_good:
  assumes "do_agent_buy P E agent i out n m bound s = Inr (x, s')"
    and "gv_global (tr_gov s) = Some g" and "env_ok E" and "good (tr_world s)"
  shows "good (tr_world s')"
proof -
  obtain policy s1 f k w s2 s3 where
    r: "ensure_liquid P E g n s = Inr s1"
      "pr_trade P E (gc_market_core g) f (e_self E) i out n k bound (tr_world s1) = Inr (x, w)"
      "reserve_capacity E g agent policy i n (s1\<lparr>tr_world := w\<rparr>) = Inr s2"
      "reserve_net g i n s2 = Inr s3" "record_cost i n s3 = Inr s'"
    using assms(1) unfolding do_agent_buy_def
    by (auto simp: res_simps load_global_configured [OF assms(2)] Let_def split: if_splits)
  then show ?thesis
    using ensure_liquid_good [OF assms(3) r(1) assms(4)] trade [OF assms(3) _ r(2)]
      spend_world [OF r(3-5)] by simp
qed

lemma settles_world_same:
  assumes "record_return core i n s = Inr s1" and "record_proceeds i n s1 = Inr s2"
  shows "tr_world s2 = tr_world s"
  by (rule record_return_ok [OF assms(1)], rule record_proceeds_ok [OF assms(2)]) simp

lemma sell_good:
  assumes "do_agent_sell P E agent i out n m bound s = Inr (x, s')"
    and "gv_global (tr_gov s) = Some g" and "env_ok E" and "good (tr_world s)"
  shows "good (tr_world s')"
proof -
  obtain f k w s2 where
    r: "pr_trade P E (gc_market_core g) f (e_self E) i out n k bound (tr_world s) = Inr (x, w)"
      "record_return (gc_market_core g) i n (s\<lparr>tr_world := w\<rparr>) = Inr s2" "record_proceeds i n s2 = Inr s'"
    using assms(1) unfolding do_agent_sell_def
    by (auto simp: res_simps load_global_configured [OF assms(2)] Let_def split: if_splits)
  then show ?thesis
    using trade [OF assms(3,4) r(1)] settles_world_same [OF r(2,3)] by simp
qed

lemma payout_world: "record_payout core i p s = Inr s' \<Longrightarrow> tr_world s' = tr_world s"
  by (erule record_payout_ok) simp

lemma finish_world: "finish_settlement P E core i r s = Inr s' \<Longrightarrow> tr_world s' = tr_world s"
  by (erule finish_settlement_ok) simp

lemma redeem_good:
  assumes "do_redeem P E core i s = Inr (x, s')" and "env_ok E" and "good (tr_world s)"
  shows "good (tr_world s')"
proof -
  obtain p w s1 r where
    r: "settle_call McNothingToRedeem (tr_world s) (pr_redeem P E core (e_self E) i (tr_world s)) = Inr (p, w)"
      "record_payout core i p (s\<lparr>tr_world := w\<rparr>) = Inr s1" "finish_settlement P E core i r s1 = Inr s'"
    using assms(1) unfolding do_redeem_def Let_def by (auto simp: res_simps)
  have "good w" by (rule settle_call_good [OF r(1)]) (use redeem assms(2,3) in blast)+
  then show ?thesis using payout_world [OF r(2)] finish_world [OF r(3)] by simp
qed

lemma claim_good:
  assumes "do_claim P E core i s = Inr (x, s')" and "env_ok E" and "good (tr_world s)"
  shows "good (tr_world s')"
proof -
  obtain p w s1 r where
    r: "settle_call McAlreadyClaimed (tr_world s) (pr_claim_pool_remainder P E core i (tr_world s)) = Inr (p, w)"
      "record_payout core i p (s\<lparr>tr_world := w\<rparr>) = Inr s1" "finish_settlement P E core i r s1 = Inr s'"
    using assms(1) unfolding do_claim_def Let_def by (auto simp: res_simps)
  have "good w" by (rule settle_call_good [OF r(1)]) (use claim assms(2,3) in blast)+
  then show ?thesis using payout_world [OF r(2)] finish_world [OF r(3)] by simp
qed

lemma pool_claim_good:
  assumes "(if b then andThen (settle_call McAlreadyClaimed (tr_world s1)
                      (pr_claim_pool_remainder P E core i (tr_world s1))) (\<lambda>(p, w2).
                   andThen (record_payout core i p (s1\<lparr>tr_world := w2\<rparr>)) (\<lambda>s2. Inr (p, s2)))
              else Inr (0, s1)) = Inr (y, s2)"
    and "env_ok E" and "good (tr_world s1)"
  shows "good (tr_world s2)"
proof (cases b)
  case True
  then obtain p w2 where
    r: "settle_call McAlreadyClaimed (tr_world s1) (pr_claim_pool_remainder P E core i (tr_world s1)) = Inr (p, w2)"
      "record_payout core i p (s1\<lparr>tr_world := w2\<rparr>) = Inr s2"
    using assms(1) by (auto simp: res_simps)
  have "good w2" by (rule settle_call_good [OF r(1)]) (use claim assms(2,3) in blast)+
  then show ?thesis using payout_world [OF r(2)] by simp
next
  case False
  then show ?thesis using assms(1,3) by auto
qed

lemma settle_market_good:
  assumes "settle_market P E caller i s = Inr (x, s')" and "gv_global (tr_gov s) = Some g"
    and "env_ok E" and "good (tr_world s)"
  shows "good (tr_world s')"
proof (cases "re_settled (load_realized i s)")
  case True
  then show ?thesis using assms by (auto simp: settle_market_def Let_def res_simps)
next
  case False
  let ?core = "gc_market_core g"
  obtain p w where
    r: "settle_call McNothingToRedeem (tr_world s) (pr_redeem P E ?core (e_self E) i (tr_world s)) = Inr (p, w)"
    and rest: "andThen (record_payout ?core i p (s\<lparr>tr_world := w\<rparr>)) (\<lambda>s1.
       andThen (core_must (pr_get_market P ?core i (tr_world s1))) (\<lambda>m.
       if mk_status m = Open then Inl (Err TrMarketNotFinal)
       else
       andThen (if owns_pool E m
                then andThen (settle_call McAlreadyClaimed (tr_world s1)
                                (pr_claim_pool_remainder P E ?core i (tr_world s1))) (\<lambda>(p, w2).
                     andThen (record_payout ?core i p (s1\<lparr>tr_world := w2\<rparr>)) (\<lambda>s2. Inr (p, s2)))
                else Inr (0, s1)) (\<lambda>(lp_claimed, s2).
       andThen (ok_or TrInvalidAmount (checked_add (re_position_proceeds (load_realized i s)) p)) (\<lambda>x.
       andThen (ok_or TrInvalidAmount (checked_add (re_lp_proceeds (load_realized i s)) lp_claimed)) (\<lambda>y.
       andThen (finish_settlement P E ?core i
           ((load_realized i s)\<lparr>re_position_proceeds := x, re_lp_proceeds := y\<rparr>) s2) (\<lambda>s3.
         Inr (\<lparr>sp_redeemed = p, sp_lp_claimed = lp_claimed, sp_already_settled = False\<rparr>,
              tr_publish (EvMarketSettled i p lp_claimed caller) s3))))))) = Inr (x, s')"
    using assms(1) False
    by (auto simp: settle_market_def Let_def load_global_configured [OF assms(2)] andThen_eq_Inr [of "require_auth E caller"]
        andThen_eq_Inr [of "settle_call McNothingToRedeem (tr_world s) (pr_redeem P E ?core (e_self E) i (tr_world s))"])
  have "good w" by (rule settle_call_good [OF r]) (use redeem assms(3,4) in blast)+
  show ?thesis
    using rest
  proof (elim andThenE if_InlE, goal_cases)
    case (1 s1 m y)
    have s1: "good (tr_world s1)" using payout_world [OF 1(1)] \<open>good w\<close> by simp
    obtain lp s2 where y: "y = (lp, s2)" by (cases y)
    have "good (tr_world s2)"
      by (rule pool_claim_good [OF 1(4) [unfolded y] assms(3) s1])
    then show ?case using 1(5) finish_world unfolding y prod.case
      by (auto simp: tr_publish_def elim!: andThenE)
  qed
qed

lemma hand_over_good:
  "hand_over P E core a i out n w = Inr w' \<Longrightarrow> env_ok E \<Longrightarrow> good w \<Longrightarrow> good w'"
  by (auto simp: hand_over_def res_simps split: if_splits intro: transfer_position)

lemma migrate_good:
  assumes "migrate_market P E i s = Inr s'" and "gv_global (tr_gov s) = Some g"
    and "env_ok E" and "good (tr_world s)"
  shows "good (tr_world s')"
proof -
  let ?core = "gc_market_core g"
  show ?thesis
    using assms(1)
    unfolding migrate_market_def load_global_configured [OF assms(2)] Let_def andThen_Inr prod.case
  proof (elim andThenE if_InlE, goal_cases)
    case (1 _ a pos w1 w2 m w3 s3 s4)
    have "good w2" using hand_over_good 1(4,5) assms(3,4) by blast
    then have "good w3" using 1(7) transfer_lp [OF assms(3)] by (auto simp: res_simps split: if_splits)
    moreover have "tr_world s3 = w3"
      using 1(8) by (rule clear_net_ok) (simp add: save_exposure_def)
    moreover have "tr_world s4 = tr_world s3" using 1(9) by (rule on_index_remove_ok) simp
    ultimately show ?case using 1(10) by (auto simp: tr_publish_def)
  qed
qed

lemma bank_good:
  assumes "gv_global (tr_gov s) = Some g" and "env_ok E" and "good (tr_world s)"
  shows "deposit P E a n s = Inr (x, s') \<Longrightarrow> good (tr_world s')"
    and "request_withdraw P E a k s = Inr (y, s') \<Longrightarrow> good (tr_world s')"
    and "claim_withdraw P E i s = Inr (x, s') \<Longrightarrow> good (tr_world s')"
    and "emergency_withdraw P E a k s = Inr (x, s') \<Longrightarrow> good (tr_world s')"
    and "withdraw P E a n s = Inr s' \<Longrightarrow> good (tr_world s')"
proof -
  assume d: "deposit P E a n s = Inr (x, s')"
  then have "e_auth E a" unfolding deposit_def load_global_configured [OF assms(1)]
    by (auto simp: tr_simps)
  from d assms(1) show "good (tr_world s')"
    by (rule deposit_ok) (use transfer [OF assms(2) disjI1 [OF \<open>e_auth E a\<close>] assms(3)] in simp)
next
  assume r: "request_withdraw P E a k s = Inr (y, s')"
  obtain paid j where y: "y = (paid, j)" by (cases y)
  show "good (tr_world s')"
  proof (rule request_withdraw_ok [OF r [unfolded y] assms(1)])
    fix m assets v s2 s3
    assume pay: "(if 0 < paid then pay P E g (e_self E) a paid (s\<lparr>tr_vault := v\<rparr>) else Inr (s\<lparr>tr_vault := v\<rparr>)) = Inr s2"
      and s3: "s3 = s2 \<and> assets = paid \<or> paid < assets \<and> (\<exists>v'. queue_ticket a (assets - paid) (e_now E) (reserved v)
          (tr_vault s2) = Inr (j, v') \<and> s3 = s2\<lparr>tr_vault := v'\<rparr>)"
      and s': "s' = tr_publish (EvWithdrawRequested a k assets paid j) s3"
    have "good (tr_world s2)" using opt_pay_good [OF pay assms(2)] assms(3) by simp
    then show ?thesis using s3 s' by (auto simp: tr_publish_def)
  qed
next
  assume "claim_withdraw P E i s = Inr (x, s')"
  then obtain a k s1 v ev where "pay P E g (e_self E) a k s = Inr s1" "s' = tr_publish ev (s1\<lparr>tr_vault := v\<rparr>)"
    unfolding claim_withdraw_def load_global_configured [OF assms(1)] Let_def
    by (auto simp: res_simps split: if_splits)
  then show "good (tr_world s')" using pay_good [OF assms(2) disjI2 [OF refl] _ assms(3)] by (auto simp: tr_publish_def)
next
  assume "emergency_withdraw P E a k s = Inr (x, s')"
  then obtain v s1 ev where
      "(if 0 < x then pay P E g (e_self E) a x (s\<lparr>tr_vault := v\<rparr>) else Inr (s\<lparr>tr_vault := v\<rparr>)) = Inr s1"
      "s' = tr_publish ev s1"
    unfolding emergency_withdraw_def load_global_configured [OF assms(1)] Let_def
    by (auto simp: res_simps simp del: if_split)
  then show "good (tr_world s')" using opt_pay_good [OF _ assms(2)] assms(3) by (auto simp: tr_publish_def)
next
  assume "withdraw P E a n s = Inr s'"
  then obtain s1 where "ensure_liquid P E g n s = Inr s1" "pay P E g (e_self E) a n s1 = Inr s'"
    unfolding withdraw_def load_global_configured [OF assms(1)] by (auto simp: res_simps split: if_splits)
  then show "good (tr_world s')" using ensure_liquid_good assms(2,3) pay_good [OF assms(2)] by blast
qed

lemma lending_good:
  assumes "gv_global (tr_gov s) = Some g" and "env_ok E" and "good (tr_world s)"
  shows "set_yield_venue E pool n s = Inr s' \<Longrightarrow> good (tr_world s')"
    and "allocate_to_yield P E n s = Inr s' \<Longrightarrow> good (tr_world s')"
    and "recall_from_yield P E n s = Inr s' \<Longrightarrow> good (tr_world s')"
    and "disable_yield E s = Inr s' \<Longrightarrow> good (tr_world s')"
  subgoal using assms(3) unfolding set_yield_venue_def by (auto simp: tr_simps split: if_splits)
  subgoal unfolding allocate_to_yield_def submit_request_def load_global_configured [OF assms(1)]
    using submit [OF assms(2,3)] by (auto simp: tr_simps split: if_splits)
  subgoal unfolding recall_from_yield_def submit_request_def load_global_configured [OF assms(1)]
    using submit [OF assms(2,3)] by (auto simp: tr_simps Let_def split: if_splits)
  subgoal using assms(3) unfolding disable_yield_def by (auto simp: tr_simps split: option.splits)
  done

lemma batch_good:
  assumes "env_ok E" and "good (tr_world s)"
  shows "tr_redeem P E a i s = Inr (x, s') \<Longrightarrow> gv_global (tr_gov s) = Some g \<Longrightarrow> good (tr_world s')"
    and "tr_claim_pool_remainder P E a i s = Inr (x, s') \<Longrightarrow> gv_global (tr_gov s) = Some g \<Longrightarrow> good (tr_world s')"
    and "legacy_redeem P E a core i s = Inr (x, s') \<Longrightarrow> gv_global (tr_gov s) = Some g \<Longrightarrow> good (tr_world s')"
    and "legacy_claim_pool_remainder P E a core i s = Inr (x, s') \<Longrightarrow> gv_global (tr_gov s) = Some g
      \<Longrightarrow> good (tr_world s')"
    and "tr_redeem_many P E a ids s = Inr (y, s') \<Longrightarrow> gv_global (tr_gov s) = Some g \<Longrightarrow> good (tr_world s')"
    and "tr_claim_pool_remainders P E a ids s = Inr (y, s') \<Longrightarrow> gv_global (tr_gov s) = Some g \<Longrightarrow> good (tr_world s')"
  subgoal unfolding tr_redeem_def using redeem_good [OF _ assms]
    by (auto simp: res_simps load_global_configured)
  subgoal unfolding tr_claim_pool_remainder_def using claim_good [OF _ assms]
    by (auto simp: res_simps load_global_configured)
  subgoal unfolding legacy_redeem_def using redeem_good [OF _ assms]
    by (auto simp: res_simps load_global_configured)
  subgoal unfolding legacy_claim_pool_remainder_def using claim_good [OF _ assms]
    by (auto simp: res_simps load_global_configured)
  subgoal unfolding tr_redeem_many_def using redeem_many [OF assms]
    by (auto simp: res_simps load_global_configured)
  subgoal unfolding tr_claim_pool_remainders_def using claim_many [OF assms]
    by (auto simp: res_simps load_global_configured)
  done

lemma fees_good:
  assumes "env_ok E" and "good (tr_world s)" and "gv_global (tr_gov s) = Some g"
  shows "agent_claim_lp_fees P E a i s = Inr (x, s') \<Longrightarrow> good (tr_world s')"
    and "collect_market_fees P E i s = Inr (x, s') \<Longrightarrow> good (tr_world s')"
    and "close_trade P E a i s = Inr (x, s') \<Longrightarrow> good (tr_world s')"
    and "realize P E i s = Inr s' \<Longrightarrow> good (tr_world s')"
proof -
  assume "agent_claim_lp_fees P E a i s = Inr (x, s')"
  then obtain w s1 where r: "pr_claim_lp_fees P E (gc_market_core g) i (tr_world s) = Inr (x, w)"
      "record_return (gc_market_core g) i x (s\<lparr>tr_world := w\<rparr>) = Inr s'"
    by (auto simp: agent_claim_lp_fees_def res_simps load_global_configured [OF assms(3)])
  have "tr_world s' = w" using r(2) by (rule record_return_ok) simp
  then show "good (tr_world s')" using lp_fees [OF assms(1,2) r(1)] by simp
next
  assume "collect_market_fees P E i s = Inr (x, s')"
  then show "good (tr_world s')" using sweep [OF assms(1,2)]
    by (auto simp: collect_market_fees_def res_simps load_global_configured [OF assms(3)] tr_publish_def)
next
  assume "close_trade P E a i s = Inr (x, s')"
  then show "good (tr_world s')" using assms(2)
    by (auto simp: close_trade_def res_simps load_global_configured [OF assms(3)] Let_def tr_publish_def
        save_exposure_def)
next
  assume "realize P E i s = Inr s'"
  then have "try_realize P E (gc_market_core g) i s = Inr s'"
    by (auto simp: realize_def res_simps load_global_configured [OF assms(3)])
  then have "tr_world s' = tr_world s" by (rule try_realize_ok) simp
  then show "good (tr_world s')" using assms(2) by simp
qed

lemma settling_good:
  assumes "tr_exec P E c s = Inr s'" and "settling c" and g: "gv_global (tr_gov s) = Some g"
    and ok: "env_ok E" and good: "good (tr_world s)" and "\<And>w. c = TrOutside w \<Longrightarrow> good w"
  shows "good (tr_world s')"
  using assms(2)
proof (cases c rule: settling.cases)
  case 1
  then show ?thesis using assms(1) sell_good [OF _ g ok good]
    by (auto simp: drop_result_eq agent_sell_def agent_sell_v2_def split: option.splits)
next
  case 2 then show ?thesis using assms(1) fees_good(3) [OF ok good g] by (auto simp: drop_result_eq)
next
  case 3 then show ?thesis using assms(1) batch_good(1) [OF ok good _ g] by (auto simp: drop_result_eq)
next
  case 4 then show ?thesis using assms(1) batch_good(2) [OF ok good _ g] by (auto simp: drop_result_eq)
next
  case 5 then show ?thesis using assms(1) batch_good(3) [OF ok good _ g] by (auto simp: drop_result_eq)
next
  case 6 then show ?thesis using assms(1) batch_good(4) [OF ok good _ g] by (auto simp: drop_result_eq)
next
  case 7 then show ?thesis using assms(1) batch_good(5) [OF ok good _ g] by (auto simp: drop_result_eq)
next
  case 8 then show ?thesis using assms(1) batch_good(6) [OF ok good _ g] by (auto simp: drop_result_eq)
next
  case 9 then show ?thesis using assms(1) fees_good(1) [OF ok good g] by (auto simp: drop_result_eq)
next
  case 10 then show ?thesis using assms(1) fees_good(2) [OF ok good g] by (auto simp: drop_result_eq)
next
  case 11 then show ?thesis using assms(1) settle_market_good [OF _ g ok good] by (auto simp: drop_result_eq)
next
  case 12 then show ?thesis using assms(1) fees_good(4) [OF ok good g] by auto
next
  case 13 then show ?thesis using assms(1) migrate_good [OF _ g ok good] by auto
next
  case 14 then show ?thesis using assms(1,6) by auto
qed auto

lemma exec_good:
  assumes "tr_exec P E c s = Inr s'" and "gv_global (tr_gov s) = Some g"
    and "env_ok E" and "good (tr_world s)" and "\<And>w. c = TrOutside w \<Longrightarrow> good w"
  shows "good (tr_world s')"
proof -
  consider "spend_of c \<noteq> None" | "settling c" | "configuring c" | "banking c" using call_kind [of c] by auto
  then show ?thesis
  proof cases
    case 1
    then show ?thesis
    proof (cases c rule: spend_of.cases)
      case (1 a qh rh uri cat close seed bps)
      then show ?thesis using assms(1) create_good [OF _ assms(2-4)] by (auto simp: res_simps)
    next
      case (2 a r qh uri cat close seed bps spec)
      then obtain h i s1 w where "agent_create_market P E a qh h uri cat close seed bps s = Inr (i, s1)"
          "pr_register_spec P E r i spec (tr_world s1) = Some w" "s' = s1\<lparr>tr_world := w\<rparr>"
        using assms(1) by (auto simp: res_simps agent_create_market_and_reveal_def)
      then show ?thesis using register [OF assms(3) create_good [OF _ assms(2-4)]] by auto
    next
      case (3 a i out k m bound)
      then show ?thesis using assms(1) buy_good [OF _ assms(2-4)]
        by (auto simp: res_simps agent_buy_def agent_buy_v2_def split: option.splits)
    qed auto
  next
    case 2
    then show ?thesis using settling_good [OF assms(1) _ assms(2-5)] by blast
  next
    case 3
    then show ?thesis using configuring_exec [OF assms(1) _ assms(2)] assms(4)
      by (simp add: governs_def same_books_def)
  next
    case 4
    then show ?thesis using assms(1) bank_good [OF assms(2-4)] lending_good [OF assms(2-4)]
      by (cases c rule: banking.cases) (auto simp: drop_result_eq)
  qed
qed

lemma run_good:
  assumes "tr_run P cs s = Inr s'" and "tr_inv s" and "good (tr_world s)"
    and "\<forall>(E, c)\<in>set cs. env_ok E \<and> (\<forall>w. c = TrOutside w \<longrightarrow> good w)"
  shows "good (tr_world s')"
  using assms
proof (induction cs arbitrary: s)
  case (Cons x cs)
  obtain E c where x: "x = (E, c)" by (cases x)
  then obtain t where t: "tr_exec P E c s = Inr t" "tr_run P cs t = Inr s'"
    using Cons.prems(1) by (auto simp: res_simps)
  obtain g where g: "gv_global (tr_gov s) = Some g" using Cons.prems(2) by (auto simp: tr_inv_def)
  have "good (tr_world t)" by (rule exec_good [OF t(1) g]) (use Cons.prems x in auto)
  then show ?case using Cons.IH [OF t(2) tr_exec_inv [OF t(1) Cons.prems(2)]] Cons.prems(4) by simp
qed simp

end

section \<open>The market contract as the treasury's peer\<close>

text \<open>A call of the treasury runs in the market contract with the market's own address and the
  authorisations of the caller and of those who authorised the caller's invocation.\<close>

definition callee_env :: "address \<Rightarrow> env \<Rightarrow> env" where
  "callee_env core E = E\<lparr>e_self := core, e_auth := (\<lambda>a. a = e_self E \<or> e_auth E a)\<rparr>"

definition at_core :: "address \<Rightarrow> address \<Rightarrow> ('e, 'a) res \<Rightarrow> ('e, 'a) res" where
  "at_core core a r = (if a = core then r else Inl Trap)"

definition named_trade :: "'t token \<Rightarrow> env \<Rightarrow> symbol \<Rightarrow> address \<Rightarrow> nat \<Rightarrow> outcome \<Rightarrow> int \<Rightarrow> int
    \<Rightarrow> (nat \<times> nat) option \<Rightarrow> 't mc \<Rightarrow> (int \<times> 't mc) mc_res" where
  "named_trade T E f trader i out n m bound c =
     (case bound of
        None \<Rightarrow> if f = ''buy'' then buy T E trader i out n m c
                else if f = ''sell'' then sell T E trader i out n m c else Inl Trap
      | Some (limit, deadline) \<Rightarrow>
          if f = ''buy_v2'' then buy_v2 T E trader i out n m limit deadline c
          else if f = ''sell_v2'' then sell_v2 T E trader i out n m limit deadline c else Inl Trap)"

definition token_move :: "'t token \<Rightarrow> address \<Rightarrow> address \<Rightarrow> address \<Rightarrow> int \<Rightarrow> 't mc \<Rightarrow> 't mc option" where
  "token_move T tok from to n c =
     (case tk_transfer T tok from to n (mc_tok c) of None \<Rightarrow> None | Some t \<Rightarrow> Some (c\<lparr>mc_tok := t\<rparr>))"

definition market_peers :: "'t token \<Rightarrow> address \<Rightarrow> 't mc peers \<Rightarrow> 't mc peers" where
  "market_peers T core others = others
     \<lparr>pr_balance := (\<lambda>tok a c. tk_balance T tok (mc_tok c) a),
      pr_transfer := (\<lambda>E tok from to n c. token_move T tok from to n c),
      pr_create_market := (\<lambda>E a trader qh rh uri cat close seed bps c.
        at_core core a (create_market T (callee_env core E) trader qh rh uri cat close seed bps c)),
      pr_trade := (\<lambda>E a f trader i out n m bound c.
        at_core core a (named_trade T (callee_env core E) f trader i out n m bound c)),
      pr_get_price := (\<lambda>a i out c. at_core core a (get_price i out c)),
      pr_quote_buy := (\<lambda>a i out n c. at_core core a (quote_buy i out n c)),
      pr_quote_sell := (\<lambda>a i out n c. at_core core a (quote_sell i out n c)),
      pr_get_market := (\<lambda>a i c. at_core core a (get_market i c)),
      pr_get_position := (\<lambda>a i h c. at_core core a (Inr (get_position i h c))),
      pr_redeem := (\<lambda>E a h i c. at_core core a (redeem T (callee_env core E) h i c)),
      pr_claim_pool_remainder := (\<lambda>E a i c. at_core core a (claim_pool_remainder T (callee_env core E) i c)),
      pr_redeem_many := (\<lambda>E a h ids c. at_core core a (redeem_many T (callee_env core E) h ids c)),
      pr_claim_pool_remainders := (\<lambda>E a h ids c.
        at_core core a (claim_pool_remainders T (callee_env core E) h ids c)),
      pr_claim_lp_fees := (\<lambda>E a i c. at_core core a (claim_lp_fees T (callee_env core E) i c)),
      pr_sweep_fees := (\<lambda>E a i c. at_core core a (sweep_fees T (callee_env core E) i c)),
      pr_transfer_position := (\<lambda>E a h to i out n c.
        at_core core a (transfer_position (callee_env core E) h to i out n c)),
      pr_transfer_lp := (\<lambda>E a i to c. at_core core a (transfer_lp (callee_env core E) i to c))\<rparr>"

text \<open>The other contracts the treasury calls, the lending pool and the resolver, may move tokens but not
  out of the market contract.\<close>

definition spares :: "'t token \<Rightarrow> address \<Rightarrow> 't mc \<Rightarrow> 't mc \<Rightarrow> bool" where
  "spares T core c c' \<longleftrightarrow>
     (\<exists>t. c' = c\<lparr>mc_tok := t\<rparr> \<and> (\<forall>tok. tk_balance T tok (mc_tok c) core \<le> tk_balance T tok t core))"

definition others_ok :: "'t token \<Rightarrow> address \<Rightarrow> 't mc peers \<Rightarrow> bool" where
  "others_ok T core others \<longleftrightarrow>
     (\<forall>E pool a b d rs c c'. e_self E \<noteq> core \<and> \<not> e_auth E core
        \<and> pr_submit others E pool a b d rs c = Some c' \<longrightarrow> spares T core c c')
   \<and> (\<forall>E r i spec c c'. e_self E \<noteq> core \<and> \<not> e_auth E core
        \<and> pr_register_spec others E r i spec c = Some c' \<longrightarrow> spares T core c c')"

definition outside_env :: "address \<Rightarrow> env \<Rightarrow> bool" where
  "outside_env core E \<longleftrightarrow> e_self E \<noteq> core \<and> \<not> e_auth E core"

lemma at_core_eq [res_simps]: "at_core core a r = Inr x \<longleftrightarrow> a = core \<and> r = Inr x"
  by (simp add: at_core_def)

lemma reach_exec:
  assumes "outside_env core E" and "mc_reachable T peer core c" and "exec T peer (callee_env core E) call c = Inr c'"
  shows "mc_reachable T peer core c'"
  by (rule reach_step [OF assms(2)], rule step_call [OF _ _ assms(3)])
    (use assms(1) in \<open>auto simp: callee_env_def outside_env_def\<close>)

lemma reach_spares:
  assumes "spares T core c c'" and "mc_reachable T peer core c" and "token_ok T"
  shows "mc_reachable T peer core c'"
proof -
  obtain coll where coll: "in_collateral (mc_inst c) = Some coll"
    using mc_reachable_inv [OF assms(2,3)] by (auto simp: mc_inv_def mc_inv_owing_def)
  from assms(1) obtain t where "c' = c\<lparr>mc_tok := t\<rparr>" "tk_balance T coll (mc_tok c) core \<le> tk_balance T coll t core"
    by (auto simp: spares_def)
  then show ?thesis using reach_step [OF assms(2) step_other [OF coll]] by blast
qed

lemma token_move_spares:
  assumes "token_move T tok from to n c = Some c'" and "token_ok T" and "from \<noteq> core"
  shows "spares T core c c'"
  using assms token_okD [OF assms(2)]
  by (auto simp: token_move_def spares_def split: option.splits)

lemma market_peers_kept:
  assumes T: "token_ok T" and others: "others_ok T core others"
  shows "world_kept (market_peers T core others) (outside_env core) (mc_reachable T peer core)"
proof -
  have ex: "exec T peer (callee_env core E) call c = Inr c' \<Longrightarrow> outside_env core E
      \<Longrightarrow> mc_reachable T peer core c \<Longrightarrow> mc_reachable T peer core c'" for E call c c'
    by (rule reach_exec)
  note step = ex [of _ _ _ _]
  show ?thesis
  proof
    fix E src w tok to n w'
    assume "outside_env core E" "e_auth E src \<or> src = e_self E" "mc_reachable T peer core w"
      "pr_transfer (market_peers T core others) E tok src to n w = Some w'"
    moreover then have "src \<noteq> core" by (auto simp: outside_env_def)
    ultimately show "mc_reachable T peer core w'"
      using token_move_spares [OF _ T] reach_spares [OF _ _ T] by (simp add: market_peers_def) blast
  next
    fix E w a qh rh uri cat close seed bps i w'
    assume "outside_env core E" "mc_reachable T peer core w"
      "pr_create_market (market_peers T core others) E a (e_self E) qh rh uri cat close seed bps w = Inr (i, w')"
    then show "mc_reachable T peer core w'"
      using ex [of E "CallCreateMarket (e_self E) qh rh uri cat close seed bps" w w']
      by (simp add: market_peers_def res_simps)
  next
    fix E w a f i out n m bound x w'
    assume "outside_env core E" "mc_reachable T peer core w"
      "pr_trade (market_peers T core others) E a f (e_self E) i out n m bound w = Inr (x, w')"
    then show "mc_reachable T peer core w'"
      using ex [of E "CallBuy (e_self E) i out n m" w w'] ex [of E "CallSell (e_self E) i out n m" w w']
        ex [of E "CallBuyV2 (e_self E) i out n m (fst (the bound)) (snd (the bound))" w w']
        ex [of E "CallSellV2 (e_self E) i out n m (fst (the bound)) (snd (the bound))" w w']
      by (auto simp: market_peers_def named_trade_def res_simps split: if_splits option.splits)
  next
    fix E w a i x w'
    assume "outside_env core E" "mc_reachable T peer core w"
      "pr_redeem (market_peers T core others) E a (e_self E) i w = Inr (x, w')"
    then show "mc_reachable T peer core w'"
      using ex [of E "CallRedeem (e_self E) i" w w'] by (simp add: market_peers_def res_simps)
  next
    fix E w a i x w'
    assume "outside_env core E" "mc_reachable T peer core w"
      "pr_claim_pool_remainder (market_peers T core others) E a i w = Inr (x, w')"
    then show "mc_reachable T peer core w'"
      using ex [of E "CallClaimPoolRemainder i" w w'] by (simp add: market_peers_def res_simps)
  next
    fix E w a ids r w'
    assume "outside_env core E" "mc_reachable T peer core w"
      "pr_redeem_many (market_peers T core others) E a (e_self E) ids w = Inr (r, w')"
    then show "mc_reachable T peer core w'"
      using ex [of E "CallRedeemMany (e_self E) ids" w w'] by (simp add: market_peers_def res_simps)
  next
    fix E w a ids r w'
    assume "outside_env core E" "mc_reachable T peer core w"
      "pr_claim_pool_remainders (market_peers T core others) E a (e_self E) ids w = Inr (r, w')"
    then show "mc_reachable T peer core w'"
      using ex [of E "CallClaimPoolRemainders (e_self E) ids" w w'] by (simp add: market_peers_def res_simps)
  next
    fix E w a i x w'
    assume "outside_env core E" "mc_reachable T peer core w"
      "pr_claim_lp_fees (market_peers T core others) E a i w = Inr (x, w')"
    then show "mc_reachable T peer core w'"
      using ex [of E "CallClaimLpFees i" w w'] by (simp add: market_peers_def res_simps)
  next
    fix E w a i x w'
    assume "outside_env core E" "mc_reachable T peer core w"
      "pr_sweep_fees (market_peers T core others) E a i w = Inr (x, w')"
    then show "mc_reachable T peer core w'"
      using ex [of E "CallSweepFees i" w w'] by (simp add: market_peers_def res_simps)
  next
    fix E w a to i out n w'
    assume "outside_env core E" "mc_reachable T peer core w"
      "pr_transfer_position (market_peers T core others) E a (e_self E) to i out n w = Inr w'"
    then show "mc_reachable T peer core w'"
      using ex [of E "CallTransferPosition (e_self E) to i out n" w w'] by (simp add: market_peers_def res_simps)
  next
    fix E w a i to w'
    assume "outside_env core E" "mc_reachable T peer core w"
      "pr_transfer_lp (market_peers T core others) E a i to w = Inr w'"
    then show "mc_reachable T peer core w'"
      using ex [of E "CallTransferLp i to" w w'] by (simp add: market_peers_def res_simps)
  next
    fix E w pool a b d rs w'
    assume "outside_env core E" "mc_reachable T peer core w"
      "pr_submit (market_peers T core others) E pool a b d rs w = Some w'"
    then show "mc_reachable T peer core w'"
      using others reach_spares [OF _ _ T] by (simp add: market_peers_def others_ok_def outside_env_def) blast
  next
    fix E w r i spec w'
    assume "outside_env core E" "mc_reachable T peer core w"
      "pr_register_spec (market_peers T core others) E r i spec w = Some w'"
    then show "mc_reachable T peer core w'"
      using others reach_spares [OF _ _ T] by (simp add: market_peers_def others_ok_def outside_env_def) blast
  qed
qed

text \<open>A lending pool that refuses and a resolver that accepts every reveal.\<close>

definition idle_others :: "ledger mc peers" where
  "idle_others =
     \<lparr>pr_balance = (\<lambda>tok a w. 0), pr_transfer = (\<lambda>E tok from to n w. None),
      pr_create_market = (\<lambda>E core a qh rh uri cat close seed bps w. trap),
      pr_trade = (\<lambda>E core f a i out n lim bound w. trap),
      pr_get_price = (\<lambda>core i out w. trap), pr_quote_buy = (\<lambda>core i out n w. trap),
      pr_quote_sell = (\<lambda>core i out n w. trap), pr_get_market = (\<lambda>core i w. trap),
      pr_get_position = (\<lambda>core i a w. trap), pr_redeem = (\<lambda>E core a i w. trap),
      pr_claim_pool_remainder = (\<lambda>E core i w. trap), pr_redeem_many = (\<lambda>E core a ids w. trap),
      pr_claim_pool_remainders = (\<lambda>E core a ids w. trap), pr_claim_lp_fees = (\<lambda>E core i w. trap),
      pr_sweep_fees = (\<lambda>E core i w. trap), pr_transfer_position = (\<lambda>E core a b i out n w. trap),
      pr_transfer_lp = (\<lambda>E core i a w. trap), pr_submit = (\<lambda>E pool a b c rs w. None),
      pr_positions = (\<lambda>pool a w. None), pr_register_spec = (\<lambda>E r i spec w. Some w),
      pr_network_id = [], pr_to_xdr = (\<lambda>spec. []), pr_sha256 = (\<lambda>xs. xs)\<rparr>"

lemma idle_others_ok: "others_ok ledger_token core idle_others"
  unfolding others_ok_def idle_others_def spares_def
  by (auto intro!: exI [where x = "mc_tok _"])

interpretation market_world: world_kept
    "market_peers ledger_token 100 idle_others" "outside_env 100" "mc_reachable ledger_token no_peer 100"
  by (rule market_peers_kept [OF token_ok_ledger idle_others_ok])

section \<open>Treasury and market together\<close>

text \<open>The treasury of the market's first trader, deployed when the market is resolved, and the state
  after its agent redeemed the winning shares.\<close>

definition trader_env :: "nat \<Rightarrow> env" where
  "trader_env now = \<lparr>e_now = now, e_seq = now, e_max_ttl = 3110400, e_self = 1, e_auth = (\<lambda>a. a \<noteq> 100)\<rparr>"

definition owner0 :: "ledger mc tr" where
  "owner0 =
     \<lparr>tr_gov = tr_gov treasury0, tr_agents = tr_agents treasury0, tr_risk = tr_risk treasury0,
      tr_yield = tr_yield treasury0, tr_usage = Some (empty_window 0), tr_daily = None,
      tr_exposure = Map.empty, tr_net = \<lparr>nb_total = None, nb_net = Map.empty\<rparr>, tr_index = empty_index,
      tr_vault = empty_vault\<lparr>vl_shares := [9 \<mapsto> 3999999999000], vl_total_shares := Some 4000000000000\<rparr>,
      tr_world = demo4, tr_events = [EvAgentPolicySet 3 ROLE_ALL 1000 6000]\<rparr>"

lemma owner_built:
  "tr_constructor (market_peers ledger_token 100 idle_others) (trader_env 1002) 9 3 demo_global 86400 500 7
     demo_creation (tr_deployed demo4) = Inr owner0"
  by (simp add: tr_constructor_def tr_deployed_def validate_global_def validate_drawdown_config_def
      validate_creation_policy_def write_agent_def agent_count_of_def idle_def tr_simps demo_consts Let_def
      demo_vault_defs owner0_def treasury0_def market_peers_def trader_env_def ledger_token_def demo_states)

lemma trader_callee: "callee_env 100 (trader_env 1002) = demo_env 1002"
  by (auto simp: callee_env_def trader_env_def demo_env_def fun_eq_iff)

definition owner_paid :: "ledger mc tr" where
  "owner_paid = owner0
     \<lparr>tr_world := demo5, tr_net := \<lparr>nb_total = Some 0,
        nb_net = [OriginalKey 0 \<mapsto> \<lparr>np_collateral_in = 0, np_collateral_out = 1487487437\<rparr>]\<rparr>,
      tr_events := tr_events owner0 @ [EvNetExposureUpdated 0 0 0],
      tr_risk := (tr_risk treasury0)
        \<lparr>rk_pnl := [0 \<mapsto> \<lparr>pl_cost = 0, pl_proceeds = 1487487437, pl_realized = False\<rparr>]\<rparr>\<rparr>"

lemma owner_pays: "record_payout 100 0 1487487437 (owner0\<lparr>tr_world := demo5\<rparr>) = Inr owner_paid"
  by (simp add: record_payout_def record_return_def record_proceeds_def load_net_def save_net_def put_net_def
      core_key_def is_original_core_def cost_basis_def net_total_def net_at_def no_position_def load_pnl_def
      save_pnl_def tr_simps owner0_def owner_paid_def treasury0_def i128_defs Let_def saturate_i128_def)

lemma owner_redeems:
  "\<exists>s. tr_exec (market_peers ledger_token 100 idle_others) (trader_env 1002) (TrRedeem 3 0) owner0 = Inr s
     \<and> tr_world s = demo5"
proof -
  let ?P = "market_peers ledger_token 100 idle_others"
  let ?E = "trader_env 1002"
  have paid: "pr_redeem ?P ?E 100 (e_self ?E) 0 demo4 = Inr (1487487437, demo5)"
    using demo5_run by (simp add: market_peers_def at_core_def trader_callee) (simp add: trader_env_def)
  have views: "pr_get_position ?P 100 0 (e_self ?E) demo5 = Inr \<lparr>ps_yes = 0, ps_no = 0\<rparr>"
      "pr_get_market ?P 100 0 demo5 = get_market 0 demo5"
    by (simp_all add: market_peers_def at_core_def get_position_def load_position_def demo_states)
  obtain m where m: "get_market 0 demo5 = Inr m" "mk_creator m = 2" "mk_status m = Resolved Yes"
    by (simp add: get_market_def load_market_def demo_states)
  have "\<exists>s. finish_settlement ?P ?E 100 0 ((load_realized 0 owner_paid)\<lparr>re_position_proceeds := 1487487437\<rparr>) owner_paid
      = Inr s \<and> tr_world s = demo5"
    using m views
    by (simp add: finish_settlement_def settled_in_def close_market_exposure_def prune_if_settled_def
        try_realize_def load_pnl_def save_pnl_def load_realized_def save_realized_def add_daily_pnl_def load_drawdown_cfg_def
        advance_pnl_days_def empty_pnl_days_def empty_days vec_set_def check_drawdown_def calc_window_pnl_def flag_def
        save_exposure_def market_exposure_def core_key_def is_original_core_def empty_index_def
        tr_simps demo_consts Let_def sub_nat_def sub_i128_def owner_paid_def owner0_def treasury0_def trader_env_def)
  moreover have "require_agent ?E 3 ROLE_SETTLE owner0 = Inr demo_agent"
    by (simp add: require_agent_def owner0_def treasury0_def trader_env_def demo_agent_def tr_simps roles_ok)
  moreover have "gv_global (tr_gov owner0) = Some demo_global" "tr_world owner0 = demo4"
      "gc_market_core demo_global = 100" "re_position_proceeds (load_realized 0 owner_paid) = 0"
    by (simp_all add: owner0_def owner_paid_def treasury0_def demo_global_def load_realized_def)
  ultimately show ?thesis
    using paid owner_pays
    by (elim exE conjE) (simp add: tr_redeem_def load_global_configured do_redeem_def drop_result_def Let_def i128_defs)
qed

text \<open>The treasury and the market contract together: whatever calls the treasury makes after its
  constructor, with any calls of others on the market contract between them, the market contract stays in
  a state it can reach by its own calls, so its collateral always covers what it owes on all its markets.
  The treasury never authorises as the market contract, and the lending pool and the resolver take no
  token from it.\<close>

lemma treasury_keeps_market_solvent:
  assumes "token_ok T" and "others_ok T core others" and "mc_reachable T peer core c"
    and "tr_constructor (market_peers T core others) E admin agent g delay dd days policy (tr_deployed c) = Inr s0"
    and "tr_run (market_peers T core others) cs s0 = Inr s"
    and "\<forall>(E, call)\<in>set cs. outside_env core E
           \<and> (\<forall>w. call = TrOutside w \<longrightarrow> mc_reachable T peer core w)"
    and "in_collateral (mc_inst (tr_world s)) = Some coll" and "in_next_id (mc_inst (tr_world s)) = Some n"
  shows "mc_reachable T peer core (tr_world s)
     \<and> (\<Sum>i<n. booked_at (tr_world s) i) \<le> tk_balance T coll (mc_tok (tr_world s)) core"
proof -
  have "mc_reachable T peer core (tr_world s)"
    by (rule world_kept.run_good [OF market_peers_kept [OF assms(1,2)] assms(5)])
      (use tr_constructor_ok(1,8) [OF assms(4)] assms(3,6) in simp_all)
  moreover from mc_reachable_inv [OF this assms(1)]
  have "(\<Sum>i<n. booked_at (tr_world s) i) \<le> tk_balance T coll (mc_tok (tr_world s)) core"
    using assms(7,8) by (auto simp: mc_inv_def mc_inv_owing_def)
  ultimately show ?thesis by blast
qed

text \<open>The treasury of the market's first trader redeems the winning shares: its vault holds what the market
  paid, and the market still covers its books.\<close>

lemma treasury_keeps_market_solvent_witness:
  "\<exists>s. tr_run (market_peers ledger_token 100 idle_others) [(trader_env 1002, TrRedeem 3 0)] owner0 = Inr s
     \<and> tk_balance ledger_token 50 (mc_tok (tr_world s)) 1 = 5487487437
     \<and> (\<Sum>i<1. booked_at (tr_world s) i) \<le> tk_balance ledger_token 50 (mc_tok (tr_world s)) 100"
proof -
  obtain s where s: "tr_run (market_peers ledger_token 100 idle_others) [(trader_env 1002, TrRedeem 3 0)] owner0 = Inr s"
      "tr_world s = demo5"
    using owner_redeems by auto
  have "(\<Sum>i<1. booked_at (tr_world s) i) \<le> tk_balance ledger_token 50 (mc_tok (tr_world s)) 100"
    using treasury_keeps_market_solvent
        [OF token_ok_ledger idle_others_ok demo_reach(5) owner_built s(1), of 50 1]
    by (simp add: outside_env_def trader_env_def s(2)) (simp add: demo_states)
  moreover have "tk_balance ledger_token 50 (mc_tok (tr_world s)) 1 = 5487487437"
    by (simp add: s(2) ledger_token_def demo_states)
  ultimately show ?thesis using s by blast
qed

end
