(* ===== verification/TreasuryBuys.thy ===== *)
theory TreasuryBuys
  imports TreasuryMarket MarketTrades
begin

text \<open>
  An agent's purchase with the market contract in its place: the guards of the treasury's policies on the
  market's own prices, the trade the market makes, the collateral that moves and the treasury's books.
\<close>

section \<open>The books of a spend\<close>

lemma reserve_capacity_exposure:
  assumes "reserve_capacity E g agent policy i n s = Inr s'"
  shows "me_amount (market_exposure (gc_market_core g) i s') = me_amount (market_exposure (gc_market_core g) i s) + n"
    and "me_amount (market_exposure (gc_market_core g) i s) + n \<le> gc_max_market g"
proof -
  let ?core = "gc_market_core g"
  obtain tot w' aw' s1 where r: "me_amount (market_exposure ?core i s) + n \<le> gc_max_market g"
      "on_index (index_add ?core i) s = Inr s1"
      "s' = tr_publish (EvTradeAuthorized i agent n (me_amount (market_exposure ?core i s) + n) tot)
         ((save_exposure ?core i \<lparr>me_amount = me_amount (market_exposure ?core i s) + n, me_open = True\<rparr> s1)
           \<lparr>tr_agents := (tr_agents s1)\<lparr>ag_windows := (ag_windows (tr_agents s1))(agent \<mapsto> aw')\<rparr>,
            tr_usage := Some w', tr_daily := None\<rparr>)"
    using assms by (auto simp: reserve_capacity_def Let_def res_simps int_ops save_exposure_def split: if_splits)
  show "me_amount (market_exposure ?core i s) + n \<le> gc_max_market g" by (rule r(1))
  have "core_key ?core i (tr_publish ev (s1\<lparr>tr_exposure := x, tr_agents := a, tr_usage := b, tr_daily := d\<rparr>)) = core_key ?core i s1"
    for ev x a b d by (simp add: core_key_def is_original_core_def tr_publish_def)
  then show "me_amount (market_exposure ?core i s') = me_amount (market_exposure ?core i s) + n"
    by (simp add: r(3) market_exposure_def save_exposure_def tr_publish_def core_key_def is_original_core_def)
qed

lemma reserve_net_books:
  assumes "reserve_net g i n s = Inr s'"
  shows "np_collateral_in (load_net (gc_market_core g) i s') = np_collateral_in (load_net (gc_market_core g) i s) + n"
    and "net_total (tr_net s') \<le> gc_max_net_exposure g"
  using assms
  by (auto simp: reserve_net_def save_net_def put_net_def load_net_def net_at_def net_total_def core_key_def
      is_original_core_def tr_publish_def Let_def res_simps int_ops split: if_splits)

lemma record_cost_books:
  assumes "record_cost i n s = Inr s'" and "0 < n"
  shows "pl_cost (load_pnl i s') = pl_cost (load_pnl i s) + n" and "tr_net s' = tr_net s" "tr_exposure s' = tr_exposure s"
    "tr_gov s' = tr_gov s" "tr_world s' = tr_world s"
  using assms by (auto simp: record_cost_def save_pnl_def upd_risk_def load_pnl_def Let_def res_simps int_ops)

lemma spend_books:
  assumes "reserve_capacity E g agent policy i n s1 = Inr s2" and "reserve_net g i n s2 = Inr s3"
    and "record_cost i n s3 = Inr s'" and "0 < n"
  shows "me_amount (market_exposure (gc_market_core g) i s') = me_amount (market_exposure (gc_market_core g) i s1) + n"
    and "me_amount (market_exposure (gc_market_core g) i s') \<le> gc_max_market g"
    and "np_collateral_in (load_net (gc_market_core g) i s') = np_collateral_in (load_net (gc_market_core g) i s1) + n"
    and "net_total (tr_net s') \<le> gc_max_net_exposure g"
    and "pl_cost (load_pnl i s') = pl_cost (load_pnl i s1) + n" and "tr_world s' = tr_world s1"
proof -
  obtain aw w' ex ix ev where s2: "s2 = s1\<lparr>tr_agents := (tr_agents s1)\<lparr>ag_windows := (ag_windows (tr_agents s1))(agent \<mapsto> aw)\<rparr>,
      tr_usage := Some w', tr_daily := None, tr_exposure := ex, tr_index := ix, tr_events := ev\<rparr>"
    using assms(1) by (rule reserve_capacity_ok)
  obtain nb ev' where s3: "s3 = s2\<lparr>tr_net := nb, tr_events := ev'\<rparr>"
    using assms(2) by (rule reserve_net_ok)
  note cost = record_cost_books [OF assms(3,4)]
  have "market_exposure c i s' = market_exposure c i s2" "load_net c i s' = load_net c i s3" for c
    using cost by (simp_all add: s3 market_exposure_def load_net_def core_key_def is_original_core_def)
  then show "me_amount (market_exposure (gc_market_core g) i s') = me_amount (market_exposure (gc_market_core g) i s1) + n"
    "me_amount (market_exposure (gc_market_core g) i s') \<le> gc_max_market g"
    using reserve_capacity_exposure [OF assms(1)] by simp_all
  show "tr_world s' = tr_world s1" using cost(5) by (simp add: s3 s2)
  have "load_net c i s2 = load_net c i s1" "load_pnl i s3 = load_pnl i s1" for c
    by (simp_all add: s3 s2 load_net_def load_pnl_def core_key_def is_original_core_def)
  then show "np_collateral_in (load_net (gc_market_core g) i s') = np_collateral_in (load_net (gc_market_core g) i s1) + n"
    "net_total (tr_net s') \<le> gc_max_net_exposure g" "pl_cost (load_pnl i s') = pl_cost (load_pnl i s1) + n"
    using reserve_net_books [OF assms(2)] \<open>load_net _ i s' = load_net _ i s3\<close> cost by simp_all
qed

section \<open>The trade\<close>

lemma bought_on_market:
  assumes "pr_trade (market_peers T core others) E core (push_bound bound ''buy'' ''buy_v2'') trader i out n k bound c
    = Inr (x, c')"
  obtains lim where "do_buy T (callee_env core E) trader i out n k lim c = Inr (x, c')"
  using assms that
  by (cases bound) (auto simp: market_peers_def at_core_def named_trade_def push_bound_def buy_def buy_v2_def split: if_splits)

lemma ensure_liquid_world:
  assumes "ensure_liquid (market_peers T core others) E g n s = Inr s1" and "others_ok T core others" and "outside_env core E"
  shows "spares T core (tr_world s) (tr_world s1)"
    and "n \<le> tk_balance T (gc_collateral g) (mc_tok (tr_world s)) (e_self E) \<Longrightarrow> tr_world s1 = tr_world s"
proof -
  have idle: "idle (market_peers T core others) E g s = tk_balance T (gc_collateral g) (mc_tok (tr_world s)) (e_self E)"
    by (simp add: idle_def market_peers_def)
  show "n \<le> tk_balance T (gc_collateral g) (mc_tok (tr_world s)) (e_self E) \<Longrightarrow> tr_world s1 = tr_world s"
    using assms(1) by (simp add: ensure_liquid_def idle)
  show "spares T core (tr_world s) (tr_world s1)"
  proof (cases "n \<le> idle (market_peers T core others) E g s")
    case True
    then have "s1 = s" using assms(1) by (simp add: ensure_liquid_def)
    then show ?thesis unfolding spares_def by (intro exI [of _ "mc_tok (tr_world s)"]) simp
  next
    case False
    then obtain pool a b d rs where "pr_submit others E pool a b d rs (tr_world s) = Some (tr_world s1)"
      using assms(1) by (auto simp: ensure_liquid_def submit_request_def market_peers_def Let_def tr_simps
          split: if_splits option.splits)
    then show ?thesis using assms(2,3) unfolding others_ok_def outside_env_def by blast
  qed
qed

section \<open>Properties\<close>

text \<open>C16. An agent's purchase on the market contract, whether bounded or not: it succeeds only for an active agent
  with the trading role that authorised it, within the trade sizes of the agent and of the treasury; the market's
  price of the outcome is at most the policy's highest buying price before the trade and moves by at most
  the policy's impact; the shares are what the market quoted, at least the requested number, and are
  added to the treasury's own position. The payment reaches the market, taken exactly from the treasury
  where its idle collateral covers it, never from what is reserved for queued withdrawals; and it is booked
  in full as the market's exposure, as net exposure and as cost, within the caps.\<close>

theorem agent_buys_within_policy:
  assumes "token_ok T" and "others_ok T core others" and "outside_env core E"
    and g: "gv_global (tr_gov s) = Some g" "gc_market_core g = core"
    and coll: "in_collateral (mc_inst (tr_world s)) = Some (gc_collateral g)"
    and buy: "do_agent_buy (market_peers T core others) E agent i out n m bound s = Inr (x, s')"
  shows "\<exists>policy before after. e_auth E agent \<and> ag_policies (tr_agents s) agent = Some policy \<and> ap_active policy
      \<and> ap_roles policy AND ROLE_TRADE \<noteq> 0 \<and> 0 < n \<and> n \<le> ap_max_trade policy \<and> n \<le> gc_max_trade g
    \<and> get_price i out (tr_world s) = Inr before \<and> before \<le> pp_max_buy_price_bps (load_price_policy s)
    \<and> get_price i out (tr_world s') = Inr after \<and> nat_diff after before \<le> pp_max_impact_bps (load_price_policy s)
    \<and> quote_buy i out n (tr_world s) = Inr x \<and> 0 < x \<and> m \<le> x
    \<and> ps_yes (load_position i (e_self E) (tr_world s')) = ps_yes (load_position i (e_self E) (tr_world s)) + (if out = Yes then x else 0)
    \<and> ps_no (load_position i (e_self E) (tr_world s')) = ps_no (load_position i (e_self E) (tr_world s)) + (if out = No then x else 0)
    \<and> tk_balance T (gc_collateral g) (mc_tok (tr_world s)) core + n \<le> tk_balance T (gc_collateral g) (mc_tok (tr_world s')) core
    \<and> (n \<le> tk_balance T (gc_collateral g) (mc_tok (tr_world s)) (e_self E) \<longrightarrow>
         tk_balance T (gc_collateral g) (mc_tok (tr_world s')) core = tk_balance T (gc_collateral g) (mc_tok (tr_world s)) core + n
       \<and> tk_balance T (gc_collateral g) (mc_tok (tr_world s')) (e_self E)
           = tk_balance T (gc_collateral g) (mc_tok (tr_world s)) (e_self E) - n)
    \<and> (reserved (tr_vault s) = 0
       \<or> reserved (tr_vault s) \<le> saturate_i128 (tk_balance T (gc_collateral g) (mc_tok (tr_world s)) (e_self E) - n))
    \<and> me_amount (market_exposure core i s') = me_amount (market_exposure core i s) + n
    \<and> me_amount (market_exposure core i s') \<le> gc_max_market g
    \<and> np_collateral_in (load_net core i s') = np_collateral_in (load_net core i s) + n
    \<and> net_exposure s' \<le> gc_max_net_exposure g
    \<and> pl_cost (load_pnl i s') = pl_cost (load_pnl i s) + n"
proof -
  let ?P = "market_peers T core others" and ?coll = "gc_collateral g"
  obtain policy before after s1 k w s2 s3 where
    r: "require_agent E agent ROLE_TRADE s = Inr policy" "check_trade_size g policy n = Inr ()"
      "ensure_unreserved ?P E g n s = Inr ()" "pr_get_price ?P core i out (tr_world s) = Inr before"
      "before \<le> pp_max_buy_price_bps (load_price_policy s)" "ensure_liquid ?P E g n s = Inr s1"
      "pr_trade ?P E core (push_bound bound ''buy'' ''buy_v2'') (e_self E) i out n k bound (tr_world s1) = Inr (x, w)"
      "m \<le> k" "pr_get_price ?P core i out w = Inr after" "nat_diff after before \<le> pp_max_impact_bps (load_price_policy s)"
      "reserve_capacity E g agent policy i n (s1\<lparr>tr_world := w\<rparr>) = Inr s2" "reserve_net g i n s2 = Inr s3"
      "record_cost i n s3 = Inr s'"
    using buy unfolding do_agent_buy_def
    by (auto simp: res_simps load_global_configured [OF g(1)] g(2) Let_def not_less split: if_splits)
  have n: "0 < n" "n \<le> ap_max_trade policy" "n \<le> gc_max_trade g"
    using r(2) by (auto simp: check_trade_size_def split: if_splits)
  have self: "e_self E \<noteq> core" using assms(3) by (simp add: outside_env_def)
  obtain w2 y ev where s1: "s1 = s\<lparr>tr_world := w2, tr_yield := y, tr_events := ev\<rparr>" using r(6) by (rule ensure_liquid_ok)
  note liquid = ensure_liquid_world [OF r(6) assms(2,3)]
  from liquid(1) obtain t where w1: "tr_world s1 = (tr_world s)\<lparr>mc_tok := t\<rparr>"
      "\<And>tok. tk_balance T tok (mc_tok (tr_world s)) core \<le> tk_balance T tok t core" by (auto simp: spares_def)
  obtain lim where "do_buy T (callee_env core E) (e_self E) i out n k lim (tr_world s1) = Inr (x, w)"
    using r(7) by (rule bought_on_market)
  then obtain mk rb ro q where trade: "mc_markets (tr_world s) i = Some mk" "reserves_for mk out = (rb, ro)"
      "calc_buy rb ro n (mk_fee_bps mk) = Inr q" "x = bq_shares_out q" "k \<le> x"
      "ps_yes (load_position i (e_self E) w) = ps_yes (load_position i (e_self E) (tr_world s)) + (if out = Yes then x else 0)"
      "ps_no (load_position i (e_self E) w) = ps_no (load_position i (e_self E) (tr_world s)) + (if out = No then x else 0)"
      "tk_transfer T ?coll (e_self E) core n t = Some (mc_tok w)"
  proof (rule do_buy_ok)
    fix m rb ro q prot lp p' coll'
    assume a: "mc_markets (tr_world s1) i = Some m" "reserves_for m out = (rb, ro)" "calc_buy rb ro n (mk_fee_bps m) = Inr q"
        "x = bq_shares_out q" "k \<le> x"
      and p: "ps_yes p' = ps_yes (load_position i (e_self E) (tr_world s1)) + (if out = Yes then x else 0)"
        "ps_no p' = ps_no (load_position i (e_self E) (tr_world s1)) + (if out = No then x else 0)"
      and tk: "in_collateral (mc_inst (tr_world s1)) = Some coll'"
        "tk_transfer T coll' (e_self E) (e_self (callee_env core E)) n (mc_tok (tr_world s1)) = Some (mc_tok w)"
      and t: "traded i (e_self E) ((set_reserves m out (bq_new_reserve_bought q) (bq_new_reserve_other q))
         \<lparr>mk_sets_minted := mk_sets_minted m + bq_net q,
          mk_fees_accrued := mk_fees_accrued m + prot\<rparr>) p' lp
       (\<lambda>s. s\<lparr>st_outstanding_yes := st_outstanding_yes s + (if out = Yes then x else 0),
             st_outstanding_no := st_outstanding_no s + (if out = No then x else 0)\<rparr>) (tr_world s1) w"
    have "mc_positions w = mc_positions (save_position i (e_self E) p' (tr_world s1))" using t by (simp add: traded_def)
    note pos = load_position_saved [OF this]
    have "load_position i (e_self E) (tr_world s1) = load_position i (e_self E) (tr_world s)"
      by (simp add: w1(1) load_position_def)
    then show ?thesis
      using that [OF _ a(2-5)] a(1) p tk coll pos by (simp add: w1(1) callee_env_def)
  qed
  have "tr_world s' = w" using spend_books(6) [OF r(11-13) n(1)] by simp
  moreover have "get_price i out (tr_world s) = Inr before" "get_price i out w = Inr after"
    using r(4,9) by (simp_all add: market_peers_def at_core_def)
  moreover have "quote_buy i out n (tr_world s) = Inr x"
    using trade(1-4) by (simp add: quote_buy_def load_market_def)
  moreover have "0 < x" using calc_buyD(10) [OF trade(3)] trade(4) by simp
  moreover have "tk_balance T ?coll (mc_tok w) core = tk_balance T ?coll t core + n"
      "tk_balance T ?coll (mc_tok w) (e_self E) = tk_balance T ?coll t (e_self E) - n"
    using token_okD(2) [OF assms(1) trade(8), of ?coll] self by simp_all
  moreover have "reserved (tr_vault s) = 0 \<or> reserved (tr_vault s) \<le> saturate_i128 (tk_balance T ?coll (mc_tok (tr_world s)) (e_self E) - n)"
    using r(3) by (auto simp: ensure_unreserved_def idle_def market_peers_def not_less split: if_splits)
  moreover have "n \<le> tk_balance T ?coll (mc_tok (tr_world s)) (e_self E) \<Longrightarrow> t = mc_tok (tr_world s)"
    using liquid(2) w1(1) by (metis mc.select_convs(11) mc.surjective mc.update_convs(11))
  moreover have "market_exposure core i (s1\<lparr>tr_world := w\<rparr>) = market_exposure core i s"
      "load_net core i (s1\<lparr>tr_world := w\<rparr>) = load_net core i s" "load_pnl i (s1\<lparr>tr_world := w\<rparr>) = load_pnl i s"
    by (simp_all add: s1 market_exposure_def load_net_def load_pnl_def core_key_def is_original_core_def)
  moreover have "net_exposure s' = net_total (tr_net s')" by (simp add: net_exposure_def)
  moreover note spend_books(1-5) [OF r(11-13) n(1), unfolded g(2)]
  moreover note r(1) [unfolded require_agent_eq] r(5,8,10) n trade(5-7) w1(2)
  ultimately show ?thesis by (intro exI [of _ policy] exI [of _ before] exI [of _ after]) force
qed
text \<open>The treasury of the example before the market is resolved: its agent buys Yes for 1000.\<close>

definition buyer0 :: "ledger mc tr" where
  "buyer0 = owner0\<lparr>tr_world := demo1\<rparr>"

lemma buyer_callee: "callee_env 100 (trader_env n) = demo_env n"
  by (auto simp: callee_env_def trader_env_def demo_env_def fun_eq_iff)

lemma demo1_bought:
  "\<exists>c'. buy ledger_token (demo_env 200) 1 0 Yes 1000 1939 demo1 = Inr (1979, c') \<and> get_price 0 Yes c' = Inr 5000"
  by (simp add: demo_eval demo_states get_price_def)

lemma buyer_buys:
  "\<exists>s. do_agent_buy (market_peers ledger_token 100 idle_others) (trader_env 200) 3 0 Yes 1000 5 None buyer0 = Inr (1979, s)"
proof -
  let ?P = "market_peers ledger_token 100 idle_others" and ?E = "trader_env 200"
  obtain c' where c': "buy ledger_token (demo_env 200) 1 0 Yes 1000 1939 demo1 = Inr (1979, c')" "get_price 0 Yes c' = Inr 5000"
    using demo1_bought by blast
  have views: "pr_get_price ?P 100 0 Yes demo1 = Inr 5000" "pr_quote_buy ?P 100 0 Yes 1000 demo1 = Inr 1979"
      "pr_get_price ?P 100 0 Yes c' = Inr 5000" "pr_balance ?P 50 1 demo1 = 5000000000"
    using c'(2) by (simp_all add: market_peers_def at_core_def demo_eval demo_states get_price_def quote_buy_def)
  have trade: "pr_trade ?P ?E 100 ''buy'' 1 0 Yes 1000 1939 None demo1 = Inr (1979, c')"
    using c'(1) by (simp add: market_peers_def at_core_def named_trade_def buyer_callee)
  show ?thesis
    using views trade
    by (simp add: buyer0_def owner0_def treasury0_def spend_defs tr_simps demo_consts Let_def roles_ok empty_buckets trader_env_def)
qed

theorem agent_buys_within_policy_witness:
  "\<exists>s. do_agent_buy (market_peers ledger_token 100 idle_others) (trader_env 200) 3 0 Yes 1000 5 None buyer0 = Inr (1979, s)
     \<and> tk_balance ledger_token 50 (mc_tok (tr_world s)) 100 = 1000001000
     \<and> ps_yes (load_position 0 1 (tr_world s)) = 1979 \<and> me_amount (market_exposure 100 0 s) = 1000"
proof -
  obtain s where s: "do_agent_buy (market_peers ledger_token 100 idle_others) (trader_env 200) 3 0 Yes 1000 5 None buyer0 = Inr (1979, s)"
    using buyer_buys by blast
  have facts: "gv_global (tr_gov buyer0) = Some demo_global" "tr_world buyer0 = demo1" "gc_collateral demo_global = 50"
      "gc_market_core demo_global = 100" "in_collateral (mc_inst demo1) = Some 50" "e_self (trader_env 200) = 1"
      "outside_env 100 (trader_env 200)" "tk_balance ledger_token 50 (mc_tok demo1) 1 = 5000000000"
      "tk_balance ledger_token 50 (mc_tok demo1) 100 = 1000000000" "ps_yes (load_position 0 1 demo1) = 0"
      "me_amount (market_exposure 100 0 buyer0) = 0"
    by (simp_all add: buyer0_def owner0_def treasury0_def demo_global_def trader_env_def outside_env_def demo_states
        ledger_token_def load_position_def market_exposure_def)
  show ?thesis
    using agent_buys_within_policy [OF token_ok_ledger idle_others_ok facts(7,1,4) _ s] facts s by auto
qed

end
