(* ===== verification/ResolverTypes.thy ===== *)
theory ResolverTypes
  imports MarketState
begin

text \<open>
  Constants, types, errors, events and storage of the resolver contract
  (\<^verbatim>\<open>contracts/resolver/src/lib.rs\<close>), and the contracts it calls.

  The record \<open>'w rs_peers\<close> holds what is outside the contract, over a state \<open>'w\<close>: market-core, the
  price feeds (SEP-40), the collateral token, the reasoning registry, and the host's hash, signature and XDR functions.
  A feed call that fails is \<open>None\<close>. The source calls a function \<open>core_call\<close> it does not define to
  turn market-core's errors into its own: \<open>rp_core_error\<close> is that mapping, of the error code or, for an
  aborted call, of nothing.
\<close>

section \<open>Constants\<close>

definition RS_ADMIN_PROPOSAL_TTL_SECS :: nat where "RS_ADMIN_PROPOSAL_TTL_SECS = 7 * 86400"
definition MAX_WEIGHTED_SIGNERS :: nat where "MAX_WEIGHTED_SIGNERS = 32"
definition MAX_SIGS_PER_CALL :: nat where "MAX_SIGS_PER_CALL = MAX_WEIGHTED_SIGNERS"
definition ATTEST_DOMAIN :: symbol where "ATTEST_DOMAIN = ''oracledesk-attest-v1''"
definition RESOLUTION_GRACE_SECS :: nat where "RESOLUTION_GRACE_SECS = 30 * 86400"
definition MAX_COMMITTEE :: nat where "MAX_COMMITTEE = 32"
definition MIN_ROTATION_DELAY :: nat where "MIN_ROTATION_DELAY = 86400"
definition REVEAL_GRACE_SECS :: nat where "REVEAL_GRACE_SECS = 3 * 86400"
definition ORACLE_GRACE_SECS :: nat where "ORACLE_GRACE_SECS = 86400"
definition SIGNER_GRACE_SECS :: nat where "SIGNER_GRACE_SECS = 7 * 86400"
definition MAX_CANCELS_PER_MARKET :: nat where "MAX_CANCELS_PER_MARKET = 2"
definition MAX_LOOKBACK_RECORDS :: nat where "MAX_LOOKBACK_RECORDS = 12"
definition MAX_THRESHOLD_DECIMALS :: nat where "MAX_THRESHOLD_DECIMALS = 38"
definition MAX_TWAP_SAMPLES :: nat where "MAX_TWAP_SAMPLES = 32"
definition RS_SPEC_DOMAIN :: symbol where "RS_SPEC_DOMAIN = ''oracledesk:resolution-spec''"
definition RS_SPEC_V2_VERSION :: nat where "RS_SPEC_V2_VERSION = 2"
definition SCALED_SPEC_DOMAIN :: symbol where "SCALED_SPEC_DOMAIN = ''oracledesk:scaled-price-spec''"
definition TWAP_SPEC_DOMAIN :: symbol where "TWAP_SPEC_DOMAIN = ''oracledesk:price-twap-spec''"

section \<open>Types\<close>

datatype resolution_state =
  Unconfigured | SignersPending | Finalized | Expired | Disputed | HybridPricePending | HybridFallbackOpen

fun is_terminal :: "resolution_state \<Rightarrow> bool" where
  "is_terminal Finalized = True"
| "is_terminal Expired = True"
| "is_terminal _ = False"

datatype expiry_mode = ModeUnrevealed | ModePrice | ModeSigners

record scaled_price_config =
  sp_reflector :: address
  sp_asset :: oracle_asset
  sp_threshold :: int
  sp_threshold_decimals :: nat
  sp_direction :: price_direction
  sp_max_staleness :: nat

record twap_config =
  tw_reflector :: address
  tw_asset :: oracle_asset
  tw_threshold :: int
  tw_direction :: price_direction
  tw_window :: nat
  tw_min_samples :: nat
  tw_max_gap :: nat

record signer_proposal =
  so_outcome :: outcome
  so_proposed_at :: nat

datatype attested_outcome = AttYes | AttNo | AttInvalid

fun to_market :: "attested_outcome \<Rightarrow> outcome option" where
  "to_market AttYes = Some Yes"
| "to_market AttNo = Some No"
| "to_market AttInvalid = None"

fun from_market :: "outcome \<Rightarrow> attested_outcome" where
  "from_market Yes = AttYes"
| "from_market No = AttNo"

record signer_proposal_v2 =
  sv_outcome :: attested_outcome
  sv_proposed_at :: nat

record price_snapshot =
  ss_data :: price_data
  ss_taken_at :: nat
  ss_taken_by :: address

datatype verdict = VerdictYes | VerdictNo | VerdictInvalid

record dispute_rec =
  di_disputer :: address
  di_bond :: int
  di_token :: address
  di_opened_at :: nat
  di_payee :: "address option"

record committee_rec =
  cm_admin :: address
  cm_members :: "address list"
  cm_threshold :: nat
  cm_epoch :: nat
  cm_rotation_delay :: nat

record pending_rotation =
  ro_members :: "address list"
  ro_threshold :: nat
  ro_executable_at :: nat

datatype evidence_policy = EvDisabled | EvOptional | EvRequired

record attestation_evidence =
  ae_signer :: address
  ae_outcome :: attested_outcome
  ae_trace_id :: nat
  ae_trace_hash :: bytesN
  ae_attested_at :: nat

datatype guardian_reason = UnrevealedSpec | OracleUnavailable | SignersStalled | DisputeUpheld

datatype guardian_action_kind = GuardianVoid | GuardianCancel

datatype rs_error =
  RsNotInitialized | RsUnauthorized | RsInvalidConfig | RsMarketAlreadyConfigured
| RsMarketNotConfigured | RsWrongMode | RsMarketNotClosed | RsPriceUnavailable | RsStalePrice
| RsInvalidPrice | RsNotSigner | RsAlreadyAttested | RsThresholdNotReached | RsDisputeActive
| RsDisputeWindowOpen | RsNoProposal | RsAlreadyFinalized | RsSpecHashMismatch
| RsDeadlineNotReached | RsResolutionAvailable | RsDomainMismatch | RsStaleRound
| RsTooManySignatures | RsDisputeWindowClosed | RsNoDispute | RsCommitteeNotFound
| RsRotationPending | RsRotationNotReady | RsRotationBoundExceeded | RsDuplicateMember
| RsCommitteeTooLarge | RsEvidenceDisabled | RsEvidenceRequired | RsEvidenceNotFound
| RsEvidenceAuthorMismatch | RsEvidenceMarketMismatch | RsEvidenceTooEarly
| RsEvidenceAlreadyUsed | RsGuardianNotAllowed | RsTooManyCancels | RsSnapshotExists
| RsNoPendingAdmin | RsPendingAdminExpired

type_synonym 'a rs_res = "(rs_error, 'a) res"

datatype signer_authority =
  AuthSigners signer_config | AuthWeighted weighted_key_config
| AuthDisputable disputable_signer_config | AuthCommittee committee_ref committee_rec
| AuthHybrid hybrid_config

fun dispute_window_of :: "signer_authority \<Rightarrow> nat" where
  "dispute_window_of (AuthSigners cfg) = sc_dispute_window cfg"
| "dispute_window_of (AuthWeighted cfg) = wc_dispute_window cfg"
| "dispute_window_of (AuthDisputable cfg) = dc_dispute_window cfg"
| "dispute_window_of (AuthCommittee r _) = cr_dispute_window r"
| "dispute_window_of (AuthHybrid cfg) = sc_dispute_window (hc_fallback cfg)"

datatype rs_event =
  EvPriceResolution nat int nat outcome
| EvPriceResolutionV2 nat int nat outcome bool
| EvPriceResolutionScaled nat int nat int nat outcome
| EvTwapResolution nat int nat nat nat outcome
| EvPriceSnapshotted nat int nat address
| EvResolutionFinalizedV2 nat attested_outcome nat
| EvResolutionProposedV2 nat attested_outcome nat
| EvCommitteeVoided nat nat nat
| EvDisputed nat address int "outcome option"
| EvDisputeSettled nat verdict bool int
| EvMarketExpired nat nat nat expiry_mode
| EvCommitteeCreated nat address nat "address list"
| EvRotationProposed nat nat
| EvRotationExecuted nat nat
| EvRotationCancelled nat
| EvFallbackOpened nat nat rs_error
| EvFallbackSuperseded nat attested_outcome
| EvAttested nat address attested_outcome "nat option" nat
| EvGuardianAction nat guardian_action_kind guardian_reason nat
| EvRsAdminTransferProposed address
| EvRsAdminTransferred address address
| EvRsAdminTransferCancelled

section \<open>The contracts it calls\<close>

text \<open>What the resolver reads of a reasoning trace.\<close>

record trace_view =
  tc_agent :: address
  tc_market_id :: nat
  tc_published_at :: nat
  tc_trace_hash :: bytesN

record 'w rs_peers =
  rp_get_market :: "address \<Rightarrow> nat \<Rightarrow> 'w \<Rightarrow> (mc_error, market) res"
  rp_collateral :: "address \<Rightarrow> 'w \<Rightarrow> (mc_error, address) res"
  rp_treasury :: "address \<Rightarrow> 'w \<Rightarrow> (mc_error, address) res"
  rp_resolve :: "env \<Rightarrow> address \<Rightarrow> nat \<Rightarrow> outcome \<Rightarrow> 'w \<Rightarrow> (mc_error, 'w) res"
  rp_void :: "env \<Rightarrow> address \<Rightarrow> nat \<Rightarrow> 'w \<Rightarrow> (mc_error, 'w) res"
  rp_accept_resolver :: "env \<Rightarrow> address \<Rightarrow> 'w \<Rightarrow> 'w option"
  rp_core_error :: "mc_error option \<Rightarrow> rs_error"
  rp_feed_decimals :: "address \<Rightarrow> 'w \<Rightarrow> nat option"
  rp_feed_resolution :: "address \<Rightarrow> 'w \<Rightarrow> nat option"
  rp_feed_price :: "address \<Rightarrow> oracle_asset \<Rightarrow> nat \<Rightarrow> 'w \<Rightarrow> price_data option option"
  rp_feed_lastprice :: "address \<Rightarrow> oracle_asset \<Rightarrow> 'w \<Rightarrow> price_data option option"
  rp_transfer :: "env \<Rightarrow> address \<Rightarrow> address \<Rightarrow> address \<Rightarrow> int \<Rightarrow> 'w \<Rightarrow> 'w option"
  rp_trace :: "address \<Rightarrow> nat \<Rightarrow> 'w \<Rightarrow> trace_view option"
  rp_network_id :: bytesN
  rp_sha256 :: "nat list \<Rightarrow> bytesN"
  rp_verify :: "bytesN \<Rightarrow> nat list \<Rightarrow> bytesN \<Rightarrow> bool"
  rp_xdr_rule :: "resolution_spec \<Rightarrow> nat list"
  rp_xdr_v2 :: "resolution_spec_v2 \<Rightarrow> nat list"
  rp_xdr_scaled :: "scaled_price_config \<Rightarrow> nat list"
  rp_xdr_twap :: "twap_config \<Rightarrow> nat list"
  rp_xdr_address :: "address \<Rightarrow> nat list"

section \<open>Commitments\<close>

definition legacy_spec_hash :: "'w rs_peers \<Rightarrow> resolution_spec \<Rightarrow> bytesN" where
  "legacy_spec_hash P rule = rp_sha256 P (rp_xdr_rule P rule)"

definition spec_v2_hash :: "'w rs_peers \<Rightarrow> resolution_spec_v2 \<Rightarrow> bytesN" where
  "spec_v2_hash P spec = rp_sha256 P (map of_char RS_SPEC_DOMAIN @ rp_xdr_v2 P spec)"

definition scaled_spec_hash :: "'w rs_peers \<Rightarrow> scaled_price_config \<Rightarrow> bytesN" where
  "scaled_spec_hash P cfg = rp_sha256 P (map of_char SCALED_SPEC_DOMAIN @ rp_xdr_scaled P cfg)"

definition twap_spec_hash :: "'w rs_peers \<Rightarrow> twap_config \<Rightarrow> bytesN" where
  "twap_spec_hash P cfg = rp_sha256 P (map of_char TWAP_SPEC_DOMAIN @ rp_xdr_twap P cfg)"

section \<open>Storage\<close>

record rs_pending_rec =
  rq_address :: address
  rq_expires_at :: nat

text \<open>The revealed rule of a market, under one key per mode.\<close>

record rules_state =
  ru_price :: "nat \<Rightarrow> price_config option"
  ru_scaled :: "nat \<Rightarrow> scaled_price_config option"
  ru_twap :: "nat \<Rightarrow> twap_config option"
  ru_signers :: "nat \<Rightarrow> signer_config option"
  ru_weighted :: "nat \<Rightarrow> weighted_key_config option"
  ru_disputable :: "nat \<Rightarrow> disputable_signer_config option"
  ru_committee :: "nat \<Rightarrow> committee_ref option"
  ru_hybrid :: "nat \<Rightarrow> hybrid_config option"

text \<open>Attestations, signatures and the pending proposal; the \<open>_old\<close> entries are the keys from before
  attested outcomes, which are only read and removed.\<close>

record votes_state =
  vo_proposal_old :: "nat \<Rightarrow> signer_proposal option"
  vo_attested_old :: "nat \<Rightarrow> outcome \<Rightarrow> address \<Rightarrow> bool"
  vo_count_old :: "nat \<Rightarrow> outcome \<Rightarrow> nat option"
  vo_proposal :: "nat \<Rightarrow> signer_proposal_v2 option"
  vo_attested :: "nat \<Rightarrow> attested_outcome \<Rightarrow> address \<Rightarrow> bool"
  vo_count :: "nat \<Rightarrow> attested_outcome \<Rightarrow> nat option"
  vo_epoch :: "nat \<Rightarrow> address \<Rightarrow> nat option"
  vo_round :: "nat \<Rightarrow> nat option"
  vo_sig_seen :: "nat \<Rightarrow> nat \<Rightarrow> bytesN \<Rightarrow> outcome option"
  vo_weight :: "nat \<Rightarrow> nat \<Rightarrow> outcome \<Rightarrow> nat option"

record disputes_state =
  dp_dispute :: "nat \<Rightarrow> dispute_rec option"
  dp_voted :: "nat \<Rightarrow> address \<Rightarrow> bool"
  dp_votes :: "nat \<Rightarrow> verdict \<Rightarrow> nat option"
  dp_cancels :: "nat \<Rightarrow> nat option"

record committees_state =
  co_next_id :: "nat option"
  co_committee :: "nat \<Rightarrow> committee_rec option"
  co_rotation :: "nat \<Rightarrow> pending_rotation option"
  co_member_at :: "nat \<Rightarrow> nat \<Rightarrow> (address list \<times> nat) option"

record evidence_state =
  es_config :: "(address \<times> evidence_policy) option"
  es_policy :: "nat \<Rightarrow> evidence_policy option"
  es_used :: "nat \<Rightarrow> bool"
  es_count :: "nat \<Rightarrow> nat option"
  es_at :: "nat \<Rightarrow> nat \<Rightarrow> attestation_evidence option"

record 'w rs =
  rs_admin :: "address option"
  rs_pending_admin :: "rs_pending_rec option"
  rs_market_core :: "address option"
  rs_rules :: rules_state
  rs_votes :: votes_state
  rs_disputes :: disputes_state
  rs_committees :: committees_state
  rs_evidence :: evidence_state
  rs_states :: "nat \<Rightarrow> resolution_state option"
  rs_snapshots :: "nat \<Rightarrow> price_snapshot option"
  rs_world :: 'w
  rs_events :: "rs_event list"

end
