(* ===== verification/PriceFeed.thy ===== *)
theory PriceFeed
  imports ResolverTypes
begin

text \<open>
  The price rules of the resolver (\<^verbatim>\<open>contracts/resolver/src/lib.rs\<close>): comparison with a
  threshold, rescaling between decimals, the bounded walk back over a feed's record grid, and the
  time-weighted average over a window. They read the feed only: \<open>price ts\<close> is a feed's answer for
  the timestamp \<open>ts\<close>, \<open>None\<close> if the call fails and \<open>Some None\<close> if the feed has no such record.
\<close>

section \<open>Comparison\<close>

definition compare_price :: "price_direction \<Rightarrow> int \<Rightarrow> int \<Rightarrow> outcome" where
  "compare_price dir price threshold =
     (let hit = (case dir of Above \<Rightarrow> threshold < price | AtOrAbove \<Rightarrow> threshold \<le> price
                 | Below \<Rightarrow> price < threshold | AtOrBelow \<Rightarrow> price \<le> threshold)
      in if hit then Yes else No)"

definition outcome_for :: "price_config \<Rightarrow> int \<Rightarrow> outcome" where
  "outcome_for cfg price = compare_price (pc_direction cfg) price (pc_threshold cfg)"

fun pow10_i128 :: "nat \<Rightarrow> int option" where
  "pow10_i128 0 = Some 1"
| "pow10_i128 (Suc k) = (case pow10_i128 k of None \<Rightarrow> None | Some x \<Rightarrow> checked_mul x 10)"

definition rescale :: "int \<Rightarrow> nat \<Rightarrow> int \<Rightarrow> nat \<Rightarrow> (int \<times> int) rs_res" where
  "rescale price price_decimals threshold threshold_decimals =
     (let target = max price_decimals threshold_decimals in
      case (pow10_i128 (target - price_decimals), pow10_i128 (target - threshold_decimals)) of
        (Some price_factor, Some threshold_factor) \<Rightarrow>
          andThen (ok_or RsInvalidPrice (checked_mul price price_factor)) (\<lambda>price_scaled.
          andThen (ok_or RsInvalidPrice (checked_mul threshold threshold_factor)) (\<lambda>threshold_scaled.
            Inr (price_scaled, threshold_scaled)))
      | _ \<Rightarrow> Inl (Err RsInvalidPrice))"

text \<open>Negative differences do not occur: a timestamp after the close is refused first.\<close>

definition validate_price :: "nat \<Rightarrow> nat \<Rightarrow> price_data \<Rightarrow> unit rs_res" where
  "validate_price max_staleness close_time data =
     (if pd_price data \<le> 0 then Inl (Err RsInvalidPrice)
      else if close_time < pd_timestamp data \<or> max_staleness < close_time - pd_timestamp data
      then Inl (Err RsStalePrice)
      else Inr ())"

section \<open>Reading a record\<close>

text \<open>The loop of \<open>read_feed_on_grid\<close> at the timestamp \<open>ts\<close>, with \<open>k\<close> more steps back allowed.\<close>

fun feed_walk ::
    "(nat \<Rightarrow> price_data option option) \<Rightarrow> nat \<Rightarrow> nat \<Rightarrow> nat \<Rightarrow> nat \<Rightarrow> nat \<Rightarrow> price_data rs_res" where
  "feed_walk price res max_staleness close_time k ts =
     (case price ts of
        None \<Rightarrow> Inl (Err RsPriceUnavailable)
      | Some (Some data) \<Rightarrow> andThen (validate_price max_staleness close_time data) (\<lambda>_. Inr data)
      | Some None \<Rightarrow>
          if ts < res then Inl (Err RsStalePrice)
          else andThen (add_u64 (close_time - ts) res) (\<lambda>age.
            if max_staleness < age then Inl (Err RsStalePrice)
            else (case k of 0 \<Rightarrow> Inl (Err RsStalePrice)
                  | Suc k' \<Rightarrow> feed_walk price res max_staleness close_time k' (ts - res))))"

declare feed_walk.simps [simp del]

definition read_feed_on_grid ::
    "'w rs_peers \<Rightarrow> address \<Rightarrow> oracle_asset \<Rightarrow> nat \<Rightarrow> nat \<Rightarrow> 'w \<Rightarrow> price_data rs_res" where
  "read_feed_on_grid P reflector asset max_staleness close_time w =
     andThen (ok_or RsPriceUnavailable (rp_feed_resolution P reflector w)) (\<lambda>res.
     if res = 0 then Inl (Err RsInvalidPrice)
     else feed_walk (\<lambda>ts. rp_feed_price P reflector asset ts w) res max_staleness close_time
            (MAX_LOOKBACK_RECORDS - 1) (close_time - close_time mod res))"

definition read_feed :: "'w rs_peers \<Rightarrow> price_config \<Rightarrow> nat \<Rightarrow> 'w \<Rightarrow> price_data rs_res" where
  "read_feed P cfg close_time w =
     read_feed_on_grid P (pc_reflector cfg) (pc_asset cfg) (pc_max_staleness cfg) close_time w"

definition scaled_price_outcome ::
    "'w rs_peers \<Rightarrow> scaled_price_config \<Rightarrow> nat \<Rightarrow> 'w \<Rightarrow> (outcome \<times> price_data \<times> nat \<times> int) rs_res" where
  "scaled_price_outcome P cfg close_time w =
     andThen (read_feed_on_grid P (sp_reflector cfg) (sp_asset cfg) (sp_max_staleness cfg) close_time w) (\<lambda>data.
     andThen (ok_or RsPriceUnavailable (rp_feed_decimals P (sp_reflector cfg) w)) (\<lambda>feed_decimals.
     andThen (rescale (pd_price data) feed_decimals (sp_threshold cfg) (sp_threshold_decimals cfg))
       (\<lambda>(price_scaled, threshold_scaled).
       Inr (compare_price (sp_direction cfg) price_scaled threshold_scaled, data, feed_decimals,
            threshold_scaled))))"

section \<open>The time-weighted average\<close>

text \<open>Samples are kept oldest first.\<close>

type_synonym samples = "(nat \<times> int) list"

definition keep_sample :: "nat \<Rightarrow> price_data \<Rightarrow> samples \<Rightarrow> samples" where
  "keep_sample start data xs =
     (if start < pd_timestamp data
       \<and> (case xs of [] \<Rightarrow> True | (head, _) # _ \<Rightarrow> pd_timestamp data < head)
      then (pd_timestamp data, pd_price data) # xs else xs)"

text \<open>The sampling loop, with \<open>k\<close> reads left.\<close>

fun twap_walk ::
    "(nat \<Rightarrow> price_data option option) \<Rightarrow> nat \<Rightarrow> nat \<Rightarrow> nat \<Rightarrow> nat \<Rightarrow> nat \<Rightarrow> samples \<Rightarrow> samples rs_res" where
  "twap_walk price res start close_time k ts xs =
     (if ts \<le> start then Inr xs
      else (case k of 0 \<Rightarrow> Inr xs
            | Suc k' \<Rightarrow>
                andThen (case price ts of
                    None \<Rightarrow> Inl (Err RsPriceUnavailable)
                  | Some None \<Rightarrow> Inr xs
                  | Some (Some data) \<Rightarrow>
                      if pd_price data \<le> 0 then Inl (Err RsInvalidPrice)
                      else if close_time < pd_timestamp data then Inl (Err RsStalePrice)
                      else Inr (keep_sample start data xs)) (\<lambda>ys.
                if ts < res then Inr ys
                else twap_walk price res start close_time k' (ts - res) ys)))"

declare twap_walk.simps [simp del]

fun gaps_ok :: "nat \<Rightarrow> samples \<Rightarrow> unit rs_res" where
  "gaps_ok max_gap ((prev, p) # (nxt, q) # xs) =
     andThen (sub_nat nxt prev) (\<lambda>gap.
       if max_gap < gap then Inl (Err RsStalePrice) else gaps_ok max_gap ((nxt, q) # xs))"
| "gaps_ok max_gap _ = Inr ()"

fun weigh :: "nat \<Rightarrow> samples \<Rightarrow> int \<Rightarrow> nat \<Rightarrow> (int \<times> nat) rs_res" where
  "weigh close_time [] weighted tot = Inr (weighted, tot)"
| "weigh close_time ((ts, price) # xs) weighted tot =
     (let next_ts = (case xs of [] \<Rightarrow> sat_add_u64 close_time 1 | (t, _) # _ \<Rightarrow> t) in
      andThen (sub_nat next_ts ts) (\<lambda>dt.
      andThen (ok_or RsInvalidPrice (if tot + dt \<le> u64_max then Some (tot + dt) else None)) (\<lambda>tot'.
      andThen (ok_or RsInvalidPrice (checked_mul price (int dt))) (\<lambda>term.
      andThen (ok_or RsInvalidPrice (checked_add weighted term)) (\<lambda>weighted'.
        weigh close_time xs weighted' tot')))))"

definition twap_of :: "twap_config \<Rightarrow> nat \<Rightarrow> nat \<Rightarrow> samples \<Rightarrow> (int \<times> nat \<times> nat \<times> nat \<times> outcome) rs_res" where
  "twap_of cfg start close_time xs =
     (if length xs < tw_min_samples cfg then Inl (Err RsStalePrice)
      else if xs = [] then Inl Trap
      else
      andThen (sub_nat (fst (hd xs)) start) (\<lambda>first_gap.
      andThen (if tw_max_gap cfg < first_gap then Inr True
               else andThen (sub_nat close_time (fst (last xs))) (\<lambda>last_gap. Inr (tw_max_gap cfg < last_gap)))
        (\<lambda>too_wide.
      if too_wide then Inl (Err RsStalePrice)
      else
      andThen (gaps_ok (tw_max_gap cfg) xs) (\<lambda>_.
      andThen (weigh close_time xs 0 0) (\<lambda>(weighted, tot).
      andThen (ok_or RsInvalidPrice (if tot = 0 then None else Some (weighted sdiv int tot))) (\<lambda>twap.
        Inr (twap, length xs, fst (hd xs), fst (last xs),
             compare_price (tw_direction cfg) twap (tw_threshold cfg))))))))"

definition twap_outcome ::
    "'w rs_peers \<Rightarrow> twap_config \<Rightarrow> nat \<Rightarrow> 'w \<Rightarrow> (int \<times> nat \<times> nat \<times> nat \<times> outcome) rs_res" where
  "twap_outcome P cfg close_time w =
     andThen (ok_or RsPriceUnavailable (rp_feed_resolution P (tw_reflector cfg) w)) (\<lambda>res.
     if res = 0 then Inl (Err RsInvalidPrice)
     else
     let start = close_time - tw_window cfg in
     andThen (twap_walk (\<lambda>ts. rp_feed_price P (tw_reflector cfg) (tw_asset cfg) ts w) res start close_time
                MAX_TWAP_SAMPLES (close_time - close_time mod res) []) (\<lambda>xs.
       twap_of cfg start close_time xs))"

end
