(* ===== verification/PriceProps.thy ===== *)
theory PriceProps
  imports PriceFeed
begin

text \<open>
  What the price rules of the resolver promise: which record a read of a feed returns, that the
  comparison between decimals is exact, and that the time-weighted average is the mean of a dense
  enough sample of the window.
\<close>

section \<open>A concrete feed\<close>

text \<open>Everything but the feed refuses.\<close>

definition feed_peers :: "(nat \<Rightarrow> price_data option option) \<Rightarrow> nat \<Rightarrow> nat \<Rightarrow> unit rs_peers" where
  "feed_peers price res decimals =
     \<lparr>rp_get_market = (\<lambda>core i w. Inl Trap), rp_collateral = (\<lambda>core w. Inl Trap), rp_treasury = (\<lambda>core w. Inl Trap),
      rp_resolve = (\<lambda>E core i out w. Inl Trap), rp_void = (\<lambda>E core i w. Inl Trap), rp_accept_resolver = (\<lambda>E core w. None),
      rp_core_error = (\<lambda>e. RsUnauthorized), rp_feed_decimals = (\<lambda>a w. Some decimals),
      rp_feed_resolution = (\<lambda>a w. Some res), rp_feed_price = (\<lambda>a x t w. price t), rp_feed_lastprice = (\<lambda>a x w. None),
      rp_transfer = (\<lambda>E tok a b n w. None), rp_trace = (\<lambda>a k w. None), rp_network_id = [], rp_sha256 = (\<lambda>xs. xs),
      rp_verify = (\<lambda>k msg sg. False), rp_xdr_rule = (\<lambda>r. []), rp_xdr_v2 = (\<lambda>x. []), rp_xdr_scaled = (\<lambda>x. []),
      rp_xdr_twap = (\<lambda>x. []), rp_xdr_address = (\<lambda>a. [])\<rparr>"

text \<open>A record every five minutes, but none at 900; the price is 1000 plus the slot's number.\<close>

definition demo_feed :: "nat \<Rightarrow> price_data option option" where
  "demo_feed t = Some (if t = 900 \<or> t mod 300 \<noteq> 0 then None
     else Some \<lparr>pd_price = 1000 + int (t div 300), pd_timestamp = t\<rparr>)"

section \<open>Reading a record\<close>

lemma validate_price_eq:
  "validate_price st close d = Inr u \<longleftrightarrow> 0 < pd_price d \<and> pd_timestamp d \<le> close \<and> close - pd_timestamp d \<le> st"
  by (auto simp: validate_price_def)

text \<open>The newest record among the slots \<open>ts\<close>, \<open>ts - res\<close>, \<open>\<dots>\<close>: \<open>k\<close> slots without a record come
  before it, and the walk goes no further back than the staleness allows.\<close>

definition newest_record ::
    "(nat \<Rightarrow> price_data option option) \<Rightarrow> nat \<Rightarrow> nat \<Rightarrow> nat \<Rightarrow> nat \<Rightarrow> nat \<Rightarrow> price_data \<Rightarrow> bool" where
  "newest_record price res st close ts k d \<longleftrightarrow>
     k * res \<le> ts \<and> price (ts - k * res) = Some (Some d) \<and> (\<forall>j<k. price (ts - j * res) = Some None)
     \<and> (k = 0 \<or> close - (ts - k * res) \<le> st)"

lemma newest_record_0: "newest_record price res st close ts 0 d \<longleftrightarrow> price ts = Some (Some d)"
  by (simp add: newest_record_def)

lemma newest_record_Suc:
  assumes "ts \<le> close"
  shows "newest_record price res st close ts (Suc k) d \<longleftrightarrow>
    price ts = Some None \<and> res \<le> ts \<and> close - ts + res \<le> st \<and> newest_record price res st close (ts - res) k d"
proof -
  have 1: "ts - Suc j * res = ts - res - j * res" for j by (simp add: add.commute)
  have 2: "(\<forall>j<Suc k. price (ts - j * res) = Some None)
      \<longleftrightarrow> price ts = Some None \<and> (\<forall>j<k. price (ts - res - j * res) = Some None)"
    by (simp only: All_less_Suc2 1 mult_0 diff_zero)
  have 3: "close - ts + res = close - (ts - res)" if "res \<le> ts" using that assms by simp
  have 4: "close - (ts - res) \<le> close - (ts - res - k * res)" by simp
  show ?thesis
    unfolding newest_record_def 2 1 using 3 4 by (auto simp: le_diff_conv2)
qed

lemma feed_walk_Inr:
  assumes "st \<le> u64_max"
  shows "ts \<le> close \<Longrightarrow> feed_walk price res st close n ts = Inr d \<longleftrightarrow>
    (\<exists>k\<le>n. newest_record price res st close ts k d) \<and> validate_price st close d = Inr ()"
proof (induction n arbitrary: ts)
  case 0
  have "feed_walk price res st close 0 ts = Inr d \<longleftrightarrow> price ts = Some (Some d) \<and> validate_price st close d = Inr ()"
    by (subst feed_walk.simps) (auto simp: res_simps split: option.splits if_splits)
  then show ?case by (simp add: newest_record_0)
next
  case (Suc n)
  have "feed_walk price res st close (Suc n) ts = Inr d \<longleftrightarrow>
      (price ts = Some (Some d) \<and> validate_price st close d = Inr ())
      \<or> (price ts = Some None \<and> res \<le> ts \<and> close - ts + res \<le> st
         \<and> feed_walk price res st close n (ts - res) = Inr d)"
    using assms by (subst feed_walk.simps) (auto simp: res_simps int_ops split: option.splits if_splits)
  moreover have "(\<exists>k\<le>Suc n. newest_record price res st close ts k d) \<longleftrightarrow>
      newest_record price res st close ts 0 d \<or> (\<exists>k\<le>n. newest_record price res st close ts (Suc k) d)"
    by (metis (no_types) Suc_le_mono le0 not0_implies_Suc)
  ultimately show ?case
    using Suc.IH [of "ts - res"] Suc.prems
    by (auto simp: newest_record_0 newest_record_Suc [OF Suc.prems])
qed

text \<open>C13. A read of a price feed succeeds exactly when one of at most twelve slots of the feed's grid,
  going back from the last one not after the close time, has a record, no later slot has one, and the
  record has a positive price and a time at or before the close and within the staleness bound; it
  returns that record. So the result does not depend on who reads or when, and no later price than
  the one at the close can be picked.\<close>

theorem feed_read_is_newest_valid:
  assumes "st \<le> u64_max"
  shows "read_feed_on_grid P reflector asset st close w = Inr d \<longleftrightarrow>
    (\<exists>res k. rp_feed_resolution P reflector w = Some res \<and> 0 < res \<and> k < 12
       \<and> newest_record (\<lambda>ts. rp_feed_price P reflector asset ts w) res st close (close - close mod res) k d)
    \<and> 0 < pd_price d \<and> pd_timestamp d \<le> close \<and> close - pd_timestamp d \<le> st"
  using feed_walk_Inr [OF assms diff_le_self, of "\<lambda>ts. rp_feed_price P reflector asset ts w" _ close]
  by (auto simp: read_feed_on_grid_def MAX_LOOKBACK_RECORDS_def res_simps validate_price_eq less_Suc_eq_le numeral_eq_Suc)

theorem feed_read_is_newest_valid_witness:
  "read_feed_on_grid (feed_peers demo_feed 300 8) 5 (OtherAsset ''BTC'') 600 1000 () = Inr \<lparr>pd_price = 1002, pd_timestamp = 600\<rparr>"
proof -
  have "\<exists>k<12. newest_record demo_feed 300 600 1000 900 k \<lparr>pd_price = 1002, pd_timestamp = 600\<rparr>"
    by (intro exI [of _ 1]) (simp add: newest_record_def demo_feed_def)
  then show ?thesis
    by (subst feed_read_is_newest_valid) (auto simp: u64_max_def feed_peers_def)
qed

section \<open>Decimals\<close>

lemma pow10_i128_eq: "pow10_i128 k = Some x \<Longrightarrow> x = 10 ^ k"
  by (induction k arbitrary: x) (auto simp: int_ops split: option.splits)

lemma compare_price_scale:
  assumes "0 < c"
  shows "compare_price dir (a * c) (b * c) = compare_price dir a b"
  using assms by (cases dir) (simp_all add: compare_price_def)

lemma rescale_eq:
  assumes "rescale price pd threshold td = Inr (a, b)"
  shows "a = price * 10 ^ (max pd td - pd)" and "b = threshold * 10 ^ (max pd td - td)"
  using assms by (auto simp: rescale_def Let_def res_simps int_ops dest!: pow10_i128_eq split: option.splits)

lemma rescale_compares:
  assumes "rescale price pd threshold td = Inr (a, b)"
  shows "compare_price dir a b = compare_price dir (price * 10 ^ td) (threshold * 10 ^ pd)"
proof -
  have "(10::int) ^ td = 10 ^ (max pd td - pd) * 10 ^ (min pd td)"
    and "(10::int) ^ pd = 10 ^ (max pd td - td) * 10 ^ (min pd td)"
    by (simp_all add: power_add [symmetric] max_def min_def)
  then have "price * 10 ^ td = a * 10 ^ min pd td" "threshold * 10 ^ pd = b * 10 ^ min pd td"
    using rescale_eq [OF assms] by simp_all
  then show ?thesis by (simp add: compare_price_scale)
qed

text \<open>A price with \<open>f\<close> decimals against a threshold with \<open>t\<close> decimals: when the scaled rule
  yields an outcome, it is Yes exactly if the committed direction holds between the two as exact
  decimal fractions (compared here by cross-multiplication), whichever has more decimals; the
  intermediate values that do not fit are an error, never a wrong outcome.\<close>

lemma scaled_comparison_is_exact:
  assumes "scaled_price_outcome P cfg close w = Inr (out, d, f, scaled)"
  shows "rp_feed_decimals P (sp_reflector cfg) w = Some f
    \<and> (out = Yes \<longleftrightarrow> (let price = pd_price d * 10 ^ sp_threshold_decimals cfg;
                          threshold = sp_threshold cfg * 10 ^ f
         in case sp_direction cfg of Above \<Rightarrow> threshold < price | AtOrAbove \<Rightarrow> threshold \<le> price
            | Below \<Rightarrow> price < threshold | AtOrBelow \<Rightarrow> price \<le> threshold))
    \<and> scaled * 10 ^ sp_threshold_decimals cfg = sp_threshold cfg * 10 ^ max f (sp_threshold_decimals cfg)"
proof -
  let ?t = "sp_threshold_decimals cfg"
  obtain a where 1: "rp_feed_decimals P (sp_reflector cfg) w = Some f"
      "rescale (pd_price d) f (sp_threshold cfg) ?t = Inr (a, scaled)"
      "out = compare_price (sp_direction cfg) a scaled"
    using assms by (auto simp: scaled_price_outcome_def res_simps)
  have "(10::int) ^ (max f ?t - ?t) * 10 ^ ?t = 10 ^ max f ?t"
    by (simp add: power_add [symmetric])
  then have "scaled * 10 ^ ?t = sp_threshold cfg * 10 ^ max f ?t"
    by (simp add: rescale_eq(2) [OF 1(2)] mult.assoc)
  then show ?thesis
    using 1 rescale_compares [OF 1(2)] by (simp add: compare_price_def Let_def)
qed

lemma scaled_comparison_is_exact_witness:
  "\<exists>out scaled. scaled_price_outcome (feed_peers demo_feed 300 8)
       \<lparr>sp_reflector = 5, sp_asset = OtherAsset ''BTC'', sp_threshold = 1, sp_threshold_decimals = 5, sp_direction = Above,
        sp_max_staleness = 600\<rparr> 1000 () = Inr (out, \<lparr>pd_price = 1002, pd_timestamp = 600\<rparr>, 8, scaled)
     \<and> out = Yes"
proof -
  let ?cfg = "\<lparr>sp_reflector = 5, sp_asset = OtherAsset ''BTC'', sp_threshold = 1, sp_threshold_decimals = 5,
      sp_direction = Above, sp_max_staleness = 600\<rparr>"
  have walk: "feed_walk demo_feed 300 600 1000 11 900 = Inr \<lparr>pd_price = 1002, pd_timestamp = 600\<rparr>"
    by (simp add: feed_walk.simps demo_feed_def validate_price_def add_u64_def u64_max_def Let_def)
  have pows: "pow10_i128 0 = Some 1" "pow10_i128 3 = Some 1000"
    by (simp_all add: numeral_3_eq_3 checked_mul_def checked_i128_def in_i128_def)
  have "\<exists>out scaled. scaled_price_outcome (feed_peers demo_feed 300 8) ?cfg 1000 ()
      = Inr (out, \<lparr>pd_price = 1002, pd_timestamp = 600\<rparr>, 8, scaled)"
    using walk pows by (simp add: scaled_price_outcome_def read_feed_on_grid_def feed_peers_def MAX_LOOKBACK_RECORDS_def
        rescale_def checked_mul_def checked_i128_def in_i128_def)
  then obtain out scaled where r: "scaled_price_outcome (feed_peers demo_feed 300 8) ?cfg 1000 ()
      = Inr (out, \<lparr>pd_price = 1002, pd_timestamp = 600\<rparr>, 8, scaled)" by blast
  with scaled_comparison_is_exact [OF r] show ?thesis by (simp add: Let_def)
qed

section \<open>The time-weighted average\<close>

text \<open>What a list of samples must be: from the feed, in order of time, inside the window, positive.\<close>

definition samples_ok :: "(nat \<Rightarrow> price_data option option) \<Rightarrow> nat \<Rightarrow> nat \<Rightarrow> samples \<Rightarrow> bool" where
  "samples_ok price start close xs \<longleftrightarrow> sorted_wrt (\<lambda>x y. fst x < fst y) xs
     \<and> (\<forall>(t, p)\<in>set xs. start < t \<and> t \<le> close \<and> 0 < p
          \<and> (\<exists>ts. price ts = Some (Some \<lparr>pd_price = p, pd_timestamp = t\<rparr>)))"

lemma keep_sample_ok:
  assumes "samples_ok price start close xs" and "price ts = Some (Some d)" and "0 < pd_price d"
    and "pd_timestamp d \<le> close"
  shows "samples_ok price start close (keep_sample start d xs)"
proof -
  have "\<exists>ts. price ts = Some (Some \<lparr>pd_price = pd_price d, pd_timestamp = pd_timestamp d\<rparr>)"
    using assms(2) by (intro exI [of _ ts]) simp
  then show ?thesis
    using assms by (cases xs) (auto simp: samples_ok_def keep_sample_def)
qed

lemma keep_sample_length: "length (keep_sample start d xs) \<le> Suc (length xs)"
  by (simp add: keep_sample_def)

lemma twap_walk_ok:
  "twap_walk price res start close k ts xs = Inr ys \<Longrightarrow> samples_ok price start close xs
    \<Longrightarrow> samples_ok price start close ys \<and> length ys \<le> length xs + k"
proof (induction k arbitrary: ts xs)
  case 0
  then show ?case by (subst (asm) twap_walk.simps) (auto split: if_splits)
next
  case (Suc k)
  show ?case
  proof (cases "ts \<le> start")
    case True
    then show ?thesis using Suc.prems by (subst (asm) twap_walk.simps) auto
  next
    case False
    obtain zs where z: "samples_ok price start close zs" "length zs \<le> Suc (length xs)"
        "(if ts < res then Inr zs else twap_walk price res start close k (ts - res) zs) = Inr ys"
    proof (cases "price ts")
      case None
      then show ?thesis using Suc.prems(1) False by (simp add: twap_walk.simps [of price res start close "Suc k" ts])
    next
      case (Some r)
      then show ?thesis
        using Suc.prems False keep_sample_ok [OF Suc.prems(2), of ts] keep_sample_length [of start _ xs] that
        by (cases r) (auto simp: twap_walk.simps [of price res start close "Suc k" ts] not_less not_le
          simp del: twap_walk.simps split: if_splits)
    qed
    then show ?thesis using Suc.IH [of "ts - res" zs] by (auto split: if_splits)
  qed
qed

text \<open>The integral of the price over time, each sample holding until the next one and the last one
  until \<open>fin\<close>.\<close>

fun price_integral :: "nat \<Rightarrow> samples \<Rightarrow> int" where
  "price_integral fin [] = 0"
| "price_integral fin [(t, p)] = p * int (fin - t)"
| "price_integral fin ((t, p) # (t', q) # xs) = p * int (t' - t) + price_integral fin ((t', q) # xs)"

definition spaced :: "nat \<Rightarrow> samples \<Rightarrow> bool" where
  "spaced gap xs \<longleftrightarrow> (\<forall>i<length xs - 1. fst (xs ! Suc i) - fst (xs ! i) \<le> gap)"

lemma gaps_ok_spaced: "gaps_ok gap xs = Inr u \<Longrightarrow> spaced gap xs"
proof (induction gap xs rule: gaps_ok.induct)
  case (1 gap t p t' q xs)
  then have *: "t' - t \<le> gap" "spaced gap ((t', q) # xs)"
    by (auto simp: res_simps int_ops split: if_splits)
  show ?case
    unfolding spaced_def
  proof (intro allI impI)
    fix i assume "i < length ((t, p) # (t', q) # xs) - 1"
    then show "fst (((t, p) # (t', q) # xs) ! Suc i) - fst (((t, p) # (t', q) # xs) ! i) \<le> gap"
      using * by (cases i) (auto simp: spaced_def)
  qed
qed (simp_all add: spaced_def)

lemma sorted_le_last:
  assumes "sorted_wrt (\<lambda>x y. fst x < fst y) (xs :: samples)" and "x \<in> set xs"
  shows "fst x \<le> fst (last xs)"
  using assms by (induction xs) (auto simp: less_imp_le)

lemma weigh_Inr:
  assumes "weigh close xs acc tot = Inr (acc', tot')" and "xs \<noteq> []"
    and "sorted_wrt (\<lambda>x y. fst x < fst y) xs" and "fst (last xs) \<le> close" and "close < u64_max"
  shows "acc' = acc + price_integral (close + 1) xs \<and> tot' = tot + (close + 1 - fst (hd xs))"
  using assms(1-4)
proof (induction xs arbitrary: acc tot)
  case (Cons x xs)
  obtain t p where x: "x = (t, p)" by (cases x)
  show ?case
  proof (cases xs)
    case Nil
    then show ?thesis using Cons.prems assms(5)
      by (auto simp: x res_simps int_ops Let_def sat_add_u64_def split: if_splits)
  next
    case (Cons y ys)
    then obtain t' q where y: "y = (t', q)" by (cases y)
    have "t' \<le> close"
      using Cons.prems(3,4) sorted_le_last [of xs y] unfolding x y Cons by auto
    moreover obtain r where "weigh close xs (acc + p * int (t' - t)) (tot + (t' - t)) = Inr (acc', tot')" "t < t'"
      using Cons.prems(1,3) by (auto simp: x y Cons res_simps int_ops Let_def split: if_splits)
    ultimately show ?thesis
      using Cons.IH [of "acc + p * int (t' - t)" "tot + (t' - t)"] Cons.prems(3,4) by (auto simp: x y Cons)
  qed
qed simp

lemma price_integral_bounds:
  assumes "xs \<noteq> []" and "sorted_wrt (\<lambda>x y. fst x < fst y) xs" and "fst (last xs) \<le> fin"
    and "\<forall>(t, p)\<in>set xs. lo \<le> p \<and> p \<le> hi"
  shows "lo * int (fin - fst (hd xs)) \<le> price_integral fin xs \<and> price_integral fin xs \<le> hi * int (fin - fst (hd xs))"
  using assms
proof (induction fin xs rule: price_integral.induct)
  case (3 fin t p t' q xs)
  have le: "t \<le> t'" "t' \<le> fin"
    using "3.prems"(2,3) sorted_le_last [of "(t', q) # xs" "(t', q)"] by auto
  have "lo * int (t' - t) \<le> p * int (t' - t)" "p * int (t' - t) \<le> hi * int (t' - t)"
    using "3.prems"(4) by (auto intro!: mult_right_mono)
  moreover have "int (fin - t) = int (t' - t) + int (fin - t')" using le by simp
  moreover have "lo * int (fin - t') \<le> price_integral fin ((t', q) # xs)
      \<and> price_integral fin ((t', q) # xs) \<le> hi * int (fin - t')"
    using 3 by auto
  ultimately show ?case
    by (simp only: price_integral.simps list.sel fst_conv distrib_left) linarith
qed (auto intro!: mult_right_mono)

lemma last_sample:
  assumes "samples_ok price start close xs" and "xs \<noteq> []"
  shows "start < fst (hd xs)" "fst (hd xs) \<le> close" "fst (last xs) \<le> close"
  using assms(1) hd_in_set [OF assms(2)] last_in_set [OF assms(2)]
  by (cases "hd xs"; cases "last xs"; fastforce simp: samples_ok_def)+

text \<open>C14. A successful time-weighted average comes from records of the feed with distinct increasing
  times inside the committed window, all positive, at least the committed minimum and at most 32 of
  them, with no gap (also to the ends of the window) above the committed one; it is the integral
  of the price over time divided by the time from the first record to the close, rounded down,
  lies between any bounds on the records' prices, and the outcome is its comparison with the threshold.\<close>

theorem twap_is_the_mean_of_dense_samples:
  assumes "twap_outcome P cfg close w = Inr (twap, n, first, final, out)" and "close < u64_max"
    and "0 < tw_min_samples cfg"
  shows "\<exists>xs. samples_ok (\<lambda>ts. rp_feed_price P (tw_reflector cfg) (tw_asset cfg) ts w) (close - tw_window cfg) close xs
    \<and> n = length xs \<and> tw_min_samples cfg \<le> n \<and> n \<le> 32 \<and> first = fst (hd xs) \<and> final = fst (last xs)
    \<and> spaced (tw_max_gap cfg) xs \<and> first - (close - tw_window cfg) \<le> tw_max_gap cfg \<and> close - final \<le> tw_max_gap cfg
    \<and> twap = price_integral (close + 1) xs div int (close + 1 - first)
    \<and> (\<forall>lo hi. (\<forall>(t, p)\<in>set xs. lo \<le> p \<and> p \<le> hi) \<longrightarrow> lo \<le> twap \<and> twap \<le> hi)
    \<and> out = compare_price (tw_direction cfg) twap (tw_threshold cfg)"
proof -
  let ?start = "close - tw_window cfg"
  let ?price = "\<lambda>ts. rp_feed_price P (tw_reflector cfg) (tw_asset cfg) ts w"
  obtain res xs where walk: "twap_walk ?price res ?start close MAX_TWAP_SAMPLES (close - close mod res) [] = Inr xs"
    and twap: "twap_of cfg ?start close xs = Inr (twap, n, first, final, out)"
    using assms(1) by (auto simp: twap_outcome_def res_simps Let_def)
  have ok: "samples_ok ?price ?start close xs" and len: "length xs \<le> 32"
    using twap_walk_ok [OF walk] by (auto simp: samples_ok_def MAX_TWAP_SAMPLES_def)
  obtain acc tot u where ne: "xs \<noteq> []" and min: "tw_min_samples cfg \<le> length xs"
    and gaps: "fst (hd xs) - ?start \<le> tw_max_gap cfg" "close - fst (last xs) \<le> tw_max_gap cfg"
    and spaced: "gaps_ok (tw_max_gap cfg) xs = Inr u" and weigh: "weigh close xs 0 0 = Inr (acc, tot)"
    and eqs: "tot \<noteq> 0" "twap = acc sdiv int tot" "n = length xs" "first = fst (hd xs)" "final = fst (last xs)"
      "out = compare_price (tw_direction cfg) twap (tw_threshold cfg)"
    using twap unfolding twap_of_def
    by (auto simp: res_simps int_ops split: if_splits)
  have sorted: "sorted_wrt (\<lambda>x y. fst x < fst y) xs" and pos: "\<forall>(t, p)\<in>set xs. 0 < p"
    using ok by (auto simp: samples_ok_def)
  note ends = last_sample [OF ok ne]
  have acc: "acc = price_integral (close + 1) xs" "tot = close + 1 - fst (hd xs)"
    using weigh_Inr [OF weigh ne sorted ends(3) assms(2)] by auto
  have dt: "0 < int tot" using acc ends by simp
  have bounds: "lo * int tot \<le> acc \<and> acc \<le> hi * int tot" if "\<forall>(t, p)\<in>set xs. lo \<le> p \<and> p \<le> hi" for lo hi
    using price_integral_bounds [OF ne sorted _ that, of "close + 1"] ends by (simp add: acc)
  have "0 \<le> acc"
  proof -
    have "\<forall>(t, p)\<in>set xs. 0 \<le> p \<and> p \<le> Max (snd ` set xs)"
      using pos by (auto intro!: Max_ge intro: rev_image_eqI)
    from bounds [OF this] show ?thesis by simp
  qed
  then have twap_div: "twap = acc div int tot" using eqs(2) by (simp add: sdiv_nonneg)
  have mean: "lo \<le> twap \<and> twap \<le> hi" if "\<forall>(t, p)\<in>set xs. lo \<le> p \<and> p \<le> hi" for lo hi
  proof
    show "lo \<le> twap" using bounds [OF that] dt by (simp add: twap_div le_floor_div_iff)
    have "acc div int tot \<le> hi * int tot div int tot" using bounds [OF that] dt by (intro zdiv_mono1) auto
    then show "twap \<le> hi" using dt by (simp add: twap_div)
  qed
  show ?thesis
    using ok len min gaps gaps_ok_spaced [OF spaced] eqs(3-6) mean twap_div acc
    by (intro exI [of _ xs]) simp
qed

theorem twap_is_the_mean_of_dense_samples_witness:
  "\<exists>twap first final out. twap_outcome (feed_peers demo_feed 300 8)
       \<lparr>tw_reflector = 5, tw_asset = OtherAsset ''BTC'', tw_threshold = 1003, tw_direction = AtOrAbove, tw_window = 900,
        tw_min_samples = 2, tw_max_gap = 600\<rparr> 1500 () = Inr (twap, 2, first, final, out)
     \<and> 1004 \<le> twap \<and> twap \<le> 1005 \<and> out = Yes"
proof -
  let ?cfg = "\<lparr>tw_reflector = 5, tw_asset = OtherAsset ''BTC'', tw_threshold = 1003, tw_direction = AtOrAbove,
      tw_window = 900, tw_min_samples = 2, tw_max_gap = 600\<rparr>"
  let ?P = "feed_peers demo_feed 300 8"
  let ?price = "\<lambda>ts. rp_feed_price ?P 5 (OtherAsset ''BTC'') ts ()"
  have walk: "twap_walk ?price 300 600 1500 32 1500 [] = Inr [(1200, 1004), (1500, 1005)]"
    by (simp add: feed_peers_def twap_walk.simps demo_feed_def keep_sample_def Let_def)
  obtain twap out where r: "twap_outcome ?P ?cfg 1500 () = Inr (twap, 2, 1200, 1500, out)"
    using walk by (simp add: twap_outcome_def twap_of_def MAX_TWAP_SAMPLES_def Let_def sat_add_u64_def u64_max_def
        ex_bool_eq res_simps int_ops feed_peers_def in_i128_def sub_nat_def checked_mul_def checked_add_def checked_i128_def)
  from twap_is_the_mean_of_dense_samples [OF r] obtain xs where xs: "length xs = 2" "fst (hd xs) = 1200" "fst (last xs) = 1500"
      "samples_ok ?price 600 1500 xs" "out = compare_price AtOrAbove twap 1003"
      "\<And>lo hi. (\<forall>(t, p)\<in>set xs. lo \<le> p \<and> p \<le> hi) \<Longrightarrow> lo \<le> twap \<and> twap \<le> hi"
    by (auto simp: u64_max_def)
  have "\<forall>(t, p)\<in>set xs. 1004 \<le> p \<and> p \<le> 1005"
  proof -
    have "p = 1000 + int (t div 300)" if "(t, p) \<in> set xs" for t p
      using xs(4) that by (auto simp: samples_ok_def feed_peers_def demo_feed_def split: if_splits)
    moreover have "t = 1200 \<or> t = 1500" if "(t, p) \<in> set xs" for t p
      using xs(1-3) that by (auto simp: length_Suc_conv numeral_2_eq_2)
    ultimately show ?thesis by fastforce
  qed
  then have "1004 \<le> twap \<and> twap \<le> 1005" by (rule xs(6))
  then show ?thesis using r xs(5) by (simp add: compare_price_def)
qed

end
