(* ===== verification/ResolverState.thy ===== *)
theory ResolverState
  imports PriceFeed
begin

text \<open>
  The internal helpers of the resolver (\<^verbatim>\<open>contracts/resolver/src/lib.rs\<close>): storage access,
  attestation counts over both generations of keys, proposals, quorum, the validity of rules, their
  storage, and the settlement by price.
\<close>

section \<open>Storage access\<close>

definition rs_publish :: "rs_event \<Rightarrow> 'w rs \<Rightarrow> 'w rs" where
  "rs_publish ev s = s\<lparr>rs_events := rs_events s @ [ev]\<rparr>"

definition rs_require_admin :: "env \<Rightarrow> 'w rs \<Rightarrow> unit rs_res" where
  "rs_require_admin E s = andThen (ok_or RsNotInitialized (rs_admin s)) (require_auth E)"

definition load_core :: "'w rs \<Rightarrow> address rs_res" where
  "load_core s = ok_or RsNotInitialized (rs_market_core s)"

fun rs_core_call :: "'w rs_peers \<Rightarrow> (mc_error, 'a) res \<Rightarrow> 'a rs_res" where
  "rs_core_call P (Inr x) = Inr x"
| "rs_core_call P (Inl (Err e)) = Inl (Err (rp_core_error P (Some e)))"
| "rs_core_call P (Inl Trap) = Inl (Err (rp_core_error P None))"

lemma rs_core_call_eq [res_simps]: "rs_core_call P r = Inr x \<longleftrightarrow> r = Inr x"
  by (cases "(P, r)" rule: rs_core_call.cases) auto

fun core_must_ok :: "(mc_error, 'a) res \<Rightarrow> 'a rs_res" where
  "core_must_ok (Inr x) = Inr x"
| "core_must_ok (Inl e) = Inl Trap"

lemma core_must_ok_eq [res_simps]: "core_must_ok r = Inr x \<longleftrightarrow> r = Inr x"
  by (cases r) auto

definition resolution_state_of :: "nat \<Rightarrow> 'w rs \<Rightarrow> resolution_state" where
  "resolution_state_of i s = (case rs_states s i of None \<Rightarrow> Unconfigured | Some st \<Rightarrow> st)"

definition set_state :: "nat \<Rightarrow> resolution_state \<Rightarrow> 'w rs \<Rightarrow> 'w rs" where
  "set_state i st s = s\<lparr>rs_states := (rs_states s)(i \<mapsto> st)\<rparr>"

definition terminal :: "nat \<Rightarrow> 'w rs \<Rightarrow> bool" where
  "terminal i s \<longleftrightarrow> is_terminal (resolution_state_of i s)"

definition load_market_of :: "'w rs_peers \<Rightarrow> nat \<Rightarrow> 'w rs \<Rightarrow> market rs_res" where
  "load_market_of P i s =
     andThen (load_core s) (\<lambda>core. rs_core_call P (rp_get_market P core i (rs_world s)))"

definition market_close_time :: "'w rs_peers \<Rightarrow> nat \<Rightarrow> 'w rs \<Rightarrow> nat rs_res" where
  "market_close_time P i s =
     andThen (load_core s) (\<lambda>core.
     andThen (core_must_ok (rp_get_market P core i (rs_world s))) (\<lambda>m. Inr (mk_close_time m)))"

definition call_resolve :: "'w rs_peers \<Rightarrow> env \<Rightarrow> address \<Rightarrow> nat \<Rightarrow> outcome \<Rightarrow> 'w rs \<Rightarrow> 'w rs rs_res" where
  "call_resolve P E core i out s =
     andThen (rs_core_call P (rp_resolve P E core i out (rs_world s))) (\<lambda>w. Inr (s\<lparr>rs_world := w\<rparr>))"

definition call_void :: "'w rs_peers \<Rightarrow> env \<Rightarrow> address \<Rightarrow> nat \<Rightarrow> 'w rs \<Rightarrow> 'w rs rs_res" where
  "call_void P E core i s =
     andThen (rs_core_call P (rp_void P E core i (rs_world s))) (\<lambda>w. Inr (s\<lparr>rs_world := w\<rparr>))"

definition deadline_of :: "market \<Rightarrow> nat" where
  "deadline_of m = sat_add_u64 (mk_close_time m) RESOLUTION_GRACE_SECS"

section \<open>Modes\<close>

definition has_price_rule :: "nat \<Rightarrow> 'w rs \<Rightarrow> bool" where
  "has_price_rule i s \<longleftrightarrow> ru_price (rs_rules s) i \<noteq> None \<or> ru_scaled (rs_rules s) i \<noteq> None
     \<or> ru_twap (rs_rules s) i \<noteq> None"

definition has_signer_rule :: "nat \<Rightarrow> 'w rs \<Rightarrow> bool" where
  "has_signer_rule i s \<longleftrightarrow> ru_signers (rs_rules s) i \<noteq> None \<or> ru_disputable (rs_rules s) i \<noteq> None
     \<or> ru_weighted (rs_rules s) i \<noteq> None \<or> ru_committee (rs_rules s) i \<noteq> None
     \<or> (ru_hybrid (rs_rules s) i \<noteq> None \<and> resolution_state_of i s = HybridFallbackOpen)"

definition expiry_mode_of :: "nat \<Rightarrow> 'w rs \<Rightarrow> expiry_mode" where
  "expiry_mode_of i s =
     (if has_price_rule i s
         \<or> (ru_hybrid (rs_rules s) i \<noteq> None \<and> resolution_state_of i s \<noteq> HybridFallbackOpen)
      then ModePrice else if has_signer_rule i s then ModeSigners else ModeUnrevealed)"

definition configured :: "nat \<Rightarrow> 'w rs \<Rightarrow> bool" where
  "configured i s \<longleftrightarrow> has_price_rule i s \<or> ru_signers (rs_rules s) i \<noteq> None
     \<or> ru_weighted (rs_rules s) i \<noteq> None \<or> ru_disputable (rs_rules s) i \<noteq> None
     \<or> ru_committee (rs_rules s) i \<noteq> None \<or> ru_hybrid (rs_rules s) i \<noteq> None"

definition assert_unconfigured :: "nat \<Rightarrow> 'w rs \<Rightarrow> unit rs_res" where
  "assert_unconfigured i s =
     (if terminal i s then Inl (Err RsAlreadyFinalized)
      else if configured i s then Inl (Err RsMarketAlreadyConfigured) else Inr ())"

definition assert_not_disputed :: "nat \<Rightarrow> 'w rs \<Rightarrow> unit rs_res" where
  "assert_not_disputed i s =
     (if resolution_state_of i s = Disputed then Inl (Err RsDisputeActive) else Inr ())"

section \<open>Disputes\<close>

definition open_dispute :: "nat \<Rightarrow> 'w rs \<Rightarrow> dispute_rec rs_res" where
  "open_dispute i s =
     andThen (ok_or RsNoDispute (dp_dispute (rs_disputes s) i)) (\<lambda>d.
       if di_payee d \<noteq> None then Inl (Err RsAlreadyFinalized) else Inr d)"

definition save_dispute :: "nat \<Rightarrow> dispute_rec \<Rightarrow> 'w rs \<Rightarrow> 'w rs" where
  "save_dispute i d s =
     s\<lparr>rs_disputes := (rs_disputes s)\<lparr>dp_dispute := (dp_dispute (rs_disputes s))(i \<mapsto> d)\<rparr>\<rparr>"

definition refund_open_dispute :: "nat \<Rightarrow> 'w rs \<Rightarrow> 'w rs" where
  "refund_open_dispute i s =
     (case open_dispute i s of Inr d \<Rightarrow> save_dispute i (d\<lparr>di_payee := Some (di_disputer d)\<rparr>) s
      | Inl _ \<Rightarrow> s)"

section \<open>Attestations and proposals\<close>

definition upd_votes :: "(votes_state \<Rightarrow> votes_state) \<Rightarrow> 'w rs \<Rightarrow> 'w rs" where
  "upd_votes f s = s\<lparr>rs_votes := f (rs_votes s)\<rparr>"

definition attestation_count :: "nat \<Rightarrow> attested_outcome \<Rightarrow> 'w rs \<Rightarrow> nat rs_res" where
  "attestation_count i out s =
     (let v = rs_votes s;
          current = (case vo_count v i out of None \<Rightarrow> 0 | Some n \<Rightarrow> n);
          legacy = (case to_market out of None \<Rightarrow> 0
                    | Some o' \<Rightarrow> (case vo_count_old v i o' of None \<Rightarrow> 0 | Some n \<Rightarrow> n))
      in add_u32 current legacy)"

definition save_attestation_count :: "nat \<Rightarrow> attested_outcome \<Rightarrow> nat \<Rightarrow> 'w rs \<Rightarrow> 'w rs" where
  "save_attestation_count i out n = upd_votes (\<lambda>v.
     let v1 = v\<lparr>vo_count := (vo_count v)(i := (vo_count v i)(out \<mapsto> n))\<rparr> in
     case to_market out of None \<Rightarrow> v1
     | Some o' \<Rightarrow> v1\<lparr>vo_count_old := (vo_count_old v1)(i := (vo_count_old v1 i)(o' := None))\<rparr>)"

definition has_attested :: "nat \<Rightarrow> attested_outcome \<Rightarrow> address \<Rightarrow> 'w rs \<Rightarrow> bool" where
  "has_attested i out signer s \<longleftrightarrow> vo_attested (rs_votes s) i out signer
     \<or> (case to_market out of None \<Rightarrow> False | Some o' \<Rightarrow> vo_attested_old (rs_votes s) i o' signer)"

definition load_proposal :: "nat \<Rightarrow> 'w rs \<Rightarrow> signer_proposal_v2 option" where
  "load_proposal i s =
     (case vo_proposal (rs_votes s) i of Some p \<Rightarrow> Some p
      | None \<Rightarrow> (case vo_proposal_old (rs_votes s) i of None \<Rightarrow> None
                 | Some p \<Rightarrow> Some \<lparr>sv_outcome = from_market (so_outcome p),
                                  sv_proposed_at = so_proposed_at p\<rparr>))"

definition has_proposal :: "nat \<Rightarrow> 'w rs \<Rightarrow> bool" where
  "has_proposal i s \<longleftrightarrow> vo_proposal (rs_votes s) i \<noteq> None \<or> vo_proposal_old (rs_votes s) i \<noteq> None"

definition remove_proposal :: "nat \<Rightarrow> 'w rs \<Rightarrow> 'w rs" where
  "remove_proposal i = upd_votes (\<lambda>v. v\<lparr>vo_proposal := (vo_proposal v)(i := None),
                                         vo_proposal_old := (vo_proposal_old v)(i := None)\<rparr>)"

definition rs_propose :: "env \<Rightarrow> nat \<Rightarrow> attested_outcome \<Rightarrow> 'w rs \<Rightarrow> 'w rs" where
  "rs_propose E i out s =
     rs_publish (EvResolutionProposedV2 i out (e_now E))
       (upd_votes (\<lambda>v. v\<lparr>vo_proposal := (vo_proposal v)(i \<mapsto> \<lparr>sv_outcome = out, sv_proposed_at = e_now E\<rparr>)\<rparr>)
         (remove_proposal i s))"

definition load_committee :: "nat \<Rightarrow> 'w rs \<Rightarrow> committee_rec rs_res" where
  "load_committee k s = ok_or RsCommitteeNotFound (co_committee (rs_committees s) k)"

definition signer_authority_of :: "nat \<Rightarrow> 'w rs \<Rightarrow> signer_authority rs_res" where
  "signer_authority_of i s =
     (let ru = rs_rules s in
      case ru_signers ru i of Some cfg \<Rightarrow> Inr (AuthSigners cfg) | None \<Rightarrow>
      case ru_disputable ru i of Some cfg \<Rightarrow> Inr (AuthDisputable cfg) | None \<Rightarrow>
      case ru_weighted ru i of Some cfg \<Rightarrow> Inr (AuthWeighted cfg) | None \<Rightarrow>
      case ru_committee ru i of
        Some r \<Rightarrow> andThen (load_committee (cr_committee_id r) s) (\<lambda>c. Inr (AuthCommittee r c))
      | None \<Rightarrow>
      case ru_hybrid ru i of Some cfg \<Rightarrow> Inr (AuthHybrid cfg) | None \<Rightarrow> Inl (Err RsMarketNotConfigured))"

definition round_of :: "nat \<Rightarrow> 'w rs \<Rightarrow> nat" where
  "round_of i s = (case vo_round (rs_votes s) i of None \<Rightarrow> 0 | Some n \<Rightarrow> n)"

definition round_weight :: "nat \<Rightarrow> nat \<Rightarrow> outcome \<Rightarrow> 'w rs \<Rightarrow> nat" where
  "round_weight i r out s = (case vo_weight (rs_votes s) i r out of None \<Rightarrow> 0 | Some n \<Rightarrow> n)"

definition rotation_in_bounds :: "committee_ref \<Rightarrow> committee_rec \<Rightarrow> bool" where
  "rotation_in_bounds r c \<longleftrightarrow>
     \<not> (cm_epoch c < cr_min_epoch r \<or> cr_max_rotation_delta r < cm_epoch c - cr_min_epoch r)"

fun has_quorum :: "signer_authority \<Rightarrow> nat \<Rightarrow> attested_outcome \<Rightarrow> 'w rs \<Rightarrow> bool rs_res" where
  "has_quorum (AuthSigners cfg) i out s =
     andThen (attestation_count i out s) (\<lambda>n. Inr (sc_threshold cfg \<le> n))"
| "has_quorum (AuthDisputable cfg) i out s =
     andThen (attestation_count i out s) (\<lambda>n. Inr (dc_threshold cfg \<le> n))"
| "has_quorum (AuthWeighted cfg) i out s =
     Inr (case to_market out of None \<Rightarrow> False
          | Some o' \<Rightarrow> wc_weight_threshold cfg \<le> round_weight i (round_of i s) o' s)"
| "has_quorum (AuthCommittee r c) i out s =
     Inr (rotation_in_bounds r c
          \<and> cm_threshold c \<le> length (filter (\<lambda>m. has_attested i out m s) (cm_members c)))"
| "has_quorum (AuthHybrid cfg) i out s =
     andThen (attestation_count i out s) (\<lambda>n. Inr (sc_threshold (hc_fallback cfg) \<le> n))"

definition has_valid_proposal :: "nat \<Rightarrow> 'w rs \<Rightarrow> bool rs_res" where
  "has_valid_proposal i s =
     (case load_proposal i s of None \<Rightarrow> Inr False
      | Some p \<Rightarrow> andThen (signer_authority_of i s) (\<lambda>auth. has_quorum auth i (sv_outcome p) s))"

fun weight_of :: "weighted_key list \<Rightarrow> bytesN \<Rightarrow> nat option" where
  "weight_of [] pubkey = None"
| "weight_of (k # ks) pubkey = (if wk_pubkey k = pubkey then Some (wk_weight k) else weight_of ks pubkey)"

text \<open>The bytes a weighted-key signer signs; numbers are big-endian.\<close>

definition attestation_message ::
    "'w rs_peers \<Rightarrow> env \<Rightarrow> nat \<Rightarrow> nat \<Rightarrow> outcome \<Rightarrow> bytesN \<Rightarrow> nat list" where
  "attestation_message P E i r out resolution_hash =
     map of_char ATTEST_DOMAIN @ rp_network_id P @ rp_xdr_address P (e_self E) @ be_bytes 8 i
       @ be_bytes 4 r @ [case out of Yes \<Rightarrow> 0 | No \<Rightarrow> 1] @ resolution_hash"

section \<open>Rules\<close>

definition signer_config_ok :: "signer_config \<Rightarrow> bool" where
  "signer_config_ok cfg \<longleftrightarrow> sc_signers cfg \<noteq> [] \<and> sc_threshold cfg \<noteq> 0
     \<and> sc_threshold cfg \<le> length (sc_signers cfg) \<and> sc_dispute_window cfg \<noteq> 0"

definition disputable_config_is_valid :: "disputable_signer_config \<Rightarrow> bool" where
  "disputable_config_is_valid cfg \<longleftrightarrow>
     (case dc_escalation cfg of Guardian \<Rightarrow> True
      | CommitteeEscalation members k \<Rightarrow> k \<noteq> 0 \<and> k \<le> length members
          \<and> list_all (\<lambda>m. \<not> List.member (dc_signers cfg) m) members \<and> distinct members)
     \<and> dc_signers cfg \<noteq> [] \<and> dc_threshold cfg \<noteq> 0 \<and> dc_threshold cfg \<le> length (dc_signers cfg)
     \<and> dc_dispute_window cfg \<noteq> 0 \<and> 0 < dc_dispute_bond cfg \<and> dc_escalation_timeout cfg \<noteq> 0"

text \<open>The loop over the keys: the sum of the weights, unless it overflows, a weight is zero or a key
  occurred before.\<close>

fun weights_total :: "bytesN list \<Rightarrow> nat \<Rightarrow> weighted_key list \<Rightarrow> nat option" where
  "weights_total seen tot [] = Some tot"
| "weights_total seen tot (k # ks) =
     (if u32_max < tot + wk_weight k then None
      else if wk_weight k = 0 \<or> List.member seen (wk_pubkey k) then None
      else weights_total (wk_pubkey k # seen) (tot + wk_weight k) ks)"

definition weighted_config_is_valid :: "weighted_key_config \<Rightarrow> bool" where
  "weighted_config_is_valid cfg \<longleftrightarrow>
     \<not> (wc_signers cfg = [] \<or> MAX_WEIGHTED_SIGNERS < length (wc_signers cfg) \<or> wc_dispute_window cfg = 0)
     \<and> (case weights_total [] 0 (wc_signers cfg) of None \<Rightarrow> False
        | Some tot \<Rightarrow> wc_weight_threshold cfg \<noteq> 0 \<and> wc_weight_threshold cfg \<le> tot)"

fun rule_is_valid :: "resolution_spec \<Rightarrow> bool" where
  "rule_is_valid (Price cfg) = (0 \<le> pc_threshold cfg \<and> pc_max_staleness cfg \<noteq> 0)"
| "rule_is_valid (Signers cfg) = signer_config_ok cfg"
| "rule_is_valid (WeightedKeys cfg) = weighted_config_is_valid cfg"
| "rule_is_valid (SignersDisputable cfg) = disputable_config_is_valid cfg"
| "rule_is_valid (Committee cfg) = (cr_dispute_window cfg \<noteq> 0)"
| "rule_is_valid (Hybrid cfg) = (0 \<le> pc_threshold (hc_price cfg) \<and> pc_max_staleness (hc_price cfg) \<noteq> 0
     \<and> signer_config_ok (hc_fallback cfg) \<and> 0 < hc_fallback_after cfg
     \<and> pc_max_staleness (hc_price cfg) \<le> hc_fallback_after cfg)"

definition validate_rule :: "resolution_spec \<Rightarrow> unit rs_res" where
  "validate_rule rule = (if rule_is_valid rule then Inr () else Inl (Err RsInvalidConfig))"

text \<open>Every way of storing a rule also pins the evidence policy of the time and sets the state.\<close>

definition pin_policy :: "nat \<Rightarrow> 'w rs \<Rightarrow> 'w rs" where
  "pin_policy i s =
     (case es_config (rs_evidence s) of None \<Rightarrow> s
      | Some (_, policy) \<Rightarrow>
          s\<lparr>rs_evidence := (rs_evidence s)\<lparr>es_policy := (es_policy (rs_evidence s))(i \<mapsto> policy)\<rparr>\<rparr>)"

definition upd_rules :: "(rules_state \<Rightarrow> rules_state) \<Rightarrow> 'w rs \<Rightarrow> 'w rs" where
  "upd_rules f s = s\<lparr>rs_rules := f (rs_rules s)\<rparr>"

fun put_rule :: "nat \<Rightarrow> resolution_spec \<Rightarrow> rules_state \<Rightarrow> rules_state" where
  "put_rule i (Price cfg) ru = ru\<lparr>ru_price := (ru_price ru)(i \<mapsto> cfg)\<rparr>"
| "put_rule i (Signers cfg) ru = ru\<lparr>ru_signers := (ru_signers ru)(i \<mapsto> cfg)\<rparr>"
| "put_rule i (WeightedKeys cfg) ru = ru\<lparr>ru_weighted := (ru_weighted ru)(i \<mapsto> cfg)\<rparr>"
| "put_rule i (SignersDisputable cfg) ru = ru\<lparr>ru_disputable := (ru_disputable ru)(i \<mapsto> cfg)\<rparr>"
| "put_rule i (Committee cfg) ru = ru\<lparr>ru_committee := (ru_committee ru)(i \<mapsto> cfg)\<rparr>"
| "put_rule i (Hybrid cfg) ru = ru\<lparr>ru_hybrid := (ru_hybrid ru)(i \<mapsto> cfg)\<rparr>"

fun rule_state :: "resolution_spec \<Rightarrow> resolution_state" where
  "rule_state (Price _) = Unconfigured"
| "rule_state (Hybrid _) = HybridPricePending"
| "rule_state _ = SignersPending"

definition store_rule :: "nat \<Rightarrow> resolution_spec \<Rightarrow> 'w rs \<Rightarrow> 'w rs" where
  "store_rule i rule s = set_state i (rule_state rule) (pin_policy i (upd_rules (put_rule i rule) s))"

definition validate_scaled_rule :: "scaled_price_config \<Rightarrow> unit rs_res" where
  "validate_scaled_rule cfg =
     (if 0 \<le> sp_threshold cfg \<and> sp_max_staleness cfg \<noteq> 0
         \<and> sp_threshold_decimals cfg \<le> MAX_THRESHOLD_DECIMALS
      then Inr () else Inl (Err RsInvalidConfig))"

definition store_scaled_rule :: "nat \<Rightarrow> scaled_price_config \<Rightarrow> 'w rs \<Rightarrow> 'w rs" where
  "store_scaled_rule i cfg s = set_state i Unconfigured (pin_policy i
     (upd_rules (\<lambda>ru. ru\<lparr>ru_scaled := (ru_scaled ru)(i \<mapsto> cfg)\<rparr>) s))"

definition validate_twap_rule :: "'w rs_peers \<Rightarrow> twap_config \<Rightarrow> 'w \<Rightarrow> unit rs_res" where
  "validate_twap_rule P cfg w =
     (if \<not> (0 < tw_window cfg \<and> 2 \<le> tw_min_samples cfg \<and> 0 < tw_max_gap cfg
            \<and> tw_max_gap cfg \<le> tw_window cfg \<and> 0 \<le> tw_threshold cfg)
      then Inl (Err RsInvalidConfig)
      else
      andThen (ok_or RsPriceUnavailable (rp_feed_resolution P (tw_reflector cfg) w)) (\<lambda>res.
      if res = 0 then Inl (Err RsInvalidConfig)
      else let slots = tw_window cfg div res in
        if MAX_TWAP_SAMPLES < slots \<or> slots < tw_min_samples cfg then Inl (Err RsInvalidConfig)
        else Inr ()))"

definition store_twap_rule :: "nat \<Rightarrow> twap_config \<Rightarrow> 'w rs \<Rightarrow> 'w rs" where
  "store_twap_rule i cfg s = set_state i Unconfigured (pin_policy i
     (upd_rules (\<lambda>ru. ru\<lparr>ru_twap := (ru_twap ru)(i \<mapsto> cfg)\<rparr>) s))"

definition assert_matches_commitment :: "'w rs_peers \<Rightarrow> nat \<Rightarrow> bytesN \<Rightarrow> 'w rs \<Rightarrow> nat rs_res" where
  "assert_matches_commitment P i commitment s =
     andThen (load_market_of P i s) (\<lambda>m.
       if commitment \<noteq> mk_resolution_hash m then Inl (Err RsSpecHashMismatch)
       else Inr (mk_close_time m))"

definition reveal :: "'w rs_peers \<Rightarrow> nat \<Rightarrow> resolution_spec \<Rightarrow> bytesN \<Rightarrow> 'w rs \<Rightarrow> 'w rs rs_res" where
  "reveal P i rule commitment s =
     andThen (assert_unconfigured i s) (\<lambda>_.
     andThen (validate_rule rule) (\<lambda>_.
     andThen (assert_matches_commitment P i commitment s) (\<lambda>_.
       Inr (store_rule i rule s))))"

definition validate_committee_members :: "address list \<Rightarrow> unit rs_res" where
  "validate_committee_members members =
     (if members = [] then Inl (Err RsInvalidConfig)
      else if MAX_COMMITTEE < length members then Inl (Err RsCommitteeTooLarge)
      else if \<not> distinct members then Inl (Err RsDuplicateMember)
      else Inr ())"

section \<open>Settlement by price\<close>

definition price_outcome ::
    "'w rs_peers \<Rightarrow> nat \<Rightarrow> price_config \<Rightarrow> nat \<Rightarrow> 'w rs \<Rightarrow> (outcome \<times> price_data \<times> bool) rs_res" where
  "price_outcome P i cfg close_time s =
     andThen (case rs_snapshots s i of
         Some snap \<Rightarrow> andThen (validate_price (pc_max_staleness cfg) close_time (ss_data snap)) (\<lambda>_.
           Inr (ss_data snap, True))
       | None \<Rightarrow> andThen (read_feed P cfg close_time (rs_world s)) (\<lambda>data. Inr (data, False)))
       (\<lambda>(data, from_snapshot). Inr (outcome_for cfg (pd_price data), data, from_snapshot))"

definition committed_price_outcome ::
    "'w rs_peers \<Rightarrow> nat \<Rightarrow> nat \<Rightarrow> 'w rs \<Rightarrow> (outcome \<times> price_data \<times> bool) rs_res" where
  "committed_price_outcome P i close_time s =
     (let ru = rs_rules s in
      case ru_price ru i of Some cfg \<Rightarrow> price_outcome P i cfg close_time s | None \<Rightarrow>
      case ru_hybrid ru i of Some h \<Rightarrow> price_outcome P i (hc_price h) close_time s | None \<Rightarrow>
      case ru_scaled ru i of
        Some c \<Rightarrow> andThen (scaled_price_outcome P c close_time (rs_world s)) (\<lambda>(out, data, _, _).
          Inr (out, data, False))
      | None \<Rightarrow>
      case ru_twap ru i of
        Some t \<Rightarrow> andThen (twap_outcome P t close_time (rs_world s)) (\<lambda>(twap, _, _, last_ts, out).
          Inr (out, \<lparr>pd_price = twap, pd_timestamp = last_ts\<rparr>, False))
      | None \<Rightarrow> Inl (Err RsWrongMode))"

definition price_config_of :: "nat \<Rightarrow> 'w rs \<Rightarrow> price_config rs_res" where
  "price_config_of i s =
     (let ru = rs_rules s in
      case ru_price ru i of Some cfg \<Rightarrow> Inr cfg | None \<Rightarrow>
      case ru_hybrid ru i of Some h \<Rightarrow> Inr (hc_price h) | None \<Rightarrow>
      if ru_scaled ru i \<noteq> None \<or> ru_twap ru i \<noteq> None then Inl (Err RsWrongMode)
      else (case signer_authority_of i s of
              Inr _ \<Rightarrow> Inl (Err RsWrongMode)
            | Inl _ \<Rightarrow> Inl (Err RsMarketNotConfigured)))"

definition settle_price ::
    "'w rs_peers \<Rightarrow> env \<Rightarrow> address \<Rightarrow> nat \<Rightarrow> outcome \<Rightarrow> price_data \<Rightarrow> bool \<Rightarrow> 'w rs \<Rightarrow> 'w rs rs_res" where
  "settle_price P E core i out data from_snapshot s =
     andThen (call_resolve P E core i out s) (\<lambda>s1.
     let s2 = set_state i Finalized s1 in
     andThen (market_close_time P i s2) (\<lambda>_.
       Inr (rs_publish (EvPriceResolutionV2 i (pd_price data) (pd_timestamp data) out from_snapshot)
           (rs_publish (EvPriceResolution i (pd_price data) (pd_timestamp data) out) s2))))"

definition settle_twap ::
    "'w rs_peers \<Rightarrow> env \<Rightarrow> address \<Rightarrow> nat \<Rightarrow> twap_config \<Rightarrow> 'w rs \<Rightarrow> (outcome \<times> 'w rs) rs_res" where
  "settle_twap P E core i cfg s =
     andThen (core_must_ok (rp_get_market P core i (rs_world s))) (\<lambda>m.
     if e_now E < mk_close_time m then Inl (Err RsMarketNotClosed)
     else
     andThen (twap_outcome P cfg (mk_close_time m) (rs_world s)) (\<lambda>(twap, n, first_ts, last_ts, out).
     andThen (settle_price P E core i out \<lparr>pd_price = twap, pd_timestamp = last_ts\<rparr> False s) (\<lambda>s1.
       Inr (out, rs_publish (EvTwapResolution i twap n first_ts last_ts out) s1))))"

definition settle_scaled ::
    "'w rs_peers \<Rightarrow> env \<Rightarrow> address \<Rightarrow> nat \<Rightarrow> scaled_price_config \<Rightarrow> 'w rs \<Rightarrow> (outcome \<times> 'w rs) rs_res" where
  "settle_scaled P E core i cfg s =
     andThen (core_must_ok (rp_get_market P core i (rs_world s))) (\<lambda>m.
     if e_now E < mk_close_time m then Inl (Err RsMarketNotClosed)
     else
     andThen (scaled_price_outcome P cfg (mk_close_time m) (rs_world s)) (\<lambda>(out, data, decimals, threshold).
     andThen (settle_price P E core i out data False s) (\<lambda>s1.
       Inr (out, rs_publish
         (EvPriceResolutionScaled i (pd_price data) decimals threshold (pd_timestamp data) out) s1))))"

text \<open>The errors that mean the feed cannot be used now.\<close>

fun feed_unusable :: "rs_error \<Rightarrow> bool" where
  "feed_unusable RsPriceUnavailable = True"
| "feed_unusable RsStalePrice = True"
| "feed_unusable RsInvalidPrice = True"
| "feed_unusable _ = False"

end
