(* ===== verification/ResolverOps.thy ===== *)
theory ResolverOps
  imports ResolverState
begin

text \<open>
  The entry points of the resolver (\<^verbatim>\<open>contracts/resolver/src/lib.rs\<close>), in the source's order:
  construction and admin, reveals, committees, the fallback of hybrid markets, evidence, guardian
  actions, resolution by price, expiry, attestation, finalization, disputes.
\<close>

section \<open>Construction and admin\<close>

definition rs_deployed :: "'w \<Rightarrow> 'w rs" where
  "rs_deployed w =
     \<lparr>rs_admin = None, rs_pending_admin = None, rs_market_core = None,
      rs_rules = \<lparr>ru_price = Map.empty, ru_scaled = Map.empty, ru_twap = Map.empty, ru_signers = Map.empty,
        ru_weighted = Map.empty, ru_disputable = Map.empty, ru_committee = Map.empty, ru_hybrid = Map.empty\<rparr>,
      rs_votes = \<lparr>vo_proposal_old = Map.empty, vo_attested_old = (\<lambda>_ _ _. False),
        vo_count_old = (\<lambda>_. Map.empty), vo_proposal = Map.empty, vo_attested = (\<lambda>_ _ _. False),
        vo_count = (\<lambda>_. Map.empty), vo_epoch = (\<lambda>_. Map.empty), vo_round = Map.empty,
        vo_sig_seen = (\<lambda>_ _. Map.empty), vo_weight = (\<lambda>_ _. Map.empty)\<rparr>,
      rs_disputes = \<lparr>dp_dispute = Map.empty, dp_voted = (\<lambda>_ _. False), dp_votes = (\<lambda>_. Map.empty),
        dp_cancels = Map.empty\<rparr>,
      rs_committees = \<lparr>co_next_id = None, co_committee = Map.empty, co_rotation = Map.empty,
        co_member_at = (\<lambda>_. Map.empty)\<rparr>,
      rs_evidence = \<lparr>es_config = None, es_policy = Map.empty, es_used = (\<lambda>_. False),
        es_count = Map.empty, es_at = (\<lambda>_. Map.empty)\<rparr>,
      rs_states = Map.empty, rs_snapshots = Map.empty, rs_world = w, rs_events = []\<rparr>"

definition rs_constructor :: "address \<Rightarrow> address \<Rightarrow> 'w rs \<Rightarrow> 'w rs" where
  "rs_constructor admin core s = s\<lparr>rs_admin := Some admin, rs_market_core := Some core\<rparr>"

definition rs_market_core_view :: "'w rs \<Rightarrow> address rs_res" where
  "rs_market_core_view s = unwrap (rs_market_core s)"

definition rs_admin_view :: "'w rs \<Rightarrow> address rs_res" where
  "rs_admin_view s = ok_or RsNotInitialized (rs_admin s)"

definition rs_pending_admin_view :: "'w rs \<Rightarrow> rs_pending_rec option" where
  "rs_pending_admin_view s = rs_pending_admin s"

definition accept_market_core_role :: "'w rs_peers \<Rightarrow> env \<Rightarrow> 'w rs \<Rightarrow> 'w rs rs_res" where
  "accept_market_core_role P E s =
     andThen (rs_market_core_view s) (\<lambda>core.
     andThen (unwrap (rp_accept_resolver P E core (rs_world s))) (\<lambda>w. Inr (s\<lparr>rs_world := w\<rparr>)))"

definition rs_propose_admin :: "env \<Rightarrow> address \<Rightarrow> 'w rs \<Rightarrow> 'w rs rs_res" where
  "rs_propose_admin E new_admin s =
     andThen (rs_require_admin E s) (\<lambda>_.
     andThen (add_u64 (e_now E) RS_ADMIN_PROPOSAL_TTL_SECS) (\<lambda>expires.
       Inr (rs_publish (EvRsAdminTransferProposed new_admin)
         (s\<lparr>rs_pending_admin := Some \<lparr>rq_address = new_admin, rq_expires_at = expires\<rparr>\<rparr>))))"

definition rs_accept_admin :: "env \<Rightarrow> 'w rs \<Rightarrow> 'w rs rs_res" where
  "rs_accept_admin E s =
     andThen (ok_or RsNoPendingAdmin (rs_pending_admin s)) (\<lambda>p.
     if rq_expires_at p < e_now E then Inl (Err RsPendingAdminExpired)
     else
     andThen (require_auth E (rq_address p)) (\<lambda>_.
     andThen (ok_or RsNotInitialized (rs_admin s)) (\<lambda>old.
       Inr (rs_publish (EvRsAdminTransferred old (rq_address p))
         (s\<lparr>rs_admin := Some (rq_address p), rs_pending_admin := None\<rparr>)))))"

definition rs_cancel_admin_transfer :: "env \<Rightarrow> 'w rs \<Rightarrow> 'w rs rs_res" where
  "rs_cancel_admin_transfer E s =
     andThen (rs_require_admin E s) (\<lambda>_.
     if rs_pending_admin s = None then Inl (Err RsNoPendingAdmin)
     else Inr (rs_publish EvRsAdminTransferCancelled (s\<lparr>rs_pending_admin := None\<rparr>)))"

section \<open>Reveals\<close>

definition register_price_spec :: "'w rs_peers \<Rightarrow> nat \<Rightarrow> price_config \<Rightarrow> 'w rs \<Rightarrow> 'w rs rs_res" where
  "register_price_spec P i spec s = reveal P i (Price spec) (legacy_spec_hash P (Price spec)) s"

definition register_scaled_price_spec ::
    "'w rs_peers \<Rightarrow> nat \<Rightarrow> scaled_price_config \<Rightarrow> 'w rs \<Rightarrow> 'w rs rs_res" where
  "register_scaled_price_spec P i spec s =
     andThen (assert_unconfigured i s) (\<lambda>_.
     andThen (validate_scaled_rule spec) (\<lambda>_.
     andThen (assert_matches_commitment P i (scaled_spec_hash P spec) s) (\<lambda>_.
       Inr (store_scaled_rule i spec s))))"

definition register_twap_spec :: "'w rs_peers \<Rightarrow> nat \<Rightarrow> twap_config \<Rightarrow> 'w rs \<Rightarrow> 'w rs rs_res" where
  "register_twap_spec P i spec s =
     andThen (assert_unconfigured i s) (\<lambda>_.
     andThen (validate_twap_rule P spec (rs_world s)) (\<lambda>_.
     andThen (assert_matches_commitment P i (twap_spec_hash P spec) s) (\<lambda>_.
       Inr (store_twap_rule i spec s))))"

definition register_signer_spec :: "'w rs_peers \<Rightarrow> nat \<Rightarrow> signer_config \<Rightarrow> 'w rs \<Rightarrow> 'w rs rs_res" where
  "register_signer_spec P i spec s = reveal P i (Signers spec) (legacy_spec_hash P (Signers spec)) s"

definition register_disputable_spec ::
    "'w rs_peers \<Rightarrow> nat \<Rightarrow> disputable_signer_config \<Rightarrow> 'w rs \<Rightarrow> 'w rs rs_res" where
  "register_disputable_spec P i spec s =
     reveal P i (SignersDisputable spec) (legacy_spec_hash P (SignersDisputable spec)) s"

definition register_weighted_key_spec ::
    "'w rs_peers \<Rightarrow> nat \<Rightarrow> weighted_key_config \<Rightarrow> 'w rs \<Rightarrow> 'w rs rs_res" where
  "register_weighted_key_spec P i spec s =
     reveal P i (WeightedKeys spec) (legacy_spec_hash P (WeightedKeys spec)) s"

definition register_spec_v2 :: "'w rs_peers \<Rightarrow> nat \<Rightarrow> resolution_spec_v2 \<Rightarrow> 'w rs \<Rightarrow> 'w rs rs_res" where
  "register_spec_v2 P i spec s =
     (if v2_version spec \<noteq> RS_SPEC_V2_VERSION \<or> v2_salt spec = replicate 32 0
      then Inl (Err RsInvalidConfig)
      else if v2_network_id spec \<noteq> rp_network_id P then Inl (Err RsDomainMismatch)
      else
      andThen (load_core s) (\<lambda>core.
        if v2_market_core spec \<noteq> core then Inl (Err RsDomainMismatch)
        else reveal P i (v2_rule spec) (spec_v2_hash P spec) s))"

definition register_committee_spec :: "'w rs_peers \<Rightarrow> nat \<Rightarrow> committee_ref \<Rightarrow> 'w rs \<Rightarrow> 'w rs rs_res" where
  "register_committee_spec P i spec s =
     andThen (assert_unconfigured i s) (\<lambda>_.
     andThen (load_committee (cr_committee_id spec) s) (\<lambda>committee.
     if cm_epoch committee < cr_min_epoch spec then Inl (Err RsRotationBoundExceeded)
     else if cr_dispute_window spec = 0 then Inl (Err RsInvalidConfig)
     else
     andThen (assert_matches_commitment P i (legacy_spec_hash P (Committee spec)) s) (\<lambda>_.
       Inr (store_rule i (Committee spec) s))))"

definition register_hybrid_spec :: "'w rs_peers \<Rightarrow> nat \<Rightarrow> hybrid_config \<Rightarrow> 'w rs \<Rightarrow> 'w rs rs_res" where
  "register_hybrid_spec P i spec s = reveal P i (Hybrid spec) (legacy_spec_hash P (Hybrid spec)) s"

section \<open>Committees\<close>

definition upd_committees :: "(committees_state \<Rightarrow> committees_state) \<Rightarrow> 'w rs \<Rightarrow> 'w rs" where
  "upd_committees f s = s\<lparr>rs_committees := f (rs_committees s)\<rparr>"

definition create_committee ::
    "address \<Rightarrow> address list \<Rightarrow> nat \<Rightarrow> nat \<Rightarrow> 'w rs \<Rightarrow> (nat \<times> 'w rs) rs_res" where
  "create_committee admin members threshold rotation_delay s =
     andThen (validate_committee_members members) (\<lambda>_.
     if threshold = 0 \<or> length members < threshold then Inl (Err RsInvalidConfig)
     else if rotation_delay < MIN_ROTATION_DELAY then Inl (Err RsInvalidConfig)
     else
     let k = (case co_next_id (rs_committees s) of None \<Rightarrow> 0 | Some n \<Rightarrow> n) in
     andThen (add_u64 k 1) (\<lambda>next.
     let committee = \<lparr>cm_admin = admin, cm_members = members, cm_threshold = threshold, cm_epoch = 1,
                      cm_rotation_delay = rotation_delay\<rparr> in
       Inr (k, rs_publish (EvCommitteeCreated k admin threshold members)
         (upd_committees (\<lambda>c. c\<lparr>co_next_id := Some next, co_committee := (co_committee c)(k \<mapsto> committee),
            co_member_at := (co_member_at c)(k := (co_member_at c k)(1 \<mapsto> (members, threshold)))\<rparr>) s))))"

definition propose_rotation ::
    "env \<Rightarrow> nat \<Rightarrow> address list \<Rightarrow> nat \<Rightarrow> 'w rs \<Rightarrow> (nat \<times> 'w rs) rs_res" where
  "propose_rotation E k members threshold s =
     andThen (load_committee k s) (\<lambda>committee.
     andThen (require_auth E (cm_admin committee)) (\<lambda>_.
     if co_rotation (rs_committees s) k \<noteq> None then Inl (Err RsRotationPending)
     else
     andThen (validate_committee_members members) (\<lambda>_.
     if threshold = 0 \<or> length members < threshold then Inl (Err RsInvalidConfig)
     else
     let at = sat_add_u64 (e_now E) (cm_rotation_delay committee) in
       Inr (at, rs_publish (EvRotationProposed k at)
         (upd_committees (\<lambda>c. c\<lparr>co_rotation := (co_rotation c)
            (k \<mapsto> \<lparr>ro_members = members, ro_threshold = threshold, ro_executable_at = at\<rparr>)\<rparr>) s)))))"

definition execute_rotation :: "env \<Rightarrow> nat \<Rightarrow> 'w rs \<Rightarrow> (nat \<times> 'w rs) rs_res" where
  "execute_rotation E k s =
     andThen (load_committee k s) (\<lambda>committee.
     andThen (ok_or RsRotationNotReady (co_rotation (rs_committees s) k)) (\<lambda>pending.
     if e_now E < ro_executable_at pending then Inl (Err RsRotationNotReady)
     else
     andThen (ok_or RsInvalidConfig
       (if cm_epoch committee + 1 \<le> u32_max then Some (cm_epoch committee + 1) else None)) (\<lambda>epoch.
     let committee' = committee\<lparr>cm_epoch := epoch, cm_members := ro_members pending,
                                cm_threshold := ro_threshold pending\<rparr> in
       Inr (epoch, rs_publish (EvRotationExecuted k epoch)
         (upd_committees (\<lambda>c. c\<lparr>co_rotation := (co_rotation c)(k := None),
            co_committee := (co_committee c)(k \<mapsto> committee'),
            co_member_at := (co_member_at c)(k := (co_member_at c k)
              (epoch \<mapsto> (ro_members pending, ro_threshold pending)))\<rparr>) s)))))"

definition cancel_rotation :: "env \<Rightarrow> nat \<Rightarrow> 'w rs \<Rightarrow> 'w rs rs_res" where
  "cancel_rotation E k s =
     andThen (load_committee k s) (\<lambda>committee.
     andThen (require_auth E (cm_admin committee)) (\<lambda>_.
     if co_rotation (rs_committees s) k = None then Inl (Err RsRotationNotReady)
     else Inr (rs_publish (EvRotationCancelled k)
            (upd_committees (\<lambda>c. c\<lparr>co_rotation := (co_rotation c)(k := None)\<rparr>) s))))"

definition get_committee :: "nat \<Rightarrow> 'w rs \<Rightarrow> committee_rec rs_res" where
  "get_committee k s = load_committee k s"

section \<open>Fallback and evidence\<close>

definition open_fallback :: "'w rs_peers \<Rightarrow> env \<Rightarrow> nat \<Rightarrow> 'w rs \<Rightarrow> 'w rs rs_res" where
  "open_fallback P E i s =
     andThen (ok_or RsMarketNotConfigured (ru_hybrid (rs_rules s) i)) (\<lambda>cfg.
     if terminal i s then Inl (Err RsAlreadyFinalized)
     else
     andThen (load_core s) (\<lambda>core.
     andThen (load_market_of P i s) (\<lambda>m.
     if e_now E < sat_add_u64 (mk_close_time m) (hc_fallback_after cfg) then Inl (Err RsDeadlineNotReached)
     else
     (case price_outcome P i (hc_price cfg) (mk_close_time m) s of
        Inr (out, data, from_snapshot) \<Rightarrow> settle_price P E core i out data from_snapshot s
      | Inl (Err e) \<Rightarrow> Inr (rs_publish (EvFallbackOpened i (e_now E) e) (set_state i HybridFallbackOpen s))
      | Inl Trap \<Rightarrow> Inl Trap))))"

definition set_evidence_config :: "env \<Rightarrow> address \<Rightarrow> evidence_policy \<Rightarrow> 'w rs \<Rightarrow> 'w rs rs_res" where
  "set_evidence_config E registry policy s =
     andThen (rs_require_admin E s) (\<lambda>_.
       Inr (s\<lparr>rs_evidence := (rs_evidence s)\<lparr>es_config := Some (registry, policy)\<rparr>\<rparr>))"

definition evidence_config :: "'w rs \<Rightarrow> (address \<times> evidence_policy) option" where
  "evidence_config s = es_config (rs_evidence s)"

definition evidence_count :: "nat \<Rightarrow> 'w rs \<Rightarrow> nat" where
  "evidence_count i s = (case es_count (rs_evidence s) i of None \<Rightarrow> 0 | Some n \<Rightarrow> n)"

definition evidence_at :: "nat \<Rightarrow> nat \<Rightarrow> 'w rs \<Rightarrow> attestation_evidence rs_res" where
  "evidence_at i k s = ok_or RsEvidenceNotFound (es_at (rs_evidence s) i k)"

definition cancel_count :: "nat \<Rightarrow> 'w rs \<Rightarrow> nat" where
  "cancel_count i s = (case dp_cancels (rs_disputes s) i of None \<Rightarrow> 0 | Some n \<Rightarrow> n)"

section \<open>Guardian\<close>

text \<open>Whether the price rule cannot be applied now: \<open>None\<close> when reading it aborts.\<close>

definition price_unusable :: "'w rs_peers \<Rightarrow> nat \<Rightarrow> nat \<Rightarrow> 'w rs \<Rightarrow> bool rs_res" where
  "price_unusable P i close_time s =
     (case committed_price_outcome P i close_time s of
        Inr _ \<Rightarrow> Inr False
      | Inl (Err e) \<Rightarrow> Inr (feed_unusable e)
      | Inl Trap \<Rightarrow> Inl Trap)"

definition guardian_options :: "'w rs_peers \<Rightarrow> env \<Rightarrow> nat \<Rightarrow> 'w rs \<Rightarrow> guardian_reason list rs_res" where
  "guardian_options P E i s =
     (if terminal i s then Inr []
      else (case load_market_of P i s of
        Inl _ \<Rightarrow> Inr []
      | Inr m \<Rightarrow>
          let upheld = (case (load_proposal i s, signer_authority_of i s) of
                (Some p, Inr auth) \<Rightarrow>
                  if e_now E < sat_add_u64 (sv_proposed_at p) (dispute_window_of auth)
                  then [DisputeUpheld] else []
              | _ \<Rightarrow> []) in
          if e_now E < mk_close_time m then Inr upheld
          else
          let unrevealed = (if expiry_mode_of i s = ModeUnrevealed
                               \<and> sat_add_u64 (mk_close_time m) REVEAL_GRACE_SECS \<le> e_now E
                            then [UnrevealedSpec] else []) in
          andThen (if (has_price_rule i s \<or> ru_hybrid (rs_rules s) i \<noteq> None)
                      \<and> sat_add_u64 (mk_close_time m) ORACLE_GRACE_SECS \<le> e_now E
                   then price_unusable P i (mk_close_time m) s else Inr False) (\<lambda>unusable.
          let oracle = (if unusable then [OracleUnavailable] else []);
              stalled = (if has_signer_rule i s \<and> \<not> has_proposal i s
                            \<and> sat_add_u64 (mk_close_time m) SIGNER_GRACE_SECS \<le> e_now E
                         then [SignersStalled] else [])
          in Inr (upheld @ unrevealed @ oracle @ stalled))))"

definition cancel_proposal :: "'w rs_peers \<Rightarrow> env \<Rightarrow> nat \<Rightarrow> guardian_reason \<Rightarrow> 'w rs \<Rightarrow> 'w rs rs_res" where
  "cancel_proposal P E i reason s =
     andThen (rs_require_admin E s) (\<lambda>_.
     if reason \<noteq> DisputeUpheld then Inl (Err RsGuardianNotAllowed)
     else
     andThen (assert_not_disputed i s) (\<lambda>_.
     andThen (ok_or RsNoProposal (load_proposal i s)) (\<lambda>p.
     andThen (signer_authority_of i s) (\<lambda>auth.
     if sat_add_u64 (sv_proposed_at p) (dispute_window_of auth) \<le> e_now E
     then Inl (Err RsDisputeWindowClosed)
     else
     andThen (market_close_time P i s) (\<lambda>_.
     let cancels = cancel_count i s in
     if MAX_CANCELS_PER_MARKET \<le> cancels then Inl (Err RsTooManyCancels)
     else
     andThen (add_u32 cancels 1) (\<lambda>cancels'.
     let s1 = s\<lparr>rs_disputes := (rs_disputes s)
                  \<lparr>dp_cancels := (dp_cancels (rs_disputes s))(i \<mapsto> cancels')\<rparr>\<rparr>;
         s2 = remove_proposal i s1 in
     andThen (if ru_weighted (rs_rules s2) i \<noteq> None
              then andThen (add_u32 (round_of i s2) 1) (\<lambda>r.
                     Inr (upd_votes (\<lambda>v. v\<lparr>vo_round := (vo_round v)(i \<mapsto> r)\<rparr>) s2))
              else Inr s2) (\<lambda>s3.
       Inr (rs_publish (EvGuardianAction i GuardianCancel DisputeUpheld (e_now E)) s3))))))))"

definition guardian_may_void ::
    "'w rs_peers \<Rightarrow> env \<Rightarrow> nat \<Rightarrow> guardian_reason \<Rightarrow> market \<Rightarrow> 'w rs \<Rightarrow> unit rs_res" where
  "guardian_may_void P E i reason m s =
     (let now = e_now E; closed = mk_close_time m in
      case reason of
        UnrevealedSpec \<Rightarrow>
          if expiry_mode_of i s \<noteq> ModeUnrevealed \<or> now < sat_add_u64 closed REVEAL_GRACE_SECS
          then Inl (Err RsGuardianNotAllowed) else Inr ()
      | OracleUnavailable \<Rightarrow>
          if now < sat_add_u64 closed ORACLE_GRACE_SECS then Inl (Err RsGuardianNotAllowed)
          else andThen (price_unusable P i closed s) (\<lambda>unusable.
            if unusable then Inr () else Inl (Err RsGuardianNotAllowed))
      | SignersStalled \<Rightarrow>
          if \<not> has_signer_rule i s \<or> has_proposal i s then Inl (Err RsGuardianNotAllowed)
          else if now < sat_add_u64 closed SIGNER_GRACE_SECS then Inl (Err RsGuardianNotAllowed)
          else Inr ()
      | DisputeUpheld \<Rightarrow>
          andThen (ok_or RsGuardianNotAllowed (load_proposal i s)) (\<lambda>p.
          andThen (signer_authority_of i s) (\<lambda>auth.
            if sat_add_u64 (sv_proposed_at p) (dispute_window_of auth) \<le> now
            then Inl (Err RsGuardianNotAllowed) else Inr ())))"

definition guardian_void_market ::
    "'w rs_peers \<Rightarrow> env \<Rightarrow> nat \<Rightarrow> guardian_reason \<Rightarrow> 'w rs \<Rightarrow> 'w rs rs_res" where
  "guardian_void_market P E i reason s =
     andThen (rs_require_admin E s) (\<lambda>_.
     if terminal i s then Inl (Err RsAlreadyFinalized)
     else
     andThen (load_core s) (\<lambda>core.
     andThen (load_market_of P i s) (\<lambda>m.
     if reason \<noteq> DisputeUpheld \<and> e_now E < mk_close_time m then Inl (Err RsGuardianNotAllowed)
     else
     andThen (guardian_may_void P E i reason m s) (\<lambda>_.
     andThen (call_void P E core i s) (\<lambda>s1.
       Inr (rs_publish (EvGuardianAction i GuardianVoid reason (e_now E))
         (set_state i Finalized (refund_open_dispute i s1))))))))"

section \<open>Resolution by price\<close>

definition resolve_twap :: "'w rs_peers \<Rightarrow> env \<Rightarrow> nat \<Rightarrow> 'w rs \<Rightarrow> (outcome \<times> 'w rs) rs_res" where
  "resolve_twap P E i s =
     (case ru_twap (rs_rules s) i of
        None \<Rightarrow> Inl (Err RsWrongMode)
      | Some cfg \<Rightarrow>
          if terminal i s then Inl (Err RsAlreadyFinalized)
          else andThen (load_core s) (\<lambda>core. settle_twap P E core i cfg s))"

definition supersede :: "nat \<Rightarrow> 'w rs \<Rightarrow> 'w rs" where
  "supersede i s =
     (case load_proposal i s of None \<Rightarrow> s
      | Some p \<Rightarrow> rs_publish (EvFallbackSuperseded i (sv_outcome p)) (remove_proposal i s))"

definition resolve_price :: "'w rs_peers \<Rightarrow> env \<Rightarrow> nat \<Rightarrow> 'w rs \<Rightarrow> (outcome \<times> 'w rs) rs_res" where
  "resolve_price P E i s =
     (if ru_twap (rs_rules s) i \<noteq> None then resolve_twap P E i s
      else (case ru_scaled (rs_rules s) i of
        Some scaled \<Rightarrow>
          if terminal i s then Inl (Err RsAlreadyFinalized)
          else andThen (load_core s) (\<lambda>core. settle_scaled P E core i scaled s)
      | None \<Rightarrow>
          andThen (case ru_price (rs_rules s) i of Some cfg \<Rightarrow> Inr (cfg, False)
                   | None \<Rightarrow> (case ru_hybrid (rs_rules s) i of Some h \<Rightarrow> Inr (hc_price h, True)
                              | None \<Rightarrow> Inl (Err RsWrongMode))) (\<lambda>(cfg, is_hybrid).
          andThen (load_core s) (\<lambda>core.
          andThen (load_market_of P i s) (\<lambda>m.
          if e_now E < mk_close_time m then Inl (Err RsMarketNotClosed)
          else if terminal i s then Inl (Err RsAlreadyFinalized)
          else
          andThen (price_outcome P i cfg (mk_close_time m) s) (\<lambda>(out, data, from_snapshot).
          andThen (settle_price P E core i out data from_snapshot (if is_hybrid then supersede i s else s))
            (\<lambda>s1. Inr (out, s1))))))))"

definition snapshot_price :: "'w rs_peers \<Rightarrow> env \<Rightarrow> nat \<Rightarrow> address \<Rightarrow> 'w rs \<Rightarrow> (price_data \<times> 'w rs) rs_res" where
  "snapshot_price P E i caller s =
     andThen (require_auth E caller) (\<lambda>_.
     andThen (price_config_of i s) (\<lambda>cfg.
     andThen (load_market_of P i s) (\<lambda>m.
     if e_now E < mk_close_time m then Inl (Err RsMarketNotClosed)
     else if terminal i s then Inl (Err RsAlreadyFinalized)
     else if rs_snapshots s i \<noteq> None then Inl (Err RsSnapshotExists)
     else
     andThen (read_feed P cfg (mk_close_time m) (rs_world s)) (\<lambda>data.
       Inr (data, rs_publish (EvPriceSnapshotted i (pd_price data) (pd_timestamp data) caller)
         (s\<lparr>rs_snapshots := (rs_snapshots s)
              (i \<mapsto> \<lparr>ss_data = data, ss_taken_at = e_now E, ss_taken_by = caller\<rparr>)\<rparr>))))))"

definition snapshot_view :: "nat \<Rightarrow> 'w rs \<Rightarrow> price_snapshot option" where
  "snapshot_view i s = rs_snapshots s i"

definition preview_price :: "'w rs_peers \<Rightarrow> nat \<Rightarrow> 'w rs \<Rightarrow> price_data rs_res" where
  "preview_price P i s =
     andThen (price_config_of i s) (\<lambda>cfg.
     (case rp_feed_lastprice P (pc_reflector cfg) (pc_asset cfg) (rs_world s) of
        Some (Some data) \<Rightarrow> Inr data
      | _ \<Rightarrow> Inl (Err RsPriceUnavailable)))"

definition resolution_deadline :: "'w rs_peers \<Rightarrow> nat \<Rightarrow> 'w rs \<Rightarrow> nat rs_res" where
  "resolution_deadline P i s = andThen (load_market_of P i s) (\<lambda>m. Inr (deadline_of m))"

section \<open>Expiry\<close>

text \<open>The price branch of \<open>expire_market\<close>: \<open>Some s'\<close> when the market was resolved instead,
  \<open>None\<close> when the feed is unusable.\<close>

fun unless_unusable :: "('w rs) rs_res \<Rightarrow> ('w rs option) rs_res" where
  "unless_unusable (Inr s') = Inr (Some s')"
| "unless_unusable (Inl (Err e)) = (if feed_unusable e then Inr None else Inl (Err e))"
| "unless_unusable (Inl Trap) = Inl Trap"

definition resolve_instead :: "'w rs_peers \<Rightarrow> env \<Rightarrow> address \<Rightarrow> nat \<Rightarrow> market \<Rightarrow> 'w rs \<Rightarrow> ('w rs option) rs_res" where
  "resolve_instead P E core i m s =
     (case ru_twap (rs_rules s) i of
        Some twap \<Rightarrow> unless_unusable (andThen (settle_twap P E core i twap s) (\<lambda>(_, s1). Inr s1))
      | None \<Rightarrow> (case ru_scaled (rs_rules s) i of
          Some scaled \<Rightarrow> unless_unusable (andThen (settle_scaled P E core i scaled s) (\<lambda>(_, s1). Inr s1))
        | None \<Rightarrow>
            andThen (ok_or RsMarketNotConfigured (ru_price (rs_rules s) i)) (\<lambda>cfg.
            (case price_outcome P i cfg (mk_close_time m) s of
               Inr (out, data, from_snapshot) \<Rightarrow>
                 andThen (settle_price P E core i out data from_snapshot s) (\<lambda>s1. Inr (Some s1))
             | Inl (Err e) \<Rightarrow> if feed_unusable e then Inr None else Inl (Err e)
             | Inl Trap \<Rightarrow> Inl Trap))))"

definition expire_market :: "'w rs_peers \<Rightarrow> env \<Rightarrow> nat \<Rightarrow> 'w rs \<Rightarrow> 'w rs rs_res" where
  "expire_market P E i s =
     andThen (assert_not_disputed i s) (\<lambda>_.
     if terminal i s then Inl (Err RsAlreadyFinalized)
     else
     andThen (load_core s) (\<lambda>core.
     andThen (load_market_of P i s) (\<lambda>m.
     if e_now E < deadline_of m then Inl (Err RsDeadlineNotReached)
     else
     let mode = expiry_mode_of i s in
     andThen (case mode of
         ModePrice \<Rightarrow> resolve_instead P E core i m s
       | ModeSigners \<Rightarrow> andThen (has_valid_proposal i s) (\<lambda>valid.
           if valid then Inl (Err RsResolutionAvailable) else Inr None)
       | ModeUnrevealed \<Rightarrow> Inr None) (\<lambda>resolved.
     (case resolved of
        Some s1 \<Rightarrow> Inr s1
      | None \<Rightarrow>
          andThen (call_void P E core i s) (\<lambda>s1.
            Inr (rs_publish (EvMarketExpired i (mk_close_time m) (deadline_of m) mode)
              (set_state i Expired s1))))))))"

section \<open>Attestation\<close>

text \<open>Who may attest now: the threshold, and the committee's epoch.\<close>

fun attest_rights :: "signer_authority \<Rightarrow> nat \<Rightarrow> address \<Rightarrow> 'w rs \<Rightarrow> (nat \<times> nat option) rs_res" where
  "attest_rights (AuthSigners cfg) i signer s =
     (if \<not> List.member (sc_signers cfg) signer then Inl (Err RsNotSigner)
      else Inr (sc_threshold cfg, None))"
| "attest_rights (AuthDisputable cfg) i signer s =
     (if \<not> List.member (dc_signers cfg) signer then Inl (Err RsNotSigner)
      else Inr (dc_threshold cfg, None))"
| "attest_rights (AuthWeighted _) i signer s = Inl (Err RsWrongMode)"
| "attest_rights (AuthCommittee r c) i signer s =
     (if \<not> rotation_in_bounds r c then Inl (Err RsRotationBoundExceeded)
      else if \<not> List.member (cm_members c) signer then Inl (Err RsNotSigner)
      else Inr (cm_threshold c, Some (cm_epoch c)))"
| "attest_rights (AuthHybrid cfg) i signer s =
     (if resolution_state_of i s \<noteq> HybridFallbackOpen then Inl (Err RsWrongMode)
      else if \<not> List.member (sc_signers (hc_fallback cfg)) signer then Inl (Err RsNotSigner)
      else Inr (sc_threshold (hc_fallback cfg), None))"

definition policy_of :: "nat \<Rightarrow> 'w rs \<Rightarrow> evidence_policy" where
  "policy_of i s =
     (case es_policy (rs_evidence s) i of Some p \<Rightarrow> p
      | None \<Rightarrow> (case es_config (rs_evidence s) of Some (_, p) \<Rightarrow> p | None \<Rightarrow> EvDisabled))"

definition cite_evidence ::
    "'w rs_peers \<Rightarrow> env \<Rightarrow> nat \<Rightarrow> address \<Rightarrow> attested_outcome \<Rightarrow> nat option \<Rightarrow> market \<Rightarrow> 'w rs \<Rightarrow> 'w rs rs_res" where
  "cite_evidence P E i signer out evidence m s =
     (case evidence of
        Some trace_id \<Rightarrow>
          if policy_of i s = EvDisabled then Inl (Err RsEvidenceDisabled)
          else
          andThen (ok_or RsEvidenceDisabled (es_config (rs_evidence s))) (\<lambda>(registry, _).
          if es_used (rs_evidence s) trace_id then Inl (Err RsEvidenceAlreadyUsed)
          else
          andThen (ok_or RsEvidenceNotFound (rp_trace P registry trace_id (rs_world s))) (\<lambda>trace.
          if tc_agent trace \<noteq> signer then Inl (Err RsEvidenceAuthorMismatch)
          else if tc_market_id trace \<noteq> i then Inl (Err RsEvidenceMarketMismatch)
          else if tc_published_at trace < mk_close_time m then Inl (Err RsEvidenceTooEarly)
          else
          let n = evidence_count i s;
              entry = \<lparr>ae_signer = signer, ae_outcome = out, ae_trace_id = trace_id,
                       ae_trace_hash = tc_trace_hash trace, ae_attested_at = e_now E\<rparr> in
          andThen (add_u32 n 1) (\<lambda>n'.
            Inr (s\<lparr>rs_evidence := (rs_evidence s)
              \<lparr>es_at := (es_at (rs_evidence s))(i := (es_at (rs_evidence s) i)(n \<mapsto> entry)),
               es_count := (es_count (rs_evidence s))(i \<mapsto> n'),
               es_used := (es_used (rs_evidence s))(trace_id := True)\<rparr>\<rparr>))))
      | None \<Rightarrow> if policy_of i s = EvRequired then Inl (Err RsEvidenceRequired) else Inr s)"

definition mark_attested :: "nat \<Rightarrow> address \<Rightarrow> attested_outcome \<Rightarrow> nat option \<Rightarrow> 'w rs \<Rightarrow> 'w rs" where
  "mark_attested i signer out epoch = upd_votes (\<lambda>v.
     let v1 = v\<lparr>vo_attested := (vo_attested v)(i := (vo_attested v i)(out := (vo_attested v i out)(signer := True)))\<rparr>
     in case epoch of None \<Rightarrow> v1
        | Some n \<Rightarrow> v1\<lparr>vo_epoch := (vo_epoch v1)(i := (vo_epoch v1 i)(signer \<mapsto> n))\<rparr>)"

definition may_propose :: "nat \<Rightarrow> attested_outcome \<Rightarrow> 'w rs \<Rightarrow> bool" where
  "may_propose i out s =
     (case load_proposal i s of None \<Rightarrow> True
      | Some pending \<Rightarrow> out = AttInvalid \<and> sv_outcome pending \<noteq> AttInvalid)"

definition record_attestation ::
    "'w rs_peers \<Rightarrow> env \<Rightarrow> nat \<Rightarrow> address \<Rightarrow> attested_outcome \<Rightarrow> nat option \<Rightarrow> 'w rs \<Rightarrow> 'w rs rs_res" where
  "record_attestation P E i signer out evidence s0 =
     andThen (signer_authority_of i s0) (\<lambda>auth.
     andThen (attest_rights auth i signer s0) (\<lambda>(threshold, epoch).
     andThen (load_market_of P i s0) (\<lambda>m.
     if e_now E < mk_close_time m then Inl (Err RsMarketNotClosed)
     else
     andThen (cite_evidence P E i signer out evidence m s0) (\<lambda>s.
     andThen (assert_not_disputed i s) (\<lambda>_.
     if terminal i s then Inl (Err RsAlreadyFinalized)
     else if has_attested i out signer s then Inl (Err RsAlreadyAttested)
     else
     let s1 = mark_attested i signer out epoch s in
     andThen (attestation_count i out s1) (\<lambda>before.
     andThen (add_u32 before 1) (\<lambda>n.
     let s2 = rs_publish (EvAttested i signer out evidence n) (save_attestation_count i out n s1) in
     andThen (if epoch \<noteq> None then has_quorum auth i out s2 else Inr (threshold \<le> n)) (\<lambda>quorum.
       Inr (if quorum \<and> may_propose i out s2 then rs_propose E i out s2 else s2)))))))))"

definition attest :: "'w rs_peers \<Rightarrow> env \<Rightarrow> nat \<Rightarrow> address \<Rightarrow> attested_outcome \<Rightarrow> 'w rs \<Rightarrow> 'w rs rs_res" where
  "attest P E i signer out s =
     andThen (require_auth E signer) (\<lambda>_. record_attestation P E i signer out None s)"

definition attest_with_evidence ::
    "'w rs_peers \<Rightarrow> env \<Rightarrow> nat \<Rightarrow> address \<Rightarrow> attested_outcome \<Rightarrow> nat \<Rightarrow> 'w rs \<Rightarrow> 'w rs rs_res" where
  "attest_with_evidence P E i signer out trace_id s =
     andThen (require_auth E signer) (\<lambda>_. record_attestation P E i signer out (Some trace_id) s)"

text \<open>The loop over the signatures: keys outside the committee and keys that signed this round are
  skipped, an invalid signature aborts.\<close>

fun count_signatures ::
    "'w rs_peers \<Rightarrow> weighted_key_config \<Rightarrow> nat \<Rightarrow> nat \<Rightarrow> outcome \<Rightarrow> nat list \<Rightarrow> (bytesN \<times> bytesN) list
      \<Rightarrow> nat \<Rightarrow> 'w rs \<Rightarrow> (nat \<times> 'w rs) rs_res" where
  "count_signatures P cfg i r out message [] weight s = Inr (weight, s)"
| "count_signatures P cfg i r out message ((pubkey, signature) # sigs) weight s =
     (case weight_of (wc_signers cfg) pubkey of
        None \<Rightarrow> count_signatures P cfg i r out message sigs weight s
      | Some key_weight \<Rightarrow>
          if vo_sig_seen (rs_votes s) i r pubkey \<noteq> None
          then count_signatures P cfg i r out message sigs weight s
          else if \<not> rp_verify P pubkey message signature then Inl Trap
          else
          andThen (add_u32 weight key_weight) (\<lambda>weight'.
            count_signatures P cfg i r out message sigs weight'
              (upd_votes (\<lambda>v. v\<lparr>vo_sig_seen := (vo_sig_seen v)(i := (vo_sig_seen v i)
                 (r := (vo_sig_seen v i r)(pubkey \<mapsto> out)))\<rparr>) s)))"

definition submit_signatures ::
    "'w rs_peers \<Rightarrow> env \<Rightarrow> nat \<Rightarrow> outcome \<Rightarrow> nat \<Rightarrow> (bytesN \<times> bytesN) list \<Rightarrow> 'w rs \<Rightarrow> 'w rs rs_res" where
  "submit_signatures P E i out r sigs s =
     andThen (ok_or RsMarketNotConfigured (ru_weighted (rs_rules s) i)) (\<lambda>cfg.
     if terminal i s then Inl (Err RsAlreadyFinalized)
     else if MAX_SIGS_PER_CALL < length sigs then Inl (Err RsTooManySignatures)
     else if r \<noteq> round_of i s then Inl (Err RsStaleRound)
     else
     andThen (load_market_of P i s) (\<lambda>m.
     if e_now E < mk_close_time m then Inl (Err RsMarketNotClosed)
     else
     let message = attestation_message P E i r out (mk_resolution_hash m);
         before = round_weight i r out s in
     andThen (count_signatures P cfg i r out message sigs before s) (\<lambda>(weight, s1).
     if weight = before then Inr s1
     else
     let s2 = upd_votes (\<lambda>v. v\<lparr>vo_weight := (vo_weight v)(i := (vo_weight v i)
                (r := (vo_weight v i r)(out \<mapsto> weight)))\<rparr>) s1 in
       Inr (if before < wc_weight_threshold cfg \<and> wc_weight_threshold cfg \<le> weight \<and> \<not> has_proposal i s2
            then rs_propose E i (from_market out) s2 else s2))))"

definition current_round :: "nat \<Rightarrow> 'w rs \<Rightarrow> nat" where
  "current_round i s = round_of i s"

section \<open>Finalization\<close>

definition finalize_signers :: "'w rs_peers \<Rightarrow> env \<Rightarrow> nat \<Rightarrow> 'w rs \<Rightarrow> (attested_outcome \<times> 'w rs) rs_res" where
  "finalize_signers P E i s =
     andThen (assert_not_disputed i s) (\<lambda>_.
     andThen (signer_authority_of i s) (\<lambda>auth.
     andThen (ok_or RsNoProposal (load_proposal i s)) (\<lambda>p.
     andThen (add_u64 (sv_proposed_at p) (dispute_window_of auth)) (\<lambda>opens.
     if e_now E < opens then Inl (Err RsDisputeWindowOpen)
     else
     andThen (has_quorum auth i (sv_outcome p) s) (\<lambda>quorum.
     if \<not> quorum then Inl (Err RsThresholdNotReached)
     else
     andThen (load_core s) (\<lambda>core.
     andThen (case to_market (sv_outcome p) of
         Some out \<Rightarrow> call_resolve P E core i out s
       | None \<Rightarrow>
           andThen (call_void P E core i s) (\<lambda>s1.
           andThen (attestation_count i AttInvalid s1) (\<lambda>n.
             Inr (rs_publish (EvCommitteeVoided i (e_now E) n) s1)))) (\<lambda>s1.
     let s2 = set_state i Finalized s1 in
     andThen (market_close_time P i s2) (\<lambda>_.
       Inr (sv_outcome p, rs_publish (EvResolutionFinalizedV2 i (sv_outcome p) (e_now E)) s2)))))))))"

section \<open>Disputes\<close>

definition dispute :: "'w rs_peers \<Rightarrow> env \<Rightarrow> nat \<Rightarrow> address \<Rightarrow> outcome option \<Rightarrow> 'w rs \<Rightarrow> 'w rs rs_res" where
  "dispute P E i disputer alternative s =
     andThen (require_auth E disputer) (\<lambda>_.
     andThen (ok_or RsMarketNotConfigured (ru_disputable (rs_rules s) i)) (\<lambda>cfg.
     andThen (assert_not_disputed i s) (\<lambda>_.
     if terminal i s then Inl (Err RsAlreadyFinalized)
     else
     andThen (ok_or RsNoProposal (load_proposal i s)) (\<lambda>p.
     if sat_add_u64 (sv_proposed_at p) (dc_dispute_window cfg) \<le> e_now E
     then Inl (Err RsDisputeWindowClosed)
     else if (case alternative of None \<Rightarrow> AttInvalid | Some out \<Rightarrow> from_market out) = sv_outcome p
     then Inl (Err RsInvalidConfig)
     else
     andThen (load_core s) (\<lambda>core.
     andThen (rs_core_call P (rp_collateral P core (rs_world s))) (\<lambda>tok.
     andThen (unwrap (rp_transfer P E tok disputer (e_self E) (dc_dispute_bond cfg) (rs_world s))) (\<lambda>w.
       Inr (rs_publish (EvDisputed i disputer (dc_dispute_bond cfg) alternative)
         (set_state i Disputed
           (save_dispute i \<lparr>di_disputer = disputer, di_bond = dc_dispute_bond cfg, di_token = tok,
                            di_opened_at = e_now E, di_payee = None\<rparr> (s\<lparr>rs_world := w\<rparr>)))))))))))"

fun verdict_outcome :: "verdict \<Rightarrow> attested_outcome" where
  "verdict_outcome VerdictYes = AttYes"
| "verdict_outcome VerdictNo = AttNo"
| "verdict_outcome VerdictInvalid = AttInvalid"

definition apply_verdict :: "'w rs_peers \<Rightarrow> env \<Rightarrow> nat \<Rightarrow> verdict \<Rightarrow> 'w rs \<Rightarrow> 'w rs rs_res" where
  "apply_verdict P E i verdict s =
     andThen (open_dispute i s) (\<lambda>d.
     andThen (ok_or RsMarketNotConfigured (load_proposal i s)) (\<lambda>p.
     andThen (load_core s) (\<lambda>core.
     let upheld = (sv_outcome p = verdict_outcome verdict) in
     andThen (case verdict of
         VerdictYes \<Rightarrow> call_resolve P E core i Yes s
       | VerdictNo \<Rightarrow> call_resolve P E core i No s
       | VerdictInvalid \<Rightarrow> call_void P E core i s) (\<lambda>s1.
     andThen (if upheld then rs_core_call P (rp_treasury P core (rs_world s1)) else Inr (di_disputer d)) (\<lambda>payee.
       Inr (rs_publish (EvDisputeSettled i verdict (\<not> upheld) (di_bond d))
         (set_state i Finalized (save_dispute i (d\<lparr>di_payee := Some payee\<rparr>) s1))))))))"

definition settle_dispute :: "'w rs_peers \<Rightarrow> env \<Rightarrow> nat \<Rightarrow> verdict \<Rightarrow> 'w rs \<Rightarrow> 'w rs rs_res" where
  "settle_dispute P E i verdict s =
     andThen (ok_or RsMarketNotConfigured (ru_disputable (rs_rules s) i)) (\<lambda>cfg.
     if dc_escalation cfg \<noteq> Guardian then Inl (Err RsWrongMode)
     else
     andThen (rs_require_admin E s) (\<lambda>_. apply_verdict P E i verdict s))"

definition escalation_attest :: "'w rs_peers \<Rightarrow> env \<Rightarrow> nat \<Rightarrow> address \<Rightarrow> verdict \<Rightarrow> 'w rs \<Rightarrow> 'w rs rs_res" where
  "escalation_attest P E i member verdict s =
     andThen (require_auth E member) (\<lambda>_.
     andThen (ok_or RsMarketNotConfigured (ru_disputable (rs_rules s) i)) (\<lambda>cfg.
     (case dc_escalation cfg of
        Guardian \<Rightarrow> Inl (Err RsWrongMode)
      | CommitteeEscalation members k \<Rightarrow>
          if \<not> List.member members member then Inl (Err RsNotSigner)
          else
          andThen (open_dispute i s) (\<lambda>_.
          if dp_voted (rs_disputes s) i member then Inl (Err RsAlreadyAttested)
          else
          let votes = (case dp_votes (rs_disputes s) i verdict of None \<Rightarrow> 0 | Some n \<Rightarrow> n) in
          andThen (add_u32 votes 1) (\<lambda>n.
          let s1 = s\<lparr>rs_disputes := (rs_disputes s)
                \<lparr>dp_voted := (dp_voted (rs_disputes s))(i := (dp_voted (rs_disputes s) i)(member := True)),
                 dp_votes := (dp_votes (rs_disputes s))(i := (dp_votes (rs_disputes s) i)(verdict \<mapsto> n))\<rparr>\<rparr> in
          if k \<le> n then apply_verdict P E i verdict s1 else Inr s1)))))"

definition expire_dispute :: "'w rs_peers \<Rightarrow> env \<Rightarrow> nat \<Rightarrow> 'w rs \<Rightarrow> 'w rs rs_res" where
  "expire_dispute P E i s =
     andThen (ok_or RsMarketNotConfigured (ru_disputable (rs_rules s) i)) (\<lambda>cfg.
     andThen (open_dispute i s) (\<lambda>d.
     if e_now E < sat_add_u64 (di_opened_at d) (dc_escalation_timeout cfg) then Inl (Err RsDeadlineNotReached)
     else
     andThen (load_core s) (\<lambda>core.
     andThen (call_void P E core i s) (\<lambda>s1.
       Inr (rs_publish (EvDisputeSettled i VerdictInvalid False (di_bond d))
         (set_state i Finalized (refund_open_dispute i s1)))))))"

definition claim_dispute_bond :: "'w rs_peers \<Rightarrow> env \<Rightarrow> nat \<Rightarrow> 'w rs \<Rightarrow> 'w rs rs_res" where
  "claim_dispute_bond P E i s =
     andThen (ok_or RsNoDispute (dp_dispute (rs_disputes s) i)) (\<lambda>d.
     andThen (ok_or RsDisputeActive (di_payee d)) (\<lambda>payee.
     let s1 = s\<lparr>rs_disputes := (rs_disputes s)
                  \<lparr>dp_dispute := (dp_dispute (rs_disputes s))(i := None)\<rparr>\<rparr> in
     andThen (unwrap (rp_transfer P E (di_token d) (e_self E) payee (di_bond d) (rs_world s1))) (\<lambda>w.
       Inr (s1\<lparr>rs_world := w\<rparr>))))"

definition rs_state_view :: "nat \<Rightarrow> 'w rs \<Rightarrow> resolution_state" where
  "rs_state_view i s = resolution_state_of i s"

end
