(* ===== verification/ResolverCalls.thy ===== *)
theory ResolverCalls
  imports ResolverOps
begin

text \<open>
  The resolver as a transition system. \<open>rs_call\<close> is a call of a state-changing entry point of
  \<^verbatim>\<open>contracts/resolver/src/lib.rs\<close> (or a step of the rest of the world), \<open>rs_exec\<close> runs it, and
  \<open>rs_step\<close> says in a dozen kinds of steps what a call can do to the rules, votes, disputes, states
  and to market-core; everything else a call changes is left open by \<open>keeps\<close>.
\<close>

section \<open>Calls\<close>

datatype 'w rs_call =
  RsAcceptCoreRole
| RsProposeAdmin address
| RsAcceptAdmin
| RsCancelAdmin
| RsRegisterPrice nat price_config
| RsRegisterScaled nat scaled_price_config
| RsRegisterTwap nat twap_config
| RsRegisterSigners nat signer_config
| RsRegisterDisputable nat disputable_signer_config
| RsRegisterWeighted nat weighted_key_config
| RsRegisterV2 nat resolution_spec_v2
| RsRegisterCommittee nat committee_ref
| RsRegisterHybrid nat hybrid_config
| RsCreateCommittee address "address list" nat nat
| RsProposeRotation nat "address list" nat
| RsExecuteRotation nat
| RsCancelRotation nat
| RsOpenFallback nat
| RsSetEvidence address evidence_policy
| RsCancelProposal nat guardian_reason
| RsGuardianVoid nat guardian_reason
| RsResolveTwap nat
| RsResolvePrice nat
| RsSnapshot nat address
| RsExpire nat
| RsAttest nat address attested_outcome "nat option"
| RsSubmit nat outcome nat "(bytesN \<times> bytesN) list"
| RsFinalize nat
| RsDispute nat address "outcome option"
| RsSettleDispute nat verdict
| RsEscalate nat address verdict
| RsExpireDispute nat
| RsClaimBond nat
| RsOutside 'w

definition drop_value :: "('a \<times> 's) rs_res \<Rightarrow> 's rs_res" where
  "drop_value r = andThen r (\<lambda>(x, s). Inr s)"

lemma drop_value_eq [res_simps]: "drop_value r = Inr s \<longleftrightarrow> (\<exists>x. r = Inr (x, s))"
  by (auto simp: drop_value_def res_simps)

fun rs_exec :: "'w rs_peers \<Rightarrow> env \<Rightarrow> 'w rs_call \<Rightarrow> 'w rs \<Rightarrow> 'w rs rs_res" where
  "rs_exec P E RsAcceptCoreRole s = accept_market_core_role P E s"
| "rs_exec P E (RsProposeAdmin a) s = rs_propose_admin E a s"
| "rs_exec P E RsAcceptAdmin s = rs_accept_admin E s"
| "rs_exec P E RsCancelAdmin s = rs_cancel_admin_transfer E s"
| "rs_exec P E (RsRegisterPrice i r) s = register_price_spec P i r s"
| "rs_exec P E (RsRegisterScaled i r) s = register_scaled_price_spec P i r s"
| "rs_exec P E (RsRegisterTwap i r) s = register_twap_spec P i r s"
| "rs_exec P E (RsRegisterSigners i r) s = register_signer_spec P i r s"
| "rs_exec P E (RsRegisterDisputable i r) s = register_disputable_spec P i r s"
| "rs_exec P E (RsRegisterWeighted i r) s = register_weighted_key_spec P i r s"
| "rs_exec P E (RsRegisterV2 i r) s = register_spec_v2 P i r s"
| "rs_exec P E (RsRegisterCommittee i r) s = register_committee_spec P i r s"
| "rs_exec P E (RsRegisterHybrid i r) s = register_hybrid_spec P i r s"
| "rs_exec P E (RsCreateCommittee a ms k d) s = drop_value (create_committee a ms k d s)"
| "rs_exec P E (RsProposeRotation c ms k) s = drop_value (propose_rotation E c ms k s)"
| "rs_exec P E (RsExecuteRotation c) s = drop_value (execute_rotation E c s)"
| "rs_exec P E (RsCancelRotation c) s = cancel_rotation E c s"
| "rs_exec P E (RsOpenFallback i) s = open_fallback P E i s"
| "rs_exec P E (RsSetEvidence a p) s = set_evidence_config E a p s"
| "rs_exec P E (RsCancelProposal i g) s = cancel_proposal P E i g s"
| "rs_exec P E (RsGuardianVoid i g) s = guardian_void_market P E i g s"
| "rs_exec P E (RsResolveTwap i) s = drop_value (resolve_twap P E i s)"
| "rs_exec P E (RsResolvePrice i) s = drop_value (resolve_price P E i s)"
| "rs_exec P E (RsSnapshot i a) s = drop_value (snapshot_price P E i a s)"
| "rs_exec P E (RsExpire i) s = expire_market P E i s"
| "rs_exec P E (RsAttest i a out ev) s =
     (case ev of None \<Rightarrow> attest P E i a out s | Some k \<Rightarrow> attest_with_evidence P E i a out k s)"
| "rs_exec P E (RsSubmit i out r sigs) s = submit_signatures P E i out r sigs s"
| "rs_exec P E (RsFinalize i) s = drop_value (finalize_signers P E i s)"
| "rs_exec P E (RsDispute i a alt) s = dispute P E i a alt s"
| "rs_exec P E (RsSettleDispute i v) s = settle_dispute P E i v s"
| "rs_exec P E (RsEscalate i a v) s = escalation_attest P E i a v s"
| "rs_exec P E (RsExpireDispute i) s = expire_dispute P E i s"
| "rs_exec P E (RsClaimBond i) s = claim_dispute_bond P E i s"
| "rs_exec P E (RsOutside w) s = Inr (s\<lparr>rs_world := w\<rparr>)"

section \<open>Revealed rules\<close>

datatype committed_rule = SpecRule resolution_spec | ScaledRule scaled_price_config | TwapRule twap_config

fun put_committed :: "nat \<Rightarrow> committed_rule \<Rightarrow> rules_state \<Rightarrow> rules_state" where
  "put_committed i (SpecRule r) ru = put_rule i r ru"
| "put_committed i (ScaledRule c) ru = ru\<lparr>ru_scaled := (ru_scaled ru)(i \<mapsto> c)\<rparr>"
| "put_committed i (TwapRule c) ru = ru\<lparr>ru_twap := (ru_twap ru)(i \<mapsto> c)\<rparr>"

fun committed_state :: "committed_rule \<Rightarrow> resolution_state" where
  "committed_state (SpecRule r) = rule_state r"
| "committed_state _ = Unconfigured"

text \<open>The hash of a market commits to a rule directly or, in the second version, with a salt and bound
  to the network and to market-core.\<close>

fun commits :: "'w rs_peers \<Rightarrow> address \<Rightarrow> committed_rule \<Rightarrow> bytesN \<Rightarrow> bool" where
  "commits P core (SpecRule r) h \<longleftrightarrow> h = legacy_spec_hash P r
     \<or> (\<exists>spec. v2_rule spec = r \<and> v2_network_id spec = rp_network_id P \<and> v2_market_core spec = core
          \<and> h = spec_v2_hash P spec)"
| "commits P core (ScaledRule c) h \<longleftrightarrow> h = scaled_spec_hash P c"
| "commits P core (TwapRule c) h \<longleftrightarrow> h = twap_spec_hash P c"

text \<open>All rules stored for a market.\<close>

fun opt_list :: "('a \<Rightarrow> 'b) \<Rightarrow> 'a option \<Rightarrow> 'b list" where
  "opt_list f None = []"
| "opt_list f (Some x) = [f x]"

definition rules_of :: "nat \<Rightarrow> rules_state \<Rightarrow> committed_rule list" where
  "rules_of i ru =
     opt_list (SpecRule \<circ> Price) (ru_price ru i) @ opt_list ScaledRule (ru_scaled ru i)
     @ opt_list TwapRule (ru_twap ru i) @ opt_list (SpecRule \<circ> Signers) (ru_signers ru i)
     @ opt_list (SpecRule \<circ> WeightedKeys) (ru_weighted ru i)
     @ opt_list (SpecRule \<circ> SignersDisputable) (ru_disputable ru i)
     @ opt_list (SpecRule \<circ> Committee) (ru_committee ru i) @ opt_list (SpecRule \<circ> Hybrid) (ru_hybrid ru i)"

lemma opt_list_Nil [simp]: "opt_list f x = [] \<longleftrightarrow> x = None"
  by (cases x) auto

lemma configured_eq: "configured i s \<longleftrightarrow> rules_of i (rs_rules s) \<noteq> []"
  by (auto simp: configured_def has_price_rule_def rules_of_def)

lemma rules_of_put:
  "rules_of j ru = [] \<Longrightarrow> rules_of j (put_committed j r ru) = [r]"
  "i \<noteq> j \<Longrightarrow> rules_of i (put_committed j r ru) = rules_of i ru"
  by (cases r; cases "case r of SpecRule x \<Rightarrow> x | _ \<Rightarrow> Price undefined"; simp add: rules_of_def)+

section \<open>Steps\<close>

text \<open>A committee, and a committee about to take over, has no member twice.\<close>

definition committees_ok :: "committees_state \<Rightarrow> bool" where
  "committees_ok c \<longleftrightarrow> (\<forall>k x. co_committee c k = Some x \<longrightarrow> distinct (cm_members x))
     \<and> (\<forall>k x. co_rotation c k = Some x \<longrightarrow> distinct (ro_members x))"

definition keeps :: "'w rs \<Rightarrow> 'w rs \<Rightarrow> bool" where
  "keeps s s' \<longleftrightarrow> rs_market_core s' = rs_market_core s \<and> rs_rules s' = rs_rules s \<and> rs_votes s' = rs_votes s
     \<and> dp_dispute (rs_disputes s') = dp_dispute (rs_disputes s) \<and> rs_states s' = rs_states s
     \<and> rs_world s' = rs_world s \<and> (committees_ok (rs_committees s) \<longrightarrow> committees_ok (rs_committees s'))"

definition closed :: "'w rs_peers \<Rightarrow> env \<Rightarrow> nat \<Rightarrow> 'w rs \<Rightarrow> bool" where
  "closed P E i s \<longleftrightarrow> (\<exists>m. load_market_of P i s = Inr m \<and> mk_close_time m \<le> e_now E)"

definition without_dispute :: "nat \<Rightarrow> 'w rs \<Rightarrow> 'w rs" where
  "without_dispute i s = s\<lparr>rs_disputes := (rs_disputes s)\<lparr>dp_dispute := (dp_dispute (rs_disputes s))(i := None)\<rparr>\<rparr>"

text \<open>What a settlement leaves of the market's dispute: nothing open, with the bond assigned.\<close>

inductive dispute_left :: "nat \<Rightarrow> 'w rs \<Rightarrow> 'w rs \<Rightarrow> bool" for i s where
  dl_same: "resolution_state_of i s \<noteq> Disputed \<or> has_price_rule i s \<or> ru_hybrid (rs_rules s) i \<noteq> None
    \<Longrightarrow> dispute_left i s s"
| dl_none: "dp_dispute (rs_disputes s) i = None \<Longrightarrow> dispute_left i s s"
| dl_paid: "dp_dispute (rs_disputes s) i = Some d \<Longrightarrow> di_payee d \<noteq> None \<Longrightarrow> dispute_left i s s"
| dl_assigned: "dp_dispute (rs_disputes s) i = Some d \<Longrightarrow> di_payee d = None
    \<Longrightarrow> dispute_left i s (save_dispute i (d\<lparr>di_payee := Some p\<rparr>) s)"

inductive rs_step :: "'w rs_peers \<Rightarrow> env \<Rightarrow> 'w rs \<Rightarrow> 'w rs \<Rightarrow> bool" for P E s where
  rs_kept: "keeps s s' \<Longrightarrow> rs_step P E s s'"
| rs_role: "rs_market_core s = Some core \<Longrightarrow> rp_accept_resolver P E core (rs_world s) = Some w
    \<Longrightarrow> keeps (s\<lparr>rs_world := w\<rparr>) s' \<Longrightarrow> rs_step P E s s'"
| rs_stored: "assert_unconfigured i s = Inr () \<Longrightarrow> rs_market_core s = Some core \<Longrightarrow> load_market_of P i s = Inr m
    \<Longrightarrow> commits P core r (mk_resolution_hash m)
    \<Longrightarrow> keeps (set_state i (committed_state r) (upd_rules (put_committed i r) s)) s' \<Longrightarrow> rs_step P E s s'"
| rs_voted: "signer_authority_of i s = Inr auth \<Longrightarrow> attest_rights auth i signer s = Inr rights
    \<Longrightarrow> closed P E i s \<Longrightarrow> resolution_state_of i s \<noteq> Disputed \<Longrightarrow> \<not> terminal i s \<Longrightarrow> e_auth E signer
    \<Longrightarrow> \<not> has_attested i out signer s \<Longrightarrow> attestation_count i out s = Inr n
    \<Longrightarrow> u = save_attestation_count i out (n + 1) (mark_attested i signer out epoch s)
    \<Longrightarrow> keeps u s' \<or> keeps (rs_propose E i out u) s' \<Longrightarrow> rs_step P E s s'"
| rs_signed: "ru_weighted (rs_rules s) i = Some cfg \<Longrightarrow> \<not> terminal i s \<Longrightarrow> closed P E i s \<Longrightarrow> r = round_of i s
    \<Longrightarrow> load_market_of P i s = Inr m \<Longrightarrow> msg = attestation_message P E i r out (mk_resolution_hash m)
    \<Longrightarrow> count_signatures P cfg i r out msg sigs (round_weight i r out s) s = Inr (weight, t)
    \<Longrightarrow> u = upd_votes (\<lambda>v. v\<lparr>vo_weight := (vo_weight v)(i := (vo_weight v i)(r := (vo_weight v i r)(out \<mapsto> weight)))\<rparr>) t
    \<Longrightarrow> keeps t s' \<and> weight = round_weight i r out s \<or> keeps u s' \<or> keeps (rs_propose E i (from_market out) u) s'
    \<Longrightarrow> rs_step P E s s'"
| rs_cancelled: "resolution_state_of i s \<noteq> Disputed \<Longrightarrow> round_of i s \<le> (case k of None \<Rightarrow> 0 | Some r \<Rightarrow> r)
    \<Longrightarrow> keeps (upd_votes (\<lambda>v. v\<lparr>vo_round := (vo_round v)(i := k)\<rparr>) (remove_proposal i s)) s' \<Longrightarrow> rs_step P E s s'"
| rs_fallback: "ru_hybrid (rs_rules s) i = Some cfg \<Longrightarrow> \<not> terminal i s \<Longrightarrow> closed P E i s
    \<Longrightarrow> keeps (set_state i HybridFallbackOpen s) s' \<Longrightarrow> rs_step P E s s'"
| rs_settled: "rs_market_core s = Some core \<Longrightarrow> is_terminal st
    \<Longrightarrow> (\<exists>out. rp_resolve P E core i out (rs_world s) = Inr w) \<or> rp_void P E core i (rs_world s) = Inr w
    \<Longrightarrow> closed P E i s \<or> has_proposal i s \<or> dp_dispute (rs_disputes s) i \<noteq> None
    \<Longrightarrow> dispute_left i s t \<Longrightarrow> u = set_state i st (t\<lparr>rs_world := w\<rparr>)
    \<Longrightarrow> keeps u s' \<or> keeps (remove_proposal i u) s' \<Longrightarrow> rs_step P E s s'"
| rs_disputed: "ru_disputable (rs_rules s) i = Some cfg \<Longrightarrow> resolution_state_of i s \<noteq> Disputed \<Longrightarrow> \<not> terminal i s
    \<Longrightarrow> has_proposal i s \<Longrightarrow> e_auth E a
    \<Longrightarrow> rp_transfer P E tok a (e_self E) (dc_dispute_bond cfg) (rs_world s) = Some w
    \<Longrightarrow> keeps (set_state i Disputed (save_dispute i \<lparr>di_disputer = a, di_bond = dc_dispute_bond cfg, di_token = tok,
          di_opened_at = e_now E, di_payee = None\<rparr> (s\<lparr>rs_world := w\<rparr>))) s' \<Longrightarrow> rs_step P E s s'"
| rs_claimed: "dp_dispute (rs_disputes s) i = Some d \<Longrightarrow> di_payee d = Some p
    \<Longrightarrow> rp_transfer P E (di_token d) (e_self E) p (di_bond d) (rs_world s) = Some w
    \<Longrightarrow> keeps ((without_dispute i s)\<lparr>rs_world := w\<rparr>) s' \<Longrightarrow> rs_step P E s s'"

end
