(* ===== verification/ResolverFacts.thy ===== *)
theory ResolverFacts
  imports ResolverCalls
begin

text \<open>
  Every call of the resolver is one of the steps of \<open>rs_step\<close>: one lemma per entry point, and
  \<open>rs_exec_step\<close> for all of them.
\<close>

lemmas rs_simps = res_simps int_ops rs_require_admin_def

lemma keeps_refl [simp]: "keeps s s"
  by (simp add: keeps_def)

lemma keeps_trans: "keeps s t \<Longrightarrow> keeps t u \<Longrightarrow> keeps s u"
  by (simp add: keeps_def)

lemma keeps_publish [simp]: "keeps s (rs_publish ev t) \<longleftrightarrow> keeps s t" "keeps (rs_publish ev s) t \<longleftrightarrow> keeps s t"
  by (simp_all add: keeps_def rs_publish_def)

lemma load_core_eq [res_simps]: "load_core s = Inr c \<longleftrightarrow> rs_market_core s = Some c"
  by (simp add: load_core_def res_simps)

lemma assert_not_disputed_eq [res_simps]: "assert_not_disputed i s = Inr u \<longleftrightarrow> resolution_state_of i s \<noteq> Disputed"
  by (simp add: assert_not_disputed_def)

lemma open_dispute_eq [res_simps]:
  "open_dispute i s = Inr d \<longleftrightarrow> dp_dispute (rs_disputes s) i = Some d \<and> di_payee d = None"
  by (auto simp: open_dispute_def res_simps)

section \<open>Calls that settle nothing\<close>

lemma admin_step:
  "rs_propose_admin E a s = Inr s' \<Longrightarrow> keeps s s'"
  "rs_accept_admin E s = Inr s' \<Longrightarrow> keeps s s'"
  "rs_cancel_admin_transfer E s = Inr s' \<Longrightarrow> keeps s s'"
  "set_evidence_config E r p s = Inr s' \<Longrightarrow> keeps s s'"
  by (auto simp: rs_propose_admin_def rs_accept_admin_def rs_cancel_admin_transfer_def set_evidence_config_def
      rs_simps keeps_def rs_publish_def split: if_splits)

lemma committee_step:
  "create_committee a ms k d s = Inr (x, s') \<Longrightarrow> keeps s s'"
  "propose_rotation E c ms k s = Inr (x, s') \<Longrightarrow> keeps s s'"
  "execute_rotation E c s = Inr (x, s') \<Longrightarrow> keeps s s'"
  "cancel_rotation E c s = Inr s' \<Longrightarrow> keeps s s'"
  by (auto simp: create_committee_def propose_rotation_def execute_rotation_def cancel_rotation_def Let_def
      validate_committee_members_def committees_ok_def rs_simps keeps_def rs_publish_def upd_committees_def
      split: if_splits)

lemma snapshot_step: "snapshot_price P E i a s = Inr (x, s') \<Longrightarrow> keeps s s'"
  by (auto simp: snapshot_price_def rs_simps keeps_def rs_publish_def split: if_splits)

lemma role_step: "accept_market_core_role P E s = Inr s' \<Longrightarrow> rs_step P E s s'"
  by (auto simp: accept_market_core_role_def rs_market_core_view_def res_simps intro: rs_role)

section \<open>Reveals\<close>

lemma keeps_pin_policy [simp]: "keeps s (set_state i st (pin_policy i t)) \<longleftrightarrow> keeps s (set_state i st t)"
  by (simp add: keeps_def pin_policy_def set_state_def split: option.split)

lemma commitment_ok:
  "assert_matches_commitment P i h s = Inr c \<longleftrightarrow>
     (\<exists>m core. rs_market_core s = Some core \<and> load_market_of P i s = Inr m \<and> h = mk_resolution_hash m \<and> c = mk_close_time m)"
  by (auto simp: assert_matches_commitment_def load_market_of_def res_simps)

lemma reveal_step:
  assumes "reveal P i r h s = Inr s'" and "\<And>core. rs_market_core s = Some core \<Longrightarrow> commits P core (SpecRule r) h"
  shows "rs_step P E s s'"
proof -
  obtain m core where 1: "assert_unconfigured i s = Inr ()" "rs_market_core s = Some core"
      "load_market_of P i s = Inr m" "h = mk_resolution_hash m" "s' = store_rule i r s"
    using assms(1) by (auto simp: reveal_def res_simps commitment_ok)
  have "keeps (set_state i (committed_state (SpecRule r)) (upd_rules (put_committed i (SpecRule r)) s)) s'"
    unfolding 1 store_rule_def by (simp add: upd_rules_def)
  then show ?thesis using rs_stored [OF 1(1-3)] assms(2) [OF 1(2)] 1(4) by blast
qed

lemma register_step:
  "register_price_spec P i c s = Inr s' \<Longrightarrow> rs_step P E s s'"
  "register_signer_spec P i sc s = Inr s' \<Longrightarrow> rs_step P E s s'"
  "register_disputable_spec P i dc s = Inr s' \<Longrightarrow> rs_step P E s s'"
  "register_weighted_key_spec P i wc s = Inr s' \<Longrightarrow> rs_step P E s s'"
  "register_hybrid_spec P i hc s = Inr s' \<Longrightarrow> rs_step P E s s'"
  "register_spec_v2 P i spec s = Inr s' \<Longrightarrow> rs_step P E s s'"
  unfolding register_price_spec_def register_signer_spec_def register_disputable_spec_def
    register_weighted_key_spec_def register_hybrid_spec_def register_spec_v2_def
  by (auto simp: res_simps split: if_splits elim!: reveal_step)

lemma store_step:
  assumes "assert_unconfigured i s = Inr u" and "assert_matches_commitment P i h s = Inr c"
    and "\<And>core. commits P core r h"
    and "keeps (set_state i (committed_state r) (upd_rules (put_committed i r) s)) s'"
  shows "rs_step P E s s'"
proof -
  obtain m core where "rs_market_core s = Some core" "load_market_of P i s = Inr m" "h = mk_resolution_hash m"
    using assms(2) by (auto simp: commitment_ok)
  then show ?thesis using rs_stored [of i s core P m r s' E] assms(1,3,4) by auto
qed

lemma register_step_own:
  "register_scaled_price_spec P i c s = Inr s' \<Longrightarrow> rs_step P E s s'"
  "register_twap_spec P i tc s = Inr s' \<Longrightarrow> rs_step P E s s'"
  "register_committee_spec P i cc s = Inr s' \<Longrightarrow> rs_step P E s s'"
proof -
  assume "register_scaled_price_spec P i c s = Inr s'"
  then show "rs_step P E s s'"
    by (auto simp: register_scaled_price_spec_def res_simps
        intro!: store_step [where r = "ScaledRule c"] simp: store_scaled_rule_def upd_rules_def)
next
  assume "register_twap_spec P i tc s = Inr s'"
  then show "rs_step P E s s'"
    by (auto simp: register_twap_spec_def res_simps
        intro!: store_step [where r = "TwapRule tc"] simp: store_twap_rule_def upd_rules_def)
next
  assume "register_committee_spec P i cc s = Inr s'"
  then show "rs_step P E s s'"
    by (auto simp: register_committee_spec_def res_simps
        intro!: store_step [where r = "SpecRule (Committee cc)"] simp: store_rule_def upd_rules_def split: if_splits)
qed

section \<open>Votes\<close>

lemma keeps_votes:
  "keeps s t \<Longrightarrow> attestation_count i out t = attestation_count i out s"
  "keeps s t \<Longrightarrow> has_attested i out a t = has_attested i out a s"
  "keeps s t \<Longrightarrow> load_proposal i t = load_proposal i s"
  "keeps s t \<Longrightarrow> has_proposal i t = has_proposal i s"
  "keeps s t \<Longrightarrow> resolution_state_of i t = resolution_state_of i s"
  "keeps s t \<Longrightarrow> terminal i t = terminal i s"
  "keeps s t \<Longrightarrow> round_of i t = round_of i s"
  "keeps s t \<Longrightarrow> round_weight i r o' t = round_weight i r o' s"
  "keeps s t \<Longrightarrow> load_market_of P i t = load_market_of P i s"
  unfolding keeps_def attestation_count_def has_attested_def load_proposal_def has_proposal_def terminal_def
    resolution_state_of_def round_of_def round_weight_def load_market_of_def load_core_def
  by (simp_all cong: option.case_cong)

lemma keeps_upd_votes: "keeps s t \<Longrightarrow> keeps (upd_votes f s) (upd_votes f t)"
  by (simp add: keeps_def upd_votes_def)

lemma keeps_vote_ops:
  assumes "keeps s t"
  shows "keeps (mark_attested i a out ep s) (mark_attested i a out ep t)"
    and "keeps (save_attestation_count i out n s) (save_attestation_count i out n t)"
    and "keeps (rs_propose E i out s) (rs_propose E i out t)"
    and "keeps (remove_proposal i s) (remove_proposal i t)"
  using assms
  by (simp_all add: mark_attested_def save_attestation_count_def rs_propose_def remove_proposal_def keeps_upd_votes)

lemma marked_count [simp]: "attestation_count i out (mark_attested j a o' ep s) = attestation_count i out s"
  by (simp add: attestation_count_def mark_attested_def upd_votes_def Let_def split: option.split)

lemma cite_keeps: "cite_evidence P E i a out ev m s = Inr s' \<Longrightarrow> keeps s s'"
  by (auto simp: cite_evidence_def rs_simps keeps_def Let_def split: option.splits if_splits)

lemma record_step:
  assumes "record_attestation P E i a out ev s = Inr s'" and "e_auth E a"
  shows "rs_step P E s s'"
  using assms(1) unfolding record_attestation_def Let_def
proof (elim andThenE if_InlE, goal_cases)
  case (1 auth rights)
  obtain th ep where r: "rights = (th, ep)" by (cases rights)
  from 1(3) [unfolded r prod.case] show ?case
  proof (elim andThenE if_InlE, goal_cases)
    case (1 m t u b n q)
    note k = cite_keeps [OF 1(3)]
    let ?u = "save_attestation_count i out n (mark_attested i a out ep s)"
    let ?s2 = "rs_publish (EvAttested i a out ev n) (save_attestation_count i out n (mark_attested i a out ep t))"
    have u: "keeps ?u ?s2" by (simp add: keeps_vote_ops [OF keeps_vote_ops(1) [OF k]])
    have s': "s' = (if q \<and> may_propose i out ?s2 then rs_propose E i out ?s2 else ?s2)" using 1(10) by simp
    have "keeps ?u s' \<or> keeps (rs_propose E i out ?u) s'"
      unfolding s' using u keeps_vote_ops(3) [OF u, of E i out] by simp
    moreover have "closed P E i s" using 1(1,2) by (auto simp: closed_def)
    moreover have "attestation_count i out s = Inr b" "n = b + 1"
      using 1(7,8) keeps_votes(1) [OF k] by (auto simp: int_ops)
    ultimately show ?case
      using rs_voted [OF \<open>signer_authority_of i s = Inr auth\<close>, of a rights P E out b ?u ep s'] assms(2)
        \<open>attest_rights auth i a s = Inr rights\<close> 1(4-6) keeps_votes [OF k] by (simp add: res_simps)
  qed
qed

lemma attest_step:
  "attest P E i a out s = Inr s' \<Longrightarrow> rs_step P E s s'"
  "attest_with_evidence P E i a out k s = Inr s' \<Longrightarrow> rs_step P E s s'"
  by (auto simp: attest_def attest_with_evidence_def rs_simps intro: record_step)

lemma submit_step:
  assumes "submit_signatures P E i out r sigs s = Inr s'"
  shows "rs_step P E s s'"
  using assms unfolding submit_signatures_def Let_def
proof (elim andThenE if_InlE, goal_cases)
  case (1 cfg m wt)
  obtain weight t where wt: "wt = (weight, t)" by (cases wt)
  have "closed P E i s" using 1 by (auto simp: closed_def)
  then show ?case
    using 1 unfolding wt prod.case
    by (intro rs_signed [of s i cfg P E r m _ out sigs weight t]) (auto simp: res_simps split: if_splits)
qed

lemma cancel_step:
  assumes "cancel_proposal P E i g s = Inr s'"
  shows "rs_step P E s s'"
  using assms unfolding cancel_proposal_def Let_def
proof (elim andThenE if_InlE, goal_cases)
  case (1 _ _ p auth c n t)
  let ?k = "if ru_weighted (rs_rules s) i \<noteq> None then Some (round_of i s + 1) else vo_round (rs_votes s) i"
  have "keeps (upd_votes (\<lambda>v. v\<lparr>vo_round := (vo_round v)(i := ?k)\<rparr>) (remove_proposal i s)) s'"
    using 1 by (auto simp: rs_simps keeps_def upd_votes_def remove_proposal_def round_of_def rs_publish_def
        fun_upd_idem split: if_splits)
  then show ?case
    using 1 by (intro rs_cancelled [of i s ?k]) (auto simp: res_simps round_of_def split: option.splits)
qed

section \<open>Settlement\<close>

lemma call_market_eq [res_simps]:
  "call_resolve P E core i out s = Inr s' \<longleftrightarrow> (\<exists>w. rp_resolve P E core i out (rs_world s) = Inr w \<and> s' = s\<lparr>rs_world := w\<rparr>)"
  "call_void P E core i s = Inr s' \<longleftrightarrow> (\<exists>w. rp_void P E core i (rs_world s) = Inr w \<and> s' = s\<lparr>rs_world := w\<rparr>)"
  by (auto simp: call_resolve_def call_void_def res_simps)

lemma closedI: "load_market_of P i s = Inr m \<Longrightarrow> \<not> e_now E < mk_close_time m \<Longrightarrow> closed P E i s"
  by (auto simp: closed_def)

lemma closed_coreI:
  "rs_market_core s = Some core \<Longrightarrow> rp_get_market P core i (rs_world s) = Inr m \<Longrightarrow> \<not> e_now E < mk_close_time m
    \<Longrightarrow> closed P E i s"
  by (auto simp: closed_def load_market_of_def load_core_def)

lemma settle_price_ok:
  assumes "settle_price P E core i out d b s = Inr s'"
  shows "\<exists>w. rp_resolve P E core i out (rs_world s) = Inr w \<and> keeps (set_state i Finalized (s\<lparr>rs_world := w\<rparr>)) s'"
  using assms by (auto simp: settle_price_def res_simps Let_def)

text \<open>A settlement that does not touch the disputes.\<close>

lemma settle_step:
  assumes "rs_market_core s = Some core" and "is_terminal st"
    and "(\<exists>out. rp_resolve P E core i out (rs_world s) = Inr w) \<or> rp_void P E core i (rs_world s) = Inr w"
    and "closed P E i s \<or> has_proposal i s"
    and "resolution_state_of i s \<noteq> Disputed \<or> has_price_rule i s \<or> ru_hybrid (rs_rules s) i \<noteq> None"
    and "keeps (set_state i st (s\<lparr>rs_world := w\<rparr>)) s' \<or> keeps (remove_proposal i (set_state i st (s\<lparr>rs_world := w\<rparr>))) s'"
  shows "rs_step P E s s'"
  by (rule rs_settled [OF assms(1-3) _ dl_same [OF assms(5)] refl assms(6)]) (use assms(4) in blast)

lemma settle_price_step:
  assumes "settle_price P E core i out d b s = Inr t" and "rs_market_core s = Some core" and "closed P E i s"
    and "resolution_state_of i s \<noteq> Disputed \<or> has_price_rule i s \<or> ru_hybrid (rs_rules s) i \<noteq> None" and "keeps t s'"
  shows "rs_step P E s s'"
proof -
  obtain w where w: "rp_resolve P E core i out (rs_world s) = Inr w" "keeps (set_state i Finalized (s\<lparr>rs_world := w\<rparr>)) t"
    using settle_price_ok [OF assms(1)] by blast
  then show ?thesis
    using settle_step [OF assms(2) _ _ _ assms(4), of Finalized P E w s'] assms(3) keeps_trans [OF w(2) assms(5)] by auto
qed

lemma settle_config_step:
  "settle_twap P E core i tc s = Inr (x, s') \<Longrightarrow> rs_market_core s = Some core \<Longrightarrow> ru_twap (rs_rules s) i \<noteq> None
    \<Longrightarrow> rs_step P E s s'"
  "settle_scaled P E core i sc s = Inr (x, s') \<Longrightarrow> rs_market_core s = Some core \<Longrightarrow> ru_scaled (rs_rules s) i \<noteq> None
    \<Longrightarrow> rs_step P E s s'"
  unfolding settle_twap_def settle_scaled_def
  by (auto simp: res_simps has_price_rule_def split: if_splits
      elim!: settle_price_step intro: closed_coreI)

lemma resolve_twap_step: "resolve_twap P E i s = Inr (x, s') \<Longrightarrow> rs_step P E s s'"
  by (auto simp: resolve_twap_def res_simps split: option.splits if_splits intro: settle_config_step(1))

lemma supersede_eq: "keeps (if has_proposal i s then remove_proposal i s else s) (supersede i s)"
  by (auto simp: supersede_def load_proposal_def has_proposal_def split: option.splits)

lemma resolve_price_step:
  assumes "resolve_price P E i s = Inr (x, s')"
  shows "rs_step P E s s'"
proof (cases "ru_twap (rs_rules s) i")
  case (Some c)
  then show ?thesis using assms resolve_twap_step by (simp add: resolve_price_def)
next
  case None
  note no_twap = this
  show ?thesis
  proof (cases "ru_scaled (rs_rules s) i")
    case (Some c)
    then show ?thesis using assms no_twap settle_config_step(2)
      by (fastforce simp: resolve_price_def res_simps split: if_splits)
  next
    case None
    obtain cfg hybrid core m out d b t where 1:
      "(case ru_price (rs_rules s) i of Some cfg \<Rightarrow> Inr (cfg, False)
          | None \<Rightarrow> (case ru_hybrid (rs_rules s) i of Some h \<Rightarrow> Inr (hc_price h, True)
                     | None \<Rightarrow> Inl (Err RsWrongMode))) = Inr (cfg, hybrid)"
      "rs_market_core s = Some core" "load_market_of P i s = Inr m" "\<not> e_now E < mk_close_time m"
      "settle_price P E core i out d b (if hybrid then supersede i s else s) = Inr s'"
      using assms no_twap None unfolding resolve_price_def
      by (simp add: andThen_eq_Inr load_core_eq if_Inl_eq_Inr split_paired_Ex split del: if_split) blast
    have rule: "has_price_rule i s \<or> ru_hybrid (rs_rules s) i \<noteq> None"
      using 1(1) by (auto simp: has_price_rule_def split: option.splits)
    let ?t = "if hybrid \<and> has_proposal i s then remove_proposal i s else s"
    obtain w where w: "rp_resolve P E core i out (rs_world s) = Inr w"
        "keeps (set_state i Finalized ((if hybrid then supersede i s else s)\<lparr>rs_world := w\<rparr>)) s'"
      using settle_price_ok [OF 1(5)] supersede_eq [of i s]
      by (auto simp: keeps_def remove_proposal_def upd_votes_def split: if_splits)
    have "keeps (set_state i Finalized (?t\<lparr>rs_world := w\<rparr>)) s'"
      using w(2) supersede_eq [of i s] by (auto simp: keeps_def set_state_def split: if_splits)
    then have "keeps (set_state i Finalized (s\<lparr>rs_world := w\<rparr>)) s'
        \<or> keeps (remove_proposal i (set_state i Finalized (s\<lparr>rs_world := w\<rparr>))) s'"
      by (auto simp: keeps_def set_state_def remove_proposal_def upd_votes_def split: if_splits)
    then show ?thesis
      using settle_step [OF 1(2), of Finalized P E i w s'] w(1) closedI [of P i s m E] 1(3,4) rule by auto
  qed
qed

text \<open>Times are \<open>u64\<close> values, so a sum that saturates is never in the past.\<close>

lemma sat_add_passed: "\<not> e_now E < sat_add_u64 a b \<Longrightarrow> e_now E < u64_max \<Longrightarrow> \<not> e_now E < a"
  by (auto simp: sat_add_u64_def)

lemma fallback_step:
  assumes "open_fallback P E i s = Inr s'" and "e_now E < u64_max"
  shows "rs_step P E s s'"
  using assms(1) unfolding open_fallback_def
proof (elim andThenE if_InlE, goal_cases)
  case (1 cfg core m)
  then have closed: "closed P E i s" and core: "rs_market_core s = Some core" and cfg: "ru_hybrid (rs_rules s) i = Some cfg"
    by (auto simp: res_simps intro: closedI dest!: sat_add_passed [OF _ assms(2)])
  show ?case
  proof (cases "price_outcome P i (hc_price cfg) (mk_close_time m) s")
    case (Inr x)
    then show ?thesis using 1(6) settle_price_step [OF _ core closed _ keeps_refl] cfg
      by (cases x) auto
  next
    case (Inl e)
    then show ?thesis using 1(2,6) rs_fallback [OF cfg _ closed] by (cases e) auto
  qed
qed

text \<open>A settlement of a market whose dispute, if one is open, is refunded.\<close>

lemma refund_left: "dispute_left i s (refund_open_dispute i s)"
proof (cases "dp_dispute (rs_disputes s) i")
  case None
  then show ?thesis by (simp add: refund_open_dispute_def open_dispute_def dl_none)
next
  case (Some d)
  then show ?thesis
    by (cases "di_payee d = None")
      (simp_all add: refund_open_dispute_def open_dispute_def dl_paid dl_assigned)
qed

lemma void_step:
  assumes "rs_market_core s = Some core" and "is_terminal st" and "rp_void P E core i (rs_world s) = Inr w"
    and "closed P E i s \<or> has_proposal i s \<or> dp_dispute (rs_disputes s) i \<noteq> None"
    and "keeps (set_state i st (refund_open_dispute i (s\<lparr>rs_world := w\<rparr>))) s'"
  shows "rs_step P E s s'"
proof (rule rs_settled [OF assms(1,2) disjI2 [OF assms(3)] assms(4) refund_left refl disjI1])
  have "keeps (set_state i st ((refund_open_dispute i s)\<lparr>rs_world := w\<rparr>))
      (set_state i st (refund_open_dispute i (s\<lparr>rs_world := w\<rparr>)))"
    by (simp add: keeps_def set_state_def refund_open_dispute_def open_dispute_def save_dispute_def
        ok_or_def andThen_def split: option.split)
  then show "keeps (set_state i st ((refund_open_dispute i s)\<lparr>rs_world := w\<rparr>)) s'"
    using assms(5) by (rule keeps_trans)
qed

lemma guardian_may_due:
  assumes "guardian_may_void P E i g m s = Inr u" and "g \<noteq> DisputeUpheld \<longrightarrow> \<not> e_now E < mk_close_time m"
    and "load_market_of P i s = Inr m"
  shows "closed P E i s \<or> has_proposal i s"
proof (cases "g = DisputeUpheld")
  case True
  then have "load_proposal i s \<noteq> None" using assms(1) by (auto simp: guardian_may_void_def res_simps)
  then show ?thesis by (auto simp: load_proposal_def has_proposal_def split: option.splits)
next
  case False
  then show ?thesis using assms by (auto intro: closedI)
qed

lemma guardian_step:
  assumes "guardian_void_market P E i g s = Inr s'"
  shows "rs_step P E s s'"
  using assms unfolding guardian_void_market_def
proof (elim andThenE if_InlE, goal_cases)
  case (1 _ core m _ t)
  then obtain w where w: "rp_void P E core i (rs_world s) = Inr w" "t = s\<lparr>rs_world := w\<rparr>"
    by (auto simp: res_simps)
  have "closed P E i s \<or> has_proposal i s" by (rule guardian_may_due [OF 1(6) _ 1(4)]) (use 1(5) in blast)
  then show ?case using 1 w by (intro void_step [of s core Finalized P E i w s']) (auto simp: res_simps)
qed

lemma dispute_state: "resolution_state_of i s \<noteq> Disputed \<Longrightarrow> dispute_left i s s"
  by (simp add: dl_same)

lemma resolve_instead_step:
  assumes "resolve_instead P E core i m s = Inr (Some s')" and "rs_market_core s = Some core" and "closed P E i s"
  shows "rs_step P E s s'"
proof (cases "ru_twap (rs_rules s) i")
  case (Some tc)
  then obtain x where "settle_twap P E core i tc s = Inr (x, s')"
    using assms(1) by (cases "settle_twap P E core i tc s" rule: sum.exhaust)
      (auto simp: resolve_instead_def andThen_def split: sum.splits if_splits elim!: unless_unusable.elims)
  then show ?thesis using settle_config_step(1) [OF _ assms(2)] Some by blast
next
  case None
  note no_twap = this
  show ?thesis
  proof (cases "ru_scaled (rs_rules s) i")
    case (Some sc)
    then obtain x where "settle_scaled P E core i sc s = Inr (x, s')"
      using assms(1) no_twap by (cases "settle_scaled P E core i sc s" rule: sum.exhaust)
        (auto simp: resolve_instead_def andThen_def split: sum.splits if_splits elim!: unless_unusable.elims)
    then show ?thesis using settle_config_step(2) [OF _ assms(2)] Some by blast
  next
    case None
    then obtain cfg where cfg: "ru_price (rs_rules s) i = Some cfg"
      using assms(1) no_twap by (auto simp: resolve_instead_def res_simps)
    show ?thesis
    proof (cases "price_outcome P i cfg (mk_close_time m) s")
      case (Inl e)
      then show ?thesis using assms(1) no_twap None cfg
        by (cases e) (auto simp: resolve_instead_def split: if_splits)
    next
      case (Inr x)
      then show ?thesis using assms no_twap None cfg settle_price_step [OF _ assms(2,3) _ keeps_refl]
        by (cases x) (auto simp: resolve_instead_def res_simps has_price_rule_def)
    qed
  qed
qed

lemma expire_step:
  assumes "expire_market P E i s = Inr s'" and "e_now E < u64_max"
  shows "rs_step P E s s'"
  using assms(1) unfolding expire_market_def Let_def
proof (elim andThenE if_InlE, goal_cases)
  case (1 _ core m r)
  then have core: "rs_market_core s = Some core" and closed: "closed P E i s" and nd: "resolution_state_of i s \<noteq> Disputed"
    by (auto simp: res_simps deadline_of_def intro: closedI dest!: sat_add_passed [OF _ assms(2)])
  show ?case
  proof (cases r)
    case None
    then obtain w where "rp_void P E core i (rs_world s) = Inr w" "keeps (set_state i Expired (s\<lparr>rs_world := w\<rparr>)) s'"
      using 1(7) by (auto simp: res_simps)
    then show ?thesis using settle_step [OF core _ _ _ disjI1 [OF nd], of Expired P E w s'] closed by simp
  next
    case (Some t)
    then have "resolve_instead P E core i m s = Inr (Some s')"
      using 1(6,7) by (auto simp: res_simps split: expiry_mode.splits if_splits)
    then show ?thesis using resolve_instead_step core closed by blast
  qed
qed

lemma finalize_step:
  assumes "finalize_signers P E i s = Inr (x, s')"
  shows "rs_step P E s s'"
  using assms unfolding finalize_signers_def Let_def
proof (elim andThenE if_InlE, goal_cases)
  case (1 _ auth p opens q core t c)
  have pending: "has_proposal i s" using 1(3)
    by (auto simp: res_simps load_proposal_def has_proposal_def split: option.splits)
  obtain w where w: "(\<exists>out. rp_resolve P E core i out (rs_world s) = Inr w) \<or> rp_void P E core i (rs_world s) = Inr w"
      "keeps (s\<lparr>rs_world := w\<rparr>) t"
  proof (cases "to_market (sv_outcome p)")
    case None
    then obtain w where "rp_void P E core i (rs_world s) = Inr w" "keeps (s\<lparr>rs_world := w\<rparr>) t"
      using 1(9) by (auto simp: res_simps)
    then show ?thesis using that by blast
  next
    case (Some out)
    then obtain w where "rp_resolve P E core i out (rs_world s) = Inr w" "keeps (s\<lparr>rs_world := w\<rparr>) t"
      using 1(9) by (auto simp: res_simps)
    then show ?thesis using that by blast
  qed
  have "keeps (set_state i Finalized (s\<lparr>rs_world := w\<rparr>)) s'"
    using w(2) 1(11) by (auto simp: keeps_def set_state_def rs_publish_def)
  then show ?case
    using 1(1,8) settle_step [of s core Finalized P E i w s'] w(1) pending by (auto simp: res_simps)
qed

section \<open>Disputes\<close>

lemma dispute_step:
  assumes "dispute P E i a alt s = Inr s'"
  shows "rs_step P E s s'"
  using assms unfolding dispute_def
proof (elim andThenE if_InlE, goal_cases)
  case (1 _ cfg _ p core tok w)
  have pending: "has_proposal i s" using 1(5)
    by (auto simp: res_simps load_proposal_def has_proposal_def split: option.splits)
  show ?case
    using 1 pending by (intro rs_disputed [of s i cfg E a P tok w]) (auto simp: res_simps int_ops)
qed

lemma verdict_step:
  assumes "apply_verdict P E i v t = Inr s'" and "keeps s t"
  shows "rs_step P E s s'"
  using assms(1) unfolding apply_verdict_def Let_def
proof (elim andThenE if_InlE, goal_cases)
  case (1 d p core t1 payee)
  have same: "rs_world t = rs_world s" "dp_dispute (rs_disputes t) = dp_dispute (rs_disputes s)"
      "rs_market_core t = rs_market_core s"
    using assms(2) by (simp_all add: keeps_def)
  then have d: "dp_dispute (rs_disputes s) i = Some d" "di_payee d = None" and core: "rs_market_core s = Some core"
    using 1(1,3) by (auto simp: res_simps)
  obtain w where w: "(\<exists>out. rp_resolve P E core i out (rs_world s) = Inr w) \<or> rp_void P E core i (rs_world s) = Inr w"
      "t1 = t\<lparr>rs_world := w\<rparr>"
    using 1(4) same by (auto simp: res_simps split: verdict.splits)
  have "keeps (set_state i Finalized ((save_dispute i (d\<lparr>di_payee := Some payee\<rparr>) s)\<lparr>rs_world := w\<rparr>)) s'"
    using 1(6) w(2) assms(2) by (auto simp: keeps_def set_state_def save_dispute_def rs_publish_def)
  then show ?case
    by (intro rs_settled [OF core _ w(1) _ dl_assigned [OF d] refl, where st = Finalized]) (auto simp: d)
qed

lemma escalation_step:
  assumes "escalation_attest P E i a v s = Inr s'"
  shows "rs_step P E s s'"
  using assms unfolding escalation_attest_def Let_def
proof (elim andThenE if_InlE, goal_cases)
  case (1 _ cfg)
  then obtain members k where "dc_escalation cfg = CommitteeEscalation members k"
    by (cases "dc_escalation cfg") auto
  with 1(3) show ?case
    unfolding escalation.case
  proof (simp only: escalation.case, elim andThenE if_InlE, goal_cases)
    case (1 d n)
    then show ?case by (auto simp: keeps_def split: if_splits intro!: rs_kept elim!: verdict_step)
  qed
qed

lemma dispute_ends:
  "settle_dispute P E i v s = Inr s' \<Longrightarrow> rs_step P E s s'"
  "claim_dispute_bond P E i s = Inr s' \<Longrightarrow> rs_step P E s s'"
  "expire_dispute P E i s = Inr s' \<Longrightarrow> rs_step P E s s'"
proof -
  show "settle_dispute P E i v s = Inr s' \<Longrightarrow> rs_step P E s s'"
    by (auto simp: settle_dispute_def res_simps split: if_splits elim!: verdict_step)
next
  assume "claim_dispute_bond P E i s = Inr s'"
  then show "rs_step P E s s'"
    by (auto simp: claim_dispute_bond_def res_simps Let_def without_dispute_def intro!: rs_claimed)
next
  assume "expire_dispute P E i s = Inr s'"
  then obtain core d w where "rs_market_core s = Some core" "rp_void P E core i (rs_world s) = Inr w"
      "dp_dispute (rs_disputes s) i = Some d"
      "keeps (set_state i Finalized (refund_open_dispute i (s\<lparr>rs_world := w\<rparr>))) s'"
    by (auto simp: expire_dispute_def res_simps split: if_splits)
  then show "rs_step P E s s'" using void_step [of s core Finalized P E i w s'] by simp
qed

section \<open>All calls\<close>

lemma rs_exec_step:
  assumes "rs_exec P E c s = Inr s'" and "e_now E < u64_max" and "\<And>w. c \<noteq> RsOutside w"
  shows "rs_step P E s s'"
  using assms
  by (cases c)
    (auto simp: drop_value_eq split: option.splits
      intro: rs_kept role_step admin_step committee_step snapshot_step register_step register_step_own attest_step
        submit_step cancel_step resolve_twap_step resolve_price_step fallback_step guardian_step expire_step
        finalize_step dispute_step escalation_step dispute_ends)

end
