(* ===== verification/ResolverInv.thy ===== *)
theory ResolverInv
  imports ResolverFacts
begin

text \<open>
  What the resolver relies on market-core for, as a locale, and the invariant of its reachable states:
  every market has at most one rule, the committed one; nothing is pending before the close; a market
  in a terminal state is final in market-core; the counts are the numbers of attesting signers and
  the weights those of the keys that signed; a dispute is open exactly in the state \<open>Disputed\<close>.
\<close>

section \<open>Markets\<close>

definition closed_at :: "'w rs_peers \<Rightarrow> address \<Rightarrow> nat \<Rightarrow> nat \<Rightarrow> 'w \<Rightarrow> bool" where
  "closed_at P core i t w \<longleftrightarrow> (\<exists>m. rp_get_market P core i w = Inr m \<and> mk_close_time m \<le> t)"

definition final_at :: "'w rs_peers \<Rightarrow> address \<Rightarrow> nat \<Rightarrow> 'w \<Rightarrow> bool" where
  "final_at P core i w \<longleftrightarrow> (\<exists>m. rp_get_market P core i w = Inr m \<and> mk_status m \<noteq> Open)"

definition keeps_markets :: "'w rs_peers \<Rightarrow> address \<Rightarrow> 'w \<Rightarrow> 'w \<Rightarrow> bool" where
  "keeps_markets P core w w' \<longleftrightarrow> (\<forall>i m. rp_get_market P core i w = Inr m \<longrightarrow>
     (\<exists>m'. rp_get_market P core i w' = Inr m' \<and> mk_close_time m' = mk_close_time m
        \<and> mk_resolution_hash m' = mk_resolution_hash m \<and> (mk_status m \<noteq> Open \<longrightarrow> mk_status m' \<noteq> Open)))"

lemma keeps_markets_refl [simp]: "keeps_markets P core w w"
  by (simp add: keeps_markets_def)

lemma kept_market:
  assumes "keeps_markets P core w w'"
  shows "closed_at P core i t w \<Longrightarrow> closed_at P core i t w'" and "final_at P core i w \<Longrightarrow> final_at P core i w'"
  using assms unfolding keeps_markets_def closed_at_def final_at_def by metis+

lemma closed_at_later: "closed_at P core i t w \<Longrightarrow> t \<le> u \<Longrightarrow> closed_at P core i u w"
  by (auto simp: closed_at_def)

lemma closed_eq: "rs_market_core s = Some core \<Longrightarrow> closed P E i s \<longleftrightarrow> closed_at P core i (e_now E) (rs_world s)"
  by (simp add: closed_def closed_at_def load_market_of_def load_core_def res_simps)

text \<open>The contract the resolver has with market-core and the token: close times and commitments of
  markets never change, final markets stay final, and only an open market can be resolved or
  voided, which makes it final. \<open>later\<close> are the steps of everybody else.\<close>

locale market_service =
  fixes P :: "'w rs_peers" and core self :: address and ok :: "env \<Rightarrow> bool" and good :: "'w \<Rightarrow> bool"
    and later :: "'w \<Rightarrow> 'w \<Rightarrow> bool"
  assumes clock: "ok E \<Longrightarrow> e_now E < u64_max" and myself: "ok E \<Longrightarrow> e_self E = self"
    and outside: "good w \<Longrightarrow> later w w' \<Longrightarrow> good w' \<and> keeps_markets P core w w'"
    and settle: "ok E \<Longrightarrow> good w
      \<Longrightarrow> (\<exists>out. rp_resolve P E core i out w = Inr w') \<or> rp_void P E core i w = Inr w'
      \<Longrightarrow> later w w' \<and> \<not> final_at P core i w \<and> final_at P core i w'"
    and accept_role: "ok E \<Longrightarrow> good w \<Longrightarrow> rp_accept_resolver P E core w = Some w' \<Longrightarrow> later w w'"
    and transfer: "ok E \<Longrightarrow> good w \<Longrightarrow> e_auth E from_addr \<or> from_addr = e_self E
      \<Longrightarrow> rp_transfer P E tok from_addr to n w = Some w' \<Longrightarrow> good w' \<and> keeps_markets P core w w'"

section \<open>Runs\<close>

text \<open>Sequences of successful calls with times that never go back, interleaved with steps of the rest
  of the world.\<close>

inductive rs_runs ::
    "'w rs_peers \<Rightarrow> (env \<Rightarrow> bool) \<Rightarrow> ('w \<Rightarrow> 'w \<Rightarrow> bool) \<Rightarrow> nat \<Rightarrow> 'w rs \<Rightarrow> nat \<Rightarrow> 'w rs \<Rightarrow> bool"
  for P ok later t s where
  runs_start: "rs_runs P ok later t s t s"
| runs_call: "rs_runs P ok later t s u v \<Longrightarrow> ok E \<Longrightarrow> u \<le> e_now E \<Longrightarrow> (\<And>w. c \<noteq> RsOutside w)
    \<Longrightarrow> rs_exec P E c v = Inr v' \<Longrightarrow> rs_runs P ok later t s (e_now E) v'"
| runs_outside: "rs_runs P ok later t s u v \<Longrightarrow> later (rs_world v) w
    \<Longrightarrow> rs_exec P E (RsOutside w) v = Inr v' \<Longrightarrow> rs_runs P ok later t s u v'"

definition rs_reached ::
    "'w rs_peers \<Rightarrow> (env \<Rightarrow> bool) \<Rightarrow> ('w \<Rightarrow> bool) \<Rightarrow> ('w \<Rightarrow> 'w \<Rightarrow> bool) \<Rightarrow> address \<Rightarrow> nat \<Rightarrow> 'w rs \<Rightarrow> bool" where
  "rs_reached P ok good later core t s \<longleftrightarrow>
     (\<exists>admin w. good w \<and> rs_runs P ok later 0 (rs_constructor admin core (rs_deployed w)) t s)"

section \<open>The invariant\<close>

definition rules_inv :: "'w rs_peers \<Rightarrow> address \<Rightarrow> 'w rs \<Rightarrow> bool" where
  "rules_inv P core s \<longleftrightarrow> (\<forall>i. rules_of i (rs_rules s) = []
     \<or> (\<exists>r m. rules_of i (rs_rules s) = [r] \<and> rp_get_market P core i (rs_world s) = Inr m
          \<and> commits P core r (mk_resolution_hash m)))"

definition is_pending :: "nat \<Rightarrow> 'w rs \<Rightarrow> bool" where
  "is_pending i s \<longleftrightarrow> has_proposal i s \<or> dp_dispute (rs_disputes s) i \<noteq> None"

definition due_inv :: "'w rs_peers \<Rightarrow> address \<Rightarrow> nat \<Rightarrow> 'w rs \<Rightarrow> bool" where
  "due_inv P core t s \<longleftrightarrow> (\<forall>i. is_pending i s \<longrightarrow> closed_at P core i t (rs_world s))"

definition final_inv :: "'w rs_peers \<Rightarrow> address \<Rightarrow> 'w rs \<Rightarrow> bool" where
  "final_inv P core s \<longleftrightarrow> (\<forall>i. terminal i s \<longrightarrow> final_at P core i (rs_world s))"

definition dispute_inv :: "'w rs \<Rightarrow> bool" where
  "dispute_inv s \<longleftrightarrow> (\<forall>i.
     (resolution_state_of i s = Disputed \<longleftrightarrow> (\<exists>d. dp_dispute (rs_disputes s) i = Some d \<and> di_payee d = None))
     \<and> (\<forall>d. dp_dispute (rs_disputes s) i = Some d \<longrightarrow> ru_disputable (rs_rules s) i \<noteq> None
          \<and> (di_payee d \<noteq> None \<longrightarrow> terminal i s)))"

text \<open>Signers that a rule names itself; a committee's members are looked up when they attest.\<close>

fun fixed_signers :: "committed_rule \<Rightarrow> address set option" where
  "fixed_signers (SpecRule (Signers cfg)) = Some (set (sc_signers cfg))"
| "fixed_signers (SpecRule (SignersDisputable cfg)) = Some (set (dc_signers cfg))"
| "fixed_signers (SpecRule (Hybrid cfg)) = Some (set (sc_signers (hc_fallback cfg)))"
| "fixed_signers (SpecRule (Committee _)) = None"
| "fixed_signers _ = Some {}"

definition attesters :: "nat \<Rightarrow> attested_outcome \<Rightarrow> 'w rs \<Rightarrow> address set" where
  "attesters i out s = {a. vo_attested (rs_votes s) i out a}"

definition votes_inv :: "'w rs \<Rightarrow> bool" where
  "votes_inv s \<longleftrightarrow>
     vo_proposal_old (rs_votes s) = Map.empty \<and> vo_attested_old (rs_votes s) = (\<lambda>_ _ _. False)
     \<and> vo_count_old (rs_votes s) = (\<lambda>_. Map.empty)
     \<and> (\<forall>i out. finite (attesters i out s)
          \<and> (case vo_count (rs_votes s) i out of None \<Rightarrow> 0 | Some n \<Rightarrow> n) = card (attesters i out s))
     \<and> (\<forall>i out a. a \<in> attesters i out s \<longrightarrow>
          (\<exists>r. rules_of i (rs_rules s) = [r] \<and> (\<forall>S. fixed_signers r = Some S \<longrightarrow> a \<in> S)))"

text \<open>Weighted keys: the weight of an outcome in a round is that of the keys that signed it, each of
  which belongs to the rule and signed the message of the market, the round and the outcome; rounds
  to come have no signatures.\<close>

definition signed_keys :: "nat \<Rightarrow> nat \<Rightarrow> outcome \<Rightarrow> 'w rs \<Rightarrow> bytesN set" where
  "signed_keys i r out s = {k. vo_sig_seen (rs_votes s) i r k = Some out}"

definition key_weight :: "nat \<Rightarrow> 'w rs \<Rightarrow> bytesN \<Rightarrow> nat option" where
  "key_weight i s k = (case ru_weighted (rs_rules s) i of None \<Rightarrow> None | Some cfg \<Rightarrow> weight_of (wc_signers cfg) k)"

definition signature_ok :: "'w rs_peers \<Rightarrow> address \<Rightarrow> address \<Rightarrow> nat \<Rightarrow> nat \<Rightarrow> outcome \<Rightarrow> bytesN \<Rightarrow> 'w \<Rightarrow> bool" where
  "signature_ok P core self i r out k w \<longleftrightarrow> (\<exists>m sg E. rp_get_market P core i w = Inr m \<and> e_self E = self
     \<and> rp_verify P k (attestation_message P E i r out (mk_resolution_hash m)) sg)"

definition weights_inv :: "'w rs_peers \<Rightarrow> address \<Rightarrow> address \<Rightarrow> 'w rs \<Rightarrow> bool" where
  "weights_inv P core self s \<longleftrightarrow> (\<forall>i r out.
     finite (signed_keys i r out s)
     \<and> round_weight i r out s = (\<Sum>k\<in>signed_keys i r out s. the (key_weight i s k))
     \<and> (\<forall>k\<in>signed_keys i r out s. key_weight i s k \<noteq> None \<and> signature_ok P core self i r out k (rs_world s))
     \<and> (round_of i s < r \<longrightarrow> signed_keys i r out s = {}))"

lemma keeps_inv:
  assumes "keeps u s"
  shows "rules_inv P core u \<Longrightarrow> rules_inv P core s" "due_inv P core t u \<Longrightarrow> due_inv P core t s"
    "final_inv P core u \<Longrightarrow> final_inv P core s" "dispute_inv u \<Longrightarrow> dispute_inv s" "votes_inv u \<Longrightarrow> votes_inv s"
    "weights_inv P core self u \<Longrightarrow> weights_inv P core self s" "committees_ok (rs_committees u) \<Longrightarrow> committees_ok (rs_committees s)"
proof -
  have "signed_keys i r out s = signed_keys i r out u" "key_weight i s = key_weight i u" for i r out
    using assms by (auto simp: signed_keys_def key_weight_def keeps_def)
  then show "weights_inv P core self u \<Longrightarrow> weights_inv P core self s"
    using assms keeps_votes(7,8) [OF assms] by (simp add: weights_inv_def keeps_def)
qed (use assms keeps_votes [OF assms] in \<open>auto simp: rules_inv_def due_inv_def is_pending_def final_inv_def
      dispute_inv_def votes_inv_def attesters_def keeps_def\<close>)

section \<open>What the updates change\<close>

lemma state_after [simp]:
  "resolution_state_of j (set_state i st s) = (if j = i then st else resolution_state_of j s)"
  "resolution_state_of j (save_dispute i d s) = resolution_state_of j s"
  "resolution_state_of j (without_dispute i s) = resolution_state_of j s"
  "resolution_state_of j (upd_votes f s) = resolution_state_of j s"
  "resolution_state_of j (upd_rules g s) = resolution_state_of j s"
  "resolution_state_of j (s\<lparr>rs_world := w\<rparr>) = resolution_state_of j s"
  by (simp_all add: resolution_state_of_def set_state_def save_dispute_def without_dispute_def upd_votes_def upd_rules_def)

lemma fields_after [simp]:
  "rs_rules (set_state i st s) = rs_rules s" "rs_votes (set_state i st s) = rs_votes s"
  "rs_disputes (set_state i st s) = rs_disputes s" "rs_world (set_state i st s) = rs_world s"
  "rs_market_core (set_state i st s) = rs_market_core s"
  "rs_rules (save_dispute i d s) = rs_rules s" "rs_votes (save_dispute i d s) = rs_votes s"
  "dp_dispute (rs_disputes (save_dispute i d s)) = (dp_dispute (rs_disputes s))(i \<mapsto> d)"
  "rs_world (save_dispute i d s) = rs_world s" "rs_market_core (save_dispute i d s) = rs_market_core s"
  "rs_rules (without_dispute i s) = rs_rules s" "rs_votes (without_dispute i s) = rs_votes s"
  "dp_dispute (rs_disputes (without_dispute i s)) = (dp_dispute (rs_disputes s))(i := None)"
  "rs_world (without_dispute i s) = rs_world s" "rs_market_core (without_dispute i s) = rs_market_core s"
  "rs_rules (upd_votes f s) = rs_rules s" "rs_votes (upd_votes f s) = f (rs_votes s)"
  "rs_disputes (upd_votes f s) = rs_disputes s" "rs_world (upd_votes f s) = rs_world s"
  "rs_market_core (upd_votes f s) = rs_market_core s"
  "rs_rules (upd_rules g s) = g (rs_rules s)" "rs_votes (upd_rules g s) = rs_votes s"
  "rs_disputes (upd_rules g s) = rs_disputes s" "rs_world (upd_rules g s) = rs_world s"
  "rs_market_core (upd_rules g s) = rs_market_core s"
  "rs_committees (set_state i st s) = rs_committees s" "rs_committees (save_dispute i d s) = rs_committees s"
  "rs_committees (without_dispute i s) = rs_committees s" "rs_committees (upd_votes f s) = rs_committees s"
  "rs_committees (upd_rules g s) = rs_committees s"
  by (simp_all add: set_state_def save_dispute_def without_dispute_def upd_votes_def upd_rules_def)

lemma terminal_after [simp]:
  "terminal j (set_state i st s) \<longleftrightarrow> (if j = i then is_terminal st else terminal j s)"
  "terminal j (save_dispute i d s) \<longleftrightarrow> terminal j s" "terminal j (without_dispute i s) \<longleftrightarrow> terminal j s"
  "terminal j (upd_votes f s) \<longleftrightarrow> terminal j s" "terminal j (upd_rules g s) \<longleftrightarrow> terminal j s"
  "terminal j (s\<lparr>rs_world := w\<rparr>) \<longleftrightarrow> terminal j s"
  by (simp_all add: terminal_def)

lemma proposal_after [simp]:
  "has_proposal j (set_state i st s) \<longleftrightarrow> has_proposal j s" "has_proposal j (save_dispute i d s) \<longleftrightarrow> has_proposal j s"
  "has_proposal j (without_dispute i s) \<longleftrightarrow> has_proposal j s" "has_proposal j (upd_rules g s) \<longleftrightarrow> has_proposal j s"
  "has_proposal j (s\<lparr>rs_world := w\<rparr>) \<longleftrightarrow> has_proposal j s"
  "has_proposal j (remove_proposal i s) \<longleftrightarrow> j \<noteq> i \<and> has_proposal j s"
  by (auto simp: has_proposal_def remove_proposal_def)

lemma terminal_disputed: "terminal i s \<Longrightarrow> resolution_state_of i s \<noteq> Disputed"
  by (auto simp: terminal_def)

text \<open>The votes of a step: what changes besides the attestations and signatures.\<close>

definition same_but_votes :: "'w rs \<Rightarrow> 'w rs \<Rightarrow> bool" where
  "same_but_votes s u \<longleftrightarrow> rs_market_core u = rs_market_core s \<and> rs_rules u = rs_rules s
     \<and> dp_dispute (rs_disputes u) = dp_dispute (rs_disputes s) \<and> rs_states u = rs_states s \<and> rs_world u = rs_world s
     \<and> rs_committees u = rs_committees s"

lemma same_but_votes_ops [simp]:
  "same_but_votes s (upd_votes f u) \<longleftrightarrow> same_but_votes s u"
  "same_but_votes s (remove_proposal i u) \<longleftrightarrow> same_but_votes s u"
  "same_but_votes s (mark_attested i a out ep u) \<longleftrightarrow> same_but_votes s u"
  "same_but_votes s (save_attestation_count i out n u) \<longleftrightarrow> same_but_votes s u"
  "same_but_votes s (rs_propose E i out u) \<longleftrightarrow> same_but_votes s u"
  by (simp_all add: same_but_votes_def upd_votes_def remove_proposal_def mark_attested_def save_attestation_count_def
      rs_propose_def rs_publish_def Let_def)

lemma same_but_votes_refl [simp]: "same_but_votes s s"
  by (simp add: same_but_votes_def)

lemma same_but_votes_inv:
  assumes "same_but_votes s u"
  shows "rules_inv P core s \<Longrightarrow> rules_inv P core u" "final_inv P core s \<Longrightarrow> final_inv P core u"
    "dispute_inv s \<Longrightarrow> dispute_inv u"
    "due_inv P core t s \<Longrightarrow> t \<le> now \<Longrightarrow> (\<And>j. has_proposal j u \<Longrightarrow> has_proposal j s \<or> closed_at P core j now (rs_world s))
      \<Longrightarrow> due_inv P core now u"
proof -
  have st: "resolution_state_of j u = resolution_state_of j s" "terminal j u = terminal j s" for j
    using assms by (simp_all add: same_but_votes_def resolution_state_of_def terminal_def)
  show "rules_inv P core s \<Longrightarrow> rules_inv P core u" "final_inv P core s \<Longrightarrow> final_inv P core u"
      "dispute_inv s \<Longrightarrow> dispute_inv u"
    using assms st by (simp_all add: rules_inv_def final_inv_def dispute_inv_def same_but_votes_def)
  assume due: "due_inv P core t s" "t \<le> now"
    and new: "\<And>j. has_proposal j u \<Longrightarrow> has_proposal j s \<or> closed_at P core j now (rs_world s)"
  show "due_inv P core now u"
    unfolding due_inv_def
  proof (intro allI impI)
    fix j assume "is_pending j u"
    then have "is_pending j s \<or> closed_at P core j now (rs_world s)"
      using new assms by (auto simp: is_pending_def same_but_votes_def)
    then show "closed_at P core j now (rs_world u)"
      using due closed_at_later [of P core j t "rs_world s" now] assms
      by (auto simp: due_inv_def same_but_votes_def)
  qed
qed

lemma has_proposal_propose [simp]: "has_proposal j (rs_propose E i out u) \<longleftrightarrow> j = i \<or> has_proposal j u"
  by (auto simp: has_proposal_def rs_propose_def remove_proposal_def upd_votes_def rs_publish_def)

lemma has_proposal_votes [simp]:
  "has_proposal j (save_attestation_count i out n u) \<longleftrightarrow> has_proposal j u"
  "has_proposal j (mark_attested i a out ep u) \<longleftrightarrow> has_proposal j u"
  by (auto simp: has_proposal_def save_attestation_count_def mark_attested_def upd_votes_def Let_def split: option.split)

text \<open>The loop over the signatures changes only which keys signed.\<close>

lemma count_signatures_ok:
  "count_signatures P cfg i r out msg sigs weight s = Inr (weight', s')
    \<Longrightarrow> \<exists>f. s' = upd_votes (\<lambda>v. v\<lparr>vo_sig_seen := f (vo_sig_seen v)\<rparr>) s"
proof (induction P cfg i r out msg sigs weight s rule: count_signatures.induct)
  case (1 P cfg i r out msg weight s)
  then show ?case by (intro exI [of _ id]) (simp add: upd_votes_def)
next
  case (2 P cfg i r out msg k sg sigs weight s)
  show ?case
  proof (cases "weight_of (wc_signers cfg) k")
    case None
    then show ?thesis using 2 by simp
  next
    case (Some n)
    show ?thesis
    proof (cases "vo_sig_seen (rs_votes s) i r k = None")
      case True
      let ?f = "\<lambda>seen. seen(i := (seen i)(r := (seen i r)(k \<mapsto> out)))"
      obtain f where "s' = upd_votes (\<lambda>v. v\<lparr>vo_sig_seen := f (vo_sig_seen v)\<rparr>)
            (upd_votes (\<lambda>v. v\<lparr>vo_sig_seen := ?f (vo_sig_seen v)\<rparr>) s)"
        using 2(3) [OF Some] 2(4) True Some by (auto simp: res_simps split: if_splits)
      then show ?thesis by (intro exI [of _ "f \<circ> ?f"]) (simp add: upd_votes_def)
    next
      case False
      then show ?thesis using 2 Some by auto
    qed
  qed
qed

text \<open>The weight counted is the weight of the keys recorded.\<close>

lemma signed_keys_add:
  "vo_sig_seen (rs_votes s) i r k = None \<Longrightarrow>
   signed_keys j r' o' (upd_votes (\<lambda>v. v\<lparr>vo_sig_seen := (vo_sig_seen v)(i := (vo_sig_seen v i)(r := (vo_sig_seen v i r)(k \<mapsto> out)))\<rparr>) s)
     = (if j = i \<and> r' = r \<and> o' = out then insert k (signed_keys j r' o' s) else signed_keys j r' o' s)"
  by (auto simp: signed_keys_def)

lemma count_signatures_keys:
  assumes "count_signatures P cfg i r out msg sigs weight s = Inr (weight', s')"
    and "ru_weighted (rs_rules s) i = Some cfg" and "finite (signed_keys i r out s)"
    and "weight = (\<Sum>k\<in>signed_keys i r out s. the (key_weight i s k))"
  shows "finite (signed_keys i r out s') \<and> weight' = (\<Sum>k\<in>signed_keys i r out s'. the (key_weight i s k))
    \<and> (\<forall>k\<in>signed_keys i r out s'. k \<in> signed_keys i r out s \<or> key_weight i s k \<noteq> None \<and> (\<exists>sg. rp_verify P k msg sg))
    \<and> (\<forall>j r' o'. (j, r', o') \<noteq> (i, r, out) \<longrightarrow> signed_keys j r' o' s' = signed_keys j r' o' s)"
  using assms
proof (induction P cfg i r out msg sigs weight s rule: count_signatures.induct)
  case (2 P cfg i r out msg k sg sigs weight s)
  show ?case
  proof (cases "weight_of (wc_signers cfg) k")
    case None
    then show ?thesis using 2 by simp
  next
    case (Some n)
    show ?thesis
    proof (cases "vo_sig_seen (rs_votes s) i r k = None")
      case True
      let ?s = "upd_votes (\<lambda>v. v\<lparr>vo_sig_seen := (vo_sig_seen v)(i := (vo_sig_seen v i)(r := (vo_sig_seen v i r)(k \<mapsto> out)))\<rparr>) s"
      have kw: "key_weight i s k = Some n" "key_weight i ?s = key_weight i s"
        using "2.prems"(2) Some by (auto simp: key_weight_def)
      have new: "k \<notin> signed_keys i r out s" using True by (simp add: signed_keys_def)
      have rest: "rp_verify P k msg sg" "count_signatures P cfg i r out msg sigs (weight + n) ?s = Inr (weight', s')"
        using "2.prems"(1) True Some by (auto simp: res_simps int_ops split: if_splits)
      have IH: "finite (signed_keys i r out s') \<and> weight' = (\<Sum>k\<in>signed_keys i r out s'. the (key_weight i ?s k))
          \<and> (\<forall>k\<in>signed_keys i r out s'. k \<in> signed_keys i r out ?s \<or> key_weight i ?s k \<noteq> None \<and> (\<exists>sg. rp_verify P k msg sg))
          \<and> (\<forall>j r' o'. (j, r', o') \<noteq> (i, r, out) \<longrightarrow> signed_keys j r' o' s' = signed_keys j r' o' ?s)"
        by (rule "2.IH"(3) [OF Some _ _ rest(2)])
          (use True rest(1) "2.prems" kw new in \<open>simp_all add: signed_keys_add\<close>)
      have other: "(j, r', o') \<noteq> (i, r, out) \<Longrightarrow> signed_keys j r' o' ?s = signed_keys j r' o' s"
        and mine: "signed_keys i r out ?s = insert k (signed_keys i r out s)" for j r' o'
        using signed_keys_add [OF True] by auto
      show ?thesis using IH rest(1) kw unfolding mine kw(2) by (auto simp: other)
    next
      case False
      then show ?thesis using 2 Some by simp
    qed
  qed
qed simp

end
