(* ===== verification/ResolverSteps.thy ===== *)
theory ResolverSteps
  imports ResolverInv
begin

text \<open>Every step of the resolver, and so every reachable state, keeps the invariant.\<close>

section \<open>Votes\<close>

lemma votes_inv_frame:
  assumes "votes_inv s" and "rs_votes u = (rs_votes s)\<lparr>vo_proposal := a, vo_proposal_old := Map.empty, vo_epoch := b,
      vo_round := c, vo_sig_seen := d, vo_weight := e\<rparr>"
    and "\<And>i r. rules_of i (rs_rules s) = [r] \<Longrightarrow> rules_of i (rs_rules u) = [r]"
  shows "votes_inv u"
proof -
  have "attesters i out u = attesters i out s" for i out using assms(2) by (simp add: attesters_def)
  then show ?thesis using assms unfolding votes_inv_def by (auto cong: option.case_cong) (metis+)
qed

lemma votes_inv_same:
  assumes "votes_inv s" and "rs_votes u = rs_votes s"
    and "\<And>i r. rules_of i (rs_rules s) = [r] \<Longrightarrow> rules_of i (rs_rules u) = [r]"
  shows "votes_inv u"
proof (rule votes_inv_frame [OF assms(1) _ assms(3)])
  show "rs_votes u = (rs_votes s)\<lparr>vo_proposal := vo_proposal (rs_votes s), vo_proposal_old := Map.empty,
      vo_epoch := vo_epoch (rs_votes s), vo_round := vo_round (rs_votes s), vo_sig_seen := vo_sig_seen (rs_votes s),
      vo_weight := vo_weight (rs_votes s)\<rparr>"
    using assms(1,2) by (simp add: votes_inv_def)
qed

lemma votes_after_count:
  "rs_votes (save_attestation_count i out n (mark_attested i a out ep s)) =
     (rs_votes s)\<lparr>vo_attested := (vo_attested (rs_votes s))(i := (vo_attested (rs_votes s) i)
        (out := (vo_attested (rs_votes s) i out)(a := True))),
      vo_epoch := (case ep of None \<Rightarrow> vo_epoch (rs_votes s)
        | Some k \<Rightarrow> (vo_epoch (rs_votes s))(i := (vo_epoch (rs_votes s) i)(a \<mapsto> k))),
      vo_count := (vo_count (rs_votes s))(i := (vo_count (rs_votes s) i)(out \<mapsto> n)),
      vo_count_old := (case to_market out of None \<Rightarrow> vo_count_old (rs_votes s)
        | Some o' \<Rightarrow> (vo_count_old (rs_votes s))(i := (vo_count_old (rs_votes s) i)(o' := None)))\<rparr>"
  by (simp add: save_attestation_count_def mark_attested_def upd_votes_def Let_def split: option.split)

lemma entitled:
  assumes "signer_authority_of i s = Inr auth" and "attest_rights auth i a s = Inr rights"
    and "rules_of i (rs_rules s) = [r]" and "fixed_signers r = Some S"
  shows "a \<in> S"
  using assms
  by (cases "ru_price (rs_rules s) i"; cases "ru_scaled (rs_rules s) i"; cases "ru_twap (rs_rules s) i";
      cases "ru_signers (rs_rules s) i"; cases "ru_weighted (rs_rules s) i"; cases "ru_disputable (rs_rules s) i";
      cases "ru_committee (rs_rules s) i"; cases "ru_hybrid (rs_rules s) i")
    (auto simp: signer_authority_of_def rules_of_def Let_def res_simps split: if_splits)

lemma authority_rule: "signer_authority_of i s = Inr auth \<Longrightarrow> rules_of i (rs_rules s) \<noteq> []"
  by (auto simp: signer_authority_of_def rules_of_def Let_def split: option.splits)

lemma attesters_after:
  "attesters j o' (save_attestation_count i out n (mark_attested i a out ep s)) =
     (if j = i \<and> o' = out then insert a (attesters j o' s) else attesters j o' s)"
  unfolding attesters_def votes_after_count by auto

lemma votes_inv_voted:
  assumes inv: "votes_inv s" and "signer_authority_of i s = Inr auth" and "attest_rights auth i a s = Inr rights"
    and "rules_of i (rs_rules s) = [r]" and "\<not> has_attested i out a s" and "attestation_count i out s = Inr n"
    and u: "u = save_attestation_count i out (n + 1) (mark_attested i a out ep s)"
  shows "votes_inv u"
proof -
  have old: "vo_count_old (rs_votes s) = (\<lambda>_. Map.empty)" "vo_attested_old (rs_votes s) = (\<lambda>_ _ _. False)"
      "vo_proposal_old (rs_votes s) = Map.empty"
    and counts: "\<And>j o'. finite (attesters j o' s)
        \<and> (case vo_count (rs_votes s) j o' of None \<Rightarrow> 0 | Some n \<Rightarrow> n) = card (attesters j o' s)"
    and who: "\<And>j o' b. b \<in> attesters j o' s \<Longrightarrow>
        \<exists>r. rules_of j (rs_rules s) = [r] \<and> (\<forall>S. fixed_signers r = Some S \<longrightarrow> b \<in> S)"
    using inv by (auto simp: votes_inv_def)
  have new: "a \<notin> attesters i out s"
    using assms(5) by (simp add: has_attested_def attesters_def)
  have n: "n = card (attesters i out s)"
    using assms(6) counts [of i out] old by (auto simp: attestation_count_def Let_def int_ops split: option.splits)
  have rules: "rs_rules u = rs_rules s"
    by (simp add: u save_attestation_count_def mark_attested_def)
  show ?thesis
    unfolding votes_inv_def
  proof (intro conjI allI impI)
    show "vo_proposal_old (rs_votes u) = Map.empty" "vo_attested_old (rs_votes u) = (\<lambda>_ _ _. False)"
        "vo_count_old (rs_votes u) = (\<lambda>_. Map.empty)"
      using old unfolding u votes_after_count by (auto split: option.split)
  next
    fix j o'
    show "finite (attesters j o' u)" using counts [of j o'] counts [of i out] by (simp add: u attesters_after)
    show "(case vo_count (rs_votes u) j o' of None \<Rightarrow> 0 | Some n \<Rightarrow> n) = card (attesters j o' u)"
      using counts [of j o'] new n unfolding u attesters_after votes_after_count by auto
  next
    fix j o' b
    assume "b \<in> attesters j o' u"
    then have "b \<in> attesters j o' s \<or> j = i \<and> b = a" by (auto simp: u attesters_after split: if_splits)
    then show "\<exists>r. rules_of j (rs_rules u) = [r] \<and> (\<forall>S. fixed_signers r = Some S \<longrightarrow> b \<in> S)"
      using who [of b j o'] entitled [OF assms(2,3,4)] assms(4) unfolding rules by auto
  qed
qed

lemma weights_inv_frame:
  assumes inv: "weights_inv P core self s" and votes: "vo_sig_seen (rs_votes u) = vo_sig_seen (rs_votes s)"
      "vo_weight (rs_votes u) = vo_weight (rs_votes s)"
    and round: "\<And>i. round_of i s \<le> round_of i u"
    and rules: "\<And>i. ru_weighted (rs_rules s) i \<noteq> None \<Longrightarrow> ru_weighted (rs_rules u) i = ru_weighted (rs_rules s) i"
    and world: "keeps_markets P core (rs_world s) (rs_world u)"
  shows "weights_inv P core self u"
  unfolding weights_inv_def
proof (intro allI conjI)
  fix i r out
  have keys: "signed_keys i r out u = signed_keys i r out s" using votes(1) by (simp add: signed_keys_def)
  have weights: "key_weight i u k = key_weight i s k" if "k \<in> signed_keys i r out s" for k
  proof -
    have "key_weight i s k \<noteq> None" using inv that by (simp add: weights_inv_def)
    then have "ru_weighted (rs_rules s) i \<noteq> None" by (auto simp: key_weight_def split: option.splits)
    then show ?thesis using rules by (simp add: key_weight_def)
  qed
  have s: "finite (signed_keys i r out s)"
      "round_weight i r out s = (\<Sum>k\<in>signed_keys i r out s. the (key_weight i s k))"
      "\<forall>k\<in>signed_keys i r out s. key_weight i s k \<noteq> None \<and> signature_ok P core self i r out k (rs_world s)"
      "round_of i s < r \<longrightarrow> signed_keys i r out s = {}"
    using inv by (simp_all add: weights_inv_def)
  show "finite (signed_keys i r out u)" using s(1) keys by simp
  show "round_weight i r out u = (\<Sum>k\<in>signed_keys i r out u. the (key_weight i u k))"
    using s(2) votes(2) weights unfolding keys by (simp add: round_weight_def)
  show "\<forall>k\<in>signed_keys i r out u. key_weight i u k \<noteq> None \<and> signature_ok P core self i r out k (rs_world u)"
    using s(3) weights world unfolding keys signature_ok_def keeps_markets_def by metis
  show "round_of i u < r \<longrightarrow> signed_keys i r out u = {}"
    using s(4) round [of i] unfolding keys by linarith
qed

section \<open>Steps\<close>

definition rs_inv :: "'w rs_peers \<Rightarrow> address \<Rightarrow> address \<Rightarrow> ('w \<Rightarrow> bool) \<Rightarrow> nat \<Rightarrow> 'w rs \<Rightarrow> bool" where
  "rs_inv P core self good t s \<longleftrightarrow> rs_market_core s = Some core \<and> good (rs_world s) \<and> rules_inv P core s
     \<and> due_inv P core t s \<and> final_inv P core s \<and> dispute_inv s \<and> votes_inv s
     \<and> weights_inv P core self s \<and> committees_ok (rs_committees s)"

lemma dispute_invD:
  assumes "dispute_inv s" and "dp_dispute (rs_disputes s) i = Some d"
  shows "ru_disputable (rs_rules s) i \<noteq> None" and "di_payee d \<noteq> None \<Longrightarrow> terminal i s"
    and "di_payee d = None \<Longrightarrow> resolution_state_of i s = Disputed"
  using assms unfolding dispute_inv_def by blast+

lemma rs_inv_keeps: "keeps u s \<Longrightarrow> rs_inv P core self good t u \<Longrightarrow> rs_inv P core self good t s"
  using keeps_inv [of u s] by (auto simp: rs_inv_def keeps_def)

lemma votes_inv_proposal:
  assumes "votes_inv s" and "rs_rules u = rs_rules s"
    and "rs_votes u = (rs_votes s)\<lparr>vo_proposal := p, vo_proposal_old := (vo_proposal_old (rs_votes s))(i := None)\<rparr>"
  shows "votes_inv u"
  by (rule votes_inv_frame [OF assms(1), where a = p and b = "vo_epoch (rs_votes s)" and c = "vo_round (rs_votes s)"
        and d = "vo_sig_seen (rs_votes s)" and e = "vo_weight (rs_votes s)"])
    (use assms in \<open>simp_all add: votes_inv_def\<close>)

lemma votes_inv_proposed:
  "votes_inv s \<Longrightarrow> votes_inv (rs_propose E i out s)" "votes_inv s \<Longrightarrow> votes_inv (remove_proposal i s)"
  subgoal by (rule votes_inv_proposal [of s, where i = i and p = "(vo_proposal (rs_votes s))(i \<mapsto> \<lparr>sv_outcome = out, sv_proposed_at = e_now E\<rparr>)"])
      (simp_all add: rs_propose_def remove_proposal_def rs_publish_def upd_votes_def)
  subgoal by (rule votes_inv_proposal [of s, where i = i and p = "(vo_proposal (rs_votes s))(i := None)"])
      (simp_all add: remove_proposal_def upd_votes_def)
  done

lemma rs_inv_votes:
  assumes inv: "rs_inv P core self good t s" and "t \<le> now" and "same_but_votes s u" and "votes_inv u"
    and "weights_inv P core self u"
    and "\<And>j. has_proposal j u \<Longrightarrow> has_proposal j s \<or> closed_at P core j now (rs_world s)"
  shows "rs_inv P core self good now u"
proof -
  have "due_inv P core t s" "rules_inv P core s" "final_inv P core s" "dispute_inv s" using inv by (simp_all add: rs_inv_def)
  then show ?thesis
    using inv same_but_votes_inv(1,2) [OF assms(3), of P core] same_but_votes_inv(3) [OF assms(3)]
      same_but_votes_inv(4) [OF assms(3) _ assms(2,6)] assms(4,5) assms(3) [unfolded same_but_votes_def]
    by (simp add: rs_inv_def)
qed

lemma weights_inv_votes:
  assumes "weights_inv P core self s" and "same_but_votes s u" and "vo_sig_seen (rs_votes u) = vo_sig_seen (rs_votes s)"
    and "vo_weight (rs_votes u) = vo_weight (rs_votes s)" and "\<And>i. round_of i s \<le> round_of i u"
  shows "weights_inv P core self u"
  by (rule weights_inv_frame [OF assms(1,3,4,5)]) (use assms(2) in \<open>simp_all add: same_but_votes_def\<close>)

lemma other_votes [simp]:
  "vo_sig_seen (rs_votes (rs_propose E i out s)) = vo_sig_seen (rs_votes s)"
  "vo_weight (rs_votes (rs_propose E i out s)) = vo_weight (rs_votes s)"
  "round_of j (rs_propose E i out s) = round_of j s"
  "vo_sig_seen (rs_votes (remove_proposal i s)) = vo_sig_seen (rs_votes s)"
  "vo_weight (rs_votes (remove_proposal i s)) = vo_weight (rs_votes s)"
  "round_of j (remove_proposal i s) = round_of j s"
  by (simp_all add: rs_propose_def remove_proposal_def rs_publish_def upd_votes_def round_of_def)

lemma inv_removed: "rs_inv P core self good t u \<Longrightarrow> rs_inv P core self good t (remove_proposal i u)"
  by (rule rs_inv_votes [OF _ order_refl])
    (auto simp: rs_inv_def intro: votes_inv_proposed weights_inv_votes)

lemma inv_proposed:
  assumes "rs_inv P core self good t u" and "closed_at P core i t (rs_world u)"
  shows "rs_inv P core self good t (rs_propose E i out u)"
  by (rule rs_inv_votes [OF assms(1) order_refl])
    (use assms in \<open>auto simp: rs_inv_def intro: votes_inv_proposed weights_inv_votes\<close>)

context market_service
begin

lemma inv_world:
  assumes "rs_inv P core self good t s" and "good w" and "keeps_markets P core (rs_world s) w" and "t \<le> now"
  shows "rs_inv P core self good now (s\<lparr>rs_world := w\<rparr>)"
proof -
  have "votes_inv (s\<lparr>rs_world := w\<rparr>)" by (rule votes_inv_same [of s]) (use assms(1) in \<open>auto simp: rs_inv_def\<close>)
  moreover have "rules_inv P core (s\<lparr>rs_world := w\<rparr>)"
    using assms(1,3) unfolding rs_inv_def rules_inv_def keeps_markets_def by (simp, metis)
  moreover have "due_inv P core now (s\<lparr>rs_world := w\<rparr>)"
    unfolding due_inv_def
  proof (intro allI impI)
    fix i assume "is_pending i (s\<lparr>rs_world := w\<rparr>)"
    then have "is_pending i s" by (simp add: is_pending_def)
    then have "closed_at P core i t (rs_world s)" using assms(1) by (simp add: rs_inv_def due_inv_def)
    then show "closed_at P core i now (rs_world (s\<lparr>rs_world := w\<rparr>))"
      using closed_at_later [OF kept_market(1) [OF assms(3)] assms(4)] by simp
  qed
  moreover have "final_inv P core (s\<lparr>rs_world := w\<rparr>)"
    using assms(1) kept_market(2) [OF assms(3)] by (simp add: rs_inv_def final_inv_def)
  moreover have "weights_inv P core self (s\<lparr>rs_world := w\<rparr>)"
    by (rule weights_inv_frame [of _ _ _ s]) (use assms(1,3) in \<open>simp_all add: rs_inv_def round_of_def\<close>)
  ultimately show ?thesis using assms(1,2) by (simp add: rs_inv_def dispute_inv_def)
qed

lemma inv_later_time: "rs_inv P core self good t s \<Longrightarrow> t \<le> now \<Longrightarrow> rs_inv P core self good now s"
  by (auto simp: rs_inv_def due_inv_def intro: closed_at_later)

lemma put_weighted:
  "ru_weighted ru i = None \<Longrightarrow> ru_weighted ru j \<noteq> None \<Longrightarrow> ru_weighted (put_committed i r ru) j = ru_weighted ru j"
  by (cases "(i, r, ru)" rule: put_committed.cases; cases "case r of SpecRule x \<Rightarrow> x | _ \<Rightarrow> undefined") auto

lemma inv_stored:
  assumes inv: "rs_inv P core self good t s" and "assert_unconfigured i s = Inr ()" and "load_market_of P i s = Inr m"
    and "commits P core r (mk_resolution_hash m)"
  shows "rs_inv P core self good t (set_state i (committed_state r) (upd_rules (put_committed i r) s))" (is "rs_inv P core self good t ?u")
proof -
  have empty: "rules_of i (rs_rules s) = []" and nt: "\<not> terminal i s"
    using assms(2) by (auto simp: assert_unconfigured_def configured_eq split: if_splits)
  have get: "rp_get_market P core i (rs_world s) = Inr m"
    using assms(3) inv by (auto simp: load_market_of_def rs_inv_def res_simps)
  have disp: "dispute_inv s" and "ru_disputable (rs_rules s) i = None"
    using inv empty by (simp_all add: rs_inv_def rules_of_def)
  then have none: "dp_dispute (rs_disputes s) i = None"
    using dispute_invD(1) [of s i] by (cases "dp_dispute (rs_disputes s) i") auto
  then have nd: "resolution_state_of i s \<noteq> Disputed" using disp by (simp add: dispute_inv_def)
  have st: "committed_state r \<noteq> Disputed" "\<not> is_terminal (committed_state r)"
    by (cases r rule: committed_state.cases; cases "case r of SpecRule x \<Rightarrow> x | _ \<Rightarrow> undefined"; auto)+
  have rules: "rules_of j (put_committed i r (rs_rules s)) = (if j = i then [r] else rules_of j (rs_rules s))" for j
    using rules_of_put empty by auto
  have dsp: "ru_disputable (rs_rules s) j \<noteq> None \<Longrightarrow> ru_disputable (rs_rules ?u) j \<noteq> None" for j
    by (cases "(i, r, rs_rules s)" rule: put_committed.cases; cases "case r of SpecRule x \<Rightarrow> x | _ \<Rightarrow> undefined") auto
  have "rules_inv P core ?u" using inv get assms(4) by (auto simp: rules_inv_def rs_inv_def rules)
  moreover have "final_inv P core ?u" using inv st nt by (auto simp: rs_inv_def final_inv_def)
  moreover have "due_inv P core t ?u" using inv by (auto simp: rs_inv_def due_inv_def is_pending_def)
  moreover have "dispute_inv ?u"
    using inv st none nd dsp by (auto simp: rs_inv_def dispute_inv_def)
  moreover have "votes_inv ?u"
    by (rule votes_inv_same [of s]) (use inv empty rules in \<open>auto simp: rs_inv_def\<close>)
  moreover have "weights_inv P core self ?u"
    by (rule weights_inv_frame [of _ _ _ s])
      (use inv empty put_weighted [of "rs_rules s" i _ r] in \<open>auto simp: rs_inv_def round_of_def rules_of_def\<close>)
  ultimately show ?thesis using inv by (simp add: rs_inv_def)
qed

lemma opt_list_length: "length (opt_list f x) = (if x = None then 0 else 1)"
  by (cases x) auto

text \<open>A change of the state and of the disputes of one market.\<close>

lemma inv_state:
  assumes inv: "rs_inv P core self good t s" and "rs_rules u = rs_rules s" and "rs_votes u = rs_votes s"
    and "rs_world u = rs_world s" and "rs_market_core u = rs_market_core s \<and> rs_committees u = rs_committees s"
    and "\<And>j. j \<noteq> i \<Longrightarrow> resolution_state_of j u = resolution_state_of j s"
    and "\<And>j. j \<noteq> i \<Longrightarrow> dp_dispute (rs_disputes u) j = dp_dispute (rs_disputes s) j"
    and "terminal i u \<Longrightarrow> final_at P core i (rs_world s)"
    and "dp_dispute (rs_disputes u) i \<noteq> None \<Longrightarrow> is_pending i s"
    and "resolution_state_of i u = Disputed \<longleftrightarrow> (\<exists>d. dp_dispute (rs_disputes u) i = Some d \<and> di_payee d = None)"
    and "\<And>d. dp_dispute (rs_disputes u) i = Some d \<Longrightarrow> ru_disputable (rs_rules s) i \<noteq> None
      \<and> (di_payee d \<noteq> None \<longrightarrow> terminal i u)"
  shows "rs_inv P core self good t u"
proof -
  have hp: "has_proposal j u = has_proposal j s" for j using assms(3) by (simp add: has_proposal_def)
  have tm: "j \<noteq> i \<Longrightarrow> terminal j u = terminal j s" for j using assms(6) by (simp add: terminal_def)
  have "due_inv P core t u"
    unfolding due_inv_def
  proof (intro allI impI)
    fix j assume "is_pending j u"
    then have "is_pending j s"
      using hp assms(7,9) by (cases "j = i") (auto simp: is_pending_def)
    then show "closed_at P core j t (rs_world u)" using inv assms(4) by (simp add: rs_inv_def due_inv_def)
  qed
  moreover have "final_inv P core u"
    unfolding final_inv_def
  proof (intro allI impI)
    fix j assume "terminal j u"
    then show "final_at P core j (rs_world u)"
      using inv tm assms(4,8) by (cases "j = i") (auto simp: rs_inv_def final_inv_def)
  qed
  moreover have "dispute_inv u"
    unfolding dispute_inv_def
  proof (intro allI)
    fix j
    have "dispute_inv s" using inv by (simp add: rs_inv_def)
    then show "(resolution_state_of j u = Disputed \<longleftrightarrow> (\<exists>d. dp_dispute (rs_disputes u) j = Some d \<and> di_payee d = None))
        \<and> (\<forall>d. dp_dispute (rs_disputes u) j = Some d \<longrightarrow> ru_disputable (rs_rules u) j \<noteq> None
             \<and> (di_payee d \<noteq> None \<longrightarrow> terminal j u))"
    proof (cases "j = i")
      case True
      then show ?thesis using assms(2,10,11) by simp
    next
      case False
      then show ?thesis using \<open>dispute_inv s\<close> assms(2,6,7) tm by (simp add: dispute_inv_def)
    qed
  qed
  moreover have "votes_inv u"
    by (rule votes_inv_same [of s]) (use inv assms(2,3) in \<open>auto simp: rs_inv_def\<close>)
  moreover have "weights_inv P core self u"
    by (rule weights_inv_frame [of _ _ _ s]) (use inv assms(2-4) in \<open>simp_all add: rs_inv_def round_of_def\<close>)
  ultimately show ?thesis using inv assms(2,4,5) by (simp add: rs_inv_def rules_inv_def)
qed

lemma inv_dispute: "rs_inv P core self good t s \<Longrightarrow> dispute_inv s"
  by (simp add: rs_inv_def)

lemma one_rule:
  assumes "rs_inv P core self good t s" and "ru_disputable (rs_rules s) i \<noteq> None"
  shows "ru_hybrid (rs_rules s) i = None" "\<not> has_price_rule i s"
proof -
  have "rules_of i (rs_rules s) = [] \<or> (\<exists>r. rules_of i (rs_rules s) = [r])"
    using assms(1) unfolding rs_inv_def rules_inv_def by blast
  then have "length (rules_of i (rs_rules s)) \<le> 1" by auto
  then show "ru_hybrid (rs_rules s) i = None" "\<not> has_price_rule i s"
    using assms(2) by (auto simp: rules_of_def opt_list_length has_price_rule_def split: if_splits)
qed

lemma inv_fallback:
  assumes inv: "rs_inv P core self good t s" and "ru_hybrid (rs_rules s) i \<noteq> None"
  shows "rs_inv P core self good t (set_state i HybridFallbackOpen s)"
proof -
  have none: "dp_dispute (rs_disputes s) i = None"
    using dispute_invD(1) [OF inv_dispute [OF inv], of i] one_rule(1) [OF inv, of i] assms(2)
    by (cases "dp_dispute (rs_disputes s) i") auto
  show ?thesis by (rule inv_state [OF inv, where i = i]) (simp_all add: none)
qed

lemma inv_settled:
  assumes inv: "rs_inv P core self good t s" and final: "final_at P core i (rs_world s)" and st: "is_terminal st"
    and left: "dispute_left i s u"
  shows "rs_inv P core self good t (set_state i st u)"
proof -
  have nd: "st \<noteq> Disputed" using st by auto
  note disp = inv_dispute [OF inv]
  from left show ?thesis
  proof cases
    case dl_same
    have "resolution_state_of i s \<noteq> Disputed"
    proof
      assume "resolution_state_of i s = Disputed"
      then obtain d where "dp_dispute (rs_disputes s) i = Some d" using disp by (auto simp: dispute_inv_def)
      then show False
        using dispute_invD(1) [OF disp] one_rule [OF inv, of i] dl_same(2) \<open>resolution_state_of i s = Disputed\<close> by auto
    qed
    then have "\<And>d. dp_dispute (rs_disputes s) i = Some d \<Longrightarrow> di_payee d \<noteq> None"
      using dispute_invD(3) [OF disp] by blast
    then show ?thesis
      using dispute_invD(1) [OF disp, of i] st nd final dl_same(1)
      by (intro inv_state [OF inv, where i = i]) (auto simp: is_pending_def)
  next
    case dl_none
    then show ?thesis using st nd final by (intro inv_state [OF inv, where i = i]) (auto simp: is_pending_def)
  next
    case (dl_paid d)
    then show ?thesis using st nd final dispute_invD(1) [OF disp dl_paid(2)]
      by (intro inv_state [OF inv, where i = i]) (auto simp: is_pending_def)
  next
    case (dl_assigned d p)
    then show ?thesis using st nd final dispute_invD(1) [OF disp dl_assigned(2)]
      by (intro inv_state [OF inv, where i = i]) (auto simp: is_pending_def)
  qed
qed

lemma inv_disputed:
  assumes inv: "rs_inv P core self good t s" and "ru_disputable (rs_rules s) i \<noteq> None" and "has_proposal i s" and "di_payee d = None"
  shows "rs_inv P core self good t (set_state i Disputed (save_dispute i d s))"
  using assms(2-4) by (intro inv_state [OF inv, where i = i]) (auto simp: is_pending_def)

lemma inv_claimed:
  assumes inv: "rs_inv P core self good t s" and "dp_dispute (rs_disputes s) i = Some d" and "di_payee d \<noteq> None"
  shows "rs_inv P core self good t (without_dispute i s)"
proof -
  have "terminal i s" using dispute_invD(2) [OF inv_dispute [OF inv] assms(2,3)] .
  then show ?thesis
    using inv terminal_disputed [of i s]
    by (intro inv_state [OF inv, where i = i]) (auto simp: rs_inv_def final_inv_def)
qed

lemma inv_step:
  assumes step: "rs_step P E s s'" and inv: "rs_inv P core self good t s" and ok: "ok E" and le: "t \<le> e_now E"
  shows "rs_inv P core self good (e_now E) s'"
proof -
  have core: "rs_market_core s = Some core" and good: "good (rs_world s)" and votes: "votes_inv s"
    using inv by (simp_all add: rs_inv_def)
  note inv' = inv_later_time [OF inv le]
  have rule: "signer_authority_of i s = Inr auth \<Longrightarrow> \<exists>r. rules_of i (rs_rules s) = [r]" for i auth
    using inv authority_rule [of i s auth] unfolding rs_inv_def rules_inv_def by blast
  from step show ?thesis
  proof cases
    case rs_kept
    then show ?thesis using rs_inv_keeps inv' by blast
  next
    case (rs_role c w)
    then have "good w \<and> keeps_markets P core (rs_world s) w"
      using accept_role [OF ok good] outside [OF good] core by auto
    then show ?thesis using rs_inv_keeps [OF rs_role(3)] inv_world [OF inv _ _ le] by blast
  next
    case (rs_stored i c m r)
    then show ?thesis using rs_inv_keeps [OF rs_stored(5)] inv_stored [OF inv'] core by auto
  next
    case (rs_voted i auth a rights out n u ep)
    obtain r where r: "rules_of i (rs_rules s) = [r]" using rule [OF rs_voted(1)] by blast
    have u: "votes_inv u" "same_but_votes s u"
      using votes_inv_voted [OF votes rs_voted(1,2) r rs_voted(7,8,9)] rs_voted(9) by simp_all
    have closed: "closed_at P core i (e_now E) (rs_world s)" using rs_voted(3) closed_eq [OF core] by simp
    have "weights_inv P core self u"
      by (rule weights_inv_votes [of _ _ _ s])
        (use inv u(2) in \<open>simp_all add: rs_inv_def rs_voted(9) votes_after_count round_of_def\<close>)
    then have "rs_inv P core self good (e_now E) u"
      by (rule rs_inv_votes [OF inv le u(2,1)]) (simp add: rs_voted(9))
    moreover have "rs_inv P core self good (e_now E) (rs_propose E i out u)"
      by (rule inv_proposed [OF calculation]) (use closed u(2) in \<open>simp add: same_but_votes_def\<close>)
    ultimately show ?thesis using rs_voted(10) rs_inv_keeps by blast
  next
    case (rs_signed i cfg r m msg out sigs weight v u)
    obtain f where v: "v = upd_votes (\<lambda>v. v\<lparr>vo_sig_seen := f (vo_sig_seen v)\<rparr>) s"
      using count_signatures_ok [OF rs_signed(7)] by blast
    have rule: "ru_weighted (rs_rules s) i = Some cfg" by (rule rs_signed(1))
    have before: "finite (signed_keys i r out s)"
        "round_weight i r out s = (\<Sum>k\<in>signed_keys i r out s. the (key_weight i s k))"
      and weights: "weights_inv P core self s"
      using inv by (simp_all add: rs_inv_def weights_inv_def)
    have get: "rp_get_market P core i (rs_world s) = Inr m"
      using rs_signed(5) core by (simp add: load_market_of_def load_core_def res_simps)
    have after: "finite (signed_keys i r out v)" "weight = (\<Sum>k\<in>signed_keys i r out v. the (key_weight i s k))"
        "\<And>k. k \<in> signed_keys i r out v \<Longrightarrow> k \<in> signed_keys i r out s \<or> key_weight i s k \<noteq> None \<and> (\<exists>sg. rp_verify P k msg sg)"
        "\<And>j r' o'. (j, r', o') \<noteq> (i, r, out) \<Longrightarrow> signed_keys j r' o' v = signed_keys j r' o' s"
      using count_signatures_keys [OF rs_signed(7) rule before] by auto
    have signed: "weights_inv P core self x"
      if x: "same_but_votes s x" "vo_sig_seen (rs_votes x) = vo_sig_seen (rs_votes v)" "\<And>j. round_of j x = round_of j s"
        "\<And>j r' o'. round_weight j r' o' x = (if (j, r', o') = (i, r, out) then weight else round_weight j r' o' s)" for x
      unfolding weights_inv_def
    proof (intro allI)
      fix j r' o'
      have keys: "signed_keys j r' o' x = signed_keys j r' o' v" using x(2) by (simp add: signed_keys_def)
      have kw: "key_weight j x = key_weight j s" and w: "rs_world x = rs_world s"
        using x(1) by (auto simp: same_but_votes_def key_weight_def)
      show "finite (signed_keys j r' o' x) \<and> round_weight j r' o' x = (\<Sum>k\<in>signed_keys j r' o' x. the (key_weight j x k))
          \<and> (\<forall>k\<in>signed_keys j r' o' x. key_weight j x k \<noteq> None \<and> signature_ok P core self j r' o' k (rs_world x))
          \<and> (round_of j x < r' \<longrightarrow> signed_keys j r' o' x = {})"
      proof (cases "(j, r', o') = (i, r, out)")
        case True
        have "signature_ok P core self i r out k (rs_world s)" if "rp_verify P k msg sg" for k sg
          unfolding signature_ok_def using get that rs_signed(6) myself [OF ok] by blast
        then have "\<forall>k\<in>signed_keys i r out v. key_weight i s k \<noteq> None \<and> signature_ok P core self i r out k (rs_world s)"
          using after(3) weights unfolding weights_inv_def by blast
        then show ?thesis using True after(1,2) x(3,4) rs_signed(4) unfolding keys kw w by simp
      next
        case False
        then show ?thesis using weights after(4) [OF False] x(3,4) unfolding keys kw w weights_inv_def by auto
      qed
    qed
    have closed: "closed_at P core i (e_now E) (rs_world s)" using rs_signed(3) closed_eq [OF core] by simp
    have vs: "votes_inv (upd_votes (\<lambda>v. v\<lparr>vo_sig_seen := f (vo_sig_seen v), vo_weight := g (vo_weight v)\<rparr>) s)" for g
      by (rule votes_inv_frame [OF votes, where a = "vo_proposal (rs_votes s)" and b = "vo_epoch (rs_votes s)"
            and c = "vo_round (rs_votes s)" and d = "f (vo_sig_seen (rs_votes s))" and e = "g (vo_weight (rs_votes s))"])
        (use votes in \<open>simp_all add: votes_inv_def\<close>)
    let ?w = "\<lambda>w. w(i := (w i)(r := (w i r)(out \<mapsto> weight)))"
    have eqs: "v = upd_votes (\<lambda>v. v\<lparr>vo_sig_seen := f (vo_sig_seen v), vo_weight := id (vo_weight v)\<rparr>) s"
        "u = upd_votes (\<lambda>v. v\<lparr>vo_sig_seen := f (vo_sig_seen v), vo_weight := ?w (vo_weight v)\<rparr>) s"
      by (simp_all add: rs_signed(8) v upd_votes_def)
    have v_inv: "rs_inv P core self good (e_now E) v" if "weight = round_weight i r out s"
    proof (rule rs_inv_votes [OF inv le])
      show "weights_inv P core self v" by (rule signed) (use that in \<open>simp_all add: v round_of_def round_weight_def\<close>)
      show "votes_inv v" unfolding eqs(1) by (rule vs)
    qed (simp_all add: v has_proposal_def)
    have "rs_inv P core self good (e_now E) u"
    proof (rule rs_inv_votes [OF inv le])
      show "weights_inv P core self u" by (rule signed) (simp_all add: rs_signed(8) v round_of_def round_weight_def)
      show "votes_inv u" unfolding eqs(2) by (rule vs)
    qed (simp_all add: rs_signed(8) v has_proposal_def)
    moreover have "rs_inv P core self good (e_now E) (rs_propose E i (from_market out) u)"
      by (rule inv_proposed [OF calculation]) (use closed eqs(2) in simp)
    ultimately show ?thesis using rs_signed(9) rs_inv_keeps v_inv by blast
  next
    case (rs_cancelled i k)
    let ?u = "upd_votes (\<lambda>v. v\<lparr>vo_round := (vo_round v)(i := k)\<rparr>) (remove_proposal i s)"
    have "votes_inv ?u"
      by (rule votes_inv_frame [OF votes, where a = "(vo_proposal (rs_votes s))(i := None)" and b = "vo_epoch (rs_votes s)"
            and c = "(vo_round (rs_votes s))(i := k)" and d = "vo_sig_seen (rs_votes s)" and e = "vo_weight (rs_votes s)"])
        (use votes in \<open>simp_all add: votes_inv_def remove_proposal_def\<close>)
    moreover have "weights_inv P core self ?u"
      by (rule weights_inv_votes [of _ _ _ s]) (use inv rs_cancelled(2) in \<open>auto simp: rs_inv_def round_of_def remove_proposal_def\<close>)
    ultimately have "rs_inv P core self good (e_now E) ?u"
      by (rule rs_inv_votes [OF inv le, rotated])
        (auto simp: has_proposal_def remove_proposal_def split: if_splits)
    then show ?thesis using rs_inv_keeps [OF rs_cancelled(3)] by blast
  next
    case (rs_fallback i cfg)
    then show ?thesis using rs_inv_keeps [OF rs_fallback(4)] inv_fallback [OF inv', of i] by simp
  next
    case (rs_settled c st i w v u)
    have laws: "good w" "keeps_markets P core (rs_world s) w" "final_at P core i w"
      using settle [OF ok good, of i w] outside [OF good, of w] rs_settled(1,3) core by auto
    have left: "dispute_left i (s\<lparr>rs_world := w\<rparr>) (v\<lparr>rs_world := w\<rparr>)"
      using rs_settled(5)
    proof cases
      case dl_same
      then show ?thesis using dispute_left.dl_same [of i "s\<lparr>rs_world := w\<rparr>"] by (simp add: has_price_rule_def)
    next
      case dl_none
      then show ?thesis using dispute_left.dl_none [of "s\<lparr>rs_world := w\<rparr>"] by simp
    next
      case (dl_paid d)
      then show ?thesis using dispute_left.dl_paid [of "s\<lparr>rs_world := w\<rparr>"] by simp
    next
      case (dl_assigned d p)
      have "v\<lparr>rs_world := w\<rparr> = save_dispute i (d\<lparr>di_payee := Some p\<rparr>) (s\<lparr>rs_world := w\<rparr>)"
        by (simp add: save_dispute_def dl_assigned(1))
      then show ?thesis
        using dispute_left.dl_assigned [of "s\<lparr>rs_world := w\<rparr>" i d p] dl_assigned(2,3) by simp
    qed
    have u: "rs_inv P core self good (e_now E) u"
      unfolding rs_settled(6)
      by (rule inv_settled [OF inv_world [OF inv laws(1,2) le] _ rs_settled(2) left]) (simp add: laws(3))
    then have "rs_inv P core self good (e_now E) (remove_proposal i u)" by (rule inv_removed)
    then show ?thesis using rs_settled(7) u rs_inv_keeps by blast
  next
    case (rs_disputed i cfg a tok w)
    have laws: "good w \<and> keeps_markets P core (rs_world s) w"
      using transfer [OF ok good _ rs_disputed(6)] rs_disputed(5) by blast
    show ?thesis
      by (rule rs_inv_keeps [OF rs_disputed(7)], rule inv_disputed)
        (use inv_world [OF inv _ _ le] laws rs_disputed(1,4) in auto)
  next
    case (rs_claimed i d p w)
    have laws: "good w \<and> keeps_markets P core (rs_world s) w"
      using transfer [OF ok good _ rs_claimed(3)] by blast
    have "rs_inv P core self good (e_now E) (without_dispute i s)"
      by (rule inv_claimed [OF inv' rs_claimed(1)]) (simp add: rs_claimed(2))
    from inv_world [OF this, of w "e_now E"] show ?thesis
      using laws rs_inv_keeps [OF rs_claimed(4)] by simp
  qed
qed

lemma inv_start: "good w \<Longrightarrow> rs_inv P core self good 0 (rs_constructor admin core (rs_deployed w))"
  by (simp add: rs_inv_def rs_constructor_def rs_deployed_def rules_inv_def rules_of_def due_inv_def is_pending_def
      has_proposal_def final_inv_def terminal_def resolution_state_of_def dispute_inv_def votes_inv_def attesters_def
      weights_inv_def signed_keys_def round_weight_def committees_ok_def)

lemma inv_runs:
  assumes "rs_runs P ok later t s u v" and "rs_inv P core self good t s"
  shows "rs_inv P core self good u v"
  using assms
proof induction
  case (runs_call u v E c v')
  then show ?case using inv_step [OF rs_exec_step [OF runs_call(5) clock [OF runs_call(2)] runs_call(4)]] by blast
next
  case (runs_outside u v w E v')
  then have "good w \<and> keeps_markets P core (rs_world v) w" using outside by (auto simp: rs_inv_def)
  then show ?case using inv_world [OF runs_outside.IH] runs_outside by auto
qed

lemma inv_reached: "rs_reached P ok good later core t s \<Longrightarrow> rs_inv P core self good t s"
  using inv_runs inv_start by (auto simp: rs_reached_def)

end

end
