(* ===== verification/ResolverLife.thy ===== *)
theory ResolverLife
  imports ResolverSteps
begin

text \<open>
  What a step of the resolver can do to a market's state and rule, in any reachable state: the rule
  stays, a terminal state stays, and a state becomes terminal only after the close.
\<close>

lemma keeps_state:
  "keeps u s \<Longrightarrow> resolution_state_of j s = resolution_state_of j u"
  "keeps u s \<Longrightarrow> rs_rules s = rs_rules u"
  by (simp_all add: keeps_def resolution_state_of_def)

lemma same_but_votes_state:
  "same_but_votes s u \<Longrightarrow> resolution_state_of j u = resolution_state_of j s"
  "same_but_votes s u \<Longrightarrow> rs_rules u = rs_rules s"
  by (simp_all add: same_but_votes_def resolution_state_of_def)

lemma dispute_left_state:
  "dispute_left i s t \<Longrightarrow> resolution_state_of j t = resolution_state_of j s"
  "dispute_left i s t \<Longrightarrow> rs_rules t = rs_rules s"
  by (auto elim!: dispute_left.cases)

text \<open>The three ways in which a step can change the state of a market or its rule.\<close>

lemma step_changes:
  assumes "rs_step P E s s'"
  obtains (same) "\<And>j. resolution_state_of j s' = resolution_state_of j s" "rs_rules s' = rs_rules s"
  | (rule) i r where "rules_of i (rs_rules s) = []" "\<not> terminal i s" "rs_rules s' = put_committed i r (rs_rules s)"
      "\<And>j. j \<noteq> i \<Longrightarrow> resolution_state_of j s' = resolution_state_of j s" "resolution_state_of i s' = committed_state r"
  | (pend) i st where "\<not> terminal i s" "\<not> is_terminal st" "rs_rules s' = rs_rules s"
      "\<And>j. j \<noteq> i \<Longrightarrow> resolution_state_of j s' = resolution_state_of j s" "resolution_state_of i s' = st"
  | (settled) i st core w where "rs_market_core s = Some core" "is_terminal st"
      "(\<exists>out. rp_resolve P E core i out (rs_world s) = Inr w) \<or> rp_void P E core i (rs_world s) = Inr w"
      "closed P E i s \<or> has_proposal i s \<or> dp_dispute (rs_disputes s) i \<noteq> None" "rs_rules s' = rs_rules s"
      "\<And>j. j \<noteq> i \<Longrightarrow> resolution_state_of j s' = resolution_state_of j s" "resolution_state_of i s' = st"
      "rs_world s' = w"
  using assms
proof cases
  case rs_kept
  then show ?thesis using same keeps_state by metis
next
  case (rs_role c w)
  show ?thesis by (rule same) (simp_all add: keeps_state [OF rs_role(3)])
next
  case (rs_stored i c m r)
  have "rules_of i (rs_rules s) = []" "\<not> terminal i s"
    using rs_stored(1) by (auto simp: assert_unconfigured_def configured_eq split: if_splits)
  then show ?thesis by (rule rule) (simp_all add: keeps_state [OF rs_stored(5)])
next
  case (rs_voted i auth a rights out n u ep)
  have u: "same_but_votes s u" "same_but_votes s (rs_propose E i out u)" by (simp_all add: rs_voted(9))
  show ?thesis
    by (rule same) (use rs_voted(10) u keeps_state same_but_votes_state in metis)+
next
  case (rs_signed i cfg r m msg out sigs weight v u)
  obtain f where v: "v = upd_votes (\<lambda>v. v\<lparr>vo_sig_seen := f (vo_sig_seen v)\<rparr>) s"
    using count_signatures_ok [OF rs_signed(7)] by blast
  have u: "same_but_votes s v" "same_but_votes s u" "same_but_votes s (rs_propose E i (from_market out) u)"
    by (simp_all add: rs_signed(8) v)
  show ?thesis
    by (rule same) (use rs_signed(9) u keeps_state same_but_votes_state in metis)+
next
  case (rs_cancelled i k)
  show ?thesis by (rule same) (simp_all add: keeps_state [OF rs_cancelled(3)] remove_proposal_def)
next
  case (rs_fallback i cfg)
  show ?thesis by (rule pend [OF rs_fallback(2), of HybridFallbackOpen]) (simp_all add: keeps_state [OF rs_fallback(4)])
next
  case (rs_settled c st i w v u)
  have *: "resolution_state_of j s' = (if j = i then st else resolution_state_of j s)" "rs_rules s' = rs_rules s"
      "rs_world s' = w" for j
    using rs_settled(7) keeps_state dispute_left_state [OF rs_settled(5)]
    by (auto simp: rs_settled(6) remove_proposal_def keeps_def resolution_state_of_def set_state_def upd_votes_def)
  show ?thesis by (rule settled [OF rs_settled(1-4)]) (simp_all add: *)
next
  case (rs_disputed i cfg a tok w)
  show ?thesis by (rule pend [OF rs_disputed(3), of Disputed]) (simp_all add: keeps_state [OF rs_disputed(7)])
next
  case (rs_claimed i d p w)
  show ?thesis by (rule same) (simp_all add: keeps_state [OF rs_claimed(4)])
qed

context market_service
begin

lemma step_keeps_rule:
  assumes "rs_step P E s s'" and "rules_of j (rs_rules s) \<noteq> []"
  shows "rules_of j (rs_rules s') = rules_of j (rs_rules s)"
  using assms(1)
proof (cases rule: step_changes)
  case (rule i r)
  then have "j \<noteq> i" using assms(2) by auto
  then show ?thesis using rule(3) rules_of_put(2) by simp
qed simp_all

lemma step_keeps_final:
  assumes "rs_step P E s s'" and "rs_inv P core self good t s" and "ok E" and "terminal j s"
  shows "resolution_state_of j s' = resolution_state_of j s"
  using assms(1)
proof (cases rule: step_changes)
  case (settled i st c w)
  have "final_at P core j (rs_world s)" using assms(2,4) by (simp add: rs_inv_def final_inv_def)
  moreover have "\<not> final_at P core i (rs_world s)"
    using settle [OF assms(3), of "rs_world s" i w] settled(1,3) assms(2) by (auto simp: rs_inv_def)
  ultimately have "j \<noteq> i" by auto
  then show ?thesis by (rule settled(6))
next
  case (rule i r)
  then have "j \<noteq> i" using assms(4) by auto
  then show ?thesis by (rule rule(4))
next
  case (pend i st)
  then have "j \<noteq> i" using assms(4) by auto
  then show ?thesis by (rule pend(4))
qed

lemma step_finishes:
  assumes "rs_step P E s s'" and inv: "rs_inv P core self good t s" and "ok E" and "t \<le> e_now E"
    and "terminal j s'" and "\<not> terminal j s"
  shows "closed_at P core j (e_now E) (rs_world s) \<and> \<not> final_at P core j (rs_world s) \<and> final_at P core j (rs_world s')"
  using assms(1)
proof (cases rule: step_changes)
  case (settled i st c w)
  have ij: "i = j"
  proof (rule ccontr)
    assume "i \<noteq> j"
    then have "resolution_state_of j s' = resolution_state_of j s" by (intro settled(6)) simp
    then show False using assms(5,6) by (simp add: terminal_def)
  qed
  have core: "c = core" "good (rs_world s)" "due_inv P core t s" using settled(1) inv by (auto simp: rs_inv_def)
  have "closed_at P core j (e_now E) (rs_world s)"
  proof (cases "is_pending j s")
    case True
    then show ?thesis using core(3) by (intro closed_at_later [OF _ assms(4)]) (simp add: due_inv_def)
  next
    case False
    then show ?thesis using settled(4) settled(1) core(1) unfolding ij by (auto simp: closed_eq is_pending_def)
  qed
  then show ?thesis
    using settle [OF assms(3) core(2), of j w] settled(3,8) core(1) ij by blast
next
  case (rule i r)
  have "\<not> is_terminal (committed_state r)"
    by (cases r rule: committed_state.cases; cases "case r of SpecRule x \<Rightarrow> x | _ \<Rightarrow> undefined") auto
  then show ?thesis using rule(5) rule(4) [of j] assms(5,6) by (cases "j = i") (simp_all add: terminal_def)
next
  case (pend i st)
  then show ?thesis using pend(4) [of j] assms(5,6) by (cases "j = i") (simp_all add: terminal_def)
next
  case same
  then show ?thesis using same(1) [of j] assms(5,6) by (simp add: terminal_def)
qed

lemma runs_keep:
  assumes "rs_runs P ok later t s u v" and "rs_inv P core self good t s"
  shows "(rules_of j (rs_rules s) \<noteq> [] \<longrightarrow> rules_of j (rs_rules v) = rules_of j (rs_rules s))
    \<and> (terminal j s \<longrightarrow> resolution_state_of j v = resolution_state_of j s)"
  using assms
proof induction
  case (runs_call u v E c v')
  note step = rs_exec_step [OF runs_call(5) clock [OF runs_call(2)] runs_call(4)]
  note inv = inv_runs [OF runs_call(1,7)]
  have IH: "rules_of j (rs_rules s) \<noteq> [] \<Longrightarrow> rules_of j (rs_rules v) = rules_of j (rs_rules s)"
      "terminal j s \<Longrightarrow> resolution_state_of j v = resolution_state_of j s"
    using runs_call.IH [OF runs_call(7)] by simp_all
  show ?case
  proof (intro conjI impI)
    assume "rules_of j (rs_rules s) \<noteq> []"
    then show "rules_of j (rs_rules v') = rules_of j (rs_rules s)" using step_keeps_rule [OF step] IH(1) by simp
  next
    assume "terminal j s"
    then have "terminal j v" using IH(2) by (simp add: terminal_def)
    then show "resolution_state_of j v' = resolution_state_of j s"
      using step_keeps_final [OF step inv runs_call(2)] IH(2) \<open>terminal j s\<close> by simp
  qed
qed auto

text \<open>A market that has ended takes no new dispute: a bond record that is gone stays gone.\<close>

lemma step_keeps_bond_gone:
  assumes "rs_step P E s s'" and "dp_dispute (rs_disputes s) j = None" and "terminal j s"
  shows "dp_dispute (rs_disputes s') j = None"
  using assms(1)
proof cases
  case (rs_voted i auth a rights out n u ep)
  have "same_but_votes s u" "same_but_votes s (rs_propose E i out u)" by (simp_all add: rs_voted(9))
  then show ?thesis using assms(2) rs_voted(10) by (auto simp: keeps_def same_but_votes_def)
next
  case (rs_signed i cfg r m msg out sigs weight v u)
  obtain f where v: "v = upd_votes (\<lambda>v. v\<lparr>vo_sig_seen := f (vo_sig_seen v)\<rparr>) s"
    using count_signatures_ok [OF rs_signed(7)] by blast
  have "same_but_votes s v" "same_but_votes s u" "same_but_votes s (rs_propose E i (from_market out) u)"
    by (simp_all add: rs_signed(8) v)
  then show ?thesis using assms(2) rs_signed(9) by (auto simp: keeps_def same_but_votes_def)
next
  case (rs_settled c st i w v u)
  have "dp_dispute (rs_disputes s') j = dp_dispute (rs_disputes v) j"
    using rs_settled(7) by (auto simp: keeps_def rs_settled(6) remove_proposal_def)
  moreover have "dp_dispute (rs_disputes v) j = None"
    using rs_settled(5) assms(2) by cases auto
  ultimately show ?thesis by simp
qed (use assms(2,3) in \<open>auto simp: keeps_def remove_proposal_def\<close>)

lemma runs_bond_gone:
  assumes "rs_runs P ok later t s u v" and "rs_inv P core self good t s"
    and "dp_dispute (rs_disputes s) j = None" and "terminal j s"
  shows "dp_dispute (rs_disputes v) j = None"
  using assms
proof induction
  case (runs_call u v E c v')
  have "terminal j v"
    using runs_keep [OF runs_call(1,7), of j] runs_call(9) by (simp add: terminal_def)
  then show ?case
    using step_keeps_bond_gone [OF rs_exec_step [OF runs_call(5) clock [OF runs_call(2)] runs_call(4)]]
      runs_call.IH [OF runs_call(7-9)] by blast
qed auto

end

end
