(* ===== verification/ResolverBonds.thy ===== *)
theory ResolverBonds
  imports ResolverLife
begin

text \<open>
  Dispute bonds: the resolver holds at least the bonds of all recorded disputes, in each token. The
  locale adds to \<open>market_service\<close> what the token contract promises.
\<close>

definition bond_in :: "address \<Rightarrow> dispute_rec \<Rightarrow> int" where
  "bond_in tok d = (if di_token d = tok then di_bond d else 0)"

definition bonds_held :: "address \<Rightarrow> 'w rs \<Rightarrow> int" where
  "bonds_held tok s = map_total (bond_in tok) (dp_dispute (rs_disputes s))"

definition bonds_inv :: "(address \<Rightarrow> 'w \<Rightarrow> int) \<Rightarrow> 'w rs \<Rightarrow> bool" where
  "bonds_inv own s \<longleftrightarrow> finite (dom (dp_dispute (rs_disputes s)))
     \<and> (\<forall>i d. dp_dispute (rs_disputes s) i = Some d \<longrightarrow> 0 \<le> di_bond d)
     \<and> (\<forall>tok. bonds_held tok s \<le> own tok (rs_world s))"

locale bond_custody = market_service P core self ok good later
  for P :: "'w rs_peers" and core self :: address and ok good later +
  fixes own :: "address \<Rightarrow> 'w \<Rightarrow> int"
  assumes taken: "ok E \<Longrightarrow> good w \<Longrightarrow> e_auth E a \<Longrightarrow> rp_transfer P E tok a self n w = Some w'
      \<Longrightarrow> 0 \<le> n \<and> own d w' = own d w + (if d = tok then n else 0)"
    and paid: "ok E \<Longrightarrow> good w \<Longrightarrow> rp_transfer P E tok self a n w = Some w'
      \<Longrightarrow> own d w - (if d = tok then n else 0) \<le> own d w'"
    and spared: "good w \<Longrightarrow> later w w' \<Longrightarrow> own d w \<le> own d w'"
begin

lemma bonds_same:
  assumes "bonds_inv own s" and "dp_dispute (rs_disputes u) = dp_dispute (rs_disputes s)"
    and "\<And>tok. own tok (rs_world s) \<le> own tok (rs_world u)"
  shows "bonds_inv own u"
  using assms order_trans unfolding bonds_inv_def bonds_held_def by fastforce

lemma step_bonds:
  assumes step: "rs_step P E s s'" and inv: "rs_inv P core self good t s" and ok: "ok E" and bonds: "bonds_inv own s"
  shows "bonds_inv own s'"
proof -
  have core: "rs_market_core s = Some core" and good: "good (rs_world s)" and disp: "dispute_inv s"
    using inv by (simp_all add: rs_inv_def)
  have fin: "finite (dom (dp_dispute (rs_disputes s)))"
    and pos: "\<And>i d. dp_dispute (rs_disputes s) i = Some d \<Longrightarrow> 0 \<le> di_bond d"
    and held: "\<And>tok. bonds_held tok s \<le> own tok (rs_world s)"
    using bonds by (auto simp: bonds_inv_def)
  have same: "bonds_inv own s'" if "dp_dispute (rs_disputes s') = dp_dispute (rs_disputes s)" "rs_world s' = rs_world s"
    by (rule bonds_same [OF bonds that(1)]) (simp add: that(2))
  from step show ?thesis
  proof cases
    case rs_kept
    then show ?thesis using same by (simp add: keeps_def)
  next
    case (rs_role c w)
    have "rs_world s' = w" "dp_dispute (rs_disputes s') = dp_dispute (rs_disputes s)" using rs_role(3) by (simp_all add: keeps_def)
    moreover have "later (rs_world s) w" using accept_role [OF ok good] rs_role(1,2) core by simp
    ultimately show ?thesis using bonds_same [OF bonds] spared [OF good] by blast
  next
    case (rs_stored i c m r)
    then show ?thesis using same by (simp add: keeps_def)
  next
    case (rs_voted i auth a rights out n u ep)
    have "same_but_votes s u" "same_but_votes s (rs_propose E i out u)" by (simp_all add: rs_voted(9))
    then show ?thesis using same rs_voted(10) by (auto simp: keeps_def same_but_votes_def)
  next
    case (rs_signed i cfg r m msg out sigs weight v u)
    obtain f where v: "v = upd_votes (\<lambda>v. v\<lparr>vo_sig_seen := f (vo_sig_seen v)\<rparr>) s"
      using count_signatures_ok [OF rs_signed(7)] by blast
    have "same_but_votes s v" "same_but_votes s u" "same_but_votes s (rs_propose E i (from_market out) u)"
      by (simp_all add: rs_signed(8) v)
    then show ?thesis using same rs_signed(9) by (auto simp: keeps_def same_but_votes_def)
  next
    case (rs_cancelled i k)
    then show ?thesis using same by (simp add: keeps_def remove_proposal_def)
  next
    case (rs_fallback i cfg)
    then show ?thesis using same by (simp add: keeps_def)
  next
    case (rs_settled c st i w v u)
    have s': "dp_dispute (rs_disputes s') = dp_dispute (rs_disputes v)" "rs_world s' = w"
      using rs_settled(7) by (auto simp: keeps_def rs_settled(6) remove_proposal_def)
    have "later (rs_world s) w" using settle [OF ok good, of i w] rs_settled(1,3) core by auto
    then have own: "own d (rs_world s) \<le> own d (rs_world s')" for d using spared [OF good] s'(2) by simp
    show ?thesis
      using rs_settled(5)
    proof cases
      case (dl_assigned d p)
      have "map_total (bond_in tok) ((dp_dispute (rs_disputes s))(i \<mapsto> d\<lparr>di_payee := Some p\<rparr>)) = bonds_held tok s" for tok
        using dl_assigned(2) by (simp add: map_total_upd [OF fin] at_key_def bonds_held_def bond_in_def)
      then have "bonds_held tok s' = bonds_held tok s" for tok
        unfolding bonds_held_def [of tok s'] s'(1) dl_assigned(1) by simp
      moreover have "finite (dom (dp_dispute (rs_disputes s')))" using fin s'(1) dl_assigned(1) by simp
      moreover have "0 \<le> di_bond e" if "dp_dispute (rs_disputes s') j = Some e" for j e
        using that pos [OF dl_assigned(2)] pos s'(1) dl_assigned(1) by (auto split: if_splits)
      ultimately show ?thesis using held own unfolding bonds_inv_def by (metis order_trans)
    qed (use bonds_same [OF bonds _ own] s'(1) in simp_all)
  next
    case (rs_disputed i cfg a tok w)
    let ?d = "\<lparr>di_disputer = a, di_bond = dc_dispute_bond cfg, di_token = tok, di_opened_at = e_now E, di_payee = None\<rparr>"
    have none: "dp_dispute (rs_disputes s) i = None"
      using rs_disputed(2,3) dispute_invD(2,3) [OF disp, of i] by (cases "dp_dispute (rs_disputes s) i") blast+
    have s': "dp_dispute (rs_disputes s') = (dp_dispute (rs_disputes s))(i \<mapsto> ?d)" "rs_world s' = w"
      using rs_disputed(7) by (simp_all add: keeps_def)
    have move: "0 \<le> dc_dispute_bond cfg" "own x w = own x (rs_world s) + (if x = tok then dc_dispute_bond cfg else 0)" for x
      using taken [OF ok good rs_disputed(5)] rs_disputed(6) myself [OF ok] by auto
    have total: "bonds_held x s' = bonds_held x s + bond_in x ?d" for x
      using map_total_upd [OF fin, of "bond_in x" i "Some ?d"] none by (simp add: bonds_held_def s'(1) at_key_def)
    show ?thesis
      unfolding bonds_inv_def
    proof (intro conjI allI impI)
      show "finite (dom (dp_dispute (rs_disputes s')))" using fin s'(1) by simp
      show "0 \<le> di_bond e" if "dp_dispute (rs_disputes s') j = Some e" for j e
        using that pos move(1) s'(1) by (auto split: if_splits)
      show "bonds_held x s' \<le> own x (rs_world s')" for x
        using held [of x] move(2) [of x] total [of x] s'(2) by (simp add: bond_in_def split: if_splits)
    qed
  next
    case (rs_claimed i d p w)
    have s': "dp_dispute (rs_disputes s') = (dp_dispute (rs_disputes s))(i := None)" "rs_world s' = w"
      using rs_claimed(4) by (simp_all add: keeps_def)
    have total: "bonds_held x s' = bonds_held x s - bond_in x d" for x
      using map_total_upd [OF fin, of "bond_in x" i None] rs_claimed(1) by (simp add: bonds_held_def s'(1) at_key_def)
    have move: "own x (rs_world s) - bond_in x d \<le> own x w" for x
      using paid [OF ok good, of "di_token d" p "di_bond d" w x] rs_claimed(3) myself [OF ok] by (simp add: bond_in_def split: if_splits)
    show ?thesis
      unfolding bonds_inv_def
    proof (intro conjI allI impI)
      show "finite (dom (dp_dispute (rs_disputes s')))" using fin s'(1) by (simp add: finite_dom_upd)
      show "0 \<le> di_bond e" if "dp_dispute (rs_disputes s') j = Some e" for j e
        using that pos s'(1) by (auto split: if_splits)
      show "bonds_held x s' \<le> own x (rs_world s')" for x
        using held [of x] move [of x] total [of x] s'(2) by simp
    qed
  qed
qed

lemma bonds_runs:
  assumes "rs_runs P ok later t s u v" and "rs_inv P core self good t s" and "bonds_inv own s"
  shows "bonds_inv own v"
  using assms
proof induction
  case (runs_call u v E c v')
  show ?case
    by (rule step_bonds [OF rs_exec_step [OF runs_call(5) clock [OF runs_call(2)] runs_call(4)]
          inv_runs [OF runs_call(1,7)] runs_call(2) runs_call.IH [OF runs_call(7,8)]])
next
  case (runs_outside u v w E v')
  have "good (rs_world v)" using inv_runs [OF runs_outside(1,5)] by (simp add: rs_inv_def)
  then show ?case
    using bonds_same [OF runs_outside.IH [OF runs_outside(5,6)], of v'] spared runs_outside(2,3) by auto
qed

lemma bonds_start:
  "(\<And>tok. 0 \<le> own tok w) \<Longrightarrow> bonds_inv own (rs_constructor admin core' (rs_deployed w))"
  by (simp add: bonds_inv_def bonds_held_def rs_constructor_def rs_deployed_def)

end

end
