(* ===== verification/ResolverMarket.thy ===== *)
theory ResolverMarket
  imports ResolverBonds TreasuryMarket MarketRules
begin

text \<open>
  The resolver on the model of the market contract: \<open>core_peers\<close> plugs the market's entry points and
  its token into the resolver, and every law of \<open>market_service\<close> is proved of them.
\<close>

section \<open>The market contract as the resolver's peer\<close>

definition core_peers ::
    "'t token \<Rightarrow> (address \<Rightarrow> address option) \<Rightarrow> address \<Rightarrow> 't mc rs_peers \<Rightarrow> 't mc rs_peers" where
  "core_peers T peer core others = others
     \<lparr>rp_get_market := (\<lambda>a i c. at_core core a (get_market i c)),
      rp_collateral := (\<lambda>a c. at_core core a (andThen (get_config c) (\<lambda>cf. Inr (cf_collateral cf)))),
      rp_treasury := (\<lambda>a c. at_core core a (andThen (get_config c) (\<lambda>cf. Inr (cf_treasury cf)))),
      rp_resolve := (\<lambda>E a i out c. at_core core a (resolve (callee_env core E) i out c)),
      rp_void := (\<lambda>E a i c. at_core core a (void_market (callee_env core E) i c)),
      rp_accept_resolver := (\<lambda>E a c.
        case at_core core a (accept_resolver peer (callee_env core E) c) of Inl _ \<Rightarrow> None | Inr c' \<Rightarrow> Some c'),
      rp_transfer := (\<lambda>E tok from_addr to n c. token_move T tok from_addr to n c)\<rparr>"

text \<open>The calls of a resolver deployed at \<open>self\<close>: nobody authorises as a contract. Between them the market
  contract does what it can do by its own calls, and nobody takes tokens from the resolver.\<close>

definition resolver_env :: "address \<Rightarrow> address \<Rightarrow> env \<Rightarrow> bool" where
  "resolver_env core self E \<longleftrightarrow> e_self E = self \<and> \<not> e_auth E self \<and> outside_env core E \<and> e_now E < u64_max"

definition spares_holder :: "'t token \<Rightarrow> address \<Rightarrow> 't mc \<Rightarrow> 't mc \<Rightarrow> bool" where
  "spares_holder T self c c' \<longleftrightarrow> (\<forall>tok. tk_balance T tok (mc_tok c) self \<le> tk_balance T tok (mc_tok c') self)"

definition world_step ::
    "'t token \<Rightarrow> (address \<Rightarrow> address option) \<Rightarrow> address \<Rightarrow> address \<Rightarrow> 't mc \<Rightarrow> 't mc \<Rightarrow> bool" where
  "world_step T peer core self c c' \<longleftrightarrow> (mc_step T peer core)\<^sup>*\<^sup>* c c' \<and> spares_holder T self c c'"

lemma core_get_market [simp]: "rp_get_market (core_peers T peer core others) core i c = load_market i c"
  by (simp add: core_peers_def at_core_def get_market_def)

lemma keeps_markets_core:
  "keeps_markets (core_peers T peer core others) core c c' \<longleftrightarrow> (\<forall>i m. mc_markets c i = Some m \<longrightarrow>
     (\<exists>m'. mc_markets c' i = Some m' \<and> mk_close_time m' = mk_close_time m
        \<and> mk_resolution_hash m' = mk_resolution_hash m \<and> (mk_status m \<noteq> Open \<longrightarrow> mk_status m' \<noteq> Open)))"
  by (simp add: keeps_markets_def load_market_eq)

lemma keeps_markets_trans:
  "keeps_markets P core c d \<Longrightarrow> keeps_markets P core d e \<Longrightarrow> keeps_markets P core c e"
  unfolding keeps_markets_def by metis

lemma mc_step_keeps:
  assumes "mc_step T peer core c c'" and "mc_reachable T peer core c" and "token_ok T"
  shows "keeps_markets (core_peers T peer core others) core c c'"
  using assms(1)
proof cases
  case (step_call E call)
  show ?thesis
    unfolding keeps_markets_core
  proof (intro allI impI)
    fix i m assume m: "mc_markets c i = Some m"
    show "\<exists>m'. mc_markets c' i = Some m' \<and> mk_close_time m' = mk_close_time m
        \<and> mk_resolution_hash m' = mk_resolution_hash m \<and> (mk_status m \<noteq> Open \<longrightarrow> mk_status m' \<noteq> Open)"
      by (rule reachable_advances [OF assms(2,3) step_call(3) m])
        (auto dest!: market_steps_terms simp: same_terms_def)
  qed
next
  case step_other
  then show ?thesis by (simp add: keeps_markets_core)
qed

lemma mc_steps_keep:
  assumes "(mc_step T peer core)\<^sup>*\<^sup>* c c'" and "mc_reachable T peer core c" and "token_ok T"
  shows "mc_reachable T peer core c' \<and> keeps_markets (core_peers T peer core others) core c c'"
  using assms(1)
proof (induction rule: rtranclp_induct)
  case base
  then show ?case using assms(2) by simp
next
  case (step d e)
  then show ?case using reach_step mc_step_keeps [OF step(2) _ assms(3)] keeps_markets_trans by metis
qed

lemma core_call_step:
  assumes "exec T peer (callee_env core E) call c = Inr c'" and "outside_env core E" and "mc_tok c' = mc_tok c"
  shows "world_step T peer core self c c'"
proof -
  have "mc_step T peer core c c'"
    by (rule step_call [OF _ _ assms(1)]) (use assms(2) in \<open>auto simp: callee_env_def outside_env_def\<close>)
  then show ?thesis using assms(3) by (auto simp: world_step_def spares_holder_def)
qed

lemma settle_core:
  assumes "rp_resolve (core_peers T peer core others) E core i out c = Inr c'
      \<or> rp_void (core_peers T peer core others) E core i c = Inr c'" and "outside_env core E"
  shows "world_step T peer core self c c' \<and> (\<exists>m. mc_markets c i = Some m \<and> mk_status m = Open)
    \<and> (\<exists>m. mc_markets c' i = Some m \<and> mk_status m \<noteq> Open)"
proof -
  obtain call where ex: "exec T peer (callee_env core E) call c = Inr c'"
      and eff: "mc_tok c' = mc_tok c" "\<exists>m. mc_markets c i = Some m \<and> mk_status m = Open"
        "\<exists>m. mc_markets c' i = Some m \<and> mk_status m \<noteq> Open"
    using assms(1)
  proof
    assume "rp_resolve (core_peers T peer core others) E core i out c = Inr c'"
    then have "resolve (callee_env core E) i out c = Inr c'" by (simp add: core_peers_def at_core_def)
    then show ?thesis using that [of "CallResolve i out"]
      by (auto simp: resolve_def res_simps store_defs mark_finalized_def Let_def split: option.splits)
  next
    assume "rp_void (core_peers T peer core others) E core i c = Inr c'"
    then have "void_market (callee_env core E) i c = Inr c'" by (simp add: core_peers_def at_core_def)
    then show ?thesis using that [of "CallVoidMarket i"]
      by (auto simp: void_market_def res_simps store_defs mark_finalized_def Let_def split: option.splits)
  qed
  then show ?thesis using core_call_step [OF ex assms(2)] by blast
qed

lemma final_at_core:
  "final_at (core_peers T peer core others) core i c \<longleftrightarrow> (\<exists>m. mc_markets c i = Some m \<and> mk_status m \<noteq> Open)"
  by (simp add: final_at_def load_market_eq)

lemma token_move_keeps:
  assumes "token_move T tok from_addr to n c = Some c'"
  shows "keeps_markets (core_peers T peer core others) core c c'"
  using assms by (auto simp: token_move_def keeps_markets_core split: option.splits)

lemma core_peers_service:
  assumes T: "token_ok T"
  shows "market_service (core_peers T peer core others) core self (resolver_env core self)
    (mc_reachable T peer core) (world_step T peer core self)"
proof
  fix E assume "resolver_env core self E"
  then show "e_now E < u64_max" "e_self E = self" by (simp_all add: resolver_env_def)
next
  fix c c' assume good: "mc_reachable T peer core c" and step: "world_step T peer core self c c'"
  show "mc_reachable T peer core c' \<and> keeps_markets (core_peers T peer core others) core c c'"
    by (rule mc_steps_keep [OF conjunct1 [OF step [unfolded world_step_def]] good T])
next
  fix E c c' i
  assume "resolver_env core self E" and "(\<exists>out. rp_resolve (core_peers T peer core others) E core i out c = Inr c')
      \<or> rp_void (core_peers T peer core others) E core i c = Inr c'"
  then show "world_step T peer core self c c' \<and> \<not> final_at (core_peers T peer core others) core i c
      \<and> final_at (core_peers T peer core others) core i c'"
    using settle_core [of T peer core others E i _ c c'] unfolding final_at_core by (fastforce simp: resolver_env_def)
next
  fix E c c'
  assume ok: "resolver_env core self E" and "rp_accept_resolver (core_peers T peer core others) E core c = Some c'"
  then have ex: "accept_resolver peer (callee_env core E) c = Inr c'"
    by (auto simp: core_peers_def at_core_def split: sum.splits)
  then have "mc_tok c' = mc_tok c" by (auto simp: accept_resolver_def res_simps store_defs split: if_splits)
  then show "world_step T peer core self c c'"
    using core_call_step [of T peer core E CallAcceptResolver] ex ok by (simp add: resolver_env_def)
next
  fix E c c' from_addr tok to n
  assume ok: "resolver_env core self E" and good: "mc_reachable T peer core c"
    and auth: "e_auth E from_addr \<or> from_addr = e_self E"
    and "rp_transfer (core_peers T peer core others) E tok from_addr to n c = Some c'"
  then have move: "token_move T tok from_addr to n c = Some c'" by (simp add: core_peers_def)
  have "from_addr \<noteq> core" using ok auth by (auto simp: resolver_env_def outside_env_def)
  then have "spares T core c c'" by (rule token_move_spares [OF move T])
  then show "mc_reachable T peer core c' \<and> keeps_markets (core_peers T peer core others) core c c'"
    using reach_spares [OF _ good T] token_move_keeps [OF move] by blast
qed

lemma core_peers_custody:
  assumes T: "token_ok T"
  shows "bond_custody (core_peers T peer core others) core self (resolver_env core self)
    (mc_reachable T peer core) (world_step T peer core self) (\<lambda>tok c. tk_balance T tok (mc_tok c) self)"
proof (intro bond_custody.intro core_peers_service [OF T] bond_custody_axioms.intro)
  fix E c a tok n c' d
  assume ok: "resolver_env core self E" and auth: "e_auth E a"
    and "rp_transfer (core_peers T peer core others) E tok a self n c = Some c'"
  then have "tk_transfer T tok a self n (mc_tok c) = Some (mc_tok c')" "a \<noteq> self"
    by (auto simp: core_peers_def token_move_def resolver_env_def split: option.splits)
  then show "0 \<le> n \<and> tk_balance T d (mc_tok c') self = tk_balance T d (mc_tok c) self + (if d = tok then n else 0)"
    using token_okD [OF T] by fastforce
next
  fix E c tok a n c' d
  assume "rp_transfer (core_peers T peer core others) E tok self a n c = Some c'"
  then have "tk_transfer T tok self a n (mc_tok c) = Some (mc_tok c')"
    by (auto simp: core_peers_def token_move_def split: option.splits)
  then show "tk_balance T d (mc_tok c) self - (if d = tok then n else 0) \<le> tk_balance T d (mc_tok c') self"
    using token_okD [OF T] by fastforce
next
  fix c c' d assume "world_step T peer core self c c'"
  then show "tk_balance T d (mc_tok c) self \<le> tk_balance T d (mc_tok c') self"
    by (simp add: world_step_def spares_holder_def)
qed

end
