(* ===== verification/ResolverDemo.thy ===== *)
theory ResolverDemo
  imports ResolverMarket
begin

text \<open>
  A concrete run of the resolver on the market of \<open>MarketDemo\<close>: the committed rule of two disputable
  signers is revealed, both attest Yes after the close, a trader disputes, the admin upholds the
  signers, and the bond goes to the treasury.
\<close>

text \<open>Resolver 7 for the market contract 100; admin 9; signers 11 and 12; the trader 1 disputes.\<close>

definition demo_cfg :: disputable_signer_config where
  "demo_cfg = \<lparr>dc_signers = [11, 12], dc_threshold = 2, dc_dispute_window = 3600, dc_dispute_bond = 500,
     dc_escalation = Guardian, dc_escalation_timeout = 86400\<rparr>"

text \<open>A host whose hash is the identity and whose encoding of this rule is the commitment of the market.\<close>

definition demo_others :: "ledger mc rs_peers" where
  "demo_others =
     \<lparr>rp_get_market = (\<lambda>core i w. trap), rp_collateral = (\<lambda>core w. trap), rp_treasury = (\<lambda>core w. trap),
      rp_resolve = (\<lambda>E core i out w. trap), rp_void = (\<lambda>E core i w. trap), rp_accept_resolver = (\<lambda>E core w. None),
      rp_core_error = (\<lambda>e. RsUnauthorized), rp_feed_decimals = (\<lambda>a w. None), rp_feed_resolution = (\<lambda>a w. None),
      rp_feed_price = (\<lambda>a x t w. None), rp_feed_lastprice = (\<lambda>a x w. None),
      rp_transfer = (\<lambda>E tok a b n w. None), rp_trace = (\<lambda>a k w. None), rp_network_id = [], rp_sha256 = (\<lambda>xs. xs),
      rp_verify = (\<lambda>k msg sg. False), rp_xdr_rule = (\<lambda>r. if r = SignersDisputable demo_cfg then [] else [1]),
      rp_xdr_v2 = (\<lambda>x. [2]), rp_xdr_scaled = (\<lambda>x. [3]), rp_xdr_twap = (\<lambda>x. [4]), rp_xdr_address = (\<lambda>a. [a])\<rparr>"

definition demo_peers :: "ledger mc rs_peers" where
  "demo_peers = core_peers ledger_token no_peer 100 demo_others"

definition judge_env :: "nat \<Rightarrow> env" where
  "judge_env now = \<lparr>e_now = now, e_seq = now, e_max_ttl = 3110400, e_self = 7, e_auth = (\<lambda>a. a \<noteq> 100 \<and> a \<noteq> 7)\<rparr>"

lemma judge_env_ok: "now < u64_max \<Longrightarrow> resolver_env 100 7 (judge_env now)"
  by (simp add: resolver_env_def outside_env_def judge_env_def)

lemma judge_callee: "callee_env 100 (judge_env now) = demo_env now"
  by (auto simp: callee_env_def judge_env_def demo_env_def fun_eq_iff)

definition judge0 :: "ledger mc rs" where
  "judge0 = rs_constructor 9 100 (rs_deployed demo2)"

definition judge1 :: "ledger mc rs" where
  "judge1 = judge0\<lparr>rs_rules := (rs_rules judge0)\<lparr>ru_disputable := [0 \<mapsto> demo_cfg]\<rparr>, rs_states := [0 \<mapsto> SignersPending]\<rparr>"

definition judge2 :: "ledger mc rs" where
  "judge2 = judge1
     \<lparr>rs_votes := (rs_votes judge1)
        \<lparr>vo_attested := (\<lambda>_ _ _. False)(0 := (\<lambda>_ _. False)(AttYes := (\<lambda>_. False)(11 := True))),
         vo_count := (\<lambda>_. Map.empty)(0 := [AttYes \<mapsto> 1])\<rparr>,
      rs_events := [EvAttested 0 11 AttYes None 1]\<rparr>"

definition judge3 :: "ledger mc rs" where
  "judge3 = judge2
     \<lparr>rs_votes := (rs_votes judge2)
        \<lparr>vo_attested := (\<lambda>_ _ _. False)(0 := (\<lambda>_ _. False)(AttYes := (\<lambda>_. False)(11 := True, 12 := True))),
         vo_count := (\<lambda>_. Map.empty)(0 := [AttYes \<mapsto> 2]),
         vo_proposal := [0 \<mapsto> \<lparr>sv_outcome = AttYes, sv_proposed_at = 1001\<rparr>]\<rparr>,
      rs_events := rs_events judge2 @ [EvAttested 0 12 AttYes None 2, EvResolutionProposedV2 0 AttYes 1001]\<rparr>"

definition bond_rec :: dispute_rec where
  "bond_rec = \<lparr>di_disputer = 1, di_bond = 500, di_token = 50, di_opened_at = 1002, di_payee = None\<rparr>"

definition bonded_world :: "ledger mc" where
  "bonded_world = demo2\<lparr>mc_tok := (mc_tok demo2)(50 := (mc_tok demo2 50)(1 := 3999999500, 7 := 500))\<rparr>"

definition judge4 :: "ledger mc rs" where
  "judge4 = judge3
     \<lparr>rs_disputes := (rs_disputes judge3)\<lparr>dp_dispute := [0 \<mapsto> bond_rec]\<rparr>, rs_states := [0 \<mapsto> Disputed],
      rs_world := bonded_world, rs_events := rs_events judge3 @ [EvDisputed 0 1 500 None]\<rparr>"

definition resolved_world :: "ledger mc" where
  "resolved_world = demo3\<lparr>mc_tok := mc_tok bonded_world,
     mc_settles := [0 \<mapsto> demo_settle\<lparr>st_outstanding_yes := 1487487437, st_finalized_at := 1010\<rparr>]\<rparr>"

definition judge5 :: "ledger mc rs" where
  "judge5 = judge4
     \<lparr>rs_disputes := (rs_disputes judge4)\<lparr>dp_dispute := [0 \<mapsto> bond_rec\<lparr>di_payee := Some 8\<rparr>]\<rparr>,
      rs_states := [0 \<mapsto> Finalized], rs_world := resolved_world,
      rs_events := rs_events judge4 @ [EvDisputeSettled 0 VerdictYes False 500]\<rparr>"

section \<open>The calls\<close>

lemmas judge_eval = res_simps int_ops rs_require_admin_def load_core_def load_market_of_def judge_env_def judge0_def
  rs_constructor_def rs_deployed_def demo_peers_def core_peers_def at_core_def get_market_def load_market_def Let_def
  rs_publish_def upd_votes_def resolution_state_of_def terminal_def u64_max_def u32_max_def

lemma market_in_demo [simp]: "mc_markets demo2 0 = Some (demo_market\<lparr>mk_reserve_yes := 502512563,
    mk_reserve_no := 1990000000, mk_sets_minted := 1990000000, mk_fees_accrued := 4000000\<rparr>)"
  by (simp add: demo2_def)

lemma empty_upd [simp]: "(\<lambda>_. Map.empty)(i := Map.empty) = (\<lambda>_. Map.empty)"
  by auto

lemma judge1_run: "rs_exec demo_peers (judge_env 500) (RsRegisterDisputable 0 demo_cfg) judge0 = Inr judge1"
  by (simp add: register_disputable_spec_def reveal_def assert_unconfigured_def configured_def has_price_rule_def
      validate_rule_def disputable_config_is_valid_def assert_matches_commitment_def legacy_spec_hash_def
      store_rule_def set_state_def pin_policy_def upd_rules_def demo_others_def judge_eval judge1_def
      demo_cfg_def demo_market_def)

lemma judge2_run: "rs_exec demo_peers (judge_env 1000) (RsAttest 0 11 AttYes None) judge1 = Inr judge2"
  by (simp add: attest_def record_attestation_def signer_authority_of_def cite_evidence_def policy_of_def
      assert_not_disputed_def has_attested_def mark_attested_def attestation_count_def save_attestation_count_def
      may_propose_def load_proposal_def rs_propose_def remove_proposal_def add_u32_def judge_eval judge1_def judge2_def
      demo_cfg_def demo_market_def require_auth_def)

lemma judge3_run: "rs_exec demo_peers (judge_env 1001) (RsAttest 0 12 AttYes None) judge2 = Inr judge3"
  by (simp add: attest_def record_attestation_def signer_authority_of_def cite_evidence_def policy_of_def
      assert_not_disputed_def has_attested_def mark_attested_def attestation_count_def save_attestation_count_def
      may_propose_def load_proposal_def rs_propose_def remove_proposal_def add_u32_def judge_eval judge1_def judge2_def
      judge3_def demo_cfg_def demo_market_def require_auth_def numeral_2_eq_2 [symmetric])

text \<open>From the proposal: it can be finalized after its window, or disputed within it.\<close>

lemma judge_finalizes:
  "\<exists>s. finalize_signers demo_peers (judge_env 4601) 0 judge3 = Inr (AttYes, s) \<and> resolution_state_of 0 s = Finalized
     \<and> (\<exists>m. mc_markets (rs_world s) 0 = Some m \<and> mk_status m = Resolved Yes)"
proof -
  have "resolve (callee_env 100 (judge_env 4601)) 0 Yes demo2
      = Inr (demo3\<lparr>mc_settles := [0 \<mapsto> demo_settle\<lparr>st_outstanding_yes := 1487487437, st_finalized_at := 4601\<rparr>]\<rparr>)"
    unfolding judge_callee
    by (simp add: demo_eval demo1_def demo2_def demo3_def demo_inst_def demo_market_def demo_settle_def)
  then show ?thesis
    by (simp add: finalize_signers_def assert_not_disputed_def signer_authority_of_def load_proposal_def add_u64_def
        attestation_count_def call_resolve_def set_state_def market_close_time_def judge_eval judge1_def
        judge2_def judge3_def demo_cfg_def add_u32_def)
      (simp add: demo3_def demo_market_def)
qed

lemma judge4_run: "rs_exec demo_peers (judge_env 1002) (RsDispute 0 1 None) judge3 = Inr judge4"
proof -
  have "get_config demo2 = Inr \<lparr>cf_admin = 9, cf_collateral = 50, cf_treasury = 8, cf_resolver = 7,
      cf_default_fee_bps = 100, cf_protocol_fee_share_bps = 4000, cf_paused = False\<rparr>"
    by (simp add: get_config_def instance_get_def demo2_def demo1_def demo_inst_def)
  moreover have "tk_transfer ledger_token 50 1 7 500 (mc_tok demo2) = Some (mc_tok bonded_world)"
    by (simp add: ledger_token_def bonded_world_def demo2_def demo_tok_def fun_upd_twist)
  ultimately show ?thesis
    by (simp add: dispute_def assert_not_disputed_def load_proposal_def set_state_def save_dispute_def
        token_move_def judge_eval judge1_def judge2_def judge3_def judge4_def demo_cfg_def require_auth_def
        sat_add_u64_def bond_rec_def)
      (simp add: bonded_world_def)
qed

lemma judge5_run: "rs_exec demo_peers (judge_env 1010) (RsSettleDispute 0 VerdictYes) judge4 = Inr judge5"
proof -
  have "resolve (callee_env 100 (judge_env 1010)) 0 Yes bonded_world = Inr resolved_world"
    unfolding judge_callee
    by (simp add: demo_eval demo1_def demo2_def demo3_def demo_inst_def demo_market_def demo_settle_def
        bonded_world_def resolved_world_def)
  moreover have "get_config resolved_world = Inr \<lparr>cf_admin = 9, cf_collateral = 50, cf_treasury = 8, cf_resolver = 7,
      cf_default_fee_bps = 100, cf_protocol_fee_share_bps = 4000, cf_paused = False\<rparr>"
    by (simp add: get_config_def instance_get_def resolved_world_def demo3_def demo2_def demo1_def demo_inst_def)
  ultimately show ?thesis
    by (simp add: settle_dispute_def apply_verdict_def open_dispute_def load_proposal_def call_resolve_def set_state_def
        save_dispute_def judge_eval judge1_def judge2_def judge3_def judge4_def judge5_def demo_cfg_def require_auth_def
        bond_rec_def)
qed

section \<open>Reachability\<close>

interpretation demo_resolver: bond_custody demo_peers 100 7 "resolver_env 100 7" "mc_reachable ledger_token no_peer 100"
    "world_step ledger_token no_peer 100 7" "\<lambda>tok c. tk_balance ledger_token tok (mc_tok c) 7"
  unfolding demo_peers_def by (rule core_peers_custody [OF token_ok_ledger])

abbreviation demo_runs :: "nat \<Rightarrow> ledger mc rs \<Rightarrow> bool" where
  "demo_runs \<equiv> rs_runs demo_peers (resolver_env 100 7) (world_step ledger_token no_peer 100 7) 0 judge0"

lemma demo_call:
  "demo_runs t s \<Longrightarrow> t \<le> now \<Longrightarrow> now < u64_max \<Longrightarrow> (\<And>w. c \<noteq> RsOutside w)
    \<Longrightarrow> rs_exec demo_peers (judge_env now) c s = Inr s' \<Longrightarrow> demo_runs now s'"
  using runs_call [of demo_peers "resolver_env 100 7" "world_step ledger_token no_peer 100 7" 0 judge0 t s "judge_env now" c s']
    judge_env_ok [of now] by (simp add: judge_env_def)

lemma demo_judges: "demo_runs 0 judge0" "demo_runs 500 judge1" "demo_runs 1000 judge2" "demo_runs 1001 judge3"
    "demo_runs 1002 judge4" "demo_runs 1010 judge5"
proof -
  show 0: "demo_runs 0 judge0" by (rule runs_start)
  show 1: "demo_runs 500 judge1" by (rule demo_call [OF 0 _ _ _ judge1_run]) (simp_all add: u64_max_def)
  show 2: "demo_runs 1000 judge2" by (rule demo_call [OF 1 _ _ _ judge2_run]) (simp_all add: u64_max_def)
  show 3: "demo_runs 1001 judge3" by (rule demo_call [OF 2 _ _ _ judge3_run]) (simp_all add: u64_max_def)
  show 4: "demo_runs 1002 judge4" by (rule demo_call [OF 3 _ _ _ judge4_run]) (simp_all add: u64_max_def)
  show "demo_runs 1010 judge5" by (rule demo_call [OF 4 _ _ _ judge5_run]) (simp_all add: u64_max_def)
qed

end
