(* ===== verification/ResolverProps.thy ===== *)
theory ResolverProps
  imports ResolverDemo
begin

text \<open>
  The guarantees of the resolver on the market contract: markets end only after their close and by
  the rule committed at their creation, once; finalization needs the quorum of the rule; signatures
  bind to market, round and outcome; dispute bonds are held and paid.
\<close>

text \<open>The states of a resolver deployed at \<open>self\<close> for the market contract at \<open>core\<close>.\<close>

definition resolver_reached ::
    "'t token \<Rightarrow> (address \<Rightarrow> address option) \<Rightarrow> address \<Rightarrow> address \<Rightarrow> 't mc rs_peers \<Rightarrow> nat \<Rightarrow> 't mc rs \<Rightarrow> bool" where
  "resolver_reached T peer core self others =
     rs_reached (core_peers T peer core others) (resolver_env core self) (mc_reachable T peer core)
       (world_step T peer core self) core"

definition resolver_runs ::
    "'t token \<Rightarrow> (address \<Rightarrow> address option) \<Rightarrow> address \<Rightarrow> address \<Rightarrow> 't mc rs_peers
      \<Rightarrow> nat \<Rightarrow> 't mc rs \<Rightarrow> nat \<Rightarrow> 't mc rs \<Rightarrow> bool" where
  "resolver_runs T peer core self others =
     rs_runs (core_peers T peer core others) (resolver_env core self) (world_step T peer core self)"

lemma reached_inv:
  assumes "token_ok T" and "resolver_reached T peer core self others t s"
  shows "rs_inv (core_peers T peer core others) core self (mc_reachable T peer core) t s"
  by (rule market_service.inv_reached [OF core_peers_service [OF assms(1)] assms(2) [unfolded resolver_reached_def]])

lemma demo_reached: "demo_runs t s \<Longrightarrow> resolver_reached ledger_token no_peer 100 7 demo_others t s"
  unfolding resolver_reached_def rs_reached_def judge0_def demo_peers_def [symmetric] using demo_reach(3) by blast

section \<open>Quorum\<close>

fun quorum_reached :: "'w rs_peers \<Rightarrow> address \<Rightarrow> address \<Rightarrow> signer_authority \<Rightarrow> nat \<Rightarrow> attested_outcome \<Rightarrow> 'w rs \<Rightarrow> bool" where
  "quorum_reached P core self (AuthSigners cfg) i out s \<longleftrightarrow>
     attesters i out s \<subseteq> set (sc_signers cfg) \<and> sc_threshold cfg \<le> card (attesters i out s)"
| "quorum_reached P core self (AuthDisputable cfg) i out s \<longleftrightarrow>
     attesters i out s \<subseteq> set (dc_signers cfg) \<and> dc_threshold cfg \<le> card (attesters i out s)"
| "quorum_reached P core self (AuthHybrid cfg) i out s \<longleftrightarrow>
     attesters i out s \<subseteq> set (sc_signers (hc_fallback cfg)) \<and> sc_threshold (hc_fallback cfg) \<le> card (attesters i out s)"
| "quorum_reached P core self (AuthCommittee r c) i out s \<longleftrightarrow>
     rotation_in_bounds r c \<and> cm_threshold c \<le> card (attesters i out s \<inter> set (cm_members c))"
| "quorum_reached P core self (AuthWeighted cfg) i out s \<longleftrightarrow> (\<exists>o'. to_market out = Some o'
     \<and> wc_weight_threshold cfg \<le> (\<Sum>k\<in>signed_keys i (round_of i s) o' s. the (key_weight i s k))
     \<and> (\<forall>k\<in>signed_keys i (round_of i s) o' s. signature_ok P core self i (round_of i s) o' k (rs_world s)))"

lemma count_is_card:
  assumes "votes_inv s" and "attestation_count i out s = Inr n"
  shows "n = card (attesters i out s)"
proof -
  have "vo_count_old (rs_votes s) = (\<lambda>_. Map.empty)"
      "(case vo_count (rs_votes s) i out of None \<Rightarrow> 0 | Some n \<Rightarrow> n) = card (attesters i out s)"
    using assms(1) by (simp_all add: votes_inv_def)
  then show ?thesis using assms(2) by (auto simp: attestation_count_def Let_def int_ops split: option.splits)
qed

lemma rule_stored:
  "ru_signers ru i = Some a \<Longrightarrow> SpecRule (Signers a) \<in> set (rules_of i ru)"
  "ru_disputable ru i = Some b \<Longrightarrow> SpecRule (SignersDisputable b) \<in> set (rules_of i ru)"
  "ru_hybrid ru i = Some c \<Longrightarrow> SpecRule (Hybrid c) \<in> set (rules_of i ru)"
  by (simp_all add: rules_of_def)

lemma named_signers:
  assumes "votes_inv s" and "SpecRule r \<in> set (rules_of i (rs_rules s))" and "fixed_signers (SpecRule r) = Some S"
  shows "attesters i out s \<subseteq> S"
proof
  fix a assume "a \<in> attesters i out s"
  then obtain q where "rules_of i (rs_rules s) = [q]" "\<forall>S. fixed_signers q = Some S \<longrightarrow> a \<in> S"
    using assms(1) unfolding votes_inv_def by blast
  then show "a \<in> S" using assms(2,3) by auto
qed

lemma members_counted:
  assumes "votes_inv s" and "distinct ms"
  shows "length (filter (\<lambda>m. has_attested i out m s) ms) = card (attesters i out s \<inter> set ms)"
proof -
  have "has_attested i out m s \<longleftrightarrow> m \<in> attesters i out s" for m
    using assms(1) by (simp add: has_attested_def attesters_def votes_inv_def split: option.split)
  then have "set (filter (\<lambda>m. has_attested i out m s) ms) = attesters i out s \<inter> set ms" by auto
  then show ?thesis using distinct_card [of "filter (\<lambda>m. has_attested i out m s) ms"] assms(2) by simp
qed

lemma authority_cases:
  assumes "signer_authority_of i s = Inr auth"
  shows "case auth of AuthSigners cfg \<Rightarrow> ru_signers (rs_rules s) i = Some cfg
    | AuthDisputable cfg \<Rightarrow> ru_disputable (rs_rules s) i = Some cfg
    | AuthWeighted cfg \<Rightarrow> ru_weighted (rs_rules s) i = Some cfg
    | AuthCommittee r c \<Rightarrow> ru_committee (rs_rules s) i = Some r
        \<and> co_committee (rs_committees s) (cr_committee_id r) = Some c
    | AuthHybrid cfg \<Rightarrow> ru_hybrid (rs_rules s) i = Some cfg"
  using assms by (auto simp: signer_authority_of_def Let_def load_committee_def res_simps split: option.splits)

lemma has_quorum_reached:
  assumes inv: "rs_inv P core self good t s" and auth: "signer_authority_of i s = Inr auth"
    and quorum: "has_quorum auth i out s = Inr True"
  shows "quorum_reached P core self auth i out s"
proof -
  have votes: "votes_inv s" and weights: "weights_inv P core self s" and comm: "committees_ok (rs_committees s)"
    using inv by (simp_all add: rs_inv_def)
  note A = authority_cases [OF auth]
  note count = count_is_card [OF votes]
  show ?thesis
  proof (cases auth)
    case (AuthSigners cfg)
    then show ?thesis using A quorum count named_signers [OF votes rule_stored(1)] by (auto simp: res_simps)
  next
    case (AuthDisputable cfg)
    then show ?thesis using A quorum count named_signers [OF votes rule_stored(2)] by (auto simp: res_simps)
  next
    case (AuthHybrid cfg)
    then show ?thesis using A quorum count named_signers [OF votes rule_stored(3)] by (auto simp: res_simps)
  next
    case (AuthCommittee r c)
    then have "distinct (cm_members c)" using A comm by (auto simp: committees_ok_def)
    then show ?thesis using AuthCommittee quorum members_counted [OF votes] by simp
  next
    case (AuthWeighted cfg)
    then show ?thesis using quorum weights by (auto simp: weights_inv_def split: option.splits)
  qed
qed

section \<open>Properties\<close>

text \<open>C4. Whatever was called since deployment, with any calls on the market contract in between: a
  call of the resolver that ends a market (resolved, voided or expired) runs at or after the market's
  close time, found the market open, and leaves it final in the market contract, which itself would
  accept a void at any time.\<close>

theorem ends_markets_only_after_close:
  assumes "token_ok T" and "resolver_reached T peer core self others t s"
    and "resolver_env core self E" and "t \<le> e_now E" and "\<forall>w. c \<noteq> RsOutside w"
    and "rs_exec (core_peers T peer core others) E c s = Inr s'"
    and "\<not> terminal i s" and "terminal i s'"
  shows "\<exists>m m'. mc_markets (rs_world s) i = Some m \<and> mk_close_time m \<le> e_now E \<and> mk_status m = Open
    \<and> mc_markets (rs_world s') i = Some m' \<and> mk_status m' \<noteq> Open"
proof -
  have "e_now E < u64_max" using assms(3) by (simp add: resolver_env_def)
  then have "rs_step (core_peers T peer core others) E s s'" using rs_exec_step [OF assms(6)] assms(5) by blast
  from market_service.step_finishes [OF core_peers_service [OF assms(1)] this reached_inv [OF assms(1,2)] assms(3,4,8,7)]
  show ?thesis by (auto simp: closed_at_def final_at_core load_market_eq)
qed

theorem ends_markets_only_after_close_witness:
  "\<exists>m m'. mc_markets bonded_world 0 = Some m \<and> mk_close_time m \<le> 1010 \<and> mk_status m = Open
     \<and> mc_markets resolved_world 0 = Some m' \<and> mk_status m' \<noteq> Open"
  using ends_markets_only_after_close [OF token_ok_ledger demo_reached [OF demo_judges(5)] judge_env_ok [of 1010] _ _
      judge5_run [unfolded demo_peers_def], of 0]
  by (simp add: judge_env_def u64_max_def terminal_def resolution_state_of_def judge5_def judge4_def)

text \<open>C7. In every reachable state a market has no rule or exactly one, and that one hashes to the
  commitment the market was created with, directly or with a salt and the right network and market
  contract; a rule once revealed is never replaced.\<close>

theorem revealed_rule_is_the_committed_one:
  assumes "token_ok T" and "resolver_reached T peer core self others t s"
    and "rules_of i (rs_rules s) \<noteq> []"
  shows "\<exists>r m. rules_of i (rs_rules s) = [r] \<and> mc_markets (rs_world s) i = Some m
    \<and> commits (core_peers T peer core others) core r (mk_resolution_hash m)
    \<and> (\<forall>u v. resolver_runs T peer core self others t s u v \<longrightarrow> rules_of i (rs_rules v) = [r])"
proof -
  note inv = reached_inv [OF assms(1,2)]
  obtain r m where "rules_of i (rs_rules s) = [r]" "mc_markets (rs_world s) i = Some m"
      "commits (core_peers T peer core others) core r (mk_resolution_hash m)"
    using inv assms(3) unfolding rs_inv_def rules_inv_def by (auto simp: load_market_eq)
  then show ?thesis
    using market_service.runs_keep [OF core_peers_service [OF assms(1)] _ inv]
    by (fastforce simp: resolver_runs_def)
qed

theorem revealed_rule_is_the_committed_one_witness:
  "\<exists>m. mc_markets (rs_world judge5) 0 = Some m
     \<and> commits demo_peers 100 (SpecRule (SignersDisputable demo_cfg)) (mk_resolution_hash m)
     \<and> rules_of 0 (rs_rules judge5) = [SpecRule (SignersDisputable demo_cfg)]"
proof -
  have "rules_of 0 (rs_rules judge5) = [SpecRule (SignersDisputable demo_cfg)]"
    by (simp add: judge5_def judge4_def judge3_def judge2_def judge1_def judge0_def rs_constructor_def rs_deployed_def rules_of_def)
  then show ?thesis
    using revealed_rule_is_the_committed_one [OF token_ok_ledger demo_reached [OF demo_judges(6)], of 0]
    unfolding demo_peers_def by auto
qed

text \<open>C8. A terminal state is final: once the resolver finalized or expired a market, no later call by
  anyone changes that state, and the market is final in the market contract too.\<close>

theorem terminal_states_stay:
  assumes "token_ok T" and "resolver_reached T peer core self others t s"
    and "terminal i s" and "resolver_runs T peer core self others t s u v"
  shows "resolution_state_of i v = resolution_state_of i s
    \<and> (\<exists>m. mc_markets (rs_world v) i = Some m \<and> mk_status m \<noteq> Open)"
proof -
  note inv = reached_inv [OF assms(1,2)]
  note run = assms(4) [unfolded resolver_runs_def]
  have same: "resolution_state_of i v = resolution_state_of i s"
    using market_service.runs_keep [OF core_peers_service [OF assms(1)] run inv] assms(3) by blast
  then have "terminal i v" using assms(3) by (simp add: terminal_def)
  moreover have "final_inv (core_peers T peer core others) core v"
    using market_service.inv_runs [OF core_peers_service [OF assms(1)] run inv] by (simp add: rs_inv_def)
  ultimately show ?thesis using same by (simp add: final_inv_def final_at_core)
qed

theorem terminal_states_stay_witness:
  "\<exists>s. rs_exec demo_peers (judge_env 1020) (RsClaimBond 0) judge5 = Inr s \<and> resolution_state_of 0 s = Finalized
     \<and> (\<exists>m. mc_markets (rs_world s) 0 = Some m \<and> mk_status m \<noteq> Open)"
proof -
  obtain s where s: "rs_exec demo_peers (judge_env 1020) (RsClaimBond 0) judge5 = Inr s"
    by (simp add: claim_dispute_bond_def judge5_def bond_rec_def demo_peers_def core_peers_def token_move_def
        ledger_token_def judge_env_def resolved_world_def bonded_world_def Let_def)
  have "resolver_runs ledger_token no_peer 100 7 demo_others 1010 judge5 1020 s"
    unfolding resolver_runs_def demo_peers_def [symmetric]
    using runs_call [of demo_peers "resolver_env 100 7" "world_step ledger_token no_peer 100 7" 1010 judge5 1010 judge5
        "judge_env 1020" "RsClaimBond 0" s] s
      runs_start [of demo_peers "resolver_env 100 7" "world_step ledger_token no_peer 100 7" 1010 judge5] judge_env_ok [of 1020]
    by (simp add: judge_env_def u64_max_def)
  moreover have "resolution_state_of 0 judge5 = Finalized" by (simp add: judge5_def resolution_state_of_def)
  ultimately show ?thesis
    using s terminal_states_stay [OF token_ok_ledger demo_reached [OF demo_judges(6)], of 0] by (simp add: terminal_def)
qed

text \<open>C5. Signers finalize an outcome only with the quorum of the market's rule: the outcome was proposed,
  is not under dispute and its dispute window is over, and at least the threshold of different
  signers named by the rule (or members of the committee, with the rotations the rule allows) attested
  it, or keys of the rule with at least the threshold weight signed it for this market and round.\<close>

theorem finalization_has_quorum:
  assumes "token_ok T" and "resolver_reached T peer core self others t s"
    and "finalize_signers (core_peers T peer core others) E i s = Inr (out, s')"
  shows "\<exists>p auth. load_proposal i s = Some p \<and> sv_outcome p = out \<and> resolution_state_of i s \<noteq> Disputed
    \<and> signer_authority_of i s = Inr auth \<and> sv_proposed_at p + dispute_window_of auth \<le> e_now E
    \<and> quorum_reached (core_peers T peer core others) core self auth i out s"
  using assms(3) unfolding finalize_signers_def Let_def
proof (elim andThenE if_InlE, goal_cases)
  case (1 _ auth p opens q core' t1 c)
  then have "has_quorum auth i (sv_outcome p) s = Inr True" "sv_outcome p = out" by simp_all
  then show ?case
    using 1(1-5) has_quorum_reached [OF reached_inv [OF assms(1,2)] 1(2)] by (auto simp: res_simps int_ops)
qed

theorem finalization_has_quorum_witness:
  "\<exists>s. finalize_signers demo_peers (judge_env 4601) 0 judge3 = Inr (AttYes, s)
     \<and> quorum_reached demo_peers 100 7 (AuthDisputable demo_cfg) 0 AttYes judge3"
proof -
  obtain s where "finalize_signers demo_peers (judge_env 4601) 0 judge3 = Inr (AttYes, s)"
    using judge_finalizes by blast
  moreover have "signer_authority_of 0 judge3 = Inr (AuthDisputable demo_cfg)"
    by (simp add: signer_authority_of_def judge3_def judge2_def judge1_def judge0_def rs_constructor_def rs_deployed_def)
  ultimately show ?thesis
    using finalization_has_quorum [OF token_ok_ledger demo_reached [OF demo_judges(4)], of "judge_env 4601" 0 AttYes s]
    unfolding demo_peers_def by auto
qed

text \<open>What a key signs determines market, round, outcome and commitment: a signature for one
  cannot be counted for another (for resolvers of the same address on the same network).\<close>

lemma signatures_are_not_replayed:
  assumes "i < 2 ^ 64" and "i' < 2 ^ 64" and "r < 2 ^ 32" and "r' < 2 ^ 32"
  shows "attestation_message P E i r out h = attestation_message P E i' r' out' h'
    \<longleftrightarrow> i = i' \<and> r = r' \<and> out = out' \<and> h = h'"
proof
  assume "attestation_message P E i r out h = attestation_message P E i' r' out' h'"
  then have "be_bytes 8 i @ be_bytes 4 r @ [case out of Yes \<Rightarrow> 0 | No \<Rightarrow> 1] @ h
      = be_bytes 8 i' @ be_bytes 4 r' @ [case out' of Yes \<Rightarrow> 0 | No \<Rightarrow> 1] @ h'"
    by (simp add: attestation_message_def)
  then have "be_bytes 8 i = be_bytes 8 i'" "be_bytes 4 r = be_bytes 4 r'" "h = h'"
      "(case out of Yes \<Rightarrow> 0 | No \<Rightarrow> (1 :: nat)) = (case out' of Yes \<Rightarrow> 0 | No \<Rightarrow> 1)"
    by (simp_all add: append_eq_append_conv)
  then show "i = i' \<and> r = r' \<and> out = out' \<and> h = h'"
    using be_bytes_inj [of 8 i i'] be_bytes_inj [of 4 r r'] assms by (simp split: outcome.splits)
qed simp

lemma signatures_are_not_replayed_witness:
  "attestation_message demo_peers (judge_env 1000) 258 3 No [9] \<noteq> attestation_message demo_peers (judge_env 1000) 258 4 No [9]"
  using signatures_are_not_replayed [of 258 258 3 4 demo_peers "judge_env 1000" No "[9]" No "[9]"] by simp

text \<open>What a claim does: it pays the recorded payee and forgets the bond, or is refused.\<close>

lemma claim_dispute_bond_on_core:
  "claim_dispute_bond (core_peers T peer core others) E i s = Inr s' \<longleftrightarrow>
     (\<exists>d p tk. dp_dispute (rs_disputes s) i = Some d \<and> di_payee d = Some p
        \<and> tk_transfer T (di_token d) (e_self E) p (di_bond d) (mc_tok (rs_world s)) = Some tk
        \<and> s' = (without_dispute i s)\<lparr>rs_world := (rs_world s)\<lparr>mc_tok := tk\<rparr>\<rparr>)"
proof (cases "dp_dispute (rs_disputes s) i")
  case (Some d)
  then show ?thesis
    by (cases "di_payee d"; cases "tk_transfer T (di_token d) (e_self E) (the (di_payee d)) (di_bond d) (mc_tok (rs_world s))")
      (auto simp: claim_dispute_bond_def Let_def core_peers_def token_move_def res_simps without_dispute_def)
qed (simp add: claim_dispute_bond_def)

text \<open>C6. Dispute bonds are safe: in every reachable state the resolver holds, in each token, at least the
  bonds of all recorded disputes together, so the bond of a settled dispute is covered. Anyone can send
  it to the one it was assigned to: the claim succeeds exactly when the token executes the transfer of
  the whole bond to that payee (a payee that cannot receive makes it fail), and then removes the
  record. The bond is paid once: in no later state can it be claimed again.\<close>

theorem dispute_bonds_are_held_and_paid:
  assumes "token_ok T" and "mc_reachable T peer core w" and "\<forall>tok. 0 \<le> tk_balance T tok (mc_tok w) self"
    and "resolver_runs T peer core self others 0 (rs_constructor admin core (rs_deployed w)) t s"
  shows "(\<forall>tok. bonds_held tok s \<le> tk_balance T tok (mc_tok (rs_world s)) self)
    \<and> (\<forall>i d p E. dp_dispute (rs_disputes s) i = Some d \<and> di_payee d = Some p
          \<and> resolver_env core self E \<and> t \<le> e_now E \<longrightarrow>
        0 \<le> di_bond d \<and> di_bond d \<le> tk_balance T (di_token d) (mc_tok (rs_world s)) self
        \<and> (\<forall>s'. claim_dispute_bond (core_peers T peer core others) E i s = Inr s' \<longleftrightarrow>
             (\<exists>tk. tk_transfer T (di_token d) self p (di_bond d) (mc_tok (rs_world s)) = Some tk
                \<and> s' = (without_dispute i s)\<lparr>rs_world := (rs_world s)\<lparr>mc_tok := tk\<rparr>\<rparr>))
        \<and> (\<forall>s' u v E'. claim_dispute_bond (core_peers T peer core others) E i s = Inr s'
             \<and> resolver_runs T peer core self others (e_now E) s' u v \<longrightarrow>
             claim_dispute_bond (core_peers T peer core others) E' i v = Inl (Err RsNoDispute)))"
proof -
  let ?own = "\<lambda>tok c. tk_balance T tok (mc_tok c) self" and ?P = "core_peers T peer core others"
  note service = core_peers_service [OF assms(1), of peer core others self]
  note run = assms(4) [unfolded resolver_runs_def]
  note start = market_service.inv_start [OF service assms(2)]
  have "bonds_inv ?own s"
    by (rule bond_custody.bonds_runs [OF core_peers_custody [OF assms(1)] run start])
      (rule bond_custody.bonds_start [OF core_peers_custody [OF assms(1)]], use assms(3) in simp)
  then have fin: "finite (dom (dp_dispute (rs_disputes s)))"
    and pos: "\<And>i d. dp_dispute (rs_disputes s) i = Some d \<Longrightarrow> 0 \<le> di_bond d"
    and held: "\<And>tok. bonds_held tok s \<le> ?own tok (rs_world s)"
    by (auto simp: bonds_inv_def)
  have covered: "di_bond d \<le> ?own (di_token d) (rs_world s)" if "dp_dispute (rs_disputes s) i = Some d" for i d
  proof -
    have "at_key (bond_in (di_token d)) (dp_dispute (rs_disputes s)) i \<le> bonds_held (di_token d) s"
      unfolding bonds_held_def by (rule at_key_le_total [OF fin]) (use pos in \<open>auto simp: bond_in_def\<close>)
    then show ?thesis using that held [of "di_token d"] by (simp add: at_key_def bond_in_def)
  qed
  have once: "claim_dispute_bond ?P E' i v = Inl (Err RsNoDispute)"
    if d: "dp_dispute (rs_disputes s) i = Some d" "di_payee d = Some p" and E: "resolver_env core self E" "t \<le> e_now E"
      and claim: "claim_dispute_bond ?P E i s = Inr s'" and later: "resolver_runs T peer core self others (e_now E) s' u v"
    for i d p E s' u v E'
  proof -
    have "terminal i s"
      using market_service.inv_runs [OF service run start] d by (fastforce simp: rs_inv_def dispute_inv_def)
    then have "terminal i s'" "dp_dispute (rs_disputes s') i = None"
      using claim by (auto simp: claim_dispute_bond_on_core terminal_def resolution_state_of_def without_dispute_def)
    moreover have "rs_inv ?P core self (mc_reachable T peer core) (e_now E) s'"
      by (rule market_service.inv_runs [OF service runs_call [OF run E, of "RsClaimBond i"] start]) (use claim in simp_all)
    ultimately have "dp_dispute (rs_disputes v) i = None"
      using market_service.runs_bond_gone [OF service later [unfolded resolver_runs_def]] by blast
    then show ?thesis by (simp add: claim_dispute_bond_def)
  qed
  have claims: "claim_dispute_bond ?P E i s = Inr s' \<longleftrightarrow>
      (\<exists>tk. tk_transfer T (di_token d) self p (di_bond d) (mc_tok (rs_world s)) = Some tk
         \<and> s' = (without_dispute i s)\<lparr>rs_world := (rs_world s)\<lparr>mc_tok := tk\<rparr>\<rparr>)"
    if "dp_dispute (rs_disputes s) i = Some d" "di_payee d = Some p" "resolver_env core self E" for i d p E s'
    using that by (simp add: claim_dispute_bond_on_core resolver_env_def)
  show ?thesis
    by (intro conjI allI impI; (elim conjE)?) (use held pos covered claims once in \<open>blast+\<close>)
qed

theorem dispute_bonds_are_held_and_paid_witness:
  "bonds_held 50 judge5 \<le> tk_balance ledger_token 50 (mc_tok resolved_world) 7
   \<and> (\<exists>s tk. tk_transfer ledger_token 50 7 8 500 (mc_tok resolved_world) = Some tk \<and> mc_tok (rs_world s) = tk
        \<and> claim_dispute_bond demo_peers (judge_env 1020) 0 judge5 = Inr s
        \<and> claim_dispute_bond demo_peers (judge_env 1030) 0 s = Inl (Err RsNoDispute))"
proof -
  have d: "dp_dispute (rs_disputes judge5) 0 = Some (bond_rec\<lparr>di_payee := Some 8\<rparr>)" "rs_world judge5 = resolved_world"
    by (simp_all add: judge5_def)
  have "\<forall>tok. 0 \<le> tk_balance ledger_token tok (mc_tok demo2) 7"
    by (simp add: ledger_token_def demo2_def demo_tok_def)
  note all = dispute_bonds_are_held_and_paid [OF token_ok_ledger demo_reach(3) this,
      unfolded resolver_runs_def, OF demo_judges(6) [unfolded demo_peers_def judge0_def], folded demo_peers_def]
  obtain tk where tk: "tk_transfer ledger_token 50 7 8 500 (mc_tok resolved_world) = Some tk"
    by (simp add: ledger_token_def resolved_world_def bonded_world_def Let_def)
  let ?s = "(without_dispute 0 judge5)\<lparr>rs_world := resolved_world\<lparr>mc_tok := tk\<rparr>\<rparr>"
  have at: "resolver_env 100 7 (judge_env 1020)" "e_now (judge_env 1020) = 1020"
    using judge_env_ok [of 1020] by (simp_all add: judge_env_def u64_max_def)
  note this_bond = conjunct2 [OF all, rule_format, of 0 "bond_rec\<lparr>di_payee := Some 8\<rparr>" 8 "judge_env 1020"]
  have s: "claim_dispute_bond demo_peers (judge_env 1020) 0 judge5 = Inr ?s"
    using this_bond d at tk by (simp add: bond_rec_def)
  have "claim_dispute_bond demo_peers (judge_env 1030) 0 ?s = Inl (Err RsNoDispute)"
    by (rule conjunct2 [OF conjunct2 [OF conjunct2 [OF this_bond]], rule_format, of ?s 1020 ?s]) (use d at s runs_start in simp_all)
  then show ?thesis using spec [OF conjunct1 [OF all], of 50] tk d(2) s by fastforce
qed

section \<open>A defect\<close>

text \<open>A hybrid rule on the market of the demonstration: feed 60 first, signers 11 and 12 as fallback.\<close>

definition demo_hybrid :: hybrid_config where
  "demo_hybrid = \<lparr>hc_price = \<lparr>pc_reflector = 60, pc_asset = OtherAsset ''BTC'', pc_threshold = 1000, pc_direction = Above,
       pc_max_staleness = 300\<rparr>,
     hc_fallback = \<lparr>sc_signers = [11, 12], sc_threshold = 2, sc_dispute_window = 3600\<rparr>, hc_fallback_after = 600\<rparr>"

definition hybrid_others :: "ledger mc rs_peers" where
  "hybrid_others = demo_others\<lparr>rp_xdr_rule := (\<lambda>r. if r = Hybrid demo_hybrid then [] else [1])\<rparr>"

definition hybrid1 :: "ledger mc rs" where
  "hybrid1 = judge0\<lparr>rs_rules := (rs_rules judge0)\<lparr>ru_hybrid := [0 \<mapsto> demo_hybrid]\<rparr>, rs_states := [0 \<mapsto> HybridPricePending]\<rparr>"

lemma hybrid1_run:
  "rs_exec (core_peers ledger_token no_peer 100 hybrid_others) (judge_env 500) (RsRegisterHybrid 0 demo_hybrid) judge0
     = Inr hybrid1"
  by (simp add: register_hybrid_spec_def reveal_def assert_unconfigured_def configured_def has_price_rule_def
      validate_rule_def signer_config_ok_def assert_matches_commitment_def legacy_spec_hash_def store_rule_def
      set_state_def pin_policy_def upd_rules_def hybrid_others_def demo_others_def judge_eval hybrid1_def
      demo_hybrid_def demo_market_def)

lemma hybrid1_reached: "resolver_reached ledger_token no_peer 100 7 hybrid_others 500 hybrid1"
proof -
  let ?P = "core_peers ledger_token no_peer 100 hybrid_others" and ?later = "world_step ledger_token no_peer 100 7"
  have "rs_runs ?P (resolver_env 100 7) ?later 0 judge0 (e_now (judge_env 500)) hybrid1"
    by (rule runs_call [OF runs_start _ _ _ hybrid1_run]) (simp_all add: judge_env_ok u64_max_def)
  then show ?thesis
    using demo_reach(3) unfolding resolver_reached_def rs_reached_def judge0_def by (auto simp: judge_env_def)
qed

text \<open>C35. A defect: a hybrid market that waits for its price can never be expired. Once its deadline has
  passed, expire_market takes the price branch but looks only for the rules of the three price modes,
  so the call is refused with MarketNotConfigured, whoever calls and even when the feed is dead.\<close>

theorem pending_hybrid_cannot_expire:
  assumes "token_ok T" and "resolver_reached T peer core self others t s"
    and "ru_hybrid (rs_rules s) i = Some cfg" and "resolution_state_of i s = HybridPricePending"
    and "mc_markets (rs_world s) i = Some m"
  shows "expire_market (core_peers T peer core others) E i s
    = (if e_now E < deadline_of m then Inl (Err RsDeadlineNotReached) else Inl (Err RsMarketNotConfigured))"
proof -
  note inv = reached_inv [OF assms(1,2), unfolded rs_inv_def rules_inv_def]
  then have "rules_of i (rs_rules s) = [] \<or> (\<exists>r. rules_of i (rs_rules s) = [r])" by blast
  then have "ru_price (rs_rules s) i = None" "ru_scaled (rs_rules s) i = None" "ru_twap (rs_rules s) i = None"
    using assms(3) by (auto simp: rules_of_def append_eq_Cons_conv)
  moreover have "load_core s = Inr core" using inv by (simp add: load_core_def)
  moreover have "load_market_of (core_peers T peer core others) i s = Inr m"
    using assms(5) calculation(4) by (simp add: load_market_of_def load_market_eq res_simps)
  ultimately show ?thesis
    using assms(3,4)
    by (simp add: expire_market_def assert_not_disputed_def terminal_def expiry_mode_of_def has_price_rule_def
        resolve_instead_def)
qed

theorem pending_hybrid_cannot_expire_witness:
  "expire_market (core_peers ledger_token no_peer 100 hybrid_others) (judge_env 2593000) 0 hybrid1
     = Inl (Err RsMarketNotConfigured)"
proof -
  have "ru_hybrid (rs_rules hybrid1) 0 = Some demo_hybrid" "resolution_state_of 0 hybrid1 = HybridPricePending"
    "rs_world hybrid1 = demo2"
    by (simp_all add: hybrid1_def judge0_def rs_constructor_def rs_deployed_def resolution_state_of_def)
  then show ?thesis
    using pending_hybrid_cannot_expire [OF token_ok_ledger hybrid1_reached, of 0 demo_hybrid _ "judge_env 2593000"]
    by (simp add: judge_env_def deadline_of_def demo_market_def sat_add_u64_def u64_max_def RESOLUTION_GRACE_SECS_def)
qed

end
