(* ===== verification/RegistryTypes.thy ===== *)
theory RegistryTypes
  imports Host
begin

text \<open>
  Types and storage of the reasoning registry (\<^verbatim>\<open>contracts/reasoning-registry/src/lib.rs\<close>): an
  append-only log of the traces agents publish about their decisions, with an index per market, an
  optional hash chain per agent, flags, signing keys and Merkle batches.

  The source uses names it does not declare: seventeen \<open>Error\<close> variants and some events, which are
  declared here; \<^verbatim>\<open>ADMIN_PROPOSAL_TTL_SECS\<close>, \<^verbatim>\<open>require_active_agent\<close> and \<^verbatim>\<open>load_trace\<close>, which are
  parameters with the hash, the signature check, the encodings and the market contract's count.
\<close>

definition COMMIT_DOMAIN_TAG :: symbol where "COMMIT_DOMAIN_TAG = ''oracledesk.trace.commit.v1''"
definition MAX_LEAVES :: nat where "MAX_LEAVES = 4096"
definition MAX_PROOF_LEN :: nat where "MAX_PROOF_LEN = 12"
definition MERKLE_LEAF_PREFIX :: nat where "MERKLE_LEAF_PREFIX = 0"
definition MERKLE_NODE_PREFIX :: nat where "MERKLE_NODE_PREFIX = 1"
definition MAX_AGENT_SIGNING_KEYS :: nat where "MAX_AGENT_SIGNING_KEYS = 4"
definition AGENT_KEY_BIND_DOMAIN :: symbol where "AGENT_KEY_BIND_DOMAIN = ''oracledesk-agent-key-v1''"
definition TRACE_SIG_DOMAIN :: symbol where "TRACE_SIG_DOMAIN = ''oracledesk-trace-v1''"
definition MAX_PAGE_SIZE :: nat where "MAX_PAGE_SIZE = 25"
definition NO_MARKET :: nat where "NO_MARKET = u64_max"

section \<open>Data\<close>

record signing_key_record =
  sk_public_key :: bytesN
  sk_added_at :: nat
  sk_retired_at :: "nat option"

record trace_batch =
  tb_agent :: address
  tb_root :: bytesN
  tb_leaf_count :: nat
  tb_manifest_cid :: string
  tb_published_at :: nat

datatype trace_action =
  ActCreateMarket | ActProposeMarket | ActBuy | ActSell | ActSkip | ActRedeem | ActClaimRemainder
| ActResolve | ActOther symbol

datatype agent_status = AgActive | AgRetired nat | AgRevoked nat symbol

record agent_record =
  ar_status :: agent_status
  ar_registered_at :: nat

record trace_flag =
  tf_reason :: symbol
  tf_flagged_at :: nat
  tf_active :: bool

datatype trace_verdict = TvValid | TvHashMismatch | TvFlagged symbol | TvAgentRevokedAfter nat

record trace_rec =
  tx_market_id :: nat
  tx_agent :: address
  tx_action :: trace_action
  tx_trace_hash :: bytesN
  tx_ipfs_cid :: string
  tx_published_at :: nat

record trace_page_entry =
  te_trace_id :: nat
  te_trace :: trace_rec

record trace_page_rec =
  tp_entries :: "trace_page_entry list"
  tp_next :: nat
  tp_total :: nat

record chain_head =
  ch_seq :: nat
  ch_head_hash :: bytesN
  ch_head_trace_id :: "nat option"

record chain_link =
  cl_seq :: nat
  cl_prev_trace_hash :: bytesN

record rg_pending_rec =
  gq_address :: address
  gq_expires_at :: nat

datatype rg_error =
  RgNotInitialized | RgUnauthorized | RgAgentAlreadyRegistered | RgAgentNotRegistered
| RgTraceNotFound | RgEmptyAction | RgEmptyCid | RgChainHeadMismatch | RgChainedAgentMustChain
| RgTraceAlreadyConsumed | RgNoPendingAdmin | RgPendingAdminExpired | RgCannotReactivateRevoked
| RgInvalidEffectiveTime | RgAgentNotActive | RgFlagHistoryFull | RgPageTooLarge | RgBatchNotFound
| RgInvalidProof | RgInvalidKey | RgKeyAlreadyBound | RgTooManyKeys | RgTraceNotSigned
| RgUseCanonicalAction | RgMarketRequired | RgProposalMustUseNoMarket | RgUnknownMarket

type_synonym 'a rg_res = "(rg_error, 'a) res"

datatype rg_event =
  EvRgAdminTransferProposed address
| EvRgAdminTransferred address address
| EvRgAdminTransferCancelled
| EvTraceChained address nat nat bytesN bytesN
| EvConsumerRegistered address
| EvConsumerUnregistered address
| EvTraceConsumed nat address
| EvRgAgentRegistered address
| EvRgAgentRetired address nat
| EvRgAgentReactivated address
| EvRgAgentRevoked address nat symbol
| EvTraceFlagged nat symbol
| EvTraceUnflagged nat symbol
| EvTracePublished nat nat address trace_action bytesN string nat
| EvAgentSigningKeyAdded address bytesN
| EvAgentSigningKeyRetired address bytesN
| EvTraceSigned nat address bytesN

section \<open>Storage\<close>

text \<open>An \<open>Agent\<close> entry is a record. (\<^verbatim>\<open>load_agent\<close> goes on to read a boolean, but on such an entry the read
  of a record before it already traps in the SDK, and nothing in the source writes one.)\<close>

record log_state =
  lg_next_id :: "nat option"
  lg_trace :: "nat \<Rightarrow> trace_rec option"
  lg_ledger :: "nat \<Rightarrow> nat option"
  lg_market_count :: "nat \<Rightarrow> nat option"
  lg_market_trace :: "nat \<Rightarrow> nat \<Rightarrow> nat option"

record chain_state =
  cn_head :: "address \<Rightarrow> chain_head option"
  cn_agent_trace :: "address \<Rightarrow> nat \<Rightarrow> nat option"
  cn_link :: "nat \<Rightarrow> chain_link option"

record consume_state =
  cs_consumer :: "address \<Rightarrow> bool"
  cs_consumed :: "nat \<Rightarrow> bool"

record flags_state =
  fl_flag :: "nat \<Rightarrow> trace_flag option"
  fl_history :: "nat \<Rightarrow> nat \<Rightarrow> trace_flag option"
  fl_count :: "nat \<Rightarrow> nat option"

record keys_state =
  ks_keys :: "address \<Rightarrow> bytesN list option"
  ks_agent :: "bytesN \<Rightarrow> address option"
  ks_history :: "address \<Rightarrow> nat \<Rightarrow> signing_key_record option"
  ks_count :: "address \<Rightarrow> nat option"
  ks_signature :: "nat \<Rightarrow> (bytesN \<times> bytesN) option"

record rg =
  rg_admin :: "address option"
  rg_pending :: "rg_pending_rec option"
  rg_market_core :: "address option"
  rg_next_batch_id :: "nat option"
  rg_batch :: "nat \<Rightarrow> trace_batch option"
  rg_agents :: "address \<Rightarrow> agent_record option"
  rg_log :: log_state
  rg_chain :: chain_state
  rg_consume :: consume_state
  rg_flags :: flags_state
  rg_keys :: keys_state
  rg_events :: "rg_event list"

section \<open>What is outside\<close>

text \<open>The market contract's count at the time of the call (\<open>None\<close> when the call fails), the host's
  functions, and the undeclared names.\<close>

record rg_peers =
  gp_market_count :: "address \<Rightarrow> nat option"
  gp_network_id :: bytesN
  gp_sha256 :: "nat list \<Rightarrow> bytesN"
  gp_verify :: "bytesN \<Rightarrow> nat list \<Rightarrow> bytesN \<Rightarrow> bool"
  gp_xdr_address :: "address \<Rightarrow> nat list"
  gp_xdr_symbol :: "symbol \<Rightarrow> nat list"
  gp_admin_ttl :: nat
  gp_require_active :: "agent_record option \<Rightarrow> unit rg_res"
  gp_load_trace :: "trace_rec option \<Rightarrow> trace_rec rg_res"

end
