(* ===== verification/RegistryOps.thy ===== *)
theory RegistryOps
  imports RegistryTypes
begin

text \<open>
  The entry points of the reasoning registry and its internal functions
  (\<^verbatim>\<open>contracts/reasoning-registry/src/lib.rs\<close>), helpers first. \<^verbatim>\<open>publish_trace_batch\<close> is not
  modelled: its text is interleaved with the one of another function and does not parse. What only
  it writes (batches and the indexes per agent and per action) is read here where the code reads it,
  or left out together with the view.
\<close>

section \<open>Storage access\<close>

definition rg_publish :: "rg_event \<Rightarrow> rg \<Rightarrow> rg" where
  "rg_publish ev s = s\<lparr>rg_events := rg_events s @ [ev]\<rparr>"

definition rg_require_admin :: "env \<Rightarrow> rg \<Rightarrow> unit rg_res" where
  "rg_require_admin E s = andThen (ok_or RgNotInitialized (rg_admin s)) (require_auth E)"

definition load_agent :: "address \<Rightarrow> rg \<Rightarrow> agent_record option" where
  "load_agent agent s = rg_agents s agent"

definition put_agent :: "address \<Rightarrow> agent_record \<Rightarrow> rg \<Rightarrow> rg" where
  "put_agent agent record s = s\<lparr>rg_agents := (rg_agents s)(agent \<mapsto> record)\<rparr>"

definition get_trace :: "nat \<Rightarrow> rg \<Rightarrow> trace_rec rg_res" where
  "get_trace trace_id s = ok_or RgTraceNotFound (lg_trace (rg_log s) trace_id)"

definition zero32 :: bytesN where "zero32 = replicate 32 0"

definition load_head :: "address \<Rightarrow> rg \<Rightarrow> chain_head" where
  "load_head agent s =
     (case cn_head (rg_chain s) agent of
        Some head \<Rightarrow> head
      | None \<Rightarrow> \<lparr>ch_seq = 0, ch_head_hash = zero32, ch_head_trace_id = None\<rparr>)"

definition commitment_for :: "rg_peers \<Rightarrow> bytesN \<Rightarrow> bytesN \<Rightarrow> bytesN" where
  "commitment_for P trace_hash salt = gp_sha256 P (map of_char COMMIT_DOMAIN_TAG @ trace_hash @ salt)"

section \<open>Construction and admin\<close>

definition rg_deployed :: rg where
  "rg_deployed =
     \<lparr>rg_admin = None, rg_pending = None, rg_market_core = None, rg_next_batch_id = None,
      rg_batch = Map.empty, rg_agents = Map.empty,
      rg_log = \<lparr>lg_next_id = None, lg_trace = Map.empty, lg_ledger = Map.empty, lg_market_count = Map.empty,
        lg_market_trace = (\<lambda>_. Map.empty)\<rparr>,
      rg_chain = \<lparr>cn_head = Map.empty, cn_agent_trace = (\<lambda>_. Map.empty), cn_link = Map.empty\<rparr>,
      rg_consume = \<lparr>cs_consumer = (\<lambda>_. False), cs_consumed = (\<lambda>_. False)\<rparr>,
      rg_flags = \<lparr>fl_flag = Map.empty, fl_history = (\<lambda>_. Map.empty), fl_count = Map.empty\<rparr>,
      rg_keys = \<lparr>ks_keys = Map.empty, ks_agent = Map.empty, ks_history = (\<lambda>_. Map.empty), ks_count = Map.empty,
        ks_signature = Map.empty\<rparr>,
      rg_events = []\<rparr>"

definition rg_constructor :: "address \<Rightarrow> address \<Rightarrow> rg \<Rightarrow> rg" where
  "rg_constructor admin market_core s =
     s\<lparr>rg_admin := Some admin, rg_market_core := Some market_core,
       rg_log := (rg_log s)\<lparr>lg_next_id := Some 0\<rparr>, rg_next_batch_id := Some 0\<rparr>"

definition rg_propose_admin :: "rg_peers \<Rightarrow> env \<Rightarrow> address \<Rightarrow> rg \<Rightarrow> rg rg_res" where
  "rg_propose_admin P E new_admin s =
     andThen (rg_require_admin E s) (\<lambda>_.
     andThen (add_u64 (e_now E) (gp_admin_ttl P)) (\<lambda>expires.
       Inr (rg_publish (EvRgAdminTransferProposed new_admin)
         (s\<lparr>rg_pending := Some \<lparr>gq_address = new_admin, gq_expires_at = expires\<rparr>\<rparr>))))"

definition rg_accept_admin :: "env \<Rightarrow> rg \<Rightarrow> rg rg_res" where
  "rg_accept_admin E s =
     andThen (ok_or RgNoPendingAdmin (rg_pending s)) (\<lambda>pending.
     if gq_expires_at pending < e_now E then Inl (Err RgPendingAdminExpired)
     else
     andThen (require_auth E (gq_address pending)) (\<lambda>_.
     andThen (ok_or RgNotInitialized (rg_admin s)) (\<lambda>old.
       Inr (rg_publish (EvRgAdminTransferred old (gq_address pending))
         (s\<lparr>rg_admin := Some (gq_address pending), rg_pending := None\<rparr>)))))"

definition rg_cancel_admin_transfer :: "env \<Rightarrow> rg \<Rightarrow> rg rg_res" where
  "rg_cancel_admin_transfer E s =
     andThen (rg_require_admin E s) (\<lambda>_.
     if rg_pending s = None then Inl (Err RgNoPendingAdmin)
     else Inr (rg_publish EvRgAdminTransferCancelled (s\<lparr>rg_pending := None\<rparr>)))"

definition rg_admin_view :: "rg \<Rightarrow> address rg_res" where
  "rg_admin_view s = ok_or RgNotInitialized (rg_admin s)"

definition rg_pending_admin_view :: "rg \<Rightarrow> rg_pending_rec option" where
  "rg_pending_admin_view s = rg_pending s"

section \<open>Agents\<close>

definition register_agent :: "env \<Rightarrow> address \<Rightarrow> rg \<Rightarrow> rg rg_res" where
  "register_agent E agent s =
     andThen (rg_require_admin E s) (\<lambda>_.
     if load_agent agent s \<noteq> None then Inl (Err RgAgentAlreadyRegistered)
     else Inr (rg_publish (EvRgAgentRegistered agent)
       (put_agent agent \<lparr>ar_status = AgActive, ar_registered_at = e_now E\<rparr> s)))"

fun is_revoked :: "agent_status \<Rightarrow> bool" where
  "is_revoked (AgRevoked _ _) = True"
| "is_revoked _ = False"

definition retire_agent_internal :: "env \<Rightarrow> address \<Rightarrow> rg \<Rightarrow> rg rg_res" where
  "retire_agent_internal E agent s =
     andThen (ok_or RgAgentNotRegistered (load_agent agent s)) (\<lambda>record.
     if is_revoked (ar_status record) then Inl (Err RgCannotReactivateRevoked)
     else Inr (rg_publish (EvRgAgentRetired agent (e_now E))
       (put_agent agent (record\<lparr>ar_status := AgRetired (e_now E)\<rparr>) s)))"

definition retire_agent :: "env \<Rightarrow> address \<Rightarrow> rg \<Rightarrow> rg rg_res" where
  "retire_agent E agent s = andThen (rg_require_admin E s) (\<lambda>_. retire_agent_internal E agent s)"

definition retire_self :: "env \<Rightarrow> address \<Rightarrow> rg \<Rightarrow> rg rg_res" where
  "retire_self E agent s = andThen (require_auth E agent) (\<lambda>_. retire_agent_internal E agent s)"

definition reactivate_agent :: "env \<Rightarrow> address \<Rightarrow> rg \<Rightarrow> rg rg_res" where
  "reactivate_agent E agent s =
     andThen (rg_require_admin E s) (\<lambda>_.
     andThen (ok_or RgAgentNotRegistered (load_agent agent s)) (\<lambda>record.
     (case ar_status record of
        AgRetired _ \<Rightarrow> Inr (rg_publish (EvRgAgentReactivated agent)
          (put_agent agent (record\<lparr>ar_status := AgActive\<rparr>) s))
      | AgRevoked _ _ \<Rightarrow> Inl (Err RgCannotReactivateRevoked)
      | AgActive \<Rightarrow> Inl (Err RgAgentAlreadyRegistered))))"

definition revoke_agent :: "env \<Rightarrow> address \<Rightarrow> nat \<Rightarrow> symbol \<Rightarrow> rg \<Rightarrow> rg rg_res" where
  "revoke_agent E agent effective_from reason s =
     andThen (rg_require_admin E s) (\<lambda>_.
     andThen (ok_or RgAgentNotRegistered (load_agent agent s)) (\<lambda>record.
     if effective_from < ar_registered_at record \<or> e_now E < effective_from
     then Inl (Err RgInvalidEffectiveTime)
     else Inr (rg_publish (EvRgAgentRevoked agent effective_from reason)
       (put_agent agent (record\<lparr>ar_status := AgRevoked effective_from reason\<rparr>) s))))"

definition unregister_agent :: "env \<Rightarrow> address \<Rightarrow> rg \<Rightarrow> rg rg_res" where
  "unregister_agent E agent s = retire_agent E agent s"

definition is_registered :: "address \<Rightarrow> rg \<Rightarrow> bool" where
  "is_registered agent s =
     (case load_agent agent s of None \<Rightarrow> False | Some r \<Rightarrow> ar_status r = AgActive)"

definition rg_get_agent :: "address \<Rightarrow> rg \<Rightarrow> agent_record option" where
  "rg_get_agent agent s = load_agent agent s"

section \<open>Publishing\<close>

definition validate_action :: "trace_action \<Rightarrow> unit rg_res" where
  "validate_action action =
     (case action of
        ActOther s \<Rightarrow>
          if s \<in> {''create_market'', ''propose_market'', ''buy'', ''sell'', ''skip'', ''redeem'',
                  ''claim_remainder'', ''resolve''}
          then Inl (Err RgUseCanonicalAction) else Inr ()
      | _ \<Rightarrow> Inr ())"

fun is_other :: "trace_action \<Rightarrow> bool" where
  "is_other (ActOther _) = True"
| "is_other _ = False"

definition validate_reference :: "rg_peers \<Rightarrow> nat \<Rightarrow> trace_action \<Rightarrow> rg \<Rightarrow> unit rg_res" where
  "validate_reference P market_id action s =
     (let pre_creation = (action = ActProposeMarket) in
      if market_id = NO_MARKET
      then if pre_creation \<or> is_other action then Inr () else Inl (Err RgMarketRequired)
      else if pre_creation then Inl (Err RgProposalMustUseNoMarket)
      else
      andThen (ok_or RgNotInitialized (rg_market_core s)) (\<lambda>core.
      andThen (unwrap (gp_market_count P core)) (\<lambda>n.
        if n \<le> market_id then Inl (Err RgUnknownMarket) else Inr ())))"

definition check_publish :: "rg_peers \<Rightarrow> env \<Rightarrow> address \<Rightarrow> nat \<Rightarrow> trace_action \<Rightarrow> string \<Rightarrow> rg \<Rightarrow> unit rg_res" where
  "check_publish P E agent market_id action ipfs_cid s =
     andThen (require_auth E agent) (\<lambda>_.
     andThen (ok_or RgAgentNotRegistered (load_agent agent s)) (\<lambda>record.
     if ar_status record \<noteq> AgActive then Inl (Err RgAgentNotActive)
     else
     andThen (validate_action action) (\<lambda>_.
     andThen (validate_reference P market_id action s) (\<lambda>_.
       if ipfs_cid = [] then Inl (Err RgEmptyCid) else Inr ()))))"

definition market_trace_count :: "nat \<Rightarrow> rg \<Rightarrow> nat" where
  "market_trace_count market_id s =
     (case lg_market_count (rg_log s) market_id of None \<Rightarrow> 0 | Some n \<Rightarrow> n)"

definition write_trace ::
    "env \<Rightarrow> address \<Rightarrow> nat \<Rightarrow> trace_action \<Rightarrow> bytesN \<Rightarrow> string \<Rightarrow> rg \<Rightarrow> (nat \<times> rg) rg_res" where
  "write_trace E agent market_id action trace_hash ipfs_cid s =
     andThen (ok_or RgNotInitialized (lg_next_id (rg_log s))) (\<lambda>i.
     andThen (add_u64 i 1) (\<lambda>next_id.
     let tr = \<lparr>tx_market_id = market_id, tx_agent = agent, tx_action = action, tx_trace_hash = trace_hash,
                tx_ipfs_cid = ipfs_cid, tx_published_at = e_now E\<rparr>;
         index = market_trace_count market_id s in
     andThen (add_u64 index 1) (\<lambda>count.
       Inr (i, rg_publish (EvTracePublished i market_id agent action trace_hash ipfs_cid (e_now E))
         (s\<lparr>rg_log := (rg_log s)
            \<lparr>lg_next_id := Some next_id,
             lg_trace := (lg_trace (rg_log s))(i \<mapsto> tr),
             lg_ledger := (lg_ledger (rg_log s))(i \<mapsto> e_seq E),
             lg_market_trace := (lg_market_trace (rg_log s))
               (market_id := (lg_market_trace (rg_log s) market_id)(index \<mapsto> i)),
             lg_market_count := (lg_market_count (rg_log s))(market_id \<mapsto> count)\<rparr>\<rparr>)))))"

definition publish_trace ::
    "rg_peers \<Rightarrow> env \<Rightarrow> address \<Rightarrow> nat \<Rightarrow> trace_action \<Rightarrow> bytesN \<Rightarrow> string \<Rightarrow> rg \<Rightarrow> (nat \<times> rg) rg_res" where
  "publish_trace P E agent market_id action trace_hash ipfs_cid s =
     andThen (check_publish P E agent market_id action ipfs_cid s) (\<lambda>_.
     if 0 < ch_seq (load_head agent s) then Inl (Err RgChainedAgentMustChain)
     else write_trace E agent market_id action trace_hash ipfs_cid s)"

text \<open>What a chained publication writes after the trace.\<close>

definition extend_chain :: "address \<Rightarrow> nat \<Rightarrow> bytesN \<Rightarrow> bytesN \<Rightarrow> nat \<Rightarrow> rg \<Rightarrow> rg" where
  "extend_chain agent expected_seq prev_trace_hash trace_hash i s =
     s\<lparr>rg_chain := (rg_chain s)
         \<lparr>cn_link := (cn_link (rg_chain s))
            (i \<mapsto> \<lparr>cl_seq = expected_seq, cl_prev_trace_hash = prev_trace_hash\<rparr>),
          cn_agent_trace := (cn_agent_trace (rg_chain s))
            (agent := (cn_agent_trace (rg_chain s) agent)(expected_seq \<mapsto> i)),
          cn_head := (cn_head (rg_chain s))
            (agent \<mapsto> \<lparr>ch_seq = expected_seq, ch_head_hash = trace_hash, ch_head_trace_id = Some i\<rparr>)\<rparr>\<rparr>"

text \<open>The test on the chain head.\<close>

definition check_head :: "address \<Rightarrow> nat \<Rightarrow> bytesN \<Rightarrow> rg \<Rightarrow> unit rg_res" where
  "check_head agent expected_seq prev_trace_hash s =
     (let head = load_head agent s in
      andThen (add_u64 (ch_seq head) 1) (\<lambda>next_seq.
        if expected_seq \<noteq> next_seq \<or> prev_trace_hash \<noteq> ch_head_hash head
        then Inl (Err RgChainHeadMismatch) else Inr ()))"

definition publish_chained_trace ::
    "rg_peers \<Rightarrow> env \<Rightarrow> address \<Rightarrow> nat \<Rightarrow> trace_action \<Rightarrow> bytesN \<Rightarrow> string \<Rightarrow> nat \<Rightarrow> bytesN \<Rightarrow> rg \<Rightarrow> (nat \<times> rg) rg_res" where
  "publish_chained_trace P E agent market_id action trace_hash ipfs_cid expected_seq prev_trace_hash s =
     andThen (check_publish P E agent market_id action ipfs_cid s) (\<lambda>_.
     andThen (check_head agent expected_seq prev_trace_hash s) (\<lambda>_.
     andThen (write_trace E agent market_id action trace_hash ipfs_cid s) (\<lambda>(i, s1).
       Inr (i, rg_publish (EvTraceChained agent expected_seq i prev_trace_hash trace_hash)
         (extend_chain agent expected_seq prev_trace_hash trace_hash i s1)))))"

definition agent_chain_head :: "address \<Rightarrow> rg \<Rightarrow> chain_head" where
  "agent_chain_head agent s = load_head agent s"

definition agent_trace_at :: "address \<Rightarrow> nat \<Rightarrow> rg \<Rightarrow> nat rg_res" where
  "agent_trace_at agent sq s = ok_or RgTraceNotFound (cn_agent_trace (rg_chain s) agent sq)"

definition get_trace_link :: "nat \<Rightarrow> rg \<Rightarrow> chain_link option" where
  "get_trace_link trace_id s = cn_link (rg_chain s) trace_id"

definition get_trace_ledger :: "nat \<Rightarrow> rg \<Rightarrow> nat option" where
  "get_trace_ledger trace_id s = lg_ledger (rg_log s) trace_id"

section \<open>Consumers\<close>

definition set_consumer :: "address \<Rightarrow> bool \<Rightarrow> rg \<Rightarrow> rg" where
  "set_consumer consumer b s =
     s\<lparr>rg_consume := (rg_consume s)\<lparr>cs_consumer := (cs_consumer (rg_consume s))(consumer := b)\<rparr>\<rparr>"

definition register_consumer :: "env \<Rightarrow> address \<Rightarrow> rg \<Rightarrow> rg rg_res" where
  "register_consumer E consumer s =
     andThen (rg_require_admin E s) (\<lambda>_.
       Inr (rg_publish (EvConsumerRegistered consumer) (set_consumer consumer True s)))"

definition unregister_consumer :: "env \<Rightarrow> address \<Rightarrow> rg \<Rightarrow> rg rg_res" where
  "unregister_consumer E consumer s =
     andThen (rg_require_admin E s) (\<lambda>_.
       Inr (rg_publish (EvConsumerUnregistered consumer) (set_consumer consumer False s)))"

definition is_consumer :: "address \<Rightarrow> rg \<Rightarrow> bool" where
  "is_consumer consumer s = cs_consumer (rg_consume s) consumer"

definition consume_trace :: "env \<Rightarrow> address \<Rightarrow> nat \<Rightarrow> rg \<Rightarrow> (trace_rec \<times> rg) rg_res" where
  "consume_trace E consumer trace_id s =
     andThen (require_auth E consumer) (\<lambda>_.
     if \<not> cs_consumer (rg_consume s) consumer then Inl (Err RgUnauthorized)
     else
     andThen (get_trace trace_id s) (\<lambda>tr.
     if cs_consumed (rg_consume s) trace_id then Inl (Err RgTraceAlreadyConsumed)
     else Inr (tr, rg_publish (EvTraceConsumed trace_id consumer)
       (s\<lparr>rg_consume := (rg_consume s)\<lparr>cs_consumed := (cs_consumed (rg_consume s))(trace_id := True)\<rparr>\<rparr>))))"

definition is_consumed :: "nat \<Rightarrow> rg \<Rightarrow> bool" where
  "is_consumed trace_id s = cs_consumed (rg_consume s) trace_id"

definition verify_commitment :: "rg_peers \<Rightarrow> bytesN \<Rightarrow> bytesN \<Rightarrow> bytesN \<Rightarrow> bool" where
  "verify_commitment P trace_hash salt commitment \<longleftrightarrow> commitment_for P trace_hash salt = commitment"

section \<open>Flags and verdicts\<close>

definition flag_count :: "nat \<Rightarrow> rg \<Rightarrow> nat" where
  "flag_count trace_id s = (case fl_count (rg_flags s) trace_id of None \<Rightarrow> 0 | Some n \<Rightarrow> n)"

text \<open>The common body of the two entry points.\<close>

definition record_flag :: "env \<Rightarrow> nat \<Rightarrow> symbol \<Rightarrow> bool \<Rightarrow> rg \<Rightarrow> rg rg_res" where
  "record_flag E trace_id reason active s =
     andThen (rg_require_admin E s) (\<lambda>_.
     andThen (get_trace trace_id s) (\<lambda>_.
     let count = flag_count trace_id s in
     if 16 \<le> count then Inl (Err RgFlagHistoryFull)
     else
     let flag = \<lparr>tf_reason = reason, tf_flagged_at = e_now E, tf_active = active\<rparr> in
     andThen (add_u32 count 1) (\<lambda>count'.
       Inr (s\<lparr>rg_flags := (rg_flags s)
         \<lparr>fl_flag := (fl_flag (rg_flags s))(trace_id \<mapsto> flag),
          fl_history := (fl_history (rg_flags s))
            (trace_id := (fl_history (rg_flags s) trace_id)(count \<mapsto> flag)),
          fl_count := (fl_count (rg_flags s))(trace_id \<mapsto> count')\<rparr>\<rparr>))))"

definition flag_trace :: "env \<Rightarrow> nat \<Rightarrow> symbol \<Rightarrow> rg \<Rightarrow> rg rg_res" where
  "flag_trace E trace_id reason s =
     andThen (record_flag E trace_id reason True s) (\<lambda>s1. Inr (rg_publish (EvTraceFlagged trace_id reason) s1))"

definition unflag_trace :: "env \<Rightarrow> nat \<Rightarrow> symbol \<Rightarrow> rg \<Rightarrow> rg rg_res" where
  "unflag_trace E trace_id reason s =
     andThen (record_flag E trace_id reason False s) (\<lambda>s1. Inr (rg_publish (EvTraceUnflagged trace_id reason) s1))"

definition trace_flags :: "nat \<Rightarrow> nat \<Rightarrow> nat \<Rightarrow> rg \<Rightarrow> trace_flag list rg_res" where
  "trace_flags trace_id start limit s =
     andThen (get_trace trace_id s) (\<lambda>_.
     andThen (add_u32 start limit) (\<lambda>upto_end.
       Inr (List.map_filter (fl_history (rg_flags s) trace_id)
         [start..<min upto_end (flag_count trace_id s)])))"

definition get_trace_flag :: "nat \<Rightarrow> rg \<Rightarrow> trace_flag option" where
  "get_trace_flag trace_id s = fl_flag (rg_flags s) trace_id"

text \<open>The last step of \<open>trace_verdict\<close>: an agent revoked from a time on.\<close>

definition revocation_verdict :: "trace_rec \<Rightarrow> rg \<Rightarrow> trace_verdict" where
  "revocation_verdict tr s =
     (case load_agent (tx_agent tr) s of
        Some record \<Rightarrow> (case ar_status record of
            AgRevoked effective_from _ \<Rightarrow>
              if effective_from \<le> tx_published_at tr then TvAgentRevokedAfter effective_from else TvValid
          | _ \<Rightarrow> TvValid)
      | None \<Rightarrow> TvValid)"

definition trace_verdict_of :: "nat \<Rightarrow> bytesN \<Rightarrow> rg \<Rightarrow> trace_verdict rg_res" where
  "trace_verdict_of trace_id received_hash s =
     andThen (get_trace trace_id s) (\<lambda>tr.
     if tx_trace_hash tr \<noteq> received_hash then Inr TvHashMismatch
     else (case fl_flag (rg_flags s) trace_id of
        Some flag \<Rightarrow> if tf_active flag then Inr (TvFlagged (tf_reason flag)) else Inr (revocation_verdict tr s)
      | None \<Rightarrow> Inr (revocation_verdict tr s)))"

definition verify_trace :: "nat \<Rightarrow> bytesN \<Rightarrow> rg \<Rightarrow> bool rg_res" where
  "verify_trace trace_id received_hash s =
     andThen (trace_verdict_of trace_id received_hash s) (\<lambda>v. Inr (v = TvValid))"

section \<open>Reading the log\<close>

definition trace_count :: "rg \<Rightarrow> nat" where
  "trace_count s = (case lg_next_id (rg_log s) of None \<Rightarrow> 0 | Some n \<Rightarrow> n)"

definition market_trace_at :: "nat \<Rightarrow> nat \<Rightarrow> rg \<Rightarrow> nat rg_res" where
  "market_trace_at market_id index s = ok_or RgTraceNotFound (lg_market_trace (rg_log s) market_id index)"

text \<open>The loop of \<open>trace_page\<close> over the indexes of a page.\<close>

fun page_entries :: "(nat \<Rightarrow> nat rg_res) \<Rightarrow> nat list \<Rightarrow> rg \<Rightarrow> trace_page_entry list rg_res" where
  "page_entries id_at [] s = Inr []"
| "page_entries id_at (index # indexes) s =
     andThen (id_at index) (\<lambda>trace_id.
     andThen (get_trace trace_id s) (\<lambda>tr.
     andThen (page_entries id_at indexes s) (\<lambda>rest.
       Inr (\<lparr>te_trace_id = trace_id, te_trace = tr\<rparr> # rest))))"

definition trace_page :: "nat \<Rightarrow> nat \<Rightarrow> nat \<Rightarrow> (nat \<Rightarrow> nat rg_res) \<Rightarrow> rg \<Rightarrow> trace_page_rec rg_res" where
  "trace_page entries_total start limit id_at s =
     (if limit = 0 \<or> MAX_PAGE_SIZE < limit then Inl (Err RgPageTooLarge)
      else let page_end = min (sat_add_u64 start limit) entries_total in
      andThen (page_entries id_at [start..<page_end] s) (\<lambda>entries.
        Inr \<lparr>tp_entries = entries, tp_next = page_end, tp_total = entries_total\<rparr>))"

definition traces_by_market :: "nat \<Rightarrow> nat \<Rightarrow> nat \<Rightarrow> rg \<Rightarrow> trace_page_rec rg_res" where
  "traces_by_market market_id start limit s =
     trace_page (market_trace_count market_id s) start limit (\<lambda>index. market_trace_at market_id index s) s"

end
