(* ===== verification/RegistryKeys.thy ===== *)
theory RegistryKeys
  imports RegistryOps
begin

text \<open>
  Signing keys, signed traces and Merkle batches of the reasoning registry, the second half of its
  entry points (\<^verbatim>\<open>contracts/reasoning-registry/src/lib.rs\<close>).
\<close>

section \<open>Batches\<close>

definition get_batch :: "nat \<Rightarrow> rg \<Rightarrow> trace_batch rg_res" where
  "get_batch batch_id s = ok_or RgBatchNotFound (rg_batch s batch_id)"

definition batch_count :: "rg \<Rightarrow> nat" where
  "batch_count s = (case rg_next_batch_id s of None \<Rightarrow> 0 | Some n \<Rightarrow> n)"

definition leaf_hash :: "rg_peers \<Rightarrow> bytesN \<Rightarrow> bytesN" where
  "leaf_hash P trace_hash = gp_sha256 P (MERKLE_LEAF_PREFIX # trace_hash)"

definition node_hash :: "rg_peers \<Rightarrow> bytesN \<Rightarrow> bytesN \<Rightarrow> bytesN" where
  "node_hash P l r = gp_sha256 P (MERKLE_NODE_PREFIX # l @ r)"

text \<open>The loop of \<open>compute_merkle_root\<close> with the part of the proof that is not used yet; an odd last
  node goes up unchanged.\<close>

function merkle_climb :: "rg_peers \<Rightarrow> bytesN \<Rightarrow> nat \<Rightarrow> nat \<Rightarrow> bytesN list \<Rightarrow> bytesN rg_res" where
  "merkle_climb P current curr_idx curr_len proof_left =
     (if curr_len \<le> 1
      then (if proof_left = [] then Inr current else Inl (Err RgInvalidProof))
      else if curr_len mod 2 = 1 \<and> curr_idx = curr_len - 1
      then (if u32_max < curr_len + 1 then Inl Trap
            else merkle_climb P current (curr_idx div 2) ((curr_len + 1) div 2) proof_left)
      else (case proof_left of
          [] \<Rightarrow> Inl (Err RgInvalidProof)
        | sibling # siblings \<Rightarrow>
            if u32_max < curr_len + 1 then Inl Trap
            else merkle_climb P
              (if curr_idx mod 2 = 0 then node_hash P current sibling else node_hash P sibling current)
              (curr_idx div 2) ((curr_len + 1) div 2) siblings))"
  by pat_completeness auto
termination
  by (relation "measure (\<lambda>(P, current, curr_idx, curr_len, proof_left). curr_len)") auto

declare merkle_climb.simps [simp del]

definition compute_merkle_root :: "rg_peers \<Rightarrow> nat \<Rightarrow> bytesN \<Rightarrow> nat \<Rightarrow> bytesN list \<Rightarrow> bytesN rg_res" where
  "compute_merkle_root P leaf_count trace_hash index prf =
     merkle_climb P (leaf_hash P trace_hash) index leaf_count prf"

definition verify_trace_inclusion :: "rg_peers \<Rightarrow> nat \<Rightarrow> bytesN \<Rightarrow> nat \<Rightarrow> bytesN list \<Rightarrow> rg \<Rightarrow> bool rg_res" where
  "verify_trace_inclusion P batch_id trace_hash index prf s =
     andThen (get_batch batch_id s) (\<lambda>batch.
     if tb_leaf_count batch \<le> index then Inr False
     else if MAX_PROOF_LEN < length prf then Inl (Err RgInvalidProof)
     else (case compute_merkle_root P (tb_leaf_count batch) trace_hash index prf of
        Inr computed \<Rightarrow> Inr (computed = tb_root batch)
      | Inl (Err RgInvalidProof) \<Rightarrow> Inr False
      | Inl e \<Rightarrow> Inl e))"

section \<open>Signing keys\<close>

definition key_bind_message :: "rg_peers \<Rightarrow> env \<Rightarrow> address \<Rightarrow> bytesN \<Rightarrow> nat list" where
  "key_bind_message P E agent public_key =
     map of_char AGENT_KEY_BIND_DOMAIN @ gp_network_id P @ gp_xdr_address P (e_self E)
       @ gp_xdr_address P agent @ public_key"

fun action_code :: "trace_action \<Rightarrow> nat" where
  "action_code ActCreateMarket = 0"
| "action_code ActProposeMarket = 1"
| "action_code ActBuy = 2"
| "action_code ActSell = 3"
| "action_code ActSkip = 4"
| "action_code ActRedeem = 5"
| "action_code ActClaimRemainder = 6"
| "action_code ActResolve = 7"
| "action_code (ActOther _) = 8"

definition trace_attestation_message ::
    "rg_peers \<Rightarrow> env \<Rightarrow> address \<Rightarrow> nat \<Rightarrow> trace_action \<Rightarrow> bytesN \<Rightarrow> nat list" where
  "trace_attestation_message P E agent market_id action trace_hash =
     map of_char TRACE_SIG_DOMAIN @ gp_network_id P @ gp_xdr_address P (e_self E)
       @ gp_xdr_address P agent @ be_bytes 8 market_id @ [action_code action]
       @ (case action of ActOther name \<Rightarrow> gp_xdr_symbol P name | _ \<Rightarrow> []) @ trace_hash"

definition signing_keys_of :: "address \<Rightarrow> rg \<Rightarrow> bytesN list" where
  "signing_keys_of agent s = (case ks_keys (rg_keys s) agent of None \<Rightarrow> [] | Some ks \<Rightarrow> ks)"

definition key_history_count :: "address \<Rightarrow> rg \<Rightarrow> nat" where
  "key_history_count agent s = (case ks_count (rg_keys s) agent of None \<Rightarrow> 0 | Some n \<Rightarrow> n)"

definition upd_keys :: "(keys_state \<Rightarrow> keys_state) \<Rightarrow> rg \<Rightarrow> rg" where
  "upd_keys f s = s\<lparr>rg_keys := f (rg_keys s)\<rparr>"

definition add_signing_key :: "rg_peers \<Rightarrow> env \<Rightarrow> address \<Rightarrow> bytesN \<Rightarrow> bytesN \<Rightarrow> rg \<Rightarrow> rg rg_res" where
  "add_signing_key P E agent public_key proof_sig s =
     andThen (require_auth E agent) (\<lambda>_.
     andThen (gp_require_active P (rg_agents s agent)) (\<lambda>_.
     if public_key = zero32 then Inl (Err RgInvalidKey)
     else if \<not> gp_verify P public_key (key_bind_message P E agent public_key) proof_sig then Inl Trap
     else if ks_agent (rg_keys s) public_key \<noteq> None then Inl (Err RgKeyAlreadyBound)
     else if MAX_AGENT_SIGNING_KEYS \<le> length (signing_keys_of agent s) then Inl (Err RgTooManyKeys)
     else
     let count = key_history_count agent s;
         record = \<lparr>sk_public_key = public_key, sk_added_at = e_now E, sk_retired_at = None\<rparr> in
     andThen (add_u32 count 1) (\<lambda>count'.
       Inr (rg_publish (EvAgentSigningKeyAdded agent public_key) (upd_keys (\<lambda>k. k
         \<lparr>ks_keys := (ks_keys k)(agent \<mapsto> signing_keys_of agent s @ [public_key]),
          ks_agent := (ks_agent k)(public_key \<mapsto> agent),
          ks_history := (ks_history k)(agent := (ks_history k agent)(count \<mapsto> record)),
          ks_count := (ks_count k)(agent \<mapsto> count')\<rparr>) s)))))"

text \<open>The loop that dates the retirement of a key in its history.\<close>

fun retire_in :: "bytesN \<Rightarrow> nat \<Rightarrow> nat list \<Rightarrow> (nat \<Rightarrow> signing_key_record option) \<Rightarrow> (nat \<Rightarrow> signing_key_record option)" where
  "retire_in public_key now [] h = h"
| "retire_in public_key now (i # rest) h =
     (case h i of
        Some record \<Rightarrow>
          if sk_public_key record = public_key \<and> sk_retired_at record = None
          then h(i \<mapsto> record\<lparr>sk_retired_at := Some now\<rparr>) else retire_in public_key now rest h
      | None \<Rightarrow> retire_in public_key now rest h)"

definition retire_signing_key :: "rg_peers \<Rightarrow> env \<Rightarrow> address \<Rightarrow> bytesN \<Rightarrow> rg \<Rightarrow> rg rg_res" where
  "retire_signing_key P E agent public_key s =
     andThen (require_auth E agent) (\<lambda>_.
     andThen (gp_require_active P (rg_agents s agent)) (\<lambda>_.
     let keys = signing_keys_of agent s in
     if public_key \<notin> set keys then Inl (Err RgInvalidKey)
     else Inr (rg_publish (EvAgentSigningKeyRetired agent public_key) (upd_keys (\<lambda>k. k
       \<lparr>ks_keys := (ks_keys k)(agent \<mapsto> remove1 public_key keys),
        ks_history := (ks_history k)
          (agent := retire_in public_key (e_now E) [0..<key_history_count agent s] (ks_history k agent))\<rparr>) s))))"

definition get_signing_keys :: "address \<Rightarrow> rg \<Rightarrow> bytesN list" where
  "get_signing_keys agent s = signing_keys_of agent s"

definition get_key_agent :: "bytesN \<Rightarrow> rg \<Rightarrow> address option" where
  "get_key_agent public_key s = ks_agent (rg_keys s) public_key"

definition signing_key_history_count :: "address \<Rightarrow> rg \<Rightarrow> nat" where
  "signing_key_history_count agent s = key_history_count agent s"

definition signing_key_history :: "address \<Rightarrow> nat \<Rightarrow> nat \<Rightarrow> rg \<Rightarrow> signing_key_record list rg_res" where
  "signing_key_history agent start limit s =
     (let n = signing_key_history_count agent s in
      if n \<le> start \<or> limit = 0 then Inr []
      else andThen (add_u32 start limit) (\<lambda>upto_end.
        Inr (List.map_filter (ks_history (rg_keys s) agent) [start..<min upto_end n])))"

section \<open>Signed traces\<close>

text \<open>The tests on the key and the signature, common to both entry points.\<close>

definition check_signature ::
    "rg_peers \<Rightarrow> env \<Rightarrow> address \<Rightarrow> nat \<Rightarrow> trace_action \<Rightarrow> bytesN \<Rightarrow> bytesN \<Rightarrow> bytesN \<Rightarrow> rg \<Rightarrow> unit rg_res" where
  "check_signature P E agent market_id action trace_hash signing_key signature s =
     (if signing_key \<notin> set (signing_keys_of agent s) then Inl (Err RgInvalidKey)
      else if \<not> gp_verify P signing_key
                   (trace_attestation_message P E agent market_id action trace_hash) signature
      then Inl Trap else Inr ())"

definition put_signature :: "nat \<Rightarrow> bytesN \<Rightarrow> bytesN \<Rightarrow> rg \<Rightarrow> rg" where
  "put_signature i signing_key signature =
     upd_keys (\<lambda>k. k\<lparr>ks_signature := (ks_signature k)(i \<mapsto> (signing_key, signature))\<rparr>)"

definition publish_trace_signed ::
    "rg_peers \<Rightarrow> env \<Rightarrow> address \<Rightarrow> nat \<Rightarrow> trace_action \<Rightarrow> bytesN \<Rightarrow> string \<Rightarrow> bytesN \<Rightarrow> bytesN \<Rightarrow> rg
      \<Rightarrow> (nat \<times> rg) rg_res" where
  "publish_trace_signed P E agent market_id action trace_hash ipfs_cid signing_key signature s =
     andThen (require_auth E agent) (\<lambda>_.
     andThen (check_publish P E agent market_id action ipfs_cid s) (\<lambda>_.
     if 0 < ch_seq (load_head agent s) then Inl (Err RgChainedAgentMustChain)
     else
     andThen (check_signature P E agent market_id action trace_hash signing_key signature s) (\<lambda>_.
     andThen (write_trace E agent market_id action trace_hash ipfs_cid s) (\<lambda>(i, s1).
       Inr (i, rg_publish (EvTraceSigned i agent signing_key) (put_signature i signing_key signature s1))))))"

definition publish_chained_trace_signed ::
    "rg_peers \<Rightarrow> env \<Rightarrow> address \<Rightarrow> nat \<Rightarrow> trace_action \<Rightarrow> bytesN \<Rightarrow> string \<Rightarrow> nat \<Rightarrow> bytesN \<Rightarrow> bytesN \<Rightarrow> bytesN
      \<Rightarrow> rg \<Rightarrow> (nat \<times> rg) rg_res" where
  "publish_chained_trace_signed P E agent market_id action trace_hash ipfs_cid expected_seq prev_trace_hash
       signing_key signature s =
     andThen (require_auth E agent) (\<lambda>_.
     andThen (check_publish P E agent market_id action ipfs_cid s) (\<lambda>_.
     andThen (check_head agent expected_seq prev_trace_hash s) (\<lambda>_.
     andThen (check_signature P E agent market_id action trace_hash signing_key signature s) (\<lambda>_.
     andThen (write_trace E agent market_id action trace_hash ipfs_cid s) (\<lambda>(i, s1).
       Inr (i, rg_publish (EvTraceSigned i agent signing_key)
         (rg_publish (EvTraceChained agent expected_seq i prev_trace_hash trace_hash)
           (put_signature i signing_key signature
             (extend_chain agent expected_seq prev_trace_hash trace_hash i s1)))))))))"

definition get_trace_signature :: "nat \<Rightarrow> rg \<Rightarrow> (bytesN \<times> bytesN) option" where
  "get_trace_signature trace_id s = ks_signature (rg_keys s) trace_id"

definition verify_trace_signature :: "rg_peers \<Rightarrow> env \<Rightarrow> nat \<Rightarrow> rg \<Rightarrow> bool rg_res" where
  "verify_trace_signature P E trace_id s =
     andThen (gp_load_trace P (lg_trace (rg_log s) trace_id)) (\<lambda>tr.
     andThen (ok_or RgTraceNotSigned (ks_signature (rg_keys s) trace_id)) (\<lambda>(signing_key, signature).
     if get_key_agent signing_key s \<noteq> Some (tx_agent tr) then Inr False
     else if \<not> gp_verify P signing_key
                 (trace_attestation_message P E (tx_agent tr) (tx_market_id tr) (tx_action tr) (tx_trace_hash tr))
                 signature
     then Inl Trap else Inr True))"

end
