(* ===== verification/RegistryCalls.thy ===== *)
theory RegistryCalls
  imports RegistryKeys
begin

text \<open>
  The reasoning registry as a transition system: its calls, what kinds of state change a successful
  call makes (\<open>rg_step\<close>), and the histories of calls since deployment.
\<close>

datatype rg_call =
  RgProposeAdmin address
| RgAcceptAdmin
| RgCancelAdmin
| RgRegisterAgent address
| RgRetireAgent address
| RgRetireSelf address
| RgReactivateAgent address
| RgRevokeAgent address nat symbol
| RgUnregisterAgent address
| RgPublish address nat trace_action bytesN string
| RgPublishChained address nat trace_action bytesN string nat bytesN
| RgPublishSigned address nat trace_action bytesN string bytesN bytesN
| RgPublishChainedSigned address nat trace_action bytesN string nat bytesN bytesN bytesN
| RgRegisterConsumer address
| RgUnregisterConsumer address
| RgConsume address nat
| RgFlag nat symbol
| RgUnflag nat symbol
| RgAddKey address bytesN bytesN
| RgRetireKey address bytesN

fun forget :: "('a \<times> rg) rg_res \<Rightarrow> rg rg_res" where
  "forget (Inr (x, s)) = Inr s"
| "forget (Inl e) = Inl e"

lemma forget_eq [res_simps]: "forget r = Inr s \<longleftrightarrow> (\<exists>x. r = Inr (x, s))"
  by (cases r rule: forget.cases) auto

fun rg_exec :: "rg_peers \<Rightarrow> env \<Rightarrow> rg_call \<Rightarrow> rg \<Rightarrow> rg rg_res" where
  "rg_exec P E (RgProposeAdmin a) s = rg_propose_admin P E a s"
| "rg_exec P E RgAcceptAdmin s = rg_accept_admin E s"
| "rg_exec P E RgCancelAdmin s = rg_cancel_admin_transfer E s"
| "rg_exec P E (RgRegisterAgent a) s = register_agent E a s"
| "rg_exec P E (RgRetireAgent a) s = retire_agent E a s"
| "rg_exec P E (RgRetireSelf a) s = retire_self E a s"
| "rg_exec P E (RgReactivateAgent a) s = reactivate_agent E a s"
| "rg_exec P E (RgRevokeAgent a t r) s = revoke_agent E a t r s"
| "rg_exec P E (RgUnregisterAgent a) s = unregister_agent E a s"
| "rg_exec P E (RgPublish a m act h cid) s = forget (publish_trace P E a m act h cid s)"
| "rg_exec P E (RgPublishChained a m act h cid q prev) s =
     forget (publish_chained_trace P E a m act h cid q prev s)"
| "rg_exec P E (RgPublishSigned a m act h cid k sg) s =
     forget (publish_trace_signed P E a m act h cid k sg s)"
| "rg_exec P E (RgPublishChainedSigned a m act h cid q prev k sg) s =
     forget (publish_chained_trace_signed P E a m act h cid q prev k sg s)"
| "rg_exec P E (RgRegisterConsumer c) s = register_consumer E c s"
| "rg_exec P E (RgUnregisterConsumer c) s = unregister_consumer E c s"
| "rg_exec P E (RgConsume c i) s = forget (consume_trace E c i s)"
| "rg_exec P E (RgFlag i r) s = flag_trace E i r s"
| "rg_exec P E (RgUnflag i r) s = unflag_trace E i r s"
| "rg_exec P E (RgAddKey a k sg) s = add_signing_key P E a k sg s"
| "rg_exec P E (RgRetireKey a k) s = retire_signing_key P E a k s"

section \<open>Kinds of change\<close>

definition active :: "address \<Rightarrow> rg \<Rightarrow> bool" where
  "active a s \<longleftrightarrow> (\<exists>r. load_agent a s = Some r \<and> ar_status r = AgActive)"

definition revoked :: "address \<Rightarrow> rg \<Rightarrow> bool" where
  "revoked a s \<longleftrightarrow> (\<exists>r. load_agent a s = Some r \<and> is_revoked (ar_status r))"

inductive rg_step :: "rg_peers \<Rightarrow> env \<Rightarrow> rg \<Rightarrow> rg \<Rightarrow> bool" for P E s where
  step_admin: "rg_step P E s (s\<lparr>rg_admin := a, rg_pending := p, rg_events := ev\<rparr>)"
| step_agent: "(revoked a s \<Longrightarrow> is_revoked (ar_status r))
    \<Longrightarrow> rg_step P E s ((put_agent a r s)\<lparr>rg_events := ev\<rparr>)"
| step_consumer: "rg_step P E s ((set_consumer c b s)\<lparr>rg_events := ev\<rparr>)"
| step_consume: "\<not> cs_consumed (rg_consume s) i \<Longrightarrow> lg_trace (rg_log s) i = Some tr
    \<Longrightarrow> rg_step P E s (s\<lparr>rg_consume := (rg_consume s)\<lparr>cs_consumed := (cs_consumed (rg_consume s))(i := True)\<rparr>,
          rg_events := ev\<rparr>)"
| step_flags: "rg_step P E s (s\<lparr>rg_flags := f, rg_events := ev\<rparr>)"
| step_add_key: "ks_agent (rg_keys s) k = None \<Longrightarrow> length (signing_keys_of a s) < MAX_AGENT_SIGNING_KEYS
    \<Longrightarrow> rg_step P E s (s\<lparr>rg_keys := (rg_keys s)
          \<lparr>ks_keys := (ks_keys (rg_keys s))(a \<mapsto> signing_keys_of a s @ [k]),
           ks_agent := (ks_agent (rg_keys s))(k \<mapsto> a), ks_history := h, ks_count := n\<rparr>, rg_events := ev\<rparr>)"
| step_retire_key: "rg_step P E s (s\<lparr>rg_keys := (rg_keys s)
          \<lparr>ks_keys := (ks_keys (rg_keys s))(a \<mapsto> remove1 k (signing_keys_of a s)), ks_history := h\<rparr>, rg_events := ev\<rparr>)"
| step_publish: "active a s \<Longrightarrow> e_auth E a \<Longrightarrow> write_trace E a m act h cid s = Inr (i, s1)
    \<Longrightarrow> ch_seq (load_head a s) = 0 \<and> s2 = s1 \<or> check_head a q prev s = Inr () \<and> s2 = extend_chain a q prev h i s1
    \<Longrightarrow> s3 = s2 \<or> check_signature P E a m act h k sg s = Inr () \<and> s3 = put_signature i k sg s2
    \<Longrightarrow> rg_step P E s (s3\<lparr>rg_events := ev\<rparr>)"

inductive_cases rg_stepE [consumes 1, case_names admin agent consumer consume flags add_key retire_key publish]:
  "rg_step P E s s'"

lemma rg_publish_eq: "rg_publish ev s = s\<lparr>rg_events := rg_events s @ [ev]\<rparr>"
  by (simp add: rg_publish_def)

lemma check_publish_active: "check_publish P E a m act cid s = Inr u \<Longrightarrow> active a s \<and> e_auth E a"
  by (auto simp: check_publish_def active_def res_simps int_ops split: if_splits)

lemma step_publish_with:
  assumes "check_publish P' E a m act cid s = Inr u" and "write_trace E a m act h cid s = Inr (i, s1)"
    and "ch_seq (load_head a s) = 0 \<and> mid = s1 \<or> check_head a q prev s = Inr () \<and> mid = extend_chain a q prev h i s1"
    and "fin = mid \<or> check_signature P E a m act h k sg s = Inr () \<and> fin = put_signature i k sg mid"
    and "s' = fin\<lparr>rg_events := ev\<rparr>"
  shows "rg_step P E s s'"
  using step_publish [OF _ _ assms(2-4)] check_publish_active [OF assms(1)] assms(5) by blast

lemma agent_steps:
  "register_agent E a s = Inr s' \<Longrightarrow> rg_step P E s s'"
  "retire_agent_internal E a s = Inr s' \<Longrightarrow> rg_step P E s s'"
  "revoke_agent E a t r s = Inr s' \<Longrightarrow> rg_step P E s s'"
  by (auto simp: register_agent_def retire_agent_internal_def revoke_agent_def res_simps
      rg_publish_eq revoked_def split: if_splits intro!: step_agent)

lemma reactivate_step: "reactivate_agent E a s = Inr s' \<Longrightarrow> rg_step P E s s'"
  unfolding reactivate_agent_def
proof (elim andThenE, goal_cases)
  case (1 u r)
  then show ?case
    by (cases "ar_status r") (auto simp: rg_publish_eq revoked_def res_simps intro!: step_agent)
qed

lemma key_steps:
  "add_signing_key P' E a k sg s = Inr s' \<Longrightarrow> rg_step P E s s'"
  "retire_signing_key P' E a k s = Inr s' \<Longrightarrow> rg_step P E s s'"
  by (auto simp: add_signing_key_def retire_signing_key_def res_simps rg_publish_eq upd_keys_def Let_def
      split: if_splits intro!: step_add_key step_retire_key)

lemma flag_steps: "record_flag E i r b s = Inr s1 \<Longrightarrow> rg_step P E s (s1\<lparr>rg_events := ev\<rparr>)"
  by (auto simp: record_flag_def res_simps Let_def split: if_splits intro!: step_flags)

lemma admin_steps:
  "rg_propose_admin P' E a s = Inr s' \<Longrightarrow> rg_step P E s s'"
  "rg_accept_admin E s = Inr s' \<Longrightarrow> rg_step P E s s'"
  "rg_cancel_admin_transfer E s = Inr s' \<Longrightarrow> rg_step P E s s'"
proof -
  have "rg_propose_admin P' E a s = Inr s' \<Longrightarrow> \<exists>p ev. s' = s\<lparr>rg_admin := rg_admin s, rg_pending := p, rg_events := ev\<rparr>"
    "rg_accept_admin E s = Inr s' \<Longrightarrow> \<exists>b ev. s' = s\<lparr>rg_admin := b, rg_pending := None, rg_events := ev\<rparr>"
    "rg_cancel_admin_transfer E s = Inr s' \<Longrightarrow> \<exists>ev. s' = s\<lparr>rg_admin := rg_admin s, rg_pending := None, rg_events := ev\<rparr>"
    by (auto simp: rg_propose_admin_def rg_accept_admin_def rg_cancel_admin_transfer_def res_simps rg_publish_eq
        split: if_splits)
  then show "rg_propose_admin P' E a s = Inr s' \<Longrightarrow> rg_step P E s s'"
    "rg_accept_admin E s = Inr s' \<Longrightarrow> rg_step P E s s'"
    "rg_cancel_admin_transfer E s = Inr s' \<Longrightarrow> rg_step P E s s'"
    using step_admin by metis+
qed

lemma rg_exec_step:
  assumes "rg_exec P E c s = Inr s'"
  shows "rg_step P E s s'"
proof (cases c)
  case (RgPublish a m act h cid)
  then obtain i s1 where "check_publish P E a m act cid s = Inr ()" "write_trace E a m act h cid s = Inr (i, s1)" "s' = s1"
      "ch_seq (load_head a s) = 0"
    using assms by (auto simp: publish_trace_def res_simps split: if_splits)
  then show ?thesis by (intro step_publish_with [where mid = "s1" and fin = "s1" and ev = "rg_events s1"]) auto
next
  case (RgPublishChained a m act h cid q prev)
  then obtain i s1 ev where "check_publish P E a m act cid s = Inr ()" "write_trace E a m act h cid s = Inr (i, s1)"
      "check_head a q prev s = Inr ()" "s' = (extend_chain a q prev h i s1)\<lparr>rg_events := ev\<rparr>"
    using assms by (auto simp: publish_chained_trace_def res_simps rg_publish_eq)
  then show ?thesis by (intro step_publish_with [where mid = "extend_chain a q prev h i s1" and fin = "extend_chain a q prev h i s1"]) auto
next
  case (RgPublishSigned a m act h cid k sg)
  then obtain i s1 ev where "check_publish P E a m act cid s = Inr ()" "write_trace E a m act h cid s = Inr (i, s1)"
      "check_signature P E a m act h k sg s = Inr ()" "s' = (put_signature i k sg s1)\<lparr>rg_events := ev\<rparr>"
      "ch_seq (load_head a s) = 0"
    using assms by (auto simp: publish_trace_signed_def res_simps rg_publish_eq split: if_splits)
  then show ?thesis by (intro step_publish_with [where mid = "s1" and fin = "put_signature i k sg s1"]) auto
next
  case (RgPublishChainedSigned a m act h cid q prev k sg)
  then obtain i s1 ev where "check_publish P E a m act cid s = Inr ()" "write_trace E a m act h cid s = Inr (i, s1)"
      "check_head a q prev s = Inr ()" "check_signature P E a m act h k sg s = Inr ()"
      "s' = (put_signature i k sg (extend_chain a q prev h i s1))\<lparr>rg_events := ev\<rparr>"
    using assms by (auto simp: publish_chained_trace_signed_def res_simps rg_publish_eq)
  then show ?thesis by (intro step_publish_with [where mid = "extend_chain a q prev h i s1" and fin = "put_signature i k sg (extend_chain a q prev h i s1)"]) auto
next
  case (RgConsume a i)
  then show ?thesis
    using assms by (auto simp: consume_trace_def get_trace_def res_simps int_ops rg_publish_eq
        split: if_splits intro!: step_consume)
next
  case (RgFlag i r)
  then show ?thesis using assms by (auto simp: flag_trace_def res_simps rg_publish_eq intro: flag_steps)
next
  case (RgUnflag i r)
  then show ?thesis using assms by (auto simp: unflag_trace_def res_simps rg_publish_eq intro: flag_steps)
qed (use assms in \<open>auto simp: retire_agent_def retire_self_def unregister_agent_def register_consumer_def
    unregister_consumer_def res_simps rg_publish_eq intro: agent_steps reactivate_step key_steps admin_steps step_consumer\<close>)

section \<open>Histories\<close>

text \<open>Calls at non-decreasing times; the market contract's count may be different at every call.\<close>

inductive rg_runs :: "rg_peers \<Rightarrow> address \<Rightarrow> nat \<Rightarrow> rg \<Rightarrow> nat \<Rightarrow> rg \<Rightarrow> bool" for P self t s where
  rg_start: "rg_runs P self t s t s"
| rg_more: "rg_runs P self t s u v \<Longrightarrow> e_self E = self \<Longrightarrow> u \<le> e_now E
    \<Longrightarrow> rg_exec (P\<lparr>gp_market_count := count\<rparr>) E c v = Inr v' \<Longrightarrow> rg_runs P self t s (e_now E) v'"

definition rg_reached :: "rg_peers \<Rightarrow> address \<Rightarrow> nat \<Rightarrow> rg \<Rightarrow> bool" where
  "rg_reached P self t s \<longleftrightarrow> (\<exists>admin core. rg_runs P self 0 (rg_constructor admin core rg_deployed) t s)"

end
