(* ===== verification/RegistryLog.thy ===== *)
theory RegistryLog
  imports RegistryCalls
begin

text \<open>
  The invariants of the reasoning registry: the traces are a gapless numbered log in time order, the
  index of a market lists exactly its traces in the order of the log, the chained traces of an agent
  form one hash chain that ends at its head, and stored signatures verify under keys bound to the author.
\<close>

section \<open>Abstract views of the log\<close>

definition traces_of :: "rg \<Rightarrow> nat \<Rightarrow> trace_rec option" where
  "traces_of s = lg_trace (rg_log s)"

definition hash_at :: "rg \<Rightarrow> nat \<Rightarrow> bytesN" where
  "hash_at s i = (case traces_of s i of None \<Rightarrow> zero32 | Some tr \<Rightarrow> tx_trace_hash tr)"

definition in_market :: "nat \<Rightarrow> rg \<Rightarrow> nat \<Rightarrow> bool" where
  "in_market m s i = (case traces_of s i of None \<Rightarrow> False | Some tr \<Rightarrow> tx_market_id tr = m)"

definition by_agent :: "address \<Rightarrow> rg \<Rightarrow> nat \<Rightarrow> bool" where
  "by_agent a s i = (case traces_of s i of None \<Rightarrow> False | Some tr \<Rightarrow> tx_agent tr = a)"

definition chained_by :: "address \<Rightarrow> rg \<Rightarrow> nat \<Rightarrow> bool" where
  "chained_by a s i \<longleftrightarrow> by_agent a s i \<and> cn_link (rg_chain s) i \<noteq> None"

text \<open>The traces of a market, and the chained traces of an agent, in the order of publication.\<close>

definition market_ids :: "nat \<Rightarrow> rg \<Rightarrow> nat list" where
  "market_ids m s = filter (in_market m s) [0..<trace_count s]"

definition chain_ids :: "address \<Rightarrow> rg \<Rightarrow> nat list" where
  "chain_ids a s = filter (chained_by a s) [0..<trace_count s]"

text \<open>The hash before position \<open>k\<close> of a list of traces.\<close>

definition hash_before :: "rg \<Rightarrow> nat list \<Rightarrow> nat \<Rightarrow> bytesN" where
  "hash_before s ids k = (if k = 0 then zero32 else hash_at s (ids ! (k - 1)))"

section \<open>Invariants\<close>

definition log_inv :: "nat \<Rightarrow> rg \<Rightarrow> bool" where
  "log_inv t s \<longleftrightarrow> lg_next_id (rg_log s) \<noteq> None \<and> trace_count s \<le> u64_max
     \<and> (\<forall>i. traces_of s i \<noteq> None \<longleftrightarrow> i < trace_count s)
     \<and> (\<forall>i tr. traces_of s i = Some tr \<longrightarrow> tx_published_at tr \<le> t)
     \<and> (\<forall>m. market_trace_count m s = length (market_ids m s)
          \<and> (\<forall>k < length (market_ids m s). lg_market_trace (rg_log s) m k = Some (market_ids m s ! k)))"

definition chain_inv :: "rg \<Rightarrow> bool" where
  "chain_inv s \<longleftrightarrow> (\<forall>i. cn_link (rg_chain s) i \<noteq> None \<longrightarrow> i < trace_count s)
     \<and> (\<forall>a. ch_seq (load_head a s) = length (chain_ids a s)
          \<and> ch_head_hash (load_head a s) = hash_before s (chain_ids a s) (length (chain_ids a s))
          \<and> (\<forall>q. cn_agent_trace (rg_chain s) a q
               = (if 0 < q \<and> q \<le> length (chain_ids a s) then Some (chain_ids a s ! (q - 1)) else None))
          \<and> (\<forall>k < length (chain_ids a s). cn_link (rg_chain s) (chain_ids a s ! k)
               = Some \<lparr>cl_seq = k + 1, cl_prev_trace_hash = hash_before s (chain_ids a s) k\<rparr>))"

definition signed_ok :: "rg_peers \<Rightarrow> address \<Rightarrow> rg \<Rightarrow> nat \<Rightarrow> bool" where
  "signed_ok P self s i \<longleftrightarrow> (\<forall>k sg. ks_signature (rg_keys s) i = Some (k, sg) \<longrightarrow>
     (\<exists>tr. traces_of s i = Some tr \<and> ks_agent (rg_keys s) k = Some (tx_agent tr)
        \<and> (\<forall>E. e_self E = self \<longrightarrow> gp_verify P k
             (trace_attestation_message P E (tx_agent tr) (tx_market_id tr) (tx_action tr) (tx_trace_hash tr)) sg)))"

definition keys_inv :: "rg_peers \<Rightarrow> address \<Rightarrow> rg \<Rightarrow> bool" where
  "keys_inv P self s \<longleftrightarrow>
     (\<forall>a. distinct (signing_keys_of a s) \<and> length (signing_keys_of a s) \<le> MAX_AGENT_SIGNING_KEYS
        \<and> (\<forall>k \<in> set (signing_keys_of a s). ks_agent (rg_keys s) k = Some a))
     \<and> (\<forall>i. signed_ok P self s i)"

definition rg_inv :: "rg_peers \<Rightarrow> address \<Rightarrow> nat \<Rightarrow> rg \<Rightarrow> bool" where
  "rg_inv P self t s \<longleftrightarrow> log_inv t s \<and> chain_inv s \<and> keys_inv P self s"

section \<open>What a publication writes\<close>

lemma write_traceD:
  assumes "write_trace E a m act h cid s = Inr (i, s1)"
  shows "lg_next_id (rg_log s) = Some i" "i = trace_count s" "trace_count s1 = Suc i"
    "lg_next_id (rg_log s1) = Some (Suc i)" "Suc i \<le> u64_max"
    "traces_of s1 = (traces_of s)(i \<mapsto> \<lparr>tx_market_id = m, tx_agent = a, tx_action = act, tx_trace_hash = h,
       tx_ipfs_cid = cid, tx_published_at = e_now E\<rparr>)"
    "lg_market_trace (rg_log s1) = (lg_market_trace (rg_log s))
       (m := (lg_market_trace (rg_log s) m)(market_trace_count m s \<mapsto> i))"
    "market_trace_count j s1 = (if j = m then Suc (market_trace_count m s) else market_trace_count j s)"
    "lg_ledger (rg_log s1) = (lg_ledger (rg_log s))(i \<mapsto> e_seq E)"
    "rg_chain s1 = rg_chain s" "rg_keys s1 = rg_keys s" "rg_agents s1 = rg_agents s" "rg_consume s1 = rg_consume s"
    "rg_flags s1 = rg_flags s" "rg_admin s1 = rg_admin s"
  using assms
  by (auto simp: write_trace_def res_simps int_ops rg_publish_eq trace_count_def market_trace_count_def traces_of_def Let_def)

lemma filter_upt_Suc: "filter p [0..<Suc n] = filter p [0..<n] @ (if p n then [n] else [])"
  by simp

lemma filter_upt_cong: "(\<And>i. i < n \<Longrightarrow> p i = q i) \<Longrightarrow> filter p [0..<n] = filter q [0..<n]"
  by (rule filter_cong) auto

lemma log_inv_write:
  assumes inv: "log_inv t s" and w: "write_trace E a m act h cid s = Inr (i, s1)" and t: "t \<le> e_now E"
    and log: "rg_log s' = rg_log s1"
  shows "log_inv (e_now E) s'"
proof -
  note d = write_traceD [OF w]
  have same: "traces_of s' = traces_of s1" "trace_count s' = trace_count s1" "market_trace_count j s' = market_trace_count j s1" for j
    using log by (simp_all add: traces_of_def trace_count_def market_trace_count_def)
  have ids: "market_ids j s' = market_ids j s @ (if j = m then [i] else [])" for j
  proof -
    have "filter (in_market j s') [0..<i] = filter (in_market j s) [0..<i]"
      by (rule filter_upt_cong) (simp add: in_market_def same d(6))
    then show ?thesis
      by (simp add: market_ids_def same d(2) [symmetric] d(3) in_market_def [of _ s'] d(6))
  qed
  have "market_trace_count j s = length (market_ids j s)"
      "k < length (market_ids j s) \<Longrightarrow> lg_market_trace (rg_log s) j k = Some (market_ids j s ! k)" for j k
    using inv by (simp_all add: log_inv_def)
  then have "market_trace_count j s' = length (market_ids j s')
      \<and> (\<forall>k < length (market_ids j s'). lg_market_trace (rg_log s') j k = Some (market_ids j s' ! k))" for j
    using d(7,8) by (auto simp: same log ids nth_append less_Suc_eq)
  moreover have "traces_of s' k \<noteq> None \<longleftrightarrow> k < trace_count s'" for k
    using inv d(2) by (auto simp: log_inv_def same d(3,6) less_Suc_eq)
  moreover have "tx_published_at tr \<le> e_now E" if "traces_of s' k = Some tr" for k tr
    using that inv t by (fastforce simp: log_inv_def same d(6) split: if_splits)
  ultimately show ?thesis using d(3-5) same(2) by (simp add: log_inv_def log)
qed

lemma chain_ids_write:
  assumes inv: "log_inv t s" and w: "write_trace E a m act h cid s = Inr (i, s1)" and "rg_log s' = rg_log s1"
    and "\<And>j. j < i \<Longrightarrow> cn_link (rg_chain s') j = cn_link (rg_chain s) j"
  shows "chain_ids b s' = chain_ids b s @ (if b = a \<and> cn_link (rg_chain s') i \<noteq> None then [i] else [])"
    and "j < i \<Longrightarrow> hash_at s' j = hash_at s j" and "hash_at s' i = h"
proof -
  note d = write_traceD [OF w]
  have same: "traces_of s' = traces_of s1" "trace_count s' = trace_count s1"
    using assms(3) by (simp_all add: traces_of_def trace_count_def)
  have "filter (chained_by b s') [0..<i] = filter (chained_by b s) [0..<i]"
    by (rule filter_upt_cong) (simp add: chained_by_def by_agent_def same d(6) assms(4))
  then show "chain_ids b s' = chain_ids b s @ (if b = a \<and> cn_link (rg_chain s') i \<noteq> None then [i] else [])"
    by (auto simp: chain_ids_def same d(2) [symmetric] d(3) chained_by_def [of _ s'] by_agent_def d(6))
  show "j < i \<Longrightarrow> hash_at s' j = hash_at s j" "hash_at s' i = h"
    by (simp_all add: hash_at_def same d(6))
qed

lemma chain_ids_less: "k < length (chain_ids a s) \<Longrightarrow> chain_ids a s ! k < trace_count s"
  using nth_mem [of k "chain_ids a s"] by (auto simp: chain_ids_def)

lemma chain_inv_write:
  assumes inv: "chain_inv s" "log_inv t s" and w: "write_trace E a m act h cid s = Inr (i, s1)"
    and log: "rg_log s' = rg_log s1"
    and chain: "rg_chain s' = rg_chain s
      \<or> check_head a q prev s = Inr () \<and> rg_chain s' = rg_chain (extend_chain a q prev h i s)"
  shows "chain_inv s'"
proof -
  note d = write_traceD [OF w]
  have count: "trace_count s' = Suc i" using log d(3) by (simp add: trace_count_def)
  have fresh: "cn_link (rg_chain s) i = None" using inv(1) d(2) by (auto simp: chain_inv_def)
  have link: "j < i \<Longrightarrow> cn_link (rg_chain s') j = cn_link (rg_chain s) j" for j
    using chain by (auto simp: extend_chain_def)
  note ids = chain_ids_write [OF inv(2) w log link]
  have hb: "k \<le> length (chain_ids b s) \<Longrightarrow> hash_before s' (chain_ids b s') k = hash_before s (chain_ids b s) k" for b k
    using ids(2) chain_ids_less [of "k - 1" b s] d(2)
    by (cases k) (auto simp: hash_before_def ids(1) nth_append)
  have less: "cn_link (rg_chain s') j \<noteq> None \<longrightarrow> j < trace_count s'" for j
    using inv(1) chain d(2) count by (auto simp: chain_inv_def extend_chain_def less_Suc_eq split: if_splits)
  have at: "ch_seq (load_head b s) = length (chain_ids b s)"
      "ch_head_hash (load_head b s) = hash_before s (chain_ids b s) (length (chain_ids b s))"
      "cn_agent_trace (rg_chain s) b p
         = (if 0 < p \<and> p \<le> length (chain_ids b s) then Some (chain_ids b s ! (p - 1)) else None)"
      "k < length (chain_ids b s) \<Longrightarrow> cn_link (rg_chain s) (chain_ids b s ! k)
         = Some \<lparr>cl_seq = k + 1, cl_prev_trace_hash = hash_before s (chain_ids b s) k\<rparr>" for b p k
    using inv(1) by (simp_all add: chain_inv_def)
  show ?thesis
  proof (cases "rg_chain s' = rg_chain s")
    case True
    then have "load_head b s' = load_head b s" "chain_ids b s' = chain_ids b s" for b
      by (simp_all add: load_head_def ids(1) fresh)
    then show ?thesis using less at hb True by (simp add: chain_inv_def)
  next
    case False
    then have q: "check_head a q prev s = Inr ()" and ch: "rg_chain s' = rg_chain (extend_chain a q prev h i s)"
      using chain by auto
    have qp: "q = Suc (length (chain_ids a s))" "prev = hash_before s (chain_ids a s) (length (chain_ids a s))"
      using q at(1,2) [of a] by (auto simp: check_head_def res_simps int_ops Let_def split: if_splits)
    have ids': "chain_ids b s' = chain_ids b s @ (if b = a then [i] else [])" for b
      using ids(1) [of b] ch by (simp add: extend_chain_def)
    have "load_head b s' = (if b = a then \<lparr>ch_seq = q, ch_head_hash = h, ch_head_trace_id = Some i\<rparr> else load_head b s)" for b
      using ch by (simp add: load_head_def extend_chain_def)
    moreover have "cn_agent_trace (rg_chain s') b p
        = (if 0 < p \<and> p \<le> length (chain_ids b s') then Some (chain_ids b s' ! (p - 1)) else None)" for b p
      using at(3) [of b p] ch qp(1) by (auto simp: extend_chain_def ids' nth_append le_Suc_eq)
    moreover have "cn_link (rg_chain s') (chain_ids b s' ! k)
        = Some \<lparr>cl_seq = k + 1, cl_prev_trace_hash = hash_before s' (chain_ids b s') k\<rparr>"
      if "k < length (chain_ids b s')" for b k
    proof (cases "k < length (chain_ids b s)")
      case True
      then show ?thesis
        using at(4) [OF True] hb [of k b] link chain_ids_less [OF True] d(2) by (simp add: ids' nth_append)
    next
      case False
      then have "b = a" "k = length (chain_ids a s)" using that by (auto simp: ids' split: if_splits)
      then show ?thesis using hb [of k a] ch qp by (simp add: ids' extend_chain_def nth_append)
    qed
    moreover have "ch_head_hash (load_head b s') = hash_before s' (chain_ids b s') (length (chain_ids b s'))" for b
      using ids(3) hb [of "length (chain_ids b s)" b] at(2) [of b] calculation(1) [of b]
      by (cases "b = a") (simp_all add: hash_before_def ids' nth_append)
    ultimately show ?thesis
      using less at(1) qp(1) by (simp add: chain_inv_def ids')
  qed
qed

section \<open>Preservation\<close>

lemma log_inv_frame: "rg_log s' = rg_log s \<Longrightarrow> log_inv t s \<Longrightarrow> t \<le> u \<Longrightarrow> log_inv u s'"
proof -
  assume log: "rg_log s' = rg_log s" and inv: "log_inv t s" and t: "t \<le> u"
  have "in_market m s' = in_market m s" for m
    by (rule ext) (simp add: in_market_def traces_of_def log)
  then have "market_ids m s' = market_ids m s" for m by (simp add: market_ids_def trace_count_def log)
  then show ?thesis
    using inv t log by (fastforce simp: log_inv_def traces_of_def trace_count_def market_trace_count_def)
qed

lemma chain_inv_frame:
  assumes "rg_log s' = rg_log s" and "rg_chain s' = rg_chain s" and "chain_inv s"
  shows "chain_inv s'"
proof -
  have count: "trace_count s' = trace_count s" and head: "load_head a s' = load_head a s" for a
    using assms(1,2) by (simp_all add: trace_count_def load_head_def)
  have chained: "chained_by a s' = chained_by a s" for a
    by (rule ext) (simp add: chained_by_def by_agent_def traces_of_def assms(1,2))
  have "hash_at s' = hash_at s" by (rule ext) (simp add: hash_at_def traces_of_def assms(1))
  with chained have "chain_ids a s' = chain_ids a s" "hash_before s' ids k = hash_before s ids k" for a ids k
    by (simp_all add: chain_ids_def hash_before_def count)
  then show ?thesis using assms head count by (simp add: chain_inv_def)
qed

lemma signed_ok_frame:
  assumes "signed_ok P self s i" and "ks_signature (rg_keys s') i = ks_signature (rg_keys s) i"
    and "traces_of s \<subseteq>\<^sub>m traces_of s'" and "ks_agent (rg_keys s) \<subseteq>\<^sub>m ks_agent (rg_keys s')"
  shows "signed_ok P self s' i"
  unfolding signed_ok_def
proof (intro allI impI)
  fix k sg assume "ks_signature (rg_keys s') i = Some (k, sg)"
  then obtain tr where "traces_of s i = Some tr" "ks_agent (rg_keys s) k = Some (tx_agent tr)"
      "\<forall>E. e_self E = self \<longrightarrow> gp_verify P k
         (trace_attestation_message P E (tx_agent tr) (tx_market_id tr) (tx_action tr) (tx_trace_hash tr)) sg"
    using assms(1,2) unfolding signed_ok_def by fastforce
  then show "\<exists>tr. traces_of s' i = Some tr \<and> ks_agent (rg_keys s') k = Some (tx_agent tr)
      \<and> (\<forall>E. e_self E = self \<longrightarrow> gp_verify P k
         (trace_attestation_message P E (tx_agent tr) (tx_market_id tr) (tx_action tr) (tx_trace_hash tr)) sg)"
    using map_leE [OF assms(3)] map_leE [OF assms(4)] by blast
qed

end
