(* ===== verification/RegistrySteps.thy ===== *)
theory RegistrySteps
  imports RegistryLog
begin

text \<open>
  Every call of the reasoning registry keeps its invariants and only extends its history: traces,
  links, ledgers and signatures are never changed, a used trace stays used, a bound key stays bound,
  a revoked agent stays revoked and publishes nothing more.
\<close>

section \<open>The invariants\<close>

lemma keys_inv_frame:
  assumes "rg_keys s' = rg_keys s" and "traces_of s \<subseteq>\<^sub>m traces_of s'" and "keys_inv P self s"
  shows "keys_inv P self s'"
  using assms signed_ok_frame [OF _ _ assms(2), of P self]
  by (simp add: keys_inv_def signing_keys_of_def)

lemma keys_inv_add:
  assumes inv: "keys_inv P self s" and free: "ks_agent (rg_keys s) k = None"
    and room: "length (signing_keys_of a s) < MAX_AGENT_SIGNING_KEYS" and log: "rg_log s' = rg_log s"
    and keys: "ks_keys (rg_keys s') = (ks_keys (rg_keys s))(a \<mapsto> signing_keys_of a s @ [k])"
      "ks_agent (rg_keys s') = (ks_agent (rg_keys s))(k \<mapsto> a)" "ks_signature (rg_keys s') = ks_signature (rg_keys s)"
  shows "keys_inv P self s'"
proof -
  have new: "signing_keys_of b s' = (if b = a then signing_keys_of a s @ [k] else signing_keys_of b s)" for b
    by (simp add: signing_keys_of_def keys(1))
  have "k \<notin> set (signing_keys_of b s)" for b using inv free by (auto simp: keys_inv_def)
  moreover have "ks_agent (rg_keys s) \<subseteq>\<^sub>m ks_agent (rg_keys s')" using free keys(2) by (auto simp: map_le_def)
  then have "signed_ok P self s i \<Longrightarrow> signed_ok P self s' i" for i
    by (rule signed_ok_frame [of P self s, rotated 3]) (simp_all add: keys(3) traces_of_def log map_le_refl)
  ultimately show ?thesis
    using inv room by (auto simp: keys_inv_def new keys(2))
qed

lemma keys_inv_retire:
  assumes inv: "keys_inv P self s" and log: "rg_log s' = rg_log s"
    and keys: "ks_keys (rg_keys s') = (ks_keys (rg_keys s))(a \<mapsto> remove1 k (signing_keys_of a s))"
      "ks_agent (rg_keys s') = ks_agent (rg_keys s)" "ks_signature (rg_keys s') = ks_signature (rg_keys s)"
  shows "keys_inv P self s'"
proof -
  have new: "signing_keys_of b s' = (if b = a then remove1 k (signing_keys_of a s) else signing_keys_of b s)" for b
    by (simp add: signing_keys_of_def keys(1))
  have "signed_ok P self s i \<Longrightarrow> signed_ok P self s' i" for i
    by (rule signed_ok_frame [of P self s]) (simp_all add: keys(2,3) traces_of_def log map_le_refl)
  moreover have "length (remove1 k xs) \<le> length xs" for xs :: "bytesN list"
    by (simp add: length_remove1)
  ultimately show ?thesis
    using inv by (auto simp: keys_inv_def new keys(2) intro: order.trans dest: notin_set_remove1)
qed

lemma message_self: "e_self E = e_self E' \<Longrightarrow> trace_attestation_message P E = trace_attestation_message P E'"
  by (simp add: trace_attestation_message_def fun_eq_iff)

lemma write_traces_le:
  assumes "log_inv t s" and "write_trace E a m act h cid s = Inr (i, s1)"
  shows "traces_of s \<subseteq>\<^sub>m traces_of s1"
proof -
  have "traces_of s i = None" using assms(1) write_traceD(2) [OF assms(2)] by (auto simp: log_inv_def)
  then show ?thesis using write_traceD(6) [OF assms(2)] by (auto simp: map_le_def)
qed

lemma keys_inv_sign:
  assumes inv: "keys_inv P self s" "log_inv t s" and w: "write_trace E a m act h cid s = Inr (i, s1)"
    and sg: "check_signature P E a m act h k sg s = Inr ()" and self: "e_self E = self"
    and log: "rg_log s' = rg_log s1" and keys: "rg_keys s' = (rg_keys s)\<lparr>ks_signature := (ks_signature (rg_keys s))(i \<mapsto> (k, sg))\<rparr>"
  shows "keys_inv P self s'"
proof -
  have le: "traces_of s \<subseteq>\<^sub>m traces_of s'"
    using write_traces_le [OF inv(2) w] log by (simp add: traces_of_def)
  have "k \<in> set (signing_keys_of a s)" "gp_verify P k (trace_attestation_message P E a m act h) sg"
    using sg by (auto simp: check_signature_def split: if_splits)
  then have "signed_ok P self s' i"
    using inv(1) write_traceD(6) [OF w] message_self [of E, unfolded self] log keys
    unfolding signed_ok_def keys_inv_def by (auto simp: traces_of_def)
  moreover have "signed_ok P self s' j" if "j \<noteq> i" for j
    by (rule signed_ok_frame [OF _ _ le]) (use inv(1) that keys in \<open>auto simp: keys_inv_def\<close>)
  ultimately have "signed_ok P self s' j" for j by (cases "j = i") simp_all
  then show ?thesis
    using inv(1) by (auto simp: keys_inv_def signing_keys_of_def keys)
qed

lemma rg_inv_step:
  assumes "rg_step P E s s'" and "rg_inv P self t s" and "e_self E = self" and "t \<le> e_now E"
  shows "rg_inv P self (e_now E) s'"
  using assms(1)
proof (cases rule: rg_stepE)
  case (publish a m act h cid i s1 s2 q prev s3 k sg ev)
  have inv: "log_inv t s" "chain_inv s" "keys_inv P self s" using assms(2) by (simp_all add: rg_inv_def)
  note w = publish(4) and d = write_traceD [OF publish(4)]
  have s2: "rg_log s2 = rg_log s1" "rg_keys s2 = rg_keys s"
      "rg_chain s2 = rg_chain s \<or> check_head a q prev s = Inr () \<and> rg_chain s2 = rg_chain (extend_chain a q prev h i s)"
    using publish(5) d(10,11) by (auto simp: extend_chain_def)
  have s3: "rg_log s' = rg_log s1" "rg_chain s' = rg_chain s2"
      "rg_keys s' = rg_keys s \<or> check_signature P E a m act h k sg s = Inr ()
         \<and> rg_keys s' = (rg_keys s)\<lparr>ks_signature := (ks_signature (rg_keys s))(i \<mapsto> (k, sg))\<rparr>"
    using publish(1,6) s2(1,2) by (auto simp: put_signature_def upd_keys_def)
  have le: "traces_of s \<subseteq>\<^sub>m traces_of s'"
    using write_traces_le [OF inv(1) w] s3(1) by (simp add: traces_of_def)
  have "keys_inv P self s'"
    using s3(3) keys_inv_frame [OF _ le inv(3)] keys_inv_sign [OF inv(3,1) w _ assms(3) s3(1)] by blast
  moreover have "chain_inv s'"
    by (rule chain_inv_write [OF inv(2,1) w s3(1), of q prev]) (use s2(3) s3(2) in auto)
  ultimately show ?thesis
    using log_inv_write [OF inv(1) w assms(4) s3(1)] by (simp add: rg_inv_def)
next
  case (add_key k a ev n h)
  then show ?thesis
    using assms(2,4) log_inv_frame [of s' s t "e_now E"] chain_inv_frame [of s' s] keys_inv_add [of P self s k a s']
    by (simp add: rg_inv_def)
next
  case (retire_key ev h a k)
  then show ?thesis
    using assms(2,4) log_inv_frame [of s' s t "e_now E"] chain_inv_frame [of s' s] keys_inv_retire [of P self s s' a k]
    by (simp add: rg_inv_def)
qed (use assms(2,4) log_inv_frame [of s' s t "e_now E"] chain_inv_frame [of s' s] keys_inv_frame [of s' s P self] in
    \<open>simp_all add: rg_inv_def put_agent_def set_consumer_def traces_of_def\<close>)

section \<open>The history only grows\<close>

definition rg_grows :: "rg \<Rightarrow> rg \<Rightarrow> bool" where
  "rg_grows s s' \<longleftrightarrow> traces_of s \<subseteq>\<^sub>m traces_of s' \<and> trace_count s \<le> trace_count s'
     \<and> (\<forall>i. cn_link (rg_chain s) i \<noteq> None \<longrightarrow> cn_link (rg_chain s') i \<noteq> None)
     \<and> (\<forall>a. 0 < ch_seq (load_head a s) \<longrightarrow> 0 < ch_seq (load_head a s')
          \<and> (\<forall>i. by_agent a s' i \<longrightarrow> by_agent a s i \<or> cn_link (rg_chain s') i \<noteq> None))
     \<and> (\<forall>i < trace_count s. cn_link (rg_chain s') i = cn_link (rg_chain s) i
          \<and> lg_ledger (rg_log s') i = lg_ledger (rg_log s) i
          \<and> ks_signature (rg_keys s') i = ks_signature (rg_keys s) i)
     \<and> ks_agent (rg_keys s) \<subseteq>\<^sub>m ks_agent (rg_keys s')
     \<and> (\<forall>i. cs_consumed (rg_consume s) i \<longrightarrow> cs_consumed (rg_consume s') i)
     \<and> (\<forall>a. revoked a s \<longrightarrow> revoked a s' \<and> (\<forall>i. by_agent a s' i \<longrightarrow> by_agent a s i))"

lemma rg_grows_refl [simp]: "rg_grows s s"
  by (simp add: rg_grows_def)

lemma rg_grows_trans:
  assumes "rg_grows s u" and "rg_grows u v"
  shows "rg_grows s v"
proof -
  have "i < trace_count u" if "i < trace_count s" for i using that assms(1) by (simp add: rg_grows_def)
  moreover have "0 < ch_seq (load_head a v) \<and> (\<forall>i. by_agent a v i \<longrightarrow> by_agent a s i \<or> cn_link (rg_chain v) i \<noteq> None)"
    if "0 < ch_seq (load_head a s)" for a
    using assms that unfolding rg_grows_def by metis
  ultimately show ?thesis
    using assms map_le_trans [of "traces_of s" "traces_of u" "traces_of v"]
      map_le_trans [of "ks_agent (rg_keys s)" "ks_agent (rg_keys u)" "ks_agent (rg_keys v)"]
    unfolding rg_grows_def by auto
qed

lemma revoked_put: "revoked b (put_agent a r s) \<longleftrightarrow> (if b = a then is_revoked (ar_status r) else revoked b s)"
  by (simp add: revoked_def load_agent_def put_agent_def)

lemma revoked_cong: "rg_agents s' = rg_agents s \<Longrightarrow> revoked a s' = revoked a s"
  by (simp add: revoked_def load_agent_def)

lemma by_agent_cong: "rg_log s' = rg_log s \<Longrightarrow> by_agent a s' i = by_agent a s i"
  by (simp add: by_agent_def traces_of_def)

lemma rg_grows_step:
  assumes "rg_step P E s s'" and "log_inv t s"
  shows "rg_grows s s'"
  using assms(1)
proof (cases rule: rg_stepE)
  case (publish a m act h cid i s1 s2 q prev s3 k sg ev)
  note w = publish(4) and d = write_traceD [OF publish(4)]
  have log: "rg_log s' = rg_log s1" and agents: "rg_agents s' = rg_agents s" and consume: "rg_consume s' = rg_consume s"
    and keys: "ks_agent (rg_keys s') = ks_agent (rg_keys s)"
    and old: "j < i \<Longrightarrow> cn_link (rg_chain s') j = cn_link (rg_chain s) j \<and> ks_signature (rg_keys s') j = ks_signature (rg_keys s) j" for j
    using publish(1,5,6) d(10-13) by (auto simp: extend_chain_def put_signature_def upd_keys_def)
  have "traces_of s \<subseteq>\<^sub>m traces_of s'" using write_traces_le [OF assms(2) w] log by (simp add: traces_of_def)
  moreover have "trace_count s' = Suc i" using d(3) log by (simp add: trace_count_def)
  moreover have "by_agent b s' j \<Longrightarrow> by_agent b s j" if "revoked b s" for b j
  proof -
    have "b \<noteq> a" using that publish(2) by (auto simp: revoked_def active_def)
    then show "by_agent b s' j \<Longrightarrow> by_agent b s j"
      using d(6) log by (auto simp: by_agent_def traces_of_def split: if_splits)
  qed
  moreover have "cn_link (rg_chain s) j \<noteq> None \<longrightarrow> cn_link (rg_chain s') j \<noteq> None" for j
    using publish(1,5,6) d(10) by (auto simp: extend_chain_def put_signature_def upd_keys_def)
  moreover have "0 < ch_seq (load_head b s') \<and> (\<forall>j. by_agent b s' j \<longrightarrow> by_agent b s j \<or> cn_link (rg_chain s') j \<noteq> None)"
    if "0 < ch_seq (load_head b s)" for b
  proof (cases "b = a")
    case True
    then have q: "check_head a q prev s = Inr ()" and "rg_chain s' = rg_chain (extend_chain a q prev h i s)"
      using that publish(1,5,6) d(10) by (auto simp: extend_chain_def put_signature_def upd_keys_def)
    moreover have "0 < q" using q by (auto simp: check_head_def res_simps int_ops Let_def split: if_splits)
    ultimately show ?thesis
      using True d(6) log by (auto simp: load_head_def extend_chain_def by_agent_def traces_of_def split: if_splits)
  next
    case False
    then have "load_head b s' = load_head b s"
      using publish(1,5,6) d(10) by (auto simp: load_head_def extend_chain_def put_signature_def upd_keys_def)
    then show ?thesis
      using that False d(6) log by (auto simp: by_agent_def traces_of_def split: if_splits)
  qed
  ultimately show ?thesis
    using d(2,9) log old keys consume revoked_cong [OF agents] by (simp add: rg_grows_def)
next
  case (agent a r ev)
  then have agents: "rg_agents s' = rg_agents (put_agent a r s)" by simp
  have "revoked b s \<Longrightarrow> revoked b s'" for b
    using agent(2) unfolding revoked_cong [OF agents] revoked_put by auto
  then show ?thesis
    using agent by (auto simp: rg_grows_def put_agent_def traces_of_def trace_count_def by_agent_def load_head_def map_le_def)
qed (use revoked_cong [of s' s] by_agent_cong [of s' s] in
    \<open>auto simp: rg_grows_def traces_of_def trace_count_def set_consumer_def map_le_def load_head_def\<close>)

section \<open>Along histories\<close>

lemma rg_step_count: "rg_step (P\<lparr>gp_market_count := count\<rparr>) E s s' \<Longrightarrow> rg_step P E s s'"
proof -
  have "check_signature (P\<lparr>gp_market_count := count\<rparr>) = check_signature P"
    by (simp add: check_signature_def trace_attestation_message_def fun_eq_iff cong: trace_action.case_cong)
  then show "rg_step (P\<lparr>gp_market_count := count\<rparr>) E s s' \<Longrightarrow> rg_step P E s s'"
    by (auto elim!: rg_stepE intro: rg_step.intros)
qed

lemma rg_runs_inv:
  assumes "rg_runs P self t s u v" and "rg_inv P self t s"
  shows "rg_inv P self u v \<and> rg_grows s v \<and> t \<le> u"
  using assms
proof (induction rule: rg_runs.induct)
  case (rg_more u v E count c v')
  then have step: "rg_step P E v v'" using rg_exec_step rg_step_count by blast
  show ?case
    using rg_inv_step [OF step _ rg_more(2,3)] rg_grows_step [OF step] rg_grows_trans rg_more
    by (auto simp: rg_inv_def)
qed simp

lemma rg_inv_start: "rg_inv P self 0 (rg_constructor admin core rg_deployed)"
  by (auto simp: rg_inv_def log_inv_def chain_inv_def keys_inv_def signed_ok_def rg_constructor_def rg_deployed_def
      traces_of_def trace_count_def market_trace_count_def market_ids_def chain_ids_def load_head_def hash_before_def
      signing_keys_of_def)

lemma rg_reached_inv: "rg_reached P self t s \<Longrightarrow> rg_inv P self t s"
  unfolding rg_reached_def using rg_runs_inv [OF _ rg_inv_start] by blast

end
