(* ===== verification/RegistryMerkle.thy ===== *)
theory RegistryMerkle
  imports RegistrySteps
begin

text \<open>
  The Merkle trees behind trace batches: the root of a list of leaves as a reference definition, the
  proof for a leaf, and what the contract's check says about both. Hash collisions are not assumed
  away: a wrong leaf that passes exhibits two different inputs that were hashed to the same value.
\<close>

section \<open>The reference tree\<close>

fun pair_up :: "rg_peers \<Rightarrow> bytesN list \<Rightarrow> bytesN list" where
  "pair_up P (x # y # xs) = node_hash P x y # pair_up P xs"
| "pair_up P xs = xs"

lemma length_pair_up [simp]: "length (pair_up P xs) = (length xs + 1) div 2"
  by (induction P xs rule: pair_up.induct) auto

lemma pair_up_nth:
  "2 * k < length xs \<Longrightarrow>
     pair_up P xs ! k = (if 2 * k + 1 < length xs then node_hash P (xs ! (2 * k)) (xs ! (2 * k + 1)) else xs ! (2 * k))"
proof (induction P xs arbitrary: k rule: pair_up.induct)
  case (1 P x y xs)
  then show ?case by (cases k) auto
qed auto

function tree_root :: "rg_peers \<Rightarrow> bytesN list \<Rightarrow> bytesN" where
  "tree_root P xs = (if length xs \<le> 1 then concat xs else tree_root P (pair_up P xs))"
  by pat_completeness auto
termination by (relation "measure (\<lambda>(P, xs). length xs)") auto

function honest_proof :: "rg_peers \<Rightarrow> bytesN list \<Rightarrow> nat \<Rightarrow> bytesN list" where
  "honest_proof P xs i =
     (if length xs \<le> 1 then []
      else if length xs mod 2 = 1 \<and> i = length xs - 1 then honest_proof P (pair_up P xs) (i div 2)
      else xs ! (if i mod 2 = 0 then i + 1 else i - 1) # honest_proof P (pair_up P xs) (i div 2))"
  by pat_completeness auto
termination by (relation "measure (\<lambda>(P, xs, i). length xs)") auto

declare tree_root.simps [simp del] honest_proof.simps [simp del]

section \<open>Proofs for the leaves of the tree pass\<close>

text \<open>One step up, from a leaf with or without a sibling.\<close>

lemma step_up:
  assumes "1 < length xs" and "i < length xs"
  shows "i div 2 < length (pair_up P xs)"
    and "length xs mod 2 = 1 \<and> i = length xs - 1 \<Longrightarrow> pair_up P xs ! (i div 2) = xs ! i"
    and "\<not> (length xs mod 2 = 1 \<and> i = length xs - 1) \<Longrightarrow> i mod 2 = 0 \<Longrightarrow>
      i + 1 < length xs \<and> pair_up P xs ! (i div 2) = node_hash P (xs ! i) (xs ! (i + 1))"
    and "i mod 2 = 1 \<Longrightarrow> pair_up P xs ! (i div 2) = node_hash P (xs ! (i - 1)) (xs ! i)"
proof -
  have low: "2 * (i div 2) < length xs" using assms by presburger
  note at = pair_up_nth [OF low, of P]
  show "i div 2 < length (pair_up P xs)" using assms by simp
  show "length xs mod 2 = 1 \<and> i = length xs - 1 \<Longrightarrow> pair_up P xs ! (i div 2) = xs ! i"
  proof -
    assume *: "length xs mod 2 = 1 \<and> i = length xs - 1"
    then have "2 * (i div 2) = i" "\<not> i + 1 < length xs" using assms by presburger+
    then show ?thesis using at by simp
  qed
  show "i + 1 < length xs \<and> pair_up P xs ! (i div 2) = node_hash P (xs ! i) (xs ! (i + 1))"
    if "\<not> (length xs mod 2 = 1 \<and> i = length xs - 1)" "i mod 2 = 0"
  proof -
    have "2 * (i div 2) = i" "i + 1 < length xs" using that assms by presburger+
    then show ?thesis using at by simp
  qed
  show "pair_up P xs ! (i div 2) = node_hash P (xs ! (i - 1)) (xs ! i)" if "i mod 2 = 1"
  proof -
    have "2 * (i div 2) = i - 1" "2 * (i div 2) + 1 = i" using that by presburger+
    then show ?thesis using at assms(2) by simp
  qed
qed

lemma climb_honest:
  "i < length xs \<Longrightarrow> length xs < u32_max \<Longrightarrow>
     merkle_climb P (xs ! i) i (length xs) (honest_proof P xs i) = Inr (tree_root P xs)"
proof (induction P xs i rule: honest_proof.induct)
  case (1 P xs i)
  show ?case
  proof (cases "length xs \<le> 1")
    case True
    then obtain x where "xs = [x]" using 1(3) by (cases xs) auto
    then show ?thesis using 1(3) by (simp add: merkle_climb.simps tree_root.simps honest_proof.simps)
  next
    case False
    then have up: "i div 2 < length (pair_up P xs)" "length (pair_up P xs) < u32_max"
      using step_up(1) [of xs i P] 1(3,4) by auto
    note s = step_up [of xs i P]
    have fits: "\<not> u32_max < length xs + 1" using 1(4) by simp
    show ?thesis
    proof (cases "length xs mod 2 = 1 \<and> i = length xs - 1")
      case True
      have "merkle_climb P (pair_up P xs ! (i div 2)) (i div 2) ((length xs + 1) div 2)
          (honest_proof P (pair_up P xs) (i div 2)) = Inr (tree_root P (pair_up P xs))"
        using 1(1) [OF False True up] by simp
      then show ?thesis
        using False True fits s(2) 1(3)
        by (subst merkle_climb.simps, subst honest_proof.simps, subst tree_root.simps) simp
    next
      case odd: False
      have "merkle_climb P (pair_up P xs ! (i div 2)) (i div 2) ((length xs + 1) div 2)
          (honest_proof P (pair_up P xs) (i div 2)) = Inr (tree_root P (pair_up P xs))"
        using 1(2) [OF False odd up] by simp
      moreover have "i mod 2 = 0 \<or> i mod 2 = 1" by presburger
      ultimately show ?thesis
        using False odd fits s(3,4) 1(3)
        by (subst merkle_climb.simps, subst honest_proof.simps, subst tree_root.simps) auto
    qed
  qed
qed

lemma length_honest_proof: "length xs \<le> 2 ^ k \<Longrightarrow> length (honest_proof P xs i) \<le> k"
proof (induction k arbitrary: xs i)
  case (Suc k)
  have "length (pair_up P xs) \<le> 2 ^ k" using Suc.prems by simp
  then show ?case
    using Suc.IH [of "pair_up P xs" "i div 2"] by (subst honest_proof.simps) (auto simp: le_SucI)
qed (simp add: honest_proof.simps)

section \<open>What passes is a leaf, or a collision\<close>

text \<open>The inputs hashed when the tree is built, and when a proof is checked.\<close>

fun level_inputs :: "bytesN list \<Rightarrow> nat list list" where
  "level_inputs (x # y # xs) = (MERKLE_NODE_PREFIX # x @ y) # level_inputs xs"
| "level_inputs xs = []"

function tree_inputs :: "rg_peers \<Rightarrow> bytesN list \<Rightarrow> nat list list" where
  "tree_inputs P xs = (if length xs \<le> 1 then [] else level_inputs xs @ tree_inputs P (pair_up P xs))"
  by pat_completeness auto
termination by (relation "measure (\<lambda>(P, xs). length xs)") auto

declare tree_inputs.simps [simp del]

function climb_inputs :: "rg_peers \<Rightarrow> bytesN \<Rightarrow> nat \<Rightarrow> nat \<Rightarrow> bytesN list \<Rightarrow> nat list list" where
  "climb_inputs P v i n ps =
     (if n \<le> 1 then []
      else if n mod 2 = 1 \<and> i = n - 1 then climb_inputs P v (i div 2) ((n + 1) div 2) ps
      else (case ps of [] \<Rightarrow> []
        | p # qs \<Rightarrow>
            let input = (if i mod 2 = 0 then MERKLE_NODE_PREFIX # v @ p else MERKLE_NODE_PREFIX # p @ v)
            in input # climb_inputs P (gp_sha256 P input) (i div 2) ((n + 1) div 2) qs))"
  by pat_completeness auto
termination by (relation "measure (\<lambda>(P, v, i, n, ps). n)") auto

declare climb_inputs.simps [simp del]

definition collide :: "rg_peers \<Rightarrow> nat list list \<Rightarrow> nat list list \<Rightarrow> bool" where
  "collide P xs ys \<longleftrightarrow> (\<exists>x \<in> set xs. \<exists>y \<in> set ys. x \<noteq> y \<and> gp_sha256 P x = gp_sha256 P y)"

lemma collide_mono: "collide P xs ys \<Longrightarrow> set xs \<subseteq> set xs' \<Longrightarrow> set ys \<subseteq> set ys' \<Longrightarrow> collide P xs' ys'"
  unfolding collide_def by blast

lemma level_inputs_nth: "i + 1 < length xs \<Longrightarrow> i mod 2 = 0 \<Longrightarrow> MERKLE_NODE_PREFIX # xs ! i @ xs ! (i + 1) \<in> set (level_inputs xs)"
proof (induction xs arbitrary: i rule: level_inputs.induct)
  case (1 x y xs)
  show ?case
  proof (cases "i = 0")
    case False
    then have "2 \<le> i" using 1(3) by presburger
    then obtain k where "i = k + 2" by (metis add.commute le_Suc_ex)
    then show ?thesis using 1(1) [of k] 1(2,3) by simp
  qed simp
qed auto

lemma pair_up_sizes:
  "(\<And>x. length (gp_sha256 P x) = 32) \<Longrightarrow> \<forall>x \<in> set xs. length x = 32 \<Longrightarrow> \<forall>x \<in> set (pair_up P xs). length x = 32"
  by (induction P xs rule: pair_up.induct) (auto simp: node_hash_def)

lemma append_cancel32: "length a = 32 \<Longrightarrow> length c = 32 \<Longrightarrow> a @ b = c @ d \<longleftrightarrow> a = c \<and> b = (d :: bytesN)"
  by (simp add: append_eq_append_conv)

lemma climb_sound:
  assumes "merkle_climb P v i (length xs) ps = Inr (tree_root P xs)" and "i < length xs"
    and "\<And>x. length (gp_sha256 P x) = 32" and "length v = 32" and "\<forall>p \<in> set ps. length p = 32"
    and "\<forall>x \<in> set xs. length x = 32"
  shows "v = xs ! i \<or> collide P (climb_inputs P v i (length xs) ps) (tree_inputs P xs)"
  using assms(1,2,4-6)
proof (induction "length xs" arbitrary: v i xs ps rule: less_induct)
  case less
  note climb = less.prems(1) and i = less.prems(2) and sizes = less.prems(3-5)
  show ?case
  proof (cases "length xs \<le> 1")
    case True
    then obtain x where "xs = [x]" using i by (cases xs) auto
    then show ?thesis using climb i by (simp add: merkle_climb.simps tree_root.simps split: if_splits)
  next
    case False
    let ?ys = "pair_up P xs"
    have up: "i div 2 < length ?ys" and less_len: "length ?ys < length xs"
      using step_up(1) [of xs i P] False i by auto
    have ysz: "\<forall>x \<in> set ?ys. length x = 32" by (rule pair_up_sizes [OF assms(3) sizes(3)])
    have root: "tree_root P xs = tree_root P ?ys" and sub: "set (tree_inputs P ?ys) \<subseteq> set (tree_inputs P xs)"
        "set (level_inputs xs) \<subseteq> set (tree_inputs P xs)"
      using False by (simp_all add: tree_root.simps [of P xs] tree_inputs.simps [of P xs])
    show ?thesis
    proof (cases "length xs mod 2 = 1 \<and> i = length xs - 1")
      case True
      then have "merkle_climb P v (i div 2) (length ?ys) ps = Inr (tree_root P ?ys)"
        using climb False root by (subst (asm) merkle_climb.simps) (simp split: if_splits)
      moreover have "climb_inputs P v i (length xs) ps = climb_inputs P v (i div 2) (length ?ys) ps"
        using True False by (subst climb_inputs.simps) simp
      moreover have "?ys ! (i div 2) = xs ! i" using step_up(2) [of xs i P] True False i by simp
      ultimately show ?thesis
        using less.hyps [OF less_len _ up sizes(1,2) ysz] collide_mono [OF _ subset_refl sub(1)] by auto
    next
      case odd: False
      then obtain p qs where ps: "ps = p # qs"
        using climb False by (subst (asm) merkle_climb.simps) (auto split: list.splits if_splits)
      define input where "input = (if i mod 2 = 0 then MERKLE_NODE_PREFIX # v @ p else MERKLE_NODE_PREFIX # p @ v)"
      have "merkle_climb P (gp_sha256 P input) (i div 2) (length ?ys) qs = Inr (tree_root P ?ys)"
        using climb False odd root ps
        by (subst (asm) merkle_climb.simps) (simp add: input_def node_hash_def if_distrib split: if_splits)
      then have "gp_sha256 P input = ?ys ! (i div 2)
          \<or> collide P (climb_inputs P (gp_sha256 P input) (i div 2) (length ?ys) qs) (tree_inputs P ?ys)"
        by (rule less.hyps [OF less_len _ up assms(3)]) (use sizes(2) ysz ps in auto)
      moreover have ci: "climb_inputs P v i (length xs) ps
          = input # climb_inputs P (gp_sha256 P input) (i div 2) (length ?ys) qs"
        using odd False by (subst climb_inputs.simps) (auto simp: ps input_def Let_def)
      moreover have "v = xs ! i \<or> collide P [input] (level_inputs xs)" if hash: "gp_sha256 P input = ?ys ! (i div 2)"
      proof -
        define k where "k = 2 * (i div 2)"
        have k: "k + 1 < length xs" "k mod 2 = 0" "i = (if i mod 2 = 0 then k else k + 1)"
          using odd i False unfolding k_def by presburger+
        let ?node = "MERKLE_NODE_PREFIX # xs ! k @ xs ! (k + 1)"
        have "?ys ! (i div 2) = gp_sha256 P ?node"
          using pair_up_nth [of "i div 2" xs P] k(1) by (simp add: k_def node_hash_def)
        moreover have "input = ?node \<Longrightarrow> v = xs ! i"
          using sizes ps k nth_mem [of k xs] nth_mem [of "k + 1" xs]
          by (auto simp: input_def append_cancel32 split: if_splits)
        ultimately show ?thesis
          using hash level_inputs_nth [OF k(1,2)] by (auto simp: collide_def)
      qed
      ultimately show ?thesis
        using collide_mono [of P _ "tree_inputs P ?ys" "climb_inputs P v i (length xs) ps" "tree_inputs P xs"]
          collide_mono [of P "[input]" "level_inputs xs" "climb_inputs P v i (length xs) ps" "tree_inputs P xs"] sub
        by (auto simp: subset_insertI2)
    qed
  qed
qed

lemma honest_proof_sizes:
  assumes "\<And>x. length (gp_sha256 P x) = 32"
  shows "\<forall>x \<in> set xs. length x = 32 \<Longrightarrow> i < length xs \<Longrightarrow> \<forall>p \<in> set (honest_proof P xs i). length p = 32"
proof (induction "length xs" arbitrary: xs i rule: less_induct)
  case less
  show ?case
  proof (cases "length xs \<le> 1")
    case False
    then have "length (pair_up P xs) < length xs" "i div 2 < length (pair_up P xs)"
      using step_up(1) [of xs i P] less.prems(2) by auto
    then have "\<forall>p \<in> set (honest_proof P (pair_up P xs) (i div 2)). length p = 32"
      using less.hyps pair_up_sizes [OF assms less.prems(1)] by blast
    moreover have "i + 1 < length xs" if "\<not> (length xs mod 2 = 1 \<and> i = length xs - 1)" "i mod 2 = 0"
      using step_up(3) [of xs i P] that False less.prems(2) by simp
    ultimately show ?thesis
      using less.prems by (subst honest_proof.simps) auto
  qed (simp add: honest_proof.simps)
qed

end
