(* ===== verification/RegistryDemo.thy ===== *)
theory RegistryDemo
  imports RegistryMerkle
begin

text \<open>
  A concrete history of the reasoning registry: an agent is registered, binds a signing key and
  publishes two signed traces of a chain on market 0; a consumer uses the first one; the agent is revoked.
\<close>

definition reg_peers :: rg_peers where
  "reg_peers = \<lparr>gp_market_count = (\<lambda>_. Some 1), gp_network_id = [], gp_sha256 = (\<lambda>xs. replicate 31 0 @ [sum_list xs mod 256]),
     gp_verify = (\<lambda>k msg sg. sg = [1]), gp_xdr_address = (\<lambda>a. [a]), gp_xdr_symbol = map of_char,
     gp_admin_ttl = 604800, gp_require_active = (\<lambda>_. Inr ()), gp_load_trace = ok_or RgTraceNotFound\<rparr>"

text \<open>Registry 6 for the market contract 100; admin 9; agent 20; consumer 30.\<close>

definition reg_env :: "nat \<Rightarrow> env" where
  "reg_env now = \<lparr>e_now = now, e_seq = now, e_max_ttl = 3110400, e_self = 6, e_auth = (\<lambda>_. True)\<rparr>"

definition hash_a :: bytesN where "hash_a = replicate 32 1"
definition hash_b :: bytesN where "hash_b = replicate 32 2"
definition key_a :: bytesN where "key_a = replicate 32 7"

definition book0 :: rg where "book0 = rg_constructor 9 100 rg_deployed"

definition book1 :: rg where
  "book1 = book0\<lparr>rg_agents := [20 \<mapsto> \<lparr>ar_status = AgActive, ar_registered_at = 10\<rparr>],
     rg_events := [EvRgAgentRegistered 20]\<rparr>"

definition book2 :: rg where
  "book2 = book1\<lparr>rg_keys := \<lparr>ks_keys = [20 \<mapsto> [key_a]], ks_agent = [key_a \<mapsto> 20],
       ks_history = (\<lambda>_. Map.empty)(20 := [0 \<mapsto> \<lparr>sk_public_key = key_a, sk_added_at = 11, sk_retired_at = None\<rparr>]),
       ks_count = [20 \<mapsto> 1], ks_signature = Map.empty\<rparr>,
     rg_events := rg_events book1 @ [EvAgentSigningKeyAdded 20 key_a]\<rparr>"

definition trace_a :: trace_rec where
  "trace_a = \<lparr>tx_market_id = 0, tx_agent = 20, tx_action = ActBuy, tx_trace_hash = hash_a, tx_ipfs_cid = ''c'', tx_published_at = 20\<rparr>"

definition trace_b :: trace_rec where
  "trace_b = \<lparr>tx_market_id = 0, tx_agent = 20, tx_action = ActSell, tx_trace_hash = hash_b, tx_ipfs_cid = ''d'', tx_published_at = 30\<rparr>"

definition book3 :: rg where
  "book3 = book2\<lparr>rg_log := \<lparr>lg_next_id = Some 1, lg_trace = [0 \<mapsto> trace_a], lg_ledger = [0 \<mapsto> 20],
       lg_market_count = [0 \<mapsto> 1], lg_market_trace = (\<lambda>_. Map.empty)(0 := [0 \<mapsto> 0])\<rparr>,
     rg_chain := \<lparr>cn_head = [20 \<mapsto> \<lparr>ch_seq = 1, ch_head_hash = hash_a, ch_head_trace_id = Some 0\<rparr>],
       cn_agent_trace = (\<lambda>_. Map.empty)(20 := [1 \<mapsto> 0]), cn_link = [0 \<mapsto> \<lparr>cl_seq = 1, cl_prev_trace_hash = zero32\<rparr>]\<rparr>,
     rg_keys := (rg_keys book2)\<lparr>ks_signature := [0 \<mapsto> (key_a, [1])]\<rparr>,
     rg_events := rg_events book2 @ [EvTracePublished 0 0 20 ActBuy hash_a ''c'' 20,
       EvTraceChained 20 1 0 zero32 hash_a, EvTraceSigned 0 20 key_a]\<rparr>"

definition book4 :: rg where
  "book4 = book3\<lparr>rg_log := \<lparr>lg_next_id = Some 2, lg_trace = [0 \<mapsto> trace_a, 1 \<mapsto> trace_b], lg_ledger = [0 \<mapsto> 20, 1 \<mapsto> 30],
       lg_market_count = [0 \<mapsto> 2], lg_market_trace = (\<lambda>_. Map.empty)(0 := [0 \<mapsto> 0, 1 \<mapsto> 1])\<rparr>,
     rg_chain := \<lparr>cn_head = [20 \<mapsto> \<lparr>ch_seq = 2, ch_head_hash = hash_b, ch_head_trace_id = Some 1\<rparr>],
       cn_agent_trace = (\<lambda>_. Map.empty)(20 := [1 \<mapsto> 0, 2 \<mapsto> 1]),
       cn_link = [0 \<mapsto> \<lparr>cl_seq = 1, cl_prev_trace_hash = zero32\<rparr>, 1 \<mapsto> \<lparr>cl_seq = 2, cl_prev_trace_hash = hash_a\<rparr>]\<rparr>,
     rg_keys := (rg_keys book2)\<lparr>ks_signature := [0 \<mapsto> (key_a, [1]), 1 \<mapsto> (key_a, [1])]\<rparr>,
     rg_events := rg_events book3 @ [EvTracePublished 1 0 20 ActSell hash_b ''d'' 30,
       EvTraceChained 20 2 1 hash_a hash_b, EvTraceSigned 1 20 key_a]\<rparr>"

definition book5 :: rg where
  "book5 = book4\<lparr>rg_consume := (rg_consume book4)\<lparr>cs_consumer := (\<lambda>_. False)(30 := True)\<rparr>,
     rg_events := rg_events book4 @ [EvConsumerRegistered 30]\<rparr>"

definition book6 :: rg where
  "book6 = book5\<lparr>rg_consume := (rg_consume book5)\<lparr>cs_consumed := (\<lambda>_. False)(0 := True)\<rparr>,
     rg_events := rg_events book5 @ [EvTraceConsumed 0 30]\<rparr>"

definition book7 :: rg where
  "book7 = book6\<lparr>rg_agents := [20 \<mapsto> \<lparr>ar_status = AgRevoked 25 ''leak'', ar_registered_at = 10\<rparr>],
     rg_events := rg_events book6 @ [EvRgAgentRevoked 20 25 ''leak'']\<rparr>"

lemmas book_defs = book0_def book1_def book2_def book3_def book4_def book5_def book6_def book7_def
  rg_constructor_def rg_deployed_def

lemmas reg_eval = res_simps int_ops rg_require_admin_def require_auth_def reg_env_def reg_peers_def load_agent_def
  put_agent_def rg_publish_def get_trace_def upd_keys_def signing_keys_of_def key_history_count_def check_publish_def
  validate_action_def validate_reference_def NO_MARKET_def check_head_def check_signature_def write_trace_def
  market_trace_count_def load_head_def extend_chain_def put_signature_def add_u64_def add_u32_def u64_max_def u32_max_def
  Let_def

lemma zero32_key [simp]: "key_a \<noteq> zero32"
  by (simp add: key_a_def zero32_def)

lemma book_runs:
  "rg_exec reg_peers (reg_env 10) (RgRegisterAgent 20) book0 = Inr book1"
  "rg_exec reg_peers (reg_env 11) (RgAddKey 20 key_a [1]) book1 = Inr book2"
  "rg_exec reg_peers (reg_env 20) (RgPublishChainedSigned 20 0 ActBuy hash_a ''c'' 1 zero32 key_a [1]) book2 = Inr book3"
  "rg_exec reg_peers (reg_env 30) (RgPublishChainedSigned 20 0 ActSell hash_b ''d'' 2 hash_a key_a [1]) book3 = Inr book4"
  "rg_exec reg_peers (reg_env 40) (RgRegisterConsumer 30) book4 = Inr book5"
  "rg_exec reg_peers (reg_env 50) (RgConsume 30 0) book5 = Inr book6"
  "rg_exec reg_peers (reg_env 60) (RgRevokeAgent 20 25 ''leak'') book6 = Inr book7"
  by (simp_all add: register_agent_def add_signing_key_def publish_chained_trace_signed_def register_consumer_def
      set_consumer_def consume_trace_def revoke_agent_def reg_eval book_defs trace_a_def trace_b_def MAX_AGENT_SIGNING_KEYS_def
      numeral_2_eq_2 [symmetric])

lemma book_more:
  "rg_runs reg_peers 6 t s u v \<Longrightarrow> u \<le> now \<Longrightarrow> rg_exec reg_peers (reg_env now) c v = Inr v' \<Longrightarrow> rg_runs reg_peers 6 t s now v'"
  using rg_more [of reg_peers 6 t s u v "reg_env now" "gp_market_count reg_peers" c v'] by (simp add: reg_env_def)

lemma book_reached: "rg_reached reg_peers 6 10 book1" "rg_reached reg_peers 6 11 book2" "rg_reached reg_peers 6 20 book3"
    "rg_reached reg_peers 6 30 book4" "rg_reached reg_peers 6 40 book5" "rg_reached reg_peers 6 50 book6"
    "rg_reached reg_peers 6 60 book7"
proof -
  have 0: "rg_runs reg_peers 6 0 book0 0 book0" by (rule rg_start)
  have 1: "rg_runs reg_peers 6 0 book0 10 book1" by (rule book_more [OF 0 _ book_runs(1)]) simp
  have 2: "rg_runs reg_peers 6 0 book0 11 book2" by (rule book_more [OF 1 _ book_runs(2)]) simp
  have 3: "rg_runs reg_peers 6 0 book0 20 book3" by (rule book_more [OF 2 _ book_runs(3)]) simp
  have 4: "rg_runs reg_peers 6 0 book0 30 book4" by (rule book_more [OF 3 _ book_runs(4)]) simp
  have 5: "rg_runs reg_peers 6 0 book0 40 book5" by (rule book_more [OF 4 _ book_runs(5)]) simp
  have 6: "rg_runs reg_peers 6 0 book0 50 book6" by (rule book_more [OF 5 _ book_runs(6)]) simp
  have 7: "rg_runs reg_peers 6 0 book0 60 book7" by (rule book_more [OF 6 _ book_runs(7)]) simp
  show "rg_reached reg_peers 6 10 book1" "rg_reached reg_peers 6 11 book2" "rg_reached reg_peers 6 20 book3"
    "rg_reached reg_peers 6 30 book4" "rg_reached reg_peers 6 40 book5" "rg_reached reg_peers 6 50 book6"
    "rg_reached reg_peers 6 60 book7"
    using 1 2 3 4 5 6 7 unfolding rg_reached_def book0_def by blast+
qed

end
