(* ===== verification/RegistryProps.thy ===== *)
theory RegistryProps
  imports RegistryDemo
begin

text \<open>
  The guarantees of the reasoning registry: pages read the log in order, chains have no gaps, history
  is immutable, traces are used once, revoked agents are silent, signed traces verify, and inclusion
  proofs are complete and sound.
\<close>

section \<open>Pages\<close>

lemma page_entries_Inr:
  assumes "\<And>k. k \<in> set ks \<Longrightarrow> id_at k = Inr (f k) \<and> traces_of s (f k) = Some (g k)"
  shows "page_entries id_at ks s = Inr (map (\<lambda>k. \<lparr>te_trace_id = f k, te_trace = g k\<rparr>) ks)"
  using assms by (induction ks) (auto simp: get_trace_def traces_of_def ok_or_def)

lemma take_drop_upt: "map ((!) xs) [i..<min (i + n) (length xs)] = take n (drop i xs)"
  by (rule nth_equalityI) (auto simp: less_diff_conv add.commute)

text \<open>C22. In every reachable state, a page of a market's traces is exactly the requested stretch of the
  market's sub-log: the traces published for that market, in the order of publication, none left out
  and none repeated, each with its content; the cursor moves on by the entries returned.\<close>

theorem market_pages_are_the_log:
  assumes "rg_reached P self t s" and "0 < limit" and "limit \<le> MAX_PAGE_SIZE"
  shows "\<exists>page. traces_by_market m start limit s = Inr page
    \<and> map te_trace_id (tp_entries page) = take limit (drop start (market_ids m s))
    \<and> map (Some \<circ> te_trace) (tp_entries page) = map (traces_of s) (take limit (drop start (market_ids m s)))
    \<and> tp_next page = min (start + limit) (length (market_ids m s)) \<and> tp_total page = length (market_ids m s)"
proof -
  have inv: "log_inv t s" using rg_reached_inv [OF assms(1)] by (simp add: rg_inv_def)
  let ?ids = "market_ids m s" and ?g = "\<lambda>k. the (traces_of s (market_ids m s ! k))"
  have "length ?ids \<le> length [0..<trace_count s]" unfolding market_ids_def by (rule length_filter_le)
  then have fits: "length ?ids \<le> u64_max" using inv by (simp add: log_inv_def)
  then have stop: "min (sat_add_u64 start limit) (length ?ids) = min (start + limit) (length ?ids)"
    by (auto simp: sat_add_u64_def)
  have at: "lg_market_trace (rg_log s) m k = Some (?ids ! k) \<and> traces_of s (?ids ! k) = Some (?g k)"
    if "k < length ?ids" for k
  proof -
    have "in_market m s (?ids ! k)" using nth_mem [OF that] by (auto simp: market_ids_def)
    then show ?thesis using inv that by (auto simp: log_inv_def in_market_def split: option.splits)
  qed
  let ?ks = "[start..<min (start + limit) (length ?ids)]"
  have "page_entries (\<lambda>k. market_trace_at m k s) ?ks s
      = Inr (map (\<lambda>k. \<lparr>te_trace_id = ?ids ! k, te_trace = ?g k\<rparr>) ?ks)"
    by (rule page_entries_Inr) (use at in \<open>auto simp: market_trace_at_def ok_or_def\<close>)
  moreover have "market_trace_count m s = length ?ids" using inv by (simp add: log_inv_def)
  ultimately have "traces_by_market m start limit s = Inr \<lparr>tp_entries = map (\<lambda>k. \<lparr>te_trace_id = ?ids ! k, te_trace = ?g k\<rparr>) ?ks,
      tp_next = min (start + limit) (length ?ids), tp_total = length ?ids\<rparr>"
    using assms(2,3) stop by (simp add: traces_by_market_def trace_page_def Let_def)
  moreover have "map (\<lambda>k. Some (?g k)) ?ks = map (traces_of s) (take limit (drop start ?ids))"
    unfolding take_drop_upt [symmetric] using at by simp
  ultimately show ?thesis
    using take_drop_upt [of ?ids start limit] by (simp add: comp_def)
qed

theorem market_pages_are_the_log_witness:
  "\<exists>page. traces_by_market 0 1 25 book4 = Inr page \<and> map te_trace_id (tp_entries page) = [1]"
proof -
  have "market_ids 0 book4 = [0, 1]"
    by (simp add: market_ids_def trace_count_def in_market_def traces_of_def book4_def trace_a_def trace_b_def upt_rec numeral_2_eq_2)
  then show ?thesis
    using market_pages_are_the_log [OF book_reached(4), of 25 0 1] by (auto simp: MAX_PAGE_SIZE_def)
qed

section \<open>Chains\<close>

lemma chain_ids_mem: "i \<in> set (chain_ids a s) \<longleftrightarrow> i < trace_count s \<and> chained_by a s i"
  by (auto simp: chain_ids_def)

text \<open>C19. In every reachable state the chained traces of an agent, in the order of publication, are one
  hash chain without gaps: the k-th one has sequence number k and links to the hash of the one before
  it (zeros for the first), the positions and only they can be looked up, and the head is the last one.\<close>

theorem agent_chains_have_no_gaps:
  assumes "rg_reached P self t s"
  shows "ch_seq (agent_chain_head a s) = length (chain_ids a s)
    \<and> ch_head_hash (agent_chain_head a s) = hash_before s (chain_ids a s) (length (chain_ids a s))
    \<and> (\<forall>q. agent_trace_at a q s
         = (if 0 < q \<and> q \<le> length (chain_ids a s) then Inr (chain_ids a s ! (q - 1)) else Inl (Err RgTraceNotFound)))
    \<and> map (\<lambda>i. get_trace_link i s) (chain_ids a s)
         = map (\<lambda>k. Some \<lparr>cl_seq = k + 1, cl_prev_trace_hash = hash_before s (chain_ids a s) k\<rparr>) [0..<length (chain_ids a s)]
    \<and> sorted_wrt (<) (chain_ids a s) \<and> set (chain_ids a s) = {i. chained_by a s i}"
proof -
  have inv: "log_inv t s" "chain_inv s" using rg_reached_inv [OF assms] by (simp_all add: rg_inv_def)
  have "sorted_wrt (<) (chain_ids a s)" unfolding chain_ids_def by (rule sorted_wrt_filter) (rule sorted_wrt_upt)
  moreover have "set (chain_ids a s) = {i. chained_by a s i}"
    using inv(2) by (auto simp: chain_ids_mem chained_by_def chain_inv_def)
  moreover have "map (\<lambda>i. get_trace_link i s) (chain_ids a s)
      = map (\<lambda>k. Some \<lparr>cl_seq = k + 1, cl_prev_trace_hash = hash_before s (chain_ids a s) k\<rparr>) [0..<length (chain_ids a s)]"
    by (rule nth_equalityI) (use inv(2) in \<open>simp_all add: get_trace_link_def chain_inv_def\<close>)
  ultimately show ?thesis
    using inv(2) by (simp add: chain_inv_def agent_chain_head_def agent_trace_at_def ok_or_def)
qed

theorem agent_chains_have_no_gaps_witness:
  "ch_seq (agent_chain_head 20 book4) = length (chain_ids 20 book4) \<and> chain_ids 20 book4 = [0, 1]"
proof -
  have "chain_ids 20 book4 = [0, 1]"
    by (simp add: chain_ids_def trace_count_def chained_by_def by_agent_def traces_of_def book4_def trace_a_def trace_b_def
        upt_rec numeral_2_eq_2)
  then show ?thesis using agent_chains_have_no_gaps [OF book_reached(4), of 20] by simp
qed

section \<open>History\<close>

lemma filter_extends:
  assumes "n \<le> (n' :: nat)" and "\<And>i. i < n \<Longrightarrow> p' i = p i"
  shows "\<exists>ys. filter p' [0..<n'] = filter p [0..<n] @ ys"
proof -
  have "[0..<n'] = [0..<n] @ [n..<n']" using upt_add_eq_append [of 0 n "n' - n"] assms(1) by simp
  moreover have "filter p' [0..<n] = filter p [0..<n]" using assms(2) by (intro filter_cong) auto
  ultimately show ?thesis by simp
qed

lemma grows_lists:
  assumes "rg_grows s v" and "log_inv t s"
  shows "\<exists>ys. chain_ids a v = chain_ids a s @ ys" and "\<exists>ys. market_ids m v = market_ids m s @ ys"
proof -
  have "traces_of v i = traces_of s i" if "i < trace_count s" for i
  proof -
    have "traces_of s i \<noteq> None" using that assms(2) by (simp add: log_inv_def)
    then obtain tr where "traces_of s i = Some tr" by blast
    then show ?thesis using assms(1) map_leE [of "traces_of s" "traces_of v" i tr] by (simp add: rg_grows_def)
  qed
  then have "i < trace_count s \<Longrightarrow> chained_by a v i = chained_by a s i"
      "i < trace_count s \<Longrightarrow> in_market m v i = in_market m s i" for i
    using assms(1) by (simp_all add: chained_by_def by_agent_def in_market_def rg_grows_def)
  moreover have "trace_count s \<le> trace_count v" using assms(1) by (simp add: rg_grows_def)
  ultimately show "\<exists>ys. chain_ids a v = chain_ids a s @ ys" "\<exists>ys. market_ids m v = market_ids m s @ ys"
    unfolding chain_ids_def market_ids_def by (auto intro!: filter_extends)
qed

text \<open>C20. Whatever is called later, by anyone and the admin included, a published trace keeps its content, its
  place in the chain, its ledger and its signature; the chains and the markets' logs only grow at their end;
  and once an agent has a chain, every further trace of the agent is in the chain, so a decision left
  out shows as a missing number.\<close>

theorem history_is_immutable:
  assumes "rg_reached P self t s" and "rg_runs P self t s u v" and "get_trace i s = Inr tr"
  shows "get_trace i v = Inr tr \<and> get_trace_link i v = get_trace_link i s
    \<and> get_trace_ledger i v = get_trace_ledger i s \<and> get_trace_signature i v = get_trace_signature i s
    \<and> (\<exists>ys. chain_ids a v = chain_ids a s @ ys) \<and> (\<exists>ys. market_ids m v = market_ids m s @ ys)
    \<and> {j. by_agent a v j} \<subseteq> {j. by_agent a s j} \<union> {j. ch_seq (agent_chain_head a s) = 0 \<or> chained_by a v j}"
proof -
  note inv = rg_reached_inv [OF assms(1)]
  have grows: "rg_grows s v" using rg_runs_inv [OF assms(2) inv] by blast
  have log: "log_inv t s" using inv by (simp add: rg_inv_def)
  have tr: "traces_of s i = Some tr" using assms(3) by (simp add: get_trace_def traces_of_def res_simps)
  then have "i < trace_count s" using log by (auto simp: log_inv_def)
  moreover have "traces_of v i = Some tr" using grows tr map_leE by (fastforce simp: rg_grows_def)
  moreover have "by_agent a v j \<Longrightarrow> by_agent a s j \<or> ch_seq (agent_chain_head a s) = 0 \<or> chained_by a v j" for j
    using grows by (auto simp: rg_grows_def agent_chain_head_def chained_by_def)
  ultimately show ?thesis
    using grows grows_lists [OF grows log] unfolding rg_grows_def
    by (auto simp: get_trace_def traces_of_def ok_or_def get_trace_link_def get_trace_ledger_def get_trace_signature_def)
qed

theorem history_is_immutable_witness:
  "get_trace 0 book7 = Inr trace_a \<and> (\<exists>ys. chain_ids 20 book7 = chain_ids 20 book6 @ ys)"
proof -
  have "rg_runs reg_peers 6 50 book6 60 book7" by (rule book_more [OF rg_start _ book_runs(7)]) simp
  moreover have "get_trace 0 book6 = Inr trace_a"
    by (simp add: get_trace_def book6_def book5_def book4_def ok_or_def)
  ultimately show ?thesis
    using history_is_immutable [OF book_reached(6), of 60 book7 0 trace_a 20 0] by blast
qed

section \<open>Use, revocation, signatures\<close>

text \<open>C25. A trace backs at most one action: a successful consumption was by a registered consumer, and after
  it, whatever happens in between, consuming the trace again fails for every consumer, while its
  content stays what the first consumer was given.\<close>

theorem traces_are_consumed_once:
  assumes "rg_reached P self t s" and "consume_trace E c i s = Inr (tr, s')" and "e_self E = self" and "t \<le> e_now E"
    and "rg_runs P self (e_now E) s' u v"
  shows "is_consumer c s \<and> \<not> is_consumed i s \<and> is_consumed i v \<and> get_trace i v = Inr tr
    \<and> (\<forall>E' c'. \<exists>e. consume_trace E' c' i v = Inl e)"
proof -
  have once: "is_consumer c s" "\<not> is_consumed i s" "get_trace i s = Inr tr" "cs_consumed (rg_consume s') i"
    using assms(2) by (auto simp: consume_trace_def is_consumer_def is_consumed_def res_simps rg_publish_def split: if_splits)
  have "rg_exec (P\<lparr>gp_market_count := gp_market_count P\<rparr>) E (RgConsume c i) s = Inr s'" using assms(2) by simp
  then have run: "rg_runs P self t s (e_now E) s'" using rg_more [OF rg_start assms(3,4)] by blast
  note inv = rg_runs_inv [OF run rg_reached_inv [OF assms(1)]]
  then have later: "rg_grows s v" "rg_grows s' v"
    using rg_runs_inv [OF assms(5)] rg_grows_trans by blast+
  have used: "cs_consumed (rg_consume v) i" using later(2) once(4) by (simp add: rg_grows_def)
  moreover have "get_trace i v = Inr tr"
    using later(1) once(3) map_leE [of "traces_of s" "traces_of v" i]
    by (auto simp: get_trace_def traces_of_def rg_grows_def res_simps)
  moreover have "\<exists>e. consume_trace E' c' i v = Inl e" for E' c'
    using used by (cases "consume_trace E' c' i v") (auto simp: consume_trace_def res_simps split: if_splits)
  ultimately show ?thesis using once by (simp add: is_consumed_def)
qed

theorem traces_are_consumed_once_witness:
  "is_consumed 0 book7 \<and> (\<exists>e. consume_trace (reg_env 70) 30 0 book7 = Inl e)"
proof -
  have "consume_trace (reg_env 50) 30 0 book5 = Inr (trace_a, book6)"
    using book_runs(6) by (auto simp: res_simps consume_trace_def get_trace_def book5_def book4_def split: if_splits)
  moreover have "rg_runs reg_peers 6 (e_now (reg_env 50)) book6 60 book7"
    using book_more [OF rg_start _ book_runs(7), of 50] by (simp add: reg_env_def)
  ultimately show ?thesis
    using traces_are_consumed_once [OF book_reached(5), of "reg_env 50" 30 0 trace_a book6 60 book7]
    by (simp add: reg_env_def)
qed

text \<open>Revocation is permanent: after it the agent is never registered as active again, publishes no
  further trace, and no trace from the effective time on is ever reported as valid.\<close>

lemma revoked_agents_stay_silent:
  assumes "rg_reached P self t s" and "revoked a s" and "rg_runs P self t s u v"
  shows "revoked a v \<and> \<not> is_registered a v \<and> {j. by_agent a v j} \<subseteq> {j. by_agent a s j}
    \<and> (\<exists>from_time why at. rg_get_agent a v = Some \<lparr>ar_status = AgRevoked from_time why, ar_registered_at = at\<rparr>
        \<and> (\<forall>i h. trace_verdict_of i h v \<noteq> Inr TvValid \<or> \<not> by_agent a v i \<or> tx_published_at (the (traces_of v i)) < from_time))"
proof -
  have grows: "rg_grows s v" using rg_runs_inv [OF assms(3) rg_reached_inv [OF assms(1)]] by blast
  then have rev: "revoked a v" and silent: "{j. by_agent a v j} \<subseteq> {j. by_agent a s j}"
    using assms(2) by (auto simp: rg_grows_def)
  then obtain r where r: "load_agent a v = Some r" "is_revoked (ar_status r)" by (auto simp: revoked_def)
  then obtain from_time why where status: "ar_status r = AgRevoked from_time why" by (cases "ar_status r") auto
  then have agent: "rg_get_agent a v = Some \<lparr>ar_status = AgRevoked from_time why, ar_registered_at = ar_registered_at r\<rparr>"
    using r(1) by (simp add: rg_get_agent_def)
  have "trace_verdict_of i h v \<noteq> Inr TvValid \<or> \<not> by_agent a v i \<or> tx_published_at (the (traces_of v i)) < from_time" for i h
    using r(1) status
    by (auto simp: trace_verdict_of_def get_trace_def by_agent_def traces_of_def revocation_verdict_def res_simps
        split: option.splits if_splits)
  then show ?thesis
    using rev silent agent r(1) status by (auto simp: is_registered_def)
qed

lemma revoked_agents_stay_silent_witness:
  "\<not> is_registered 20 book7 \<and> revoked 20 book7"
proof -
  have "revoked 20 book7" by (simp add: revoked_def load_agent_def book7_def)
  then show ?thesis
    using revoked_agents_stay_silent [OF book_reached(7) _ rg_start] by blast
qed

text \<open>What a signed publication, chained or not, leaves behind.\<close>

definition signed_as ::
    "rg_peers \<Rightarrow> env \<Rightarrow> address \<Rightarrow> nat \<Rightarrow> trace_action \<Rightarrow> bytesN \<Rightarrow> string \<Rightarrow> bytesN \<Rightarrow> bytesN \<Rightarrow> rg \<Rightarrow> nat \<Rightarrow> rg \<Rightarrow> bool" where
  "signed_as P E a m act h cid k sg s i s' \<longleftrightarrow>
     publish_trace_signed P E a m act h cid k sg s = Inr (i, s')
     \<or> (\<exists>q prev. publish_chained_trace_signed P E a m act h cid q prev k sg s = Inr (i, s'))"

lemma signed_as_writes:
  assumes "signed_as P E a m act h cid k sg s i s'"
  shows "get_trace_signature i s' = Some (k, sg)"
    and "get_trace i s' = Inr \<lparr>tx_market_id = m, tx_agent = a, tx_action = act, tx_trace_hash = h, tx_ipfs_cid = cid,
           tx_published_at = e_now E\<rparr>"
    and "lg_next_id (rg_log s') = Some (i + 1)"
    and "\<exists>call. rg_exec P E call s = Inr s'"
proof -
  obtain s1 s2 where w: "write_trace E a m act h cid s = Inr (i, s1)" "rg_log s2 = rg_log s1"
      "rg_log s' = rg_log s2" "rg_keys s' = rg_keys (put_signature i k sg s2)"
    using assms unfolding signed_as_def
    by (auto simp: publish_trace_signed_def publish_chained_trace_signed_def res_simps rg_publish_def put_signature_def
        upd_keys_def extend_chain_def split: if_splits)
  show "get_trace_signature i s' = Some (k, sg)" using w(4) by (simp add: get_trace_signature_def put_signature_def upd_keys_def)
  show "get_trace i s' = Inr \<lparr>tx_market_id = m, tx_agent = a, tx_action = act, tx_trace_hash = h, tx_ipfs_cid = cid,
      tx_published_at = e_now E\<rparr>" and "lg_next_id (rg_log s') = Some (i + 1)"
    using w(1) by (auto simp: get_trace_def w(2,3) write_trace_def rg_publish_def Let_def res_simps int_ops split: if_splits)
  show "\<exists>call. rg_exec P E call s = Inr s'"
    using assms unfolding signed_as_def by (metis forget.simps(1) rg_exec.simps(12,13))
qed

text \<open>C26. Publishing with a signature is for ever: when a signed publication succeeds, chained or not, then in
  every later state the registry holds the signature with the trace it was given for, the key is bound to
  the agent who published, also when it has been retired since, and the signature is valid for the message
  of exactly that agent, market, action and hash. So \<open>verify_trace_signature\<close> answers yes, provided
  \<open>load_trace\<close>, which the source calls but does not define, returns the stored trace.\<close>

theorem signed_traces_verify:
  assumes "rg_reached P self t s" and "t \<le> e_now E" and "e_self E = self"
    and "signed_as (P\<lparr>gp_market_count := count\<rparr>) E a m act h cid k sg s i s'"
    and "rg_runs P self (e_now E) s' u v" and "e_self E' = self"
    and "tr = \<lparr>tx_market_id = m, tx_agent = a, tx_action = act, tx_trace_hash = h, tx_ipfs_cid = cid,
      tx_published_at = e_now E\<rparr>"
  shows "get_trace_signature i v = Some (k, sg) \<and> get_trace i v = Inr tr \<and> get_key_agent k v = Some a
    \<and> gp_verify P k (trace_attestation_message P E' a m act h) sg
    \<and> (gp_load_trace P (Some tr) = Inr tr \<longrightarrow> verify_trace_signature P E' i v = Inr True)"
proof -
  note new = signed_as_writes [OF assms(4)]
  obtain call where "rg_exec (P\<lparr>gp_market_count := count\<rparr>) E call s = Inr s'" using new(4) by blast
  with rg_more [OF rg_start assms(3,2)] have "rg_runs P self t s (e_now E) s'" by blast
  then have inv': "rg_inv P self (e_now E) s'" using rg_runs_inv rg_reached_inv [OF assms(1)] by blast
  then have inv: "rg_inv P self u v" and grows: "rg_grows s' v" using rg_runs_inv [OF assms(5)] by blast+
  have tr: "traces_of s' i = Some tr" using new(2) by (simp add: get_trace_def traces_of_def res_simps assms(7))
  have sig: "ks_signature (rg_keys v) i = Some (k, sg)"
    using grows new(1,3) by (simp add: rg_grows_def trace_count_def get_trace_signature_def)
  have stored: "traces_of v i = Some tr" using grows tr map_leE by (fastforce simp: rg_grows_def)
  have "signed_ok P self v i" using inv by (simp add: rg_inv_def keys_inv_def)
  then have "ks_agent (rg_keys v) k = Some a \<and> gp_verify P k (trace_attestation_message P E' a m act h) sg"
    using sig stored assms(6) by (auto simp: signed_ok_def assms(7))
  then show ?thesis
    using sig stored
    by (simp add: verify_trace_signature_def get_trace_signature_def traces_of_def ok_or_def get_key_agent_def get_trace_def
        assms(7))
qed

theorem signed_traces_verify_witness:
  "get_trace_signature 1 book7 = Some (key_a, [1]) \<and> verify_trace_signature reg_peers (reg_env 99) 1 book7 = Inr True"
proof -
  have "publish_chained_trace_signed reg_peers (reg_env 30) 20 0 ActSell hash_b ''d'' 2 hash_a key_a [1] book3 = Inr (1, book4)"
    using book_runs(4) by (auto simp: res_simps publish_chained_trace_signed_def write_trace_def book3_def Let_def)
  then have signed: "signed_as (reg_peers\<lparr>gp_market_count := gp_market_count reg_peers\<rparr>) (reg_env 30) 20 0 ActSell hash_b ''d''
      key_a [1] book3 1 book4" by (auto simp: signed_as_def)
  have "rg_runs reg_peers 6 30 book4 60 book7"
    by (rule book_more [OF book_more [OF book_more [OF rg_start _ book_runs(5)] _ book_runs(6)] _ book_runs(7)]) simp_all
  then show ?thesis
    using signed_traces_verify [OF book_reached(3) _ _ signed _ _ refl, of 60 book7 "reg_env 99"]
    by (simp add: reg_env_def reg_peers_def ok_or_def)
qed

section \<open>Merkle batches\<close>

text \<open>The inputs hashed when a verifier checks a leaf, and when the batch's tree was built.\<close>

definition check_inputs :: "rg_peers \<Rightarrow> bytesN \<Rightarrow> nat \<Rightarrow> nat \<Rightarrow> bytesN list \<Rightarrow> nat list list" where
  "check_inputs P h i n prf = (MERKLE_LEAF_PREFIX # h) # climb_inputs P (leaf_hash P h) i n prf"

definition build_inputs :: "rg_peers \<Rightarrow> bytesN list \<Rightarrow> nat list list" where
  "build_inputs P hs = map ((#) MERKLE_LEAF_PREFIX) hs @ tree_inputs P (map (leaf_hash P) hs)"

text \<open>A batch that commits to a list of trace hashes.\<close>

definition commits_to :: "rg_peers \<Rightarrow> trace_batch \<Rightarrow> bytesN list \<Rightarrow> bool" where
  "commits_to P b hs \<longleftrightarrow> tb_leaf_count b = length hs \<and> tb_root b = tree_root P (map (leaf_hash P) hs)"

lemma honest_proof_passes:
  assumes "rg_batch s b = Some batch" and "commits_to P batch hs" and "length hs \<le> MAX_LEAVES" and "i < length hs"
  shows "verify_trace_inclusion P b (hs ! i) i (honest_proof P (map (leaf_hash P) hs) i) s = Inr True"
proof -
  let ?xs = "map (leaf_hash P) hs"
  have "length (honest_proof P ?xs i) \<le> MAX_PROOF_LEN"
    using assms(3) length_honest_proof [of ?xs 12 P i] by (simp add: MAX_LEAVES_def MAX_PROOF_LEN_def)
  moreover have "merkle_climb P (leaf_hash P (hs ! i)) i (length hs) (honest_proof P ?xs i) = Inr (tree_root P ?xs)"
    using climb_honest [of i ?xs P] assms(3,4) by (simp add: MAX_LEAVES_def u32_max_def)
  ultimately show ?thesis
    using assms by (simp add: verify_trace_inclusion_def get_batch_def ok_or_def commits_to_def compute_merkle_root_def)
qed

definition demo_batch :: trace_batch where
  "demo_batch = \<lparr>tb_agent = 20, tb_root = tree_root reg_peers (map (leaf_hash reg_peers) [hash_a, hash_b, key_a]),
     tb_leaf_count = 3, tb_manifest_cid = ''m'', tb_published_at = 5\<rparr>"

lemma demo_commits: "commits_to reg_peers demo_batch [hash_a, hash_b, key_a]"
  by (simp add: commits_to_def demo_batch_def)

lemma demo_passes:
  "verify_trace_inclusion reg_peers 0 key_a 2 (honest_proof reg_peers (map (leaf_hash reg_peers) [hash_a, hash_b, key_a]) 2)
     (book7\<lparr>rg_batch := [0 \<mapsto> demo_batch]\<rparr>) = Inr True"
  using honest_proof_passes [OF _ demo_commits, of "book7\<lparr>rg_batch := [0 \<mapsto> demo_batch]\<rparr>" 0 2]
  by (simp add: MAX_LEAVES_def)

text \<open>C24. Every trace of an anchored batch can be proved: for a batch of at most 4096 trace hashes, the proof
  read off the tree is short enough and is accepted for each of them at its index, at every size, odd
  levels included.\<close>

theorem honest_proofs_verify:
  assumes "rg_batch s b = Some batch" and "commits_to P batch hs" and "length hs \<le> MAX_LEAVES" and "i < length hs"
  shows "verify_trace_inclusion P b (hs ! i) i (honest_proof P (map (leaf_hash P) hs) i) s = Inr True"
  by (rule honest_proof_passes [OF assms])

theorem honest_proofs_verify_witness:
  "verify_trace_inclusion reg_peers 0 key_a 2 (honest_proof reg_peers (map (leaf_hash reg_peers) [hash_a, hash_b, key_a]) 2)
     (book7\<lparr>rg_batch := [0 \<mapsto> demo_batch]\<rparr>) = Inr True"
  using honest_proofs_verify [OF _ demo_commits, of "book7\<lparr>rg_batch := [0 \<mapsto> demo_batch]\<rparr>" 0 2]
  by (simp add: MAX_LEAVES_def)

text \<open>C23. Nothing else can be proved: if a check accepts a trace hash at an index, that is the hash the batch
  has there, unless two different inputs, one hashed for the check and one hashed when the tree was built,
  have the same hash value, that is a collision of SHA-256 found by the prover.\<close>

theorem inclusion_proofs_are_sound:
  assumes "rg_batch s b = Some batch" and "commits_to P batch hs" and "\<And>x. length (gp_sha256 P x) = 32"
    and "length h = 32" and "\<forall>p \<in> set prf. length p = 32" and "\<forall>x \<in> set hs. length x = 32"
    and "verify_trace_inclusion P b h i prf s = Inr True"
  shows "i < length hs \<and> (h = hs ! i \<or> collide P (check_inputs P h i (length hs) prf) (build_inputs P hs))"
proof -
  let ?xs = "map (leaf_hash P) hs"
  have i: "i < length hs" and climb: "merkle_climb P (leaf_hash P h) i (length ?xs) prf = Inr (tree_root P ?xs)"
    using assms(1,2,7)
    by (auto simp: verify_trace_inclusion_def get_batch_def ok_or_def commits_to_def compute_merkle_root_def
        split: if_splits sum.splits fail.splits rg_error.splits)
  have "leaf_hash P h = ?xs ! i \<or> collide P (climb_inputs P (leaf_hash P h) i (length ?xs) prf) (tree_inputs P ?xs)"
    by (rule climb_sound [OF climb _ assms(3)]) (use i assms(3,5) in \<open>auto simp: leaf_hash_def\<close>)
  moreover have "collide P (climb_inputs P (leaf_hash P h) i (length ?xs) prf) (tree_inputs P ?xs)
      \<Longrightarrow> collide P (check_inputs P h i (length hs) prf) (build_inputs P hs)"
    by (erule collide_mono) (auto simp: check_inputs_def build_inputs_def)
  moreover have "h = hs ! i \<or> collide P (check_inputs P h i (length hs) prf) (build_inputs P hs)"
    if "leaf_hash P h = leaf_hash P (hs ! i)"
  proof (cases "h = hs ! i")
    case False
    have "MERKLE_LEAF_PREFIX # h \<in> set (check_inputs P h i (length hs) prf)"
        "MERKLE_LEAF_PREFIX # (hs ! i) \<in> set (build_inputs P hs)"
      using nth_mem [OF i] by (simp_all add: check_inputs_def build_inputs_def)
    moreover have "MERKLE_LEAF_PREFIX # h \<noteq> MERKLE_LEAF_PREFIX # (hs ! i)" using False by simp
    ultimately show ?thesis using that [unfolded leaf_hash_def] unfolding collide_def by blast
  qed simp
  ultimately show ?thesis using i by auto
qed

theorem inclusion_proofs_are_sound_witness:
  "key_a = [hash_a, hash_b, key_a] ! 2 \<or> collide reg_peers
     (check_inputs reg_peers key_a 2 (length [hash_a, hash_b, key_a])
        (honest_proof reg_peers (map (leaf_hash reg_peers) [hash_a, hash_b, key_a]) 2))
     (build_inputs reg_peers [hash_a, hash_b, key_a])"
proof -
  have sha: "length (gp_sha256 reg_peers x) = 32" for x by (simp add: reg_peers_def)
  have key: "length key_a = 32" and leaves: "\<forall>x \<in> set [hash_a, hash_b, key_a]. length x = 32"
    by (simp_all add: hash_a_def hash_b_def key_a_def)
  have nodes: "\<forall>p \<in> set (honest_proof reg_peers (map (leaf_hash reg_peers) [hash_a, hash_b, key_a]) 2). length p = 32"
    by (rule honest_proof_sizes [OF sha]) (simp_all add: leaf_hash_def sha)
  have stored: "rg_batch (book7\<lparr>rg_batch := [0 \<mapsto> demo_batch]\<rparr>) 0 = Some demo_batch" by simp
  show ?thesis
    by (rule conjunct2 [OF inclusion_proofs_are_sound [OF stored demo_commits sha key nodes leaves demo_passes]])
qed

end
