(* ===== verification/RegistryAdmin.thy ===== *)
theory RegistryAdmin
  imports Handover RegistryCalls
begin

text \<open>
  The admin role of the reasoning registry implements the two-step handover, whatever else is called
  in between, with the lifetime of a proposal as the parameter the source does not declare.
\<close>

fun registry_handover :: "rg_call \<Rightarrow> handover_op option" where
  "registry_handover (RgProposeAdmin a) = Some (Propose a)"
| "registry_handover RgAcceptAdmin = Some Accept"
| "registry_handover RgCancelAdmin = Some Cancel"
| "registry_handover _ = None"

definition registry_pending :: "rg \<Rightarrow> (address \<times> nat) option" where
  "registry_pending s = map_option (\<lambda>p. (gq_address p, gq_expires_at p)) (rg_pending s)"

definition same_role :: "rg \<Rightarrow> rg \<Rightarrow> bool" where
  "same_role s s' \<longleftrightarrow> rg_admin s' = rg_admin s \<and> rg_pending s' = rg_pending s \<and> rg_market_core s' = rg_market_core s"

lemma writes_keep_role:
  "write_trace E a m act h cid s = Inr (i, s') \<Longrightarrow> same_role s s'"
  "same_role s (extend_chain a q prev h i s') \<longleftrightarrow> same_role s s'"
  "same_role s (put_signature i k sg s') \<longleftrightarrow> same_role s s'"
  "same_role s (rg_publish ev s') \<longleftrightarrow> same_role s s'"
  by (auto simp: write_trace_def extend_chain_def put_signature_def upd_keys_def rg_publish_def same_role_def Let_def
      res_simps int_ops split: if_splits)

lemma publications_keep_role:
  "publish_trace P E a m act h cid s = Inr (i, s') \<Longrightarrow> same_role s s'"
  "publish_chained_trace P E a m act h cid q prev s = Inr (i, s') \<Longrightarrow> same_role s s'"
  "publish_trace_signed P E a m act h cid k sg s = Inr (i, s') \<Longrightarrow> same_role s s'"
  "publish_chained_trace_signed P E a m act h cid q prev k sg s = Inr (i, s') \<Longrightarrow> same_role s s'"
  using writes_keep_role(1)
  by (auto simp: publish_trace_def publish_chained_trace_def publish_trace_signed_def publish_chained_trace_signed_def
      writes_keep_role(2-4) res_simps split: if_splits)

lemmas agent_defs = register_agent_def retire_agent_def retire_self_def retire_agent_internal_def
  revoke_agent_def unregister_agent_def put_agent_def register_consumer_def unregister_consumer_def
  set_consumer_def consume_trace_def flag_trace_def unflag_trace_def record_flag_def add_signing_key_def
  retire_signing_key_def upd_keys_def

lemma reactivate_keeps_role: "reactivate_agent E a s = Inr s' \<Longrightarrow> same_role s s'"
  by (cases "load_agent a s"; cases "ar_status (the (load_agent a s))")
     (auto simp: reactivate_agent_def put_agent_def rg_publish_def same_role_def res_simps split: if_splits)

lemma others_keep_role:
  assumes "rg_exec P E call s = Inr s'" and "registry_handover call = None"
  shows "same_role s s'"
  using assms
  by (cases call) (auto simp: publications_keep_role agent_defs res_simps int_ops Let_def same_role_def rg_publish_def
      split: if_splits option.splits agent_status.splits dest: reactivate_keeps_role [unfolded same_role_def] publications_keep_role [unfolded same_role_def])

text \<open>The market contract the registry was deployed for stays the same.\<close>

lemma market_core_kept:
  assumes "rg_exec P E call s = Inr s'"
  shows "rg_market_core s' = rg_market_core s"
proof (cases "registry_handover call")
  case None
  then show ?thesis using others_keep_role [OF assms] by (simp add: same_role_def)
next
  case (Some k)
  then show ?thesis
    using assms by (cases call) (auto simp: rg_propose_admin_def rg_accept_admin_def rg_cancel_admin_transfer_def
        rg_publish_def res_simps split: if_splits)
qed

interpretation registry_role: two_step_admin "rg_exec P" registry_handover rg_admin registry_pending "gp_admin_ttl P" for P
proof (unfold_locales, goal_cases)
  case (1 E c s s' p)
  then show ?case
    by (cases c) (auto simp: rg_propose_admin_def rg_require_admin_def registry_pending_def rg_publish_def res_simps int_ops)
next
  case (2 E c s s')
  then show ?case
    by (cases c) (auto simp: rg_accept_admin_def registry_pending_def rg_publish_def res_simps int_ops not_less
        split: if_splits)
next
  case (3 E c s s')
  then show ?case
    by (cases c) (auto simp: rg_cancel_admin_transfer_def rg_require_admin_def registry_pending_def rg_publish_def
        res_simps int_ops split: if_splits)
next
  case (4 E c s s')
  then show ?case using others_keep_role by (auto simp: same_role_def registry_pending_def)
qed

text \<open>The admin of the registry stays who it is, unless that admin authorises a proposal.\<close>

lemma registry_admin_is_not_taken:
  assumes "registry_role.run P cs s = Inr s'" and "rg_admin s = Some a" and "rg_pending s = None"
    and "\<And>E p. (E, RgProposeAdmin p) \<in> set cs \<Longrightarrow> \<not> e_auth E a"
  shows "rg_admin s' = Some a"
proof -
  have "registry_handover call = Some (Propose p) \<longleftrightarrow> call = RgProposeAdmin p" for call p
    by (cases call) auto
  then show ?thesis
    using registry_role.no_takeover [OF assms(1,2)] assms(3,4) by (auto simp: registry_pending_def)
qed

end
