(* ===== verification/RegistryMarket.thy ===== *)
theory RegistryMarket
  imports RegistryAdmin RegistryDemo MarketProps MarketTrace MarketViews MarketDemo
begin

text \<open>
  The registry beside the market contract it was deployed for: every call reads the number of markets
  the contract has at that moment. The locale is what the registry relies on of such a contract; its
  interpretation is the model of the market contract.
\<close>

section \<open>Histories of both contracts\<close>

definition count_of :: "address \<Rightarrow> nat \<Rightarrow> address \<Rightarrow> nat option" where
  "count_of core n a = (if a = core then Some n else None)"

inductive rg_beside ::
    "rg_peers \<Rightarrow> ('w \<Rightarrow> nat) \<Rightarrow> ('w \<Rightarrow> bool) \<Rightarrow> ('w \<Rightarrow> 'w \<Rightarrow> bool) \<Rightarrow> address \<Rightarrow> address \<Rightarrow> rg \<Rightarrow> 'w \<Rightarrow> bool"
  for P count start later core self where
  beside_start: "start w \<Longrightarrow> rg_beside P count start later core self (rg_constructor admin core rg_deployed) w"
| beside_call: "rg_beside P count start later core self s w \<Longrightarrow> e_self E = self
    \<Longrightarrow> rg_exec (P\<lparr>gp_market_count := count_of core (count w)\<rparr>) E c s = Inr s'
    \<Longrightarrow> rg_beside P count start later core self s' w"
| beside_later: "rg_beside P count start later core self s w \<Longrightarrow> later w w'
    \<Longrightarrow> rg_beside P count start later core self s w'"

section \<open>What a call adds to the log\<close>

definition same_log :: "rg \<Rightarrow> rg \<Rightarrow> bool" where
  "same_log s s' \<longleftrightarrow> lg_trace (rg_log s') = lg_trace (rg_log s)"

text \<open>A trace \<open>tr\<close> that passed the tests of \<open>check_publish\<close> is new in the log.\<close>

definition logs :: "rg_peers \<Rightarrow> env \<Rightarrow> rg \<Rightarrow> rg \<Rightarrow> bool" where
  "logs P E s s' \<longleftrightarrow> (\<exists>i tr. lg_trace (rg_log s') = (lg_trace (rg_log s))(i \<mapsto> tr)
     \<and> check_publish P E (tx_agent tr) (tx_market_id tr) (tx_action tr) (tx_ipfs_cid tr) s = Inr ())"

lemma write_logs:
  assumes "write_trace E a m act h cid s = Inr (i, s')" and "check_publish P E a m act cid s = Inr ()"
  shows "logs P E s s'"
proof -
  have "lg_trace (rg_log s') = (lg_trace (rg_log s))(i \<mapsto> \<lparr>tx_market_id = m, tx_agent = a, tx_action = act,
      tx_trace_hash = h, tx_ipfs_cid = cid, tx_published_at = e_now E\<rparr>)"
    using assms(1) by (auto simp: write_trace_def rg_publish_def Let_def res_simps int_ops split: if_splits)
  then show ?thesis using assms(2) unfolding logs_def by (metis trace_rec.select_convs(1-3,5))
qed

lemma logs_frame:
  "logs P E s (extend_chain a q prev h i s') \<longleftrightarrow> logs P E s s'"
  "logs P E s (put_signature i k sg s') \<longleftrightarrow> logs P E s s'"
  "logs P E s (rg_publish ev s') \<longleftrightarrow> logs P E s s'"
  by (simp_all add: logs_def extend_chain_def put_signature_def upd_keys_def rg_publish_def)

lemma publications_log:
  "publish_trace P E a m act h cid s = Inr (i, s') \<Longrightarrow> logs P E s s'"
  "publish_chained_trace P E a m act h cid q prev s = Inr (i, s') \<Longrightarrow> logs P E s s'"
  "publish_trace_signed P E a m act h cid k sg s = Inr (i, s') \<Longrightarrow> logs P E s s'"
  "publish_chained_trace_signed P E a m act h cid q prev k sg s = Inr (i, s') \<Longrightarrow> logs P E s s'"
  by (auto simp: publish_trace_def publish_chained_trace_def publish_trace_signed_def publish_chained_trace_signed_def
      logs_frame res_simps split: if_splits intro: write_logs)

lemma reactivate_same_log: "reactivate_agent E a s = Inr s' \<Longrightarrow> same_log s s'"
  by (cases "load_agent a s"; cases "ar_status (the (load_agent a s))")
     (auto simp: reactivate_agent_def put_agent_def rg_publish_def same_log_def res_simps split: if_splits)

lemma admin_same_log:
  "rg_propose_admin P E a s = Inr s' \<Longrightarrow> same_log s s'"
  "rg_accept_admin E s = Inr s' \<Longrightarrow> same_log s s'"
  "rg_cancel_admin_transfer E s = Inr s' \<Longrightarrow> same_log s s'"
  by (auto simp: rg_propose_admin_def rg_accept_admin_def rg_cancel_admin_transfer_def rg_publish_def same_log_def
      res_simps split: if_splits)

lemma rg_exec_log:
  assumes "rg_exec P E call s = Inr s'"
  shows "same_log s s' \<or> logs P E s s'"
  using assms
  by (cases call) (auto simp: agent_defs res_simps int_ops Let_def rg_publish_def same_log_def
      split: if_splits option.splits
      dest: reactivate_same_log [unfolded same_log_def] admin_same_log [unfolded same_log_def] publications_log)

section \<open>What the registry relies on\<close>

text \<open>A trace the registry may hold beside a contract whose markets are those of \<open>there\<close>.\<close>

definition well_named :: "(nat \<Rightarrow> bool) \<Rightarrow> trace_rec \<Rightarrow> bool" where
  "well_named there tr \<longleftrightarrow>
     (tx_market_id tr = NO_MARKET \<and> (tx_action tr = ActProposeMarket \<or> is_other (tx_action tr))
      \<or> tx_action tr \<noteq> ActProposeMarket \<and> there (tx_market_id tr))
     \<and> validate_action (tx_action tr) = Inr () \<and> tx_ipfs_cid tr \<noteq> []"

lemma well_named_mono: "well_named p tr \<Longrightarrow> (\<And>i. p i \<Longrightarrow> q i) \<Longrightarrow> well_named q tr"
  by (auto simp: well_named_def)

locale counted_markets =
  fixes count :: "'w \<Rightarrow> nat"
    and there :: "nat \<Rightarrow> 'w \<Rightarrow> bool"
    and good :: "'w \<Rightarrow> bool"
    and later :: "'w \<Rightarrow> 'w \<Rightarrow> bool"
  assumes counted: "good w \<Longrightarrow> i < count w \<Longrightarrow> there i w"
    and stays: "good w \<Longrightarrow> later w w' \<Longrightarrow> there i w \<Longrightarrow> there i w'"
    and good_later: "good w \<Longrightarrow> later w w' \<Longrightarrow> good w'"
begin

lemma checked_is_named:
  assumes "check_publish (P\<lparr>gp_market_count := count_of core (count w)\<rparr>) E (tx_agent tr) (tx_market_id tr)
      (tx_action tr) (tx_ipfs_cid tr) s = Inr ()"
    and "good w" and "rg_market_core s = Some core"
  shows "well_named (\<lambda>i. there i w) tr"
  using assms counted
  by (auto simp: check_publish_def validate_reference_def well_named_def count_of_def Let_def res_simps int_ops not_le
      split: if_splits)

lemma traces_are_named:
  assumes "rg_beside P count good later core self s w"
  shows "good w \<and> rg_market_core s = Some core
    \<and> (\<forall>i tr. lg_trace (rg_log s) i = Some tr \<longrightarrow> well_named (\<lambda>i. there i w) tr)"
  using assms
proof (induction rule: rg_beside.induct)
  case (beside_start w admin)
  then show ?case by (simp add: rg_constructor_def rg_deployed_def)
next
  case (beside_call s w E c s')
  then have core: "rg_market_core s' = Some core" using market_core_kept by metis
  from rg_exec_log [OF beside_call.hyps(3)] show ?case
  proof
    assume "same_log s s'"
    then show ?thesis using beside_call.IH core by (simp add: same_log_def)
  next
    assume "logs (P\<lparr>gp_market_count := count_of core (count w)\<rparr>) E s s'"
    then show ?thesis using beside_call.IH core checked_is_named unfolding logs_def by (auto split: if_splits)
  qed
next
  case (beside_later s w w')
  then show ?case using good_later stays well_named_mono by metis
qed

end

section \<open>The market contract\<close>

lemma step_keeps_markets:
  assumes "mc_step T peer core c c'" and "mc_inv T core c" and "mc_markets c i = Some m" and "token_ok T"
  shows "\<exists>m'. mc_markets c' i = Some m'"
  using assms(1)
proof (rule mc_stepE)
  fix E call
  assume "exec T peer E call c = Inr c'"
  moreover obtain s where "mc_settles c i = Some s" using mc_invD [OF assms(2,3)] by metis
  ultimately show ?thesis using exec_advances [OF assms(2,4)] assms(3) unfolding advances_def by blast
qed (use assms(3) in simp)

interpretation registered: counted_markets market_count "\<lambda>i c. \<exists>m. mc_markets c i = Some m"
    "\<lambda>c. token_ok T \<and> mc_reachable T peer core c" "mc_step T peer core" for T peer core
proof
  fix c i
  assume "token_ok T \<and> mc_reachable T peer core c" and "i < market_count c"
  then have "mc_inv T core c" and n: "in_next_id (mc_inst c) \<noteq> None \<and> i < the (in_next_id (mc_inst c))"
    using mc_reachable_inv by (auto simp: market_count_def split: option.splits)
  then show "\<exists>m. mc_markets c i = Some m" by (auto elim: mc_inv_below)
next
  fix c c' i
  assume "token_ok T \<and> mc_reachable T peer core c" and "mc_step T peer core c c'" and "\<exists>m. mc_markets c i = Some m"
  then show "\<exists>m. mc_markets c' i = Some m" using step_keeps_markets mc_reachable_inv by metis
next
  fix c c'
  assume "token_ok T \<and> mc_reachable T peer core c" and "mc_step T peer core c c'"
  then show "token_ok T \<and> mc_reachable T peer core c'" by (auto intro: reach_step)
qed

text \<open>C21. Registry and market contract together: whatever is called on both since their deployment, in any
  order, every trace the registry holds names a market that exists in the market contract, unless it is
  the proposal of a market or an action outside the protocol's and stands under no market; an action
  outside the protocol's has none of the eight names of its own actions, and no trace is without a content
  identifier.\<close>

theorem traces_name_existing_markets:
  assumes "token_ok T" and "rg_beside P market_count (mc_reachable T peer core) (mc_step T peer core) core self s c"
    and "get_trace i s = Inr tr"
  shows "(tx_market_id tr = NO_MARKET \<and> (tx_action tr = ActProposeMarket \<or> (\<exists>name. tx_action tr = ActOther name))
      \<or> tx_action tr \<noteq> ActProposeMarket \<and> (\<exists>m. mc_markets c (tx_market_id tr) = Some m))
     \<and> (\<forall>name. tx_action tr = ActOther name \<longrightarrow> name \<notin> {''create_market'', ''propose_market'', ''buy'', ''sell'',
           ''skip'', ''redeem'', ''claim_remainder'', ''resolve''})
     \<and> tx_ipfs_cid tr \<noteq> []"
proof -
  have "rg_beside P market_count (\<lambda>c. token_ok T \<and> mc_reachable T peer core c) (mc_step T peer core) core self s c"
    using assms(1,2) by simp
  from registered.traces_are_named [OF this] assms(3)
  have named: "well_named (\<lambda>i. \<exists>m. mc_markets c i = Some m) tr" by (auto simp: get_trace_def res_simps)
  have "name \<notin> {''create_market'', ''propose_market'', ''buy'', ''sell'', ''skip'', ''redeem'', ''claim_remainder'',
      ''resolve''}" if "tx_action tr = ActOther name" for name
  proof
    assume "name \<in> {''create_market'', ''propose_market'', ''buy'', ''sell'', ''skip'', ''redeem'', ''claim_remainder'',
      ''resolve''}"
    then have "validate_action (ActOther name) = Inl (Err RgUseCanonicalAction)" by (simp only: validate_action_def
      trace_action.case if_True)
    then show False using named that by (simp add: well_named_def)
  qed
  moreover have "is_other act \<Longrightarrow> \<exists>name. act = ActOther name" for act by (cases act) simp_all
  ultimately show ?thesis using named unfolding well_named_def by blast
qed

text \<open>Beside the market of the example: agent 20 explains a purchase on it.\<close>

lemma example_beside:
  "\<exists>s. rg_beside reg_peers market_count (mc_reachable ledger_token no_peer 100) (mc_step ledger_token no_peer 100) 100 6 s demo1
     \<and> get_trace 0 s = Inr trace_a"
proof -
  let ?P = "reg_peers\<lparr>gp_market_count := count_of 100 (market_count demo1)\<rparr>"
  have one: "rg_exec ?P (reg_env 10) (RgRegisterAgent 20) book0 = Inr book1"
    using book_runs(1) by simp
  have "\<exists>s. rg_exec ?P (reg_env 20) (RgPublish 20 0 ActBuy hash_a ''c'') book1 = Inr s \<and> get_trace 0 s = Inr trace_a"
    by (simp add: publish_trace_def reg_eval book_defs trace_a_def count_of_def market_count_def demo1_def demo_inst_def)
  then obtain s where two: "rg_exec ?P (reg_env 20) (RgPublish 20 0 ActBuy hash_a ''c'') book1 = Inr s"
      "get_trace 0 s = Inr trace_a" by blast
  have "rg_beside reg_peers market_count (mc_reachable ledger_token no_peer 100) (mc_step ledger_token no_peer 100) 100 6 book0 demo1"
    unfolding book0_def by (rule beside_start) (rule demo_reach(2))
  from beside_call [OF this _ one] have "rg_beside reg_peers market_count (mc_reachable ledger_token no_peer 100)
      (mc_step ledger_token no_peer 100) 100 6 book1 demo1" by (simp add: reg_env_def)
  from beside_call [OF this _ two(1)] two(2) show ?thesis by (auto simp: reg_env_def)
qed

theorem traces_name_existing_markets_witness:
  "\<exists>s. get_trace 0 s = Inr trace_a \<and> tx_action trace_a \<noteq> ActProposeMarket \<and> (\<exists>m. mc_markets demo1 0 = Some m)"
  using example_beside traces_name_existing_markets [OF token_ok_ledger] by (fastforce simp: trace_a_def NO_MARKET_def u64_max_def)

end
