(* ===== verification/Router.thy ===== *)
theory Router
  imports ResolverProps
begin

text \<open>
  The compound-flow router (\<^verbatim>\<open>contracts/router/src/lib.rs\<close>), a contract without roles or funds that
  creates a market and reveals its rule in one transaction, and its composition with the models of
  the market contract and the resolver. The contracts it calls are the record \<open>'w rt_peers\<close>; its
  clients are the plain ones, so a failing call aborts the transaction (\<open>None\<close>).
\<close>

section \<open>Types and storage\<close>

definition RT_SPEC_DOMAIN :: symbol where "RT_SPEC_DOMAIN = ''oracledesk:resolution-spec''"
definition RT_SPEC_V2_VERSION :: nat where "RT_SPEC_V2_VERSION = 2"

datatype rt_error = RtNotInitialized | RtInvalidConfig | RtDomainMismatch | RtInvalidTrace | RtUnsupportedRule

type_synonym 'a rt_res = "(rt_error, 'a) res"

datatype rt_event =
  EvMarketCreatedAndRevealed nat address bytesN
| EvBoughtAndPublishedTrace nat address nat

record router_config =
  rc_market_core :: address
  rc_resolver :: address
  rc_reasoning_registry :: "address option"

record 'w rt =
  rt_config :: "router_config option"
  rt_world :: 'w
  rt_events :: "rt_event list"

record 'w rt_peers =
  tp_create_market :: "env \<Rightarrow> address \<Rightarrow> address \<Rightarrow> bytesN \<Rightarrow> bytesN \<Rightarrow> string \<Rightarrow> category \<Rightarrow> nat \<Rightarrow> int \<Rightarrow> nat
    \<Rightarrow> 'w \<Rightarrow> (nat \<times> 'w) option"
  tp_register_spec_v2 :: "env \<Rightarrow> address \<Rightarrow> nat \<Rightarrow> resolution_spec_v2 \<Rightarrow> 'w \<Rightarrow> 'w option"
  tp_buy :: "env \<Rightarrow> address \<Rightarrow> address \<Rightarrow> nat \<Rightarrow> outcome \<Rightarrow> int \<Rightarrow> int \<Rightarrow> 'w \<Rightarrow> (int \<times> 'w) option"
  tp_publish_trace :: "env \<Rightarrow> address \<Rightarrow> address \<Rightarrow> nat \<Rightarrow> string \<Rightarrow> bytesN \<Rightarrow> string \<Rightarrow> 'w \<Rightarrow> (nat \<times> 'w) option"
  tp_network_id :: bytesN
  tp_sha256 :: "nat list \<Rightarrow> bytesN"
  tp_xdr_v2 :: "resolution_spec_v2 \<Rightarrow> nat list"

section \<open>Operations\<close>

definition rt_constructor :: "address \<Rightarrow> address \<Rightarrow> address option \<Rightarrow> 'w rt \<Rightarrow> 'w rt" where
  "rt_constructor market_core resolver reasoning_registry s =
     s\<lparr>rt_config := Some \<lparr>rc_market_core = market_core, rc_resolver = resolver,
         rc_reasoning_registry = reasoning_registry\<rparr>\<rparr>"

definition rt_load_config :: "'w rt \<Rightarrow> router_config rt_res" where
  "rt_load_config s = ok_or RtNotInitialized (rt_config s)"

definition rt_spec_v2_hash :: "'w rt_peers \<Rightarrow> resolution_spec_v2 \<Rightarrow> bytesN" where
  "rt_spec_v2_hash R spec = tp_sha256 R (map of_char RT_SPEC_DOMAIN @ tp_xdr_v2 R spec)"

definition verify_envelope :: "'w rt_peers \<Rightarrow> router_config \<Rightarrow> resolution_spec_v2 \<Rightarrow> unit rt_res" where
  "verify_envelope R cfg spec =
     (if v2_version spec \<noteq> RT_SPEC_V2_VERSION \<or> v2_salt spec = replicate 32 0 then Inl (Err RtInvalidConfig)
      else if v2_network_id spec \<noteq> tp_network_id R \<or> v2_market_core spec \<noteq> rc_market_core cfg
      then Inl (Err RtDomainMismatch) else Inr ())"

fun rt_validate_rule :: "resolution_spec \<Rightarrow> unit rt_res" where
  "rt_validate_rule (Price cfg) =
     (if 0 \<le> pc_threshold cfg \<and> pc_max_staleness cfg \<noteq> 0 then Inr () else Inl (Err RtInvalidConfig))"
| "rt_validate_rule (Signers cfg) =
     (if sc_signers cfg \<noteq> [] \<and> sc_threshold cfg \<noteq> 0 \<and> sc_threshold cfg \<le> length (sc_signers cfg)
         \<and> sc_dispute_window cfg \<noteq> 0
      then Inr () else Inl (Err RtInvalidConfig))"
| "rt_validate_rule _ = Inl (Err RtUnsupportedRule)"

definition create_and_reveal ::
    "'w rt_peers \<Rightarrow> env \<Rightarrow> address \<Rightarrow> bytesN \<Rightarrow> string \<Rightarrow> category \<Rightarrow> nat \<Rightarrow> int \<Rightarrow> nat \<Rightarrow> resolution_spec_v2
      \<Rightarrow> 'w rt \<Rightarrow> (nat \<times> 'w rt) rt_res" where
  "create_and_reveal R E creator question_hash meta_uri cat close_time seed_amount initial_yes_bps spec s =
     andThen (rt_load_config s) (\<lambda>cfg.
     andThen (verify_envelope R cfg spec) (\<lambda>_.
     andThen (rt_validate_rule (v2_rule spec)) (\<lambda>_.
     andThen (require_auth E creator) (\<lambda>_.
     let resolution_hash = rt_spec_v2_hash R spec in
     andThen (unwrap (tp_create_market R E (rc_market_core cfg) creator question_hash resolution_hash meta_uri cat
                close_time seed_amount initial_yes_bps (rt_world s))) (\<lambda>(market_id, w).
     andThen (unwrap (tp_register_spec_v2 R E (rc_resolver cfg) market_id spec w)) (\<lambda>w'.
       Inr (market_id, s\<lparr>rt_world := w',
         rt_events := rt_events s @ [EvMarketCreatedAndRevealed market_id creator resolution_hash]\<rparr>)))))))"

definition create_and_reveal_signers ::
    "'w rt_peers \<Rightarrow> env \<Rightarrow> address \<Rightarrow> bytesN \<Rightarrow> string \<Rightarrow> category \<Rightarrow> nat \<Rightarrow> int \<Rightarrow> nat \<Rightarrow> resolution_spec_v2
      \<Rightarrow> 'w rt \<Rightarrow> (nat \<times> 'w rt) rt_res" where
  "create_and_reveal_signers = create_and_reveal"

definition create_and_reveal_price ::
    "'w rt_peers \<Rightarrow> env \<Rightarrow> address \<Rightarrow> bytesN \<Rightarrow> string \<Rightarrow> category \<Rightarrow> nat \<Rightarrow> int \<Rightarrow> nat \<Rightarrow> resolution_spec_v2
      \<Rightarrow> 'w rt \<Rightarrow> (nat \<times> 'w rt) rt_res" where
  "create_and_reveal_price = create_and_reveal"

definition reveal_spec :: "'w rt_peers \<Rightarrow> env \<Rightarrow> nat \<Rightarrow> resolution_spec_v2 \<Rightarrow> 'w rt \<Rightarrow> 'w rt rt_res" where
  "reveal_spec R E market_id spec s =
     andThen (rt_load_config s) (\<lambda>cfg.
     andThen (verify_envelope R cfg spec) (\<lambda>_.
     andThen (rt_validate_rule (v2_rule spec)) (\<lambda>_.
     andThen (unwrap (tp_register_spec_v2 R E (rc_resolver cfg) market_id spec (rt_world s))) (\<lambda>w.
       Inr (s\<lparr>rt_world := w\<rparr>)))))"

definition buy_and_publish_trace ::
    "'w rt_peers \<Rightarrow> env \<Rightarrow> address \<Rightarrow> nat \<Rightarrow> outcome \<Rightarrow> int \<Rightarrow> int \<Rightarrow> string \<Rightarrow> bytesN \<Rightarrow> string \<Rightarrow> 'w rt
      \<Rightarrow> (nat \<times> 'w rt) rt_res" where
  "buy_and_publish_trace R E trader market_id out collateral_in min_shares_out action trace_hash ipfs_cid s =
     (if action = [] \<or> ipfs_cid = [] then Inl (Err RtInvalidTrace)
      else
      andThen (rt_load_config s) (\<lambda>cfg.
      andThen (ok_or RtNotInitialized (rc_reasoning_registry cfg)) (\<lambda>registry.
      andThen (require_auth E trader) (\<lambda>_.
      andThen (unwrap (tp_buy R E (rc_market_core cfg) trader market_id out collateral_in min_shares_out (rt_world s)))
        (\<lambda>(_, w).
      andThen (unwrap (tp_publish_trace R E registry trader market_id action trace_hash ipfs_cid w)) (\<lambda>(trace_id, w').
        Inr (trace_id, s\<lparr>rt_world := w',
          rt_events := rt_events s @ [EvBoughtAndPublishedTrace market_id trader trace_id]\<rparr>)))))))"

definition rt_config_view :: "'w rt \<Rightarrow> router_config rt_res" where
  "rt_config_view s = rt_load_config s"

section \<open>On the models of the other contracts\<close>

text \<open>The market contract at \<open>core\<close> and the resolver at \<open>res\<close>; the world is the resolver's state, which
  holds the market contract's. Purchases and traces stay parameters.\<close>

fun maybe :: "('e, 'a) res \<Rightarrow> 'a option" where
  "maybe (Inr x) = Some x"
| "maybe (Inl e) = None"

lemma maybe_eq [res_simps]: "maybe r = Some x \<longleftrightarrow> r = Inr x"
  by (cases r) auto

definition model_peers ::
    "'t token \<Rightarrow> (address \<Rightarrow> address option) \<Rightarrow> address \<Rightarrow> address \<Rightarrow> 't mc rs_peers \<Rightarrow> 't mc rs rt_peers
      \<Rightarrow> 't mc rs rt_peers" where
  "model_peers T peer core res others rest = rest
     \<lparr>tp_create_market := (\<lambda>E a creator qh rh uri cat close seed bps s.
        map_option (\<lambda>(i, c). (i, s\<lparr>rs_world := c\<rparr>)) (maybe (at_core core a
          (create_market T (callee_env core E) creator qh rh uri cat close seed bps (rs_world s))))),
      tp_register_spec_v2 := (\<lambda>E a i spec s.
        maybe (at_core res a (register_spec_v2 (core_peers T peer core others) i spec s))),
      tp_network_id := rp_network_id others, tp_sha256 := rp_sha256 others, tp_xdr_v2 := rp_xdr_v2 others\<rparr>"

lemma router_hash: "rt_spec_v2_hash (model_peers T peer core res others rest) spec = spec_v2_hash (core_peers T peer core others) spec"
  by (simp add: rt_spec_v2_hash_def spec_v2_hash_def model_peers_def core_peers_def RT_SPEC_DOMAIN_def RS_SPEC_DOMAIN_def)

text \<open>A rule the router accepts is accepted by the resolver.\<close>

lemma router_rule: "rt_validate_rule r = Inr u \<Longrightarrow> validate_rule r = Inr ()"
  by (cases r) (auto simp: validate_rule_def signer_config_ok_def split: if_splits)

text \<open>A market that does not exist yet has no rule and is not resolved.\<close>

lemma fresh_market:
  assumes "token_ok T" and "resolver_reached T peer core self others t s" and "mc_markets (rs_world s) i = None"
  shows "rules_of i (rs_rules s) = []" and "\<not> terminal i s"
proof -
  note inv = reached_inv [OF assms(1,2), unfolded rs_inv_def]
  show "rules_of i (rs_rules s) = []"
    using inv assms(3) by (auto simp: rules_inv_def load_market_eq)
  show "\<not> terminal i s" using inv assms(3) by (auto simp: final_inv_def final_at_core)
qed

lemma create_market_fresh:
  assumes "mc_inv T self c" and "create_market T E cr qh rh uri cat close seed p c = Inr (i, c')"
  shows "mc_markets c i = None"
    and "\<exists>m. mc_markets c' = (mc_markets c)(i \<mapsto> m) \<and> mk_resolution_hash m = rh \<and> mk_status m = Open
      \<and> mk_creator m = cr \<and> mk_close_time m = close"
proof -
  obtain m where n: "in_next_id (mc_inst c) = Some i" and m: "mc_markets c' = (mc_markets c)(i \<mapsto> m)"
      "mk_resolution_hash m = rh" "mk_status m = Open" "mk_creator m = cr" "mk_close_time m = close"
    using create_market_ok [OF assms(2)] by (metis market.select_convs(1,3,6,8))
  show "mc_markets c i = None" using assms(1) n by (auto simp: mc_inv_def mc_inv_owing_def absent_at_def)
  show "\<exists>m. mc_markets c' = (mc_markets c)(i \<mapsto> m) \<and> mk_resolution_hash m = rh \<and> mk_status m = Open
      \<and> mk_creator m = cr \<and> mk_close_time m = close" using m by blast
qed

lemma reveal_fresh:
  assumes "rules_of i (rs_rules s) = []" and "\<not> terminal i s" and "load_core s = Inr core"
    and "mc_markets (rs_world s) i = Some m" and "commitment = mk_resolution_hash m" and "validate_rule rule = Inr ()"
  shows "reveal (core_peers T peer core others) i rule commitment s = Inr (store_rule i rule s)"
  using assms
  by (simp add: reveal_def assert_unconfigured_def configured_eq assert_matches_commitment_def load_market_of_def
      load_market_eq res_simps)

end
