(* ===== verification/RouterProps.thy ===== *)
theory RouterProps
  imports Router
begin

text \<open>
  What the router promises (\<^verbatim>\<open>contracts/router/src/lib.rs\<close>): whenever the market contract creates the
  market, the resolver accepts the reveal, so a market made through it can always be resolved.
\<close>

section \<open>The two calls\<close>

text \<open>What the router has checked, and what the transaction leaves.\<close>

definition routed :: "'w rt_peers \<Rightarrow> router_config \<Rightarrow> resolution_spec_v2 \<Rightarrow> bool" where
  "routed R cfg spec \<longleftrightarrow> verify_envelope R cfg spec = Inr () \<and> rt_validate_rule (v2_rule spec) = Inr ()"

lemma create_and_reveal_eq:
  assumes "rt_config s = Some cfg"
  shows "create_and_reveal R E creator qh uri cat close seed bps spec s = Inr (i, s')
     \<longleftrightarrow> routed R cfg spec \<and> e_auth E creator
       \<and> (\<exists>w w'. tp_create_market R E (rc_market_core cfg) creator qh (rt_spec_v2_hash R spec) uri cat close seed bps
              (rt_world s) = Some (i, w)
            \<and> tp_register_spec_v2 R E (rc_resolver cfg) i spec w = Some w'
            \<and> s' = s\<lparr>rt_world := w',
                 rt_events := rt_events s @ [EvMarketCreatedAndRevealed i creator (rt_spec_v2_hash R spec)]\<rparr>)"
  by (cases "tp_create_market R E (rc_market_core cfg) creator qh (rt_spec_v2_hash R spec) uri cat close seed bps
        (rt_world s)")
     (auto simp: create_and_reveal_def rt_load_config_def assms routed_def Let_def res_simps require_auth_def
       simp del: rt.simps)

lemma registers_in_new_market:
  assumes "token_ok T" and "resolver_reached T peer core self others t s"
    and "create_market T E creator qh (spec_v2_hash (core_peers T peer core others) spec) uri cat close seed bps
           (rs_world s) = Inr (i, c)"
    and "routed (model_peers T peer core self others rest) cfg spec" and "rc_market_core cfg = core"
  shows "register_spec_v2 (core_peers T peer core others) i spec (s\<lparr>rs_world := c\<rparr>)
           = Inr (store_rule i (v2_rule spec) (s\<lparr>rs_world := c\<rparr>))"
proof -
  note inv = reached_inv [OF assms(1,2), unfolded rs_inv_def]
  have "mc_inv T core (rs_world s)" using inv assms(1) mc_reachable_inv by blast
  note fresh = create_market_fresh [OF this assms(3)]
  have new: "mc_markets (rs_world s) i = None" using fresh(1) .
  obtain m where m: "mc_markets c i = Some m"
      "mk_resolution_hash m = spec_v2_hash (core_peers T peer core others) spec"
    using fresh(2) by (metis fun_upd_same)
  have "reveal (core_peers T peer core others) i (v2_rule spec) (spec_v2_hash (core_peers T peer core others) spec)
      (s\<lparr>rs_world := c\<rparr>) = Inr (store_rule i (v2_rule spec) (s\<lparr>rs_world := c\<rparr>))"
    using fresh_market [OF assms(1,2) new] inv m assms(4)
    by (intro reveal_fresh [where m = m])
       (auto simp: terminal_def resolution_state_of_def load_core_def routed_def router_rule res_simps)
  then show ?thesis
    using inv assms(4,5)
    by (auto simp: register_spec_v2_def routed_def verify_envelope_def model_peers_def core_peers_def load_core_def
        RS_SPEC_V2_VERSION_def RT_SPEC_V2_VERSION_def res_simps split: if_splits)
qed

lemma store_rule_rules: "rs_rules (store_rule i r s) = put_rule i r (rs_rules s)"
  by (auto simp: store_rule_def set_state_def pin_policy_def upd_rules_def split: option.splits)

lemma routed_rule:
  assumes "rt_validate_rule r = Inr ()" and "rules_of i (rs_rules s) = []"
  shows "rules_of i (rs_rules (store_rule i r s)) = [SpecRule r]" and "expiry_mode_of i (store_rule i r s) \<noteq> ModeUnrevealed"
proof -
  show "rules_of i (rs_rules (store_rule i r s)) = [SpecRule r]"
    using rules_of_put(1) [OF assms(2), of "SpecRule r"] by (simp add: store_rule_rules)
  show "expiry_mode_of i (store_rule i r s) \<noteq> ModeUnrevealed"
    using assms(1)
    by (cases r) (auto simp: store_rule_rules expiry_mode_of_def has_price_rule_def has_signer_rule_def)
qed

section \<open>A market made through the router\<close>

text \<open>A deployment: the resolver 7 and the router 5 for the market contract 100, before any market.\<close>

definition route_others :: "ledger mc rs_peers" where
  "route_others = demo_others\<lparr>rp_sha256 := (\<lambda>_. [])\<rparr>"

definition route_judge :: "ledger mc rs" where
  "route_judge = rs_constructor 9 100 (rs_deployed demo0)"

definition route_peers :: "ledger mc rs rt_peers" where
  "route_peers =
     \<lparr>tp_create_market = (\<lambda>E a cr qh rh uri cat close seed p w. None), tp_register_spec_v2 = (\<lambda>E a i spec w. None),
      tp_buy = (\<lambda>E a tr i out col least w. None), tp_publish_trace = (\<lambda>E a ag i act h cid w. None),
      tp_network_id = [], tp_sha256 = (\<lambda>_. []), tp_xdr_v2 = (\<lambda>_. [])\<rparr>"

definition route_env :: env where
  "route_env = \<lparr>e_now = 100, e_seq = 100, e_max_ttl = 3110400, e_self = 5, e_auth = (\<lambda>a. a \<noteq> 100)\<rparr>"

definition route_spec :: resolution_spec_v2 where
  "route_spec = \<lparr>v2_version = 2, v2_network_id = [], v2_market_core = 100, v2_salt = [1],
     v2_rule = Signers \<lparr>sc_signers = [11, 12], sc_threshold = 2, sc_dispute_window = 3600\<rparr>\<rparr>"

definition route_cfg :: router_config where
  "route_cfg = \<lparr>rc_market_core = 100, rc_resolver = 7, rc_reasoning_registry = None\<rparr>"

definition route0 :: "ledger mc rs rt" where
  "route0 = rt_constructor 100 7 None \<lparr>rt_config = None, rt_world = route_judge, rt_events = []\<rparr>"

lemma route_reached: "resolver_reached ledger_token no_peer 100 7 route_others 0 route_judge"
  using demo_reach(1) runs_start unfolding resolver_reached_def rs_reached_def route_judge_def by blast

lemma route_callee: "callee_env 100 route_env = demo_env 100"
  by (auto simp: callee_env_def route_env_def demo_env_def fun_eq_iff)

text \<open>What a new market owes its creator: it is open under the committed hash, its only rule is the revealed
  one, and expiry does not treat it as unrevealed.\<close>

definition resolvable :: "nat \<Rightarrow> address \<Rightarrow> nat \<Rightarrow> bytesN \<Rightarrow> resolution_spec \<Rightarrow> 't mc rs \<Rightarrow> bool" where
  "resolvable i creator close h rule s \<longleftrightarrow>
     rules_of i (rs_rules s) = [SpecRule rule] \<and> expiry_mode_of i s \<noteq> ModeUnrevealed
     \<and> (\<exists>m. mc_markets (rs_world s) i = Some m \<and> mk_status m = Open \<and> mk_resolution_hash m = h
          \<and> mk_creator m = creator \<and> mk_close_time m = close)"

lemma store_rule_world: "rs_world (store_rule i r s) = rs_world s"
  by (simp add: store_rule_def set_state_def pin_policy_def upd_rules_def split: option.split)

lemma stored_is_resolvable:
  assumes "token_ok T" and "resolver_reached T peer core self others t s"
    and "create_market T E creator qh h uri cat close seed bps (rs_world s) = Inr (i, c)"
    and "rt_validate_rule r = Inr ()"
  shows "resolvable i creator close h r (store_rule i r (s\<lparr>rs_world := c\<rparr>))"
proof -
  have "mc_inv T core (rs_world s)"
    using reached_inv [OF assms(1,2)] assms(1) mc_reachable_inv unfolding rs_inv_def by blast
  note fresh = create_market_fresh [OF this assms(3)]
  have none: "rules_of i (rs_rules (s\<lparr>rs_world := c\<rparr>)) = []" using fresh_market(1) [OF assms(1,2) fresh(1)] by simp
  show ?thesis using routed_rule [OF assms(4) none] fresh(2) by (auto simp: resolvable_def store_rule_world)
qed

text \<open>C9. Creating a market through the router and revealing its rule happen together or not at all, and the
  reveal is never what fails: over the models of the market contract and of a resolver in any reached
  state, a call succeeds exactly when the envelope and the rule pass the router's checks, the creator
  authorises, and the market contract creates the market under the hash of the reveal. The new market is
  then open with that hash, creator and close time, its only rule is the revealed one, and it does not
  expire as unrevealed.\<close>

theorem created_markets_are_resolvable:
  assumes "token_ok T" and "resolver_reached T peer core self others t (rt_world rt)"
    and "rt_config rt = Some cfg" and "rc_market_core cfg = core" and "rc_resolver cfg = self"
    and "R = model_peers T peer core self others rest" and "h = spec_v2_hash (core_peers T peer core others) spec"
  shows "(create_and_reveal R E creator qh uri cat close seed bps spec rt = Inr (i, rt')
     \<longleftrightarrow> verify_envelope R cfg spec = Inr () \<and> rt_validate_rule (v2_rule spec) = Inr () \<and> e_auth E creator
       \<and> (\<exists>c. create_market T (callee_env core E) creator qh h uri cat close seed bps (rs_world (rt_world rt)) = Inr (i, c)
            \<and> rt' = rt\<lparr>rt_world := store_rule i (v2_rule spec) (rt_world rt\<lparr>rs_world := c\<rparr>),
                       rt_events := rt_events rt @ [EvMarketCreatedAndRevealed i creator h]\<rparr>))
     \<and> (create_and_reveal R E creator qh uri cat close seed bps spec rt = Inr (i, rt')
          \<longrightarrow> resolvable i creator close h (v2_rule spec) (rt_world rt'))" (is "(?made \<longleftrightarrow> ?can) \<and> _")
proof -
  let ?s = "rt_world rt" and ?P = "core_peers T peer core others"
  have reg: "register_spec_v2 ?P j spec (?s\<lparr>rs_world := c\<rparr>) = Inr (store_rule j (v2_rule spec) (?s\<lparr>rs_world := c\<rparr>))"
    if "create_market T (callee_env core E) creator qh h uri cat close seed bps (rs_world ?s) = Inr (j, c)"
      and "routed R cfg spec" for j c
    by (rule registers_in_new_market [OF assms(1,2) that(1)[unfolded assms(7)] that(2)[unfolded assms(6)] assms(4)])
  have hash: "rt_spec_v2_hash R spec = h" by (simp add: assms(6,7) router_hash)
  have made: "tp_create_market R E core creator qh h uri cat close seed bps ?s
      = map_option (\<lambda>(i, c). (i, ?s\<lparr>rs_world := c\<rparr>))
          (maybe (create_market T (callee_env core E) creator qh h uri cat close seed bps (rs_world ?s)))"
    by (simp add: assms(6) model_peers_def at_core_def)
  have told: "tp_register_spec_v2 R E self j spec w = maybe (register_spec_v2 ?P j spec w)" for j w
    by (simp add: assms(6) model_peers_def at_core_def)
  have iff: "?made \<longleftrightarrow> ?can"
    unfolding create_and_reveal_eq [where R = R, OF assms(3)] assms(4,5) hash made told
    using reg by (auto simp: routed_def maybe_eq)
  moreover have "resolvable i creator close h (v2_rule spec) (rt_world rt')" if ?made
  proof -
    from that [unfolded iff] obtain c where c: "rt_world rt' = store_rule i (v2_rule spec) (?s\<lparr>rs_world := c\<rparr>)"
        "create_market T (callee_env core E) creator qh h uri cat close seed bps (rs_world ?s) = Inr (i, c)"
      and ok: "rt_validate_rule (v2_rule spec) = Inr ()" by auto
    show ?thesis unfolding c(1) by (rule stored_is_resolvable [OF assms(1,2) c(2) ok])
  qed
  ultimately show ?thesis by blast
qed

theorem created_markets_are_resolvable_witness:
  "\<exists>rt'. create_and_reveal (model_peers ledger_token no_peer 100 7 route_others route_peers) route_env 2 [] [] Other
      1000 1000000000 5000 route_spec route0 = Inr (0, rt')
    \<and> resolvable 0 2 1000 [] (v2_rule route_spec) (rt_world rt')"
proof -
  let ?R = "model_peers ledger_token no_peer 100 7 route_others route_peers"
  have parts: "rt_config route0 = Some route_cfg" "rc_market_core route_cfg = 100" "rc_resolver route_cfg = 7"
      "rt_world route0 = route_judge" "rs_world route_judge = demo0"
    by (simp_all add: route0_def rt_constructor_def route_cfg_def route_judge_def rs_constructor_def rs_deployed_def)
  have reached: "resolver_reached ledger_token no_peer 100 7 route_others 0 (rt_world route0)"
    using route_reached parts(4) by simp
  have ok: "verify_envelope ?R route_cfg route_spec = Inr ()" "rt_validate_rule (v2_rule route_spec) = Inr ()"
      "e_auth route_env 2"
    and hash: "[] = spec_v2_hash (core_peers ledger_token no_peer 100 route_others) route_spec"
    by (simp_all add: verify_envelope_def model_peers_def route_cfg_def route_spec_def RT_SPEC_V2_VERSION_def
        route_others_def demo_others_def route_env_def spec_v2_hash_def core_peers_def Cons_replicate_eq)
  show ?thesis
    using created_markets_are_resolvable [OF token_ok_ledger reached parts(1-3) refl hash, of route_peers route_env
        2 "[]" "[]" Other 1000 1000000000 5000 0] ok demo1_run
    unfolding route_callee parts(4,5) by blast
qed

end
