(* ===== verification/Spec2Isabelle.thy ===== *)
theory Spec2Isabelle
  imports FpmmProps MarketProps MarketRules MarketTrades MarketBatch MarketClosing MarketAdmin TimelockProps
    Correlation TreasuryProps TreasuryVaultProps TreasuryMarket TreasuryBuys PriceProps ResolverProps RegistryProps RegistryMarket RouterProps
begin

text \<open>
  OracleDesk's Soroban contracts (\<^verbatim>\<open>src/oracledesk-stellar/contracts/\<close>): a prediction-market
  protocol in which agents trade the collateral of a shared treasury on binary markets.

  \<^bold>\<open>The program.\<close> \<^verbatim>\<open>market-core\<close> keeps the markets: a constant-product pool of complete sets
  per market, holders' positions, fees, a price accumulator, resolution and settlement.
  \<^verbatim>\<open>treasury\<close> is the vault: depositors hold shares of it, registered agents spend its collateral
  on markets within caps, settlement returns it, withdrawals are paid or queued.
  \<^verbatim>\<open>timelock\<close> is the admin of both in production and delays privileged calls.
  \<^verbatim>\<open>oracledesk-types\<close> are the shared types. \<^verbatim>\<open>resolver\<close> decides outcomes by the rule a market
  committed to at its creation (a price feed, signers, weighted keys, a committee, or a feed with
  signers as fallback) and is the only caller of the market contract's \<open>resolve\<close> and \<open>void_market\<close>.
  \<^verbatim>\<open>reasoning-registry\<close> is the log of the traces agents publish about their decisions: indexed per
  market, hash-chained per agent, consumed by other contracts, signed, or anchored as Merkle batches.
  \<^verbatim>\<open>router\<close> creates a market and reveals its rule in one transaction.

  \<^bold>\<open>How the code is modelled.\<close> A contract's storage is a record; an entry that may be absent is an
  option or a partial map. An entry point is a function from the call's \<open>env\<close> (ledger time and
  sequence, own address, who authorised the call), its arguments and the state to \<open>res\<close>:
  \<open>Inr\<close> the result with the new state, or \<open>Inl\<close> a contract error or a trap. A failed call is
  rolled back by the host, so it leaves no state. Integers are \<open>int\<close> and \<open>nat\<close> with the range
  check of every operation written out (\<open>add_i128\<close>, \<open>add_u64\<close>, ...: the release profile traps on
  overflow; checked and saturating operations are themselves), bit masks are \<open>32 word\<close>. Loops are
  structural recursions over the source's ranges, with the source's own read limits as the measure of
  the two feed loops (12 and 32 reads); the integer square root is a function with a termination
  proof, and so is the climb of an inclusion proof. No fuel is used.

  \<^bold>\<open>Theories.\<close>
  \<^item> \<open>Prelude\<close>, \<open>Host\<close>, \<open>OracleTypes\<close>, \<open>Ttl\<close>: results and checked arithmetic with the
    simplification collections the proofs use (\<open>res_simps\<close>, \<open>int_ops\<close>); the host's environment and
    the locale \<open>ledger_token\<close> of what a collateral token promises, with its concrete ledger;
    \<^verbatim>\<open>oracledesk-types\<close>; \<^verbatim>\<open>ttl.rs\<close>.
  \<^item> \<open>FpmmMath\<close> (\<^verbatim>\<open>market-core/src/math.rs\<close>), \<open>FpmmCorrect\<close>, \<open>FpmmProps\<close>: quotes are exact and
    optimal, no sequence of trades earns a risk-free profit, nothing overflows within the bounds.
  \<^item> \<open>MarketState\<close>, \<open>MarketOps\<close>, \<open>MarketViews\<close> (\<^verbatim>\<open>market-core/src/lib.rs\<close>): storage with its
    helpers, every state-changing entry point, every view. \<open>MarketFacts\<close> has one elimination lemma
    per handler; \<open>MarketInv\<close> and \<open>MarketSettle\<close> the accounting invariant and its preservation;
    \<open>MarketSteps\<close> the contract as a transition system (\<open>mc_step\<close>) and its reachable states;
    \<open>MarketTrace\<close> the life of one market; \<open>MarketDemo\<close> a concrete run that the instances use.
    \<open>MarketProps\<close>, \<open>MarketRules\<close>, \<open>MarketTrades\<close>, \<open>MarketBatch\<close>, \<open>MarketClosing\<close>, \<open>MarketAdmin\<close>
    hold the properties: solvency and full payment, the rules of a market's life, what a trader is
    promised, batches as sequences of single settlements, how the books of a final market move until
    it is closed and what is refused from then on, the admin role.
  \<^item> \<open>Handover\<close>: the two-step admin handover as a locale, interpreted on the market contract,
    the timelock and the registry.
  \<^item> \<open>Timelock\<close>, \<open>TimelockProps\<close> (\<^verbatim>\<open>timelock/src/lib.rs\<close>): the contract, and that calls wait,
    run once, and leave it only when due or allow-listed.
  \<^item> Treasury (\<^verbatim>\<open>treasury/src/lib.rs\<close>), one theory per part of its storage:
    \<open>RingWindow\<close> (the ring behind both time windows, with its abstract view as a function of time),
    \<open>UsageWindow\<close> (hourly buckets of the daily caps), \<open>OpenIndex\<close> (open-market index, locale
    \<open>bounded_set\<close>), \<open>NetBook\<close> (net positions and their running total), \<open>Vault\<close> (shares and
    withdrawal queue), \<open>Correlation\<close> (\<^verbatim>\<open>correlation.rs\<close>). \<open>TreasuryTypes\<close> and
    \<open>TreasuryState\<close> are types and storage; \<open>TreasuryGov\<close>, \<open>TreasuryVaultOps\<close>, \<open>TreasuryTrade\<close> the
    entry points in the source's order: configuration and agents, vault and lending, trading and
    settlement. \<open>TreasuryFacts\<close>, \<open>TreasurySteps\<close> and \<open>TreasuryBank\<close> say what each helper and
    each group of calls changes; \<open>TreasuryCalls\<close> is the call type with its execution function;
    \<open>TreasuryInv\<close> the invariant of the books and the history of spends; \<open>TreasuryDemo\<close> a concrete
    treasury. \<open>TreasuryProps\<close> and \<open>TreasuryVaultProps\<close> hold the properties: daily caps over any
    24 hours, balanced books, delayed loosening, the drawdown pause, a first-in-first-out queue, a
    share price that does not fall while the assets cover the reserve, the index as a bounded set. \<open>TreasuryMarket\<close> puts the model of the
    market contract and its token in the place of the treasury's peers: the locale \<open>world_kept\<close> is what
    the treasury's calls may do to the contracts around it, and its interpretation shows that they
    are calls of the market contract, which so stays solvent. \<open>TreasuryBuys\<close> says what an agent's
    purchase does on that composition: the policy's limits hold on the market's own prices, and the
    payment is booked within the caps.
  \<^item> Resolver (\<^verbatim>\<open>resolver/src/lib.rs\<close>): \<open>ResolverTypes\<close> has its types, the hashes of rules and the
    storage record \<open>rs\<close>, one sub-record per group of \<^verbatim>\<open>DataKey\<close>s (rules, votes, disputes,
    committees, evidence); \<open>PriceFeed\<close> the reads of price feeds and the three price outcomes;
    \<open>ResolverState\<close> the storage helpers and the reveal of rules; \<open>ResolverOps\<close> every entry point in
    the source's order. \<open>ResolverCalls\<close> is the call type with its execution function and the step
    relation \<open>rs_step\<close>, one rule per kind of state change; \<open>ResolverFacts\<close> shows that every call
    is such a step. \<open>ResolverInv\<close> has the locale \<open>market_service\<close> (what the resolver relies on of
    the market contract), histories of calls interleaved with outside activity, and the
    invariants; \<open>ResolverSteps\<close> their preservation; \<open>ResolverLife\<close> what a step does to a market's
    state and rule; \<open>ResolverBonds\<close> the locale \<open>bond_custody\<close> and the custody of dispute bonds.
    \<open>ResolverMarket\<close> interprets both on the model of the market contract, \<open>ResolverDemo\<close> on a
    concrete one with a concrete history. \<open>PriceProps\<close> (exact price rules) and \<open>ResolverProps\<close>
    (only committed rules, only after close, quorum, finality, bonds) hold the properties.
  \<^item> Registry (\<^verbatim>\<open>reasoning-registry/src/lib.rs\<close>): \<open>RegistryTypes\<close> has its types and the storage record
    \<open>rg\<close>, one sub-record per group of \<^verbatim>\<open>DataKey\<close>s (log, chains, consumption, flags, keys);
    \<open>RegistryOps\<close> the admin, agents, publishing, consumption, flags and views; \<open>RegistryKeys\<close> the
    signing keys, signed traces and inclusion proofs. \<open>RegistryCalls\<close> is the call type with its
    execution function and the step relation \<open>rg_step\<close> that every call is shown to be;
    \<open>RegistryLog\<close> the invariants of log, chains and keys over the sub-log of a market
    (\<open>traces_of\<close>) or an agent (\<open>chain_ids\<close>), \<open>RegistrySteps\<close> their preservation and what a history
    cannot undo; \<open>RegistryMerkle\<close> the tree behind a batch with its proofs. \<open>RegistryDemo\<close> is a
    concrete log; \<open>RegistryProps\<close> holds the properties: pages are the log, chains have no gaps,
    history is immutable, a trace is consumed once, signatures verify for ever, inclusion proofs are
    complete and sound. \<open>RegistryAdmin\<close> is its admin role. \<open>RegistryMarket\<close> puts the registry beside the
    model of the market contract: the locale \<open>counted_markets\<close> is what it relies on of that contract,
    and its interpretation gives that traces name existing markets.
  \<^item> \<open>Router\<close>, \<open>RouterProps\<close> (\<^verbatim>\<open>router/src/lib.rs\<close>): the contract, and its composition with the
    models of the market contract and the resolver, where a reveal never fails after a creation.

  \<^bold>\<open>What is outside.\<close> The collateral token, the contracts a contract calls, and the host's hash
  functions are parameters: \<open>token\<close> for the market contract (with \<open>token_ok\<close>, the documented
  behaviour of a token), \<open>invoke\<close> for the timelock's target calls, the record \<open>'w peers\<close> for the
  treasury, \<open>'w rs_peers\<close> for the resolver and \<open>'w rt_peers\<close> for the router, over a state of everything
  outside it (market contract, feeds, reasoning registry, token transfers, encodings, the Ed25519
  check), and \<open>rg_peers\<close> for the registry, which only reads from outside. \<open>ledger_token\<close> and
  \<open>demo_peers\<close> are concrete ones for the instances. Authorisation is the set of addresses that authorised the call.

  \<^bold>\<open>Not modelled.\<close> Lifetime extension of storage entries (\<open>bump_*\<close>, \<open>extend_ttl\<close>) and the
  authorisation entries a contract adds for nested calls change no stored value. The registry's
  \<^verbatim>\<open>publish_trace_batch\<close> is interleaved with text of other functions and does not parse, so batches
  have no writer in the model; the indexes per agent and per market and action, whose only writes
  stand in that text, and their views are left out. Two helpers and a constant the registry does not
  declare (\<^verbatim>\<open>require_active_agent\<close>, \<^verbatim>\<open>load_trace\<close>, \<^verbatim>\<open>ADMIN_PROPOSAL_TTL_SECS\<close>) are parameters.
  The fallback of \<^verbatim>\<open>load_agent\<close> for the booleans an earlier version stored is left out: reading such
  an entry as a record traps in the SDK before the fallback is reached.
  The treasury and the resolver reach the registry through their own parameters, the router's
  purchases and traces too.
  The resolver calls \<^verbatim>\<open>core_call\<close>, \<^verbatim>\<open>registry_call\<close> and \<^verbatim>\<open>to_core_outcome\<close>, which its crate does not
  define: how a market contract's error is renumbered is a parameter, and no property depends on it.
  Test support, fuzz targets and the off-chain scripts under
  \<^verbatim>\<open>scripts/\<close> are harnesses and command-line tools.
\<close>

end
